(* ===== verification/Prelude.thy ===== *)
theory Prelude
  imports Main "HOL-Library.Word" "HOL-Library.Monad_Syntax"
begin

text \<open>
  What every theory of the development shares: the machine types of the code, the
  way a panic is written, checked subtraction and checked indexing, and the facts on
  lists and options that the component proofs use.

  A Rust function that can panic (an index out of range, an \<open>assert!\<close>, a subtraction
  below zero, \<open>unwrap\<close> of \<open>None\<close>) returns an \<open>option\<close>: \<open>None\<close> is the panic. A function that
  returns \<open>Result\<close> returns \<open>error + 'a\<close>, with \<open>Inl\<close> the \<open>Err\<close> case.
\<close>

named_theorems collab_defs "definitions unfolded when a closed run is evaluated"

section \<open>Machine types\<close>

text \<open>
  Identifiers are kept at their width, since they are compared and (for site ids) drawn from a
  wrapping counter. Positions, lengths and sequence numbers count characters and operations;
  they are natural numbers here, with every subtraction of the code checked.
\<close>

type_synonym u32 = "32 word"
type_synonym u64 = "64 word"
type_synonym doc_id = u32
type_synonym site_id = u32

text \<open>A Unicode scalar value (a Rust \<open>char\<close>) and the contents of a Rust \<open>String\<close> as scalars.\<close>

type_synonym scalar = nat
type_synonym utext = "scalar list"

section \<open>Panics\<close>

definition ensure :: "bool \<Rightarrow> unit option" where
  "ensure b = (if b then Some () else None)"

definition sub_c :: "nat \<Rightarrow> nat \<Rightarrow> nat option" where
  "sub_c a b = (if b \<le> a then Some (a - b) else None)"

definition nth_c :: "'a list \<Rightarrow> nat \<Rightarrow> 'a option" where
  "nth_c xs i = (if i < length xs then Some (xs ! i) else None)"

lemma ensure_simps [simp]:
  "ensure b = Some u \<longleftrightarrow> b"
  "ensure b = None \<longleftrightarrow> \<not> b"
  "ensure True = Some ()"
  "ensure False = None"
  by (auto simp: ensure_def)

lemma sub_c_eq_Some [simp]: "sub_c a b = Some c \<longleftrightarrow> b \<le> a \<and> c = a - b"
  by (auto simp: sub_c_def)

lemma sub_c_eq_None [simp]: "sub_c a b = None \<longleftrightarrow> a < b"
  by (auto simp: sub_c_def)

lemma sub_c_ok [simp]: "b \<le> a \<Longrightarrow> sub_c a b = Some (a - b)"
  by (simp add: sub_c_def)

lemma nth_c_eq_Some [simp]: "nth_c xs i = Some x \<longleftrightarrow> i < length xs \<and> x = xs ! i"
  by (auto simp: nth_c_def)

lemma nth_c_eq_None [simp]: "nth_c xs i = None \<longleftrightarrow> length xs \<le> i"
  by (auto simp: nth_c_def)

lemma nth_c_ok [simp]: "i < length xs \<Longrightarrow> nth_c xs i = Some (xs ! i)"
  by (simp add: nth_c_def)

lemma bind_checked:
  "Option.bind (ensure b) f = (if b then f () else None)"
  "Option.bind (sub_c m n) g = (if n \<le> m then g (m - n) else None)"
  "Option.bind (nth_c xs i) h = (if i < length xs then h (xs ! i) else None)"
  by (simp_all add: ensure_def sub_c_def nth_c_def)

section \<open>Lists\<close>

lemma take_drop_id_at: "i \<le> j \<Longrightarrow> take i xs @ take (j - i) (drop i xs) = take j xs"
  by (metis le_add_diff_inverse take_add)

lemma drop_take_split: "i \<le> j \<Longrightarrow> drop i xs = take (j - i) (drop i xs) @ drop j xs"
  by (metis append_take_drop_id drop_drop le_add_diff_inverse2)

lemma split_at_nth: "i < length xs \<Longrightarrow> xs = take i xs @ xs ! i # drop (Suc i) xs"
  by (simp add: id_take_nth_drop)

lemma take_Suc_nth: "i < length xs \<Longrightarrow> take (Suc i) xs = take i xs @ [xs ! i]"
  by (simp add: take_Suc_conv_app_nth)

lemma fold_invariant_list:
  assumes "P s" and "\<And>x s. x \<in> set xs \<Longrightarrow> P s \<Longrightarrow> P (f x s)"
  shows "P (fold f xs s)"
  using assms by (induction xs arbitrary: s) auto

end
