(* ===== verification/Ops.thy ===== *)
theory Ops
  imports Prelude
begin

text \<open>
  The operations of \<open>op.rs\<close>: insertions and marks (a set of segments made live or dead), their
  transformation against a concurrent operation, and the list transformations of the OT control
  algorithm. The generic \<open>FatOp<O: Operation>\<close> takes the trait's \<open>transform\<close> as an argument,
  as the compiler's dictionary would.
\<close>

section \<open>Operations\<close>

datatype op_kind = Original | Undo nat

datatype op = Ins "nat \<times> utext" site_id | Mark "(nat \<times> utext) list" bool site_id

fun op_site :: "op \<Rightarrow> site_id" where
  "op_site (Ins _ site) = site"
| "op_site (Mark _ _ site) = site"

definition pos_less_than :: "nat \<Rightarrow> nat \<Rightarrow> site_id \<Rightarrow> site_id \<Rightarrow> bool" where
  "pos_less_than pos1 pos2 site1 site2 \<longleftrightarrow> pos1 < pos2 \<or> (pos1 = pos2 \<and> site1 < site2)"

definition transform_ii ::
  "nat \<times> utext \<Rightarrow> nat \<times> utext \<Rightarrow> site_id \<Rightarrow> site_id \<Rightarrow> nat \<times> utext" where
  "transform_ii op base osite bsite =
     (let (pos1, content1) = op; (pos2, content2) = base in
      if pos_less_than pos1 pos2 osite bsite then (pos1, content1)
      else (pos1 + length content2, content1))"

definition transform_di ::
  "nat \<times> utext \<Rightarrow> nat \<times> utext \<Rightarrow> site_id \<Rightarrow> site_id \<Rightarrow> (nat \<times> utext) list" where
  "transform_di op base osite bsite =
     (let (pos1, content1) = op; (pos2, content2) = base;
          end1 = pos1 + length content1; end2 = pos2 + length content2 in
      if pos_less_than end1 pos2 osite bsite then [(pos1, content1)]
      else if pos_less_than pos2 pos1 bsite osite then [(pos1 + length content2, content1)]
      else
        (let mid = pos2 - pos1;
             del_before_ins = (pos1, take mid content1);
             del_after_ins = (end2, drop mid content1) in
         (if length (snd del_before_ins) > 0 then [del_before_ins] else []) @
         (if length (snd del_after_ins) > 0 then [del_after_ins] else [])))"

fun inverse :: "op \<Rightarrow> op" where
  "inverse (Ins (pos, str) site) = Mark [(pos, str)] False site"
| "inverse (Mark ops live site) = Mark ops (\<not> live) site"

fun transform :: "op \<Rightarrow> op \<Rightarrow> op" where
  "transform (Ins op self_site) (Ins base base_site) =
     Ins (transform_ii op base self_site base_site) self_site"
| "transform (Mark ops live self_site) (Ins base base_site) =
     Mark (concat (map (\<lambda>op. transform_di op base self_site base_site) ops)) live self_site"
| "transform self (Mark _ _ _) = self"

section \<open>Operations with meta data\<close>

record 'o fat_op =
  fo_seq :: "nat option"
  fo_op :: 'o
  fo_site_seq :: nat
  fo_kind :: op_kind
  fo_group_seq :: nat

definition fat_swap :: "'o fat_op \<Rightarrow> 'p \<Rightarrow> 'p fat_op" where
  "fat_swap f p = \<lparr>fo_seq = fo_seq f, fo_op = p, fo_site_seq = fo_site_seq f,
     fo_kind = fo_kind f, fo_group_seq = fo_group_seq f\<rparr>"

definition fat_site :: "op fat_op \<Rightarrow> site_id" where
  "fat_site f = op_site (fo_op f)"

definition fat_transform :: "('o \<Rightarrow> 'o \<Rightarrow> 'o) \<Rightarrow> 'o fat_op \<Rightarrow> 'o fat_op \<Rightarrow> 'o fat_op" where
  "fat_transform tr self base = self\<lparr>fo_op := tr (fo_op self) (fo_op base)\<rparr>"

fun batch_transform :: "('o \<Rightarrow> 'o \<Rightarrow> 'o) \<Rightarrow> 'o fat_op \<Rightarrow> 'o fat_op list \<Rightarrow> 'o fat_op" where
  "batch_transform tr self [] = self"
| "batch_transform tr self (op # ops) = batch_transform tr (fat_transform tr self op) ops"

text \<open>The transformed \<open>self\<close> and the transformed \<open>ops\<close>.\<close>

fun symmetric_transform ::
  "('o \<Rightarrow> 'o \<Rightarrow> 'o) \<Rightarrow> 'o fat_op \<Rightarrow> 'o fat_op list \<Rightarrow> 'o fat_op \<times> 'o fat_op list" where
  "symmetric_transform tr self [] = (self, [])"
| "symmetric_transform tr self (op # ops) =
     (let new_op = fat_transform tr op self;
          (self', new_ops) = symmetric_transform tr (fat_transform tr self op) ops
      in (self', new_op # new_ops))"

definition fat_inverse :: "op fat_op \<Rightarrow> op fat_op" where
  "fat_inverse f = f\<lparr>fo_op := inverse (fo_op f)\<rparr>"

fun quatradic_transform ::
  "('o \<Rightarrow> 'o \<Rightarrow> 'o) \<Rightarrow> 'o fat_op list \<Rightarrow> 'o fat_op list \<Rightarrow> 'o fat_op list \<times> 'o fat_op list" where
  "quatradic_transform tr ops1 [] = (ops1, [])"
| "quatradic_transform tr ops1 (op2 # ops2) =
     (let (op2', ops1') = symmetric_transform tr op2 ops1;
          (ops1'', ops2') = quatradic_transform tr ops1' ops2
      in (ops1'', op2' # ops2'))"

end
