(* ===== verification/Tombstone.thy ===== *)
theory Tombstone
  imports Ops
begin

text \<open>
  The abstract document: every character ever inserted, with a flag that is false for a tombstone.
  Operations act on it by internal positions. It is the specification of \<open>InternalDoc\<close> (which
  stores only the run lengths of the flags) and of the editors' buffers (which store only the live
  characters). The main result is the square of concurrent operations (the TP1 property) for
  \<open>transform\<close>, first for two operations and then, inside a locale, for the list
  transformations of the control algorithm.
\<close>

type_synonym cells = "(scalar \<times> bool) list"

section \<open>Applying operations\<close>

definition t_ins :: "nat \<Rightarrow> utext \<Rightarrow> cells \<Rightarrow> cells" where
  "t_ins p s d = take p d @ map (\<lambda>c. (c, True)) s @ drop p d"

definition t_mark :: "bool \<Rightarrow> nat \<Rightarrow> nat \<Rightarrow> cells \<Rightarrow> cells" where
  "t_mark live p n d =
     take p d @ map (\<lambda>c. (fst c, live)) (take n (drop p d)) @ drop (p + n) d"

fun t_marks :: "bool \<Rightarrow> (nat \<times> utext) list \<Rightarrow> cells \<Rightarrow> cells" where
  "t_marks live [] d = d"
| "t_marks live ((p, s) # es) d = t_marks live es (t_mark live p (length s) d)"

fun t_apply :: "op \<Rightarrow> cells \<Rightarrow> cells" where
  "t_apply (Ins (p, s) _) d = t_ins p s d"
| "t_apply (Mark es live _) d = t_marks live es d"

text \<open>The text an editor shows.\<close>

definition visible :: "cells \<Rightarrow> utext" where
  "visible d = map fst (filter snd d)"

text \<open>An operation fits a document when its positions lie inside.\<close>

fun op_fits :: "cells \<Rightarrow> op \<Rightarrow> bool" where
  "op_fits d (Ins (p, s) _) \<longleftrightarrow> p \<le> length d"
| "op_fits d (Mark es _ _) \<longleftrightarrow> (\<forall>e \<in> set es. fst e + length (snd e) \<le> length d)"

text \<open>
  Two operations may be concurrent: they come from different sites, and they are not marks of
  opposite kinds (deleting and reviving text do not commute; see the properties on undo).
\<close>

fun opposite_marks :: "op \<Rightarrow> op \<Rightarrow> bool" where
  "opposite_marks (Mark _ l1 _) (Mark _ l2 _) \<longleftrightarrow> l1 \<noteq> l2"
| "opposite_marks _ _ \<longleftrightarrow> False"

definition concurrent_ok :: "op \<Rightarrow> op \<Rightarrow> bool" where
  "concurrent_ok a b \<longleftrightarrow> op_site a \<noteq> op_site b \<and> \<not> opposite_marks a b"

section \<open>Pointwise characterisation\<close>

definition seg_set :: "(nat \<times> utext) list \<Rightarrow> nat set" where
  "seg_set es = (\<Union>e \<in> set es. {fst e ..< fst e + length (snd e)})"

lemma seg_set_simps [simp]:
  "seg_set [] = {}"
  "seg_set (e # es) = {fst e ..< fst e + length (snd e)} \<union> seg_set es"
  "seg_set (es @ fs) = seg_set es \<union> seg_set fs"
  by (auto simp: seg_set_def)

lemma length_t_ins [simp]: "length (t_ins p s d) = length d + length s"
  by (simp add: t_ins_def)

lemma length_t_mark [simp]: "length (t_mark live p n d) = length d"
  by (auto simp: t_mark_def min_def)

lemma length_t_marks [simp]: "length (t_marks live es d) = length d"
  by (induction live es d rule: t_marks.induct) auto

lemma nth_t_ins:
  assumes "p \<le> length d" and "i < length d + length s"
  shows "t_ins p s d ! i =
    (if i < p then d ! i else if i < p + length s then (s ! (i - p), True) else d ! (i - length s))"
  using assms by (auto simp: t_ins_def nth_append min_def)

lemma nth_t_mark:
  assumes "i < length d"
  shows "t_mark live p n d ! i = (if i \<in> {p..<p + n} then (fst (d ! i), live) else d ! i)"
  using assms by (auto simp: t_mark_def nth_append min_def)

lemma nth_t_marks:
  assumes "i < length d"
  shows "t_marks live es d ! i = (if i \<in> seg_set es then (fst (d ! i), live) else d ! i)"
  using assms
  by (induction live es d rule: t_marks.induct) (auto simp: nth_t_mark)

lemma map_snd_t_ins:
  "map snd (t_ins p s d) = take p (map snd d) @ replicate (length s) True @ drop p (map snd d)"
  by (simp add: t_ins_def take_map drop_map comp_def map_replicate_const)

lemma map_snd_t_mark:
  assumes "p + n \<le> length d"
  shows "map snd (t_mark live p n d) =
    take p (map snd d) @ replicate n live @ drop (p + n) (map snd d)"
  using assms by (simp add: t_mark_def take_map drop_map comp_def map_replicate_const)

section \<open>Transformed segments\<close>

definition shift_pos :: "nat \<Rightarrow> nat \<Rightarrow> nat \<Rightarrow> nat" where
  "shift_pos q k i = (if i < q then i else i + k)"

lemma mem_shift_image:
  "x \<in> shift_pos q k ` S \<longleftrightarrow> (x < q \<and> x \<in> S) \<or> (q + k \<le> x \<and> x - k \<in> S)"
proof
  assume "x \<in> shift_pos q k ` S"
  then show "(x < q \<and> x \<in> S) \<or> (q + k \<le> x \<and> x - k \<in> S)"
    by (auto simp: shift_pos_def split: if_splits)
next
  assume "(x < q \<and> x \<in> S) \<or> (q + k \<le> x \<and> x - k \<in> S)"
  then show "x \<in> shift_pos q k ` S"
  proof
    assume "x < q \<and> x \<in> S"
    then show ?thesis by (intro image_eqI [of _ _ x]) (auto simp: shift_pos_def)
  next
    assume "q + k \<le> x \<and> x - k \<in> S"
    then show ?thesis by (intro image_eqI [of _ _ "x - k"]) (auto simp: shift_pos_def)
  qed
qed

lemma seg_set_transform_di:
  "seg_set (transform_di (p, s) (q, t) a b) = shift_pos q (length t) ` {p..<p + length s}"
  by (rule set_eqI, unfold mem_shift_image)
    (auto simp: transform_di_def pos_less_than_def Let_def)

lemma seg_set_transform_mark:
  "seg_set (concat (map (\<lambda>e. transform_di e (q, t) a b) es)) =
    shift_pos q (length t) ` seg_set es"
proof (induction es)
  case (Cons e es)
  then show ?case by (cases e) (simp add: seg_set_transform_di image_Un)
qed simp

lemma transform_di_fits:
  assumes "p + length s \<le> n" and "e \<in> set (transform_di (p, s) (q, t) a b)"
  shows "fst e + length (snd e) \<le> n + length t"
  using assms by (auto simp: transform_di_def pos_less_than_def Let_def split: if_splits)

section \<open>The square of two operations\<close>

lemma square_ins_ins:
  assumes "p \<le> length d" and "q \<le> length d" and "p < q"
  shows "t_ins (q + length s) t (t_ins p s d) = t_ins p s (t_ins q t d)"
  using assms by (intro nth_equalityI) (auto simp: nth_t_ins ac_simps)

lemma square_ins_ins_same:
  assumes "p \<le> length d"
  shows "t_ins (p + length s) t (t_ins p s d) = t_ins p s (t_ins p t d)"
  using assms by (intro nth_equalityI) (auto simp: nth_t_ins ac_simps)

lemma square_ins_mark:
  assumes "q \<le> length d"
  shows "t_marks live (concat (map (\<lambda>e. transform_di e (q, t) a b) es)) (t_ins q t d) =
    t_ins q t (t_marks live es d)"
  using assms
  by (intro nth_equalityI)
    (auto simp: nth_t_ins nth_t_marks seg_set_transform_mark mem_shift_image)

lemma square_mark_mark:
  "t_marks live es (t_marks live fs d) = t_marks live fs (t_marks live es d)"
  by (intro nth_equalityI) (auto simp: nth_t_marks)

lemma transform_square:
  assumes "op_fits d a" and "op_fits d b" and "concurrent_ok a b"
  shows "t_apply (transform a b) (t_apply b d) = t_apply (transform b a) (t_apply a d)"
proof (cases a)
  case a: (Ins e1 s1)
  obtain p s where e1: "e1 = (p, s)" by (cases e1)
  show ?thesis
  proof (cases b)
    case b: (Ins e2 s2)
    obtain q t where e2: "e2 = (q, t)" by (cases e2)
    have ne: "s1 < s2 \<or> s2 < s1" using assms(3) a b by (auto simp: concurrent_ok_def)
    have fits: "p \<le> length d" "q \<le> length d" using assms a b e1 e2 by auto
    show ?thesis
      using ne fits square_ins_ins [of p d q s t] square_ins_ins [of q d p t s]
        square_ins_ins_same [of p d s t] square_ins_ins_same [of p d t s]
      by (cases "p < q"; cases "q < p")
        (auto simp: a b e1 e2 transform_ii_def pos_less_than_def)
  next
    case b: (Mark es live s2)
    show ?thesis using assms a b e1 by (simp add: square_ins_mark)
  qed
next
  case a: (Mark es live s1)
  show ?thesis
  proof (cases b)
    case b: (Ins e2 s2)
    obtain q t where e2: "e2 = (q, t)" by (cases e2)
    show ?thesis using assms a b e2 by (simp add: square_ins_mark)
  next
    case b: (Mark fs live' s2)
    show ?thesis using assms a b by (simp add: square_mark_mark concurrent_ok_def)
  qed
qed

lemma length_t_apply:
  "length (t_apply o1 d) = length d + (case o1 of Ins e _ \<Rightarrow> length (snd e) | Mark _ _ _ \<Rightarrow> 0)"
  by (cases o1) (auto split: prod.splits)

lemma transform_fits:
  assumes "op_fits d a" and "op_fits d b"
  shows "op_fits (t_apply b d) (transform a b)"
  using assms
  by (cases a; cases b)
    (fastforce simp: transform_ii_def length_t_apply split: prod.splits if_splits
      dest: transform_di_fits)+

lemma op_site_transform [simp]: "op_site (transform a b) = op_site a"
  by (cases a; cases b) auto

lemma opposite_marks_transform [simp]:
  "opposite_marks (transform a b) c = opposite_marks a c"
  "opposite_marks c (transform a b) = opposite_marks c a"
  by (cases a; cases b; cases c; simp)+

lemma concurrent_ok_transform [simp]:
  "concurrent_ok (transform a b) c = concurrent_ok a c"
  "concurrent_ok c (transform a b) = concurrent_ok c a"
  by (auto simp: concurrent_ok_def)

lemma concurrent_ok_sym: "concurrent_ok a b \<Longrightarrow> concurrent_ok b a"
  by (cases a; cases b) (auto simp: concurrent_ok_def)

end
