(* ===== verification/Agreement.thy ===== *)
theory Agreement
  imports Tombstone
begin

text \<open>
  When an operation agrees with a document: an insertion is non-empty and inside the document,
  and the segments of a mark are non-empty, in ascending order, do not overlap, and carry the
  characters that stand at their positions. The engines produce only such operations, and
  \<open>transform\<close> keeps the agreement: the text a mark carries is still the text of the document after a
  concurrent insertion has split or shifted the segments.
\<close>

section \<open>Ascending segments\<close>

fun ascending :: "nat \<Rightarrow> (nat \<times> 'a list) list \<Rightarrow> bool" where
  "ascending n [] \<longleftrightarrow> True"
| "ascending n ((p, s) # es) \<longleftrightarrow> n \<le> p \<and> s \<noteq> [] \<and> ascending (p + length s) es"

lemma ascending_mono: "ascending n es \<Longrightarrow> m \<le> n \<Longrightarrow> ascending m es"
  by (cases es) auto

lemma ascending_bound: "ascending n es \<Longrightarrow> e \<in> set es \<Longrightarrow> n \<le> fst e"
  by (induction n es rule: ascending.induct) auto

lemma ascending_nonempty: "ascending n es \<Longrightarrow> e \<in> set es \<Longrightarrow> snd e \<noteq> []"
  by (induction n es rule: ascending.induct) auto

lemma ascending_append:
  assumes "ascending n es" and "ascending m fs" and "n \<le> m"
    and "\<And>e. e \<in> set es \<Longrightarrow> fst e + length (snd e) \<le> m"
  shows "ascending n (es @ fs)"
  using assms by (induction n es rule: ascending.induct) (auto intro: ascending_mono)

lemma ascending_transform_di:
  assumes "ascending n es"
  shows "ascending (if n \<le> q then n else n + length t)
    (concat (map (\<lambda>e. transform_di e (q, t) a b) es))"
  using assms
proof (induction n es rule: ascending.induct)
  case (2 n p s es)
  let ?rest = "concat (map (\<lambda>e. transform_di e (q, t) a b) es)"
  from 2 have IH: "ascending (if p + length s \<le> q then p + length s else p + length s + length t) ?rest"
    and p: "n \<le> p" "s \<noteq> []" by auto
  consider (before) "p + length s \<le> q" "transform_di (p, s) (q, t) a b = [(p, s)]"
    | (after) "q \<le> p" "transform_di (p, s) (q, t) a b = [(p + length t, s)]"
    | (mid) "p < q" "q < p + length s"
        "transform_di (p, s) (q, t) a b = [(p, take (q - p) s), (q + length t, drop (q - p) s)]"
  proof -
    have "(p + length s \<le> q \<and> transform_di (p, s) (q, t) a b = [(p, s)]) \<or>
      (q \<le> p \<and> transform_di (p, s) (q, t) a b = [(p + length t, s)]) \<or>
      (p < q \<and> q < p + length s \<and> transform_di (p, s) (q, t) a b =
        [(p, take (q - p) s), (q + length t, drop (q - p) s)])"
      using p(2) by (auto simp: transform_di_def pos_less_than_def Let_def)
    then show thesis using before after mid by blast
  qed
  then show ?case
  proof cases
    case before
    with IH p show ?thesis by (auto intro: ascending_mono)
  next
    case after
    have "0 < length s" using p(2) by simp
    with after have "\<not> p + length s \<le> q" by linarith
    with after IH p show ?thesis by (auto simp: add.assoc add.commute add.left_commute)
  next
    case mid
    then have "q + length t + (length s - (q - p)) = p + length s + length t" by simp
    with mid IH p show ?thesis by (auto simp: min_def add.assoc add.commute add.left_commute)
  qed
qed simp

section \<open>Agreement\<close>

definition text_at :: "cells \<Rightarrow> nat \<times> utext \<Rightarrow> bool" where
  "text_at d e \<longleftrightarrow>
     fst e + length (snd e) \<le> length d \<and> take (length (snd e)) (drop (fst e) (map fst d)) = snd e"

fun op_agrees :: "cells \<Rightarrow> op \<Rightarrow> bool" where
  "op_agrees d (Ins (p, s) _) \<longleftrightarrow> p \<le> length d \<and> s \<noteq> []"
| "op_agrees d (Mark es _ _) \<longleftrightarrow> ascending 0 es \<and> (\<forall>e \<in> set es. text_at d e)"

lemma op_agrees_fits: "op_agrees d op \<Longrightarrow> op_fits d op"
  by (cases "(d, op)" rule: op_agrees.cases) (auto simp: text_at_def)

lemma map_fst_t_ins: "map fst (t_ins p s d) = take p (map fst d) @ s @ drop p (map fst d)"
  by (simp add: t_ins_def take_map drop_map comp_def)

lemma map_fst_t_mark [simp]: "map fst (t_mark live p n d) = map fst d"
  by (rule nth_equalityI) (simp_all add: nth_t_mark)

lemma map_fst_t_marks [simp]: "map fst (t_marks live es d) = map fst d"
  by (induction live es d rule: t_marks.induct) simp_all

lemma text_at_marks [simp]: "text_at (t_marks live es d) e = text_at d e"
  by (simp add: text_at_def)

lemma text_at_nth:
  "text_at d (p, s) \<longleftrightarrow>
     p + length s \<le> length d \<and> (\<forall>i < length s. s ! i = fst (d ! (p + i)))"
  by (auto simp: text_at_def list_eq_iff_nth_eq)

lemma text_at_transform_di:
  assumes "text_at d (p, s)" and "q \<le> length d"
    and "e \<in> set (transform_di (p, s) (q, t) a b)"
  shows "text_at (t_ins q t d) e"
  using assms
  by (auto simp: transform_di_def pos_less_than_def Let_def text_at_nth nth_t_ins split: if_splits)

lemma transform_agrees:
  assumes "op_agrees d a" and "op_agrees d b"
  shows "op_agrees (t_apply b d) (transform a b)"
proof (cases a)
  case a: (Ins e1 s1)
  with assms transform_fits [of d a b] op_agrees_fits [of d] show ?thesis
    by (cases b; cases e1) (auto simp: transform_ii_def length_t_apply split: prod.splits)
next
  case a: (Mark es live s1)
  show ?thesis
  proof (cases b)
    case b: (Ins e2 s2)
    obtain q t where e2: "e2 = (q, t)" by (cases e2)
    have "ascending 0 (concat (map (\<lambda>e. transform_di e (q, t) s1 s2) es))"
      using ascending_transform_di [of 0 es q t s1 s2] assms(1) a by simp
    moreover have "text_at (t_ins q t d) f"
      if "e \<in> set es" "f \<in> set (transform_di e (q, t) s1 s2)" for e f
      using text_at_transform_di [of d "fst e" "snd e" q f t s1 s2] that assms a b e2 by auto
    ultimately show ?thesis by (auto simp: a b e2)
  next
    case b: (Mark fs live' s2)
    with a assms show ?thesis by simp
  qed
qed

end
