(* ===== verification/Control.thy ===== *)
theory Control
  imports Agreement
begin

text \<open>
  The list transformations of the control algorithm (\<open>symmetric_transform\<close>,
  \<open>quatradic_transform\<close>, \<open>batch_transform\<close>) over an abstract \<open>Operation\<close>. What they preserve
  of the operations' meta data, and that a grid of transformations may be walked by rows or by
  columns, needs no law of \<open>transform\<close>. The locale \<open>ot_operation\<close> states the laws that
  \<open>transform\<close> promises and lifts the square of two operations to lists; it is interpreted on
  \<open>Op\<close> over documents with tombstones.
\<close>

section \<open>Meta data\<close>

lemma fat_transform_meta [simp]:
  "fo_seq (fat_transform tr f g) = fo_seq f"
  "fo_site_seq (fat_transform tr f g) = fo_site_seq f"
  "fo_kind (fat_transform tr f g) = fo_kind f"
  "fo_group_seq (fat_transform tr f g) = fo_group_seq f"
  "fo_op (fat_transform tr f g) = tr (fo_op f) (fo_op g)"
  by (simp_all add: fat_transform_def)

lemma batch_transform_meta [simp]:
  "fo_seq (batch_transform tr f gs) = fo_seq f"
  "fo_site_seq (batch_transform tr f gs) = fo_site_seq f"
  "fo_kind (batch_transform tr f gs) = fo_kind f"
  "fo_group_seq (batch_transform tr f gs) = fo_group_seq f"
  by (induction tr f gs rule: batch_transform.induct) simp_all

lemma batch_transform_append:
  "batch_transform tr f (gs @ hs) = batch_transform tr (batch_transform tr f gs) hs"
  by (induction tr f gs rule: batch_transform.induct) simp_all

lemma fst_symmetric_transform: "fst (symmetric_transform tr f gs) = batch_transform tr f gs"
  by (induction tr f gs rule: symmetric_transform.induct) (simp_all add: case_prod_beta Let_def)

lemma length_symmetric_transform [simp]: "length (snd (symmetric_transform tr f gs)) = length gs"
  by (induction tr f gs rule: symmetric_transform.induct) (simp_all add: case_prod_beta Let_def)

definition fo_meta :: "'o fat_op \<Rightarrow> nat option \<times> nat \<times> op_kind \<times> nat" where
  "fo_meta f = (fo_seq f, fo_site_seq f, fo_kind f, fo_group_seq f)"

lemma fo_meta_transform [simp]: "fo_meta (fat_transform tr f g) = fo_meta f"
  by (simp add: fo_meta_def)

lemma fo_meta_batch [simp]: "fo_meta (batch_transform tr f gs) = fo_meta f"
  by (simp add: fo_meta_def)

lemma fo_meta_symmetric [simp]:
  "map fo_meta (snd (symmetric_transform tr f gs)) = map fo_meta gs"
  by (induction tr f gs rule: symmetric_transform.induct) (simp_all add: case_prod_beta Let_def)

lemma fo_meta_quatradic [simp]:
  "map fo_meta (fst (quatradic_transform tr gs hs)) = map fo_meta gs"
  "map fo_meta (snd (quatradic_transform tr gs hs)) = map fo_meta hs"
  by (induction hs arbitrary: gs)
    (simp_all add: case_prod_beta Let_def fst_symmetric_transform)

lemma length_quatradic [simp]:
  "length (fst (quatradic_transform tr gs hs)) = length gs"
  "length (snd (quatradic_transform tr gs hs)) = length hs"
  by (induction hs arbitrary: gs)
    (simp_all add: case_prod_beta Let_def)

section \<open>Walking the grid\<close>

lemma symmetric_transform_append:
  "symmetric_transform tr f (gs @ hs) =
    (let (f1, gs1) = symmetric_transform tr f gs; (f2, hs1) = symmetric_transform tr f1 hs
     in (f2, gs1 @ hs1))"
  by (induction tr f gs rule: symmetric_transform.induct) (simp_all add: case_prod_beta Let_def)

lemma quatradic_Cons_left:
  "quatradic_transform tr (f # gs) hs =
    (let (f', hs1) = symmetric_transform tr f hs; (gs', hs2) = quatradic_transform tr gs hs1
     in (f' # gs', hs2))"
  by (induction hs arbitrary: f gs) (simp_all add: case_prod_beta Let_def)

lemma quatradic_Nil_left [simp]: "quatradic_transform tr [] hs = ([], hs)"
  by (induction hs) simp_all

text \<open>The server walks the grid by its columns, a client by its rows; the result is the same.\<close>

lemma quatradic_transpose:
  "quatradic_transform tr gs hs =
    (let (hs', gs') = quatradic_transform tr hs gs in (gs', hs'))"
proof (induction gs arbitrary: hs)
  case (Cons g gs)
  show ?case
    by (simp add: quatradic_Cons_left Cons.IH [of "snd (symmetric_transform tr g hs)"]
        case_prod_beta Let_def)
qed simp

lemma quatradic_append_left:
  "quatradic_transform tr (fs @ gs) hs =
    (let (fs', hs1) = quatradic_transform tr fs hs; (gs', hs2) = quatradic_transform tr gs hs1
     in (fs' @ gs', hs2))"
  by (induction fs arbitrary: hs) (simp_all add: quatradic_Cons_left case_prod_beta Let_def)

lemma quatradic_append_right:
  "quatradic_transform tr fs (gs @ hs) =
    (let (fs1, gs') = quatradic_transform tr fs gs; (fs2, hs') = quatradic_transform tr fs1 hs
     in (fs2, gs' @ hs'))"
  by (induction gs arbitrary: fs) (simp_all add: case_prod_beta Let_def)

text \<open>The operations of the result depend on the operations alone.\<close>

lemma symmetric_transform_ops:
  assumes "fo_op f = fo_op f'" and "map fo_op gs = map fo_op gs'"
  shows "fo_op (fst (symmetric_transform tr f gs)) = fo_op (fst (symmetric_transform tr f' gs')) \<and>
    map fo_op (snd (symmetric_transform tr f gs)) = map fo_op (snd (symmetric_transform tr f' gs'))"
  using assms
proof (induction gs gs' arbitrary: f f' rule: list_induct2')
  case (4 g gs h hs)
  then show ?case
    using "4.IH" [of "fat_transform tr f g" "fat_transform tr f' h"]
    by (simp add: case_prod_beta Let_def)
qed simp_all

lemma quatradic_transform_ops:
  assumes "map fo_op gs = map fo_op gs'" and "map fo_op hs = map fo_op hs'"
  shows "map fo_op (fst (quatradic_transform tr gs hs)) = map fo_op (fst (quatradic_transform tr gs' hs')) \<and>
    map fo_op (snd (quatradic_transform tr gs hs)) = map fo_op (snd (quatradic_transform tr gs' hs'))"
  using assms
proof (induction hs hs' arbitrary: gs gs' rule: list_induct2')
  case (4 h hs k ks)
  then show ?case
    using symmetric_transform_ops [of h k gs gs' tr]
    by (simp add: case_prod_beta Let_def)
qed simp_all

section \<open>Running a list of operations\<close>

fun app_ops :: "('o \<Rightarrow> 'd \<Rightarrow> 'd) \<Rightarrow> 'o fat_op list \<Rightarrow> 'd \<Rightarrow> 'd" where
  "app_ops app [] d = d"
| "app_ops app (f # fs) d = app_ops app fs (app (fo_op f) d)"

fun fits_ops :: "('o \<Rightarrow> 'd \<Rightarrow> 'd) \<Rightarrow> ('d \<Rightarrow> 'o \<Rightarrow> bool) \<Rightarrow> 'o fat_op list \<Rightarrow> 'd \<Rightarrow> bool" where
  "fits_ops app fits [] d \<longleftrightarrow> True"
| "fits_ops app fits (f # fs) d \<longleftrightarrow> fits d (fo_op f) \<and> fits_ops app fits fs (app (fo_op f) d)"

definition conc_ops :: "('o \<Rightarrow> 'o \<Rightarrow> bool) \<Rightarrow> 'o fat_op list \<Rightarrow> 'o fat_op list \<Rightarrow> bool" where
  "conc_ops conc fs gs \<longleftrightarrow> (\<forall>f \<in> set fs. \<forall>g \<in> set gs. conc (fo_op f) (fo_op g))"

lemma app_ops_append [simp]: "app_ops app (fs @ gs) d = app_ops app gs (app_ops app fs d)"
  by (induction fs arbitrary: d) simp_all

lemma fits_ops_append [simp]:
  "fits_ops app fits (fs @ gs) d \<longleftrightarrow>
     fits_ops app fits fs d \<and> fits_ops app fits gs (app_ops app fs d)"
  by (induction fs arbitrary: d) auto

lemma app_ops_cong: "map fo_op fs = map fo_op gs \<Longrightarrow> app_ops app fs d = app_ops app gs d"
  by (induction fs gs arbitrary: d rule: list_induct2') auto

lemma fits_ops_cong:
  "map fo_op fs = map fo_op gs \<Longrightarrow> fits_ops app fits fs d = fits_ops app fits gs d"
  by (induction fs gs arbitrary: d rule: list_induct2') auto

lemma conc_ops_simps [simp]:
  "conc_ops conc [] gs" "conc_ops conc fs []"
  "conc_ops conc (f # fs) gs \<longleftrightarrow> (\<forall>g \<in> set gs. conc (fo_op f) (fo_op g)) \<and> conc_ops conc fs gs"
  "conc_ops conc (fs @ fs') gs \<longleftrightarrow> conc_ops conc fs gs \<and> conc_ops conc fs' gs"
  "conc_ops conc fs (gs @ gs') \<longleftrightarrow> conc_ops conc fs gs \<and> conc_ops conc fs gs'"
  by (auto simp: conc_ops_def)

section \<open>The interface \<open>Operation\<close> and its laws\<close>

locale ot_operation =
  fixes tr :: "'o \<Rightarrow> 'o \<Rightarrow> 'o"
    and app :: "'o \<Rightarrow> 'd \<Rightarrow> 'd"
    and fits :: "'d \<Rightarrow> 'o \<Rightarrow> bool"
    and conc :: "'o \<Rightarrow> 'o \<Rightarrow> bool"
  assumes square: "fits d a \<Longrightarrow> fits d b \<Longrightarrow> conc a b \<Longrightarrow>
      app (tr a b) (app b d) = app (tr b a) (app a d)"
    and fits_tr: "fits d a \<Longrightarrow> fits d b \<Longrightarrow> fits (app b d) (tr a b)"
    and conc_sym: "conc a b \<Longrightarrow> conc b a"
    and conc_tr_left: "conc (tr a b) c = conc a c"
    and conc_tr_right: "conc c (tr a b) = conc c a"
begin

lemma conc_batch: "conc (fo_op (batch_transform tr f gs)) c = conc (fo_op f) c"
  by (induction gs arbitrary: f) (simp_all add: conc_tr_left)

lemma conc_symmetric:
  "(\<forall>g \<in> set (snd (symmetric_transform tr f gs)). conc c (fo_op g)) =
   (\<forall>g \<in> set gs. conc c (fo_op g))"
  by (induction gs arbitrary: f) (simp_all add: case_prod_beta Let_def conc_tr_right)

lemma symmetric_square:
  assumes "fits d (fo_op f)" and "fits_ops app fits gs d"
    and "\<forall>g \<in> set gs. conc (fo_op f) (fo_op g)"
    and "symmetric_transform tr f gs = (f', gs')"
  shows "app (fo_op f') (app_ops app gs d) = app_ops app gs' (app (fo_op f) d)"
    and "fits (app_ops app gs d) (fo_op f')"
    and "fits_ops app fits gs' (app (fo_op f) d)"
proof -
  have "app (fo_op f') (app_ops app gs d) = app_ops app gs' (app (fo_op f) d) \<and>
    fits (app_ops app gs d) (fo_op f') \<and> fits_ops app fits gs' (app (fo_op f) d)"
    using assms
  proof (induction gs arbitrary: f f' gs' d)
    case (Cons g gs)
    obtain hs where hs: "symmetric_transform tr (fat_transform tr f g) gs = (f', hs)"
        "gs' = fat_transform tr g f # hs"
      using Cons.prems(4) by (auto simp: Let_def split: prod.splits)
    have ft: "fits d (fo_op g)" and sq: "app (tr (fo_op g) (fo_op f)) (app (fo_op f) d) =
        app (tr (fo_op f) (fo_op g)) (app (fo_op g) d)"
      using Cons.prems square conc_sym by auto
    have "fits (app (fo_op g) d) (fo_op (fat_transform tr f g))"
      using Cons.prems ft by (simp add: fits_tr)
    from Cons.IH [OF this _ _ hs(1)] Cons.prems sq show ?case
      by (simp add: hs(2) conc_tr_left fits_tr)
  qed simp
  then show "app (fo_op f') (app_ops app gs d) = app_ops app gs' (app (fo_op f) d)"
    and "fits (app_ops app gs d) (fo_op f')"
    and "fits_ops app fits gs' (app (fo_op f) d)"
    by auto
qed

lemma quatradic_square:
  assumes "fits_ops app fits gs d" and "fits_ops app fits hs d" and "conc_ops conc hs gs"
    and "quatradic_transform tr gs hs = (gs', hs')"
  shows "app_ops app hs' (app_ops app gs d) = app_ops app gs' (app_ops app hs d)"
    and "fits_ops app fits hs' (app_ops app gs d)"
    and "fits_ops app fits gs' (app_ops app hs d)"
proof -
  have "app_ops app hs' (app_ops app gs d) = app_ops app gs' (app_ops app hs d) \<and>
    fits_ops app fits hs' (app_ops app gs d) \<and> fits_ops app fits gs' (app_ops app hs d)"
    using assms
  proof (induction hs arbitrary: gs gs' hs' d)
    case (Cons h hs)
    obtain h1 gs1 where s: "symmetric_transform tr h gs = (h1, gs1)" by fastforce
    obtain hs1 where q: "quatradic_transform tr gs1 hs = (gs', hs1)" "hs' = h1 # hs1"
      using Cons.prems(4) s by (auto simp: Let_def split: prod.splits)
    note sq = symmetric_square [OF _ Cons.prems(1) _ s]
    have "conc_ops conc hs gs1"
      using Cons.prems(3) conc_symmetric [of h gs] s by (auto simp: conc_ops_def)
    with Cons.IH [of gs1 "app (fo_op h) d" gs' hs1] sq q Cons.prems
    show ?case by simp
  qed simp
  then show "app_ops app hs' (app_ops app gs d) = app_ops app gs' (app_ops app hs d)"
    and "fits_ops app fits hs' (app_ops app gs d)"
    and "fits_ops app fits gs' (app_ops app hs d)"
    by auto
qed

end

interpretation ot: ot_operation transform t_apply op_agrees concurrent_ok
  by unfold_locales
    (simp_all add: transform_square transform_agrees concurrent_ok_sym op_agrees_fits)

end
