(* ===== verification/Ot_Theorems.thy ===== *)
theory Ot_Theorems
  imports Control
begin

text \<open>What \<open>op.rs\<close> promises the engines: transformation of two ops and of two lists of ops.\<close>

text \<open>C5: Concurrent ops of different sites commute (TP1), unless one marks text dead and the other marks
  text live: from the same document, applying one and then the other transformed against it gives the
  same document in either order. (Marks are not transformed against marks, so TP1 fails for opposite
  marks that overlap, as when one site undoes a deletion and the other redoes it.)\<close>

theorem concurrent_ops_commute:
  assumes "op_fits d a" and "op_fits d b" and "op_site a \<noteq> op_site b" and "\<not> opposite_marks a b"
  shows "t_apply (transform a b) (t_apply b d) = t_apply (transform b a) (t_apply a d)"
  using assms by (intro transform_square) (simp_all add: concurrent_ok_def)

lemma concurrent_ops_commute_witness:
  "t_apply (transform (Mark [(0, [7, 8, 9])] False 1) (Ins (1, [5]) 2)) (t_apply (Ins (1, [5]) 2) [(7, True), (8, True), (9, False)]) =
   t_apply (transform (Ins (1, [5]) 2) (Mark [(0, [7, 8, 9])] False 1))
     (t_apply (Mark [(0, [7, 8, 9])] False 1) [(7, True), (8, True), (9, False)])"
  by (rule concurrent_ops_commute) simp_all

text \<open>A transformed op still agrees with the document it is transformed for: its position lies
  inside, the segments of a mark stay non-empty, ascending and disjoint, and carry the characters
  that stand there.\<close>

theorem transformed_op_agrees:
  assumes "op_agrees d a" and "op_agrees d b"
  shows "op_agrees (t_apply b d) (transform a b)"
  using assms by (rule transform_agrees)

lemma transformed_op_agrees_witness:
  "op_agrees (t_apply (Ins (1, [5]) 2) [(7, True), (8, True), (9, False)])
     (transform (Mark [(0, [7, 8, 9])] False 1) (Ins (1, [5]) 2))"
  by (rule transformed_op_agrees) (simp_all add: text_at_def)

text \<open>C10: Two concurrent lists of ops of different sites, without opposite marks (a mark of text dead in one
  and a mark of text live in the other), transformed against each other as the server and the clients do (\<open>quatradic_transform\<close>), lead to the same document, and
  every transformed op agrees with the document it meets. (With opposite marks, which only undo and
  redo bring about, the lists need not commute.)\<close>

theorem op_lists_commute:
  assumes "fits_ops t_apply op_agrees gs d" and "fits_ops t_apply op_agrees hs d"
    and "conc_ops concurrent_ok hs gs" and "quatradic_transform transform gs hs = (gs', hs')"
  shows "app_ops t_apply hs' (app_ops t_apply gs d) = app_ops t_apply gs' (app_ops t_apply hs d) \<and>
    fits_ops t_apply op_agrees hs' (app_ops t_apply gs d) \<and>
    fits_ops t_apply op_agrees gs' (app_ops t_apply hs d)"
  using ot.quatradic_square [OF assms] by simp

definition sample_op :: "op \<Rightarrow> op fat_op" where
  "sample_op op = \<lparr>fo_seq = None, fo_op = op, fo_site_seq = 1, fo_kind = Original, fo_group_seq = 0\<rparr>"

lemma op_lists_commute_witness:
  "\<exists>gs hs gs' hs'. gs = [sample_op (Ins (1, [4]) 1), sample_op (Mark [(0, [7, 4])] False 1)] \<and>
     hs = [sample_op (Ins (1, [5, 6]) 2)] \<and> quatradic_transform transform gs hs = (gs', hs') \<and>
     app_ops t_apply hs' (app_ops t_apply gs [(7, True)]) = app_ops t_apply gs' (app_ops t_apply hs [(7, True)])"
proof -
  let ?gs = "[sample_op (Ins (1, [4]) 1), sample_op (Mark [(0, [7, 4])] False 1)]"
  let ?hs = "[sample_op (Ins (1, [5, 6]) 2)]"
  obtain gs' hs' where q: "quatradic_transform transform ?gs ?hs = (gs', hs')" by fastforce
  have "fits_ops t_apply op_agrees ?gs [(7, True)]" "fits_ops t_apply op_agrees ?hs [(7, True)]"
    "conc_ops concurrent_ok ?hs ?gs"
    by (simp_all add: sample_op_def text_at_def t_ins_def concurrent_ok_def)
  from op_lists_commute [OF this q] q show ?thesis by blast
qed

text \<open>The grid of transformations may be walked by rows or by columns: transforming \<open>ops2\<close> against
  \<open>ops1\<close> gives the same two lists as transforming \<open>ops1\<close> against \<open>ops2\<close>.\<close>

theorem grid_transposed:
  "quatradic_transform transform ops1 ops2 =
    (snd (quatradic_transform transform ops2 ops1), fst (quatradic_transform transform ops2 ops1))"
  by (subst quatradic_transpose) (simp add: case_prod_beta Let_def)

text \<open>Transformation changes positions and nothing else: the text, the site, the sequence numbers, the
  undo kind and the group of every op survive.\<close>

theorem transform_keeps_meta:
  "map fo_meta (snd (quatradic_transform transform ops1 ops2)) = map fo_meta ops2 \<and>
   op_site (transform a b) = op_site a \<and> opposite_marks (transform a b) c = opposite_marks a c"
  by simp

end
