(* ===== verification/Ranges.thy ===== *)
theory Ranges
  imports Prelude
begin

text \<open>
  The run-length encoding of a document with tombstones (\<open>Range\<close>), the per-site cursor into it
  (\<open>Cursor\<close>) and the iterator that the marking loops walk (\<open>RangeIterator\<close>), from
  \<open>engine.rs\<close>. Positions and lengths are natural numbers; a subtraction below zero or an index
  out of range is \<open>None\<close>.
\<close>

section \<open>Ranges\<close>

datatype range = Live nat | Dead nat

fun is_live :: "range \<Rightarrow> bool" where
  "is_live (Live _) = True"
| "is_live (Dead _) = False"

definition is_dead :: "range \<Rightarrow> bool" where
  "is_dead r \<longleftrightarrow> \<not> is_live r"

fun rlen :: "range \<Rightarrow> nat" where
  "rlen (Live len) = len"
| "rlen (Dead len) = len"

definition live_len :: "range \<Rightarrow> nat" where
  "live_len r = (if is_live r then rlen r else 0)"

section \<open>Cursors\<close>

record cursor =
  editor_pos :: nat
  internal_pos :: nat
  range_idx :: "nat option"

definition cursor_pos :: "cursor \<Rightarrow> bool \<Rightarrow> nat" where
  "cursor_pos c editor = (if editor then editor_pos c else internal_pos c)"

section \<open>Iterators\<close>

record range_iterator =
  it_range_idx :: nat
  it_range_beg :: nat
  it_range_end :: nat
  it_is_live :: bool
  it_editor_beg :: nat
  it_editor_end :: nat
  it_aff_beg :: nat
  it_aff_end :: nat

definition iter_new :: "range list \<Rightarrow> cursor \<Rightarrow> range_iterator option" where
  "iter_new rs c = do {
     i \<leftarrow> range_idx c;
     r \<leftarrow> nth_c rs i;
     let editor_range_len = (if is_live r then rlen r else 0);
     Some \<lparr>it_range_idx = i, it_range_beg = internal_pos c,
       it_range_end = internal_pos c + rlen r, it_is_live = is_live r,
       it_editor_beg = editor_pos c, it_editor_end = editor_pos c + editor_range_len,
       it_aff_beg = i, it_aff_end = i + 1\<rparr>
   }"

definition iter_range_len :: "range_iterator \<Rightarrow> nat option" where
  "iter_range_len it = sub_c (it_range_end it) (it_range_beg it)"

definition shift_affected_range_left :: "range_iterator \<Rightarrow> range_iterator option" where
  "shift_affected_range_left it = do {
     b \<leftarrow> sub_c (it_aff_beg it) 1;
     e \<leftarrow> sub_c (it_aff_end it) 1;
     Some (it\<lparr>it_aff_beg := b, it_aff_end := e\<rparr>)
   }"

definition extend_affected_range_right :: "range_iterator \<Rightarrow> range_iterator" where
  "extend_affected_range_right it = it\<lparr>it_aff_end := it_aff_end it + 1\<rparr>"

definition contract_affected_range_right :: "range_iterator \<Rightarrow> range_iterator" where
  "contract_affected_range_right it = it\<lparr>it_aff_beg := it_aff_beg it + 1\<rparr>"

definition iter_range :: "range list \<Rightarrow> range_iterator \<Rightarrow> range option" where
  "iter_range rs it = nth_c rs (it_range_idx it)"

definition iter_move_left :: "range list \<Rightarrow> range_iterator \<Rightarrow> (range \<times> range_iterator) option" where
  "iter_move_left rs it = do {
     i \<leftarrow> sub_c (it_range_idx it) 1;
     r \<leftarrow> nth_c rs i;
     beg \<leftarrow> sub_c (it_range_beg it) (rlen r);
     let editor_range_len = (if is_live r then rlen r else 0);
     ebeg \<leftarrow> sub_c (it_editor_beg it) editor_range_len;
     Some (r, it\<lparr>it_range_idx := i, it_is_live := is_live r,
       it_range_end := it_range_beg it, it_range_beg := beg,
       it_editor_end := it_editor_beg it, it_editor_beg := ebeg\<rparr>)
   }"

definition iter_move_right :: "range list \<Rightarrow> range_iterator \<Rightarrow> (range \<times> range_iterator) option" where
  "iter_move_right rs it = do {
     let i = it_range_idx it + 1;
     r \<leftarrow> nth_c rs i;
     let editor_range_len = (if is_live r then rlen r else 0);
     Some (r, it\<lparr>it_range_idx := i, it_is_live := is_live r,
       it_range_beg := it_range_end it, it_range_end := it_range_end it + rlen r,
       it_editor_beg := it_editor_end it,
       it_editor_end := it_editor_end it + editor_range_len\<rparr>)
   }"

definition cursor_move_to_beg :: "cursor \<Rightarrow> range_iterator \<Rightarrow> cursor" where
  "cursor_move_to_beg c it =
     c\<lparr>internal_pos := it_range_beg it, editor_pos := it_editor_beg it,
       range_idx := Some (it_range_idx it)\<rparr>"

definition cursor_move_to_cursor :: "cursor \<Rightarrow> cursor \<Rightarrow> cursor" where
  "cursor_move_to_cursor c c' =
     c\<lparr>range_idx := range_idx c', internal_pos := internal_pos c', editor_pos := editor_pos c'\<rparr>"

text \<open>\<open>Cursor::shift\<close>: signed deltas applied to unsigned fields by magnitude and sign.\<close>

definition cursor_shift :: "cursor \<Rightarrow> int \<Rightarrow> int \<Rightarrow> cursor option" where
  "cursor_shift c editor_pos_delta range_idx_delta = do {
     ep \<leftarrow> (if editor_pos_delta > 0 then Some (editor_pos c + nat \<bar>editor_pos_delta\<bar>)
           else sub_c (editor_pos c) (nat \<bar>editor_pos_delta\<bar>));
     (case range_idx c of
        None \<Rightarrow> Some (c\<lparr>editor_pos := ep\<rparr>)
      | Some i \<Rightarrow> do {
          j \<leftarrow> (if range_idx_delta > 0 then Some (i + nat \<bar>range_idx_delta\<bar>)
               else sub_c i (nat \<bar>range_idx_delta\<bar>));
          Some (c\<lparr>editor_pos := ep, range_idx := Some j\<rparr>) })
   }"

section \<open>The flags a list of ranges stands for\<close>

definition flat :: "range list \<Rightarrow> bool list" where
  "flat rs = concat (map (\<lambda>r. replicate (rlen r) (is_live r)) rs)"

definition total_len :: "range list \<Rightarrow> nat" where
  "total_len rs = sum_list (map rlen rs)"

definition total_live :: "range list \<Rightarrow> nat" where
  "total_live rs = sum_list (map live_len rs)"

text \<open>Neighbours differ and no range is empty: the coalesced form the engine keeps.\<close>

fun alternating :: "range list \<Rightarrow> bool" where
  "alternating [] \<longleftrightarrow> True"
| "alternating [r] \<longleftrightarrow> 0 < rlen r"
| "alternating (r # r' # rs) \<longleftrightarrow> 0 < rlen r \<and> is_live r \<noteq> is_live r' \<and> alternating (r' # rs)"

definition cursor_at :: "range list \<Rightarrow> nat \<Rightarrow> cursor" where
  "cursor_at rs i =
     \<lparr>editor_pos = total_live (take i rs), internal_pos = total_len (take i rs),
      range_idx = Some i\<rparr>"

text \<open>
  The cursor invariant: no range yet, or the beginning of the range it names.
\<close>

definition cursor_ok :: "range list \<Rightarrow> cursor \<Rightarrow> bool" where
  "cursor_ok rs c \<longleftrightarrow>
     (case range_idx c of
        None \<Rightarrow> editor_pos c = 0 \<and> internal_pos c = 0
      | Some i \<Rightarrow> i < length rs \<and> c = cursor_at rs i)"

lemma total_len_simps [simp]:
  "total_len [] = 0" "total_len (r # rs) = rlen r + total_len rs"
  "total_len (rs @ rs') = total_len rs + total_len rs'"
  by (simp_all add: total_len_def)

lemma total_live_simps [simp]:
  "total_live [] = 0" "total_live (r # rs) = live_len r + total_live rs"
  "total_live (rs @ rs') = total_live rs + total_live rs'"
  by (simp_all add: total_live_def)

lemma flat_simps [simp]:
  "flat [] = []" "flat (r # rs) = replicate (rlen r) (is_live r) @ flat rs"
  "flat (rs @ rs') = flat rs @ flat rs'"
  by (simp_all add: flat_def)

lemma length_flat [simp]: "length (flat rs) = total_len rs"
  by (induction rs) simp_all

lemma count_flat: "length (filter (\<lambda>b. b) (flat rs)) = total_live rs"
  by (induction rs) (auto simp: live_len_def)

lemma total_live_le: "total_live rs \<le> total_len rs"
  by (induction rs) (auto simp: live_len_def)

lemma alternating_Cons:
  "alternating (r # rs) \<longleftrightarrow>
     0 < rlen r \<and> (rs \<noteq> [] \<longrightarrow> is_live (hd rs) \<noteq> is_live r) \<and> alternating rs"
  by (cases rs) auto

lemma alternating_append:
  "alternating (rs @ rs') \<longleftrightarrow>
     alternating rs \<and> alternating rs' \<and>
     (rs \<noteq> [] \<and> rs' \<noteq> [] \<longrightarrow> is_live (last rs) \<noteq> is_live (hd rs'))"
  by (induction rs) (auto simp: alternating_Cons hd_append)

lemma alternating_nth_pos: "alternating rs \<Longrightarrow> i < length rs \<Longrightarrow> 0 < rlen (rs ! i)"
  by (metis alternating_Cons alternating_append id_take_nth_drop)

lemma alternating_nth_Suc:
  assumes "alternating rs" and "Suc i < length rs"
  shows "is_live (rs ! Suc i) \<noteq> is_live (rs ! i)"
proof -
  have "rs = take i rs @ rs ! i # rs ! Suc i # drop (Suc (Suc i)) rs"
    using assms(2) by (metis Cons_nth_drop_Suc Suc_lessD append_take_drop_id)
  with assms(1) show ?thesis by (metis alternating_append alternating.simps(3))
qed

lemma total_len_take_Suc:
  "i < length rs \<Longrightarrow> total_len (take (Suc i) rs) = total_len (take i rs) + rlen (rs ! i)"
  by (simp add: take_Suc_nth)

lemma total_live_take_Suc:
  "i < length rs \<Longrightarrow> total_live (take (Suc i) rs) = total_live (take i rs) + live_len (rs ! i)"
  by (simp add: take_Suc_nth)

lemma total_len_take_mono: "i \<le> j \<Longrightarrow> total_len (take i rs) \<le> total_len (take j rs)"
  by (metis le_add1 take_drop_id_at total_len_simps(3))

lemma total_live_take_mono: "i \<le> j \<Longrightarrow> total_live (take i rs) \<le> total_live (take j rs)"
  by (metis le_add1 take_drop_id_at total_live_simps(3))

lemma total_len_take_le: "total_len (take i rs) \<le> total_len rs"
  by (metis append_take_drop_id le_add1 total_len_simps(3))

lemma total_live_take_le: "total_live (take i rs) \<le> total_live rs"
  by (metis append_take_drop_id le_add1 total_live_simps(3))

lemma cursor_at_simps [simp]:
  "editor_pos (cursor_at rs i) = total_live (take i rs)"
  "internal_pos (cursor_at rs i) = total_len (take i rs)"
  "range_idx (cursor_at rs i) = Some i"
  by (simp_all add: cursor_at_def)

lemma cursor_ok_at [simp]: "cursor_ok rs (cursor_at rs i) \<longleftrightarrow> i < length rs"
  by (simp add: cursor_ok_def)

lemma cursor_ok_Some: "cursor_ok rs c \<Longrightarrow> range_idx c = Some i \<Longrightarrow> c = cursor_at rs i \<and> i < length rs"
  by (simp add: cursor_ok_def)

end
