(* ===== verification/Collab_Types.thy ===== *)
theory Collab_Types
  imports Ops "HOL-Library.Sublist"
begin

text \<open>
  The shared types of \<open>types.rs\<close>: server ids (\<open>name::hash\<close>), file descriptors and their editor
  form, editor operations and edit instructions. Identifiers and paths are Rust strings read as
  bytes (\<open>string\<close>), since the code indexes them by byte; operation contents are scalars.
\<close>

section \<open>Byte strings\<close>

type_synonym server_id = string
type_synonym project_id = string

text \<open>\<open>str::find\<close>: the byte index of the first occurrence of a pattern.\<close>

fun str_find :: "string \<Rightarrow> string \<Rightarrow> nat option" where
  "str_find pat [] = (if pat = [] then Some 0 else None)"
| "str_find pat (c # cs) =
     (if prefix pat (c # cs) then Some 0 else map_option Suc (str_find pat cs))"

text \<open>A UTF-8 continuation byte is \<open>10xxxxxx\<close>; slicing in the middle of a character panics.\<close>

definition is_char_boundary :: "string \<Rightarrow> nat \<Rightarrow> bool" where
  "is_char_boundary s i \<longleftrightarrow>
     i = 0 \<or> i = length s \<or>
     (i < length s \<and> \<not> (128 \<le> (of_char (s ! i) :: nat) \<and> (of_char (s ! i) :: nat) < 192))"

definition slice_to :: "string \<Rightarrow> nat \<Rightarrow> string option" where
  "slice_to s i = (if i \<le> length s \<and> is_char_boundary s i then Some (take i s) else None)"

definition slice_from :: "string \<Rightarrow> nat \<Rightarrow> string option" where
  "slice_from s i = (if i \<le> length s \<and> is_char_boundary s i then Some (drop i s) else None)"

section \<open>Server ids\<close>

definition normalize_signaling_addr :: "string \<Rightarrow> string" where
  "normalize_signaling_addr addr =
     (case str_find ''://'' addr of
        Some idx \<Rightarrow> if idx > 0 then addr else ''wss://'' @ addr
      | None \<Rightarrow> ''wss://'' @ addr)"

definition id_hash :: "server_id \<Rightarrow> string option" where
  "id_hash sid = (case str_find ''::'' sid of Some idx \<Rightarrow> slice_from sid (idx + 2) | None \<Rightarrow> Some sid)"

definition id_name :: "server_id \<Rightarrow> string option option" where
  "id_name sid =
     (case str_find ''::'' sid of Some idx \<Rightarrow> map_option Some (slice_to sid idx) | None \<Rightarrow> Some None)"

definition make_id :: "string option \<Rightarrow> string \<Rightarrow> server_id" where
  "make_id name cert_hash =
     (case name of
        Some n \<Rightarrow> if n \<noteq> [] then n @ ''::'' @ cert_hash else cert_hash
      | None \<Rightarrow> cert_hash)"

definition id_short :: "server_id \<Rightarrow> string option" where
  "id_short sid = do {
     nm \<leftarrow> id_name sid;
     (case nm of
        Some name \<Rightarrow>
          (let cut = length name + 4 in
           if length sid \<le> cut + 2 then Some sid
           else do {
             a \<leftarrow> slice_to sid cut; k \<leftarrow> sub_c (length sid) 2; b \<leftarrow> slice_from sid k;
             Some (a @ ''..'' @ b) })
      | None \<Rightarrow>
          if length sid \<le> 6 then Some sid
          else do {
            a \<leftarrow> slice_to sid 4; k \<leftarrow> sub_c (length sid) 2; b \<leftarrow> slice_from sid k;
            Some (a @ ''..'' @ b) })
   }"

section \<open>File descriptors\<close>

definition RESERVED_BUFFERS_PROJECT :: string where
  "RESERVED_BUFFERS_PROJECT = ''_buffers''"

definition RESERVED_FILES_PROJECT :: string where
  "RESERVED_FILES_PROJECT = ''_files''"

datatype file_desc = Project project_id | ProjectFile project_id string

record editor_file_desc =
  ef_host_id :: server_id
  ef_project :: project_id
  ef_file :: string

definition editor_file_desc_new :: "file_desc \<Rightarrow> server_id \<Rightarrow> editor_file_desc" where
  "editor_file_desc_new fd host =
     (case fd of
        Project pid \<Rightarrow> \<lparr>ef_host_id = host, ef_project = pid, ef_file = []\<rparr>
      | ProjectFile project file \<Rightarrow> \<lparr>ef_host_id = host, ef_project = project, ef_file = file\<rparr>)"

definition is_project :: "editor_file_desc \<Rightarrow> bool" where
  "is_project ef \<longleftrightarrow> ef_file ef = []"

definition is_file :: "editor_file_desc \<Rightarrow> bool" where
  "is_file ef \<longleftrightarrow> ef_file ef \<noteq> []"

definition trim_slashes :: "string \<Rightarrow> string" where
  "trim_slashes s =
     rev (dropWhile (\<lambda>c. c = CHR ''/'') (rev (dropWhile (\<lambda>c. c = CHR ''/'') s)))"

definition file_desc_from :: "editor_file_desc \<Rightarrow> file_desc" where
  "file_desc_from ef =
     (if ef_file ef = [] then Project (ef_project ef)
      else ProjectFile (ef_project ef) (trim_slashes (ef_file ef)))"

section \<open>Editor operations\<close>

datatype editor_op = EIns nat utext | EDel nat utext | EUndo nat | ERedo nat

datatype editor_op_kind = KOriginal | KUndo | KRedo

definition kind_of :: "editor_op \<Rightarrow> editor_op_kind" where
  "kind_of op =
     (case op of EIns _ _ \<Rightarrow> KOriginal | EDel _ _ \<Rightarrow> KOriginal | EUndo _ \<Rightarrow> KUndo | ERedo _ \<Rightarrow> KRedo)"

record edit =
  ed_pos :: nat
  ed_content :: utext

datatype edit_instruction = InsEdits "edit list" | DelEdits "edit list"

record editor_fat_op =
  ef_op :: editor_op
  ef_group_seq :: nat

record editor_lean_op =
  el_op :: edit_instruction
  el_site_id :: site_id

section \<open>Properties of server ids and descriptors\<close>

lemma prefix_colons: "prefix ''::'' (c # cs) \<longleftrightarrow> c = CHR '':'' \<and> (\<exists>ds. cs = CHR '':'' # ds)"
  by (cases cs) auto

lemma str_find_colons:
  assumes "str_find ''::'' (n @ '':'') = None"
  shows "str_find ''::'' (n @ ''::'' @ h) = Some (length n)"
  using assms
proof (induction n)
  case (Cons c n)
  then have "\<not> prefix ''::'' (c # n @ ''::'' @ h)"
    by (cases n) (auto split: if_splits)
  with Cons show ?case by (auto split: if_splits)
qed simp

lemma char_boundary_colons:
  "is_char_boundary (n @ ''::'' @ h) (length n)"
  by (simp add: is_char_boundary_def nth_append)

end
