(* ===== verification/Internal_Doc.thy ===== *)
theory Internal_Doc
  imports Ranges Collab_Types "HOL-Library.AList"
begin

text \<open>
  \<open>InternalDoc\<close> of \<open>engine.rs\<close>: the coalesced ranges of a document and one cursor per site, with
  the conversion between editor and internal positions, insertion, the two marking loops, and
  the conversion of editor operations to internal operations and back. The map of cursors is an
  association list, so that the code's loops over it are loops here.
\<close>

section \<open>State\<close>

record internal_doc =
  ranges :: "range list"
  cursors :: "(site_id \<times> cursor) list"

definition internal_doc_new :: "nat \<Rightarrow> internal_doc" where
  "internal_doc_new init_len =
     \<lparr>ranges = (if init_len > 0 then [Live init_len] else []), cursors = []\<rparr>"

text \<open>The inner loop of \<open>check_cursor_positions\<close>; \<open>False\<close> is the \<open>process::exit\<close>.\<close>

fun check_walk :: "cursor \<Rightarrow> nat \<Rightarrow> nat \<Rightarrow> range list \<Rightarrow> bool" where
  "check_walk c ep ip [] = True"
| "check_walk c ep ip (r # rs) =
     (if ip = internal_pos c then ep = editor_pos c
      else (case r of
              Live len \<Rightarrow> check_walk c (ep + len) (ip + len) rs
            | Dead len \<Rightarrow> check_walk c ep (ip + len) rs))"

definition check_cursor_positions :: "internal_doc \<Rightarrow> bool" where
  "check_cursor_positions d =
     list_all (\<lambda>(site, c). range_idx c = None \<or> check_walk c 0 0 (ranges d)) (cursors d)"

fun editor_len_loop :: "range list \<Rightarrow> nat \<Rightarrow> nat" where
  "editor_len_loop [] len = len"
| "editor_len_loop (r # rs) len =
     (case r of Live n \<Rightarrow> editor_len_loop rs (len + n) | Dead _ \<Rightarrow> editor_len_loop rs len)"

definition editor_len :: "internal_doc \<Rightarrow> nat" where
  "editor_len d = editor_len_loop (ranges d) 0"

definition internal_len :: "internal_doc \<Rightarrow> nat" where
  "internal_len d = sum_list (map rlen (ranges d))"

definition fresh_cursor :: cursor where
  "fresh_cursor = \<lparr>editor_pos = 0, internal_pos = 0, range_idx = None\<rparr>"

text \<open>The cursor of a site, inserted if the site has none yet.\<close>

definition get_cursor :: "internal_doc \<Rightarrow> site_id \<Rightarrow> cursor \<times> internal_doc" where
  "get_cursor d site =
     (case map_of (cursors d) site of
        Some c \<Rightarrow> (c, d)
      | None \<Rightarrow> (fresh_cursor, d\<lparr>cursors := AList.update site fresh_cursor (cursors d)\<rparr>))"

definition put_cursor :: "internal_doc \<Rightarrow> site_id \<Rightarrow> cursor \<Rightarrow> internal_doc" where
  "put_cursor d site c = d\<lparr>cursors := AList.update site c (cursors d)\<rparr>"

section \<open>Position conversion\<close>

definition step_len :: "bool \<Rightarrow> range \<Rightarrow> nat" where
  "step_len editor r = (if editor then live_len r else rlen r)"

function conv_forward ::
  "range list \<Rightarrow> bool \<Rightarrow> nat \<Rightarrow> cursor \<Rightarrow> nat \<Rightarrow> (cursor \<times> nat) option" where
  "conv_forward rs editor pos c i =
     (if i < length rs then
        (let r = rs ! i in
         if pos > cursor_pos c editor + step_len editor r then
           conv_forward rs editor pos
             (c\<lparr>internal_pos := internal_pos c + rlen r,
                editor_pos := (if is_live r then editor_pos c + rlen r else editor_pos c),
                range_idx := Some (i + 1)\<rparr>) (i + 1)
         else Some (c, i))
      else None)"
  by pat_completeness auto
termination
  by (relation "measure (\<lambda>(rs, editor, pos, c, i). length rs - i)") auto

fun conv_backward ::
  "range list \<Rightarrow> bool \<Rightarrow> nat \<Rightarrow> cursor \<Rightarrow> nat \<Rightarrow> (cursor \<times> nat) option" where
  "conv_backward rs editor pos c i = do {
     r \<leftarrow> nth_c rs i;
     (if pos < cursor_pos c editor \<or>
         (editor \<and> pos = cursor_pos c editor \<and> is_live r \<and> i > 0) then
        (case i of
           0 \<Rightarrow> None
         | Suc j \<Rightarrow> do {
             r' \<leftarrow> nth_c rs j;
             ip \<leftarrow> sub_c (internal_pos c) (rlen r');
             ep \<leftarrow> (if is_live r' then sub_c (editor_pos c) (rlen r') else Some (editor_pos c));
             conv_backward rs editor pos
               (c\<lparr>range_idx := Some j, internal_pos := ip, editor_pos := ep\<rparr>) j })
      else Some (c, i))
   }"

declare conv_forward.simps [simp del] conv_backward.simps [simp del]

definition convert_pos :: "range list \<Rightarrow> nat \<Rightarrow> cursor \<Rightarrow> bool \<Rightarrow> (nat \<times> cursor) option" where
  "convert_pos rs pos cursor editor =
     (if pos = 0 then
        Some (0, if length rs > 0
                 then cursor\<lparr>internal_pos := 0, editor_pos := 0, range_idx := Some 0\<rparr>
                 else cursor)
      else if pos = cursor_pos cursor editor then Some (cursor_pos cursor (\<not> editor), cursor)
      else if length rs = 0 then Some (0, cursor)
      else do {
        let idx = (case range_idx cursor of None \<Rightarrow> 0 | Some i \<Rightarrow> i);
        let c = (if idx = 0 then cursor\<lparr>editor_pos := 0, internal_pos := 0\<rparr> else cursor);
        r \<leftarrow> nth_c rs idx;
        (c, idx) \<leftarrow> (if pos > cursor_pos c editor then conv_forward rs editor pos c idx
                    else conv_backward rs editor pos c idx);
        r \<leftarrow> nth_c rs idx;
        let c = c\<lparr>range_idx := Some idx\<rparr>;
        (if editor then do {
           k \<leftarrow> sub_c pos (cursor_pos c editor);
           Some (cursor_pos c (\<not> editor) + k, c) }
         else if is_live r then do {
           k \<leftarrow> sub_c pos (cursor_pos c editor);
           Some (cursor_pos c (\<not> editor) + k, c) }
         else Some (cursor_pos c (\<not> editor) + 0, c)) })"

section \<open>Insertion\<close>

definition shift_cursor_right :: "nat \<Rightarrow> nat \<Rightarrow> nat \<Rightarrow> cursor \<Rightarrow> cursor" where
  "shift_cursor_right idx delta range_idx_delta c =
     (case range_idx c of
        None \<Rightarrow> c
      | Some i \<Rightarrow>
          if i \<ge> idx then
            c\<lparr>internal_pos := internal_pos c + delta, editor_pos := editor_pos c + delta,
              range_idx := Some (i + range_idx_delta)\<rparr>
          else c)"

definition shift_cursors_right :: "internal_doc \<Rightarrow> nat \<Rightarrow> nat \<Rightarrow> nat \<Rightarrow> internal_doc" where
  "shift_cursors_right d idx delta range_idx_delta =
     d\<lparr>cursors := map (\<lambda>(s, c). (s, shift_cursor_right idx delta range_idx_delta c)) (cursors d)\<rparr>"

definition apply_ins :: "internal_doc \<Rightarrow> nat \<Rightarrow> nat \<Rightarrow> cursor \<Rightarrow> (internal_doc \<times> cursor) option" where
  "apply_ins d pos len cursor =
     (let rs = ranges d in
      if length rs = 0 then \<comment> \<open>(a)\<close> Some (d\<lparr>ranges := rs @ [Live len]\<rparr>, cursor)
      else do {
        i \<leftarrow> range_idx cursor;
        r \<leftarrow> nth_c rs i;
        let range_beg = internal_pos cursor;
        let range_end = range_beg + rlen r;
        ensure (range_beg \<le> pos);
        ensure (pos \<le> range_end);
        (if is_live r then \<comment> \<open>(b)\<close>
           Some (shift_cursors_right (d\<lparr>ranges := rs[i := Live (rlen r + len)]\<rparr>) (i + 1) len 0, cursor)
         else if range_beg = pos then
           (if i \<ge> 1 then do { \<comment> \<open>(c)\<close>
              b \<leftarrow> nth_c rs (i - 1);
              ensure (is_live b);
              Some (shift_cursors_right (d\<lparr>ranges := rs[i - 1 := Live (rlen b + len)]\<rparr>) i len 0,
                cursor\<lparr>internal_pos := internal_pos cursor + len,
                       editor_pos := editor_pos cursor + len\<rparr>) }
            else \<comment> \<open>(d)\<close>
              Some (shift_cursors_right (d\<lparr>ranges := take i rs @ Live len # drop i rs\<rparr>) i len 1,
                cursor\<lparr>internal_pos := internal_pos cursor + len,
                       editor_pos := editor_pos cursor + len, range_idx := Some (i + 1)\<rparr>))
         else if range_end = pos then
           (if i + 1 < length rs then do { \<comment> \<open>(e)\<close>
              a \<leftarrow> nth_c rs (i + 1);
              ensure (is_live a);
              Some (shift_cursors_right (d\<lparr>ranges := rs[i + 1 := Live (rlen a + len)]\<rparr>) (i + 2) len 0,
                cursor) }
            else \<comment> \<open>(f)\<close> Some (d\<lparr>ranges := rs @ [Live len]\<rparr>, cursor))
         else do { \<comment> \<open>(g)\<close>
           mid \<leftarrow> sub_c pos range_beg;
           rest \<leftarrow> sub_c (rlen r) mid;
           Some (shift_cursors_right
               (d\<lparr>ranges := take i rs @ [Dead mid, Live len, Dead rest] @ drop (i + 1) rs\<rparr>)
               (i + 1) len 2,
             cursor\<lparr>internal_pos := pos, range_idx := Some (i + 1)\<rparr>) }) })"

section \<open>The marking loops\<close>

record mark_state =
  ms_iter :: range_iterator
  ms_range :: range
  ms_len :: nat
  ms_cursor :: cursor
  ms_final :: "range list"
  ms_flipped :: "(nat \<times> nat) list"

datatype 'a loop = Again 'a | Stop 'a

definition push_wo_dup :: "(nat \<times> nat) list \<Rightarrow> nat \<times> nat \<Rightarrow> (nat \<times> nat) list option" where
  "push_wo_dup flipped rng = do {
     (if flipped = [] then Some ()
      else (let (lbeg, llen) = last flipped; lend = lbeg + llen;
                (beg, len) = rng; end' = beg + len
            in ensure (\<not> (beg \<le> lend \<and> lbeg \<le> end'))));
     Some (flipped @ [rng])
   }"

text \<open>The part before both loops: the checks and the step one range to the left.\<close>

definition mark_begin :: "range list \<Rightarrow> nat \<Rightarrow> nat \<Rightarrow> cursor \<Rightarrow> mark_state option" where
  "mark_begin rs pos len cursor = do {
     ensure (pos + len \<le> sum_list (map rlen rs));
     it \<leftarrow> iter_new rs cursor;
     r \<leftarrow> iter_range rs it;
     ensure (it_range_beg it \<le> pos);
     (r, it) \<leftarrow>
       (if it_range_end it > pos \<and> it_range_idx it > 0 then do {
          (r, it) \<leftarrow> iter_move_left rs it;
          it \<leftarrow> shift_affected_range_left it;
          Some (r, it) }
        else Some (r, it));
     Some \<lparr>ms_iter = it, ms_range = r, ms_len = len, ms_cursor = cursor, ms_final = [],
       ms_flipped = []\<rparr>
   }"

text \<open>One round of \<open>apply_mark_dead\<close>: the range overlaps the marked range or touches it.\<close>

definition dead_prefix :: "nat \<Rightarrow> nat \<Rightarrow> mark_state \<Rightarrow> mark_state option" where
  "dead_prefix mbeg mend st =
     (let it = ms_iter st in
      if it_range_beg it < mbeg then do {
        prefix_len \<leftarrow> sub_c mbeg (it_range_beg it);
        (if is_dead (ms_range st) then
           Some (st\<lparr>ms_len := ms_len st + prefix_len,
                    ms_cursor := cursor_move_to_beg (ms_cursor st) it\<rparr>)
         else do {
           l \<leftarrow> sub_c (min mend (it_range_end it)) mbeg;
           fl \<leftarrow> push_wo_dup (ms_flipped st) (mbeg, l);
           Some (st\<lparr>ms_final := ms_final st @ [Live prefix_len], ms_flipped := fl\<rparr>) }) }
      else Some st)"

definition dead_overrun :: "nat \<Rightarrow> nat \<Rightarrow> mark_state \<Rightarrow> mark_state option" where
  "dead_overrun mbeg mend st = do {
     let it = ms_iter st;
     suffix_len \<leftarrow> sub_c (it_range_end it) mend;
     (if is_dead (ms_range st) then
        (let len = ms_len st + suffix_len in
         Some (st\<lparr>ms_len := len, ms_final := ms_final st @ [Dead len]\<rparr>))
      else do {
        let final = ms_final st @ [Dead (ms_len st), Live suffix_len];
        (if \<not> it_range_beg it < mbeg then do {
           let flipped_beg = max (it_range_beg it) mbeg;
           flipped_len \<leftarrow> sub_c mend flipped_beg;
           fl \<leftarrow> push_wo_dup (ms_flipped st) (flipped_beg, flipped_len);
           Some (st\<lparr>ms_final := final, ms_flipped := fl\<rparr>) }
         else Some (st\<lparr>ms_final := final\<rparr>)) })
   }"

definition dead_inside :: "nat \<Rightarrow> mark_state \<Rightarrow> mark_state option" where
  "dead_inside mbeg st =
     (let it = ms_iter st in
      if is_live (ms_range st) \<and> \<not> it_range_beg it < mbeg then do {
        l \<leftarrow> iter_range_len it;
        fl \<leftarrow> push_wo_dup (ms_flipped st) (it_range_beg it, l);
        Some (st\<lparr>ms_flipped := fl\<rparr>) }
      else Some st)"

definition dead_flush :: "range list \<Rightarrow> nat \<Rightarrow> mark_state \<Rightarrow> mark_state option" where
  "dead_flush rs mbeg st = do {
     st \<leftarrow> dead_inside mbeg st;
     st \<leftarrow>
       (if it_range_idx (ms_iter st) + 1 < length rs then do {
          (next_range, it) \<leftarrow> iter_move_right rs (ms_iter st);
          (if is_dead next_range then do {
             l \<leftarrow> iter_range_len it;
             Some (st\<lparr>ms_len := ms_len st + l, ms_iter := extend_affected_range_right it\<rparr>) }
           else Some (st\<lparr>ms_iter := it\<rparr>)) }
        else Some st);
     Some (st\<lparr>ms_final := ms_final st @ [Dead (ms_len st)]\<rparr>)
   }"

definition dead_round :: "range list \<Rightarrow> nat \<Rightarrow> nat \<Rightarrow> mark_state \<Rightarrow> mark_state loop option" where
  "dead_round rs mbeg mend st =
     (let it = ms_iter st in
      if it_range_end it < mbeg then
        Some (Again (st\<lparr>ms_iter := contract_affected_range_right it\<rparr>))
      else if it_range_end it = mbeg then
        (if is_dead (ms_range st) then do {
           l \<leftarrow> iter_range_len it;
           Some (Again (st\<lparr>ms_len := ms_len st + l,
                           ms_cursor := cursor_move_to_beg (ms_cursor st) it\<rparr>)) }
         else Some (Again (st\<lparr>ms_iter := contract_affected_range_right it\<rparr>)))
      else do {
        st \<leftarrow> dead_prefix mbeg mend st;
        (if it_range_end it > mend then map_option Stop (dead_overrun mbeg mend st)
         else if it_range_end it = mend then map_option Stop (dead_flush rs mbeg st)
         else map_option Again (dead_inside mbeg st)) })"

text \<open>One round of \<open>apply_mark_live\<close>.\<close>

definition live_prefix :: "nat \<Rightarrow> nat \<Rightarrow> mark_state \<Rightarrow> mark_state option" where
  "live_prefix mbeg mend st =
     (let it = ms_iter st in
      if it_range_beg it < mbeg then do {
        prefix_len \<leftarrow> sub_c mbeg (it_range_beg it);
        (if is_dead (ms_range st) then do {
           l \<leftarrow> sub_c (min mend (it_range_end it)) mbeg;
           fl \<leftarrow> push_wo_dup (ms_flipped st) (mbeg, l);
           Some (st\<lparr>ms_final := ms_final st @ [Dead prefix_len], ms_flipped := fl\<rparr>) }
         else
           Some (st\<lparr>ms_len := ms_len st + prefix_len,
                    ms_cursor := cursor_move_to_beg (ms_cursor st) it\<rparr>)) }
      else Some st)"

definition live_overrun :: "nat \<Rightarrow> nat \<Rightarrow> mark_state \<Rightarrow> mark_state option" where
  "live_overrun mbeg mend st = do {
     let it = ms_iter st;
     suffix_mid \<leftarrow> sub_c mend (it_range_beg it);
     suffix_len \<leftarrow> sub_c (rlen (ms_range st)) suffix_mid;
     (if is_dead (ms_range st) then do {
        let final = ms_final st @ [Live (ms_len st), Dead suffix_len];
        (if \<not> it_range_beg it < mbeg then do {
           let flipped_beg = max (it_range_beg it) mbeg;
           flipped_len \<leftarrow> sub_c mend flipped_beg;
           fl \<leftarrow> push_wo_dup (ms_flipped st) (flipped_beg, flipped_len);
           Some (st\<lparr>ms_final := final, ms_flipped := fl\<rparr>) }
         else Some (st\<lparr>ms_final := final\<rparr>)) }
      else
        (let len = ms_len st + suffix_len in
         Some (st\<lparr>ms_len := len, ms_final := ms_final st @ [Live len]\<rparr>)))
   }"

definition live_inside :: "nat \<Rightarrow> mark_state \<Rightarrow> mark_state option" where
  "live_inside mbeg st =
     (let it = ms_iter st in
      if is_dead (ms_range st) \<and> \<not> it_range_beg it < mbeg then do {
        l \<leftarrow> iter_range_len it;
        fl \<leftarrow> push_wo_dup (ms_flipped st) (it_range_beg it, l);
        Some (st\<lparr>ms_flipped := fl\<rparr>) }
      else Some st)"

definition live_flush :: "range list \<Rightarrow> nat \<Rightarrow> mark_state \<Rightarrow> mark_state option" where
  "live_flush rs mbeg st = do {
     st \<leftarrow> live_inside mbeg st;
     st \<leftarrow>
       (if it_range_idx (ms_iter st) + 1 < length rs then do {
          (next_range, it) \<leftarrow> iter_move_right rs (ms_iter st);
          (if is_live next_range then do {
             l \<leftarrow> iter_range_len it;
             Some (st\<lparr>ms_len := ms_len st + l, ms_iter := extend_affected_range_right it\<rparr>) }
           else Some (st\<lparr>ms_iter := it\<rparr>)) }
        else Some st);
     Some (st\<lparr>ms_final := ms_final st @ [Live (ms_len st)]\<rparr>)
   }"

definition live_round :: "range list \<Rightarrow> nat \<Rightarrow> nat \<Rightarrow> mark_state \<Rightarrow> mark_state loop option" where
  "live_round rs mbeg mend st =
     (let it = ms_iter st in
      if it_range_end it < mbeg then
        Some (Again (st\<lparr>ms_iter := contract_affected_range_right it\<rparr>))
      else if it_range_end it = mbeg then
        (if is_live (ms_range st) then do {
           l \<leftarrow> iter_range_len it;
           Some (Again (st\<lparr>ms_len := ms_len st + l,
                           ms_cursor := cursor_move_to_beg (ms_cursor st) it\<rparr>)) }
         else Some (Again (st\<lparr>ms_iter := contract_affected_range_right it\<rparr>)))
      else do {
        st \<leftarrow> live_prefix mbeg mend st;
        (if it_range_end it > mend then map_option Stop (live_overrun mbeg mend st)
         else if it_range_end it = mend then map_option Stop (live_flush rs mbeg st)
         else map_option Again (live_inside mbeg st)) })"


text \<open>A round that goes on leaves the iterator on its range, so the loop below ends.\<close>

lemma prefix_iter:
  "dead_prefix b e st = Some st' \<Longrightarrow> ms_iter st' = ms_iter st"
  "live_prefix b e st = Some st' \<Longrightarrow> ms_iter st' = ms_iter st"
  by (auto simp: dead_prefix_def live_prefix_def Let_def split: if_splits bind_splits)

lemma inside_iter:
  "dead_inside b st = Some st' \<Longrightarrow> ms_iter st' = ms_iter st"
  "live_inside b st = Some st' \<Longrightarrow> ms_iter st' = ms_iter st"
  by (auto simp: dead_inside_def live_inside_def Let_def split: if_splits bind_splits)

lemma round_idx:
  "dead_round rs b e st = Some (Again st') \<Longrightarrow> it_range_idx (ms_iter st') = it_range_idx (ms_iter st)"
  "live_round rs b e st = Some (Again st') \<Longrightarrow> it_range_idx (ms_iter st') = it_range_idx (ms_iter st)"
  by (auto simp: dead_round_def live_round_def contract_affected_range_right_def Let_def
      split: if_splits bind_splits dest!: prefix_iter inside_iter)

lemma iter_move_right_idx:
  "iter_move_right rs it = Some (r, it') \<Longrightarrow>
     it_range_idx it' = Suc (it_range_idx it) \<and> Suc (it_range_idx it) < length rs"
  by (auto simp: iter_move_right_def Let_def split: bind_splits)

text \<open>The loop of \<open>apply_mark_live\<close> (\<open>live\<close>) and of \<open>apply_mark_dead\<close> (not \<open>live\<close>).\<close>

function mark_loop ::
  "bool \<Rightarrow> range list \<Rightarrow> nat \<Rightarrow> nat \<Rightarrow> mark_state \<Rightarrow> mark_state option" where
  "mark_loop live rs mbeg mend st =
     (case (if live then live_round rs mbeg mend st else dead_round rs mbeg mend st) of
        None \<Rightarrow> None
      | Some (Stop st') \<Rightarrow> Some st'
      | Some (Again st') \<Rightarrow>
          (case iter_move_right rs (ms_iter st') of
             None \<Rightarrow> None
           | Some (r, it) \<Rightarrow>
               mark_loop live rs mbeg mend
                 (st'\<lparr>ms_range := r, ms_iter := extend_affected_range_right it\<rparr>)))"
  by pat_completeness auto
termination
  by (relation "measure (\<lambda>(live, rs, mbeg, mend, st). length rs - it_range_idx (ms_iter st))")
    (auto simp: extend_affected_range_right_def dest!: round_idx iter_move_right_idx
      split: if_splits)

declare mark_loop.simps [simp del]

text \<open>After the loop: replace the affected ranges and move the cursors of the other sites.\<close>

definition fix_cursor ::
  "nat \<Rightarrow> nat \<Rightarrow> cursor \<Rightarrow> int \<Rightarrow> int \<Rightarrow> cursor \<Rightarrow> cursor option" where
  "fix_cursor aff_beg aff_end cursor editor_pos_delta range_idx_delta other =
     (case range_idx other of
        None \<Rightarrow> Some other
      | Some i \<Rightarrow>
          if aff_beg \<le> i \<and> i < aff_end then Some (cursor_move_to_cursor other cursor)
          else if i \<ge> aff_end then cursor_shift other editor_pos_delta range_idx_delta
          else Some other)"

fun fix_cursors ::
  "(cursor \<Rightarrow> cursor option) \<Rightarrow> (site_id \<times> cursor) list \<Rightarrow> (site_id \<times> cursor) list option" where
  "fix_cursors f [] = Some []"
| "fix_cursors f ((s, c) # cs) = do {
     c' \<leftarrow> f c;
     cs' \<leftarrow> fix_cursors f cs;
     Some ((s, c') # cs') }"

definition mark_finish ::
  "internal_doc \<Rightarrow> mark_state \<Rightarrow> int \<Rightarrow> (internal_doc \<times> cursor) option" where
  "mark_finish d st editor_pos_delta = do {
     let it = ms_iter st;
     affected_ranges_count \<leftarrow> sub_c (it_aff_end it) (it_aff_beg it);
     let range_idx_delta = int (length (ms_final st)) - int affected_ranges_count;
     ensure (it_aff_end it \<le> length (ranges d));
     cs \<leftarrow> fix_cursors
            (fix_cursor (it_aff_beg it) (it_aff_end it) (ms_cursor st) editor_pos_delta
               range_idx_delta)
            (cursors d);
     Some (d\<lparr>ranges := take (it_aff_beg it) (ranges d) @ ms_final st @
                         drop (it_aff_end it) (ranges d),
             cursors := cs\<rparr>, ms_cursor st)
   }"

definition flipped_len :: "mark_state \<Rightarrow> nat" where
  "flipped_len st = sum_list (map snd (ms_flipped st))"

definition apply_mark_dead ::
  "internal_doc \<Rightarrow> nat \<Rightarrow> nat \<Rightarrow> cursor \<Rightarrow> (internal_doc \<times> cursor \<times> (nat \<times> nat) list) option" where
  "apply_mark_dead d pos len cursor = do {
     st \<leftarrow> mark_begin (ranges d) pos len cursor;
     st \<leftarrow> mark_loop False (ranges d) pos (pos + len) st;
     (d', cursor') \<leftarrow> mark_finish d st (- int (flipped_len st));
     Some (d', cursor', ms_flipped st)
   }"

definition apply_mark_live ::
  "internal_doc \<Rightarrow> nat \<Rightarrow> nat \<Rightarrow> cursor \<Rightarrow> (internal_doc \<times> cursor) option" where
  "apply_mark_live d pos len cursor = do {
     st \<leftarrow> mark_begin (ranges d) pos len cursor;
     st \<leftarrow> mark_loop True (ranges d) pos (pos + len) st;
     mark_finish d st (int (flipped_len st))
   }"

section \<open>Marks as editor edits\<close>

text \<open>One round of \<open>mark_to_ins_or_del\<close>: the segment captured from the current range, if any.\<close>

definition capture ::
  "range_iterator \<Rightarrow> nat \<Rightarrow> nat \<Rightarrow> utext \<Rightarrow> bool \<Rightarrow> (nat \<times> utext) list option" where
  "capture it mbeg mend txt live =
     (if live \<noteq> it_is_live it \<and> it_range_beg it \<le> mbeg \<and> mbeg < it_range_end it then do {
        captured_end \<leftarrow> sub_c (min (it_range_end it) mend) mbeg;
        ebeg \<leftarrow> (if it_is_live it
                 then map_option (\<lambda>k. it_editor_beg it + k) (sub_c mbeg (it_range_beg it))
                 else Some (it_editor_beg it));
        Some [(ebeg, take captured_end txt)] }
      else if live \<noteq> it_is_live it \<and> it_range_beg it \<le> mend \<and> mend \<le> it_range_end it then do {
        captured_start \<leftarrow> sub_c (max (it_range_beg it) mbeg) mbeg;
        n \<leftarrow> sub_c (length txt) captured_start;
        Some [(it_editor_beg it, take n (drop captured_start txt))] }
      else if live \<noteq> it_is_live it \<and> it_range_beg it > mbeg \<and> it_range_end it \<le> mend then do {
        captured_start \<leftarrow> sub_c (it_range_beg it) mbeg;
        captured_end \<leftarrow> sub_c (it_range_end it) mbeg;
        n \<leftarrow> sub_c captured_end captured_start;
        Some [(it_editor_beg it, take n (drop captured_start txt))] }
      else do {
        ensure (\<not> (live \<noteq> it_is_live it \<and> it_range_beg it < mend \<and> mbeg < it_range_end it));
        Some [] })"

function capture_loop ::
  "range list \<Rightarrow> range_iterator \<Rightarrow> nat \<Rightarrow> nat \<Rightarrow> utext \<Rightarrow> bool \<Rightarrow> (nat \<times> utext) list
    \<Rightarrow> (nat \<times> utext) list option" where
  "capture_loop rs it mbeg mend txt live acc =
     (case capture it mbeg mend txt live of
        None \<Rightarrow> None
      | Some cs \<Rightarrow>
          if it_range_idx it + 1 = length rs then Some (acc @ cs)
          else (case iter_move_right rs it of
                  None \<Rightarrow> None
                | Some (r, it') \<Rightarrow>
                    if it_range_beg it' \<ge> mend then Some (acc @ cs)
                    else capture_loop rs it' mbeg mend txt live (acc @ cs)))"
  by pat_completeness auto
termination
  by (relation "measure (\<lambda>(rs, it, mbeg, mend, txt, live, acc). length rs - it_range_idx it)")
    (auto dest!: iter_move_right_idx)

declare capture_loop.simps [simp del]

definition mark_to_ins_or_del ::
  "range list \<Rightarrow> nat \<Rightarrow> utext \<Rightarrow> cursor \<Rightarrow> (nat \<times> utext) list \<Rightarrow> bool \<Rightarrow> (nat \<times> utext) list option" where
  "mark_to_ins_or_del rs pos txt cursor acc live =
     (if length txt = 0 then Some acc
      else do {
        it \<leftarrow> iter_new rs cursor;
        capture_loop rs it pos (pos + length txt) txt live acc })"

section \<open>Converting and applying operations\<close>

text \<open>The text of a deletion, cut along the ranges that were live.\<close>

fun cut_text :: "(nat \<times> nat) list \<Rightarrow> utext \<Rightarrow> nat \<Rightarrow> (nat \<times> utext) list" where
  "cut_text [] txt text_idx = []"
| "cut_text ((pos, len) # flipped) txt text_idx =
     (pos, take len (drop text_idx txt)) # cut_text flipped txt (text_idx + len)"

definition convert_editor_op_and_apply ::
  "internal_doc \<Rightarrow> editor_op \<Rightarrow> site_id \<Rightarrow> (op \<times> internal_doc) option" where
  "convert_editor_op_and_apply d op site = do {
     let (cursor, d) = get_cursor d site;
     (converted_op, d) \<leftarrow>
       (case op of
          EIns pos txt \<Rightarrow> do {
            (internal_pos, cursor) \<leftarrow> convert_pos (ranges d) pos cursor True;
            (d, cursor) \<leftarrow> apply_ins d internal_pos (length txt) cursor;
            Some (Ins (internal_pos, txt) site, put_cursor d site cursor) }
        | EDel pos txt \<Rightarrow> do {
            (internal_pos, cursor) \<leftarrow> convert_pos (ranges d) pos cursor True;
            let editor_end = pos + length txt;
            (e, _) \<leftarrow> convert_pos (ranges d) editor_end cursor True;
            internal_len \<leftarrow> sub_c e internal_pos;
            (d, cursor, flipped_ranges) \<leftarrow> apply_mark_dead d internal_pos internal_len cursor;
            Some (Mark (cut_text flipped_ranges txt 0) False site, put_cursor d site cursor) }
        | EUndo _ \<Rightarrow> None
        | ERedo _ \<Rightarrow> None);
     ensure (check_cursor_positions d);
     Some (converted_op, d)
   }"

fun mark_edits ::
  "range list \<Rightarrow> (nat \<times> utext) list \<Rightarrow> cursor \<Rightarrow> (nat \<times> utext) list \<Rightarrow> bool
    \<Rightarrow> ((nat \<times> utext) list \<times> cursor) option" where
  "mark_edits rs [] cursor acc live = Some (acc, cursor)"
| "mark_edits rs ((pos, txt) # edits) cursor acc live = do {
     (_, cursor) \<leftarrow> convert_pos rs pos cursor False;
     acc \<leftarrow> mark_to_ins_or_del rs pos txt cursor acc live;
     mark_edits rs edits cursor acc live }"

fun mark_all ::
  "internal_doc \<Rightarrow> (nat \<times> nat) list \<Rightarrow> cursor \<Rightarrow> bool \<Rightarrow> (internal_doc \<times> cursor) option" where
  "mark_all d [] cursor live = Some (d, cursor)"
| "mark_all d ((pos, len) # edits) cursor live = do {
     (_, cursor) \<leftarrow> convert_pos (ranges d) pos cursor False;
     (d, cursor) \<leftarrow>
       (if live then apply_mark_live d pos len cursor
        else map_option (\<lambda>(d, cursor, _). (d, cursor)) (apply_mark_dead d pos len cursor));
     mark_all d edits cursor live }"

definition to_edits :: "(nat \<times> utext) list \<Rightarrow> edit list" where
  "to_edits es = map (\<lambda>(pos, content). \<lparr>ed_pos = pos, ed_content = content\<rparr>) es"

definition convert_internal_op_and_apply ::
  "internal_doc \<Rightarrow> op \<Rightarrow> (edit_instruction \<times> internal_doc) option" where
  "convert_internal_op_and_apply d op = do {
     let site = op_site op;
     let (cursor, d) = get_cursor d site;
     (instr, d) \<leftarrow>
       (case op of
          Ins (pos, txt) _ \<Rightarrow> do {
            (editor_pos, cursor) \<leftarrow> convert_pos (ranges d) pos cursor False;
            (d, cursor) \<leftarrow> apply_ins d pos (length txt) cursor;
            Some (InsEdits [\<lparr>ed_pos = editor_pos, ed_content = txt\<rparr>], put_cursor d site cursor) }
        | Mark edits live _ \<Rightarrow> do {
            (new_edits, cursor) \<leftarrow> mark_edits (ranges d) edits cursor [] live;
            (d, cursor) \<leftarrow> mark_all d (map (\<lambda>(pos, txt). (pos, length txt)) edits) cursor live;
            Some (if live then InsEdits (to_edits new_edits) else DelEdits (to_edits new_edits),
              put_cursor d site cursor) });
     ensure (check_cursor_positions d);
     Some (instr, d)
   }"

end
