(* ===== verification/Doc_Convert.thy ===== *)
theory Doc_Convert
  imports Internal_Doc
begin

text \<open>
  Correctness of the position conversion: from any cursor that points to the beginning of a
  range, \<open>convert_pos\<close> returns (it neither walks off the ranges nor goes below zero), leaves the
  cursor on the range that holds the position, and translates between the number of live
  characters before a position and the position itself.
\<close>

section \<open>The invariant of a document\<close>

definition doc_ok :: "internal_doc \<Rightarrow> bool" where
  "doc_ok d \<longleftrightarrow> alternating (ranges d) \<and> (\<forall>(s, c) \<in> set (cursors d). cursor_ok (ranges d) c)"

text \<open>How many live characters come before an internal position.\<close>

definition live_before :: "range list \<Rightarrow> nat \<Rightarrow> nat" where
  "live_before rs p = length (filter (\<lambda>b. b) (take p (flat rs)))"

lemma flat_split_at:
  "i < length rs \<Longrightarrow>
    flat rs = flat (take i rs) @ replicate (rlen (rs ! i)) (is_live (rs ! i)) @ flat (drop (Suc i) rs)"
  by (metis flat_simps(2,3) split_at_nth)

lemma live_before_at:
  assumes "i < length rs" and "total_len (take i rs) \<le> p" and "p \<le> total_len (take (Suc i) rs)"
  shows "live_before rs p =
    total_live (take i rs) + (if is_live (rs ! i) then p - total_len (take i rs) else 0)"
proof -
  have "take p (flat rs) = flat (take i rs) @
      replicate (p - total_len (take i rs)) (is_live (rs ! i))"
    using assms by (subst flat_split_at) (auto simp: total_len_take_Suc min_def)
  then show ?thesis by (simp add: live_before_def count_flat)
qed

lemma live_before_prefix [simp]: "live_before rs (total_len (take i rs)) = total_live (take i rs)"
proof -
  have "flat rs = flat (take i rs) @ flat (drop i rs)"
    by (metis append_take_drop_id flat_simps(3))
  then show ?thesis by (simp add: live_before_def count_flat)
qed

lemma live_before_0 [simp]: "live_before rs 0 = 0"
  by (simp add: live_before_def)

lemma live_before_total: "live_before rs (total_len rs) = total_live rs"
  using live_before_prefix [of rs "length rs"] by simp

lemma live_before_mono: "p \<le> q \<Longrightarrow> live_before rs p \<le> live_before rs q"
  unfolding live_before_def
  by (metis filter_append le_add1 length_append take_drop_id_at)

section \<open>Walking to a position\<close>

definition prefix_pos :: "range list \<Rightarrow> bool \<Rightarrow> nat \<Rightarrow> nat" where
  "prefix_pos rs editor i = (if editor then total_live (take i rs) else total_len (take i rs))"

lemma prefix_pos_Suc:
  "i < length rs \<Longrightarrow> prefix_pos rs editor (Suc i) = prefix_pos rs editor i + step_len editor (rs ! i)"
  by (simp add: prefix_pos_def step_len_def total_len_take_Suc total_live_take_Suc)

definition placed :: "range list \<Rightarrow> cursor \<Rightarrow> nat \<Rightarrow> bool" where
  "placed rs c i \<longleftrightarrow> i < length rs \<and> c\<lparr>range_idx := Some i\<rparr> = cursor_at rs i"

lemma placed_pos:
  assumes "placed rs c i"
  shows "cursor_pos c editor = prefix_pos rs editor i"
    and "internal_pos c = total_len (take i rs)" and "editor_pos c = total_live (take i rs)"
  using assms by (cases c; auto simp: placed_def cursor_at_def cursor_pos_def prefix_pos_def)+

lemma placedI:
  assumes "i < length rs" and "internal_pos c = total_len (take i rs)"
    and "editor_pos c = total_live (take i rs)"
  shows "placed rs c i"
  using assms by (cases c) (simp add: placed_def cursor_at_def)

lemma cursor_pos_at [simp]: "cursor_pos (cursor_at rs j) e = prefix_pos rs e j"
  by (simp add: cursor_pos_def prefix_pos_def)

lemma conv_forward_ok:
  assumes "placed rs c i" and "prefix_pos rs editor i < pos" and "pos \<le> prefix_pos rs editor (length rs)"
  shows "\<exists>c' j. conv_forward rs editor pos c i = Some (c', j) \<and> placed rs c' j \<and>
    prefix_pos rs editor j < pos \<and> pos \<le> prefix_pos rs editor (Suc j)"
  using assms
proof (induction rs editor pos c i rule: conv_forward.induct)
  case (1 rs editor pos c i)
  have i: "i < length rs" using "1.prems"(1) by (simp add: placed_def)
  note at = placed_pos [OF "1.prems"(1)]
  let ?r = "rs ! i"
  let ?c = "c\<lparr>internal_pos := internal_pos c + rlen ?r,
    editor_pos := (if is_live ?r then editor_pos c + rlen ?r else editor_pos c),
    range_idx := Some (i + 1)\<rparr>"
  show ?case
  proof (cases "pos > cursor_pos c editor + step_len editor ?r")
    case True
    then have gt: "prefix_pos rs editor (Suc i) < pos"
      by (simp add: at(1) prefix_pos_Suc i)
    have "Suc i < length rs"
    proof (rule ccontr)
      assume "\<not> Suc i < length rs"
      with i have "Suc i = length rs" by simp
      with gt "1.prems"(3) show False by simp
    qed
    then have "placed rs ?c (i + 1)"
      by (intro placedI) (auto simp: at total_len_take_Suc total_live_take_Suc i live_len_def)
    from "1.IH" [OF i refl True this] gt "1.prems"(3) show ?thesis
      using i True by (subst conv_forward.simps) (simp add: Let_def)
  next
    case False
    with i "1.prems" show ?thesis
      by (subst conv_forward.simps) (auto simp: at(1) prefix_pos_Suc)
  qed
qed

lemma conv_backward_ok:
  assumes "placed rs c i" and "pos \<le> prefix_pos rs editor i"
  shows "\<exists>c' j. conv_backward rs editor pos c i = Some (c', j) \<and> placed rs c' j \<and>
    prefix_pos rs editor j \<le> pos \<and> pos \<le> prefix_pos rs editor (Suc j)"
  using assms
proof (induction i arbitrary: c)
  case 0
  then have "prefix_pos rs editor 0 = 0" by (simp add: prefix_pos_def)
  with 0 placed_pos(1) [OF 0(1), of editor] show ?case
    by (subst conv_backward.simps) (auto simp: placed_def)
next
  case (Suc j)
  have j: "Suc j < length rs" using Suc.prems(1) by (simp add: placed_def)
  note at = placed_pos [OF Suc.prems(1)]
  let ?r = "rs ! j"
  let ?c = "c\<lparr>range_idx := Some j, internal_pos := internal_pos c - rlen ?r,
    editor_pos := (if is_live ?r then editor_pos c - rlen ?r else editor_pos c)\<rparr>"
  show ?case
  proof (cases "pos < cursor_pos c editor \<or> (editor \<and> pos = cursor_pos c editor \<and> is_live (rs ! Suc j))")
    case True
    have pl: "placed rs ?c j"
      using j by (intro placedI) (auto simp: at total_len_take_Suc total_live_take_Suc live_len_def)
    have step: "conv_backward rs editor pos c (Suc j) = conv_backward rs editor pos ?c j"
      using True j
      by (subst conv_backward.simps)
        (simp add: at total_len_take_Suc total_live_take_Suc live_len_def)
    show ?thesis
    proof (cases "pos \<le> prefix_pos rs editor j")
      case True
      from Suc.IH [OF pl this] step show ?thesis by simp
    next
      case False
      then have "conv_backward rs editor pos ?c j = Some (?c, j)"
        using j by (subst conv_backward.simps) (simp add: placed_pos(1) [OF pl])
      with step pl False Suc.prems(2) show ?thesis by auto
    qed
  next
    case False
    then have "\<not> (pos < cursor_pos c editor \<or>
        (editor \<and> pos = cursor_pos c editor \<and> is_live (rs ! Suc j) \<and> Suc j > 0))" by simp
    then have "conv_backward rs editor pos c (Suc j) = Some (c, Suc j)"
      using j by (subst conv_backward.simps) (simp only: nth_c_ok bind.bind_lunit if_False)
    with False Suc.prems j show ?thesis
      by (auto simp: at(1) prefix_pos_Suc)
  qed
qed

section \<open>Conversion\<close>

lemma placed_end:
  assumes "placed rs c i"
  shows "c\<lparr>range_idx := Some i\<rparr> = cursor_at rs i" and "i < length rs"
  using assms by (simp_all add: placed_def)

text \<open>What the caller of \<open>convert_pos\<close> relies on; \<open>p\<close> is the internal position.\<close>

definition cursor_holds :: "range list \<Rightarrow> cursor \<Rightarrow> nat \<Rightarrow> bool" where
  "cursor_holds rs c p \<longleftrightarrow>
     (if rs = [] then cursor_ok rs c
      else \<exists>i < length rs. c = cursor_at rs i \<and>
             total_len (take i rs) \<le> p \<and> p \<le> total_len (take (Suc i) rs))"

lemma cursor_holds_ok: "cursor_holds rs c p \<Longrightarrow> cursor_ok rs c"
  by (auto simp: cursor_holds_def split: if_splits)

lemma cursor_holds_at:
  "i < length rs \<Longrightarrow> total_len (take i rs) \<le> p \<Longrightarrow> p \<le> total_len (take (Suc i) rs) \<Longrightarrow>
    cursor_holds rs (cursor_at rs i) p"
  by (auto simp: cursor_holds_def)

lemma convert_pos_walk:
  assumes "cursor_ok rs c" and "pos \<noteq> 0" and "pos \<noteq> cursor_pos c editor" and "rs \<noteq> []"
    and "pos \<le> prefix_pos rs editor (length rs)"
  shows "\<exists>j < length rs. prefix_pos rs editor j \<le> pos \<and> pos \<le> prefix_pos rs editor (Suc j) \<and>
    convert_pos rs pos c editor =
      Some (prefix_pos rs (\<not> editor) j + (if editor \<or> is_live (rs ! j) then pos - prefix_pos rs editor j else 0),
        cursor_at rs j)"
proof -
  define idx where "idx = (case range_idx c of None \<Rightarrow> 0 | Some i \<Rightarrow> i)"
  define c0 where "c0 = (if idx = 0 then c\<lparr>editor_pos := 0, internal_pos := 0\<rparr> else c)"
  have pl: "placed rs c0 idx"
    using assms(1,4)
    by (intro placedI) (auto simp: c0_def idx_def cursor_ok_def split: option.splits)
  note at = placed_pos [OF pl]
  obtain c' j where walk: "(if pos > cursor_pos c0 editor then conv_forward rs editor pos c0 idx
        else conv_backward rs editor pos c0 idx) = Some (c', j)"
      "placed rs c' j" "prefix_pos rs editor j \<le> pos" "pos \<le> prefix_pos rs editor (Suc j)"
  proof (cases "pos > cursor_pos c0 editor")
    case True
    with conv_forward_ok [OF pl, of editor pos] assms(5) at(1) that show ?thesis
      by (metis less_imp_le)
  next
    case False
    with conv_backward_ok [OF pl, of pos editor] at(1) that show ?thesis by auto
  qed
  note j = placed_end [OF walk(2)]
  have "convert_pos rs pos c editor =
      Some (prefix_pos rs (\<not> editor) j + (if editor \<or> is_live (rs ! j) then pos - prefix_pos rs editor j else 0),
        cursor_at rs j)"
    using assms(2-4) walk(1,3) j pl
    unfolding convert_pos_def idx_def [symmetric] Let_def c0_def [symmetric]
    by (auto simp: placed_def split: if_splits)
  with j walk(3,4) show ?thesis by blast
qed

lemma convert_pos_editor:
  assumes "cursor_ok rs c" and "pos \<le> total_live rs"
  shows "\<exists>p c'. convert_pos rs pos c True = Some (p, c') \<and> cursor_holds rs c' p \<and>
    p \<le> total_len rs \<and> live_before rs p = pos"
proof -
  consider (zero) "pos = 0" | (here) "pos \<noteq> 0" "pos = editor_pos c"
    | (walk) "pos \<noteq> 0" "pos \<noteq> editor_pos c" by blast
  then show ?thesis
  proof cases
    case zero
    then show ?thesis
      using assms(1)
      by (cases rs) (auto simp: convert_pos_def cursor_holds_def cursor_at_def)
  next
    case here
    then obtain i where i: "i < length rs" "c = cursor_at rs i"
      using assms(1) by (auto simp: cursor_ok_def split: option.splits)
    with here show ?thesis
      by (auto simp: convert_pos_def cursor_pos_def cursor_holds_def total_len_take_le
          total_len_take_Suc)
  next
    case walk
    with assms have ne: "rs \<noteq> []" by auto
    obtain j where j: "j < length rs" "total_live (take j rs) \<le> pos"
        "pos \<le> total_live (take (Suc j) rs)"
        "convert_pos rs pos c True = Some (total_len (take j rs) + (pos - total_live (take j rs)), cursor_at rs j)"
      using convert_pos_walk [OF assms(1) walk(1) _ ne, of True] walk(2) assms(2)
      by (auto simp: cursor_pos_def prefix_pos_def)
    let ?p = "total_len (take j rs) + (pos - total_live (take j rs))"
    have hi: "?p \<le> total_len (take (Suc j) rs)"
      using j by (auto simp: total_len_take_Suc total_live_take_Suc live_len_def split: if_splits)
    have "live_before rs ?p = pos"
      using j live_before_at [OF j(1) _ hi]
      by (auto simp: total_live_take_Suc live_len_def split: if_splits)
    moreover have "?p \<le> total_len rs" by (rule order_trans [OF hi total_len_take_le])
    ultimately show ?thesis
      using j hi ne by (auto simp: cursor_holds_def)
  qed
qed

lemma convert_pos_internal:
  assumes "cursor_ok rs c" and "pos \<le> total_len rs"
  shows "\<exists>c'. convert_pos rs pos c False = Some (live_before rs pos, c') \<and> cursor_holds rs c' pos"
proof -
  consider (zero) "pos = 0" | (here) "pos \<noteq> 0" "pos = internal_pos c"
    | (walk) "pos \<noteq> 0" "pos \<noteq> internal_pos c" by blast
  then show ?thesis
  proof cases
    case zero
    then show ?thesis
      using assms(1)
      by (cases rs) (auto simp: convert_pos_def cursor_holds_def cursor_at_def)
  next
    case here
    then obtain i where i: "i < length rs" "c = cursor_at rs i"
      using assms(1) by (auto simp: cursor_ok_def split: option.splits)
    with here show ?thesis
      by (auto simp: convert_pos_def cursor_pos_def cursor_holds_def total_len_take_Suc)
  next
    case walk
    with assms have ne: "rs \<noteq> []" by auto
    obtain j where j: "j < length rs" "total_len (take j rs) \<le> pos"
        "pos \<le> total_len (take (Suc j) rs)"
        "convert_pos rs pos c False = Some (total_live (take j rs) +
          (if is_live (rs ! j) then pos - total_len (take j rs) else 0), cursor_at rs j)"
      using convert_pos_walk [OF assms(1) walk(1) _ ne, of False] walk(2) assms(2)
      by (auto simp: cursor_pos_def prefix_pos_def)
    with ne live_before_at [OF j(1-3)] show ?thesis
      by (auto simp: cursor_holds_def)
  qed
qed

section \<open>The cursor check\<close>

lemma check_walk_ok:
  assumes "k \<le> i" and "i < length rs"
  shows "check_walk (cursor_at rs i) (total_live (take k rs)) (total_len (take k rs)) (drop k rs)"
  using assms
proof (induction "length rs - k" arbitrary: k)
  case (Suc n)
  have k: "k < length rs" using Suc.prems by simp
  have drop: "drop k rs = rs ! k # drop (Suc k) rs" using k by (simp add: Cons_nth_drop_Suc)
  show ?case
  proof (cases "total_len (take k rs) = total_len (take i rs)")
    case True
    have "flat (take i rs) = flat (take k rs) @ flat (take (i - k) (drop k rs))"
      by (metis Suc.prems(1) flat_simps(3) take_drop_id_at)
    with True have "flat (take i rs) = flat (take k rs)"
      by (metis append_Nil2 length_0_conv length_append length_flat add_cancel_left_right)
    then have "total_live (take k rs) = total_live (take i rs)" by (metis count_flat)
    with True show ?thesis by (simp add: drop)
  next
    case False
    then have "k \<noteq> i" by auto
    with Suc have "check_walk (cursor_at rs i) (total_live (take (Suc k) rs))
        (total_len (take (Suc k) rs)) (drop (Suc k) rs)" by simp
    with False k show ?thesis
      by (cases "rs ! k") (simp_all add: drop total_len_take_Suc total_live_take_Suc live_len_def)
  qed
qed simp

lemma cursor_ok_check:
  assumes "cursor_ok rs c"
  shows "range_idx c = None \<or> check_walk c 0 0 rs"
proof (cases "range_idx c")
  case (Some i)
  with assms have "c = cursor_at rs i" "i < length rs" by (auto simp: cursor_ok_def)
  with check_walk_ok [of 0 i rs] show ?thesis by simp
qed simp

lemma doc_ok_check: "doc_ok d \<Longrightarrow> check_cursor_positions d"
  unfolding check_cursor_positions_def doc_ok_def list_all_iff
  by (blast dest: cursor_ok_check)

lemma editor_len_eq: "editor_len d = total_live (ranges d)"
proof -
  have "editor_len_loop rs n = n + total_live rs" for rs n
    by (induction rs n rule: editor_len_loop.induct) (auto simp: live_len_def split: range.splits)
  then show ?thesis by (simp add: editor_len_def)
qed

lemma internal_len_eq: "internal_len d = total_len (ranges d)"
  by (simp add: internal_len_def total_len_def)

text \<open>Taking a site's cursor out, and putting one back.\<close>

lemma set_alist_update: "set (AList.update k v xs) \<subseteq> insert (k, v) (set xs)"
  by (induction xs) auto

lemma put_cursor_ok: "doc_ok d \<Longrightarrow> cursor_ok (ranges d) c \<Longrightarrow> doc_ok (put_cursor d site c)"
  using set_alist_update [of site c "cursors d"]
  by (auto simp: put_cursor_def doc_ok_def)

lemma cursor_ok_fresh [simp]: "cursor_ok rs fresh_cursor"
  by (simp add: cursor_ok_def fresh_cursor_def)

lemma get_cursor_ok:
  assumes "doc_ok d" and "get_cursor d site = (c, d')"
  shows "cursor_ok (ranges d) c \<and> doc_ok d' \<and> ranges d' = ranges d"
proof (cases "map_of (cursors d) site")
  case None
  with assms put_cursor_ok [of d fresh_cursor site] show ?thesis
    by (auto simp: get_cursor_def put_cursor_def)
next
  case (Some a)
  then have "(site, a) \<in> set (cursors d)" by (rule map_of_SomeD)
  with Some assms show ?thesis by (auto simp: get_cursor_def doc_ok_def)
qed

lemma ranges_put_cursor [simp]: "ranges (put_cursor d site c) = ranges d"
  by (simp add: put_cursor_def)

end
