(* ===== verification/Doc_Insert.thy ===== *)
theory Doc_Insert
  imports Doc_Convert
begin

text \<open>
  Correctness of \<open>apply_ins\<close>: with the cursor on the range that holds the position, inserting
  never fails an assertion, inserts the new flags at the position, keeps the ranges coalesced and
  keeps every site's cursor at the beginning of its range.
\<close>

lemma shift_cursor_right_ok:
  assumes "cursor_ok (A @ B) c" and "length A' = length A + k"
    and "total_len A' = total_len A + n" and "total_live A' = total_live A + n"
    and "\<And>j. j < length A \<Longrightarrow>
      total_len (take j A') = total_len (take j A) \<and> total_live (take j A') = total_live (take j A)"
  shows "cursor_ok (A' @ B) (shift_cursor_right (length A) n k c)"
proof (cases "range_idx c")
  case None
  with assms(1) show ?thesis by (simp add: shift_cursor_right_def cursor_ok_def)
next
  case (Some j)
  with assms(1) have c: "c = cursor_at (A @ B) j" "j < length A + length B"
    by (auto simp: cursor_ok_def)
  show ?thesis
  proof (cases "length A \<le> j")
    case True
    have "shift_cursor_right (length A) n k c = cursor_at (A' @ B) (j + k)"
      using c True assms(2-4) by (simp add: shift_cursor_right_def cursor_at_def)
    with c assms(2) show ?thesis by simp
  next
    case False
    then have "shift_cursor_right (length A) n k c = cursor_at (A' @ B) j"
      using c assms(2,5) by (simp add: shift_cursor_right_def cursor_at_def)
    with False assms(2) show ?thesis by simp
  qed
qed

lemma doc_ok_shift:
  assumes "doc_ok d" and "ranges d = A @ B" and "alternating (A' @ B)"
    and "length A' = length A + k"
    and "total_len A' = total_len A + n" and "total_live A' = total_live A + n"
    and "\<And>j. j < length A \<Longrightarrow>
      total_len (take j A') = total_len (take j A) \<and> total_live (take j A') = total_live (take j A)"
  shows "doc_ok (shift_cursors_right (d\<lparr>ranges := A' @ B\<rparr>) (length A) n k)"
  using assms(1-3) shift_cursor_right_ok [OF _ assms(4-7), of B]
  by (fastforce simp: doc_ok_def shift_cursors_right_def)

lemma ranges_shift [simp]: "ranges (shift_cursors_right d i n k) = ranges d"
  by (simp add: shift_cursors_right_def)

lemma cursor_ok_append: "cursor_ok rs c \<Longrightarrow> cursor_ok (rs @ rs') c"
  by (auto simp: cursor_ok_def cursor_at_def split: option.splits)

lemma doc_ok_append:
  "doc_ok d \<Longrightarrow> alternating (ranges d @ rs') \<Longrightarrow> doc_ok (d\<lparr>ranges := ranges d @ rs'\<rparr>)"
  by (auto simp: doc_ok_def intro: cursor_ok_append)

lemma flat_insert:
  assumes "flat (A' :: range list) = take k (flat A) @ ins @ drop k (flat A)" and "k \<le> total_len A"
  shows "flat (P @ A' @ B) =
    take (total_len P + k) (flat (P @ A @ B)) @ ins @ drop (total_len P + k) (flat (P @ A @ B))"
  using assms by simp

text \<open>The range under the cursor, with what is before and after it.\<close>

lemma cursor_holds_split:
  assumes "cursor_holds rs c p" and "rs \<noteq> []"
  obtains P r Q where "rs = P @ r # Q" and "c = cursor_at rs (length P)"
    and "total_len P \<le> p" and "p \<le> total_len P + rlen r"
proof -
  obtain i where i: "i < length rs" "c = cursor_at rs i"
      "total_len (take i rs) \<le> p" "p \<le> total_len (take (Suc i) rs)"
    using assms by (auto simp: cursor_holds_def)
  show ?thesis
    by (rule that [of "take i rs" "rs ! i" "drop (Suc i) rs"])
      (use i in \<open>auto simp: total_len_take_Suc simp flip: split_at_nth\<close>)
qed

definition inserted :: "internal_doc \<Rightarrow> nat \<Rightarrow> nat \<Rightarrow> (internal_doc \<times> cursor) option \<Rightarrow> bool" where
  "inserted d pos len res \<longleftrightarrow>
     (\<exists>d' c'. res = Some (d', c') \<and> doc_ok d' \<and> cursor_ok (ranges d') c' \<and>
        flat (ranges d') = take pos (flat (ranges d)) @ replicate len True @ drop pos (flat (ranges d)))"

lemma insertedI:
  assumes "res = Some (d', c')" and "doc_ok d'" and "cursor_ok (ranges d') c'"
    and "ranges d = P @ A @ B" and "ranges d' = P @ A' @ B"
    and "flat A' = take k (flat A) @ replicate len True @ drop k (flat A)"
    and "k \<le> total_len A" and "pos = total_len P + k"
  shows "inserted d pos len res"
  using assms flat_insert [OF assms(6,7), of P B] by (auto simp: inserted_def)

lemma replicate_split: "k \<le> n \<Longrightarrow> replicate n x = replicate k x @ replicate (n - k) x"
  by (simp flip: replicate_add)

lemma apply_ins_empty:
  assumes "doc_ok d" and "cursor_ok [] c" and "ranges d = []" and "0 < len"
  shows "inserted d 0 len (apply_ins d 0 len c)"
proof -
  have "doc_ok (d\<lparr>ranges := [Live len]\<rparr>)"
    using assms doc_ok_append [of d "[Live len]"] by simp
  moreover have "cursor_ok [Live len] c" using cursor_ok_append [OF assms(2), of "[Live len]"] by simp
  ultimately show ?thesis
    using assms by (auto simp: inserted_def apply_ins_def)
qed

lemma apply_ins_live:
  assumes "doc_ok d" and "ranges d = P @ Live n # Q"
    and "total_len P \<le> pos" and "pos \<le> total_len P + n" and "0 < len"
  shows "inserted d pos len (apply_ins d pos len (cursor_at (ranges d) (length P)))"
proof -
  let ?rs = "P @ [Live (n + len)] @ Q"
  let ?d = "shift_cursors_right (d\<lparr>ranges := (P @ [Live (n + len)]) @ Q\<rparr>) (length (P @ [Live n])) len 0"
  have alt: "alternating ?rs"
    using assms(1,2) by (auto simp: doc_ok_def alternating_append alternating_Cons)
  have ok: "doc_ok ?d"
    using assms(1,2) alt
    by (intro doc_ok_shift) (auto simp: live_len_def)
  have "apply_ins d pos len (cursor_at (ranges d) (length P)) = Some (?d, cursor_at (ranges d) (length P))"
    using assms(2-4) by (simp add: apply_ins_def Let_def)
  moreover have "cursor_at (ranges d) (length P) = cursor_at ?rs (length P)"
    using assms(2) by (simp add: cursor_at_def)
  ultimately show ?thesis
    by (intro insertedI [where d' = ?d and c' = "cursor_at ?rs (length P)" and P = P and A = "[Live n]"
          and A' = "[Live (n + len)]" and B = Q and k = "pos - total_len P"])
      (use assms ok in \<open>auto simp: replicate_add min_def simp flip: replicate_add\<close>)
qed

lemma apply_ins_dead_beg:
  assumes "doc_ok d" and "ranges d = P @ Dead n # Q" and "0 < len"
  shows "inserted d (total_len P) len
    (apply_ins d (total_len P) len (cursor_at (ranges d) (length P)))"
proof (cases P rule: rev_cases)
  case Nil
  let ?d = "shift_cursors_right (d\<lparr>ranges := [Live len] @ ranges d\<rparr>) (length ([] :: range list)) len 1"
  have ok: "doc_ok ?d"
    using assms Nil
    by (intro doc_ok_shift) (auto simp: live_len_def doc_ok_def alternating_Cons)
  have "apply_ins d 0 len (cursor_at (ranges d) 0) =
      Some (?d, cursor_at (Live len # ranges d) 1)"
    using assms(2) Nil by (simp add: apply_ins_def Let_def cursor_at_def live_len_def)
  with Nil assms ok show ?thesis
    by (intro insertedI [where d' = ?d and c' = "cursor_at (Live len # ranges d) 1"
          and P = "[]" and A = "[]" and A' = "[Live len]" and k = 0 and B = "ranges d"]) auto
next
  case (snoc P' b)
  have b: "is_live b" "0 < rlen b"
    using assms(1,2) snoc by (auto simp: doc_ok_def alternating_append alternating_Cons)
  then obtain m where m: "b = Live m" by (cases b) auto
  let ?rs = "P' @ [Live (m + len)] @ Dead n # Q"
  let ?d = "shift_cursors_right (d\<lparr>ranges := (P' @ [Live (m + len)]) @ Dead n # Q\<rparr>)
    (length (P' @ [Live m])) len 0"
  have ok: "doc_ok ?d"
    using assms snoc m
    by (intro doc_ok_shift) (auto simp: live_len_def doc_ok_def alternating_append alternating_Cons)
  have "apply_ins d (total_len P) len (cursor_at (ranges d) (length P)) =
      Some (?d, cursor_at ?rs (length P))"
    using assms(2) snoc m
    by (simp add: apply_ins_def Let_def cursor_at_def live_len_def nth_append list_update_append)
  with snoc m assms ok show ?thesis
    by (intro insertedI [where d' = ?d and c' = "cursor_at ?rs (length P)" and P = P' and A = "[Live m]" and A' = "[Live (m + len)]"
          and B = "Dead n # Q" and k = m]) (auto simp: replicate_add)
qed

lemma apply_ins_dead_end:
  assumes "doc_ok d" and "ranges d = P @ Dead n # Q" and "0 < len"
  shows "inserted d (total_len P + n) len
    (apply_ins d (total_len P + n) len (cursor_at (ranges d) (length P)))"
proof -
  have n: "0 < n" using assms(1,2) by (auto simp: doc_ok_def alternating_append alternating_Cons)
  show ?thesis
  proof (cases Q)
    case Nil
    let ?d = "d\<lparr>ranges := ranges d @ [Live len]\<rparr>"
    have ok: "doc_ok ?d"
      using assms Nil
      by (intro doc_ok_append) (auto simp: doc_ok_def alternating_append alternating_Cons)
    have "apply_ins d (total_len P + n) len (cursor_at (ranges d) (length P)) =
        Some (?d, cursor_at (ranges d) (length P))"
      using assms(2) Nil n by (simp add: apply_ins_def Let_def)
    moreover have "cursor_at (ranges d) (length P) = cursor_at (ranges ?d) (length P)"
      using assms(2) by (simp add: cursor_at_def)
    ultimately show ?thesis
      using assms ok Nil
      by (intro insertedI [where d' = ?d and c' = "cursor_at (ranges ?d) (length P)"
            and P = "P @ [Dead n]" and A = "[]" and A' = "[Live len]" and k = 0 and B = "[]"]) auto
  next
    case (Cons a Q')
    have a: "is_live a" "0 < rlen a"
      using assms(1,2) Cons by (auto simp: doc_ok_def alternating_append alternating_Cons)
    then obtain m where m: "a = Live m" by (cases a) auto
    let ?rs = "(P @ [Dead n]) @ [Live (m + len)] @ Q'"
    let ?d = "shift_cursors_right (d\<lparr>ranges := (P @ [Dead n, Live (m + len)]) @ Q'\<rparr>)
      (length (P @ [Dead n, Live m])) len 0"
    have pre: "total_len (take j (P @ [Dead n, Live (m + len)])) = total_len (take j (P @ [Dead n, Live m])) \<and>
        total_live (take j (P @ [Dead n, Live (m + len)])) = total_live (take j (P @ [Dead n, Live m]))"
      if "j < length (P @ [Dead n, Live m])" for j
      using that by (auto simp: take_Cons' not_less)
    have ok: "doc_ok ?d"
      using assms Cons m
      by (intro doc_ok_shift [OF assms(1) _ _ _ _ _ pre])
        (auto simp: live_len_def doc_ok_def alternating_append alternating_Cons)
    have "apply_ins d (total_len P + n) len (cursor_at (ranges d) (length P)) =
        Some (?d, cursor_at ?rs (length P))"
      using assms(2) Cons m n
      by (simp add: apply_ins_def Let_def cursor_at_def nth_append list_update_append)
    with Cons m assms ok show ?thesis
      by (intro insertedI [where d' = ?d and c' = "cursor_at ?rs (length P)" and P = "P @ [Dead n]"
            and A = "[Live m]" and A' = "[Live (m + len)]" and B = Q' and k = 0]) (auto simp: replicate_add simp flip: replicate_add)
  qed
qed

lemma apply_ins_dead_mid:
  assumes "doc_ok d" and "ranges d = P @ Dead n # Q" and "0 < len"
    and "total_len P < pos" and "pos < total_len P + n"
  shows "inserted d pos len (apply_ins d pos len (cursor_at (ranges d) (length P)))"
proof -
  define k where "k = pos - total_len P"
  have k: "0 < k" "k < n" "pos = total_len P + k" using assms(4,5) by (auto simp: k_def)
  let ?A = "[Dead k, Live len, Dead (n - k)]"
  let ?d = "shift_cursors_right (d\<lparr>ranges := (P @ ?A) @ Q\<rparr>) (length (P @ [Dead n])) len 2"
  have ok: "doc_ok ?d"
    using assms k
    by (intro doc_ok_shift) (auto simp: live_len_def doc_ok_def alternating_append alternating_Cons)
  have "apply_ins d pos len (cursor_at (ranges d) (length P)) =
      Some (?d, cursor_at (P @ ?A @ Q) (length P + 1))"
    using assms(2) k by (simp add: apply_ins_def Let_def cursor_at_def live_len_def)
  with assms ok k show ?thesis
    by (intro insertedI [where d' = ?d and c' = "cursor_at (P @ ?A @ Q) (length P + 1)"
          and P = P and A = "[Dead n]" and A' = ?A and B = Q and k = k])
      (auto simp: min_def)
qed

lemma apply_ins_ok:
  assumes "doc_ok d" and "cursor_holds (ranges d) c pos" and "pos \<le> total_len (ranges d)" and "0 < len"
  shows "inserted d pos len (apply_ins d pos len c)"
proof (cases "ranges d = []")
  case True
  with assms apply_ins_empty show ?thesis by (auto simp: cursor_holds_def)
next
  case False
  from cursor_holds_split [OF assms(2) this]
  obtain P r Q where s: "ranges d = P @ r # Q" "c = cursor_at (ranges d) (length P)"
      "total_len P \<le> pos" "pos \<le> total_len P + rlen r" by blast
  show ?thesis
  proof (cases r)
    case (Live n)
    with s assms apply_ins_live show ?thesis by auto
  next
    case (Dead n)
    consider "pos = total_len P" | "pos = total_len P + n" | "total_len P < pos" "pos < total_len P + n"
      using s(3,4) Dead by fastforce
    then show ?thesis
      using s Dead assms apply_ins_dead_beg apply_ins_dead_end apply_ins_dead_mid by cases auto
  qed
qed

end
