(* ===== verification/Doc_Mark.thy ===== *)
theory Doc_Mark
  imports Doc_Insert
begin

text \<open>
  Correctness of the marking loops \<open>apply_mark_dead\<close> and \<open>apply_mark_live\<close>. One round is
  characterised for both at once, then the loop by induction on the ranges that are left: it
  stops, no assertion fails, the flags of the marked interval are set, exactly the runs that had
  the other flag are reported as flipped, the result is coalesced and every cursor stays at the
  beginning of a range.
\<close>

section \<open>States of the loop\<close>

definition mk_range :: "bool \<Rightarrow> nat \<Rightarrow> range" where
  "mk_range live n = (if live then Live n else Dead n)"

lemma mk_range_simps [simp]:
  "is_live (mk_range live n) = live" "rlen (mk_range live n) = n"
  "mk_range True n = Live n" "mk_range False n = Dead n"
  by (simp_all add: mk_range_def)

definition iter_at :: "range list \<Rightarrow> nat \<Rightarrow> nat \<Rightarrow> range_iterator" where
  "iter_at rs k a =
     \<lparr>it_range_idx = k, it_range_beg = total_len (take k rs),
      it_range_end = total_len (take (Suc k) rs), it_is_live = is_live (rs ! k),
      it_editor_beg = total_live (take k rs), it_editor_end = total_live (take (Suc k) rs),
      it_aff_beg = a, it_aff_end = Suc k\<rparr>"

lemma iter_at_simps [simp]:
  "it_range_idx (iter_at rs k a) = k"
  "it_range_beg (iter_at rs k a) = total_len (take k rs)"
  "it_range_end (iter_at rs k a) = total_len (take (Suc k) rs)"
  "it_is_live (iter_at rs k a) = is_live (rs ! k)"
  "it_editor_beg (iter_at rs k a) = total_live (take k rs)"
  "it_editor_end (iter_at rs k a) = total_live (take (Suc k) rs)"
  "it_aff_beg (iter_at rs k a) = a"
  "it_aff_end (iter_at rs k a) = Suc k"
  by (simp_all add: iter_at_def)

lemma iter_new_at: "i < length rs \<Longrightarrow> iter_new rs (cursor_at rs i) = Some (iter_at rs i i)"
  by (simp add: iter_new_def iter_at_def total_len_take_Suc total_live_take_Suc live_len_def Let_def)

lemma iter_move_right_at:
  "Suc k < length rs \<Longrightarrow> iter_move_right rs (iter_at rs k a) =
     Some (rs ! Suc k, (iter_at rs (Suc k) a)\<lparr>it_aff_end := Suc k\<rparr>)"
  by (simp add: iter_move_right_def iter_at_def total_len_take_Suc total_live_take_Suc live_len_def
      Let_def)

lemma iter_move_left_at:
  "0 < k \<Longrightarrow> k < length rs \<Longrightarrow> iter_move_left rs (iter_at rs k a) =
     Some (rs ! (k - 1), (iter_at rs (k - 1) a)\<lparr>it_aff_end := Suc k\<rparr>)"
  by (cases k)
    (auto simp: iter_move_left_def iter_at_def total_len_take_Suc total_live_take_Suc live_len_def
      Let_def)

lemma extend_at [simp]:
  "extend_affected_range_right ((iter_at rs (Suc k) a)\<lparr>it_aff_end := Suc k\<rparr>) = iter_at rs (Suc k) a"
  by (simp add: extend_affected_range_right_def iter_at_def)

lemma contract_at [simp]: "contract_affected_range_right (iter_at rs k a) = iter_at rs k (Suc a)"
  by (simp add: contract_affected_range_right_def iter_at_def)

lemma iter_range_len_at [simp]:
  "k < length rs \<Longrightarrow> iter_range_len (iter_at rs k a) = Some (rlen (rs ! k))"
  by (simp add: iter_range_len_def total_len_take_Suc)

lemma cursor_move_to_beg_at [simp]: "cursor_move_to_beg c (iter_at rs k a) = cursor_at rs k"
  by (simp add: cursor_move_to_beg_def cursor_at_def)

definition mstate ::
  "range list \<Rightarrow> nat \<Rightarrow> nat \<Rightarrow> nat \<Rightarrow> cursor \<Rightarrow> range list \<Rightarrow> (nat \<times> nat) list \<Rightarrow> mark_state" where
  "mstate rs k a len cur F Fl =
     \<lparr>ms_iter = iter_at rs k a, ms_range = rs ! k, ms_len = len, ms_cursor = cur, ms_final = F,
      ms_flipped = Fl\<rparr>"

lemma mstate_simps [simp]:
  "ms_iter (mstate rs k a len cur F Fl) = iter_at rs k a"
  "ms_range (mstate rs k a len cur F Fl) = rs ! k"
  "ms_len (mstate rs k a len cur F Fl) = len"
  "ms_cursor (mstate rs k a len cur F Fl) = cur"
  "ms_final (mstate rs k a len cur F Fl) = F"
  "ms_flipped (mstate rs k a len cur F Fl) = Fl"
  "(mstate rs k a len cur F Fl)\<lparr>ms_len := len'\<rparr> = mstate rs k a len' cur F Fl"
  "(mstate rs k a len cur F Fl)\<lparr>ms_cursor := cur'\<rparr> = mstate rs k a len cur' F Fl"
  "(mstate rs k a len cur F Fl)\<lparr>ms_final := F'\<rparr> = mstate rs k a len cur F' Fl"
  "(mstate rs k a len cur F Fl)\<lparr>ms_flipped := Fl'\<rparr> = mstate rs k a len cur F Fl'"
  "(mstate rs k a len cur F Fl)\<lparr>ms_iter := iter_at rs k a'\<rparr> = mstate rs k a' len cur F Fl"
  by (simp_all add: mstate_def)

lemma mstate_next:
  "(mstate rs k a len cur F Fl)\<lparr>ms_range := rs ! Suc k, ms_iter := iter_at rs (Suc k) a\<rparr> =
     mstate rs (Suc k) a len cur F Fl"
  by (simp add: mstate_def)

text \<open>What the rest of the code reads of a state in which the loop stopped.\<close>

definition stopped ::
  "mark_state \<Rightarrow> nat \<Rightarrow> nat \<Rightarrow> cursor \<Rightarrow> range list \<Rightarrow> (nat \<times> nat) list \<Rightarrow> bool" where
  "stopped st a b cur F Fl \<longleftrightarrow>
     it_aff_beg (ms_iter st) = a \<and> it_aff_end (ms_iter st) = b \<and> ms_cursor st = cur \<and>
     ms_final st = F \<and> ms_flipped st = Fl"

lemma stopped_mstate [simp]:
  "stopped (mstate rs k a len cur F Fl) a' b cur' F' Fl' \<longleftrightarrow>
     a = a' \<and> b = Suc k \<and> cur = cur' \<and> F = F' \<and> Fl = Fl'"
  by (auto simp: stopped_def)

section \<open>One round\<close>

definition mark_round :: "bool \<Rightarrow> range list \<Rightarrow> nat \<Rightarrow> nat \<Rightarrow> mark_state \<Rightarrow> mark_state loop option" where
  "mark_round live rs mbeg mend st =
     (if live then live_round rs mbeg mend st else dead_round rs mbeg mend st)"

lemma round_before:
  assumes "total_len (take (Suc k) rs) < B"
  shows "mark_round live rs B E (mstate rs k a len cur F Fl) =
    Some (Again (mstate rs k (Suc a) len cur F Fl))"
  using assms by (simp add: mark_round_def dead_round_def live_round_def Let_def)

lemma round_touch:
  assumes "total_len (take (Suc k) rs) = B" and "k < length rs"
  shows "mark_round live rs B E (mstate rs k a len cur F Fl) =
    Some (Again (if is_live (rs ! k) = live
                 then mstate rs k a (len + rlen (rs ! k)) (cursor_at rs k) F Fl
                 else mstate rs k (Suc a) len cur F Fl))"
  using assms by (simp add: mark_round_def dead_round_def live_round_def Let_def is_dead_def)

definition flips_apart :: "(nat \<times> nat) list \<Rightarrow> nat \<Rightarrow> bool" where
  "flips_apart Fl p \<longleftrightarrow> (Fl \<noteq> [] \<longrightarrow> fst (last Fl) + snd (last Fl) < p)"

lemma push_apart: "flips_apart Fl p \<Longrightarrow> push_wo_dup Fl (p, l) = Some (Fl @ [(p, l)])"
  by (auto simp: push_wo_dup_def flips_apart_def Let_def split: prod.splits)

text \<open>The values after the common prefix of a round on a range that overlaps the marked one.\<close>

definition r_len :: "bool \<Rightarrow> range list \<Rightarrow> nat \<Rightarrow> nat \<Rightarrow> nat \<Rightarrow> nat" where
  "r_len live rs B k len =
     (if total_len (take k rs) < B \<and> is_live (rs ! k) = live
      then len + (B - total_len (take k rs)) else len)"

definition r_cur :: "bool \<Rightarrow> range list \<Rightarrow> nat \<Rightarrow> nat \<Rightarrow> cursor \<Rightarrow> cursor" where
  "r_cur live rs B k cur =
     (if total_len (take k rs) < B \<and> is_live (rs ! k) = live then cursor_at rs k else cur)"

definition r_final :: "bool \<Rightarrow> range list \<Rightarrow> nat \<Rightarrow> nat \<Rightarrow> range list \<Rightarrow> range list" where
  "r_final live rs B k F =
     (if total_len (take k rs) < B \<and> is_live (rs ! k) \<noteq> live
      then F @ [mk_range (\<not> live) (B - total_len (take k rs))] else F)"

definition r_flip ::
  "bool \<Rightarrow> range list \<Rightarrow> nat \<Rightarrow> nat \<Rightarrow> nat \<Rightarrow> (nat \<times> nat) list \<Rightarrow> (nat \<times> nat) list" where
  "r_flip live rs B E k Fl =
     (if is_live (rs ! k) \<noteq> live
      then Fl @ [(max B (total_len (take k rs)),
                  min E (total_len (take (Suc k) rs)) - max B (total_len (take k rs)))] else Fl)"

lemmas r_defs = r_len_def r_cur_def r_final_def r_flip_def

lemmas round_defs = mark_round_def dead_round_def live_round_def dead_prefix_def live_prefix_def
  dead_overrun_def live_overrun_def dead_inside_def live_inside_def is_dead_def Let_def

lemma round_inside:
  assumes "k < length rs" and "B < total_len (take (Suc k) rs)"
    and "is_live (rs ! k) \<noteq> live \<Longrightarrow> flips_apart Fl (max B (total_len (take k rs)))"
    and "total_len (take (Suc k) rs) < E"
  shows "mark_round live rs B E (mstate rs k a len cur F Fl) =
    Some (Again (mstate rs k a (r_len live rs B k len) (r_cur live rs B k cur)
      (r_final live rs B k F) (r_flip live rs B E k Fl)))"
  using assms
  by (cases live; cases "total_len (take k rs) < B"; cases "is_live (rs ! k)")
    (simp_all add: round_defs r_defs push_apart max_def min_def total_len_take_Suc)

lemma round_overrun:
  assumes "k < length rs" and "total_len (take k rs) < E" and "B < E"
    and "is_live (rs ! k) \<noteq> live \<Longrightarrow> flips_apart Fl (max B (total_len (take k rs)))"
    and "E < total_len (take (Suc k) rs)"
  shows "\<exists>st. mark_round live rs B E (mstate rs k a len cur F Fl) = Some (Stop st) \<and>
    stopped st a (Suc k) (r_cur live rs B k cur)
      (r_final live rs B k F @
        (if is_live (rs ! k) = live
         then [mk_range live (r_len live rs B k len + (total_len (take (Suc k) rs) - E))]
         else [mk_range live (r_len live rs B k len),
               mk_range (\<not> live) (total_len (take (Suc k) rs) - E)]))
      (r_flip live rs B E k Fl)"
  using assms
  by (cases live; cases "total_len (take k rs) < B"; cases "is_live (rs ! k)")
    (simp_all add: round_defs r_defs push_apart max_def min_def total_len_take_Suc)

definition flush_end :: "bool \<Rightarrow> range list \<Rightarrow> nat \<Rightarrow> nat" where
  "flush_end live rs k =
     (if Suc k < length rs \<and> is_live (rs ! Suc k) = live then Suc (Suc k) else Suc k)"

definition flush_len :: "bool \<Rightarrow> range list \<Rightarrow> nat \<Rightarrow> nat" where
  "flush_len live rs k =
     (if Suc k < length rs \<and> is_live (rs ! Suc k) = live then rlen (rs ! Suc k) else 0)"

lemma iter_range_len_upd [simp]:
  "iter_range_len (it\<lparr>it_aff_end := e\<rparr>) = iter_range_len it"
  by (simp add: iter_range_len_def)

lemma round_flush:
  assumes "k < length rs" and "B < E"
    and "is_live (rs ! k) \<noteq> live \<Longrightarrow> flips_apart Fl (max B (total_len (take k rs)))"
    and "total_len (take (Suc k) rs) = E"
  shows "\<exists>st. mark_round live rs B E (mstate rs k a len cur F Fl) = Some (Stop st) \<and>
    stopped st a (flush_end live rs k) (r_cur live rs B k cur)
      (r_final live rs B k F @ [mk_range live (r_len live rs B k len + flush_len live rs k)])
      (r_flip live rs B E k Fl)"
  using assms assms(4) [unfolded total_len_take_Suc [OF assms(1)]]
  by (cases live; cases "total_len (take k rs) < B"; cases "is_live (rs ! k)";
      cases "Suc k < length rs"; cases "is_live (rs ! Suc k)")
    (simp_all add: round_defs r_defs push_apart max_def min_def total_len_take_Suc stopped_def
      dead_flush_def live_flush_def flush_end_def flush_len_def iter_move_right_at)


section \<open>The runs that are flipped\<close>

fun flips :: "bool \<Rightarrow> nat \<Rightarrow> nat \<Rightarrow> nat \<Rightarrow> range list \<Rightarrow> (nat \<times> nat) list" where
  "flips live B E s [] = []"
| "flips live B E s (r # rs) =
     (if is_live r \<noteq> live \<and> max B s < min E (s + rlen r)
      then [(max B s, min E (s + rlen r) - max B s)] else []) @ flips live B E (s + rlen r) rs"

lemma flips_after [simp]: "E \<le> s \<Longrightarrow> flips live B E s rs = []"
  by (induction rs arbitrary: s) auto

lemma flips_empty [simp]: "flips live B B s rs = []"
  by (induction rs arbitrary: s) auto

lemma flips_append:
  "flips live B E s (rs @ rs') = flips live B E s rs @ flips live B E (s + total_len rs) rs'"
  by (induction rs arbitrary: s) (simp_all add: add.assoc)

lemma flips_before: "s + total_len rs \<le> B \<Longrightarrow> flips live B E s rs = []"
  by (induction rs arbitrary: s) auto

lemma flips_drop:
  assumes "k < length rs"
  shows "flips live B E (total_len (take k rs)) (drop k rs) =
    (if is_live (rs ! k) \<noteq> live \<and>
        max B (total_len (take k rs)) < min E (total_len (take (Suc k) rs))
     then [(max B (total_len (take k rs)),
            min E (total_len (take (Suc k) rs)) - max B (total_len (take k rs)))] else []) @
    flips live B E (total_len (take (Suc k) rs)) (drop (Suc k) rs)"
  using assms by (simp add: total_len_take_Suc flip: Cons_nth_drop_Suc)

section \<open>The loop\<close>

lemma loop_again:
  assumes "mark_round live rs B E st = Some (Again (mstate rs k a len cur F Fl))"
    and "Suc k < length rs"
  shows "mark_loop live rs B E st = mark_loop live rs B E (mstate rs (Suc k) a len cur F Fl)"
  using assms
  by (subst mark_loop.simps)
    (simp add: mark_round_def iter_move_right_at mstate_next split: if_splits)

lemma loop_stop:
  assumes "mark_round live rs B E st = Some (Stop st')"
  shows "mark_loop live rs B E st = Some st'"
  using assms by (subst mark_loop.simps) (simp add: mark_round_def split: if_splits)

text \<open>The flags of the replacement, from the marked range's beginning to the end \<open>S b\<close> of the
  affected ranges: \<open>len\<close> marked ones, then what was there.\<close>

definition mark_tail ::
  "bool \<Rightarrow> range list \<Rightarrow> nat \<Rightarrow> nat \<Rightarrow> nat \<Rightarrow> range list \<Rightarrow> bool" where
  "mark_tail live rs E len b tail \<longleftrightarrow>
     flat tail = replicate len live @ take (total_len (take b rs) - E) (drop E (flat rs)) \<and>
     b \<le> length rs \<and> E \<le> total_len (take b rs) \<and>
     tail \<noteq> [] \<and> is_live (hd tail) = live \<and> alternating tail \<and>
     (b < length rs \<longrightarrow> is_live (last tail) \<noteq> is_live (rs ! b))"

lemma flat_slice:
  assumes "k < length rs" and "total_len (take k rs) \<le> E"
  shows "take (total_len (take (Suc k) rs) - E) (drop E (flat rs)) =
    replicate (total_len (take (Suc k) rs) - E) (is_live (rs ! k))"
  using assms
  by (subst flat_split_at [OF assms(1)]) (auto simp: total_len_take_Suc)

lemma tail_overrun:
  assumes "alternating rs" and "k < length rs" and "total_len (take k rs) < E" and "0 < len"
    and "E < total_len (take (Suc k) rs)"
  shows "mark_tail live rs E len (Suc k)
    (if is_live (rs ! k) = live
     then [mk_range live (len + (total_len (take (Suc k) rs) - E))]
     else [mk_range live len, mk_range (\<not> live) (total_len (take (Suc k) rs) - E)])"
  using assms alternating_nth_Suc [OF assms(1), of k]
  by (auto simp: mark_tail_def flat_slice simp flip: replicate_add)

lemma tail_flush:
  assumes "alternating rs" and "k < length rs" and "0 < len" and "total_len (take (Suc k) rs) = E"
  shows "mark_tail live rs E len (flush_end live rs k) [mk_range live (len + flush_len live rs k)]"
proof (cases "Suc k < length rs \<and> is_live (rs ! Suc k) = live")
  case True
  then have "take (total_len (take (Suc (Suc k)) rs) - E) (drop E (flat rs)) =
      replicate (rlen (rs ! Suc k)) live"
    using flat_slice [of "Suc k" rs E] assms(4) by (simp add: total_len_take_Suc)
  moreover have "E \<le> total_len (take (Suc (Suc k)) rs)"
    using total_len_take_mono [of "Suc k" "Suc (Suc k)" rs] assms(4) by simp
  ultimately show ?thesis
    using True assms alternating_nth_Suc [OF assms(1), of "Suc k"]
    by (simp add: mark_tail_def flush_end_def flush_len_def replicate_add)
next
  case False
  then show ?thesis
    using assms by (auto simp: mark_tail_def flush_end_def flush_len_def)
qed

text \<open>The flipped runs end before the position, strictly where the next range is flipped too.\<close>

definition flips_inv :: "bool \<Rightarrow> range list \<Rightarrow> nat \<Rightarrow> nat \<Rightarrow> (nat \<times> nat) list \<Rightarrow> bool" where
  "flips_inv live rs B k Fl \<longleftrightarrow>
     flips_apart Fl (Suc (max B (total_len (take k rs)))) \<and>
     (is_live (rs ! k) \<noteq> live \<longrightarrow> flips_apart Fl (max B (total_len (take k rs))))"

lemma flips_inv_next:
  assumes "alternating rs" and "Suc k < length rs" and "B < total_len (take (Suc k) rs)"
    and "flips_inv live rs B k Fl"
  shows "flips_inv live rs B (Suc k) (r_flip live rs B E k Fl)"
  using assms(2-4) alternating_nth_Suc [OF assms(1,2)] alternating_nth_pos [OF assms(1), of k]
  by (auto simp: r_flip_def flips_apart_def flips_inv_def total_len_take_Suc)

lemma mark_loop_overlap:
  assumes "alternating rs" and "k < length rs" and "total_len (take k rs) < E" and "B < E"
    and "B < total_len (take (Suc k) rs)" and "E \<le> total_len rs" and "0 < len"
    and "flips_inv live rs B k Fl"
  shows "\<exists>st b tail. mark_loop live rs B E (mstate rs k a len cur F Fl) = Some st \<and>
    stopped st a b (r_cur live rs B k cur) (r_final live rs B k F @ tail)
      (Fl @ flips live B E (total_len (take k rs)) (drop k rs)) \<and>
    k < b \<and> mark_tail live rs E (r_len live rs B k len) b tail"
  using assms
proof (induction "length rs - k" arbitrary: k len cur F Fl rule: less_induct)
  case less
  note k = less.prems(2) and E = less.prems(3) and BE = less.prems(4) and over = less.prems(5)
  have apart: "is_live (rs ! k) \<noteq> live \<Longrightarrow> flips_apart Fl (max B (total_len (take k rs)))"
    using less.prems(8) by (simp add: flips_inv_def)
  have pos: "0 < r_len live rs B k len" using less.prems(7) by (simp add: r_len_def)
  have flip: "r_flip live rs B E k Fl @ flips live B E (total_len (take (Suc k) rs)) (drop (Suc k) rs)
      = Fl @ flips live B E (total_len (take k rs)) (drop k rs)"
    using E BE over alternating_nth_pos [OF less.prems(1) k]
    by (simp add: flips_drop [OF k] r_flip_def total_len_take_Suc [OF k])
  consider "E < total_len (take (Suc k) rs)" | "total_len (take (Suc k) rs) = E"
    | "total_len (take (Suc k) rs) < E" by linarith
  then show ?case
  proof cases
    case 1
    from round_overrun [OF k E BE apart 1] loop_stop tail_overrun [OF less.prems(1) k E pos 1] flip 1
    show ?thesis by (metis flips_after lessI less_imp_le append_Nil2)
  next
    case 2
    have "k < flush_end live rs k" by (simp add: flush_end_def)
    with round_flush [OF k BE apart 2] loop_stop tail_flush [OF less.prems(1) k pos 2] flip 2
    show ?thesis by (metis flips_after order_refl append_Nil2)
  next
    case 3
    have Sk: "Suc k < length rs"
    proof (rule ccontr)
      assume "\<not> Suc k < length rs"
      with k 3 less.prems(6) show False by simp
    qed
    let ?len = "r_len live rs B k len" and ?cur = "r_cur live rs B k cur"
      and ?F = "r_final live rs B k F" and ?Fl = "r_flip live rs B E k Fl"
    have again: "mark_loop live rs B E (mstate rs k a len cur F Fl) =
        mark_loop live rs B E (mstate rs (Suc k) a ?len ?cur ?F ?Fl)"
      by (rule loop_again [OF round_inside [OF k over apart 3] Sk])
    have ge: "\<not> total_len (take (Suc k) rs) < B" using over by simp
    have same: "r_len live rs B (Suc k) ?len = ?len" "r_cur live rs B (Suc k) ?cur = ?cur"
        "r_final live rs B (Suc k) ?F = ?F"
      using ge by (auto simp: r_len_def r_cur_def r_final_def)
    have over': "B < total_len (take (Suc (Suc k)) rs)"
      using over total_len_take_mono [of "Suc k" "Suc (Suc k)" rs] by simp
    have inv: "flips_inv live rs B (Suc k) ?Fl"
      by (rule flips_inv_next [OF less.prems(1) Sk over less.prems(8)])
    have "length rs - Suc k < length rs - k" using k by simp
    from less.hyps [OF this less.prems(1) Sk 3 BE over' less.prems(6) pos inv, of ?cur ?F]
    show ?thesis
      unfolding again same flip by (metis Suc_lessD)
  qed
qed


section \<open>Entering the loop\<close>

text \<open>The state at the first range \<open>m\<close> that overlaps the marked one.\<close>

definition entered ::
  "bool \<Rightarrow> range list \<Rightarrow> nat \<Rightarrow> nat \<Rightarrow> nat \<Rightarrow> nat \<Rightarrow> nat \<Rightarrow> cursor \<Rightarrow> bool" where
  "entered live rs B n m a len cur \<longleftrightarrow>
     m < length rs \<and> total_len (take m rs) \<le> B \<and> B < total_len (take (Suc m) rs) \<and>
     (\<exists>ci \<le> a. cur = cursor_at rs ci) \<and>
     (a = m \<and> len = n \<and>
        (total_len (take m rs) = B \<and> 0 < m \<longrightarrow> is_live (rs ! (m - 1)) \<noteq> live) \<or>
      Suc a = m \<and> total_len (take m rs) = B \<and> is_live (rs ! a) = live \<and> len = n + rlen (rs ! a))"

definition mark_start :: "range list \<Rightarrow> nat \<Rightarrow> nat \<Rightarrow> mark_state" where
  "mark_start rs i n = mstate rs i i n (cursor_at rs i) [] []"

lemma mark_begin_stay:
  assumes "i < length rs" and "total_len (take i rs) \<le> B" and "B + n \<le> total_len rs"
    and "B \<ge> total_len (take (Suc i) rs) \<or> i = 0"
  shows "mark_begin rs B n (cursor_at rs i) = Some (mark_start rs i n)"
  using assms
  by (auto simp: mark_begin_def iter_new_at iter_range_def mark_start_def mstate_def total_len_def)

lemma mark_begin_left:
  assumes "Suc j < length rs" and "total_len (take (Suc j) rs) \<le> B" and "B + n \<le> total_len rs"
    and "B < total_len (take (Suc (Suc j)) rs)"
  shows "mark_begin rs B n (cursor_at rs (Suc j)) =
    Some (mstate rs j j n (cursor_at rs (Suc j)) [] [])"
proof -
  have "shift_affected_range_left ((iter_at rs j (Suc j))\<lparr>it_aff_end := Suc (Suc j)\<rparr>) = Some (iter_at rs j j)"
    by (simp add: shift_affected_range_left_def iter_at_def)
  with assms show ?thesis
    by (simp add: mark_begin_def iter_new_at iter_range_def iter_move_left_at mstate_def total_len_def)
qed

lemma mark_entry:
  assumes "alternating rs" and "cursor_holds rs c B" and "0 < n" and "B + n \<le> total_len rs"
  shows "\<exists>st m a len cur. mark_begin rs B n c = Some st \<and> entered live rs B n m a len cur \<and>
    mark_loop live rs B (B + n) st = mark_loop live rs B (B + n) (mstate rs m a len cur [] [])"
proof -
  have "rs \<noteq> []" using assms(3,4) by auto
  then obtain i where i: "i < length rs" "c = cursor_at rs i"
      "total_len (take i rs) \<le> B" "B \<le> total_len (take (Suc i) rs)"
    using assms(2) by (auto simp: cursor_holds_def)
  consider (touch) "B = total_len (take (Suc i) rs)" | (first) "B < total_len (take (Suc i) rs)" "i = 0"
    | (left) j where "B < total_len (take (Suc i) rs)" "i = Suc j"
    using i(4) by (cases i) force+
  then show ?thesis
  proof cases
    case touch
    have Si: "Suc i < length rs"
    proof (rule ccontr)
      assume "\<not> Suc i < length rs"
      with i(1) touch assms(3,4) show False by simp
    qed
    have over: "B < total_len (take (Suc (Suc i)) rs)"
      using touch alternating_nth_pos [OF assms(1) Si] by (simp add: total_len_take_Suc Si)
    have b: "mark_begin rs B n c = Some (mark_start rs i n)"
      using i touch assms(4) mark_begin_stay [of i rs B n] by simp
    show ?thesis
    proof (cases "is_live (rs ! i) = live")
      case True
      have "mark_loop live rs B (B + n) (mark_start rs i n) = mark_loop live rs B (B + n)
          (mstate rs (Suc i) i (n + rlen (rs ! i)) (cursor_at rs i) [] [])"
        unfolding mark_start_def
        by (rule loop_again [OF _ Si]) (use round_touch touch i True in auto)
      moreover have "entered live rs B n (Suc i) i (n + rlen (rs ! i)) (cursor_at rs i)"
        using True over touch Si by (auto simp: entered_def)
      ultimately show ?thesis using b by blast
    next
      case False
      have "mark_loop live rs B (B + n) (mark_start rs i n) = mark_loop live rs B (B + n)
          (mstate rs (Suc i) (Suc i) n (cursor_at rs i) [] [])"
        unfolding mark_start_def
        by (rule loop_again [OF _ Si]) (use round_touch touch i False in auto)
      moreover have "\<exists>ci \<le> Suc i. cursor_at rs i = cursor_at rs ci"
        by (intro exI [of _ i]) simp
      then have "entered live rs B n (Suc i) (Suc i) n (cursor_at rs i)"
        using False over touch Si by (simp add: entered_def)
      ultimately show ?thesis using b by blast
    qed
  next
    case first
    then have "mark_begin rs B n c = Some (mark_start rs 0 n)"
      using i assms(4) mark_begin_stay [of 0 rs B n] by simp
    moreover have "entered live rs B n 0 0 n (cursor_at rs 0)"
      using first i by (auto simp: entered_def)
    ultimately show ?thesis by (metis mark_start_def)
  next
    case (left j)
    have b: "mark_begin rs B n c = Some (mstate rs j j n (cursor_at rs (Suc j)) [] [])"
      using left i assms(4) mark_begin_left [of j rs B n] by simp
    have j: "j < length rs" "Suc j < length rs" using left i by auto
    show ?thesis
    proof (cases "total_len (take (Suc j) rs) = B \<and> is_live (rs ! j) = live")
      case True
      have "mark_loop live rs B (B + n) (mstate rs j j n (cursor_at rs (Suc j)) [] []) =
          mark_loop live rs B (B + n) (mstate rs (Suc j) j (n + rlen (rs ! j)) (cursor_at rs j) [] [])"
        by (rule loop_again [OF _ j(2)]) (use round_touch True j in auto)
      moreover have "entered live rs B n (Suc j) j (n + rlen (rs ! j)) (cursor_at rs j)"
        using True left i by (auto simp: entered_def)
      ultimately show ?thesis using b by metis
    next
      case False
      have "mark_round live rs B (B + n) (mstate rs j j n (cursor_at rs (Suc j)) [] []) =
          Some (Again (mstate rs j (Suc j) n (cursor_at rs (Suc j)) [] []))"
        using False left i round_touch [of j rs B] round_before [of j rs B] j
        by (cases "total_len (take (Suc j) rs) = B") auto
      then have "mark_loop live rs B (B + n) (mstate rs j j n (cursor_at rs (Suc j)) [] []) =
          mark_loop live rs B (B + n) (mstate rs (Suc j) (Suc j) n (cursor_at rs (Suc j)) [] [])"
        by (rule loop_again [OF _ j(2)])
      moreover have "entered live rs B n (Suc j) (Suc j) n (cursor_at rs (Suc j))"
        using False left i by (auto simp: entered_def)
      ultimately show ?thesis using b by metis
    qed
  qed
qed


section \<open>The flags that are flipped\<close>

lemma flips_count:
  assumes "B < E"
  shows "sum_list (map snd (flips live B E s rs)) =
    length (filter (\<lambda>b. b \<noteq> live) (take (E - max B s) (drop (B - s) (flat rs))))"
proof (induction rs arbitrary: s)
  case (Cons r rs)
  have e1: "E - (max B s + (rlen r - (B - s))) = E - max B (s + rlen r)"
    and e2: "B - s - rlen r = B - (s + rlen r)"
    using assms by auto
  have e3: "min (E - max B s) (rlen r - (B - s)) = min E (s + rlen r) - max B s"
    using assms by auto
  have "take (E - max B s) (drop (B - s) (flat (r # rs))) =
      replicate (min E (s + rlen r) - max B s) (is_live r) @
      take (E - max B (s + rlen r)) (drop (B - (s + rlen r)) (flat rs))"
    by (simp add: e2 diff_diff_left e1 e3)
  then show ?case
    using Cons.IH [of "s + rlen r"] by auto
qed simp

section \<open>The result of a mark\<close>

text \<open>The flags of a document after a mark, as the tombstone documents have it.\<close>

definition mark_flags :: "bool \<Rightarrow> nat \<Rightarrow> nat \<Rightarrow> bool list \<Rightarrow> bool list" where
  "mark_flags live B n fs = take B fs @ replicate n live @ drop (B + n) fs"

lemma length_mark_flags: "B + n \<le> length fs \<Longrightarrow> length (mark_flags live B n fs) = length fs"
  by (simp add: mark_flags_def)

text \<open>The replacement \<open>F\<close> of the ranges \<open>a\<close> to \<open>b\<close>.\<close>

definition replaced ::
  "bool \<Rightarrow> range list \<Rightarrow> nat \<Rightarrow> nat \<Rightarrow> nat \<Rightarrow> nat \<Rightarrow> range list \<Rightarrow> bool" where
  "replaced live rs B n a b F \<longleftrightarrow>
     a < b \<and> b \<le> length rs \<and> B + n \<le> total_len (take b rs) \<and> F \<noteq> [] \<and>
     alternating (take a rs @ F @ drop b rs) \<and>
     flat (take a rs @ F) =
       take B (flat rs) @ replicate n live @ take (total_len (take b rs) - (B + n)) (drop (B + n) (flat rs))"

lemma flat_take_at:
  "m < length rs \<Longrightarrow> total_len (take m rs) \<le> B \<Longrightarrow> B \<le> total_len (take (Suc m) rs) \<Longrightarrow>
    take B (flat rs) = flat (take m rs) @ replicate (B - total_len (take m rs)) (is_live (rs ! m))"
  by (subst flat_split_at) (auto simp: total_len_take_Suc min_def)

lemma replaced_entered:
  assumes "alternating rs" and "entered live rs B n m a len cur" and "0 < n"
    and "mark_tail live rs (B + n) (r_len live rs B m len) b tail" and "m < b"
  shows "replaced live rs B n a b (r_final live rs B m [] @ tail)"
proof -
  let ?F = "r_final live rs B m [] @ tail"
  let ?rest = "take (total_len (take b rs) - (B + n)) (drop (B + n) (flat rs))"
  note m = assms(2) [unfolded entered_def]
  note t = assms(4) [unfolded mark_tail_def]
  have am: "a \<le> m" using m by auto
  have B: "take B (flat rs) = flat (take m rs) @ replicate (B - total_len (take m rs)) (is_live (rs ! m))"
    using m flat_take_at by auto
  have r: "flat tail = replicate (r_len live rs B m len) live @ ?rest" using t by simp
  have fl: "flat (take a rs @ ?F) = take B (flat rs) @ replicate n live @ ?rest"
  proof (cases "Suc a = m")
    case True
    then have "take m rs = take a rs @ [rs ! a]" using m by (metis Suc_lessD take_Suc_nth)
    with True m show ?thesis
      by (simp add: B r r_final_def r_len_def replicate_add [of "rlen (rs ! a)" n, symmetric] add.commute)
  next
    case False
    then have a: "a = m" "len = n" using m by auto
    then show ?thesis
      by (cases "total_len (take m rs) < B"; cases "is_live (rs ! m) = live")
        (simp_all add: B r r_final_def r_len_def add.commute flip: replicate_add)
  qed
  have hd: "is_live (hd ?F) = is_live (rs ! a) \<or> (total_len (take m rs) = B \<and> a = m \<and> is_live (hd ?F) = live)"
    using m t by (auto simp: r_final_def hd_append)
  have alt_F: "alternating ?F"
    using m t by (auto simp: r_final_def alternating_Cons)
  have alt_a: "alternating (take a rs)" and alt_b: "alternating (drop b rs)"
    using assms(1) by (metis append_take_drop_id alternating_append)+
  have "is_live (last (take a rs)) \<noteq> is_live (hd ?F)" if "take a rs \<noteq> []"
  proof -
    from that have a: "0 < a" "a \<le> length rs" using m am by auto
    then have "length (take a rs) = a" by simp
    with a that have l: "last (take a rs) = rs ! (a - 1)"
      by (simp add: last_conv_nth)
    have "is_live (rs ! a) \<noteq> is_live (rs ! (a - 1))"
      using alternating_nth_Suc [OF assms(1), of "a - 1"] a m am by auto
    with l hd m a show ?thesis by auto
  qed
  moreover have "is_live (last ?F) \<noteq> is_live (hd (drop b rs))" if "drop b rs \<noteq> []"
    using that t by (simp add: hd_drop_conv_nth)
  moreover have "alternating (take a rs @ F @ drop b rs)"
    if "alternating F" "F \<noteq> []" "take a rs \<noteq> [] \<Longrightarrow> is_live (last (take a rs)) \<noteq> is_live (hd F)"
      "drop b rs \<noteq> [] \<Longrightarrow> is_live (last F) \<noteq> is_live (hd (drop b rs))" for F
    using that alt_a alt_b by (simp add: alternating_append)
  ultimately have "alternating (take a rs @ ?F @ drop b rs)"
    using alt_F t by (metis append_is_Nil_conv)
  with fl t am assms(5) show ?thesis by (auto simp: replaced_def)
qed

lemma mark_loop_ok:
  assumes "alternating rs" and "cursor_holds rs c B" and "0 < n" and "B + n \<le> total_len rs"
  shows "\<exists>st0 st a b ci F. mark_begin rs B n c = Some st0 \<and> mark_loop live rs B (B + n) st0 = Some st \<and>
    stopped st a b (cursor_at rs ci) F (flips live B (B + n) 0 rs) \<and> ci \<le> a \<and>
    replaced live rs B n a b F"
proof -
  obtain st0 m a len cur where e: "mark_begin rs B n c = Some st0" "entered live rs B n m a len cur"
      "mark_loop live rs B (B + n) st0 = mark_loop live rs B (B + n) (mstate rs m a len cur [] [])"
    using mark_entry [OF assms] by blast
  note m = e(2) [unfolded entered_def]
  have "flips_inv live rs B m []" by (simp add: flips_inv_def flips_apart_def)
  moreover have "0 < len" using m assms(3) by auto
  ultimately obtain st b tail where l: "mark_loop live rs B (B + n) (mstate rs m a len cur [] []) = Some st"
      "stopped st a b (r_cur live rs B m cur) (r_final live rs B m [] @ tail)
        (flips live B (B + n) (total_len (take m rs)) (drop m rs))"
      "m < b" "mark_tail live rs (B + n) (r_len live rs B m len) b tail"
    using mark_loop_overlap [OF assms(1), of m "B + n" B len live "[]" a cur "[]"] m assms(3,4) by auto
  have "flips live B (B + n) 0 rs = flips live B (B + n) (total_len (take m rs)) (drop m rs)"
    using flips_append [of live B "B + n" 0 "take m rs" "drop m rs"] m
    by (simp add: flips_before)
  moreover have "\<exists>ci. r_cur live rs B m cur = cursor_at rs ci \<and> ci \<le> a"
    using m unfolding r_cur_def by (metis le_refl less_irrefl)
  then obtain ci where "r_cur live rs B m cur = cursor_at rs ci" "ci \<le> a" by blast
  moreover have "replaced live rs B n a b (r_final live rs B m [] @ tail)"
    by (rule replaced_entered [OF assms(1) e(2) assms(3) l(4) l(3)])
  ultimately show ?thesis
    using e l by metis
qed


section \<open>The cursors of the other sites\<close>

lemma count_live: "total_live rs = length (filter (\<lambda>b. b) (flat rs))"
  by (simp add: count_flat)

definition live_delta :: "bool \<Rightarrow> nat \<Rightarrow> int" where
  "live_delta live k = (if live then int k else - int k)"

lemma count_replicate: "length (filter (\<lambda>b. b) (replicate n live)) = (if live then n else 0)"
  by simp

lemma replaced_total:
  assumes "replaced live rs B n a b F"
  shows "total_len (take a rs) + total_len F = total_len (take b rs)"
    and "int (total_live (take a rs) + total_live F) = int (total_live (take b rs)) +
      live_delta live (sum_list (map snd (flips live B (B + n) 0 rs)))"
proof -
  let ?b = "total_len (take b rs)" and ?fs = "flat rs"
  note r = assms [unfolded replaced_def]
  have le: "?b \<le> total_len rs" by (rule total_len_take_le)
  have "B + n \<le> total_len rs" using r le by linarith
  then have mn: "min (total_len rs) B = B" "min (total_len rs - B) n = n" by (auto simp: min_def)
  have "min (total_len rs - (B + n)) (?b - (B + n)) = ?b - (B + n)"
    using le by (simp add: min_absorb2 diff_le_mono)
  with mn have "length (flat (take a rs @ F)) = ?b" using r by (auto simp del: flat_simps(3))
  then show "total_len (take a rs) + total_len F = ?b" by simp
  have tb: "flat (take b rs) = take ?b ?fs"
    by (metis append_eq_conv_conj append_take_drop_id flat_simps(3) length_flat)
  have "take ?b ?fs = take B ?fs @ take n (drop B ?fs) @ take (?b - (B + n)) (drop (B + n) ?fs)"
    using r by (metis append_assoc le_add1 le_add_diff_inverse take_add)
  then have old: "total_live (take b rs) = length (filter (\<lambda>b. b) (take B ?fs)) +
      length (filter (\<lambda>b. b) (take n (drop B ?fs))) +
      length (filter (\<lambda>b. b) (take (?b - (B + n)) (drop (B + n) ?fs)))"
    by (simp add: count_live tb)
  have new: "total_live (take a rs) + total_live F = length (filter (\<lambda>b. b) (take B ?fs)) +
      (if live then n else 0) +
      length (filter (\<lambda>b. b) (take (?b - (B + n)) (drop (B + n) ?fs)))"
    using r count_live [of "take a rs @ F"] by simp
  have len: "length (take n (drop B ?fs)) = n" using mn by simp
  have fl: "sum_list (map snd (flips live B (B + n) 0 rs)) =
      length (filter (\<lambda>b. b \<noteq> live) (take n (drop B ?fs)))"
    by (cases "n = 0") (simp_all add: flips_count)
  have "length (filter (\<lambda>b. b) (take n (drop B ?fs))) + length (filter (\<lambda>b. \<not> b) (take n (drop B ?fs))) = n"
    using sum_length_filter_compl [of "\<lambda>b. b" "take n (drop B ?fs)"] len by simp
  then show "int (total_live (take a rs) + total_live F) = int (total_live (take b rs)) +
      live_delta live (sum_list (map snd (flips live B (B + n) 0 rs)))"
    using old new fl unfolding live_delta_def by (cases live) simp_all
qed

lemma cursor_shift_at:
  assumes "range_idx c = Some i" and "int ep = int (editor_pos c) + e" and "int j = int i + k"
  shows "cursor_shift c e k = Some (c\<lparr>editor_pos := ep, range_idx := Some j\<rparr>)"
proof -
  have "(if e > 0 then Some (editor_pos c + nat \<bar>e\<bar>) else sub_c (editor_pos c) (nat \<bar>e\<bar>)) = Some ep"
    using assms(2) by (auto simp: sub_c_def)
  moreover have "(if k > 0 then Some (i + nat \<bar>k\<bar>) else sub_c i (nat \<bar>k\<bar>)) = Some j"
    using assms(3) by (auto simp: sub_c_def)
  ultimately show ?thesis using assms(1) by (simp add: cursor_shift_def)
qed

lemma fix_cursor_ok:
  assumes "replaced live rs B n a b F" and "cursor_ok rs c" and "ci \<le> a"
    and "rs' = take a rs @ F @ drop b rs"
    and "e = live_delta live (sum_list (map snd (flips live B (B + n) 0 rs)))"
  shows "\<exists>c'. fix_cursor a b (cursor_at rs ci) e (int (length F) - int (b - a)) c = Some c' \<and>
    cursor_ok rs' c'"
proof (cases "range_idx c")
  case None
  with assms(2) show ?thesis by (simp add: fix_cursor_def cursor_ok_def)
next
  case (Some i)
  note c = cursor_ok_Some [OF assms(2) Some]
  note r = assms(1) [unfolded replaced_def] and tot = replaced_total [OF assms(1)]
  have F: "0 < length F" using r by simp
  have len: "length rs' = a + length F + (length rs - b)" using r assms(4) by simp
  have ci: "ci < length rs'" using assms(3) F unfolding len by linarith
  have ci': "cursor_at rs ci = cursor_at rs' ci"
    using assms(3,4) r by (simp add: cursor_at_def min_def)
  consider "i < a" | "a \<le> i" "i < b" | "b \<le> i" by linarith
  then show ?thesis
  proof cases
    case 1
    then have "cursor_at rs i = cursor_at rs' i" "i < length rs'"
      using assms(4) r c by (auto simp: cursor_at_def min_def)
    with 1 Some c show ?thesis using r by (auto simp: fix_cursor_def)
  next
    case 2
    have "cursor_move_to_cursor c (cursor_at rs ci) = cursor_at rs ci"
      by (simp add: cursor_move_to_cursor_def cursor_at_def)
    with 2 Some ci ci' show ?thesis by (simp add: fix_cursor_def)
  next
    case 3
    define j where "j = a + length F + (i - b)"
    have j: "j < length rs'" using c 3 r by (auto simp: j_def assms(4))
    have rs: "take i rs = take b rs @ take (i - b) (drop b rs)"
      using 3 by (simp add: take_drop_id_at)
    have rs': "take j rs' = take a rs @ F @ take (i - b) (drop b rs)"
      using r c 3 by (auto simp: j_def assms(4))
    have ip: "total_len (take j rs') = total_len (take i rs)"
      using tot(1) by (simp add: rs rs')
    have ep: "int (total_live (take j rs')) = int (total_live (take i rs)) + e"
      using tot(2) by (simp add: rs rs' assms(5))
    have ij: "int j = int i + (int (length F) - int (b - a))"
      using 3 r by (simp add: j_def of_nat_diff)
    have "cursor_shift c e (int (length F) - int (b - a)) =
        Some (c\<lparr>editor_pos := total_live (take j rs'), range_idx := Some j\<rparr>)"
      using ep ij c by (intro cursor_shift_at [OF Some]) auto
    moreover have "c\<lparr>editor_pos := total_live (take j rs'), range_idx := Some j\<rparr> = cursor_at rs' j"
      using c ip by (simp add: cursor_at_def)
    ultimately show ?thesis using 3 Some j r by (auto simp: fix_cursor_def)
  qed
qed

lemma fix_cursors_ok:
  assumes "\<And>s c. (s, c) \<in> set cs \<Longrightarrow> \<exists>c'. f c = Some c' \<and> P c'"
  shows "\<exists>cs'. fix_cursors f cs = Some cs' \<and> (\<forall>(s, c) \<in> set cs'. P c)"
  using assms
proof (induction cs)
  case (Cons x cs)
  obtain s c where x: "x = (s, c)" by (cases x)
  obtain c' where "f c = Some c'" "P c'" using Cons.prems [of s c] x by auto
  moreover obtain cs' where "fix_cursors f cs = Some cs'" "\<forall>(s, c) \<in> set cs'. P c"
    using Cons.IH Cons.prems by auto
  ultimately show ?case by (auto simp: x)
qed simp

section \<open>Marking\<close>

definition marked ::
  "bool \<Rightarrow> internal_doc \<Rightarrow> nat \<Rightarrow> nat \<Rightarrow> internal_doc \<Rightarrow> cursor \<Rightarrow> bool" where
  "marked live d B n d' c' \<longleftrightarrow>
     doc_ok d' \<and> cursor_ok (ranges d') c' \<and>
     flat (ranges d') = mark_flags live B n (flat (ranges d))"

lemma mark_finish_ok:
  assumes "doc_ok d" and "replaced live (ranges d) B n a b F" and "ci \<le> a"
    and "stopped st a b (cursor_at (ranges d) ci) F (flips live B (B + n) 0 (ranges d))"
  shows "\<exists>d' c'. mark_finish d st (live_delta live (flipped_len st)) = Some (d', c') \<and>
    marked live d B n d' c'"
proof -
  let ?rs = "ranges d"
  let ?rs' = "take a ?rs @ F @ drop b ?rs"
  note r = assms(2) [unfolded replaced_def] and s = assms(4) [unfolded stopped_def]
  define e where "e = live_delta live (flipped_len st)"
  have e: "e = live_delta live (sum_list (map snd (flips live B (B + n) 0 ?rs)))"
    using s by (simp add: e_def flipped_len_def)
  have "\<exists>c'. fix_cursor a b (cursor_at ?rs ci) e (int (length F) - int (b - a)) c = Some c' \<and>
      cursor_ok ?rs' c'" if "(s, c) \<in> set (cursors d)" for s c
    by (rule fix_cursor_ok [OF assms(2) _ assms(3) refl e])
      (use that assms(1) in \<open>auto simp: doc_ok_def\<close>)
  then obtain cs where cs: "fix_cursors (fix_cursor a b (cursor_at ?rs ci) e
        (int (length F) - int (b - a))) (cursors d) = Some cs" "\<forall>(s, c) \<in> set cs. cursor_ok ?rs' c"
    using fix_cursors_ok [of "cursors d" _ "cursor_ok ?rs'"] by blast
  let ?d' = "d\<lparr>ranges := ?rs', cursors := cs\<rparr>"
  have fin: "mark_finish d st e = Some (?d', cursor_at ?rs ci)"
    using s r cs(1) by (simp add: mark_finish_def Let_def)
  have ok: "doc_ok ?d'" using r cs(2) by (simp add: doc_ok_def)
  have "length ?rs' = a + length F + (length ?rs - b)" using r by simp
  moreover have "0 < length F" using r by simp
  ultimately have "ci < length ?rs'" using assms(3) by linarith
  moreover have "cursor_at ?rs ci = cursor_at ?rs' ci"
    using assms(3) r by (simp add: cursor_at_def min_def)
  ultimately have cur: "cursor_ok ?rs' (cursor_at ?rs ci)" by (metis cursor_ok_at)
  have "flat (drop b ?rs) = drop (total_len (take b ?rs)) (flat ?rs)"
    by (metis append_eq_conv_conj append_take_drop_id flat_simps(3) length_flat)
  moreover have "flat (take a ?rs @ F) @ drop (total_len (take b ?rs)) (flat ?rs) =
      mark_flags live B n (flat ?rs)"
    using r drop_take_split [of "B + n" "total_len (take b ?rs)" "flat ?rs"]
    unfolding mark_flags_def by (metis append_assoc)
  ultimately have "flat ?rs' = mark_flags live B n (flat ?rs)" by simp
  with fin ok cur show ?thesis by (auto simp: marked_def e_def)
qed

lemma apply_mark_ok:
  assumes "doc_ok d" and "cursor_holds (ranges d) c B" and "0 < n" and "B + n \<le> total_len (ranges d)"
  shows "\<exists>st0 st d' c'. mark_begin (ranges d) B n c = Some st0 \<and>
    mark_loop live (ranges d) B (B + n) st0 = Some st \<and>
    mark_finish d st (live_delta live (flipped_len st)) = Some (d', c') \<and>
    ms_flipped st = flips live B (B + n) 0 (ranges d) \<and> marked live d B n d' c'"
proof -
  have "alternating (ranges d)" using assms(1) by (simp add: doc_ok_def)
  from mark_loop_ok [OF this assms(2-4), of live] obtain st0 st a b ci F where
      l: "mark_begin (ranges d) B n c = Some st0" "mark_loop live (ranges d) B (B + n) st0 = Some st"
      "stopped st a b (cursor_at (ranges d) ci) F (flips live B (B + n) 0 (ranges d))"
      "ci \<le> a" "replaced live (ranges d) B n a b F" by blast
  from mark_finish_ok [OF assms(1) l(5) l(4) l(3)] l(1-3) show ?thesis
    by (auto simp: stopped_def)
qed

lemma apply_mark_dead_ok:
  assumes "doc_ok d" and "cursor_holds (ranges d) c B" and "0 < n" and "B + n \<le> total_len (ranges d)"
  shows "\<exists>d' c'. apply_mark_dead d B n c = Some (d', c', flips False B (B + n) 0 (ranges d)) \<and>
    marked False d B n d' c'"
  using apply_mark_ok [OF assms, of False] by (auto simp: apply_mark_dead_def live_delta_def)

lemma apply_mark_live_ok:
  assumes "doc_ok d" and "cursor_holds (ranges d) c B" and "0 < n" and "B + n \<le> total_len (ranges d)"
  shows "\<exists>d' c'. apply_mark_live d B n c = Some (d', c') \<and> marked True d B n d' c'"
  using apply_mark_ok [OF assms, of True] by (auto simp: apply_mark_live_def live_delta_def)

end
