(* ===== verification/Editor_View.thy ===== *)
theory Editor_View
  imports Agreement Collab_Types
begin

text \<open>
  What an editor's buffer makes of an edit instruction, and how the live text of a document with
  tombstones changes under an operation. The edits of one instruction are run from the last to
  the first, as \<open>Doc::apply_op\<close> and the editors do, so that no edit moves a later one.
\<close>

section \<open>Editing a buffer\<close>

definition txt_ins :: "nat \<Rightarrow> utext \<Rightarrow> utext \<Rightarrow> utext option" where
  "txt_ins p s v = (if p \<le> length v then Some (take p v @ s @ drop p v) else None)"

definition txt_del :: "nat \<Rightarrow> utext \<Rightarrow> utext \<Rightarrow> utext option" where
  "txt_del p s v = (if p + length s \<le> length v then Some (take p v @ drop (p + length s) v) else None)"

fun run_edits :: "(nat \<Rightarrow> utext \<Rightarrow> utext \<Rightarrow> utext option) \<Rightarrow> (nat \<times> utext) list \<Rightarrow> utext \<Rightarrow> utext option" where
  "run_edits f [] v = Some v"
| "run_edits f ((p, s) # es) v = Option.bind (run_edits f es v) (f p s)"

definition edit_pair :: "edit \<Rightarrow> nat \<times> utext" where
  "edit_pair e = (ed_pos e, ed_content e)"

fun edit_view :: "edit_instruction \<Rightarrow> utext \<Rightarrow> utext option" where
  "edit_view (InsEdits es) v = run_edits txt_ins (map edit_pair es) v"
| "edit_view (DelEdits es) v = run_edits txt_del (map edit_pair es) v"

section \<open>The live text\<close>

definition live_count :: "cells \<Rightarrow> nat \<Rightarrow> nat" where
  "live_count d p = length (filter snd (take p d))"

lemma visible_append [simp]: "visible (d @ d') = visible d @ visible d'"
  by (simp add: visible_def)

lemma length_visible: "length (visible d) = length (filter snd d)"
  by (simp add: visible_def)

lemma visible_take: "visible (take p d) = take (live_count d p) (visible d)"
  by (metis append_eq_conv_conj append_take_drop_id length_visible live_count_def visible_append)

lemma visible_drop: "visible (drop p d) = drop (live_count d p) (visible d)"
  by (metis append_eq_conv_conj append_take_drop_id length_visible live_count_def visible_append)

lemma live_count_le: "live_count d p \<le> length (visible d)"
  by (metis append_take_drop_id length_append length_visible le_add1 live_count_def visible_append)

lemma live_count_flags: "live_count d p = length (filter (\<lambda>b. b) (take p (map snd d)))"
  by (simp add: live_count_def take_map filter_map comp_def)

lemma visible_new: "visible (map (\<lambda>c. (c, True)) s) = s"
  by (simp add: visible_def comp_def)

lemma visible_uniform: "visible (map (\<lambda>c. (fst c, live)) d) = (if live then map fst d else [])"
  by (simp add: visible_def comp_def)

lemma visible_t_ins:
  "visible (t_ins p s d) =
     take (live_count d p) (visible d) @ s @ drop (live_count d p) (visible d)"
  by (simp add: t_ins_def visible_new visible_take visible_drop)

section \<open>Marks that flip every character\<close>

text \<open>Segments that are entirely live before a deletion, or entirely dead before a revival.\<close>

definition flag_at :: "cells \<Rightarrow> bool \<Rightarrow> nat \<times> utext \<Rightarrow> bool" where
  "flag_at d flag e \<longleftrightarrow> (\<forall>i. fst e \<le> i \<and> i < fst e + length (snd e) \<longrightarrow> snd (d ! i) = flag)"

lemma t_marks_Cons_swap:
  "t_marks live ((p, s) # es) d = t_mark live p (length s) (t_marks live es d)"
  by (rule nth_equalityI) (auto simp: nth_t_marks nth_t_mark)

lemma take_t_marks:
  assumes "ascending n es" and "n \<le> length d"
  shows "take n (t_marks live es d) = take n d"
proof (rule nth_equalityI)
  fix i assume "i < length (take n (t_marks live es d))"
  then have i: "i < n" "i < length d" by auto
  then have "i \<notin> seg_set es"
    using ascending_bound [OF assms(1)] by (fastforce simp: seg_set_def)
  with i show "take n (t_marks live es d) ! i = take n d ! i" by (simp add: nth_t_marks)
qed simp

lemma take_drop_text:
  assumes "text_at d (p, s)"
  shows "map fst (take (length s) (drop p d)) = s"
  using assms by (simp add: text_at_def take_map drop_map)

lemma take_drop_flag:
  assumes "flag_at d flag (p, s)" and "p + length s \<le> length d"
  shows "take (length s) (drop p d) = map (\<lambda>c. (fst c, flag)) (take (length s) (drop p d))"
  using assms by (intro nth_equalityI) (auto simp: flag_at_def prod_eq_iff)

lemma visible_t_mark:
  assumes "text_at d (p, s)" and "flag_at d (\<not> live) (p, s)"
  shows "(if live then txt_ins else txt_del) (live_count d p) s (visible d) =
    Some (visible (t_mark live p (length s) d))"
proof -
  let ?m = "take (length s) (drop p d)"
  have fit: "p + length s \<le> length d" using assms(1) by (simp add: text_at_def)
  have d: "d = take p d @ ?m @ drop (p + length s) d"
    by (metis add.commute append_take_drop_id drop_drop)
  have m: "visible ?m = (if live then [] else s)"
    by (subst take_drop_flag [OF assms(2) fit])
      (auto simp: visible_uniform take_drop_text [OF assms(1)])
  have v: "visible d = visible (take p d) @ visible ?m @ visible (drop (p + length s) d)"
    by (subst d) (simp only: visible_append)
  have len: "length (visible (take p d)) = live_count d p"
    by (simp add: length_visible live_count_def)
  have "visible (t_mark live p (length s) d) =
      visible (take p d) @ (if live then s else []) @ visible (drop (p + length s) d)"
    by (simp add: t_mark_def visible_uniform take_drop_text [OF assms(1)])
  with v m len live_count_le [of d p] show ?thesis
    by (cases live) (simp_all add: txt_ins_def txt_del_def)
qed

lemma view_marks:
  assumes "ascending n es" and "\<forall>e \<in> set es. text_at d e \<and> flag_at d (\<not> live) e"
  shows "run_edits (if live then txt_ins else txt_del) (map (\<lambda>(p, s). (live_count d p, s)) es) (visible d) =
    Some (visible (t_marks live es d))"
  using assms
proof (induction n es rule: ascending.induct)
  case (2 n p s es)
  let ?d = "t_marks live es d"
  have asc: "ascending (p + length s) es" and fit: "p + length s \<le> length d"
    using 2 by (auto simp: text_at_def)
  have tk: "take (p + length s) ?d = take (p + length s) d" by (rule take_t_marks [OF asc fit])
  then have "take p ?d = take p d" by (metis min.absorb1 le_add1 take_take)
  then have cnt: "live_count ?d p = live_count d p" by (simp add: live_count_def)
  have "?d ! i = d ! i" if "i < p + length s" for i
    using tk that by (metis nth_take)
  then have "flag_at ?d (\<not> live) (p, s)" using 2 by (auto simp: flag_at_def)
  with 2 visible_t_mark [of ?d p s live] cnt show ?case
    by (simp del: t_marks.simps add: t_marks_Cons_swap)
qed (simp add: visible_def)

end
