(* ===== verification/Doc_Edit.thy ===== *)
theory Doc_Edit
  imports Doc_Mark Editor_View
begin

text \<open>
  \<open>InternalDoc\<close> implements the document with tombstones. \<open>represents\<close> is the abstraction
  relation: the coalesced ranges are the run lengths of the flags. Converting and applying an
  operation, from the editor or from another site, never panics, leads to a document that
  represents the operation's result, and the instruction handed to the editor turns the live text
  before into the live text after.
\<close>

definition represents :: "internal_doc \<Rightarrow> cells \<Rightarrow> bool" where
  "represents d cs \<longleftrightarrow> doc_ok d \<and> flat (ranges d) = map snd cs"

lemma represents_length: "represents d cs \<Longrightarrow> total_len (ranges d) = length cs"
  by (metis length_flat length_map represents_def)

lemma represents_live:
  "represents d cs \<Longrightarrow> live_before (ranges d) p = live_count cs p"
  by (simp add: represents_def live_before_def live_count_flags)

lemma represents_live_total: "represents d cs \<Longrightarrow> total_live (ranges d) = length (visible cs)"
  by (simp add: represents_def length_visible filter_map comp_def flip: count_flat)

lemma represents_new: "represents (internal_doc_new (length s)) (map (\<lambda>c. (c, True)) s)"
  by (simp add: represents_def internal_doc_new_def doc_ok_def comp_def map_replicate_const)

section \<open>The flipped runs\<close>

lemma flips_bounds:
  "(q, l) \<in> set (flips live B E s rs) \<Longrightarrow> B \<le> q \<and> s \<le> q \<and> 0 < l \<and> q + l \<le> E \<and> q + l \<le> s + total_len rs"
  by (induction rs arbitrary: s) (fastforce split: if_splits)+

lemma flips_flag:
  assumes "(q, l) \<in> set (flips live B E s rs)" and "q \<le> i" and "i < q + l"
  shows "flat rs ! (i - s) = (\<not> live)"
  using assms
proof (induction rs arbitrary: s)
  case (Cons r rs)
  show ?case
  proof (cases "(q, l) \<in> set (flips live B E (s + rlen r) rs)")
    case True
    then have "flat rs ! (i - (s + rlen r)) = (\<not> live)" "s + rlen r \<le> q"
      using Cons flips_bounds [OF True] by auto
    moreover have "\<not> i - s < rlen r" "i - s - rlen r = i - (s + rlen r)"
      using calculation(2) Cons.prems(2) by linarith+
    ultimately show ?thesis by (simp add: nth_append)
  next
    case False
    with Cons.prems show ?thesis by (auto simp: nth_append split: if_splits)
  qed
qed simp

lemma flips_cover:
  assumes "B \<le> i" and "i < E" and "s \<le> i" and "i < s + total_len rs" and "flat rs ! (i - s) \<noteq> live"
  shows "\<exists>q l. (q, l) \<in> set (flips live B E s rs) \<and> q \<le> i \<and> i < q + l"
  using assms
proof (induction rs arbitrary: s)
  case (Cons r rs)
  show ?case
  proof (cases "i < s + rlen r")
    case True
    then have "i - s < rlen r" using Cons.prems(3) by linarith
    with Cons.prems(5) have "is_live r \<noteq> live" by (simp add: nth_append)
    moreover have "max B s < min E (s + rlen r)" using Cons.prems True by auto
    ultimately have "(max B s, min E (s + rlen r) - max B s) \<in> set (flips live B E s (r # rs))"
      by simp
    moreover have "max B s \<le> i" "i < max B s + (min E (s + rlen r) - max B s)"
      using Cons.prems True by auto
    ultimately show ?thesis by blast
  next
    case False
    then have "\<not> i - s < rlen r" "i - s - rlen r = i - (s + rlen r)" by linarith+
    with Cons.prems(5) have "flat rs ! (i - (s + rlen r)) \<noteq> live"
      by (simp add: nth_append)
    with False Cons.prems Cons.IH [of "s + rlen r"] show ?thesis by auto
  qed
qed simp

text \<open>The text that belongs to each flipped run of a marked segment.\<close>

definition flip_text :: "nat \<times> utext \<Rightarrow> nat \<times> nat \<Rightarrow> nat \<times> utext" where
  "flip_text e = (\<lambda>(q, l). (q, take l (drop (q - fst e) (snd e))))"

definition seg_flips :: "bool \<Rightarrow> range list \<Rightarrow> nat \<times> utext \<Rightarrow> (nat \<times> utext) list" where
  "seg_flips live rs e = map (flip_text e) (flips live (fst e) (fst e + length (snd e)) 0 rs)"

lemma flip_text_len:
  assumes "(q, l) \<in> set (flips live p (p + length x) s rs)"
  shows "length (snd (flip_text (p, x) (q, l))) = l"
  using flips_bounds [OF assms] by (auto simp: flip_text_def)

lemma flip_text_ascending:
  "ascending (max p s) (map (flip_text (p, x)) (flips live p (p + length x) s rs))"
proof (induction rs arbitrary: s)
  case (Cons r rs)
  let ?f = "(max p s, min (p + length x) (s + rlen r) - max p s)"
  let ?tl = "map (flip_text (p, x)) (flips live p (p + length x) (s + rlen r) rs)"
  show ?case
  proof (cases "is_live r \<noteq> live \<and> max p s < min (p + length x) (s + rlen r)")
    case True
    then have in_f: "?f \<in> set (flips live p (p + length x) s (r # rs))" by simp
    then have len: "length (snd (flip_text (p, x) ?f)) = snd ?f" using flip_text_len by (metis prod.collapse)
    have "ascending (max p s + snd ?f) ?tl"
      by (rule ascending_mono [OF Cons.IH]) (use True in auto)
    moreover have "0 < snd ?f" using True by simp
    then have "snd (flip_text (p, x) ?f) \<noteq> []" unfolding len [symmetric] by simp
    moreover have "fst (flip_text (p, x) ?f) = max p s" by (simp add: flip_text_def)
    ultimately have "ascending (max p s) (flip_text (p, x) ?f # ?tl)"
      using len by (cases "flip_text (p, x) ?f") auto
    with True show ?thesis by simp
  next
    case False
    have "ascending (max p s) ?tl" by (rule ascending_mono [OF Cons.IH]) simp
    with False show ?thesis by auto
  qed
qed simp

lemma flip_text_end:
  assumes "f \<in> set (seg_flips live rs (p, x))"
  shows "fst f + length (snd f) \<le> p + length x" and "p \<le> fst f"
proof -
  from assms obtain q l where f: "f = flip_text (p, x) (q, l)"
      "(q, l) \<in> set (flips live p (p + length x) 0 rs)"
    by (auto simp: seg_flips_def)
  with flip_text_len [OF f(2)] flips_bounds [OF f(2)]
  show "fst f + length (snd f) \<le> p + length x" "p \<le> fst f" by (auto simp: flip_text_def)
qed

lemma ascending_seg_flips:
  assumes "ascending n es"
  shows "ascending n (concat (map (seg_flips live rs) es))"
  using assms
proof (induction n es rule: ascending.induct)
  case (2 n p x es)
  have "ascending n (seg_flips live rs (p, x))"
    using flip_text_ascending [of p 0 x live rs] 2(2)
    by (auto simp: seg_flips_def intro: ascending_mono)
  moreover have "n \<le> p + length x" using 2 by simp
  ultimately have "ascending n (seg_flips live rs (p, x) @ concat (map (seg_flips live rs) es))"
    using 2 flip_text_end by (intro ascending_append [of n _ "p + length x"]) auto
  then show ?case by simp
qed simp

lemma seg_flips_agree:
  assumes "flat rs = map snd cs" and "text_at cs e" and "f \<in> set (seg_flips live rs e)"
  shows "text_at cs f \<and> flag_at cs (\<not> live) f"
proof -
  obtain p x where e: "e = (p, x)" by (cases e)
  from assms(3) e obtain q l where f: "f = flip_text (p, x) (q, l)"
      "(q, l) \<in> set (flips live p (p + length x) 0 rs)"
    by (auto simp: seg_flips_def)
  note b = flips_bounds [OF f(2)] and len = flip_text_len [OF f(2)]
  have t: "text_at cs (p, x)" using assms(2) e by simp
  have "text_at cs f"
    using t b len by (auto simp: text_at_nth f(1) flip_text_def)
  moreover have "snd (cs ! i) = (\<not> live)" if "q \<le> i" "i < q + l" for i
    using flips_flag [OF f(2) that] b that t assms(1) by (simp add: text_at_nth)
  ultimately show ?thesis using len by (auto simp: flag_at_def f(1) flip_text_def)
qed

lemma t_marks_seg_flips:
  assumes "flat rs = map snd cs" and "\<forall>e \<in> set es. text_at cs e"
  shows "t_marks live (concat (map (seg_flips live rs) es)) cs = t_marks live es cs"
proof (rule nth_equalityI)
  let ?fs = "concat (map (seg_flips live rs) es)"
  fix i assume "i < length (t_marks live ?fs cs)"
  then have i: "i < length cs" by simp
  have sub: "i \<in> seg_set es" if fs: "i \<in> seg_set ?fs"
  proof -
    from fs obtain e f where "e \<in> set es" "f \<in> set (seg_flips live rs e)"
        "fst f \<le> i" "i < fst f + length (snd f)" by (auto simp: seg_set_def)
    then have "fst e \<le> i" "i < fst e + length (snd e)"
      using flip_text_end [of f live rs "fst e" "snd e"] by simp_all
    with \<open>e \<in> set es\<close> show ?thesis by (auto simp: seg_set_def)
  qed
  have cover: "snd (cs ! i) = live" if es: "i \<in> seg_set es" and fs: "i \<notin> seg_set ?fs"
  proof (rule ccontr)
    assume "snd (cs ! i) \<noteq> live"
    moreover from es obtain p x where e: "(p, x) \<in> set es" "p \<le> i" "i < p + length x"
      by (auto simp: seg_set_def)
    moreover have "total_len rs = length cs" by (metis assms(1) length_flat length_map)
    ultimately obtain q l where ql: "(q, l) \<in> set (flips live p (p + length x) 0 rs)"
        "q \<le> i" "i < q + l"
      using flips_cover [of p i "p + length x" 0 rs live] i assms(1) by auto
    then have "flip_text (p, x) (q, l) \<in> set ?fs"
      using e(1) by (force simp: seg_flips_def)
    with ql flip_text_len [OF ql(1)] have "i \<in> seg_set ?fs"
      unfolding seg_set_def by (intro UN_I) (auto simp: flip_text_def)
    with fs show False by simp
  qed
  show "t_marks live ?fs cs ! i = t_marks live es cs ! i"
    using i sub cover by (auto simp: nth_t_marks prod_eq_iff)
qed simp

section \<open>Marks as editor edits\<close>

text \<open>The edits that a marked segment stands for, in buffer positions.\<close>

definition seg_edits :: "bool \<Rightarrow> range list \<Rightarrow> nat \<times> utext \<Rightarrow> (nat \<times> utext) list" where
  "seg_edits live rs e = map (\<lambda>(q, s). (live_before rs q, s)) (seg_flips live rs e)"

definition iter_on :: "range list \<Rightarrow> range_iterator \<Rightarrow> nat \<Rightarrow> bool" where
  "iter_on rs it k \<longleftrightarrow> k < length rs \<and> (\<exists>a e. it = (iter_at rs k a)\<lparr>it_aff_end := e\<rparr>)"

lemma iter_on_fields:
  assumes "iter_on rs it k"
  shows "it_range_idx it = k" "it_range_beg it = total_len (take k rs)"
    "it_range_end it = total_len (take (Suc k) rs)" "it_is_live it = is_live (rs ! k)"
    "it_editor_beg it = total_live (take k rs)" "k < length rs"
  using assms by (auto simp: iter_on_def)

lemma iter_on_new: "i < length rs \<Longrightarrow> iter_on rs (iter_at rs i i) i"
  by (auto simp: iter_on_def iter_at_def)

lemma iter_on_right:
  assumes "iter_on rs it k" and "Suc k < length rs"
  shows "\<exists>it'. iter_move_right rs it = Some (rs ! Suc k, it') \<and> iter_on rs it' (Suc k)"
proof -
  obtain a e where it: "it = (iter_at rs k a)\<lparr>it_aff_end := e\<rparr>" using assms(1) by (auto simp: iter_on_def)
  have "iter_move_right rs it = Some (rs ! Suc k, (iter_at rs (Suc k) a)\<lparr>it_aff_end := e\<rparr>)"
    using assms(2)
    by (simp add: it iter_move_right_def iter_at_def total_len_take_Suc total_live_take_Suc
        live_len_def Let_def)
  with assms(2) show ?thesis by (auto simp: iter_on_def)
qed

definition seg_edits_of :: "range list \<Rightarrow> nat \<times> utext \<Rightarrow> (nat \<times> nat) list \<Rightarrow> (nat \<times> utext) list" where
  "seg_edits_of rs e fl = map (\<lambda>f. (live_before rs (fst f), snd (flip_text e f))) fl"

lemma seg_edits_eq:
  "seg_edits live rs e = seg_edits_of rs e (flips live (fst e) (fst e + length (snd e)) 0 rs)"
  by (simp add: seg_edits_def seg_edits_of_def seg_flips_def flip_text_def case_prod_beta)

lemma capture_ok:
  assumes "iter_on rs it k" and "x \<noteq> []" and "0 < rlen (rs ! k)"
    and "total_len (take k rs) < p + length x" and "p \<le> total_len (take (Suc k) rs)"
  shows "capture it p (p + length x) x live =
    Some (seg_edits_of rs (p, x) (flips live p (p + length x) (total_len (take k rs)) [rs ! k]))"
proof -
  note f = iter_on_fields [OF assms(1)]
  let ?b = "total_len (take k rs)" and ?e = "total_len (take (Suc k) rs)"
  have e: "?e = ?b + rlen (rs ! k)" by (rule total_len_take_Suc [OF f(6)])
  consider (same) "is_live (rs ! k) = live" | (touch) "?e = p" "is_live (rs ! k) \<noteq> live"
    | (left) "?b \<le> p" "p < ?e" "is_live (rs ! k) \<noteq> live"
    | (right) "p < ?b" "p + length x \<le> ?e" "is_live (rs ! k) \<noteq> live"
    | (inside) "p < ?b" "?e < p + length x" "is_live (rs ! k) \<noteq> live"
    using assms(5) by linarith
  then show ?thesis
  proof cases
    case same
    then show ?thesis by (simp add: capture_def f seg_edits_of_def)
  next
    case touch
    with assms e show ?thesis by (auto simp: capture_def f seg_edits_of_def)
  next
    case left
    have "live_before rs p = total_live (take k rs) + (if is_live (rs ! k) then p - ?b else 0)"
      using live_before_at [OF f(6) left(1)] left(2) by simp
    with left assms e show ?thesis
      by (auto simp: capture_def f seg_edits_of_def flip_text_def max_def min_def)
  next
    case right
    with assms e show ?thesis
      by (auto simp: capture_def f seg_edits_of_def flip_text_def max_def min_def)
  next
    case inside
    with assms e show ?thesis
      by (auto simp: capture_def f seg_edits_of_def flip_text_def max_def min_def)
  qed
qed

lemma seg_edits_of_append [simp]:
  "seg_edits_of rs e (fl @ fl') = seg_edits_of rs e fl @ seg_edits_of rs e fl'"
  "seg_edits_of rs e [] = []"
  by (simp_all add: seg_edits_of_def)

lemma capture_loop_ok:
  assumes "alternating rs" and "iter_on rs it k" and "x \<noteq> []"
    and "total_len (take k rs) < p + length x" and "p \<le> total_len (take (Suc k) rs)"
  shows "capture_loop rs it p (p + length x) x live acc =
    Some (acc @ seg_edits_of rs (p, x) (flips live p (p + length x) (total_len (take k rs)) (drop k rs)))"
  using assms(2,4,5)
proof (induction "length rs - k" arbitrary: k it acc)
  case 0
  then show ?case by (auto dest: iter_on_fields(6))
next
  case (Suc n)
  note f = iter_on_fields [OF Suc.prems(1)]
  let ?E = "p + length x"
  have pos: "0 < rlen (rs ! k)" by (rule alternating_nth_pos [OF assms(1) f(6)])
  note cap = capture_ok [OF Suc.prems(1) assms(3) pos Suc.prems(2,3), of live]
  have split: "flips live p ?E (total_len (take k rs)) (drop k rs) =
      flips live p ?E (total_len (take k rs)) [rs ! k] @
      flips live p ?E (total_len (take (Suc k) rs)) (drop (Suc k) rs)"
    using flips_append [of live p ?E "total_len (take k rs)" "[rs ! k]" "drop (Suc k) rs"]
    by (simp add: f(6) total_len_take_Suc Cons_nth_drop_Suc)
  show ?case
  proof (cases "Suc k = length rs")
    case True
    with cap split f(1) show ?thesis by (subst capture_loop.simps) simp
  next
    case False
    then have k: "Suc k < length rs" using f(6) by simp
    obtain it' where it': "iter_move_right rs it = Some (rs ! Suc k, it')" "iter_on rs it' (Suc k)"
      using iter_on_right [OF Suc.prems(1) k] by blast
    note f' = iter_on_fields [OF it'(2)]
    show ?thesis
    proof (cases "?E \<le> total_len (take (Suc k) rs)")
      case True
      with cap split f(1) False it' f'(2) show ?thesis by (subst capture_loop.simps) simp
    next
      case False
      have "p \<le> total_len (take (Suc (Suc k)) rs)"
        using Suc.prems(3) total_len_take_mono [of "Suc k" "Suc (Suc k)" rs] by simp
      with Suc.hyps(1) [of "Suc k" it'] Suc.hyps(2) it'(2) False
      have IH: "capture_loop rs it' p ?E x live acc' = Some (acc' @ seg_edits_of rs (p, x)
          (flips live p ?E (total_len (take (Suc k) rs)) (drop (Suc k) rs)))" for acc' by simp
      show ?thesis
        using cap split f(1) it' f'(2) False k
        by (subst capture_loop.simps) (simp add: IH)
    qed
  qed
qed

lemma mark_to_ins_or_del_ok:
  assumes "alternating rs" and "cursor_holds rs c p" and "x \<noteq> []" and "p + length x \<le> total_len rs"
  shows "mark_to_ins_or_del rs p x c acc live = Some (acc @ seg_edits live rs (p, x))"
proof -
  have "rs \<noteq> []" using assms(3,4) by auto
  with assms(2) obtain i where i: "i < length rs" "c = cursor_at rs i"
      "total_len (take i rs) \<le> p" "p \<le> total_len (take (Suc i) rs)"
    by (auto simp: cursor_holds_def)
  have "0 < length x" using assms(3) by simp
  with i(3) have lt: "total_len (take i rs) < p + length x" by linarith
  have "flips live p (p + length x) 0 rs =
      flips live p (p + length x) (total_len (take i rs)) (drop i rs)"
    using flips_append [of live p "p + length x" 0 "take i rs" "drop i rs"] i(3)
    by (simp add: flips_before)
  with capture_loop_ok [OF assms(1) iter_on_new [OF i(1)] assms(3) lt i(4)] assms(3)
  show ?thesis
    by (simp add: mark_to_ins_or_del_def iter_new_at i(1,2) seg_edits_eq)
qed

lemma mark_edits_ok:
  assumes "alternating rs" and "cursor_ok rs c"
    and "\<forall>e \<in> set es. snd e \<noteq> [] \<and> fst e + length (snd e) \<le> total_len rs"
  shows "\<exists>c'. mark_edits rs es c acc live = Some (acc @ concat (map (seg_edits live rs) es), c') \<and>
    cursor_ok rs c'"
  using assms(2,3)
proof (induction es arbitrary: c acc)
  case (Cons e es)
  obtain p x where e: "e = (p, x)" by (cases e)
  then have x: "x \<noteq> []" "p + length x \<le> total_len rs" using Cons.prems(2) by auto
  then have "p \<le> total_len rs" by simp
  from convert_pos_internal [OF Cons.prems(1) this] obtain c1 where c1:
      "convert_pos rs p c False = Some (live_before rs p, c1)" "cursor_holds rs c1 p" by blast
  note m = mark_to_ins_or_del_ok [OF assms(1) c1(2) x]
  from Cons.IH [OF cursor_holds_ok [OF c1(2)], of "acc @ seg_edits live rs (p, x)"] Cons.prems(2)
  obtain c' where
      "mark_edits rs es c1 (acc @ seg_edits live rs (p, x)) live =
        Some (acc @ seg_edits live rs (p, x) @ concat (map (seg_edits live rs) es), c')"
      "cursor_ok rs c'" by auto
  with c1 m show ?case by (simp add: e)
qed simp

section \<open>Marking every segment\<close>

lemma mark_step:
  assumes "represents d cs" and "cursor_ok (ranges d) c" and "0 < n" and "p + n \<le> length cs"
  shows "\<exists>c1 d' c'. convert_pos (ranges d) p c False = Some (live_before (ranges d) p, c1) \<and>
    (if live then apply_mark_live d p n c1
     else map_option (\<lambda>(d, c, _). (d, c)) (apply_mark_dead d p n c1)) = Some (d', c') \<and>
    represents d' (t_mark live p n cs) \<and> cursor_ok (ranges d') c'"
proof -
  note rep = assms(1) [unfolded represents_def] and len = represents_length [OF assms(1)]
  have "p \<le> total_len (ranges d)" using assms(4) len by simp
  from convert_pos_internal [OF assms(2) this] obtain c1 where c1:
      "convert_pos (ranges d) p c False = Some (live_before (ranges d) p, c1)"
      "cursor_holds (ranges d) c1 p" by blast
  have fit: "p + n \<le> total_len (ranges d)" using assms(4) len by simp
  have "\<exists>d' c'. (if live then apply_mark_live d p n c1
     else map_option (\<lambda>(d, c, _). (d, c)) (apply_mark_dead d p n c1)) = Some (d', c') \<and>
    marked live d p n d' c'"
    using apply_mark_dead_ok [OF _ c1(2) assms(3) fit] apply_mark_live_ok [OF _ c1(2) assms(3) fit] rep
    by (cases live) auto
  then obtain d' c' where m: "(if live then apply_mark_live d p n c1
     else map_option (\<lambda>(d, c, _). (d, c)) (apply_mark_dead d p n c1)) = Some (d', c')"
    "marked live d p n d' c'" by blast
  have "represents d' (t_mark live p n cs)"
    using m(2) rep assms(4) by (simp add: marked_def represents_def map_snd_t_mark mark_flags_def)
  with c1 m show ?thesis by (auto simp: marked_def)
qed

lemma mark_all_ok:
  assumes "represents d cs" and "cursor_ok (ranges d) c"
    and "\<forall>e \<in> set es. snd e \<noteq> [] \<and> fst e + length (snd e) \<le> length cs"
  shows "\<exists>d' c'. mark_all d (map (\<lambda>(p, x). (p, length x)) es) c live = Some (d', c') \<and>
    represents d' (t_marks live es cs) \<and> cursor_ok (ranges d') c'"
  using assms
proof (induction es arbitrary: d c cs)
  case (Cons e es)
  obtain p x where e: "e = (p, x)" by (cases e)
  with Cons.prems(3) have "0 < length x" "p + length x \<le> length cs" by auto
  from mark_step [OF Cons.prems(1,2) this, of live] obtain c1 d1 c2 where
      s: "convert_pos (ranges d) p c False = Some (live_before (ranges d) p, c1)"
      "(if live then apply_mark_live d p (length x) c1
       else map_option (\<lambda>(d, c, _). (d, c)) (apply_mark_dead d p (length x) c1)) = Some (d1, c2)"
      "represents d1 (t_mark live p (length x) cs)" "cursor_ok (ranges d1) c2" by blast
  from Cons.IH [OF s(3,4)] Cons.prems(3) s(1,2) show ?case by (simp add: e)
qed simp

section \<open>Converting and applying\<close>

lemma represents_get_cursor:
  assumes "represents d cs" and "get_cursor d site = (c, d1)"
  shows "represents d1 cs" and "cursor_ok (ranges d1) c" and "ranges d1 = ranges d"
  using get_cursor_ok [OF _ assms(2)] assms(1) by (auto simp: represents_def)

lemma represents_put_cursor:
  "represents d cs \<Longrightarrow> cursor_ok (ranges d) c \<Longrightarrow> represents (put_cursor d site c) cs"
  by (simp add: represents_def put_cursor_ok)

lemma represents_check: "represents d cs \<Longrightarrow> check_cursor_positions d"
  by (simp add: represents_def doc_ok_check)

lemma ins_step:
  assumes "represents d cs" and "cursor_holds (ranges d) c p" and "p \<le> length cs" and "x \<noteq> []"
  shows "\<exists>d' c'. apply_ins d p (length x) c = Some (d', c') \<and> represents d' (t_ins p x cs) \<and>
    cursor_ok (ranges d') c'"
proof -
  have "p \<le> total_len (ranges d)" "doc_ok d" "0 < length x"
    using assms represents_length [OF assms(1)] by (auto simp: represents_def)
  from apply_ins_ok [OF this(2) assms(2) this(1,3)] assms(1) show ?thesis
    by (auto simp: inserted_def represents_def map_snd_t_ins)
qed

lemma edit_view_marks:
  assumes "represents d cs" and "ascending 0 es" and "\<forall>e \<in> set es. text_at cs e"
  shows "run_edits (if live then txt_ins else txt_del) (concat (map (seg_edits live (ranges d)) es))
    (visible cs) = Some (visible (t_marks live es cs))"
proof -
  let ?fs = "concat (map (seg_flips live (ranges d)) es)"
  have flat: "flat (ranges d) = map snd cs" using assms(1) by (simp add: represents_def)
  have "\<forall>f \<in> set ?fs. text_at cs f \<and> flag_at cs (\<not> live) f"
    using seg_flips_agree [OF flat] assms(3) by fastforce
  from view_marks [OF ascending_seg_flips [OF assms(2)] this]
  have "run_edits (if live then txt_ins else txt_del) (map (\<lambda>(p, s). (live_count cs p, s)) ?fs)
      (visible cs) = Some (visible (t_marks live es cs))"
    by (simp add: t_marks_seg_flips [OF flat assms(3)])
  moreover have "concat (map (seg_edits live (ranges d)) es) = map (\<lambda>(p, s). (live_count cs p, s)) ?fs"
    by (induction es) (simp_all add: seg_edits_def represents_live [OF assms(1)])
  ultimately show ?thesis by simp
qed

lemma edit_pair_to_edits [simp]: "map edit_pair (to_edits es) = es"
  by (induction es) (auto simp: to_edits_def edit_pair_def)

lemma convert_internal_op_ok:
  assumes "represents d cs" and "op_agrees cs op"
  shows "\<exists>instr d'. convert_internal_op_and_apply d op = Some (instr, d') \<and>
    represents d' (t_apply op cs) \<and> edit_view instr (visible cs) = Some (visible (t_apply op cs))"
proof -
  obtain c d1 where g: "get_cursor d (op_site op) = (c, d1)" by fastforce
  note g1 = represents_get_cursor [OF assms(1) g]
  have len: "total_len (ranges d1) = length cs" by (rule represents_length [OF g1(1)])
  show ?thesis
  proof (cases op)
    case (Ins e site)
    obtain p x where e: "e = (p, x)" by (cases e)
    have p: "p \<le> length cs" "x \<noteq> []" using assms(2) Ins e by auto
    then have "p \<le> total_len (ranges d1)" using len by simp
    from convert_pos_internal [OF g1(2) this] obtain c1 where c1:
        "convert_pos (ranges d1) p c False = Some (live_before (ranges d1) p, c1)"
        "cursor_holds (ranges d1) c1 p" by blast
    from ins_step [OF g1(1) c1(2) p] obtain d2 c2 where a:
        "apply_ins d1 p (length x) c1 = Some (d2, c2)" "represents d2 (t_ins p x cs)"
        "cursor_ok (ranges d2) c2" by blast
    note r = represents_put_cursor [OF a(2,3), of site]
    have "convert_internal_op_and_apply d op =
        Some (InsEdits [\<lparr>ed_pos = live_before (ranges d1) p, ed_content = x\<rparr>], put_cursor d2 site c2)"
      using g Ins e c1(1) a(1) represents_check [OF r]
      by (simp add: convert_internal_op_and_apply_def)
    with r Ins e live_count_le [of cs p] show ?thesis
      by (simp add: edit_pair_def txt_ins_def visible_t_ins represents_live [OF g1(1)])
  next
    case (Mark es live site)
    have es: "ascending 0 es" "\<forall>e \<in> set es. text_at cs e" using assms(2) Mark by auto
    have fit: "\<forall>e \<in> set es. snd e \<noteq> [] \<and> fst e + length (snd e) \<le> length cs"
      using es by (auto simp: text_at_def dest: ascending_nonempty)
    have alt: "alternating (ranges d1)" using g1(1) by (simp add: represents_def doc_ok_def)
    from mark_edits_ok [OF alt g1(2), of es "[]" live] fit len obtain c1 where m1:
        "mark_edits (ranges d1) es c [] live = Some (concat (map (seg_edits live (ranges d1)) es), c1)"
        "cursor_ok (ranges d1) c1" by auto
    from mark_all_ok [OF g1(1) m1(2) fit, of live] obtain d2 c2 where a:
        "mark_all d1 (map (\<lambda>(p, x). (p, length x)) es) c1 live = Some (d2, c2)"
        "represents d2 (t_marks live es cs)" "cursor_ok (ranges d2) c2" by blast
    note r = represents_put_cursor [OF a(2,3), of site]
    let ?es = "to_edits (concat (map (seg_edits live (ranges d1)) es))"
    have "convert_internal_op_and_apply d op =
        Some (if live then InsEdits ?es else DelEdits ?es, put_cursor d2 site c2)"
      using g Mark m1(1) a(1) represents_check [OF r]
      by (simp add: convert_internal_op_and_apply_def)
    with r Mark edit_view_marks [OF g1(1) es, of live] show ?thesis
      by (cases live) simp_all
  qed
qed

end
