(* ===== verification/Doc_Local.thy ===== *)
theory Doc_Local
  imports Doc_Edit
begin

text \<open>
  The editor's own operations: \<open>convert_editor_op_and_apply\<close> turns an insertion or a deletion in
  buffer positions into an operation on the document with tombstones that agrees with it. The
  text of a deletion is cut along the runs that were live, which is exactly the text that stands
  there.
\<close>

lemma visible_flagged:
  assumes "\<forall>c \<in> set d. snd c = live"
  shows "visible d = (if live then map fst d else [])"
  using assms by (induction d) (auto simp: visible_def)

lemma cut_text_flips:
  assumes "flat rs = map snd cs" and "B < E"
    and "drop i txt = visible (take (E - max B s) (drop (B - s) cs)) @ rest"
  shows "cut_text (flips False B E s rs) txt i =
    map (\<lambda>(q, l). (q, map fst (take l (drop (q - s) cs)))) (flips False B E s rs)"
  using assms(1,3)
proof (induction rs arbitrary: s i cs)
  case (Cons r rs)
  define cs1 where "cs1 = take (rlen r) cs"
  define cs2 where "cs2 = drop (rlen r) cs"
  have cs: "cs = cs1 @ cs2" by (simp add: cs1_def cs2_def)
  have "length (flat (r # rs)) = length cs" using Cons.prems(1) by (metis length_map)
  then have len: "length cs1 = rlen r" by (simp add: cs1_def)
  then have flags: "map snd cs1 = replicate (rlen r) (is_live r)" and rs: "flat rs = map snd cs2"
    using Cons.prems(1) cs by simp_all
  then have uni: "\<forall>c \<in> set cs1. snd c = is_live r"
    by (metis in_set_replicate image_eqI list.set_map)
  let ?s = "s + rlen r"
  have e1: "E - (max B s + (rlen r - (B - s))) = E - max B ?s"
    and e2: "B - s - rlen r = B - ?s"
    and e3: "min (E - max B s) (rlen r - (B - s)) = min E ?s - max B s"
    using assms(2) by auto
  have cut: "take (E - max B s) (drop (B - s) cs) =
      take (min E ?s - max B s) (drop (B - s) cs1) @ take (E - max B ?s) (drop (B - ?s) cs2)"
  proof -
    have "take k xs = take (min k (length xs)) xs" for k and xs :: cells by (simp add: min_def)
    from this [of "E - max B s" "drop (B - s) cs1"] len
    have "take (E - max B s) (drop (B - s) cs1) = take (min E ?s - max B s) (drop (B - s) cs1)"
      by (simp add: e3)
    with len show ?thesis by (simp add: cs e2 diff_diff_left e1)
  qed
  let ?g = "\<lambda>s cs (q, l). (q, map fst (take l (drop (q - s) cs)))"
  have shift: "map (?g ?s cs2) (flips False B E ?s rs) = map (?g s cs) (flips False B E ?s rs)"
  proof (rule map_cong [OF refl])
    fix f assume f: "f \<in> set (flips False B E ?s rs)"
    obtain q l where ql: "f = (q, l)" by (cases f)
    with f have "?s \<le> q" using flips_bounds by blast
    then have "drop (q - s) cs = drop (q - ?s) cs2" using len by (simp add: cs)
    then show "?g ?s cs2 f = ?g s cs f" by (simp add: ql)
  qed
  have uni': "\<forall>c \<in> set (take (min E ?s - max B s) (drop (B - s) cs1)). snd c = is_live r"
    using uni by (meson in_set_dropD in_set_takeD)
  show ?case
  proof (cases "is_live r \<and> max B s < min E ?s")
    case True
    let ?l = "min E ?s - max B s"
    let ?x = "map fst (take ?l (drop (B - s) cs1))"
    have "visible (take ?l (drop (B - s) cs1)) = ?x"
      using visible_flagged [OF uni'] True by simp
    with Cons.prems(2) cut
    have d: "drop i txt = ?x @ visible (take (E - max B ?s) (drop (B - ?s) cs2)) @ rest" by simp
    have lx: "length ?x = ?l" using True len by auto
    with d have "drop (i + ?l) txt = visible (take (E - max B ?s) (drop (B - ?s) cs2)) @ rest"
      by (metis add.commute append_eq_conv_conj drop_drop)
    note IH = Cons.IH [OF rs this]
    have "take ?l (drop i txt) = ?x" using d lx by simp
    moreover have "take ?l (drop (max B s - s) cs) = take ?l (drop (B - s) cs1)"
      using True len by (auto simp: cs max_def min_def)
    ultimately show ?thesis using True IH shift by (simp add: max_def)
  next
    case False
    have "visible (take (min E ?s - max B s) (drop (B - s) cs1)) = []"
      using visible_flagged [OF uni'] False by auto
    with Cons.prems(2) cut have "drop i txt = visible (take (E - max B ?s) (drop (B - ?s) cs2)) @ rest"
      by simp
    note IH = Cons.IH [OF rs this]
    with False shift show ?thesis by auto
  qed
qed simp

section \<open>Insertions of the editor\<close>

lemma convert_editor_ins_ok:
  assumes "represents d cs" and "pos \<le> length (visible cs)" and "x \<noteq> []"
  shows "\<exists>op d'. convert_editor_op_and_apply d (EIns pos x) site = Some (op, d') \<and>
    op_site op = site \<and> (\<exists>p. op = Ins (p, x) site) \<and> op_agrees cs op \<and> represents d' (t_apply op cs) \<and>
    txt_ins pos x (visible cs) = Some (visible (t_apply op cs))"
proof -
  obtain c d1 where g: "get_cursor d site = (c, d1)" by fastforce
  note g1 = represents_get_cursor [OF assms(1) g]
  have "pos \<le> total_live (ranges d1)" using assms(2) represents_live_total [OF g1(1)] by simp
  from convert_pos_editor [OF g1(2) this] obtain p c1 where c1:
      "convert_pos (ranges d1) pos c True = Some (p, c1)" "cursor_holds (ranges d1) c1 p"
      "p \<le> total_len (ranges d1)" "live_before (ranges d1) p = pos" by blast
  have p: "p \<le> length cs" using c1(3) represents_length [OF g1(1)] by simp
  from ins_step [OF g1(1) c1(2) p assms(3)] obtain d2 c2 where a:
      "apply_ins d1 p (length x) c1 = Some (d2, c2)" "represents d2 (t_ins p x cs)"
      "cursor_ok (ranges d2) c2" by blast
  note r = represents_put_cursor [OF a(2,3), of site]
  have "convert_editor_op_and_apply d (EIns pos x) site = Some (Ins (p, x) site, put_cursor d2 site c2)"
    using g c1(1) a(1) represents_check [OF r] by (simp add: convert_editor_op_and_apply_def)
  moreover have "live_count cs p = pos" using represents_live [OF g1(1)] c1(4) by simp
  ultimately show ?thesis
    using r p assms(2,3) by (auto simp: txt_ins_def visible_t_ins)
qed

section \<open>Deletions of the editor\<close>

lemma flip_text_cells:
  assumes "(q, l) \<in> set (flips False p (p + n) 0 rs)" and "X = map fst (take n (drop p cs))"
  shows "flip_text (p, X) (q, l) = (q, map fst (take l (drop q cs)))"
proof -
  have b: "p \<le> q" "q + l \<le> p + n" using flips_bounds [OF assms(1)] by auto
  then have "min (n - (q - p)) l = l" "q - p + p = q" by auto
  then show ?thesis
    by (simp add: flip_text_def assms(2) drop_map take_map drop_take min.commute)
qed

lemma cut_text_seg_flips:
  assumes "flat rs = map snd cs" and "0 < n" and "p + n \<le> length cs"
    and "txt = visible (take n (drop p cs))"
  shows "cut_text (flips False p (p + n) 0 rs) txt 0 =
    seg_flips False rs (p, map fst (take n (drop p cs)))"
proof -
  have "cut_text (flips False p (p + n) 0 rs) txt 0 =
      map (\<lambda>(q, l). (q, map fst (take l (drop (q - 0) cs)))) (flips False p (p + n) 0 rs)"
    by (rule cut_text_flips [OF assms(1), of p "p + n" 0 "txt" 0 "[]"]) (use assms in \<open>auto\<close>)
  also have "\<dots> = map (flip_text (p, map fst (take n (drop p cs)))) (flips False p (p + n) 0 rs)"
    by (rule map_cong [OF refl]) (auto simp: flip_text_cells)
  finally show ?thesis using assms(3) by (simp add: seg_flips_def)
qed

lemma visible_mark_dead:
  assumes "p + n \<le> length cs"
  shows "visible (t_mark False p n cs) =
    take (live_count cs p) (visible cs) @ drop (live_count cs (p + n)) (visible cs)"
  by (simp add: t_mark_def visible_uniform visible_take visible_drop)

lemma visible_slice:
  "visible (take n (drop p cs)) =
    take (live_count cs (p + n) - live_count cs p) (drop (live_count cs p) (visible cs))"
proof -
  have "take (p + n) cs = take p cs @ take n (drop p cs)" by (simp add: take_add)
  then have "visible (take (p + n) cs) = visible (take p cs) @ visible (take n (drop p cs))" by simp
  moreover have "live_count cs p \<le> live_count cs (p + n)"
    by (simp add: live_count_def take_add)
  ultimately have "take (live_count cs p) (visible cs) @ visible (take n (drop p cs)) =
      take (live_count cs p) (visible cs) @
      take (live_count cs (p + n) - live_count cs p) (drop (live_count cs p) (visible cs))"
    by (simp add: visible_take take_drop_id_at)
  then show ?thesis by simp
qed

text \<open>
  The segments of a deletion: each is live, and a dead character lies between each and the next, so
  that they are the runs of live characters.
\<close>

definition live_runs :: "cells \<Rightarrow> (nat \<times> utext) list \<Rightarrow> bool" where
  "live_runs cs es \<longleftrightarrow> (\<forall>e \<in> set es. flag_at cs True e) \<and>
     sorted_wrt (\<lambda>e f. fst e + length (snd e) < fst f) es"

lemma apart_flips:
  assumes "alternating rs"
  shows "sorted_wrt (\<lambda>(q, l) (q', l'). q + l < q') (flips live B E s rs)"
  using assms
proof (induction rs arbitrary: s rule: alternating.induct)
  case (3 r r' rs)
  have IH: "sorted_wrt (\<lambda>(q, l) (q', l'). q + l < q') (flips live B E (s + rlen r) (r' # rs))"
    using 3 by simp
  show ?case
  proof (cases "is_live r \<noteq> live \<and> max B s < min E (s + rlen r)")
    case True
    with 3(2) have "flips live B E (s + rlen r) (r' # rs) = flips live B E (s + rlen r + rlen r') rs"
      by auto
    moreover have "0 < rlen r'" using 3(2) by (cases rs) auto
    moreover have "s + rlen r + rlen r' \<le> q" if "(q, l) \<in> set (flips live B E (s + rlen r + rlen r') rs)" for q l
      using flips_bounds [OF that] by simp
    ultimately show ?thesis
      using True IH by (simp del: flips.simps(2) add: flips.simps(2) [of live B E s r]) fastforce
  next
    case False
    then have "flips live B E s (r # r' # rs) = flips live B E (s + rlen r) (r' # rs)"
      by (subst flips.simps(2)) (simp only: if_False append_Nil)
    with IH show ?thesis by (simp only:)
  qed
qed auto

lemma live_runs_seg_flips:
  assumes "flat rs = map snd cs" and "alternating rs" and "text_at cs (p, x)"
  shows "live_runs cs (seg_flips False rs (p, x))"
proof -
  have "length (snd (flip_text (p, x) f)) = snd f \<and> fst (flip_text (p, x) f) = fst f"
    if "f \<in> set (flips False p (p + length x) 0 rs)" for f
    using flip_text_len [of "fst f" "snd f" False p x 0 rs] that by (cases f) (auto simp: flip_text_def)
  moreover have "sorted_wrt (\<lambda>f g. fst f + snd f < fst g) (flips False p (p + length x) 0 rs)"
    using apart_flips [OF assms(2), of False p "p + length x" 0] by (simp add: case_prod_beta')
  ultimately have "sorted_wrt (\<lambda>e f. fst e + length (snd e) < fst f) (seg_flips False rs (p, x))"
    unfolding seg_flips_def sorted_wrt_map fst_conv snd_conv by (elim sorted_wrt_mono_rel [rotated]) simp
  then show ?thesis using seg_flips_agree [OF assms(1,3), of _ False] by (auto simp: live_runs_def)
qed

lemma concat_cut_text: "concat (map snd (cut_text fl s i)) = take (sum_list (map snd fl)) (drop i s)"
  by (induction fl s i rule: cut_text.induct) (simp_all add: take_add add.commute)

lemma convert_editor_del_ok:
  assumes "represents d cs" and "pos + length x \<le> length (visible cs)" and "x \<noteq> []"
    and "take (length x) (drop pos (visible cs)) = x"
  shows "\<exists>op d'. convert_editor_op_and_apply d (EDel pos x) site = Some (op, d') \<and>
    op_site op = site \<and> (\<exists>es. op = Mark es False site \<and> live_runs cs es \<and> concat (map snd es) = x) \<and>
    op_agrees cs op \<and> represents d' (t_apply op cs) \<and>
    txt_del pos x (visible cs) = Some (visible (t_apply op cs))"
proof -
  obtain c d1 where g: "get_cursor d site = (c, d1)" by fastforce
  note g1 = represents_get_cursor [OF assms(1) g]
  have tl: "total_live (ranges d1) = length (visible cs)" by (rule represents_live_total [OF g1(1)])
  have "pos \<le> total_live (ranges d1)" using assms(2) tl by simp
  from convert_pos_editor [OF g1(2) this] obtain p c1 where c1:
      "convert_pos (ranges d1) pos c True = Some (p, c1)" "cursor_holds (ranges d1) c1 p"
      "p \<le> total_len (ranges d1)" "live_before (ranges d1) p = pos" by blast
  have "pos + length x \<le> total_live (ranges d1)" using assms(2) tl by simp
  from convert_pos_editor [OF cursor_holds_ok [OF c1(2)] this] obtain e c2 where c2:
      "convert_pos (ranges d1) (pos + length x) c1 True = Some (e, c2)"
      "e \<le> total_len (ranges d1)" "live_before (ranges d1) e = pos + length x" by blast
  have "0 < length x" using assms(3) by simp
  then have pe: "p < e"
    using live_before_mono [of e p "ranges d1"] c1(4) c2(3) by (metis leI less_add_same_cancel1 not_le)
  define n where "n = e - p"
  have n: "0 < n" "e = p + n" using pe by (simp_all add: n_def)
  have len: "total_len (ranges d1) = length cs" by (rule represents_length [OF g1(1)])
  have ok: "doc_ok d1" "flat (ranges d1) = map snd cs" using g1(1) by (simp_all add: represents_def)
  have fit: "p + n \<le> length cs" using c2(2) n len by simp
  have cnt: "live_count cs p = pos" "live_count cs (p + n) = pos + length x"
    using represents_live [OF g1(1)] c1(4) c2(3) n by simp_all
  from apply_mark_dead_ok [OF ok(1) c1(2) n(1)] fit len obtain d2 c3 where a:
      "apply_mark_dead d1 p n c1 = Some (d2, c3, flips False p (p + n) 0 (ranges d1))"
      "marked False d1 p n d2 c3" by auto
  let ?X = "map fst (take n (drop p cs))"
  have X: "text_at cs (p, ?X)" "length ?X = n" "?X \<noteq> []"
    using fit n(1) by (auto simp: text_at_def take_map drop_map)
  have "x = visible (take n (drop p cs))" using assms(4) by (simp add: visible_slice cnt)
  note cut = cut_text_seg_flips [OF ok(2) n(1) fit this]
  let ?op = "Mark (seg_flips False (ranges d1) (p, ?X)) False site"
  have app: "t_apply ?op cs = t_mark False p n cs"
    using t_marks_seg_flips [OF ok(2), of "[(p, ?X)]" False] X(1,2) by simp
  have agree: "op_agrees cs ?op"
    using ascending_seg_flips [of 0 "[(p, ?X)]" False "ranges d1"] seg_flips_agree [OF ok(2) X(1)] X(3)
    by auto
  have rep: "represents d2 (t_apply ?op cs)" and cur: "cursor_ok (ranges d2) c3"
    using a(2) ok(2) fit unfolding app
    by (simp_all add: marked_def represents_def map_snd_t_mark mark_flags_def)
  note r = represents_put_cursor [OF rep cur, of site]
  have "convert_editor_op_and_apply d (EDel pos x) site = Some (?op, put_cursor d2 site c3)"
    using g c1(1) c2(1) a(1) represents_check [OF r] n pe
    by (simp add: convert_editor_op_and_apply_def cut)
  moreover have "txt_del pos x (visible cs) = Some (visible (t_apply ?op cs))"
    using assms(2) unfolding app by (simp add: txt_del_def visible_mark_dead [OF fit] cnt)
  moreover have "live_runs cs (seg_flips False (ranges d1) (p, ?X))"
    using ok(1) X(1) by (intro live_runs_seg_flips [OF ok(2)]) (simp_all add: doc_ok_def)
  moreover have "concat (map snd (seg_flips False (ranges d1) (p, ?X))) = x"
  proof -
    have "sum_list (map snd (flips False p (p + n) 0 (ranges d1))) = length (visible (take n (drop p cs)))"
      using flips_count [of p "p + n" False 0 "ranges d1"] n(1)
      by (simp add: ok(2) length_visible take_map drop_map filter_map comp_def)
    then show ?thesis using \<open>x = visible (take n (drop p cs))\<close> by (simp flip: cut add: concat_cut_text)
  qed
  ultimately show ?thesis using agree r by auto
qed

end
