(* ===== verification/Doc_Theorems.thy ===== *)
theory Doc_Theorems
  imports Doc_Local
begin

text \<open>What \<open>InternalDoc\<close> promises the engines, stated over the documents with tombstones.\<close>

text \<open>C11: Applying an op of any site to the internal document never panics, leads to a document that
  represents the op's result, keeps every site's cursor at the beginning of a range, and the edit
  instruction it returns turns the live text before into the live text after.\<close>

theorem internal_op_implements:
  assumes "represents d cs" and "op_agrees cs op"
  shows "\<exists>instr d'. convert_internal_op_and_apply d op = Some (instr, d') \<and>
    represents d' (t_apply op cs) \<and> edit_view instr (visible cs) = Some (visible (t_apply op cs))"
  using assms by (rule convert_internal_op_ok)

lemma internal_op_implements_witness:
  "\<exists>instr d'. convert_internal_op_and_apply (internal_doc_new 3) (Mark [(0, [7]), (2, [9])] False 1) = Some (instr, d') \<and>
    represents d' [(7, False), (8, True), (9, False)] \<and> edit_view instr [7, 8, 9] = Some [8]"
  using internal_op_implements [OF represents_new [of "[7, 8, 9]"], of "Mark [(0, [7]), (2, [9])] False 1"]
  by (simp add: text_at_def t_mark_def visible_def numeral_eq_Suc)

text \<open>C12: An insertion of the editor becomes an insertion at an internal position that stands for the
  editor's position, agrees with the document, and has the editor's effect on the live text.\<close>

theorem editor_insert_implements:
  assumes "represents d cs" and "pos \<le> length (visible cs)" and "s \<noteq> []"
  shows "\<exists>op d'. convert_editor_op_and_apply d (EIns pos s) site = Some (op, d') \<and>
    op_site op = site \<and> (\<exists>p. op = Ins (p, s) site) \<and> op_agrees cs op \<and> represents d' (t_apply op cs) \<and>
    txt_ins pos s (visible cs) = Some (visible (t_apply op cs))"
  using assms by (rule convert_editor_ins_ok)

lemma editor_insert_implements_witness:
  "\<exists>op d'. convert_editor_op_and_apply (internal_doc_new 2) (EIns 1 [5]) 3 = Some (op, d') \<and>
    Some (visible (t_apply op [(7, True), (8, True)])) = Some [7, 5, 8]"
proof -
  have "represents (internal_doc_new 2) [(7, True), (8, True)]"
    using represents_new [of "[7, 8]"] by (simp add: numeral_eq_Suc)
  moreover have "visible [(7, True), (8, True)] = [7, 8]" by (simp add: visible_def)
  moreover have "txt_ins 1 [5] [7, 8] = Some [7, 5, 8]" by (simp add: txt_ins_def)
  ultimately show ?thesis using editor_insert_implements [of _ _ 1 "[5]" 3] by fastforce
qed

text \<open>C13: A deletion of the editor becomes a mark whose segments are exactly the runs of live characters it
  covers: no segment covers a tombstone, a tombstone lies between each and the next, each carries the
  text that stands there, and together they carry the text the editor deletes. The mark removes
  exactly this text from the live text.\<close>

theorem editor_delete_implements:
  assumes "represents d cs" and "pos + length s \<le> length (visible cs)" and "s \<noteq> []"
    and "take (length s) (drop pos (visible cs)) = s"
  shows "\<exists>op d'. convert_editor_op_and_apply d (EDel pos s) site = Some (op, d') \<and>
    op_site op = site \<and> (\<exists>es. op = Mark es False site \<and> live_runs cs es \<and> concat (map snd es) = s) \<and>
    op_agrees cs op \<and> represents d' (t_apply op cs) \<and>
    txt_del pos s (visible cs) = Some (visible (t_apply op cs))"
  using assms by (rule convert_editor_del_ok)

lemma editor_delete_implements_witness:
  "\<exists>op d'. convert_editor_op_and_apply (internal_doc_new 3) (EDel 1 [8]) 3 = Some (op, d') \<and>
    Some (visible (t_apply op [(7, True), (8, True), (9, True)])) = Some [7, 9]"
proof -
  have "represents (internal_doc_new 3) [(7, True), (8, True), (9, True)]"
    using represents_new [of "[7, 8, 9]"] by (simp add: numeral_eq_Suc)
  moreover have "visible [(7, True), (8, True), (9, True)] = [7, 8, 9]" by (simp add: visible_def)
  moreover have "txt_del 1 [8] [7, 8, 9] = Some [7, 9]" by (simp add: txt_del_def)
  ultimately show ?thesis using editor_delete_implements [of _ _ 1 "[8]" 3] by fastforce
qed

text \<open>C27: Editor positions survive the round trip through internal positions, from any site's cursor, and
  the conversion never walks off the ranges.\<close>

theorem position_round_trip:
  assumes "cursor_ok rs c" and "pos \<le> total_live rs"
  shows "\<exists>p c' c''. convert_pos rs pos c True = Some (p, c') \<and> p \<le> total_len rs \<and>
    convert_pos rs p c' False = Some (pos, c'') \<and> cursor_ok rs c''"
proof -
  from convert_pos_editor [OF assms] obtain p c' where p:
      "convert_pos rs pos c True = Some (p, c')" "cursor_holds rs c' p" "p \<le> total_len rs"
      "live_before rs p = pos" by blast
  from convert_pos_internal [OF cursor_holds_ok [OF p(2)] p(3)] p cursor_holds_ok show ?thesis by blast
qed

lemma position_round_trip_witness:
  "\<exists>p c' c''. convert_pos [Live 2, Dead 3, Live 4] 5 (cursor_at [Live 2, Dead 3, Live 4] 1) True = Some (p, c') \<and>
    p \<le> 9 \<and> convert_pos [Live 2, Dead 3, Live 4] p c' False = Some (5, c'')"
  using position_round_trip [of "[Live 2, Dead 3, Live 4]" "cursor_at [Live 2, Dead 3, Live 4] 1" 5]
  by (auto simp: live_len_def)

text \<open>Marking a stretch dead keeps the length of the document, shortens what the editor sees by exactly
  the lengths of the runs it reports as flipped, and keeps the ranges coalesced and the cursors valid.\<close>

theorem mark_dead_accounts:
  assumes "doc_ok d" and "cursor_holds (ranges d) c pos" and "0 < len" and "pos + len \<le> internal_len d"
  shows "\<exists>d' c' flipped. apply_mark_dead d pos len c = Some (d', c', flipped) \<and> doc_ok d' \<and>
    internal_len d' = internal_len d \<and>
    editor_len d' + sum_list (map snd flipped) = editor_len d"
proof -
  have fit: "pos + len \<le> total_len (ranges d)" using assms(4) by (simp add: internal_len_eq)
  from apply_mark_dead_ok [OF assms(1-3) fit] obtain d' c' where m:
      "apply_mark_dead d pos len c = Some (d', c', flips False pos (pos + len) 0 (ranges d))"
      "marked False d pos len d' c'" by blast
  have fl: "flat (ranges d') = mark_flags False pos len (flat (ranges d))" "doc_ok d'"
    using m(2) by (simp_all add: marked_def)
  let ?fs = "flat (ranges d)"
  have len: "total_len (ranges d') = total_len (ranges d)"
    using arg_cong [OF fl(1), of length] length_mark_flags [of pos len ?fs False] fit by simp
  have split: "?fs = take pos ?fs @ take len (drop pos ?fs) @ drop (pos + len) ?fs"
    by (metis add.commute append_take_drop_id drop_drop)
  have "sum_list (map snd (flips False pos (pos + len) 0 (ranges d))) =
      length (filter (\<lambda>b. b) (take len (drop pos ?fs)))"
    using flips_count [of pos "pos + len" False 0 "ranges d"] assms(3) by simp
  moreover have "total_live (ranges d) = length (filter (\<lambda>b. b) (take pos ?fs)) +
      length (filter (\<lambda>b. b) (take len (drop pos ?fs))) + length (filter (\<lambda>b. b) (drop (pos + len) ?fs))"
    by (subst count_live, subst split) simp
  moreover have "total_live (ranges d') = length (filter (\<lambda>b. b) (take pos ?fs)) +
      length (filter (\<lambda>b. b) (drop (pos + len) ?fs))"
    by (simp add: count_live fl(1) mark_flags_def)
  ultimately show ?thesis using m(1) fl(2) len by (simp add: internal_len_eq editor_len_eq)
qed

lemma mark_dead_accounts_witness:
  "\<exists>d' c' flipped. apply_mark_dead \<lparr>ranges = [Live 2, Dead 1, Live 3], cursors = []\<rparr> 1 4
      (cursor_at [Live 2, Dead 1, Live 3] 0) = Some (d', c', flipped) \<and>
    editor_len d' + sum_list (map snd flipped) = 5"
proof -
  let ?d = "\<lparr>ranges = [Live 2, Dead 1, Live 3], cursors = []\<rparr>"
  have "doc_ok ?d" by (simp add: doc_ok_def)
  moreover have "cursor_holds (ranges ?d) (cursor_at [Live 2, Dead 1, Live 3] 0) 1"
    using cursor_holds_at [of 0 "[Live 2, Dead 1, Live 3]" 1] by simp
  moreover have "1 + 4 \<le> internal_len ?d" "editor_len ?d = 5" by (simp_all add: internal_len_def editor_len_def)
  ultimately show ?thesis using mark_dead_accounts [of ?d _ 1 4] by fastforce
qed

text \<open>Inserting into the coalesced ranges makes the new characters live at the position asked for, moves
  no other flag and keeps the ranges coalesced and the cursors valid, in every branch.\<close>

theorem insert_into_ranges:
  assumes "doc_ok d" and "cursor_holds (ranges d) c pos" and "pos \<le> internal_len d" and "0 < len"
  shows "\<exists>d' c'. apply_ins d pos len c = Some (d', c') \<and> doc_ok d' \<and> cursor_ok (ranges d') c' \<and>
    flat (ranges d') = take pos (flat (ranges d)) @ replicate len True @ drop pos (flat (ranges d))"
  using apply_ins_ok [OF assms(1,2) _ assms(4)] assms(3) by (simp add: internal_len_eq inserted_def)

lemma insert_into_ranges_witness:
  "\<exists>d' c'. apply_ins \<lparr>ranges = [Live 2, Dead 3], cursors = []\<rparr> 4 2 (cursor_at [Live 2, Dead 3] 1) = Some (d', c') \<and>
    flat (ranges d') = [True, True, False, False, True, True, False]"
proof -
  let ?d = "\<lparr>ranges = [Live 2, Dead 3], cursors = []\<rparr>"
  have "doc_ok ?d" by (simp add: doc_ok_def)
  moreover have "cursor_holds (ranges ?d) (cursor_at [Live 2, Dead 3] 1) 4"
    using cursor_holds_at [of 1 "[Live 2, Dead 3]" 4] by simp
  moreover have "4 \<le> internal_len ?d" by (simp add: internal_len_def)
  moreover have "take 4 (flat (ranges ?d)) @ replicate 2 True @ drop 4 (flat (ranges ?d)) =
      [True, True, False, False, True, True, False]" by (simp add: numeral_eq_Suc)
  ultimately show ?thesis using insert_into_ranges [of ?d _ 4 2] by fastforce
qed

end
