(* ===== verification/History.thy ===== *)
theory History
  imports Doc_Local Control
begin

text \<open>
  \<open>GlobalHistory\<close> of \<open>engine.rs\<close>: the ops the server has put in order, the local ops it has not,
  and the undo queue that points into both. A function that takes \<open>&mut self\<close> and returns a
  \<open>Result\<close> returns the state it leaves behind together with the result; \<open>None\<close> is a panic.
\<close>

section \<open>Errors\<close>

text \<open>The three messages an \<open>UndoError\<close> is built with.\<close>

datatype undo_reason = No_more_undo | No_redo | Context_mismatch nat nat

datatype engine_error =
    OpMissing "op fat_op"
  | OpMismatch "op fat_op" "op fat_op"
  | SeqMismatch nat "op fat_op"
  | SiteSeqMismatch nat editor_op
  | SeqMissing "op fat_op"
  | EmptyInsert editor_op
  | DeleteInEmptyDoc
  | UndoError undo_reason

section \<open>State and operations\<close>

record history =
  h_global :: "op fat_op list"
  h_local :: "op fat_op list"
  undo_queue :: "nat list"
  undo_tip :: "nat option"

definition history_new :: history where
  "history_new = \<lparr>h_global = [], h_local = [], undo_queue = [], undo_tip = None\<rparr>"

definition h_total_len :: "history \<Rightarrow> nat" where
  "h_total_len h = length (h_global h) + length (h_local h)"

definition ops_after :: "history \<Rightarrow> nat \<Rightarrow> op fat_op list" where
  "ops_after h seq = (if seq < length (h_global h) then drop seq (h_global h) else [])"

definition all_ops_after :: "history \<Rightarrow> nat \<Rightarrow> op fat_op list option" where
  "all_ops_after h seq =
     (if seq < length (h_global h) then Some (drop seq (h_global h) @ h_local h)
      else do {
        k \<leftarrow> sub_c seq (length (h_global h));
        ensure (k \<le> length (h_local h));
        Some (drop k (h_local h)) })"

definition nth_in_undo_queue :: "history \<Rightarrow> nat \<Rightarrow> op fat_op option" where
  "nth_in_undo_queue h idxidx = do {
     seq \<leftarrow> nth_c (undo_queue h) idxidx;
     idx \<leftarrow> sub_c seq 1;
     (if idx < length (h_global h) then nth_c (h_global h) idx
      else do { k \<leftarrow> sub_c idx (length (h_global h)); nth_c (h_local h) k })
   }"

definition process_opkind ::
  "history \<Rightarrow> editor_op_kind \<Rightarrow> nat \<Rightarrow> (history \<times> (engine_error + op_kind)) option" where
  "process_opkind h kind op_seq =
     (let seq_of_new_op = length (h_global h) + length (h_local h) + 1 + 1 in
      case kind of
        KOriginal \<Rightarrow> do {
          q \<leftarrow> (case undo_tip h of
                 Some idx \<Rightarrow> do { ensure (idx \<le> length (undo_queue h)); Some (take idx (undo_queue h)) }
               | None \<Rightarrow> Some (undo_queue h));
          Some (h\<lparr>undo_tip := None, undo_queue := q @ [op_seq]\<rparr>, Inr Original) }
      | KUndo \<Rightarrow>
          (case undo_tip h of
             Some idx \<Rightarrow>
               (if idx = 0 then Some (h, Inl (UndoError No_more_undo))
                else do {
                  idx_of_orig \<leftarrow> nth_c (undo_queue h) (idx - 1);
                  delta \<leftarrow> sub_c seq_of_new_op (idx_of_orig + 1);
                  Some (h\<lparr>undo_tip := Some (idx - 1),
                          undo_queue := (undo_queue h)[idx - 1 := op_seq]\<rparr>, Inr (Undo delta)) })
           | None \<Rightarrow>
               (if length (undo_queue h) = 0 then Some (h, Inl (UndoError No_more_undo))
                else do {
                  let tip = length (undo_queue h) - 1;
                  idx_of_orig \<leftarrow> nth_c (undo_queue h) tip;
                  delta \<leftarrow> sub_c seq_of_new_op (idx_of_orig + 1);
                  Some (h\<lparr>undo_tip := Some tip, undo_queue := (undo_queue h)[tip := op_seq]\<rparr>,
                    Inr (Undo delta)) }))
      | KRedo \<Rightarrow>
          (case undo_tip h of
             Some idx \<Rightarrow> do {
               idx_of_inverse \<leftarrow> nth_c (undo_queue h) idx;
               delta \<leftarrow> sub_c seq_of_new_op (idx_of_inverse + 1);
               Some (h\<lparr>undo_tip := (if idx + 1 = length (undo_queue h) then None else Some (idx + 1)),
                       undo_queue := (undo_queue h)[idx := op_seq]\<rparr>, Inr (Undo delta)) }
           | None \<Rightarrow> Some (h, Inl (UndoError No_redo))))"

section \<open>The undo queue\<close>

text \<open>
  Every pointer names an op of the history, and the tip lies inside the queue: the invariant that
  keeps \<open>process_opkind\<close>, \<open>nth_in_undo_queue\<close> and \<open>all_ops_after\<close> from panicking.
\<close>

definition queue_ok :: "history \<Rightarrow> bool" where
  "queue_ok h \<longleftrightarrow>
     (\<forall>s \<in> set (undo_queue h). 1 \<le> s \<and> s \<le> h_total_len h) \<and>
     (case undo_tip h of Some i \<Rightarrow> i < length (undo_queue h) | None \<Rightarrow> True)"

lemma queue_ok_nth:
  assumes "queue_ok h" and "i < length (undo_queue h)"
  shows "1 \<le> undo_queue h ! i" and "undo_queue h ! i \<le> h_total_len h"
  using assms by (auto simp: queue_ok_def)

text \<open>The timeline a history stands for.\<close>

definition timeline :: "history \<Rightarrow> op fat_op list" where
  "timeline h = h_global h @ h_local h"

lemma length_timeline [simp]: "length (timeline h) = h_total_len h"
  by (simp add: timeline_def h_total_len_def)

lemma all_ops_after_timeline:
  "seq \<le> h_total_len h \<Longrightarrow> all_ops_after h seq = Some (drop seq (timeline h))"
  by (auto simp: all_ops_after_def timeline_def h_total_len_def bind_checked)

lemma nth_in_undo_queue_timeline:
  assumes "queue_ok h" and "i < length (undo_queue h)"
  shows "nth_in_undo_queue h i = Some (timeline h ! (undo_queue h ! i - 1))"
  using queue_ok_nth [OF assms] assms(2)
  by (auto simp: nth_in_undo_queue_def timeline_def h_total_len_def nth_append bind_checked)

lemma queue_ok_new [simp]: "queue_ok history_new"
  by (simp add: queue_ok_def history_new_def)

text \<open>
  One local op: the new pointer is the op's own place in the timeline, and the invariant holds
  once the op has been appended.
\<close>

lemma process_opkind_keeps:
  assumes "process_opkind h kind s = Some (h', r)"
  shows "h_global h' = h_global h" and "h_local h' = h_local h"
  using assms
  by (auto simp: process_opkind_def Let_def bind_checked
      split: editor_op_kind.splits option.splits if_splits)

lemma set_update_D: "x \<in> set (xs[i := y]) \<Longrightarrow> x \<noteq> y \<Longrightarrow> x \<in> set xs"
  using set_update_subset_insert [of xs i y] by auto

lemma process_opkind_queue:
  assumes "queue_ok h" and "process_opkind h kind s = Some (h', Inr k)"
  shows "set (undo_queue h') \<subseteq> insert s (set (undo_queue h))"
    and "case undo_tip h' of Some i \<Rightarrow> i < length (undo_queue h') | None \<Rightarrow> True"
proof -
  show "set (undo_queue h') \<subseteq> insert s (set (undo_queue h))"
    using assms(2)
    by (auto simp: process_opkind_def Let_def bind_checked dest: set_update_D in_set_takeD
        split: editor_op_kind.splits option.splits if_splits)
  show "case undo_tip h' of Some i \<Rightarrow> i < length (undo_queue h') | None \<Rightarrow> True"
    using assms
    by (auto simp: process_opkind_def queue_ok_def Let_def bind_checked
        split: editor_op_kind.splits option.splits if_splits)
qed

lemma process_opkind_ok:
  assumes "queue_ok h" and "process_opkind h kind (h_total_len h + 1) = Some (h', Inr k)"
  shows "queue_ok (h'\<lparr>h_local := h_local h' @ [f]\<rparr>)"
proof -
  have q: "1 \<le> s \<and> s \<le> h_total_len h" if "s \<in> set (undo_queue h)" for s
    using assms(1) that by (simp add: queue_ok_def)
  have "1 \<le> s \<and> s \<le> h_total_len h + 1" if "s \<in> set (undo_queue h')" for s
    using process_opkind_queue(1) [OF assms] q [of s] that by auto
  moreover have "h_total_len (h'\<lparr>h_local := h_local h' @ [f]\<rparr>) = h_total_len h + 1"
    using process_opkind_keeps [OF assms(2)] by (simp add: h_total_len_def)
  ultimately show ?thesis
    using process_opkind_queue(2) [OF assms] by (simp add: queue_ok_def split: option.splits)
qed

lemma process_opkind_no_panic:
  assumes "queue_ok h"
  shows "process_opkind h kind s \<noteq> None"
proof (cases "undo_tip h")
  case None
  then show ?thesis
    using queue_ok_nth [OF assms, of "length (undo_queue h) - 1"]
    by (cases "undo_queue h = []")
      (auto simp: process_opkind_def Let_def h_total_len_def bind_checked split: editor_op_kind.splits)
next
  case (Some i)
  then have "i < length (undo_queue h)" using assms by (simp add: queue_ok_def)
  with Some queue_ok_nth [OF assms, of i] queue_ok_nth [OF assms, of "i - 1"] show ?thesis
    by (cases i)
      (auto simp: process_opkind_def Let_def h_total_len_def bind_checked split: editor_op_kind.splits)
qed

text \<open>An original edit after an undo forgets the undone ops: they cannot be redone.\<close>

lemma process_opkind_original:
  assumes "queue_ok h" and "process_opkind h KOriginal s = Some (h', r)"
  shows "undo_tip h' = None" and "r = Inr Original"
    and "undo_queue h' = (case undo_tip h of Some i \<Rightarrow> take i (undo_queue h) | None \<Rightarrow> undo_queue h) @ [s]"
  using assms by (auto simp: process_opkind_def bind_checked queue_ok_def split: option.splits if_splits)

text \<open>A redo right after an undo takes the tip back to where it was.\<close>

lemma undo_then_redo:
  assumes "queue_ok h" and "process_opkind h KUndo s = Some (h1, Inr k1)"
    and "process_opkind (h1\<lparr>h_local := h_local h1 @ [f]\<rparr>) KRedo s' = Some (h2, r)"
  shows "undo_tip h2 = undo_tip h \<and> length (undo_queue h2) = length (undo_queue h) \<and> (\<exists>k2. r = Inr k2)"
  using assms
  by (auto simp: process_opkind_def Let_def bind_checked queue_ok_def split: option.splits if_splits)

end
