(* ===== verification/Engine.thy ===== *)
theory Engine
  imports History
begin

text \<open>
  \<open>ClientEngine\<close> and \<open>ServerEngine\<close> of \<open>engine.rs\<close>, translated with their error returns: a
  function that takes \<open>&mut self\<close> and returns a \<open>Result\<close> returns the state it leaves behind
  together with \<open>Inl\<close> the error or \<open>Inr\<close> the value; \<open>None\<close> is a panic. The state an error leaves
  behind is the code's too: fields assigned before the error stay assigned.
\<close>

section \<open>Ops in context\<close>

record context_ops =
  co_doc :: doc_id
  co_context :: nat
  co_ops :: "op fat_op list"

definition context_site :: "context_ops \<Rightarrow> site_id option" where
  "context_site co = (case co_ops co of [] \<Rightarrow> None | f # _ \<Rightarrow> Some (fat_site f))"

section \<open>The server's engine\<close>

record server_engine =
  se_gh :: history
  se_doc :: internal_doc
  se_seq :: nat

definition server_engine_new :: "nat \<Rightarrow> server_engine" where
  "server_engine_new init_len =
     \<lparr>se_gh = history_new, se_doc = internal_doc_new init_len, se_seq = 0\<rparr>"

definition global_ops_after :: "server_engine \<Rightarrow> nat \<Rightarrow> op fat_op list" where
  "global_ops_after s seq = ops_after (se_gh s) seq"

definition server_convert_and_apply ::
  "server_engine \<Rightarrow> op fat_op \<Rightarrow> (edit_instruction \<times> server_engine) option" where
  "server_convert_and_apply s f = do {
     (instr, d) \<leftarrow> convert_internal_op_and_apply (se_doc s) (fo_op f);
     Some (instr, s\<lparr>se_doc := d\<rparr>) }"

text \<open>The loop that assigns global sequence numbers.\<close>

fun assign_seq :: "nat \<Rightarrow> op fat_op list \<Rightarrow> op fat_op list \<times> nat" where
  "assign_seq seq [] = ([], seq)"
| "assign_seq seq (f # fs) =
     (let (fs', seq') = assign_seq (seq + 1) fs in (f\<lparr>fo_seq := Some (seq + 1)\<rparr> # fs', seq'))"

definition server_process_ops ::
  "server_engine \<Rightarrow> op fat_op list \<Rightarrow> nat \<Rightarrow> op fat_op list \<times> server_engine" where
  "server_process_ops s ops ctx =
     (let l1 = ops_after (se_gh s) ctx;
          (_, ops) = quatradic_transform transform l1 ops;
          (ops, seq) = assign_seq (se_seq s) ops
      in (ops, s\<lparr>se_seq := seq, se_gh := (se_gh s)\<lparr>h_global := h_global (se_gh s) @ ops\<rparr>\<rparr>))"

section \<open>The client's engine\<close>

record client_engine =
  ce_gh :: history
  ce_doc :: internal_doc
  ce_site :: site_id
  ce_seq :: nat
  ce_site_seq :: nat
  ce_sent :: nat

definition client_engine_new :: "site_id \<Rightarrow> nat \<Rightarrow> internal_doc \<Rightarrow> client_engine" where
  "client_engine_new site base_seq d =
     \<lparr>ce_gh = history_new, ce_doc = d, ce_site = site, ce_seq = base_seq, ce_site_seq = 0,
      ce_sent = 0\<rparr>"

definition prev_op_acked :: "client_engine \<Rightarrow> bool" where
  "prev_op_acked c = (case h_local (ce_gh c) of [] \<Rightarrow> False | f # _ \<Rightarrow> fo_site_seq f = ce_sent c + 1)"

definition package_local_ops :: "client_engine \<Rightarrow> doc_id \<Rightarrow> context_ops option" where
  "package_local_ops c doc =
     (let ops = h_local (ce_gh c) in
      if length ops > 0 then Some \<lparr>co_doc = doc, co_context = ce_seq c, co_ops = ops\<rparr> else None)"

definition pending_local_ops :: "client_engine \<Rightarrow> nat" where
  "pending_local_ops c = length (h_local (ce_gh c))"

definition maybe_package_local_ops :: "client_engine \<Rightarrow> doc_id \<Rightarrow> context_ops option \<times> client_engine" where
  "maybe_package_local_ops c doc =
     (if prev_op_acked c then
        (case package_local_ops c doc of
           Some co \<Rightarrow> (Some co, c\<lparr>ce_sent := fo_site_seq (last (co_ops co))\<rparr>)
         | None \<Rightarrow> (None, c))
      else (None, c))"

definition client_convert_and_apply ::
  "client_engine \<Rightarrow> op \<Rightarrow> (editor_lean_op \<times> client_engine) option" where
  "client_convert_and_apply c op = do {
     (instr, d) \<leftarrow> convert_internal_op_and_apply (ce_doc c) op;
     Some (\<lparr>el_op = instr, el_site_id = op_site op\<rparr>, c\<lparr>ce_doc := d\<rparr>) }"

text \<open>\<open>convert_internal_ops_dont_apply\<close>: the loop runs on a clone of the internal document.\<close>

fun convert_all :: "internal_doc \<Rightarrow> op fat_op list \<Rightarrow> (edit_instruction list \<times> internal_doc) option" where
  "convert_all d [] = Some ([], d)"
| "convert_all d (f # fs) = do {
     (instr, d) \<leftarrow> convert_internal_op_and_apply d (fo_op f);
     (instrs, d) \<leftarrow> convert_all d fs;
     Some (instr # instrs, d) }"

definition convert_internal_ops_dont_apply ::
  "client_engine \<Rightarrow> op fat_op list \<Rightarrow> edit_instruction list option" where
  "convert_internal_ops_dont_apply c ops = map_option fst (convert_all (ce_doc c) ops)"

subsection \<open>Undo\<close>

text \<open>The loop of \<open>generate_undo_op_1\<close>.\<close>

function undo_loop ::
  "history \<Rightarrow> bool \<Rightarrow> nat \<Rightarrow> nat option \<Rightarrow> op fat_op list \<Rightarrow> op fat_op list option" where
  "undo_loop h redo idxidx prev_group ops =
     (if (if redo then idxidx < length (undo_queue h) else idxidx > 0) then do {
        let i = (if redo then idxidx else idxidx - 1);
        op \<leftarrow> nth_in_undo_queue h i;
        (if (case prev_group of Some g \<Rightarrow> g \<noteq> fo_group_seq op | None \<Rightarrow> False) then Some ops
         else do {
           let inv = fat_inverse op;
           seq \<leftarrow> nth_c (undo_queue h) i;
           base \<leftarrow> all_ops_after h seq;
           let inv = batch_transform transform inv (base @ ops);
           undo_loop h redo (if redo then idxidx + 1 else idxidx - 1) (Some (fo_group_seq op))
             (ops @ [inv]) })
      }
      else Some ops)"
  by pat_completeness auto
termination
  by (relation "measure (\<lambda>(h, redo, idxidx, g, ops).
      if redo then length (undo_queue h) - idxidx else idxidx)") auto

declare undo_loop.simps [simp del]

definition generate_undo_op_1 :: "client_engine \<Rightarrow> bool \<Rightarrow> op fat_op list option" where
  "generate_undo_op_1 c redo =
     (let h = ce_gh c in
      if redo then
        (case undo_tip h of None \<Rightarrow> Some [] | Some i \<Rightarrow> undo_loop h redo i None [])
      else
        (let idxidx = (case undo_tip h of Some i \<Rightarrow> i | None \<Rightarrow> length (undo_queue h)) in
         if idxidx = 0 then Some [] else undo_loop h redo idxidx None []))"

definition generate_undo_op :: "client_engine \<Rightarrow> (edit_instruction list \<times> nat) option" where
  "generate_undo_op c = do {
     ops \<leftarrow> generate_undo_op_1 c False;
     instrs \<leftarrow> convert_internal_ops_dont_apply c ops;
     Some (instrs, h_total_len (ce_gh c)) }"

definition generate_redo_op :: "client_engine \<Rightarrow> (edit_instruction list \<times> nat) option" where
  "generate_redo_op c = do {
     ops \<leftarrow> generate_undo_op_1 c True;
     instrs \<leftarrow> convert_internal_ops_dont_apply c ops;
     Some (instrs, h_total_len (ce_gh c)) }"

subsection \<open>Local ops\<close>

text \<open>The loops over generated undo ops, and over the new ops of the history.\<close>

fun apply_undo_ops ::
  "client_engine \<Rightarrow> op fat_op list \<Rightarrow> (op list \<times> edit_instruction list \<times> client_engine) option" where
  "apply_undo_ops c [] = Some ([], [], c)"
| "apply_undo_ops c (f # fs) = do {
     (lean, c) \<leftarrow> client_convert_and_apply c (fo_op f);
     (ops, instrs, c) \<leftarrow> apply_undo_ops c fs;
     Some (fo_op f # ops, el_op lean # instrs, c) }"

fun push_local_ops ::
  "history \<Rightarrow> editor_op_kind \<Rightarrow> nat \<Rightarrow> nat \<Rightarrow> op list \<Rightarrow> (history \<times> (engine_error + unit)) option" where
  "push_local_ops h kind site_seq group_seq [] = Some (h, Inr ())"
| "push_local_ops h kind site_seq group_seq (op # ops) = do {
     let inferred_seq = length (h_global h) + length (h_local h) + 1;
     (h, r) \<leftarrow> process_opkind h kind inferred_seq;
     (case r of
        Inl e \<Rightarrow> Some (h, Inl e)
      | Inr op_kind \<Rightarrow>
          push_local_ops
            (h\<lparr>h_local := h_local h @
                 [\<lparr>fo_seq = None, fo_op = op, fo_site_seq = site_seq, fo_kind = op_kind,
                   fo_group_seq = group_seq\<rparr>]\<rparr>)
            kind site_seq group_seq ops) }"

definition check_undo_context :: "history \<Rightarrow> nat \<Rightarrow> engine_error + unit" where
  "check_undo_context h ctx =
     (if h_total_len h \<noteq> ctx then Inl (UndoError (Context_mismatch (h_total_len h) ctx)) else Inr ())"

text \<open>The \<open>match\<close> of \<open>process_local_op\<close>: the ops, the instructions and the engine after it.\<close>

definition local_undo ::
  "client_engine \<Rightarrow> nat \<Rightarrow> bool \<Rightarrow>
     (client_engine \<times> (engine_error + op list \<times> edit_instruction list)) option" where
  "local_undo c ctx redo =
     (case check_undo_context (ce_gh c) ctx of
        Inl e \<Rightarrow> Some (c, Inl e)
      | Inr _ \<Rightarrow> do {
          fs \<leftarrow> generate_undo_op_1 c redo;
          (ops, instrs, c) \<leftarrow> apply_undo_ops c fs;
          Some (c, Inr (ops, instrs)) })"

definition local_op ::
  "client_engine \<Rightarrow> editor_op \<Rightarrow>
     (client_engine \<times> (engine_error + op list \<times> edit_instruction list)) option" where
  "local_op c op =
     (case op of
        EIns pos s \<Rightarrow>
          (if length s = 0 then Some (c, Inl (EmptyInsert op))
           else do {
             (o1, d) \<leftarrow> convert_editor_op_and_apply (ce_doc c) op (ce_site c);
             Some (c\<lparr>ce_doc := d\<rparr>, Inr ([o1], [InsEdits [\<lparr>ed_pos = pos, ed_content = s\<rparr>]])) })
      | EDel pos s \<Rightarrow>
          (if length (ranges (ce_doc c)) = 0 then Some (c, Inl DeleteInEmptyDoc)
           else do {
             (o1, d) \<leftarrow> convert_editor_op_and_apply (ce_doc c) op (ce_site c);
             Some (c\<lparr>ce_doc := d\<rparr>, Inr ([o1], [DelEdits [\<lparr>ed_pos = pos, ed_content = s\<rparr>]])) })
      | EUndo ctx \<Rightarrow> local_undo c ctx False
      | ERedo ctx \<Rightarrow> local_undo c ctx True)"

definition process_local_op ::
  "client_engine \<Rightarrow> editor_fat_op \<Rightarrow> nat \<Rightarrow>
     (client_engine \<times> (engine_error + edit_instruction list)) option" where
  "process_local_op c eop site_seq =
     (let op = ef_op eop; group_seq = ef_group_seq eop; kind = kind_of op in
      if site_seq \<noteq> ce_site_seq c + 1 then Some (c, Inl (SiteSeqMismatch (ce_site_seq c + 1) op))
      else do {
        (c, r) \<leftarrow> local_op (c\<lparr>ce_site_seq := site_seq\<rparr>) op;
        (case r of
           Inl e \<Rightarrow> Some (c, Inl e)
         | Inr (ops, instrs) \<Rightarrow> do {
             (h, r) \<leftarrow> push_local_ops (ce_gh c) kind site_seq group_seq ops;
             (case r of
                Inl e \<Rightarrow> Some (c\<lparr>ce_gh := h\<rparr>, Inl e)
              | Inr _ \<Rightarrow> Some (c\<lparr>ce_gh := h\<rparr>, Inr instrs)) }) })"

subsection \<open>Remote ops\<close>

text \<open>The loop that updates the undo deltas of the local history.\<close>

fun bump_deltas :: "nat \<Rightarrow> op fat_op list \<Rightarrow> op fat_op list" where
  "bump_deltas offset [] = []"
| "bump_deltas offset (f # fs) =
     (case fo_kind f of
        Undo delta \<Rightarrow> if offset < delta then f\<lparr>fo_kind := Undo (delta + 1)\<rparr> else f
      | Original \<Rightarrow> f) # bump_deltas (offset + 1) fs"

definition bump_queue :: "nat \<Rightarrow> nat list \<Rightarrow> nat list" where
  "bump_queue prev q = map (\<lambda>s. if s > prev then s + 1 else s) q"

definition process_remote_op ::
  "client_engine \<Rightarrow> op fat_op \<Rightarrow>
     (client_engine \<times> (engine_error + (editor_lean_op \<times> nat) option)) option" where
  "process_remote_op c f =
     (case fo_seq f of
        None \<Rightarrow> Some (c, Inl (SeqMissing f))
      | Some seq \<Rightarrow>
          if seq \<noteq> ce_seq c + 1 then Some (c, Inl (SeqMismatch (ce_seq c + 1) f))
          else if fat_site f = ce_site c then
            (case h_local (ce_gh c) of
               [] \<Rightarrow> Some (c, Inl (OpMissing f))
             | l # ls \<Rightarrow>
                 (let h = (ce_gh c)\<lparr>h_local := ls\<rparr> in
                  if fat_site l \<noteq> fat_site f \<or> fo_site_seq l \<noteq> fo_site_seq f
                  then Some (c\<lparr>ce_gh := h\<rparr>, Inl (OpMismatch f l))
                  else Some (c\<lparr>ce_seq := seq, ce_gh := h\<lparr>h_global := h_global h @ [f]\<rparr>\<rparr>, Inr None)))
          else do {
            let (f', new_local) = symmetric_transform transform f (h_local (ce_gh c));
            let h = (ce_gh c)\<lparr>h_local := bump_deltas 0 new_local,
                              h_global := h_global (ce_gh c) @ [f'],
                              undo_queue := bump_queue (seq - 1) (undo_queue (ce_gh c))\<rparr>;
            (lean, c) \<leftarrow> client_convert_and_apply (c\<lparr>ce_seq := seq, ce_gh := h\<rparr>) (fo_op f');
            Some (c, Inr (Some (lean, seq))) })"

end
