(* ===== verification/Engine_Correct.thy ===== *)
theory Engine_Correct
  imports Engine
begin

text \<open>
  One step of an engine. The locale \<open>replica_doc\<close> states what an engine relies on in its internal
  document (each operation that agrees with the document is applied, and the edits handed out
  change the live text accordingly) and lifts it to lists; it is interpreted on \<open>InternalDoc\<close>. A
  local insertion or deletion, the own op coming back from the server, and an op of another site
  never fail when the op agrees with the document it was made for.
\<close>

section \<open>The document behind an engine\<close>

fun run_conv ::
  "('d \<Rightarrow> op \<Rightarrow> (edit_instruction \<times> 'd) option) \<Rightarrow> 'd \<Rightarrow> op fat_op list
    \<Rightarrow> (edit_instruction list \<times> 'd) option" where
  "run_conv conv d [] = Some ([], d)"
| "run_conv conv d (f # fs) = do {
     (instr, d) \<leftarrow> conv d (fo_op f);
     (instrs, d) \<leftarrow> run_conv conv d fs;
     Some (instr # instrs, d) }"

fun view_edits :: "edit_instruction list \<Rightarrow> utext \<Rightarrow> utext option" where
  "view_edits [] v = Some v"
| "view_edits (i # is) v = Option.bind (edit_view i v) (view_edits is)"

locale replica_doc =
  fixes rep :: "'d \<Rightarrow> cells \<Rightarrow> bool"
    and conv :: "'d \<Rightarrow> op \<Rightarrow> (edit_instruction \<times> 'd) option"
  assumes conv_ok: "rep d cs \<Longrightarrow> op_agrees cs op \<Longrightarrow>
      \<exists>instr d'. conv d op = Some (instr, d') \<and> rep d' (t_apply op cs) \<and>
        edit_view instr (visible cs) = Some (visible (t_apply op cs))"
begin

lemma run_ok:
  assumes "rep d cs" and "fits_ops t_apply op_agrees fs cs"
  shows "\<exists>instrs d'. run_conv conv d fs = Some (instrs, d') \<and> rep d' (app_ops t_apply fs cs) \<and>
    view_edits instrs (visible cs) = Some (visible (app_ops t_apply fs cs))"
  using assms
proof (induction fs arbitrary: d cs)
  case (Cons f fs)
  then have "op_agrees cs (fo_op f)" by simp
  from conv_ok [OF Cons.prems(1) this] obtain instr d1 where
      "conv d (fo_op f) = Some (instr, d1)" "rep d1 (t_apply (fo_op f) cs)"
      "edit_view instr (visible cs) = Some (visible (t_apply (fo_op f) cs))" by blast
  with Cons.IH [of d1 "t_apply (fo_op f) cs"] Cons.prems(2) show ?case by fastforce
qed simp

end

interpretation idoc: replica_doc represents convert_internal_op_and_apply
  by unfold_locales (rule convert_internal_op_ok)

lemma convert_all_run: "convert_all d fs = run_conv convert_internal_op_and_apply d fs"
  by (induction fs arbitrary: d) simp_all

lemma view_edits_append:
  "view_edits (is @ js) v = Option.bind (view_edits is v) (view_edits js)"
proof (induction "is" arbitrary: v)
  case (Cons i "is")
  then show ?case by (cases "edit_view i v") simp_all
qed simp

section \<open>Local edits\<close>

text \<open>What an editor may send: an edit inside its buffer that names the text it deletes.\<close>

fun edit_fits :: "editor_op \<Rightarrow> utext \<Rightarrow> bool" where
  "edit_fits (EIns pos s) v \<longleftrightarrow> pos \<le> length v \<and> s \<noteq> []"
| "edit_fits (EDel pos s) v \<longleftrightarrow> pos + length s \<le> length v \<and> s \<noteq> [] \<and> take (length s) (drop pos v) = s"
| "edit_fits _ v \<longleftrightarrow> False"

fun own_instruction :: "editor_op \<Rightarrow> edit_instruction" where
  "own_instruction (EIns pos s) = InsEdits [\<lparr>ed_pos = pos, ed_content = s\<rparr>]"
| "own_instruction (EDel pos s) = DelEdits [\<lparr>ed_pos = pos, ed_content = s\<rparr>]"
| "own_instruction _ = InsEdits []"

text \<open>Insertions and deletions; a mark that revives text comes only from undo.\<close>

fun plain :: "op \<Rightarrow> bool" where
  "plain (Ins _ _) \<longleftrightarrow> True"
| "plain (Mark _ live _) \<longleftrightarrow> \<not> live"

lemma plain_transform [simp]: "plain (transform a b) = plain a"
  by (cases a; cases b) auto

lemma plain_concurrent: "plain a \<Longrightarrow> plain b \<Longrightarrow> op_site a \<noteq> op_site b \<Longrightarrow> concurrent_ok a b"
  by (cases a; cases b) (auto simp: concurrent_ok_def)

lemma local_edit_ok:
  assumes "represents (ce_doc c) cs" and "edit_fits e (visible cs)"
  shows "\<exists>o1 d. local_op c e = Some (c\<lparr>ce_doc := d\<rparr>, Inr ([o1], [own_instruction e])) \<and>
    represents d (t_apply o1 cs) \<and> op_agrees cs o1 \<and> op_site o1 = ce_site c \<and> plain o1 \<and>
    edit_view (own_instruction e) (visible cs) = Some (visible (t_apply o1 cs))"
proof (cases e)
  case (EIns pos s)
  then have p: "pos \<le> length (visible cs)" "s \<noteq> []" using assms(2) by auto
  from convert_editor_ins_ok [OF assms(1) p, of "ce_site c"] p show ?thesis
    by (auto simp: EIns local_op_def edit_pair_def)
next
  case (EDel pos s)
  then have p: "pos + length s \<le> length (visible cs)" "s \<noteq> []"
      "take (length s) (drop pos (visible cs)) = s" using assms(2) by auto
  then have "ranges (ce_doc c) \<noteq> []"
    using represents_live_total [OF assms(1)] by auto
  with convert_editor_del_ok [OF assms(1) p, of "ce_site c"] show ?thesis
    by (auto simp: EDel local_op_def edit_pair_def)
qed (use assms(2) in simp_all)

definition new_local :: "client_engine \<Rightarrow> op \<Rightarrow> nat \<Rightarrow> op fat_op" where
  "new_local c o1 g = \<lparr>fo_seq = None, fo_op = o1, fo_site_seq = ce_site_seq c + 1,
     fo_kind = Original, fo_group_seq = g\<rparr>"

lemma process_local_edit_ok:
  assumes "represents (ce_doc c) cs" and "edit_fits e (visible cs)" and "queue_ok (ce_gh c)"
  shows "\<exists>c' o1. process_local_op c \<lparr>ef_op = e, ef_group_seq = g\<rparr> (ce_site_seq c + 1) =
      Some (c', Inr [own_instruction e]) \<and>
    represents (ce_doc c') (t_apply o1 cs) \<and> op_agrees cs o1 \<and> op_site o1 = ce_site c \<and> plain o1 \<and>
    edit_view (own_instruction e) (visible cs) = Some (visible (t_apply o1 cs)) \<and>
    h_local (ce_gh c') = h_local (ce_gh c) @ [new_local c o1 g] \<and>
    h_global (ce_gh c') = h_global (ce_gh c) \<and> queue_ok (ce_gh c') \<and> ce_site c' = ce_site c \<and>
    ce_seq c' = ce_seq c \<and> ce_site_seq c' = ce_site_seq c + 1 \<and> ce_sent c' = ce_sent c"
proof -
  let ?c = "c\<lparr>ce_site_seq := ce_site_seq c + 1\<rparr>"
  have kind: "kind_of e = KOriginal"
    using assms(2) by (cases e) (auto simp: kind_of_def)
  from local_edit_ok [of ?c cs e] assms(1,2) obtain o1 d where l:
      "local_op ?c e = Some (?c\<lparr>ce_doc := d\<rparr>, Inr ([o1], [own_instruction e]))"
      "represents d (t_apply o1 cs)" "op_agrees cs o1" "op_site o1 = ce_site c" "plain o1"
      "edit_view (own_instruction e) (visible cs) = Some (visible (t_apply o1 cs))" by auto
  obtain h r where h: "process_opkind (ce_gh c) KOriginal (h_total_len (ce_gh c) + 1) = Some (h, r)"
    using process_opkind_no_panic [OF assms(3)] by fastforce
  note k = process_opkind_original(2) [OF assms(3) h] and keep = process_opkind_keeps [OF h]
  have r: "r = Inr Original" by (rule k)
  have q: "queue_ok (h\<lparr>h_local := h_local h @ [new_local c o1 g]\<rparr>)"
    by (rule process_opkind_ok [OF assms(3)]) (use h r in auto)
  have "process_local_op c \<lparr>ef_op = e, ef_group_seq = g\<rparr> (ce_site_seq c + 1) =
      Some (?c\<lparr>ce_doc := d, ce_gh := h\<lparr>h_local := h_local h @ [new_local c o1 g]\<rparr>\<rparr>,
        Inr [own_instruction e])"
    using l(1) h r kind by (simp add: process_local_op_def new_local_def h_total_len_def)
  with l q keep show ?thesis by auto
qed

section \<open>Remote ops\<close>

lemma bump_deltas_fields [simp]:
  "map fo_op (bump_deltas n fs) = map fo_op fs"
  "map fo_site_seq (bump_deltas n fs) = map fo_site_seq fs"
  "length (bump_deltas n fs) = length fs"
  by (induction n fs rule: bump_deltas.induct) (auto split: op_kind.splits)

lemma queue_ok_bump:
  assumes "queue_ok h" and "h_total_len h' = h_total_len h + 1"
    and "undo_queue h' = bump_queue n (undo_queue h)" and "undo_tip h' = undo_tip h"
  shows "queue_ok h'"
  using assms by (fastforce simp: queue_ok_def bump_queue_def split: option.splits)

lemma process_own_op_ok:
  assumes "fo_seq f = Some (ce_seq c + 1)" and "fat_site f = ce_site c"
    and "h_local (ce_gh c) = l # ls" and "fat_site l = ce_site c" and "fo_site_seq l = fo_site_seq f"
    and "queue_ok (ce_gh c)"
  shows "\<exists>h. process_remote_op c f = Some (c\<lparr>ce_seq := ce_seq c + 1, ce_gh := h\<rparr>, Inr None) \<and>
    h_local h = ls \<and> h_global h = h_global (ce_gh c) @ [f] \<and> queue_ok h"
  using assms by (auto simp: process_remote_op_def queue_ok_def h_total_len_def split: option.splits)

lemma process_other_op_ok:
  assumes "fo_seq f = Some (ce_seq c + 1)" and "fat_site f \<noteq> ce_site c"
    and "represents (ce_doc c) (app_ops t_apply (h_local (ce_gh c)) D)"
    and "op_agrees D (fo_op f)" and "fits_ops t_apply op_agrees (h_local (ce_gh c)) D"
    and "\<forall>l \<in> set (h_local (ce_gh c)). concurrent_ok (fo_op f) (fo_op l)"
    and "queue_ok (ce_gh c)"
    and "symmetric_transform transform f (h_local (ce_gh c)) = (f', ls)"
  shows "\<exists>c' lean. process_remote_op c f = Some (c', Inr (Some (lean, ce_seq c + 1))) \<and>
    h_local (ce_gh c') = bump_deltas 0 ls \<and> queue_ok (ce_gh c') \<and> ce_site c' = ce_site c \<and>
    ce_seq c' = ce_seq c + 1 \<and> ce_site_seq c' = ce_site_seq c \<and> ce_sent c' = ce_sent c \<and>
    represents (ce_doc c') (app_ops t_apply ls (t_apply (fo_op f) D)) \<and>
    fits_ops t_apply op_agrees ls (t_apply (fo_op f) D) \<and>
    edit_view (el_op lean) (visible (app_ops t_apply (h_local (ce_gh c)) D)) =
      Some (visible (app_ops t_apply ls (t_apply (fo_op f) D)))"
proof -
  let ?h = "(ce_gh c)\<lparr>h_local := bump_deltas 0 ls, h_global := h_global (ce_gh c) @ [f'],
    undo_queue := bump_queue (ce_seq c) (undo_queue (ce_gh c))\<rparr>"
  let ?c = "c\<lparr>ce_seq := ce_seq c + 1, ce_gh := ?h\<rparr>"
  note sq = ot.symmetric_square [OF assms(4,5,6,8)]
  from convert_internal_op_ok [OF assms(3) sq(2)] obtain instr d where d:
      "convert_internal_op_and_apply (ce_doc c) (fo_op f') = Some (instr, d)"
      "represents d (app_ops t_apply ls (t_apply (fo_op f) D))"
      "edit_view instr (visible (app_ops t_apply (h_local (ce_gh c)) D)) =
        Some (visible (app_ops t_apply ls (t_apply (fo_op f) D)))" by (auto simp: sq(1))
  have "queue_ok ?h"
    using assms(8) length_symmetric_transform [of transform f "h_local (ce_gh c)"]
    by (intro queue_ok_bump [OF assms(7)]) (auto simp: h_total_len_def)
  with assms(1,2,8) d sq(3) show ?thesis
    by (auto simp: process_remote_op_def client_convert_and_apply_def)
qed

section \<open>The server\<close>

lemma site_seqs_of_meta:
  "map fo_meta gs = map fo_meta hs \<Longrightarrow> map fo_site_seq gs = map fo_site_seq hs"
  by (induction gs hs rule: list_induct2') (auto simp: fo_meta_def)

lemma assign_seq_fields:
  assumes "assign_seq n fs = (gs, m)"
  shows "map fo_op gs = map fo_op fs" and "map fo_site_seq gs = map fo_site_seq fs"
    and "length gs = length fs" and "m = n + length fs"
    and "i < length fs \<Longrightarrow> fo_seq (gs ! i) = Some (n + i + 1)"
  using assms
  by (induction n fs arbitrary: gs m i rule: assign_seq.induct)
    (auto simp: Let_def nth_Cons split: prod.splits nat.splits)

lemma server_process_ok:
  assumes "server_process_ops s ops k = (ps, s')" and "k \<le> length (h_global (se_gh s))"
  shows "map fo_op ps = map fo_op (snd (quatradic_transform transform (drop k (h_global (se_gh s))) ops))"
    and "map fo_site_seq ps = map fo_site_seq ops" and "length ps = length ops"
    and "h_global (se_gh s') = h_global (se_gh s) @ ps" and "se_seq s' = se_seq s + length ops"
    and "se_doc s' = se_doc s"
    and "i < length ops \<Longrightarrow> fo_seq (ps ! i) = Some (se_seq s + i + 1)"
proof -
  let ?l1 = "drop k (h_global (se_gh s))"
  have l1: "ops_after (se_gh s) k = ?l1" using assms(2) by (simp add: ops_after_def)
  let ?q = "snd (quatradic_transform transform ?l1 ops)"
  obtain gs m where a: "assign_seq (se_seq s) ?q = (gs, m)" by fastforce
  have "ps = gs" "s' = s\<lparr>se_seq := m, se_gh := (se_gh s)\<lparr>h_global := h_global (se_gh s) @ gs\<rparr>\<rparr>"
    using assms(1) a by (auto simp: server_process_ops_def Let_def l1 split: prod.splits)
  moreover have "map fo_site_seq ?q = map fo_site_seq ops"
    by (rule site_seqs_of_meta [OF fo_meta_quatradic(2)])
  ultimately show "map fo_op ps = map fo_op ?q"
    and "map fo_site_seq ps = map fo_site_seq ops" and "length ps = length ops"
    and "h_global (se_gh s') = h_global (se_gh s) @ ps" and "se_seq s' = se_seq s + length ops"
    and "se_doc s' = se_doc s"
    and "i < length ops \<Longrightarrow> fo_seq (ps ! i) = Some (se_seq s + i + 1)"
    using assign_seq_fields [OF a] by simp_all
qed

end
