(* ===== verification/Network.thy ===== *)
theory Network
  imports Engine_Correct
begin

text \<open>
  A session on one document: the host's engine and buffer, and the engine, buffer and two FIFO
  channels of every site that opened it. The steps are what \<open>server.rs\<close> does with the engines:
  a site takes a snapshot (\<open>handle_request_file\<close>, \<open>handle_snapshot\<close>) and asks for the later ops;
  an editor sends an edit (\<open>handle_send_ops_from_editor\<close>); pending ops are sent; the host serves
  \<open>RequestOps\<close> (\<open>handle_request_ops\<close>) and \<open>OpFromClient\<close> (\<open>handle_op_from_client\<close>) messages and
  broadcasts; a site takes the next op from the host. Each step is an executable function whose
  \<open>None\<close> is a panic, an error return or a step that is not enabled; the order of the steps is
  free, which covers every interleaving of the processes.
\<close>

datatype up_msg = Request_ops nat | Op_from_client context_ops

record peer =
  p_client :: client_engine
  p_buffer :: utext
  p_up :: "up_msg list"
  p_down :: "op fat_op list"

record net =
  n_server :: server_engine
  n_text :: utext
  n_subs :: "site_id \<Rightarrow> nat option"
  n_peers :: "site_id \<Rightarrow> peer option"

definition net_start :: "utext \<Rightarrow> net" where
  "net_start s = \<lparr>n_server = server_engine_new (length s), n_text = s,
     n_subs = (\<lambda>_. None), n_peers = (\<lambda>_. None)\<rparr>"

definition set_peer :: "net \<Rightarrow> site_id \<Rightarrow> peer \<Rightarrow> net" where
  "set_peer n i p = n\<lparr>n_peers := (n_peers n)(i := Some p)\<rparr>"

definition join_net :: "net \<Rightarrow> site_id \<Rightarrow> net option" where
  "join_net n i =
     (case n_peers n i of
        Some _ \<Rightarrow> None
      | None \<Rightarrow>
          (let s = n_server n in
           Some (set_peer n i
             \<lparr>p_client = client_engine_new i (se_seq s) (se_doc s), p_buffer = n_text n,
              p_up = [Request_ops (se_seq s)], p_down = []\<rparr>)))"

definition edit_net :: "net \<Rightarrow> site_id \<Rightarrow> editor_op \<Rightarrow> nat \<Rightarrow> net option" where
  "edit_net n i e g = do {
     p \<leftarrow> n_peers n i;
     (c, r) \<leftarrow> process_local_op (p_client p) \<lparr>ef_op = e, ef_group_seq = g\<rparr>
                (ce_site_seq (p_client p) + 1);
     (case r of
        Inl _ \<Rightarrow> None
      | Inr instrs \<Rightarrow> do {
          v \<leftarrow> view_edits instrs (p_buffer p);
          ensure (editor_len (ce_doc c) = length v);
          Some (set_peer n i (p\<lparr>p_client := c, p_buffer := v\<rparr>)) }) }"

definition send_net :: "net \<Rightarrow> site_id \<Rightarrow> doc_id \<Rightarrow> net option" where
  "send_net n i doc = do {
     p \<leftarrow> n_peers n i;
     (case maybe_package_local_ops (p_client p) doc of
        (None, _) \<Rightarrow> None
      | (Some co, c) \<Rightarrow> Some (set_peer n i (p\<lparr>p_client := c, p_up := p_up p @ [Op_from_client co]\<rparr>))) }"

text \<open>Sending the processed ops to every subscriber.\<close>

definition broadcast :: "net \<Rightarrow> op fat_op list \<Rightarrow> net" where
  "broadcast n ops =
     n\<lparr>n_peers := (\<lambda>j. case n_peers n j of
          None \<Rightarrow> None
        | Some p \<Rightarrow> Some (if n_subs n j \<noteq> None then p\<lparr>p_down := p_down p @ ops\<rparr> else p))\<rparr>"

definition serve_net :: "net \<Rightarrow> site_id \<Rightarrow> net option" where
  "serve_net n i = do {
     p \<leftarrow> n_peers n i;
     (case p_up p of
        [] \<Rightarrow> None
      | Request_ops after # rest \<Rightarrow>
          Some ((set_peer n i (p\<lparr>p_up := rest, p_down := p_down p @ global_ops_after (n_server n) after\<rparr>))
                \<lparr>n_subs := (n_subs n)(i := Some 0)\<rparr>)
      | Op_from_client co # rest \<Rightarrow> do {
          last_seq \<leftarrow> n_subs n i;
          first_op \<leftarrow> nth_c (co_ops co) 0;
          ensure (fo_site_seq first_op = last_seq + 1);
          let (ops, s) = server_process_ops (n_server n) (co_ops co) (co_context co);
          (instrs, d) \<leftarrow> run_conv convert_internal_op_and_apply (se_doc s) ops;
          v \<leftarrow> view_edits instrs (n_text n);
          ensure (editor_len d = length v);
          Some (broadcast
            ((set_peer n i (p\<lparr>p_up := rest\<rparr>))
               \<lparr>n_server := s\<lparr>se_doc := d\<rparr>, n_text := v,
                n_subs := (n_subs n)(i := Some (fo_site_seq (last (co_ops co))))\<rparr>) ops) }) }"

definition take_net :: "net \<Rightarrow> site_id \<Rightarrow> net option" where
  "take_net n i = do {
     p \<leftarrow> n_peers n i;
     (case p_down p of
        [] \<Rightarrow> None
      | f # rest \<Rightarrow> do {
          (c, r) \<leftarrow> process_remote_op (p_client p) f;
          (case r of
             Inl _ \<Rightarrow> None
           | Inr None \<Rightarrow> Some (set_peer n i (p\<lparr>p_client := c, p_down := rest\<rparr>))
           | Inr (Some (lean, _)) \<Rightarrow> do {
               v \<leftarrow> edit_view (el_op lean) (p_buffer p);
               ensure (editor_len (ce_doc c) = length v);
               Some (set_peer n i (p\<lparr>p_client := c, p_buffer := v, p_down := rest\<rparr>)) }) }) }"

text \<open>
  The steps of a session without undo: editors send insertions and deletions that fit what they
  show. (With undo the replicas need not converge; see the properties on opposite marks.)
\<close>

inductive net_step :: "net \<Rightarrow> net \<Rightarrow> bool" where
  Join: "join_net n i = Some n' \<Longrightarrow> net_step n n'"
| Edit: "n_peers n i = Some p \<Longrightarrow> edit_fits e (p_buffer p) \<Longrightarrow> edit_net n i e g = Some n' \<Longrightarrow> net_step n n'"
| Send: "send_net n i doc = Some n' \<Longrightarrow> net_step n n'"
| Serve: "serve_net n i = Some n' \<Longrightarrow> net_step n n'"
| Take: "take_net n i = Some n' \<Longrightarrow> net_step n n'"

inductive reachable :: "utext \<Rightarrow> net \<Rightarrow> bool" for text0 where
  Start: "reachable text0 (net_start text0)"
| Step: "reachable text0 n \<Longrightarrow> net_step n n' \<Longrightarrow> reachable text0 n'"

inductive_cases net_stepE: "net_step n n'"

section \<open>Runs\<close>

text \<open>The steps as data, so that a run of a session is a list that can be evaluated.\<close>

datatype action = A_join site_id | A_edit site_id editor_op nat | A_send site_id doc_id
  | A_serve site_id | A_take site_id

fun act :: "action \<Rightarrow> net \<Rightarrow> net option" where
  "act (A_join i) n = join_net n i"
| "act (A_edit i e g) n =
     (case n_peers n i of
        Some p \<Rightarrow> if edit_fits e (p_buffer p) then edit_net n i e g else None
      | None \<Rightarrow> None)"
| "act (A_send i doc) n = send_net n i doc"
| "act (A_serve i) n = serve_net n i"
| "act (A_take i) n = take_net n i"

fun acts :: "action list \<Rightarrow> net \<Rightarrow> net option" where
  "acts [] n = Some n"
| "acts (a # as) n = Option.bind (act a n) (acts as)"

lemma act_step: "act a n = Some n' \<Longrightarrow> net_step n n'"
  by (cases a) (auto split: option.splits if_splits intro: net_step.intros)

lemma acts_reachable: "reachable text0 n \<Longrightarrow> acts as n = Some n' \<Longrightarrow> reachable text0 n'"
  by (induction "as" arbitrary: n) (auto split: bind_splits intro: reachable.Step [OF _ act_step])

text \<open>The sites of a run are those that joined.\<close>

fun joined :: "action list \<Rightarrow> site_id set" where
  "joined [] = {}"
| "joined (A_join i # as) = insert i (joined as)"
| "joined (_ # as) = joined as"

lemma dom_set_peer [simp]: "dom (n_peers (set_peer n i p)) = insert i (dom (n_peers n))"
  by (auto simp: set_peer_def)

lemma dom_broadcast [simp]: "dom (n_peers (broadcast n ops)) = dom (n_peers n)"
  by (auto simp: broadcast_def split: option.splits)

lemma dom_act: "act a n = Some n' \<Longrightarrow> dom (n_peers n') \<subseteq> dom (n_peers n) \<union> joined [a]"
  by (cases a)
    (auto simp: join_net_def edit_net_def send_net_def serve_net_def take_net_def set_peer_def
      broadcast_def Let_def split: option.splits if_splits bind_splits sum.splits list.splits
      up_msg.splits prod.splits)

lemma joined_Cons: "joined (a # as) = joined [a] \<union> joined as"
  by (cases a) auto

lemma dom_acts: "acts as n = Some n' \<Longrightarrow> dom (n_peers n') \<subseteq> dom (n_peers n) \<union> joined as"
proof (induction "as" arbitrary: n)
  case (Cons a "as")
  then obtain n1 where n1: "act a n = Some n1" "acts as n1 = Some n'" by (auto split: bind_splits)
  with Cons.IH [OF n1(2)] dom_act [OF n1(1)] show ?case by (subst joined_Cons) blast
qed auto

end
