(* ===== verification/Channel.thy ===== *)
theory Channel
  imports Network
begin

text \<open>
  What lies between one site and the host. The site's local ops are those it has sent and the
  host has not yet returned, followed by those it has not sent. The ops it sent are either still
  on the way (then the local ones are the sent ones transformed past what the site has seen
  since) or among the ops the host will deliver (then those are the local ones transformed past
  what comes before them). Both forms survive every step: this is why the op that comes back
  from the host is the op at the head of the local history.
\<close>

section \<open>What transformation keeps\<close>

lemma symmetric_keeps:
  assumes "\<And>a b. Q (transform a b) = Q a"
  shows "map (\<lambda>f. Q (fo_op f)) (snd (symmetric_transform transform g fs)) = map (\<lambda>f. Q (fo_op f)) fs"
  by (induction fs arbitrary: g) (simp_all add: case_prod_beta Let_def assms)

lemma batch_keeps:
  assumes "\<And>a b. Q (transform a b) = Q a"
  shows "Q (fo_op (batch_transform transform g fs)) = Q (fo_op g)"
  by (induction fs arbitrary: g) (simp_all add: assms)

lemma quatradic_keeps:
  assumes "\<And>a b. Q (transform a b) = Q a"
  shows "map (\<lambda>f. Q (fo_op f)) (snd (quatradic_transform transform gs hs)) = map (\<lambda>f. Q (fo_op f)) hs"
  by (induction hs arbitrary: gs)
    (simp_all add: case_prod_beta Let_def fst_symmetric_transform batch_keeps assms)

lemma all_map_eq: "map Q xs = map Q ys \<Longrightarrow> (\<forall>x \<in> set xs. Q x) = (\<forall>y \<in> set ys. Q y)"
  by (induction xs ys rule: list_induct2') auto

lemma same_ops_all:
  assumes "map fo_op xs = map fo_op ys"
  shows "(\<forall>x \<in> set xs. Q (fo_op x)) = (\<forall>y \<in> set ys. Q (fo_op y))"
  using assms by (induction xs ys rule: list_induct2') auto

definition own_ops :: "site_id \<Rightarrow> op fat_op list \<Rightarrow> bool" where
  "own_ops i fs \<longleftrightarrow> (\<forall>f \<in> set fs. plain (fo_op f) \<and> op_site (fo_op f) = i)"

definition foreign_ops :: "site_id \<Rightarrow> op fat_op list \<Rightarrow> bool" where
  "foreign_ops i fs \<longleftrightarrow> (\<forall>f \<in> set fs. op_site (fo_op f) \<noteq> i)"

lemma own_foreign_simps [simp]:
  "own_ops i []" "foreign_ops i []"
  "own_ops i (f # fs) \<longleftrightarrow> plain (fo_op f) \<and> op_site (fo_op f) = i \<and> own_ops i fs"
  "foreign_ops i (f # fs) \<longleftrightarrow> op_site (fo_op f) \<noteq> i \<and> foreign_ops i fs"
  "own_ops i (fs @ gs) \<longleftrightarrow> own_ops i fs \<and> own_ops i gs"
  "foreign_ops i (fs @ gs) \<longleftrightarrow> foreign_ops i fs \<and> foreign_ops i gs"
  by (auto simp: own_ops_def foreign_ops_def)

lemma own_ops_cong: "map fo_op fs = map fo_op gs \<Longrightarrow> own_ops i fs = own_ops i gs"
  unfolding own_ops_def by (rule same_ops_all)

lemma own_ops_quatradic [simp]:
  "own_ops i (snd (quatradic_transform transform gs fs)) = own_ops i fs"
  using all_map_eq [OF quatradic_keeps [of "\<lambda>o1. plain o1 \<and> op_site o1 = i" gs fs]]
  by (simp add: own_ops_def)

lemma own_ops_symmetric [simp]:
  "own_ops i (snd (symmetric_transform transform g fs)) = own_ops i fs"
  using all_map_eq [OF symmetric_keeps [of "\<lambda>o1. plain o1 \<and> op_site o1 = i" g fs]]
  by (simp add: own_ops_def)

lemma foreign_own_conc:
  assumes "foreign_ops i gs" and "\<forall>g \<in> set gs. plain (fo_op g)" and "own_ops i fs"
  shows "conc_ops concurrent_ok fs gs"
  using assms by (auto simp: conc_ops_def own_ops_def foreign_ops_def intro!: plain_concurrent)

section \<open>The two forms\<close>

text \<open>
  \<open>G\<close> is the host's history, \<open>k\<close> how much of it the site has taken, \<open>A\<close> the sent local ops.
\<close>

definition returning :: "op fat_op list \<Rightarrow> site_id \<Rightarrow> nat \<Rightarrow> nat \<Rightarrow> op fat_op list \<Rightarrow> bool" where
  "returning G i k sent A \<longleftrightarrow>
     (\<exists>B A' C. drop k G = B @ A' @ C \<and> foreign_ops i B \<and> foreign_ops i C \<and>
        map fo_op A' = map fo_op (snd (quatradic_transform transform B A)) \<and>
        map fo_site_seq A' = map fo_site_seq A \<and> (\<forall>f \<in> set A. fo_site_seq f \<le> sent))"

definition doc_at :: "op fat_op list \<Rightarrow> cells \<Rightarrow> nat \<Rightarrow> cells" where
  "doc_at G D k = app_ops t_apply (take k G) D"

definition on_the_way ::
  "cells \<Rightarrow> op fat_op list \<Rightarrow> site_id \<Rightarrow> nat \<Rightarrow> nat \<Rightarrow> nat \<Rightarrow> op fat_op list \<Rightarrow> context_ops \<Rightarrow> bool" where
  "on_the_way D G i k q sent A co \<longleftrightarrow>
     co_ops co \<noteq> [] \<and> co_context co \<le> k \<and> own_ops i (co_ops co) \<and>
     fits_ops t_apply op_agrees (co_ops co) (doc_at G D (co_context co)) \<and>
     foreign_ops i (drop (co_context co) G) \<and>
     map fo_op A = map fo_op (snd (quatradic_transform transform
       (drop (co_context co) (take k G)) (co_ops co))) \<and>
     map fo_site_seq A = map fo_site_seq (co_ops co) \<and>
     map fo_site_seq (co_ops co) = [Suc q ..< Suc sent]"

lemma returning_own:
  assumes "returning G i k sent A" and "k < length G" and "op_site (fo_op (G ! k)) = i"
  shows "\<exists>a A1. A = a # A1 \<and> fo_op a = fo_op (G ! k) \<and> fo_site_seq a = fo_site_seq (G ! k) \<and>
    returning G i (Suc k) sent A1"
proof -
  from assms(1) obtain B A' C where r: "drop k G = B @ A' @ C" "foreign_ops i B" "foreign_ops i C"
      "map fo_op A' = map fo_op (snd (quatradic_transform transform B A))"
      "map fo_site_seq A' = map fo_site_seq A" "\<forall>f \<in> set A. fo_site_seq f \<le> sent"
    unfolding returning_def by blast
  have d: "drop k G = G ! k # drop (Suc k) G" using assms(2) by (simp add: Cons_nth_drop_Suc)
  have B: "B = []" using r(1,2) d assms(3) by (cases B) auto
  obtain f A2 where A': "A' = f # A2" "f = G ! k"
    using r(1,3) d assms(3) B by (cases A') auto
  with r(4,5) B obtain a A1 where A: "A = a # A1" "fo_op a = fo_op f" "fo_site_seq a = fo_site_seq f"
      "map fo_op A2 = map fo_op A1" "map fo_site_seq A2 = map fo_site_seq A1"
    by (cases A) auto
  have "drop (Suc k) G = A2 @ C" using r(1) d B A' by simp
  then have "returning G i (Suc k) sent A1"
    unfolding returning_def
    using r(3,6) A by (intro exI [of _ "[]"] exI [of _ A2] exI [of _ C]) auto
  with A A' show ?thesis by auto
qed

lemma returning_other:
  assumes "returning G i k sent A" and "k < length G" and "op_site (fo_op (G ! k)) \<noteq> i"
    and "own_ops i A"
    and "map fo_op A2 = map fo_op (snd (symmetric_transform transform (G ! k) A))"
    and "map fo_site_seq A2 = map fo_site_seq A"
  shows "returning G i (Suc k) sent A2"
proof -
  from assms(1) obtain B A' C where r: "drop k G = B @ A' @ C" "foreign_ops i B" "foreign_ops i C"
      "map fo_op A' = map fo_op (snd (quatradic_transform transform B A))"
      "map fo_site_seq A' = map fo_site_seq A" "\<forall>f \<in> set A. fo_site_seq f \<le> sent"
    unfolding returning_def by blast
  have d: "drop k G = G ! k # drop (Suc k) G" using assms(2) by (simp add: Cons_nth_drop_Suc)
  have seqs: "\<forall>f \<in> set A2. fo_site_seq f \<le> sent"
    using r(6) assms(6) by (metis (no_types, lifting) image_iff list.set_map)
  show ?thesis
  proof (cases B)
    case (Cons b B1)
    with r(1) d have b: "b = G ! k" "drop (Suc k) G = B1 @ A' @ C" by auto
    have "map fo_op A' = map fo_op (snd (quatradic_transform transform B1
        (snd (symmetric_transform transform b A))))"
      using r(4) Cons by (simp add: quatradic_Cons_left case_prod_beta Let_def)
    also have "\<dots> = map fo_op (snd (quatradic_transform transform B1 A2))"
      using quatradic_transform_ops [of B1 B1 "snd (symmetric_transform transform b A)" A2 transform]
        assms(5) b(1) by simp
    finally show ?thesis
      unfolding returning_def
      using r(2,3,5) Cons b assms(6) seqs
      by (intro exI [of _ B1] exI [of _ A'] exI [of _ C]) auto
  next
    case Nil
    with r(4) have "map fo_op A' = map fo_op A" by simp
    then have "own_ops i A'" using assms(4) own_ops_cong by blast
    with r(1) d Nil assms(3) have A': "A' = []" by (cases A') auto
    with r(5) have "A = []" by simp
    then have "A2 = []" using assms(6) by simp
    moreover have "foreign_ops i (drop (Suc k) G)" using r(1,3) d Nil A' by (metis append_Nil own_foreign_simps(4))
    ultimately show ?thesis
      unfolding returning_def
      by (intro exI [of _ "[]"] exI [of _ "[]"] exI [of _ "drop (Suc k) G"]) auto
  qed
qed

lemma returning_extend:
  assumes "returning G i k sent A" and "k \<le> length G" and "foreign_ops i P"
  shows "returning (G @ P) i k sent A"
proof -
  from assms(1) obtain B A' C where r: "drop k G = B @ A' @ C" "foreign_ops i B" "foreign_ops i C"
      "map fo_op A' = map fo_op (snd (quatradic_transform transform B A))"
      "map fo_site_seq A' = map fo_site_seq A" "\<forall>f \<in> set A. fo_site_seq f \<le> sent"
    unfolding returning_def by blast
  have "drop k (G @ P) = B @ A' @ C @ P" using r(1) assms(2) by simp
  with r assms(3) show ?thesis
    unfolding returning_def by (intro exI [of _ B] exI [of _ A'] exI [of _ "C @ P"]) auto
qed

lemma returning_none:
  assumes "foreign_ops i (drop k G)"
  shows "returning G i k sent []"
  unfolding returning_def
  using assms by (intro exI [of _ "[]"] exI [of _ "[]"] exI [of _ "drop k G"]) auto

lemma on_the_way_other:
  assumes "on_the_way D G i k q sent A co" and "k < length G"
    and "map fo_op A2 = map fo_op (snd (symmetric_transform transform (G ! k) A))"
    and "map fo_site_seq A2 = map fo_site_seq A"
  shows "on_the_way D G i (Suc k) q sent A2 co"
proof -
  note w = assms(1) [unfolded on_the_way_def]
  let ?B = "drop (co_context co) (take k G)"
  let ?Q = "snd (quatradic_transform transform ?B (co_ops co))"
  have "drop (co_context co) (take (Suc k) G) = ?B @ [G ! k]"
    using w assms(2) by (simp add: take_Suc_nth)
  then have "map fo_op (snd (quatradic_transform transform (drop (co_context co) (take (Suc k) G)) (co_ops co))) =
      map fo_op (snd (symmetric_transform transform (G ! k) ?Q))"
    by (simp add: quatradic_append_left quatradic_Cons_left case_prod_beta Let_def)
  also have "\<dots> = map fo_op A2"
    using symmetric_transform_ops [of "G ! k" "G ! k" A ?Q transform] w assms(3) by simp
  finally show ?thesis using w assms(4) by (auto simp: on_the_way_def)
qed

lemma on_the_way_foreign:
  assumes "on_the_way D G i k q sent A co" and "k < length G"
  shows "op_site (fo_op (G ! k)) \<noteq> i"
proof -
  have "co_context co \<le> k" "foreign_ops i (drop (co_context co) G)"
    using assms(1) by (auto simp: on_the_way_def)
  moreover have "G ! k \<in> set (drop (co_context co) G)"
    using assms(2) calculation(1) by (metis Cons_nth_drop_Suc in_set_dropD list.set_intros(1) set_drop_subset_set_drop subset_iff)
  ultimately show ?thesis by (simp add: foreign_ops_def)
qed

lemma doc_at_extend: "k \<le> length G \<Longrightarrow> doc_at (G @ P) D k = doc_at G D k"
  by (simp add: doc_at_def)

lemma on_the_way_extend:
  assumes "on_the_way D G i k q sent A co" and "k \<le> length G" and "foreign_ops i P"
  shows "on_the_way D (G @ P) i k q sent A co"
proof -
  have c: "co_context co \<le> length G" using assms(1,2) by (auto simp: on_the_way_def)
  then have "drop (co_context co) (G @ P) = drop (co_context co) G @ P" by simp
  with assms c show ?thesis by (simp add: on_the_way_def doc_at_extend)
qed

text \<open>The host transforms the sent ops: from on the way to returning.\<close>

lemma on_the_way_served:
  assumes "on_the_way D G i k q sent A co" and "k \<le> length G"
    and "map fo_op P = map fo_op (snd (quatradic_transform transform (drop (co_context co) G) (co_ops co)))"
    and "map fo_site_seq P = map fo_site_seq (co_ops co)"
  shows "returning (G @ P) i k sent A"
proof -
  note w = assms(1) [unfolded on_the_way_def]
  let ?B = "drop (co_context co) (take k G)"
  have "drop (co_context co) G = ?B @ drop k G"
    using w by (metis append_take_drop_id diff_is_0_eq drop_0 drop_append length_take min.absorb2 assms(2))
  then have "map fo_op P = map fo_op (snd (quatradic_transform transform (drop k G)
      (snd (quatradic_transform transform ?B (co_ops co)))))"
    using assms(3) by (simp add: quatradic_append_left case_prod_beta Let_def)
  also have "\<dots> = map fo_op (snd (quatradic_transform transform (drop k G) A))"
    using quatradic_transform_ops [of "drop k G" "drop k G" A
      "snd (quatradic_transform transform ?B (co_ops co))" transform] w by simp
  finally have ops: "map fo_op P = map fo_op (snd (quatradic_transform transform (drop k G) A))" .
  have "map fo_site_seq A = [Suc q..<Suc sent]" using w by simp
  then have "\<forall>f \<in> set A. fo_site_seq f \<le> sent"
    by (metis (no_types, lifting) atLeastLessThan_iff image_eqI less_Suc_eq_le list.set_map set_upt)
  moreover have "foreign_ops i (drop k G)"
    using w by (metis \<open>drop (co_context co) G = ?B @ drop k G\<close> own_foreign_simps(6))
  ultimately show ?thesis
    unfolding returning_def
    using ops assms(2,4) w by (intro exI [of _ "drop k G"] exI [of _ P] exI [of _ "[]"]) auto
qed

lemma served_fits:
  assumes "on_the_way D G i k q sent A co" and "fits_ops t_apply op_agrees G D"
    and "\<forall>g \<in> set G. plain (fo_op g)"
    and "map fo_op P = map fo_op (snd (quatradic_transform transform (drop (co_context co) G) (co_ops co)))"
  shows "fits_ops t_apply op_agrees P (app_ops t_apply G D)" and "own_ops i P"
proof -
  note w = assms(1) [unfolded on_the_way_def]
  let ?k = "co_context co"
  let ?D = "doc_at G D ?k"
  have G: "G = take ?k G @ drop ?k G" by simp
  have "fits_ops t_apply op_agrees (drop ?k G) ?D"
    using assms(2) by (subst (asm) G) (simp only: fits_ops_append doc_at_def)
  moreover have "conc_ops concurrent_ok (co_ops co) (drop ?k G)"
    using w assms(3) by (intro foreign_own_conc) (auto dest: in_set_dropD)
  moreover have "app_ops t_apply (drop ?k G) ?D = app_ops t_apply G D"
    by (subst (3) G) (simp only: app_ops_append doc_at_def)
  ultimately show "fits_ops t_apply op_agrees P (app_ops t_apply G D)"
    using ot.quatradic_square(2) [of "drop ?k G" ?D "co_ops co"] w fits_ops_cong [OF assms(4)]
    by (metis prod.collapse)
  show "own_ops i P" using own_ops_cong [OF assms(4)] w by simp
qed

end
