(* ===== verification/Convergence.thy ===== *)
theory Convergence
  imports Channel
begin

text \<open>
  The invariant of a session, and its preservation by every step. It gives at once that no step
  fails (no panic, no error return, no desynchronised buffer) and that the buffers of a session
  at rest are equal. The server's own history is the ghost timeline: the site's copy of the
  history is not used, since the code stores a transformed op there.
\<close>

definition start_cells :: "utext \<Rightarrow> cells" where
  "start_cells s = map (\<lambda>c. (c, True)) s"

definition n_ops :: "net \<Rightarrow> op fat_op list" where
  "n_ops n = h_global (se_gh (n_server n))"

section \<open>The invariant\<close>

definition server_ok :: "cells \<Rightarrow> net \<Rightarrow> bool" where
  "server_ok D n \<longleftrightarrow>
     (let G = n_ops n; s = n_server n in
      se_seq s = length G \<and> (\<forall>j < length G. fo_seq (G ! j) = Some (j + 1)) \<and>
      fits_ops t_apply op_agrees G D \<and> (\<forall>g \<in> set G. plain (fo_op g)) \<and>
      represents (se_doc s) (app_ops t_apply G D) \<and> n_text n = visible (app_ops t_apply G D))"

definition site_ok :: "cells \<Rightarrow> op fat_op list \<Rightarrow> site_id \<Rightarrow> peer \<Rightarrow> bool" where
  "site_ok D G i p \<longleftrightarrow>
     (let c = p_client p; k = ce_seq c; L = h_local (ce_gh c) in
      ce_site c = i \<and> k \<le> length G \<and> queue_ok (ce_gh c) \<and> own_ops i L \<and>
      fits_ops t_apply op_agrees L (doc_at G D k) \<and>
      represents (ce_doc c) (app_ops t_apply L (doc_at G D k)) \<and>
      p_buffer p = visible (app_ops t_apply L (doc_at G D k)))"

definition channel_ok :: "cells \<Rightarrow> op fat_op list \<Rightarrow> site_id \<Rightarrow> nat option \<Rightarrow> peer \<Rightarrow> op fat_op list \<Rightarrow> bool" where
  "channel_ok D G i sub p A \<longleftrightarrow>
     (let c = p_client p; k = ce_seq c; sent = ce_sent c in
      case sub of
        Some q \<Rightarrow>
          p_down p = drop k G \<and>
          ((p_up p = [] \<and> q = sent \<and> returning G i k sent A) \<or>
           (\<exists>co. p_up p = [Op_from_client co] \<and> on_the_way D G i k q sent A co))
      | None \<Rightarrow>
          p_down p = [] \<and> foreign_ops i (drop k G) \<and>
          ((p_up p = [Request_ops k] \<and> sent = 0 \<and> A = []) \<or>
           (\<exists>co. p_up p = [Request_ops k, Op_from_client co] \<and> on_the_way D G i k 0 sent A co)))"

text \<open>The local ops: \<open>A\<close> sent, \<open>N\<close> not, the latter numbered on from the last sent.\<close>

definition local_ok :: "client_engine \<Rightarrow> op fat_op list \<Rightarrow> op fat_op list \<Rightarrow> bool" where
  "local_ok c A N \<longleftrightarrow>
     h_local (ce_gh c) = A @ N \<and> ce_sent c \<le> ce_site_seq c \<and>
     map fo_site_seq N = [Suc (ce_sent c) ..< Suc (ce_site_seq c)]"

definition peer_ok :: "cells \<Rightarrow> op fat_op list \<Rightarrow> site_id \<Rightarrow> nat option \<Rightarrow> peer \<Rightarrow> bool" where
  "peer_ok D G i sub p \<longleftrightarrow>
     site_ok D G i p \<and> (\<exists>A N. local_ok (p_client p) A N \<and> channel_ok D G i sub p A)"

definition net_ok :: "utext \<Rightarrow> net \<Rightarrow> bool" where
  "net_ok text0 n \<longleftrightarrow>
     server_ok (start_cells text0) n \<and>
     (\<forall>i. n_peers n i = None \<longrightarrow> n_subs n i = None) \<and>
     (\<forall>i p. n_peers n i = Some p \<longrightarrow> peer_ok (start_cells text0) (n_ops n) i (n_subs n i) p)"

lemma net_okD:
  assumes "net_ok text0 n" and "n_peers n i = Some p"
  shows "server_ok (start_cells text0) n" and "peer_ok (start_cells text0) (n_ops n) i (n_subs n i) p"
  using assms by (auto simp: net_ok_def)

lemma channel_ok_cong:
  assumes "p_up p' = p_up p" and "p_down p' = p_down p"
    and "ce_seq (p_client p') = ce_seq (p_client p)" and "ce_sent (p_client p') = ce_sent (p_client p)"
  shows "channel_ok D G i sub p' A = channel_ok D G i sub p A"
  unfolding channel_ok_def Let_def assms ..

lemma set_peer_simps [simp]:
  "n_server (set_peer n i p) = n_server n" "n_text (set_peer n i p) = n_text n"
  "n_subs (set_peer n i p) = n_subs n" "n_ops (set_peer n i p) = n_ops n"
  "n_peers (set_peer n i p) j = (if j = i then Some p else n_peers n j)"
  by (simp_all add: set_peer_def n_ops_def)

lemma server_ok_set_peer [simp]: "server_ok D (set_peer n i p) = server_ok D n"
  by (simp add: server_ok_def)

lemma net_ok_set_peer:
  assumes "net_ok text0 n" and "peer_ok (start_cells text0) (n_ops n) i (n_subs n i) p"
  shows "net_ok text0 (set_peer n i p)"
  using assms by (auto simp: net_ok_def)

section \<open>Start and join\<close>

lemma start_ok: "net_ok text0 (net_start text0)"
proof -
  have "visible (start_cells text0) = text0" by (simp add: start_cells_def visible_new)
  then show ?thesis
    using represents_new [of text0]
    by (simp add: net_ok_def server_ok_def net_start_def n_ops_def server_engine_new_def
        history_new_def start_cells_def Let_def)
qed

lemma join_ok:
  assumes "net_ok text0 n" and "join_net n i = Some n'"
  shows "net_ok text0 n'"
proof -
  let ?D = "start_cells text0" and ?G = "n_ops n" and ?s = "n_server n"
  define p where "p = \<lparr>p_client = client_engine_new i (se_seq ?s) (se_doc ?s), p_buffer = n_text n,
    p_up = [Request_ops (se_seq ?s)], p_down = []\<rparr>"
  have new: "n_peers n i = None" and n': "n' = set_peer n i p"
    using assms(2) by (auto simp: join_net_def p_def Let_def split: option.splits)
  have sub: "n_subs n i = None"
    using assms(1) new by (simp add: net_ok_def)
  have s: "server_ok ?D n" using assms(1) by (simp add: net_ok_def)
  then have "site_ok ?D ?G i p"
    by (simp add: site_ok_def server_ok_def p_def client_engine_new_def history_new_def
        queue_ok_def doc_at_def Let_def)
  moreover have "local_ok (p_client p) [] []"
    by (simp add: local_ok_def p_def client_engine_new_def history_new_def)
  moreover have "channel_ok ?D ?G i (n_subs n i) p []"
    using s by (simp add: channel_ok_def sub p_def client_engine_new_def server_ok_def Let_def)
  ultimately have "peer_ok ?D ?G i (n_subs n i) p" by (auto simp: peer_ok_def)
  with assms(1) n' show ?thesis by (simp add: net_ok_set_peer)
qed

section \<open>Editing\<close>

lemma edit_ok:
  assumes "net_ok text0 n" and "n_peers n i = Some p" and "edit_fits e (p_buffer p)"
  shows "\<exists>n'. edit_net n i e g = Some n' \<and> net_ok text0 n'"
proof -
  let ?D = "start_cells text0" and ?G = "n_ops n" and ?c = "p_client p"
  let ?L = "h_local (ce_gh ?c)"
  note po = net_okD(2) [OF assms(1,2)]
  have so: "site_ok ?D ?G i p" using po by (simp add: peer_ok_def)
  note s = so [unfolded site_ok_def Let_def]
  let ?cs = "app_ops t_apply ?L (doc_at ?G ?D (ce_seq ?c))"
  have fits: "edit_fits e (visible ?cs)" using assms(3) s by simp
  from process_local_edit_ok [OF _ fits, of ?c g] s obtain c' o1 where l:
      "process_local_op ?c \<lparr>ef_op = e, ef_group_seq = g\<rparr> (ce_site_seq ?c + 1) = Some (c', Inr [own_instruction e])"
      "represents (ce_doc c') (t_apply o1 ?cs)" "op_agrees ?cs o1" "op_site o1 = i" "plain o1"
      "edit_view (own_instruction e) (visible ?cs) = Some (visible (t_apply o1 ?cs))"
      "h_local (ce_gh c') = ?L @ [new_local ?c o1 g]" "queue_ok (ce_gh c')"
      "ce_site c' = i" "ce_seq c' = ce_seq ?c" "ce_site_seq c' = ce_site_seq ?c + 1"
      "ce_sent c' = ce_sent ?c" by auto
  let ?p = "p\<lparr>p_client := c', p_buffer := visible (t_apply o1 ?cs)\<rparr>"
  have "edit_net n i e g = Some (set_peer n i ?p)"
    using assms(2) l(1,6) s represents_live_total [OF l(2)]
    by (simp add: edit_net_def editor_len_eq)
  moreover have "site_ok ?D ?G i ?p"
    using l s by (simp add: site_ok_def new_local_def)
  moreover obtain A N where "local_ok ?c A N" "channel_ok ?D ?G i (n_subs n i) p A"
    using po by (auto simp: peer_ok_def)
  then have "local_ok c' A (N @ [new_local ?c o1 g])" "channel_ok ?D ?G i (n_subs n i) ?p A"
    using l(7,10-12) channel_ok_cong [of ?p p ?D ?G i "n_subs n i" A]
    by (auto simp: local_ok_def new_local_def)
  ultimately show ?thesis
    using net_ok_set_peer [OF assms(1), of i ?p] unfolding peer_ok_def by fastforce
qed

section \<open>Sending\<close>

text \<open>Ops are sent only when nothing sent is outstanding.\<close>

lemma quiet_channel:
  assumes "channel_ok D G i sub p A" and "local_ok (p_client p) A N" and "prev_op_acked (p_client p)"
  shows "A = []"
proof (rule ccontr)
  let ?c = "p_client p"
  assume "A \<noteq> []"
  then obtain a A1 where A: "A = a # A1" by (cases A) auto
  with assms(2,3) have "fo_site_seq a = ce_sent ?c + 1"
    by (simp add: prev_op_acked_def local_ok_def)
  moreover have "fo_site_seq a \<le> ce_sent ?c" if "returning G i k (ce_sent ?c) A" for k
    using that A by (auto simp: returning_def)
  moreover have "fo_site_seq a \<le> ce_sent ?c" if "on_the_way D G i k q (ce_sent ?c) A co" for k q co
  proof -
    have "fo_site_seq a \<in> set (map fo_site_seq A)" using A by simp
    then have "fo_site_seq a \<in> set [Suc q ..< Suc (ce_sent ?c)]"
      using that by (simp only: on_the_way_def)
    then show ?thesis by auto
  qed
  ultimately show False
    using assms(1) A by (fastforce simp: channel_ok_def Let_def split: option.splits)
qed

lemma on_the_way_new:
  assumes "site_ok D G i p" and "foreign_ops i (drop (ce_seq (p_client p)) G)"
    and "local_ok (p_client p) [] N" and "N \<noteq> []"
  shows "on_the_way D G i (ce_seq (p_client p)) (ce_sent (p_client p)) (ce_site_seq (p_client p)) N
    \<lparr>co_doc = doc, co_context = ce_seq (p_client p), co_ops = N\<rparr>"
  using assms by (simp add: on_the_way_def site_ok_def local_ok_def Let_def)

lemma returning_nil:
  "returning G i k sent [] \<Longrightarrow> foreign_ops i (drop k G)"
  by (auto simp: returning_def)

lemma send_ok:
  assumes "net_ok text0 n" and "send_net n i doc = Some n'"
  shows "net_ok text0 n'"
proof -
  let ?D = "start_cells text0" and ?G = "n_ops n"
  obtain p where p: "n_peers n i = Some p" using assms(2) by (auto simp: send_net_def split: bind_splits)
  let ?c = "p_client p"
  note po = net_okD(2) [OF assms(1) p]
  obtain A N where a: "site_ok ?D ?G i p" "local_ok ?c A N" "channel_ok ?D ?G i (n_subs n i) p A"
    using po by (auto simp: peer_ok_def)
  have ack: "prev_op_acked ?c" and ne: "h_local (ce_gh ?c) \<noteq> []"
    using assms(2) p
    by (auto simp: send_net_def maybe_package_local_ops_def package_local_ops_def Let_def
        split: if_splits)
  have A: "A = []" by (rule quiet_channel [OF a(3,2) ack])
  with a(2) ne have N: "N \<noteq> []" "h_local (ce_gh ?c) = N" "local_ok ?c [] N" by (auto simp: local_ok_def)
  have seqs: "map fo_site_seq N = [Suc (ce_sent ?c) ..< Suc (ce_site_seq ?c)]"
    using N(3) by (simp add: local_ok_def)
  then have "[Suc (ce_sent ?c) ..< Suc (ce_site_seq ?c)] \<noteq> []" using N(1) by (metis map_is_Nil_conv)
  then have "last (map fo_site_seq N) = ce_site_seq ?c"
    unfolding seqs by (simp add: last_upt del: upt_Suc)
  then have lst: "fo_site_seq (last N) = ce_site_seq ?c" using N(1) by (simp add: last_map)
  let ?co = "\<lparr>co_doc = doc, co_context = ce_seq ?c, co_ops = N\<rparr>"
  let ?p = "p\<lparr>p_client := ?c\<lparr>ce_sent := ce_site_seq ?c\<rparr>, p_up := p_up p @ [Op_from_client ?co]\<rparr>"
  have n': "n' = set_peer n i ?p"
    using assms(2) p ack N lst
    by (simp add: send_net_def maybe_package_local_ops_def package_local_ops_def)
  have fo: "foreign_ops i (drop (ce_seq ?c) ?G)"
    using a(3) A returning_nil
    by (fastforce simp: channel_ok_def on_the_way_def Let_def split: option.splits)
  note w = on_the_way_new [OF a(1) fo N(3,1), of doc]
  have "\<not> on_the_way ?D ?G i k q s [] co" for k q s co by (auto simp: on_the_way_def)
  with a(3) A w fo have "channel_ok ?D ?G i (n_subs n i) ?p N"
    by (auto simp: channel_ok_def Let_def split: option.splits)
  moreover have "local_ok (p_client ?p) N []" using N(2) by (simp add: local_ok_def)
  moreover have "site_ok ?D ?G i ?p" using a(1) by (simp add: site_ok_def Let_def)
  ultimately have "peer_ok ?D ?G i (n_subs n i) ?p" by (auto simp: peer_ok_def)
  with net_ok_set_peer [OF assms(1)] n' show ?thesis by simp
qed

section \<open>Serving\<close>

text \<open>The request for the ops after the snapshot.\<close>

lemma subscribe_ok:
  assumes "net_ok text0 n" and "n_peers n i = Some p" and "p_up p = Request_ops a # rest"
  shows "\<exists>n'. serve_net n i = Some n' \<and> net_ok text0 n'"
proof -
  let ?D = "start_cells text0" and ?G = "n_ops n" and ?c = "p_client p"
  note po = net_okD(2) [OF assms(1,2)]
  obtain A N where a: "site_ok ?D ?G i p" "local_ok ?c A N" "channel_ok ?D ?G i (n_subs n i) p A"
    using po by (auto simp: peer_ok_def)
  have sub: "n_subs n i = None" and ak: "a = ce_seq ?c" and dn: "p_down p = []"
    and fo: "foreign_ops i (drop (ce_seq ?c) ?G)"
    using a(3) assms(3) by (auto simp: channel_ok_def Let_def split: option.splits)
  have k: "ce_seq ?c \<le> length ?G" using a(1) by (simp add: site_ok_def Let_def)
  then have "global_ops_after (n_server n) a = drop (ce_seq ?c) ?G"
    using ak by (auto simp: global_ops_after_def ops_after_def n_ops_def)
  then obtain p' where p': "p' = p\<lparr>p_up := rest, p_down := drop (ce_seq ?c) ?G\<rparr>"
      "serve_net n i = Some ((set_peer n i p')\<lparr>n_subs := (n_subs n)(i := Some 0)\<rparr>)"
    using assms(2,3) dn by (simp add: serve_net_def)
  have "channel_ok ?D ?G i (Some 0) p' A"
    using a(3) assms(3) sub ak returning_none [OF fo] by (auto simp: channel_ok_def p'(1) Let_def)
  moreover have "site_ok ?D ?G i p'" "local_ok (p_client p') A N"
    using a(1,2) by (simp_all add: site_ok_def p'(1) Let_def)
  ultimately have pk: "peer_ok ?D ?G i (Some 0) p'" by (auto simp: peer_ok_def)
  let ?n = "(set_peer n i p')\<lparr>n_subs := (n_subs n)(i := Some 0)\<rparr>"
  have "n_ops ?n = ?G" "server_ok ?D ?n = server_ok ?D n"
    by (simp_all add: n_ops_def set_peer_def server_ok_def)
  with pk assms(1) have "net_ok text0 ?n" by (auto simp: net_ok_def)
  with p'(2) show ?thesis by blast
qed

text \<open>The other sites, when the host's history grows by foreign ops.\<close>

lemma site_ok_extend:
  "site_ok D G i p \<Longrightarrow> site_ok D (G @ P) i p"
  by (auto simp: site_ok_def doc_at_extend Let_def)

lemma peer_ok_extend:
  assumes "peer_ok D G i sub p" and "foreign_ops i P"
  shows "peer_ok D (G @ P) i sub (if sub \<noteq> None then p\<lparr>p_down := p_down p @ P\<rparr> else p)"
proof -
  let ?p = "if sub \<noteq> None then p\<lparr>p_down := p_down p @ P\<rparr> else p"
  obtain A N where a: "site_ok D G i p" "local_ok (p_client p) A N" "channel_ok D G i sub p A"
    using assms(1) by (auto simp: peer_ok_def)
  have k: "ce_seq (p_client p) \<le> length G" using a(1) by (simp add: site_ok_def Let_def)
  have "channel_ok D (G @ P) i sub ?p A"
    using a(3) k assms(2) returning_extend [OF _ k assms(2)] on_the_way_extend [OF _ k assms(2)]
    by (cases sub) (auto simp: channel_ok_def Let_def)
  moreover have "site_ok D (G @ P) i ?p"
    using site_ok_extend [OF a(1), of P] by (simp add: site_ok_def)
  ultimately show ?thesis using a(2) by (auto simp: peer_ok_def)
qed

lemma broadcast_simps [simp]:
  "n_server (broadcast n P) = n_server n" "n_text (broadcast n P) = n_text n"
  "n_subs (broadcast n P) = n_subs n"
  "n_peers (broadcast n P) j = map_option
     (\<lambda>p. if n_subs n j \<noteq> None then p\<lparr>p_down := p_down p @ P\<rparr> else p) (n_peers n j)"
  by (auto simp: broadcast_def split: option.splits)

lemma own_foreign: "own_ops i P \<Longrightarrow> j \<noteq> i \<Longrightarrow> foreign_ops j P"
  by (auto simp: own_ops_def foreign_ops_def)

text \<open>The ops of one message as the host has transformed them: they fit the host's document.\<close>

lemma host_fits:
  assumes "server_ok D n" and "on_the_way D (n_ops n) i k q sent A co" and "k \<le> length (n_ops n)"
    and "server_process_ops (n_server n) (co_ops co) (co_context co) = (P, s)"
  shows "represents (se_doc s) (app_ops t_apply (n_ops n) D)"
    and "n_text n = visible (app_ops t_apply (n_ops n) D)"
    and "fits_ops t_apply op_agrees P (app_ops t_apply (n_ops n) D)" and "own_ops i P"
    and "returning (n_ops n @ P) i k sent A"
proof -
  note so = assms(1) [unfolded server_ok_def Let_def]
  have c: "co_context co \<le> length (h_global (se_gh (n_server n)))"
    using assms(2,3) by (simp add: on_the_way_def n_ops_def)
  note sp = server_process_ok [OF assms(4) c, folded n_ops_def]
  have G: "fits_ops t_apply op_agrees (n_ops n) D" "\<forall>g \<in> set (n_ops n). plain (fo_op g)" using so by simp_all
  note fit = served_fits [OF assms(2) G sp(1)]
  show "represents (se_doc s) (app_ops t_apply (n_ops n) D)" "n_text n = visible (app_ops t_apply (n_ops n) D)"
    using so sp(6) by simp_all
  show "fits_ops t_apply op_agrees P (app_ops t_apply (n_ops n) D)" "own_ops i P" by (rule fit)+
  show "returning (n_ops n @ P) i k sent A" by (rule on_the_way_served [OF assms(2,3) sp(1,2)])
qed

text \<open>What the host's engine and buffer do with them.\<close>

lemma host_step:
  assumes "server_ok D n" and "on_the_way D (n_ops n) i k q sent A co" and "k \<le> length (n_ops n)"
    and "server_process_ops (n_server n) (co_ops co) (co_context co) = (P, s)"
  shows "\<exists>instrs d v. run_conv convert_internal_op_and_apply (se_doc s) P = Some (instrs, d) \<and>
    view_edits instrs (n_text n) = Some v \<and> editor_len d = length v \<and>
    h_global (se_gh s) = n_ops n @ P \<and> own_ops i P \<and> returning (n_ops n @ P) i k sent A \<and>
    (\<forall>n'. n_server n' = s\<lparr>se_doc := d\<rparr> \<longrightarrow> n_text n' = v \<longrightarrow> server_ok D n')"
proof -
  let ?G = "n_ops n"
  note so = assms(1) [unfolded server_ok_def Let_def] and hf = host_fits [OF assms]
  have c: "co_context co \<le> length (h_global (se_gh (n_server n)))"
    using assms(2,3) by (simp add: on_the_way_def n_ops_def)
  note sp = server_process_ok [OF assms(4) c, folded n_ops_def]
  from idoc.run_ok [OF hf(1,3)] hf(2) obtain instrs d where r:
      "run_conv convert_internal_op_and_apply (se_doc s) P = Some (instrs, d)"
      "represents d (app_ops t_apply P (app_ops t_apply ?G D))"
      "view_edits instrs (n_text n) = Some (visible (app_ops t_apply P (app_ops t_apply ?G D)))"
    by auto
  have seqs: "fo_seq ((?G @ P) ! j) = Some (Suc j)" if "j < length ?G + length P" for j
    using that so sp(3) sp(7) [of "j - length ?G"] by (cases "j < length ?G") (auto simp: nth_append)
  have "\<forall>g \<in> set P. plain (fo_op g)" using hf(4) by (simp add: own_ops_def)
  with so r hf(3) seqs sp(3-5) have "server_ok D n'"
    if "n_server n' = s\<lparr>se_doc := d\<rparr>" "n_text n' = visible (app_ops t_apply P (app_ops t_apply ?G D))" for n'
    using that by (auto simp: server_ok_def Let_def n_ops_def)
  then show ?thesis
    using r hf(4,5) sp(4) represents_live_total [OF r(2)] by (simp add: editor_len_eq)
qed

lemma serve_ops_ok:
  assumes "net_ok text0 n" and "n_peers n i = Some p" and "p_up p = Op_from_client co # rest"
  shows "\<exists>n'. serve_net n i = Some n' \<and> net_ok text0 n'"
proof -
  let ?D = "start_cells text0" and ?G = "n_ops n" and ?c = "p_client p"
  note po = net_okD(2) [OF assms(1,2)] and so = net_okD(1) [OF assms(1,2)]
  obtain A N where a: "site_ok ?D ?G i p" "local_ok ?c A N" "channel_ok ?D ?G i (n_subs n i) p A"
    using po by (auto simp: peer_ok_def)
  obtain q where sub: "n_subs n i = Some q" and rest: "rest = []" and dn: "p_down p = drop (ce_seq ?c) ?G"
    and w: "on_the_way ?D ?G i (ce_seq ?c) q (ce_sent ?c) A co"
    using a(3) assms(3) by (auto simp: channel_ok_def Let_def split: option.splits)
  have k: "ce_seq ?c \<le> length ?G" using a(1) by (simp add: site_ok_def Let_def)
  obtain P s where sp: "server_process_ops (n_server n) (co_ops co) (co_context co) = (P, s)" by fastforce
  from host_step [OF so w k sp] obtain instrs d v where h:
      "run_conv convert_internal_op_and_apply (se_doc s) P = Some (instrs, d)"
      "view_edits instrs (n_text n) = Some v" "editor_len d = length v"
      "h_global (se_gh s) = ?G @ P" "own_ops i P" "returning (?G @ P) i (ce_seq ?c) (ce_sent ?c) A"
      "\<And>n'. n_server n' = s\<lparr>se_doc := d\<rparr> \<Longrightarrow> n_text n' = v \<Longrightarrow> server_ok ?D n'" by blast
  have seqs: "map fo_site_seq (co_ops co) = [Suc q ..< Suc (ce_sent ?c)]" and ne: "co_ops co \<noteq> []"
    using w by (simp_all add: on_the_way_def)
  then have lt: "Suc q < Suc (ce_sent ?c)" by (metis map_is_Nil_conv upt_eq_Nil_conv not_le)
  have hd: "fo_site_seq (co_ops co ! 0) = q + 1"
    using arg_cong [OF seqs, of hd] ne lt by (simp add: hd_map hd_conv_nth del: upt_Suc)
  have lst: "fo_site_seq (last (co_ops co)) = ce_sent ?c"
    using arg_cong [OF seqs, of last] ne lt by (simp add: last_map last_upt del: upt_Suc)
  let ?p = "p\<lparr>p_up := rest\<rparr>"
  let ?n1 = "(set_peer n i ?p)\<lparr>n_server := s\<lparr>se_doc := d\<rparr>, n_text := v,
    n_subs := (n_subs n)(i := Some (ce_sent ?c))\<rparr>"
  let ?n = "broadcast ?n1 P"
  have n': "serve_net n i = Some ?n"
    using assms(2,3) sub hd ne lst sp h(1-3) by (simp add: serve_net_def)
  have G': "n_ops ?n = ?G @ P" using h(4) by (simp add: n_ops_def)
  have "server_ok ?D ?n" by (rule h(7)) simp_all
  moreover have "n_subs ?n j = None" if "n_peers ?n j = None" for j
    using that assms(1,2) by (auto simp: set_peer_def net_ok_def split: if_splits)
  moreover have "peer_ok ?D (?G @ P) j (n_subs ?n j) p'" if at: "n_peers ?n j = Some p'" for j p'
  proof (cases "j = i")
    case True
    let ?p' = "?p\<lparr>p_down := p_down p @ P\<rparr>"
    have p': "p' = ?p'" using at True by (simp add: set_peer_def)
    have "channel_ok ?D (?G @ P) i (Some (ce_sent ?c)) ?p' A"
      using h(6) rest dn k by (simp add: channel_ok_def Let_def)
    moreover have "site_ok ?D (?G @ P) i ?p'" using site_ok_extend [OF a(1), of P] by (simp add: site_ok_def Let_def)
    ultimately show ?thesis using a(2) True p' by (auto simp: peer_ok_def)
  next
    case False
    then obtain pj where pj: "n_peers n j = Some pj"
        "p' = (if n_subs n j \<noteq> None then pj\<lparr>p_down := p_down pj @ P\<rparr> else pj)"
      using at False by (auto simp: set_peer_def)
    from peer_ok_extend [OF net_okD(2) [OF assms(1) pj(1)] own_foreign [OF h(5) False]] pj(2) False
    show ?thesis by simp
  qed
  ultimately have "net_ok text0 ?n" by (simp add: net_ok_def G')
  with n' show ?thesis by blast
qed

section \<open>Taking an op\<close>

lemma local_ok_split:
  assumes "local_ok c A N" and "h_local (ce_gh c') = bump_deltas 0 (snd (symmetric_transform transform f (A @ N)))"
    and "ce_sent c' = ce_sent c" and "ce_site_seq c' = ce_site_seq c"
  shows "\<exists>A2 N2. local_ok c' A2 N2 \<and>
    map fo_op A2 = map fo_op (snd (symmetric_transform transform f A)) \<and>
    map fo_site_seq A2 = map fo_site_seq A"
proof -
  let ?S = "snd (symmetric_transform transform f (A @ N))"
  let ?B = "bump_deltas 0 ?S"
  let ?A2 = "take (length A) ?B" and ?N2 = "drop (length A) ?B"
  have seqs: "map fo_site_seq ?S = map fo_site_seq (A @ N)"
    by (rule site_seqs_of_meta) simp
  have split: "?S = snd (symmetric_transform transform f A) @
      snd (symmetric_transform transform (fst (symmetric_transform transform f A)) N)"
    by (simp add: symmetric_transform_append case_prod_beta Let_def)
  have "map fo_op ?A2 = take (length A) (map fo_op ?S)" by (simp flip: take_map)
  then have ops: "map fo_op ?A2 = map fo_op (snd (symmetric_transform transform f A))"
    by (simp add: split)
  have "map fo_site_seq ?A2 = take (length A) (map fo_site_seq ?S)" by (simp flip: take_map)
  then have sa: "map fo_site_seq ?A2 = map fo_site_seq A" unfolding seqs by simp
  have "map fo_site_seq ?N2 = drop (length A) (map fo_site_seq ?S)" by (simp flip: drop_map)
  then have "map fo_site_seq ?N2 = map fo_site_seq N" unfolding seqs by simp
  then have "local_ok c' ?A2 ?N2" using assms by (simp add: local_ok_def)
  with ops sa show ?thesis by blast
qed

lemma take_own_ok:
  assumes "net_ok text0 n" and "n_peers n i = Some p" and "p_down p = f # rest"
    and "n_subs n i = Some q" and "op_site (fo_op f) = i"
  shows "\<exists>n'. take_net n i = Some n' \<and> net_ok text0 n'"
proof -
  let ?D = "start_cells text0" and ?G = "n_ops n" and ?c = "p_client p"
  let ?k = "ce_seq ?c"
  note po = net_okD(2) [OF assms(1,2)] and so = net_okD(1) [OF assms(1,2)]
  obtain A N where a: "site_ok ?D ?G i p" "local_ok ?c A N" "channel_ok ?D ?G i (Some q) p A"
    using po assms(4) by (auto simp: peer_ok_def)
  have dn: "f # rest = drop ?k ?G" using a(3) assms(3) by (simp add: channel_ok_def Let_def)
  then have k: "?k < length ?G" by (metis drop_eq_Nil list.distinct(1) not_le)
  with dn have f: "f = ?G ! ?k" "rest = drop (Suc ?k) ?G" by (simp_all flip: Cons_nth_drop_Suc)
  note s = a(1) [unfolded site_ok_def Let_def]
  have "\<not> on_the_way ?D ?G i ?k q s A co" for q s co
    using on_the_way_foreign [OF _ k] assms(5) unfolding f(1) by metis
  then have ret: "p_up p = []" "q = ce_sent ?c" "returning ?G i ?k (ce_sent ?c) A"
    using a(3) by (auto simp: channel_ok_def Let_def)
  from returning_own [OF ret(3) k] assms(5) f(1) obtain b A1 where b: "A = b # A1" "fo_op b = fo_op f"
      "fo_site_seq b = fo_site_seq f" "returning ?G i (Suc ?k) (ce_sent ?c) A1" by auto
  have L: "h_local (ce_gh ?c) = b # A1 @ N" using a(2) b(1) by (simp add: local_ok_def)
  have seq: "fo_seq f = Some (?k + 1)" using so k f(1) by (simp add: server_ok_def Let_def)
  have site: "fat_site f = ce_site ?c" "fat_site b = ce_site ?c" "queue_ok (ce_gh ?c)"
    using s assms(5) b(2) by (simp_all add: fat_site_def)
  from process_own_op_ok [OF seq site(1) L site(2) b(3) site(3)] obtain h where h:
      "process_remote_op ?c f = Some (?c\<lparr>ce_seq := ?k + 1, ce_gh := h\<rparr>, Inr None)"
      "h_local h = A1 @ N" "queue_ok h" by auto
  let ?p = "p\<lparr>p_client := ?c\<lparr>ce_seq := ?k + 1, ce_gh := h\<rparr>, p_down := rest\<rparr>"
  have n': "take_net n i = Some (set_peer n i ?p)"
    using assms(2,3) h(1) by (simp add: take_net_def)
  have at: "doc_at ?G ?D (Suc ?k) = t_apply (fo_op b) (doc_at ?G ?D ?k)"
    using k f(1) b(2) by (simp add: doc_at_def take_Suc_nth)
  have "site_ok ?D ?G i ?p" using s k L h(2,3) at by (simp add: site_ok_def Let_def)
  moreover have "local_ok (p_client ?p) A1 N" using a(2) h(2) by (simp add: local_ok_def)
  moreover have "channel_ok ?D ?G i (n_subs n i) ?p A1"
    using ret b(4) f(2) assms(4) by (simp add: channel_ok_def Let_def)
  ultimately have "peer_ok ?D ?G i (n_subs n i) ?p" by (auto simp: peer_ok_def)
  with net_ok_set_peer [OF assms(1)] n' show ?thesis by blast
qed

lemma take_other_ok:
  assumes "net_ok text0 n" and "n_peers n i = Some p" and "p_down p = f # rest"
    and "n_subs n i = Some q" and "op_site (fo_op f) \<noteq> i"
  shows "\<exists>n'. take_net n i = Some n' \<and> net_ok text0 n'"
proof -
  let ?D = "start_cells text0" and ?G = "n_ops n" and ?c = "p_client p"
  let ?k = "ce_seq ?c" and ?L = "h_local (ce_gh (p_client p))"
  note po = net_okD(2) [OF assms(1,2)] and so = net_okD(1) [OF assms(1,2), unfolded server_ok_def Let_def]
  obtain A N where a: "site_ok ?D ?G i p" "local_ok ?c A N" "channel_ok ?D ?G i (Some q) p A"
    using po assms(4) by (auto simp: peer_ok_def)
  have dn: "f # rest = drop ?k ?G" using a(3) assms(3) by (simp add: channel_ok_def Let_def)
  then have k: "?k < length ?G" by (metis drop_eq_Nil list.distinct(1) not_le)
  with dn have f: "f = ?G ! ?k" "rest = drop (Suc ?k) ?G" by (simp_all flip: Cons_nth_drop_Suc)
  note s = a(1) [unfolded site_ok_def Let_def]
  have L: "?L = A @ N" "own_ops i A" using a(2) s by (auto simp: local_ok_def)
  obtain f' ls where sym: "symmetric_transform transform f ?L = (f', ls)" by fastforce
  have seq: "fo_seq f = Some (?k + 1)" and site: "fat_site f \<noteq> ce_site ?c"
    using so s k f(1) assms(5) by (simp_all add: fat_site_def)
  have pl: "plain (fo_op f)" using so k f(1) by simp
  have "?G = take ?k ?G @ f # rest" using k f by (simp add: id_take_nth_drop)
  then have agree: "op_agrees (doc_at ?G ?D ?k) (fo_op f)"
    using so by (metis doc_at_def fits_ops.simps(2) fits_ops_append)
  have conc: "\<forall>l \<in> set ?L. concurrent_ok (fo_op f) (fo_op l)"
    using s pl assms(5) by (auto simp: own_ops_def intro!: plain_concurrent)
  from process_other_op_ok [OF seq site _ agree _ conc _ sym] s obtain c' lean where c':
      "process_remote_op ?c f = Some (c', Inr (Some (lean, ?k + 1)))"
      "h_local (ce_gh c') = bump_deltas 0 ls" "queue_ok (ce_gh c')" "ce_site c' = i"
      "ce_seq c' = ?k + 1" "ce_site_seq c' = ce_site_seq ?c" "ce_sent c' = ce_sent ?c"
      "represents (ce_doc c') (app_ops t_apply ls (t_apply (fo_op f) (doc_at ?G ?D ?k)))"
      "fits_ops t_apply op_agrees ls (t_apply (fo_op f) (doc_at ?G ?D ?k))"
      "edit_view (el_op lean) (p_buffer p) =
        Some (visible (app_ops t_apply ls (t_apply (fo_op f) (doc_at ?G ?D ?k))))" by auto
  have at: "doc_at ?G ?D (Suc ?k) = t_apply (fo_op f) (doc_at ?G ?D ?k)"
    using k f(1) by (simp add: doc_at_def take_Suc_nth)
  let ?v = "visible (app_ops t_apply ls (doc_at ?G ?D (Suc ?k)))"
  let ?p = "p\<lparr>p_client := c', p_buffer := ?v, p_down := rest\<rparr>"
  have n': "take_net n i = Some (set_peer n i ?p)"
    using assms(2,3) c'(1,10) represents_live_total [OF c'(8)]
    by (simp add: take_net_def editor_len_eq at)
  have ls: "ls = snd (symmetric_transform transform f (A @ N))" using sym L(1) by simp
  have bump: "app_ops t_apply (bump_deltas 0 ls) d = app_ops t_apply ls d"
    "fits_ops t_apply op_agrees (bump_deltas 0 ls) d = fits_ops t_apply op_agrees ls d" for d
    by (rule app_ops_cong fits_ops_cong, simp)+
  have own: "own_ops i (bump_deltas 0 ls)"
    using own_ops_cong [of "bump_deltas 0 ls" ls i] L s by (simp add: ls)
  have "site_ok ?D ?G i ?p"
    using s k c'(2-5,8,9) own by (simp add: site_ok_def Let_def bump at)
  moreover from local_ok_split [OF a(2), of c' f] c'(2,6,7) ls obtain A2 N2 where A2:
      "local_ok c' A2 N2" "map fo_op A2 = map fo_op (snd (symmetric_transform transform f A))"
      "map fo_site_seq A2 = map fo_site_seq A" by auto
  moreover have "channel_ok ?D ?G i (n_subs n i) ?p A2"
    using a(3) returning_other [OF _ k _ L(2)] on_the_way_other [OF _ k] A2(2,3) assms(4,5) f c'(5,7)
    by (auto simp: channel_ok_def Let_def)
  ultimately have "peer_ok ?D ?G i (n_subs n i) ?p" by (auto simp: peer_ok_def)
  with net_ok_set_peer [OF assms(1)] n' show ?thesis by blast
qed

lemma take_ok:
  assumes "net_ok text0 n" and "n_peers n i = Some p" and "p_down p \<noteq> []"
  shows "\<exists>n'. take_net n i = Some n' \<and> net_ok text0 n'"
proof -
  obtain f rest where f: "p_down p = f # rest" using assms(3) by (cases "p_down p") auto
  have "n_subs n i \<noteq> None"
    using net_okD(2) [OF assms(1,2)] assms(3)
    by (auto simp: peer_ok_def channel_ok_def Let_def split: option.splits)
  then obtain q where "n_subs n i = Some q" by auto
  with take_own_ok [OF assms(1,2) f] take_other_ok [OF assms(1,2) f] show ?thesis by blast
qed

section \<open>Reachable sessions\<close>

lemma serve_ok:
  assumes "net_ok text0 n" and "n_peers n i = Some p" and "p_up p \<noteq> []"
  shows "\<exists>n'. serve_net n i = Some n' \<and> net_ok text0 n'"
proof -
  obtain m rest where "p_up p = m # rest" using assms(3) by (cases "p_up p") auto
  with subscribe_ok [OF assms(1,2)] serve_ops_ok [OF assms(1,2)] show ?thesis by (cases m) auto
qed

lemma step_ok:
  assumes "net_ok text0 n" and "net_step n n'"
  shows "net_ok text0 n'"
  using assms(2)
proof (cases rule: net_step.cases)
  case (Join i)
  with join_ok [OF assms(1)] show ?thesis by simp
next
  case (Edit i p e g)
  with edit_ok [OF assms(1), of i p e g] show ?thesis by auto
next
  case (Send i doc)
  with send_ok [OF assms(1)] show ?thesis by blast
next
  case (Serve i)
  then obtain p where p: "n_peers n i = Some p" "p_up p \<noteq> []"
    by (auto simp: serve_net_def split: bind_splits list.splits)
  with serve_ok [OF assms(1) p] Serve show ?thesis by auto
next
  case (Take i)
  then obtain p where p: "n_peers n i = Some p" "p_down p \<noteq> []"
    by (auto simp: take_net_def split: bind_splits list.splits)
  with take_ok [OF assms(1) p] Take show ?thesis by auto
qed

lemma reachable_ok: "reachable text0 n \<Longrightarrow> net_ok text0 n"
  by (induction rule: reachable.induct) (auto intro: start_ok step_ok)

text \<open>At rest: every message has been handled and no site has unacknowledged ops.\<close>

definition at_rest :: "net \<Rightarrow> bool" where
  "at_rest n \<longleftrightarrow> (\<forall>i p. n_peers n i = Some p \<longrightarrow>
     p_up p = [] \<and> p_down p = [] \<and> pending_local_ops (p_client p) = 0)"

lemma site_converged:
  assumes "net_ok text0 n" and "n_peers n i = Some p"
    and r: "p_up p = []" "p_down p = []" "pending_local_ops (p_client p) = 0"
  shows "p_buffer p = n_text n" and "flat (ranges (ce_doc (p_client p))) = flat (ranges (se_doc (n_server n)))"
proof -
  let ?D = "start_cells text0" and ?G = "n_ops n" and ?c = "p_client p"
  note po = net_okD(2) [OF assms(1,2)] and so = net_okD(1) [OF assms(1,2), unfolded server_ok_def Let_def]
  have l: "h_local (ce_gh ?c) = []" using r(3) by (simp add: pending_local_ops_def)
  obtain A where a: "site_ok ?D ?G i p" "channel_ok ?D ?G i (n_subs n i) p A"
    using po by (auto simp: peer_ok_def)
  have "drop (ce_seq ?c) ?G = []"
    using a(2) r by (auto simp: channel_ok_def Let_def split: option.splits)
  then have "doc_at ?G ?D (ce_seq ?c) = app_ops t_apply ?G ?D" by (simp add: doc_at_def)
  with a(1) so l show "p_buffer p = n_text n"
    and "flat (ranges (ce_doc ?c)) = flat (ranges (se_doc (n_server n)))"
    by (simp_all add: site_ok_def represents_def Let_def)
qed

lemma rest_converged:
  assumes "net_ok text0 n" and "at_rest n" and "n_peers n i = Some p"
  shows "p_buffer p = n_text n" and "flat (ranges (ce_doc (p_client p))) = flat (ranges (se_doc (n_server n)))"
  using site_converged [OF assms(1,3)] assms(2,3) by (simp_all add: at_rest_def)

lemma at_rest_joined:
  assumes "acts as (net_start s) = Some n"
    and "\<forall>i \<in> joined as. case n_peers n i of
      Some p \<Rightarrow> p_up p = [] \<and> p_down p = [] \<and> pending_local_ops (p_client p) = 0 | None \<Rightarrow> True"
  shows "at_rest n"
proof -
  have "dom (n_peers n) \<subseteq> joined as"
    using dom_acts [OF assms(1)] by (simp add: net_start_def)
  with assms(2) show ?thesis by (fastforce simp: at_rest_def dom_def split: option.splits)
qed

section \<open>No session is stuck\<close>

text \<open>The steps that need no editor: sending, serving and taking.\<close>

definition delivery :: "net \<Rightarrow> net \<Rightarrow> bool" where
  "delivery n n' \<longleftrightarrow>
     (\<exists>i doc. send_net n i doc = Some n' \<or> serve_net n i = Some n' \<or> take_net n i = Some n')"

lemma quiet_send:
  assumes "net_ok text0 n" and "n_peers n i = Some p" and "p_up p = []" and "p_down p = []"
    and "pending_local_ops (p_client p) \<noteq> 0"
  shows "\<exists>n'. send_net n i doc = Some n'"
proof -
  let ?D = "start_cells text0" and ?G = "n_ops n" and ?c = "p_client p"
  obtain A N where a: "local_ok ?c A N" "channel_ok ?D ?G i (n_subs n i) p A"
    using net_okD(2) [OF assms(1,2)] by (auto simp: peer_ok_def)
  have r: "returning ?G i (ce_seq ?c) (ce_sent ?c) A" "drop (ce_seq ?c) ?G = []"
    using a(2) assms(3,4) by (auto simp: channel_ok_def Let_def split: option.splits)
  then obtain A' where "A' = []" "map fo_site_seq A' = map fo_site_seq A"
    by (auto simp: returning_def)
  then have "A = []" by simp
  with a(1) assms(5) have N: "h_local (ce_gh ?c) = N" "N \<noteq> []"
      "map fo_site_seq N = [Suc (ce_sent ?c) ..< Suc (ce_site_seq ?c)]"
    by (auto simp: local_ok_def pending_local_ops_def)
  obtain f fs where f: "N = f # fs" using N(2) by (cases N) auto
  have "fo_site_seq f = ce_sent ?c + 1"
    using N(3) f by (cases "ce_sent ?c < ce_site_seq ?c") (auto simp: upt_conv_Cons simp del: upt_Suc)
  with N(1) f assms(2) show ?thesis
    by (simp add: send_net_def maybe_package_local_ops_def prev_op_acked_def package_local_ops_def)
qed

lemma not_stuck:
  assumes "net_ok text0 n" and "\<not> at_rest n"
  shows "\<exists>n'. delivery n n'"
proof -
  obtain i p where p: "n_peers n i = Some p"
      "p_up p \<noteq> [] \<or> p_down p \<noteq> [] \<or> pending_local_ops (p_client p) \<noteq> 0"
    using assms(2) by (auto simp: at_rest_def)
  consider "p_down p \<noteq> []" | "p_up p \<noteq> []"
    | "p_up p = []" "p_down p = []" "pending_local_ops (p_client p) \<noteq> 0" using p(2) by blast
  then show ?thesis
    using take_ok [OF assms(1) p(1)] serve_ok [OF assms(1) p(1)] quiet_send [OF assms(1) p(1)]
    by cases (unfold delivery_def, blast+)
qed

end
