(* ===== verification/Liveness.thy ===== *)
theory Liveness
  imports Convergence
begin

text \<open>
  Delivery ends. Every op still to be sequenced is counted, once for each site that has to take
  it; sending, serving and taking each lower a measure, so once the editors pause, delivering
  what is pending brings the session to rest, whatever the order.
\<close>

section \<open>The measure\<close>

definition unsent :: "client_engine \<Rightarrow> nat" where
  "unsent c = length (filter (\<lambda>n. ce_sent c < n) (map fo_site_seq (h_local (ce_gh c))))"

fun up_ops :: "up_msg \<Rightarrow> nat" where
  "up_ops (Request_ops _) = 0"
| "up_ops (Op_from_client co) = length (co_ops co)"

fun up_weight :: "up_msg \<Rightarrow> nat" where
  "up_weight (Request_ops _) = 1"
| "up_weight (Op_from_client co) = length (co_ops co)"

definition to_come :: "peer \<Rightarrow> nat" where
  "to_come p = unsent (p_client p) + sum_list (map up_ops (p_up p))"

definition total_ops :: "net \<Rightarrow> nat" where
  "total_ops n = length (n_ops n) + (\<Sum>i \<in> dom (n_peers n). to_come (the (n_peers n i)))"

definition peer_weight :: "nat \<Rightarrow> peer \<Rightarrow> nat" where
  "peer_weight T p = (T - ce_seq (p_client p)) + 2 * unsent (p_client p) + sum_list (map up_weight (p_up p))"

definition net_weight :: "net \<Rightarrow> nat" where
  "net_weight n = (\<Sum>i \<in> dom (n_peers n). peer_weight (total_ops n) (the (n_peers n i)))"

text \<open>A step of site \<open>i\<close> changes no other site's engine or messages to the host.\<close>

definition only_at :: "site_id \<Rightarrow> peer \<Rightarrow> peer \<Rightarrow> net \<Rightarrow> net \<Rightarrow> bool" where
  "only_at i p p' n n' \<longleftrightarrow>
     n_peers n i = Some p \<and> n_peers n' i = Some p' \<and> dom (n_peers n') = dom (n_peers n) \<and>
     (\<forall>j. j \<noteq> i \<longrightarrow> map_option (\<lambda>p. (p_client p, p_up p)) (n_peers n' j) =
                   map_option (\<lambda>p. (p_client p, p_up p)) (n_peers n j))"

lemma only_at_other:
  assumes "only_at i p p' n n'" and "j \<in> dom (n_peers n) - {i}"
  shows "p_client (the (n_peers n' j)) = p_client (the (n_peers n j))"
    and "p_up (the (n_peers n' j)) = p_up (the (n_peers n j))"
proof -
  obtain q where q: "n_peers n j = Some q" using assms(2) by blast
  have "map_option (\<lambda>p. (p_client p, p_up p)) (n_peers n' j) =
      map_option (\<lambda>p. (p_client p, p_up p)) (n_peers n j)"
    using assms by (auto simp: only_at_def)
  with q show "p_client (the (n_peers n' j)) = p_client (the (n_peers n j))"
    and "p_up (the (n_peers n' j)) = p_up (the (n_peers n j))" by auto
qed

lemma sum_only_at:
  assumes "only_at i p p' n n'" and "finite (dom (n_peers n))"
    and "\<And>q q'. p_client q' = p_client q \<Longrightarrow> p_up q' = p_up q \<Longrightarrow> w q' = w q"
  shows "(\<Sum>j \<in> dom (n_peers n'). w (the (n_peers n' j))) + w p =
    (\<Sum>j \<in> dom (n_peers n). (w (the (n_peers n j)) :: nat)) + w p'"
proof -
  let ?D = "dom (n_peers n)"
  have i: "i \<in> ?D" "n_peers n i = Some p" "n_peers n' i = Some p'" "dom (n_peers n') = ?D"
    using assms(1) by (auto simp: only_at_def)
  have "(\<Sum>j \<in> ?D - {i}. w (the (n_peers n' j))) = (\<Sum>j \<in> ?D - {i}. w (the (n_peers n j)))"
    by (rule sum.cong [OF refl]) (use only_at_other [OF assms(1)] assms(3) in blast)
  with i show ?thesis
    by (simp add: sum.remove [OF assms(2) i(1)])
qed

lemma weight_decreases:
  assumes "only_at i p p' n n'" and "finite (dom (n_peers n))" and "total_ops n' = total_ops n"
    and "peer_weight (total_ops n) p' < peer_weight (total_ops n) p"
  shows "net_weight n' < net_weight n"
proof -
  have "net_weight n' + peer_weight (total_ops n) p = net_weight n + peer_weight (total_ops n) p'"
    unfolding net_weight_def assms(3)
    by (rule sum_only_at [OF assms(1,2)]) (simp add: peer_weight_def)
  with assms(4) show ?thesis by linarith
qed

lemma total_same:
  assumes "only_at i p p' n n'" and "finite (dom (n_peers n))"
    and "length (n_ops n') + to_come p' = length (n_ops n) + to_come p"
  shows "total_ops n' = total_ops n"
proof -
  have "(\<Sum>j \<in> dom (n_peers n'). to_come (the (n_peers n' j))) + to_come p =
      (\<Sum>j \<in> dom (n_peers n). to_come (the (n_peers n j))) + to_come p'"
    by (rule sum_only_at [OF assms(1,2)]) (simp add: to_come_def)
  with assms(3) show ?thesis by (simp add: total_ops_def)
qed

lemma only_at_set: "n_peers n i = Some p \<Longrightarrow> only_at i p p' n (set_peer n i p')"
  by (auto simp: only_at_def)

section \<open>Each delivery step lowers it\<close>

lemma net_step_act:
  assumes "net_step n n'"
  shows "\<exists>a. act a n = Some n'"
  using assms
proof (cases rule: net_step.cases)
  case (Join i)
  then show ?thesis by (intro exI [of _ "A_join i"]) simp
next
  case (Edit i p e g)
  then show ?thesis by (intro exI [of _ "A_edit i e g"]) simp
next
  case (Send i doc)
  then show ?thesis by (intro exI [of _ "A_send i doc"]) simp
next
  case (Serve i)
  then show ?thesis by (intro exI [of _ "A_serve i"]) simp
next
  case (Take i)
  then show ?thesis by (intro exI [of _ "A_take i"]) simp
qed

lemma finite_joined: "finite (joined as)"
  by (induction "as" rule: joined.induct) simp_all

lemma finite_sites: "reachable text0 n \<Longrightarrow> finite (dom (n_peers n))"
proof (induction rule: reachable.induct)
  case (Step n n')
  obtain a where "act a n = Some n'" using net_step_act [OF Step.hyps(2)] by blast
  from dom_act [OF this] Step.IH finite_joined [of "[a]"] show ?case
    by (meson finite_Un finite_subset)
qed (simp add: net_start_def)

lemma send_lowers:
  assumes "net_ok text0 n" and "finite (dom (n_peers n))" and "send_net n i doc = Some n'"
  shows "net_weight n' < net_weight n"
proof -
  obtain p where p: "n_peers n i = Some p" using assms(3) by (auto simp: send_net_def split: bind_splits)
  let ?c = "p_client p" and ?L = "h_local (ce_gh (p_client p))"
  obtain A N where a: "local_ok ?c A N" "channel_ok (start_cells text0) (n_ops n) i (n_subs n i) p A"
    using net_okD(2) [OF assms(1) p] by (auto simp: peer_ok_def)
  have ack: "prev_op_acked ?c" and ne: "?L \<noteq> []"
    using assms(3) p
    by (auto simp: send_net_def maybe_package_local_ops_def package_local_ops_def Let_def
        split: if_splits)
  have "A = []" by (rule quiet_channel [OF a(2,1) ack])
  with a(1) have seqs: "map fo_site_seq ?L = [Suc (ce_sent ?c) ..< Suc (ce_site_seq ?c)]"
    by (auto simp: local_ok_def)
  let ?co = "\<lparr>co_doc = doc, co_context = ce_seq ?c, co_ops = ?L\<rparr>"
  let ?s = "fo_site_seq (last ?L)"
  let ?p = "p\<lparr>p_client := ?c\<lparr>ce_sent := ?s\<rparr>, p_up := p_up p @ [Op_from_client ?co]\<rparr>"
  have n': "n' = set_peer n i ?p"
    using assms(3) p ack ne
    by (simp add: send_net_def maybe_package_local_ops_def package_local_ops_def)
  have "[Suc (ce_sent ?c) ..< Suc (ce_site_seq ?c)] \<noteq> []" using ne seqs by (metis map_is_Nil_conv)
  then have "?s = ce_site_seq ?c"
    using arg_cong [OF seqs, of last] ne by (simp add: last_map last_upt del: upt_Suc)
  moreover have len: "length ?L = ce_site_seq ?c - ce_sent ?c"
    by (metis seqs length_map length_upt diff_Suc_Suc)
  ultimately have u: "unsent ?c = length ?L" "unsent (p_client ?p) = 0"
    using seqs len by (simp_all add: unsent_def filter_id_conv filter_empty_conv del: upt_Suc)
  have oa: "only_at i p ?p n n'" unfolding n' by (rule only_at_set [OF p])
  have "total_ops n' = total_ops n"
    by (rule total_same [OF oa assms(2)]) (use u in \<open>simp add: to_come_def n'\<close>)
  moreover have "0 < length ?L" using ne by simp
  then have "peer_weight (total_ops n) ?p < peer_weight (total_ops n) p"
    using u by (simp add: peer_weight_def)
  ultimately show ?thesis by (rule weight_decreases [OF oa assms(2)])
qed

lemma serve_lowers:
  assumes "net_ok text0 n" and "finite (dom (n_peers n))" and "serve_net n i = Some n'"
  shows "net_weight n' < net_weight n"
proof -
  obtain p m rest where p: "n_peers n i = Some p" "p_up p = m # rest"
    using assms(3) by (auto simp: serve_net_def split: bind_splits list.splits)
  show ?thesis
  proof (cases m)
    case (Request_ops after)
    let ?p = "p\<lparr>p_up := rest, p_down := p_down p @ global_ops_after (n_server n) after\<rparr>"
    have n': "n' = (set_peer n i ?p)\<lparr>n_subs := (n_subs n)(i := Some 0)\<rparr>"
      using assms(3) p Request_ops by (simp add: serve_net_def)
    have oa: "only_at i p ?p n n'" using p(1) by (auto simp: only_at_def n' set_peer_def)
    have "total_ops n' = total_ops n"
      by (rule total_same [OF oa assms(2)])
        (use p Request_ops in \<open>simp add: to_come_def n' n_ops_def set_peer_def\<close>)
    moreover have "peer_weight (total_ops n) ?p < peer_weight (total_ops n) p"
      using p Request_ops by (simp add: peer_weight_def)
    ultimately show ?thesis by (rule weight_decreases [OF oa assms(2)])
  next
    case (Op_from_client co)
    obtain P s where sp: "server_process_ops (n_server n) (co_ops co) (co_context co) = (P, s)" by fastforce
    obtain d v b where n': "n' = broadcast ((set_peer n i (p\<lparr>p_up := rest\<rparr>))
        \<lparr>n_server := s\<lparr>se_doc := d\<rparr>, n_text := v, n_subs := b\<rparr>) P" and ne: "co_ops co \<noteq> []"
      using assms(3) p Op_from_client sp by (fastforce simp: serve_net_def split: bind_splits)
    obtain A q where a: "site_ok (start_cells text0) (n_ops n) i p"
        "on_the_way (start_cells text0) (n_ops n) i (ce_seq (p_client p)) q (ce_sent (p_client p)) A co"
      using net_okD(2) [OF assms(1) p(1)] p(2) Op_from_client
      by (auto simp: peer_ok_def channel_ok_def Let_def split: option.splits)
    then have "co_context co \<le> length (h_global (se_gh (n_server n)))"
      by (auto simp: on_the_way_def site_ok_def n_ops_def Let_def)
    note so = server_process_ok [OF sp this]
    obtain p' where p': "n_peers n' i = Some p'" "p_client p' = p_client p" "p_up p' = rest"
      by (auto simp: n')
    have oa: "only_at i p p' n n'"
      using p(1) p'(1) by (auto simp: only_at_def n' set_peer_def option.map_comp comp_def intro!: map_option_cong)
    have "total_ops n' = total_ops n"
      by (rule total_same [OF oa assms(2)])
        (use p p' Op_from_client so(3,4) in \<open>simp add: to_come_def n' n_ops_def\<close>)
    moreover have "0 < length (co_ops co)" using ne by simp
    then have "peer_weight (total_ops n) p' < peer_weight (total_ops n) p"
      using p p' Op_from_client by (simp add: peer_weight_def)
    ultimately show ?thesis by (rule weight_decreases [OF oa assms(2)])
  qed
qed

text \<open>What taking an op does to the numbers of the client.\<close>

lemma remote_numbers:
  assumes "process_remote_op c f = Some (c', Inr r)"
  shows "ce_seq c' = ce_seq c + 1" and "ce_sent c' = ce_sent c"
    and "map fo_site_seq (h_local (ce_gh c')) = map fo_site_seq (h_local (ce_gh c)) \<or>
      (\<exists>l ls. h_local (ce_gh c) = l # ls \<and> h_local (ce_gh c') = ls \<and> op_site (fo_op f) = ce_site c)"
proof -
  have "map fo_site_seq ls = map fo_site_seq L" if "symmetric_transform transform f L = (f', ls)" for L f' ls
    using site_seqs_of_meta [OF fo_meta_symmetric [of transform f L]] that by simp
  with assms show "ce_seq c' = ce_seq c + 1" and "ce_sent c' = ce_sent c"
    and "map fo_site_seq (h_local (ce_gh c')) = map fo_site_seq (h_local (ce_gh c)) \<or>
      (\<exists>l ls. h_local (ce_gh c) = l # ls \<and> h_local (ce_gh c') = ls \<and> op_site (fo_op f) = ce_site c)"
    by (auto simp: process_remote_op_def client_convert_and_apply_def fat_site_def Let_def
        split: option.splits if_splits list.splits bind_splits prod.splits)
qed

lemma unsent_Cons: "h_local (ce_gh c) = l # ls \<Longrightarrow> h_local (ce_gh c') = ls \<Longrightarrow>
    ce_sent c' = ce_sent c \<Longrightarrow> fo_site_seq l \<le> ce_sent c \<Longrightarrow> unsent c' = unsent c"
  by (simp add: unsent_def)

lemma take_lowers:
  assumes "net_ok text0 n" and "finite (dom (n_peers n))" and "take_net n i = Some n'"
  shows "net_weight n' < net_weight n"
proof -
  let ?D = "start_cells text0" and ?G = "n_ops n"
  obtain p f rest c r v where p: "n_peers n i = Some p" "p_down p = f # rest"
      "process_remote_op (p_client p) f = Some (c, Inr r)"
      "n' = set_peer n i (p\<lparr>p_client := c, p_buffer := v, p_down := rest\<rparr>)"
  proof -
    obtain p f rest c rr where p: "n_peers n i = Some p" "p_down p = f # rest"
        "process_remote_op (p_client p) f = Some (c, rr)"
      using assms(3) by (auto simp: take_net_def split: bind_splits list.splits)
    with assms(3) obtain r where r: "rr = Inr r" by (cases rr) (auto simp: take_net_def)
    show thesis
    proof (cases r)
      case None
      with assms(3) p r have "n' = set_peer n i (p\<lparr>p_client := c, p_down := rest\<rparr>)"
        by (simp add: take_net_def)
      then have "n' = set_peer n i (p\<lparr>p_client := c, p_buffer := p_buffer p, p_down := rest\<rparr>)" by simp
      with that p r show thesis by blast
    next
      case (Some lr)
      with assms(3) p r that show thesis
        by (cases lr) (auto simp: take_net_def split: bind_splits)
    qed
  qed
  let ?c = "p_client p" and ?p = "p\<lparr>p_client := c, p_buffer := v, p_down := rest\<rparr>"
  obtain A N where a: "site_ok ?D ?G i p" "local_ok ?c A N" "channel_ok ?D ?G i (n_subs n i) p A"
    using net_okD(2) [OF assms(1) p(1)] by (auto simp: peer_ok_def)
  have dn: "f # rest = drop (ce_seq ?c) ?G"
    using a(3) p(2) by (auto simp: channel_ok_def Let_def split: option.splits)
  then have k: "ce_seq ?c < length ?G" by (metis drop_eq_Nil list.distinct(1) not_le)
  have f: "f = ?G ! ce_seq ?c" using dn k by (simp flip: Cons_nth_drop_Suc)
  note nums = remote_numbers [OF p(3)]
  have u: "unsent c = unsent ?c"
    using nums(3)
  proof
    assume "map fo_site_seq (h_local (ce_gh c)) = map fo_site_seq (h_local (ce_gh ?c))"
    then show ?thesis by (simp add: unsent_def nums(2))
  next
    assume "\<exists>l ls. h_local (ce_gh ?c) = l # ls \<and> h_local (ce_gh c) = ls \<and> op_site (fo_op f) = ce_site ?c"
    then obtain l ls where l: "h_local (ce_gh ?c) = l # ls" "h_local (ce_gh c) = ls"
        "op_site (fo_op f) = i" using a(1) by (auto simp: site_ok_def Let_def)
    have "\<not> on_the_way ?D ?G i (ce_seq ?c) q s A co" for q s co
      using on_the_way_foreign [OF _ k] l(3) unfolding f by metis
    then have ret: "returning ?G i (ce_seq ?c) (ce_sent ?c) A"
      using a(3) p(2) by (auto simp: channel_ok_def Let_def split: option.splits)
    from returning_own [OF ret k] l(3) f obtain b A1 where "A = b # A1" by auto
    with l(1) a(2) ret have "fo_site_seq l \<le> ce_sent ?c" by (auto simp: local_ok_def returning_def)
    with l nums(2) show ?thesis by (intro unsent_Cons)
  qed
  have oa: "only_at i p ?p n n'" unfolding p(4) by (rule only_at_set [OF p(1)])
  have "total_ops n' = total_ops n"
    by (rule total_same [OF oa assms(2)]) (use u in \<open>simp add: to_come_def p(4)\<close>)
  moreover have "ce_seq ?c < total_ops n" using k by (simp add: total_ops_def)
  then have "peer_weight (total_ops n) ?p < peer_weight (total_ops n) p"
    using u nums(1) by (simp add: peer_weight_def)
  ultimately show ?thesis by (rule weight_decreases [OF oa assms(2)])
qed

section \<open>Coming to rest\<close>

lemma delivery_lowers:
  assumes "reachable text0 n" and "delivery n n'"
  shows "net_weight n' < net_weight n" and "reachable text0 n'"
proof -
  note ok = reachable_ok [OF assms(1)] and fin = finite_sites [OF assms(1)]
  show "net_weight n' < net_weight n"
    using assms(2) send_lowers [OF ok fin] serve_lowers [OF ok fin] take_lowers [OF ok fin]
    by (auto simp: delivery_def)
  show "reachable text0 n'"
    using assms by (auto simp: delivery_def intro: reachable.Step net_step.intros)
qed

lemma delivery_ends:
  assumes "reachable text0 n"
  shows "\<exists>n'. delivery\<^sup>*\<^sup>* n n' \<and> at_rest n' \<and> reachable text0 n'"
  using assms
proof (induction "net_weight n" arbitrary: n rule: less_induct)
  case less
  show ?case
  proof (cases "at_rest n")
    case True
    with less.prems show ?thesis by blast
  next
    case False
    from not_stuck [OF reachable_ok [OF less.prems] this] obtain n1 where n1: "delivery n n1" by blast
    note low = delivery_lowers [OF less.prems n1]
    from less.hyps [OF low] obtain n' where "delivery\<^sup>*\<^sup>* n1 n'" "at_rest n'" "reachable text0 n'" by blast
    with n1 show ?thesis by (metis converse_rtranclp_into_rtranclp)
  qed
qed

text \<open>No schedule of deliveries is longer than the weight of its start.\<close>

lemma delivery_bounded:
  assumes "reachable text0 n" and "(delivery ^^ k) n n'"
  shows "k + net_weight n' \<le> net_weight n \<and> reachable text0 n'"
  using assms(2)
proof (induction k arbitrary: n')
  case 0
  with assms(1) show ?case by simp
next
  case (Suc k)
  then obtain m where m: "(delivery ^^ k) n m" "delivery m n'" by auto
  with Suc.IH have "k + net_weight m \<le> net_weight n" "reachable text0 m" by auto
  with delivery_lowers [OF _ m(2)] show ?case by fastforce
qed

lemma delivery_halts:
  assumes "reachable text0 n" and "\<forall>n'. \<not> delivery n n'"
  shows "at_rest n"
  using not_stuck [OF reachable_ok [OF assms(1)]] assms(2) by blast

end
