(* ===== verification/Session_Theorems.thy ===== *)
theory Session_Theorems
  imports Liveness
begin

text \<open>
  What the engines promise a session: any number of sites, each joining at any time, editing
  concurrently through the real client and server engines over FIFO channels. The engine of the host
  counts the characters of its text, as the server's does for an ASCII file. The sample run has
  two sites; the second joins after the first has edited, and both edit before anything is
  delivered.
\<close>

definition sample_run :: "action list" where
  "sample_run =
     [A_join 1, A_serve 1, A_edit 1 (EIns 1 [5, 6]) 1, A_join 2, A_send 1 1, A_serve 1, A_serve 2,
      A_edit 2 (EDel 0 [1, 2]) 1, A_edit 1 (EDel 1 [5]) 2, A_send 2 1, A_serve 2,
      A_take 1, A_take 1, A_take 2, A_take 2, A_send 1 1, A_serve 1, A_take 1, A_take 2]"

definition sample_edits :: "action list" where
  "sample_edits = take 14 sample_run"

definition quiet_peer :: "peer option \<Rightarrow> bool" where
  "quiet_peer po = (case po of
     Some p \<Rightarrow> p_up p = [] \<and> p_down p = [] \<and> pending_local_ops (p_client p) = 0 | None \<Rightarrow> True)"

lemma sample_run_ends:
  "map_option (\<lambda>n. (n_text n, map_option p_buffer (n_peers n 1), map_option p_buffer (n_peers n 2),
      quiet_peer (n_peers n 1) \<and> quiet_peer (n_peers n 2))) (acts sample_run (net_start [1, 2])) =
    Some ([6], Some [6], Some [6], True)"
  by code_simp

lemma sample_net:
  obtains n p1 p2 where "reachable [1, 2] n" and "at_rest n" and "n_text n = [6]"
    and "n_peers n 1 = Some p1" and "n_peers n 2 = Some p2"
proof -
  obtain n where n: "acts sample_run (net_start [1, 2]) = Some n" "n_text n = [6]"
      "map_option p_buffer (n_peers n 1) = Some [6]" "map_option p_buffer (n_peers n 2) = Some [6]"
      "quiet_peer (n_peers n 1)" "quiet_peer (n_peers n 2)"
    using sample_run_ends by auto
  have "joined sample_run = {1, 2}" by (simp add: sample_run_def)
  with n(5,6) have "at_rest n"
    by (intro at_rest_joined [OF n(1)]) (simp add: quiet_peer_def)
  moreover have "reachable [1, 2] n" by (rule acts_reachable [OF reachable.Start n(1)])
  ultimately show thesis using that n(2-4) by auto
qed

text \<open>A reachable session in which both sites have work left: messages in both directions.\<close>

lemma sample_mid_run:
  "map_option (\<lambda>n. (map_option p_buffer (n_peers n 1), map_option (\<lambda>p. p_up p \<noteq> []) (n_peers n 2),
      map_option (\<lambda>p. p_down p \<noteq> []) (n_peers n 1)))
    (acts (take 10 sample_run) (net_start [1, 2])) = Some (Some [1, 6, 2], Some True, Some True)"
  by code_simp

lemma sample_mid:
  obtains n p1 p2 where "reachable [1, 2] n" and "n_peers n 1 = Some p1" and "n_peers n 2 = Some p2"
    and "p_buffer p1 = [1, 6, 2]" and "p_up p2 \<noteq> []" and "p_down p1 \<noteq> []"
proof -
  obtain n where n: "acts (take 10 sample_run) (net_start [1, 2]) = Some n"
      "map_option p_buffer (n_peers n 1) = Some [1, 6, 2]"
      "map_option (\<lambda>p. p_up p \<noteq> []) (n_peers n 2) = Some True"
      "map_option (\<lambda>p. p_down p \<noteq> []) (n_peers n 1) = Some True"
    using sample_mid_run by auto
  moreover have "reachable [1, 2] n" by (rule acts_reachable [OF reachable.Start n(1)])
  ultimately show thesis using that by auto
qed

section \<open>Safety and convergence\<close>

text \<open>C1: Convergence: in every reachable session at rest, whatever the interleaving of joins, edits and
  messages, each site's buffer and the live and dead runs of its engine equal the host's.\<close>

theorem sessions_converge:
  assumes "reachable text0 n" and "at_rest n" and "n_peers n i = Some p"
  shows "p_buffer p = n_text n \<and>
    flat (ranges (ce_doc (p_client p))) = flat (ranges (se_doc (n_server n)))"
  using rest_converged [OF reachable_ok [OF assms(1)] assms(2,3)] by simp

lemma sessions_converge_witness: "\<exists>(n :: net) (p :: peer). n_peers n 2 = Some p \<and> n_text n = [6] \<and> p_buffer p = [6]"
proof -
  obtain n p1 p2 where n: "reachable [1, 2] n" "at_rest n" "n_text n = [6]"
      "n_peers n 1 = Some p1" "n_peers n 2 = Some p2" by (rule sample_net)
  from sessions_converge [OF n(1,2,5)] n(3) have "p_buffer p2 = [6]" by simp
  with n show ?thesis by blast
qed

text \<open>C18: Delivery ends: from every reachable session, once the editors pause, sending, serving and taking
  what is pending leads to a session at rest.\<close>

theorem sessions_come_to_rest:
  assumes "reachable text0 n"
  shows "\<exists>n'. delivery\<^sup>*\<^sup>* n n' \<and> at_rest n'"
  using delivery_ends [OF assms] by blast

lemma sessions_come_to_rest_witness:
  "\<exists>n p n'. n_peers n 2 = Some p \<and> p_up p \<noteq> [] \<and> delivery\<^sup>*\<^sup>* n n' \<and> at_rest n'"
proof -
  obtain n p1 p2 where n: "reachable [1, 2] n" "n_peers n 1 = Some p1" "n_peers n 2 = Some p2"
      "p_buffer p1 = [1, 6, 2]" "p_up p2 \<noteq> []" "p_down p1 \<noteq> []" by (rule sample_mid)
  with sessions_come_to_rest [OF n(1)] show ?thesis by blast
qed

text \<open>C19: Delivery terminates, in whatever order the messages are delivered: a schedule has at most as many
  steps as the weight of the session (a count of the ops and messages still to be moved), and where
  it cannot be continued the session is at rest.\<close>

theorem deliveries_terminate:
  assumes "reachable text0 n" and "(delivery ^^ k) n n'"
  shows "k \<le> net_weight n \<and> ((\<forall>m. \<not> delivery n' m) \<longrightarrow> at_rest n')"
  using delivery_bounded [OF assms] delivery_halts by fastforce

lemma deliveries_terminate_witness:
  "\<exists>n p m. n_peers n 2 = Some p \<and> p_up p \<noteq> [] \<and> delivery n m \<and> 1 \<le> net_weight n"
proof -
  obtain n p1 p2 where n: "reachable [1, 2] n" "n_peers n 1 = Some p1" "n_peers n 2 = Some p2"
      "p_buffer p1 = [1, 6, 2]" "p_up p2 \<noteq> []" "p_down p1 \<noteq> []" by (rule sample_mid)
  then have "\<not> at_rest n" by (auto simp: at_rest_def)
  with not_stuck [OF reachable_ok [OF n(1)]] obtain m where m: "delivery n m" by blast
  with deliveries_terminate [OF n(1), of 1 m] n show ?thesis by auto
qed

text \<open>C16: An op from the host never fails at a site: no panic, no sequence or op mismatch, no
  desynchronised buffer, in every reachable session.\<close>

theorem taking_never_fails:
  assumes "reachable text0 n" and "n_peers n i = Some p" and "p_down p \<noteq> []"
  shows "\<exists>n'. take_net n i = Some n'"
  using take_ok [OF reachable_ok [OF assms(1)] assms(2,3)] by blast

lemma taking_never_fails_witness: "\<exists>n n' p. n_peers n 1 = Some p \<and> p_buffer p = [1, 6, 2] \<and> take_net n 1 = Some n'"
proof -
  obtain n p1 p2 where n: "reachable [1, 2] n" "n_peers n 1 = Some p1" "n_peers n 2 = Some p2"
      "p_buffer p1 = [1, 6, 2]" "p_up p2 \<noteq> []" "p_down p1 \<noteq> []" by (rule sample_mid)
  with taking_never_fails [OF n(1,2,6)] show ?thesis by blast
qed

text \<open>C17: A message of a site never fails at the host: the site sequence number is the expected one, the
  ops transform and apply without a panic, and engine and buffer stay in step.\<close>

theorem serving_never_fails:
  assumes "reachable text0 n" and "n_peers n i = Some p" and "p_up p \<noteq> []"
  shows "\<exists>n'. serve_net n i = Some n'"
  using serve_ok [OF reachable_ok [OF assms(1)] assms(2,3)] by blast

lemma serving_never_fails_witness: "\<exists>n n' p. n_peers n 2 = Some p \<and> p_up p \<noteq> [] \<and> serve_net n 2 = Some n'"
proof -
  obtain n p1 p2 where n: "reachable [1, 2] n" "n_peers n 1 = Some p1" "n_peers n 2 = Some p2"
      "p_buffer p1 = [1, 6, 2]" "p_up p2 \<noteq> []" "p_down p1 \<noteq> []" by (rule sample_mid)
  with serving_never_fails [OF n(1,3,5)] show ?thesis by blast
qed

text \<open>An insertion or deletion that fits what the editor shows is accepted at any moment of a session,
  without waiting for the host.\<close>

theorem editing_never_fails:
  assumes "reachable text0 n" and "n_peers n i = Some p" and "edit_fits e (p_buffer p)"
  shows "\<exists>n'. edit_net n i e g = Some n'"
  using edit_ok [OF reachable_ok [OF assms(1)] assms(2,3)] by blast

lemma editing_never_fails_witness: "\<exists>n n' p. n_peers n 1 = Some p \<and> edit_net n 1 (EDel 1 [6, 2]) 9 = Some n'"
proof -
  obtain n p1 p2 where n: "reachable [1, 2] n" "n_peers n 1 = Some p1" "n_peers n 2 = Some p2"
      "p_buffer p1 = [1, 6, 2]" "p_up p2 \<noteq> []" "p_down p1 \<noteq> []" by (rule sample_mid)
  then have "edit_fits (EDel 1 [6, 2]) (p_buffer p1)" by simp
  from editing_never_fails [OF n(1,2) this] n show ?thesis by blast
qed

text \<open>C20: Stop and wait: a site never has two messages of ops under way to the host.\<close>

fun is_ops :: "up_msg \<Rightarrow> bool" where
  "is_ops (Op_from_client _) = True"
| "is_ops (Request_ops _) = False"

theorem one_message_in_flight:
  assumes "reachable text0 n" and "n_peers n i = Some p"
  shows "length (filter is_ops (p_up p)) \<le> 1"
  using net_okD(2) [OF reachable_ok [OF assms(1)] assms(2)]
  by (auto simp: peer_ok_def channel_ok_def Let_def split: option.splits)

lemma one_message_in_flight_witness:
  "\<exists>(n :: net) (p :: peer). n_peers n 2 = Some p \<and> p_up p \<noteq> [] \<and> length (filter is_ops (p_up p)) \<le> 1"
proof -
  obtain n p1 p2 where n: "reachable [1, 2] n" "n_peers n 1 = Some p1" "n_peers n 2 = Some p2"
      "p_buffer p1 = [1, 6, 2]" "p_up p2 \<noteq> []" "p_down p1 \<noteq> []" by (rule sample_mid)
  from n one_message_in_flight [OF n(1,3)] show ?thesis
    by blast
qed

text \<open>C21: The host numbers its history without gaps, and a site that has subscribed has still to take
  exactly the ops after its own sequence number, in order.\<close>

theorem history_without_gaps:
  assumes "reachable text0 n" and "n_peers n i = Some p" and "n_subs n i = Some q"
  shows "p_down p = drop (ce_seq (p_client p)) (n_ops n) \<and>
    (\<forall>j < length (n_ops n). fo_seq (n_ops n ! j) = Some (j + 1)) \<and>
    se_seq (n_server n) = length (n_ops n)"
  using net_okD [OF reachable_ok [OF assms(1)] assms(2)] assms(3)
  by (auto simp: peer_ok_def channel_ok_def server_ok_def Let_def)

lemma history_without_gaps_witness:
  "\<exists>(n :: net) (p :: peer). n_peers n 1 = Some p \<and> p_down p \<noteq> [] \<and> p_down p = drop (ce_seq (p_client p)) (n_ops n)"
proof -
  obtain n p1 p2 where n: "reachable [1, 2] n" "n_peers n 1 = Some p1" "n_peers n 2 = Some p2"
      "p_buffer p1 = [1, 6, 2]" "p_up p2 \<noteq> []" "p_down p1 \<noteq> []" by (rule sample_mid)
  have "n_subs n 1 \<noteq> None"
    using net_okD(2) [OF reachable_ok [OF n(1)] n(2)] n(6)
    by (auto simp: peer_ok_def channel_ok_def Let_def split: option.splits)
  then obtain q where "n_subs n 1 = Some q" by auto
  from history_without_gaps [OF n(1,2) this] n show ?thesis by blast
qed

end
