(* ===== verification/Undo.thy ===== *)
theory Undo
  imports Engine_Correct
begin

text \<open>
  Undo and redo. When the timeline of the history replays to the document (\<open>replays\<close>), the ops
  that \<open>generate_undo_op_1\<close> generates agree with the document one after the other: generating
  them, converting them and running them never panics, and an undone insertion marks exactly the
  inserted text. The history keeps this property for the client's own ops and for remote ops that
  arrive when no local op is pending; the last section shows what happens otherwise.
\<close>

section \<open>The inverse of an op\<close>

definition mark_text :: "op \<Rightarrow> utext" where
  "mark_text op = (case op of Ins (_, s) _ \<Rightarrow> s | Mark es _ _ \<Rightarrow> concat (map snd es))"

lemma transform_di_text: "concat (map snd (transform_di e b x y)) = snd e"
  by (cases e; cases b) (auto simp: transform_di_def Let_def)

lemma mark_text_transform [simp]: "mark_text (transform a b) = mark_text a"
proof -
  have "concat (map snd (concat (map (\<lambda>e. transform_di e b x y) es))) = concat (map snd es)" for es b x y
    by (induction es) (simp_all add: transform_di_text)
  then show ?thesis by (cases a; cases b) (auto simp: mark_text_def transform_ii_def split: prod.splits)
qed

lemma mark_text_inverse [simp]: "mark_text (inverse op) = mark_text op"
  by (cases op rule: inverse.cases) (simp_all add: mark_text_def)

lemma op_site_inverse [simp]: "op_site (inverse op) = op_site op"
  by (cases op rule: inverse.cases) simp_all

lemma text_at_after_ins: "p \<le> length d \<Longrightarrow> text_at (t_ins p s d) (p, s)"
  by (auto simp: text_at_nth nth_t_ins)

lemma inverse_agrees: "op_agrees d op \<Longrightarrow> op_agrees (t_apply op d) (inverse op)"
  by (cases op rule: inverse.cases) (auto simp: text_at_after_ins)

text \<open>Undoing at once restores the live text.\<close>

lemma visible_ins_undo:
  assumes "p \<le> length d"
  shows "visible (t_apply (inverse (Ins (p, s) i)) (t_ins p s d)) = visible d"
proof -
  have "t_mark False p (length s) (t_ins p s d) = take p d @ map (\<lambda>c. (c, False)) s @ drop p d"
    using assms by (simp add: t_mark_def t_ins_def comp_def)
  moreover have "visible (map (\<lambda>c. (c, False)) s) = []" by (simp add: visible_def filter_map comp_def)
  ultimately have "visible (t_mark False p (length s) (t_ins p s d)) = visible (take p d @ drop p d)"
    by (simp only: visible_append append_Nil)
  then show ?thesis by simp
qed

section \<open>Generating\<close>

lemma batch_agrees:
  assumes "op_agrees d (fo_op f)" and "fits_ops t_apply op_agrees gs d"
  shows "op_agrees (app_ops t_apply gs d) (fo_op (batch_transform transform f gs))"
  using assms
proof (induction gs arbitrary: f d)
  case (Cons g gs)
  then have "op_agrees (t_apply (fo_op g) d) (fo_op (fat_transform transform f g))"
    by (simp add: transform_agrees)
  from Cons.IH [OF this] Cons.prems show ?case by simp
qed simp

lemma batch_text [simp]: "mark_text (fo_op (batch_transform transform f gs)) = mark_text (fo_op f)"
  by (induction gs arbitrary: f) simp_all

lemma batch_site [simp]: "op_site (fo_op (batch_transform transform f gs)) = op_site (fo_op f)"
  by (induction gs arbitrary: f) simp_all

definition replays :: "history \<Rightarrow> cells \<Rightarrow> cells \<Rightarrow> bool" where
  "replays h D cs \<longleftrightarrow>
     fits_ops t_apply op_agrees (timeline h) D \<and> cs = app_ops t_apply (timeline h) D"

text \<open>One generated op: what \<open>undo_loop\<close> computes from a pointer of the queue.\<close>

definition undo_of :: "history \<Rightarrow> nat \<Rightarrow> op fat_op list \<Rightarrow> op fat_op" where
  "undo_of h i ops =
     (let s = undo_queue h ! i in
      batch_transform transform (fat_inverse (timeline h ! (s - 1))) (drop s (timeline h) @ ops))"

lemma undo_of_agrees:
  assumes "queue_ok h" and "replays h D cs" and "i < length (undo_queue h)"
    and "fits_ops t_apply op_agrees ops cs"
  shows "op_agrees (app_ops t_apply ops cs) (fo_op (undo_of h i ops))"
proof -
  let ?s = "undo_queue h ! i" and ?T = "timeline h"
  have s: "1 \<le> ?s" "?s \<le> length ?T" using queue_ok_nth [OF assms(1,3)] by simp_all
  let ?f = "?T ! (?s - 1)" and ?d = "app_ops t_apply (take (?s - 1) ?T) D"
  have tk: "take ?s ?T = take (?s - 1) ?T @ [?f]"
    using s by (metis One_nat_def Suc_le_lessD Suc_pred take_Suc_nth less_le_trans zero_less_one)
  have T: "?T = take (?s - 1) ?T @ ?f # drop ?s ?T"
    using tk append_take_drop_id [of ?s ?T] by simp
  have fit: "fits_ops t_apply op_agrees (take (?s - 1) ?T @ ?f # drop ?s ?T) D"
    using assms(2) T by (simp add: replays_def)
  then have f: "op_agrees ?d (fo_op ?f)"
      "fits_ops t_apply op_agrees (drop ?s ?T) (t_apply (fo_op ?f) ?d)" by simp_all
  have cs: "cs = app_ops t_apply (drop ?s ?T) (t_apply (fo_op ?f) ?d)"
    using assms(2) T unfolding replays_def by (metis app_ops.simps(2) app_ops_append)
  have "op_agrees (t_apply (fo_op ?f) ?d) (fo_op (fat_inverse ?f))"
    using inverse_agrees [OF f(1)] by (simp add: fat_inverse_def)
  from batch_agrees [OF this, of "drop ?s ?T @ ops"] f(2) assms(4) show ?thesis
    by (simp add: undo_of_def Let_def cs)
qed

lemma undo_of_text:
  "mark_text (fo_op (undo_of h i ops)) = mark_text (fo_op (timeline h ! (undo_queue h ! i - 1)))"
  by (simp add: undo_of_def Let_def fat_inverse_def)

lemma undo_step:
  assumes "queue_ok h" and "if redo then k < length (undo_queue h) else 0 < k \<and> k \<le> length (undo_queue h)"
    and "i = (if redo then k else k - 1)"
  shows "undo_loop h redo k g ops =
    (if (case g of Some g' \<Rightarrow> g' \<noteq> fo_group_seq (timeline h ! (undo_queue h ! i - 1)) | None \<Rightarrow> False)
     then Some ops
     else undo_loop h redo (if redo then k + 1 else k - 1)
            (Some (fo_group_seq (timeline h ! (undo_queue h ! i - 1)))) (ops @ [undo_of h i ops]))"
proof -
  have i: "i < length (undo_queue h)" using assms(2,3) by (auto split: if_splits)
  note q = queue_ok_nth [OF assms(1) i]
  have base: "all_ops_after h (undo_queue h ! i) = Some (drop (undo_queue h ! i) (timeline h))"
    by (rule all_ops_after_timeline [OF q(2)])
  note nt = nth_in_undo_queue_timeline [OF assms(1) i]
  have go: "if redo then k < length (undo_queue h) else k > 0" using assms(2) by (auto split: if_splits)
  have "undo_loop h redo k g ops = do {
       op \<leftarrow> nth_in_undo_queue h i;
       (if (case g of Some g' \<Rightarrow> g' \<noteq> fo_group_seq op | None \<Rightarrow> False) then Some ops
        else do {
          seq \<leftarrow> nth_c (undo_queue h) i;
          base \<leftarrow> all_ops_after h seq;
          undo_loop h redo (if redo then k + 1 else k - 1) (Some (fo_group_seq op))
            (ops @ [batch_transform transform (fat_inverse op) (base @ ops)]) }) }"
    unfolding assms(3) by (subst undo_loop.simps) (simp only: if_P [OF go] Let_def)
  then show ?thesis
    unfolding nt nth_c_ok [OF i] bind.bind_lunit base by (simp add: undo_of_def Let_def)
qed

lemma undo_stop:
  assumes "if redo then length (undo_queue h) \<le> k else k = 0"
  shows "undo_loop h redo k g ops = Some ops"
  using assms by (subst undo_loop.simps) auto

lemma undo_loop_ok:
  assumes "queue_ok h" and "replays h D cs" and "k \<le> length (undo_queue h)"
    and "fits_ops t_apply op_agrees ops cs"
  shows "\<exists>ops'. undo_loop h redo k g ops = Some (ops @ ops') \<and>
    fits_ops t_apply op_agrees (ops @ ops') cs \<and>
    length ops' \<le> (if redo then length (undo_queue h) - k else k)"
  using assms(3,4)
proof (induction "if redo then length (undo_queue h) - k else k" arbitrary: k g ops)
  case 0
  then have "if redo then length (undo_queue h) \<le> k else k = 0" by (auto split: if_splits)
  from undo_stop [OF this] 0 show ?case by (intro exI [of _ "[]"]) simp
next
  case (Suc m)
  let ?i = "if redo then k else k - 1" and ?k = "if redo then k + 1 else k - 1"
  have k: "if redo then k < length (undo_queue h) else 0 < k \<and> k \<le> length (undo_queue h)"
    using Suc.hyps(2) Suc.prems(1) by (auto split: if_splits)
  have i: "?i < length (undo_queue h)" using k by (auto split: if_splits)
  let ?u = "undo_of h ?i ops"
  have fit: "fits_ops t_apply op_agrees (ops @ [?u]) cs"
    using undo_of_agrees [OF assms(1,2) i Suc.prems(2)] Suc.prems(2) by simp
  have m: "m = (if redo then length (undo_queue h) - ?k else ?k)" "?k \<le> length (undo_queue h)"
    using Suc.hyps(2) k by (auto split: if_splits)
  note st = undo_step [OF assms(1) k refl, of g ops]
  show ?case
  proof (cases "case g of Some g' \<Rightarrow> g' \<noteq> fo_group_seq (timeline h ! (undo_queue h ! ?i - 1)) | None \<Rightarrow> False")
    case True
    with st Suc.prems show ?thesis by (intro exI [of _ "[]"]) simp
  next
    case False
    from Suc.hyps(1) [OF m(1) m(2) fit, of "Some (fo_group_seq (timeline h ! (undo_queue h ! ?i - 1)))"]
    obtain ops' where "undo_loop h redo ?k (Some (fo_group_seq (timeline h ! (undo_queue h ! ?i - 1))))
        (ops @ [?u]) = Some ((ops @ [?u]) @ ops')"
        "fits_ops t_apply op_agrees ((ops @ [?u]) @ ops') cs" "length ops' \<le> m"
      using m(1) by auto
    with st False Suc.hyps(2) show ?thesis by (intro exI [of _ "?u # ops'"]) simp
  qed
qed

section \<open>Handing out and running\<close>

text \<open>How many pointers an undo or a redo may still use.\<close>

definition undo_room :: "history \<Rightarrow> bool \<Rightarrow> nat" where
  "undo_room h redo =
     (if redo then (case undo_tip h of None \<Rightarrow> 0 | Some i \<Rightarrow> length (undo_queue h) - i)
      else (case undo_tip h of Some i \<Rightarrow> i | None \<Rightarrow> length (undo_queue h)))"

definition undo_kind :: "bool \<Rightarrow> editor_op_kind" where
  "undo_kind redo = (if redo then KRedo else KUndo)"

lemma generate_1_ok:
  assumes "queue_ok (ce_gh c)" and "replays (ce_gh c) D cs"
  shows "\<exists>ops. generate_undo_op_1 c redo = Some ops \<and> fits_ops t_apply op_agrees ops cs \<and>
    length ops \<le> undo_room (ce_gh c) redo"
proof -
  let ?h = "ce_gh c"
  have tip: "i < length (undo_queue ?h)" if "undo_tip ?h = Some i" for i
    using assms(1) that by (simp add: queue_ok_def)
  show ?thesis
  proof (cases redo)
    case True
    show ?thesis
    proof (cases "undo_tip ?h")
      case (Some i)
      with undo_loop_ok [OF assms, of i "[]" True None] tip [OF Some] True show ?thesis
        by (auto simp: generate_undo_op_1_def undo_room_def)
    qed (use True in \<open>simp add: generate_undo_op_1_def\<close>)
  next
    case False
    let ?k = "case undo_tip ?h of Some i \<Rightarrow> i | None \<Rightarrow> length (undo_queue ?h)"
    have "?k \<le> length (undo_queue ?h)" using tip by (fastforce split: option.splits)
    with undo_loop_ok [OF assms this, of "[]" False None] False show ?thesis
      by (auto simp: generate_undo_op_1_def undo_room_def Let_def)
  qed
qed

lemma undo_kind_step:
  assumes "queue_ok h" and "0 < undo_room h redo"
  shows "\<exists>h' k. process_opkind h (undo_kind redo) s = Some (h', Inr k) \<and>
    undo_room h' redo = undo_room h redo - 1"
proof -
  obtain h' r where p: "process_opkind h (undo_kind redo) s = Some (h', r)"
    using process_opkind_no_panic [OF assms(1)] by fastforce
  with assms show ?thesis
    by (auto simp: process_opkind_def undo_kind_def undo_room_def Let_def bind_checked queue_ok_def
        split: option.splits if_splits)
qed

lemma push_undo_ok:
  assumes "queue_ok h" and "length ops \<le> undo_room h redo"
  shows "\<exists>h' fs. push_local_ops h (undo_kind redo) n g ops = Some (h', Inr ()) \<and>
    h_global h' = h_global h \<and> h_local h' = h_local h @ fs \<and> map fo_op fs = ops \<and> queue_ok h'"
  using assms
proof (induction ops arbitrary: h)
  case (Cons op ops)
  then have "0 < undo_room h redo" by simp
  from undo_kind_step [OF Cons.prems(1) this, of "h_total_len h + 1"] obtain h1 k where h1:
      "process_opkind h (undo_kind redo) (h_total_len h + 1) = Some (h1, Inr k)"
      "undo_room h1 redo = undo_room h redo - 1" by blast
  let ?f = "\<lparr>fo_seq = None, fo_op = op, fo_site_seq = n, fo_kind = k, fo_group_seq = g\<rparr>"
  let ?h = "h1\<lparr>h_local := h_local h1 @ [?f]\<rparr>"
  note q = process_opkind_ok [OF Cons.prems(1) h1(1), of ?f] and keep = process_opkind_keeps [OF h1(1)]
  have "undo_room ?h redo = undo_room h1 redo" by (simp add: undo_room_def split: option.splits)
  with h1(2) Cons.prems(2) have le: "length ops \<le> undo_room ?h redo" by simp
  from Cons.IH [OF q le] obtain h' fs where
      "push_local_ops ?h (undo_kind redo) n g ops = Some (h', Inr ())"
      "h_global h' = h_global h1" "h_local h' = (h_local h1 @ [?f]) @ fs" "map fo_op fs = ops" "queue_ok h'"
    by auto
  with h1(1) keep show ?case
    by (intro exI [of _ h'] exI [of _ "?f # fs"]) (simp add: h_total_len_def)
qed simp

lemma apply_undo_convert:
  assumes "convert_all (ce_doc c) fs = Some (instrs, d)"
  shows "apply_undo_ops c fs = Some (map fo_op fs, instrs, c\<lparr>ce_doc := d\<rparr>)"
  using assms
proof (induction fs arbitrary: c instrs d)
  case (Cons f fs)
  from Cons.prems obtain i d1 rest where
      "convert_internal_op_and_apply (ce_doc c) (fo_op f) = Some (i, d1)"
      "convert_all d1 fs = Some (rest, d)" "instrs = i # rest"
    by (auto split: bind_splits)
  with Cons.IH [of "c\<lparr>ce_doc := d1\<rparr>" rest d] show ?case
    by (simp add: client_convert_and_apply_def)
qed simp

definition hand_out :: "client_engine \<Rightarrow> bool \<Rightarrow> (edit_instruction list \<times> nat) option" where
  "hand_out c redo = (if redo then generate_redo_op c else generate_undo_op c)"

lemma undo_runs:
  assumes "queue_ok (ce_gh c)" and "replays (ce_gh c) D cs" and "represents (ce_doc c) cs"
  shows "\<exists>instrs ctx c' cs'. hand_out c redo = Some (instrs, ctx) \<and>
    process_local_op c \<lparr>ef_op = (if redo then ERedo ctx else EUndo ctx), ef_group_seq = g\<rparr>
      (ce_site_seq c + 1) = Some (c', Inr instrs) \<and>
    view_edits instrs (visible cs) = Some (visible cs') \<and>
    queue_ok (ce_gh c') \<and> replays (ce_gh c') D cs' \<and> represents (ce_doc c') cs'"
proof -
  let ?c = "c\<lparr>ce_site_seq := ce_site_seq c + 1\<rparr>"
  from generate_1_ok [OF assms(1,2), of redo] obtain ops where ops:
      "generate_undo_op_1 c redo = Some ops" "fits_ops t_apply op_agrees ops cs"
      "length ops \<le> undo_room (ce_gh c) redo" by blast
  from idoc.run_ok [OF assms(3) ops(2)] obtain instrs d where d:
      "convert_all (ce_doc c) ops = Some (instrs, d)" "represents d (app_ops t_apply ops cs)"
      "view_edits instrs (visible cs) = Some (visible (app_ops t_apply ops cs))"
    by (auto simp: convert_all_run)
  have ho: "hand_out c redo = Some (instrs, h_total_len (ce_gh c))"
    using ops(1) d(1)
    by (cases redo) (simp_all add: hand_out_def generate_undo_op_def generate_redo_op_def convert_internal_ops_dont_apply_def)
  have "generate_undo_op_1 ?c redo = Some ops" using ops(1) by (simp add: generate_undo_op_1_def)
  moreover have "apply_undo_ops ?c ops = Some (map fo_op ops, instrs, ?c\<lparr>ce_doc := d\<rparr>)"
    using apply_undo_convert [of ?c ops instrs d] d(1) by simp
  ultimately have loc: "local_op ?c (if redo then ERedo (h_total_len (ce_gh c)) else EUndo (h_total_len (ce_gh c))) =
      Some (?c\<lparr>ce_doc := d\<rparr>, Inr (map fo_op ops, instrs))"
    by (cases redo) (simp_all add: local_op_def local_undo_def check_undo_context_def)
  from push_undo_ok [OF assms(1), of "map fo_op ops" redo "ce_site_seq c + 1" g] ops(3) obtain h' fs where h':
      "push_local_ops (ce_gh c) (undo_kind redo) (ce_site_seq c + 1) g (map fo_op ops) = Some (h', Inr ())"
      "h_global h' = h_global (ce_gh c)" "h_local h' = h_local (ce_gh c) @ fs" "map fo_op fs = map fo_op ops"
      "queue_ok h'" by auto
  have kind: "kind_of (if redo then ERedo k else EUndo k) = undo_kind redo" for k
    by (simp add: kind_of_def undo_kind_def)
  have run: "process_local_op c \<lparr>ef_op = (if redo then ERedo (h_total_len (ce_gh c)) else EUndo (h_total_len (ce_gh c))),
      ef_group_seq = g\<rparr> (ce_site_seq c + 1) = Some (?c\<lparr>ce_doc := d, ce_gh := h'\<rparr>, Inr instrs)"
    using loc h'(1) by (simp add: process_local_op_def kind)
  have "timeline h' = timeline (ce_gh c) @ fs" using h'(2,3) by (simp add: timeline_def)
  then have "replays h' D (app_ops t_apply ops cs)"
    using assms(2) ops(2) fits_ops_cong [OF h'(4), of t_apply op_agrees]
      app_ops_cong [OF h'(4), of t_apply] by (simp add: replays_def)
  with ho run d(2,3) h'(5) show ?thesis by fastforce
qed

section \<open>When the timeline replays\<close>

lemma replays_local:
  assumes "replays h D cs" and "op_agrees cs o1" and "h_global h' = h_global h"
    and "h_local h' = h_local h @ [f]" and "fo_op f = o1"
  shows "replays h' D (t_apply o1 cs)"
  using assms by (simp add: replays_def timeline_def)

lemma replays_ack:
  assumes "replays h D cs" and "h_local h = l # ls" and "fo_op f = fo_op l"
    and "h_local h' = ls" and "h_global h' = h_global h @ [f]"
  shows "replays h' D cs"
  using assms by (simp add: replays_def timeline_def)

lemma replays_remote:
  assumes "replays h D cs" and "h_local h = []" and "op_agrees cs (fo_op f)"
    and "h_local h' = []" and "h_global h' = h_global h @ [f]"
  shows "replays h' D (t_apply (fo_op f) cs)"
  using assms by (simp add: replays_def timeline_def)

end
