(* ===== verification/Limits.thy ===== *)
theory Limits
  imports Undo Convergence
begin

text \<open>
  Runs of the engines that show where the guarantees of the other theories end: undo with
  concurrent edits, undo after joining an edited document, undo with nothing to undo, and the
  deletion of an empty text. Each run is evaluated on the model's definitions.
\<close>

section \<open>Running a client by hand\<close>

definition local_step :: "editor_op \<Rightarrow> nat \<Rightarrow> client_engine \<times> utext \<Rightarrow> (client_engine \<times> utext) option" where
  "local_step e g = (\<lambda>(c, v). do {
     (c, r) \<leftarrow> process_local_op c \<lparr>ef_op = e, ef_group_seq = g\<rparr> (ce_site_seq c + 1);
     (case r of Inl _ \<Rightarrow> None | Inr instrs \<Rightarrow> do { v \<leftarrow> view_edits instrs v; Some (c, v) }) })"

definition undo_step_of :: "bool \<Rightarrow> nat \<Rightarrow> client_engine \<times> utext \<Rightarrow> (client_engine \<times> utext) option" where
  "undo_step_of redo g = (\<lambda>(c, v). do {
     (_, ctx) \<leftarrow> hand_out c redo;
     local_step (if redo then ERedo ctx else EUndo ctx) g (c, v) })"

definition remote_step :: "op fat_op \<Rightarrow> client_engine \<times> utext \<Rightarrow> (client_engine \<times> utext) option" where
  "remote_step f = (\<lambda>(c, v). do {
     (c, r) \<leftarrow> process_remote_op c f;
     (case r of
        Inl _ \<Rightarrow> None
      | Inr None \<Rightarrow> Some (c, v)
      | Inr (Some (lean, _)) \<Rightarrow> do { v \<leftarrow> edit_view (el_op lean) v; Some (c, v) }) })"

fun run_steps :: "('s \<Rightarrow> 's option) list \<Rightarrow> 's \<Rightarrow> 's option" where
  "run_steps [] s = Some s"
| "run_steps (f # fs) s = Option.bind (f s) (run_steps fs)"

definition remote_ins :: "nat \<Rightarrow> nat \<Rightarrow> utext \<Rightarrow> site_id \<Rightarrow> nat \<Rightarrow> op fat_op" where
  "remote_ins seq p s site n = \<lparr>fo_seq = Some seq, fo_op = Ins (p, s) site, fo_site_seq = n,
     fo_kind = Original, fo_group_seq = 0\<rparr>"

section \<open>Undo past a remote op that crossed a local one\<close>

text \<open>
  Site 1 types 1 2 3 and then 4 in front; before the 4 is acknowledged, site 2's insertion of 5
  after the 1 arrives. Two undos should leave the 5.
\<close>

definition crossed_history :: "client_engine \<times> utext \<Rightarrow> (client_engine \<times> utext) option" where
  "crossed_history = run_steps
     [local_step (EIns 0 [1, 2, 3]) 1, remote_step (remote_ins 1 0 [1, 2, 3] 1 1),
      local_step (EIns 0 [4]) 2, remote_step (remote_ins 2 1 [5] 2 1)]"

definition empty_client :: "nat \<Rightarrow> client_engine \<times> utext" where
  "empty_client base = (client_engine_new 1 base (internal_doc_new 0), [])"

lemma crossed_before: "map_option snd (crossed_history (empty_client 0)) = Some [4, 1, 5, 2, 3]"
  by code_simp

lemma crossed_undo_twice:
  "map_option snd (Option.bind (crossed_history (empty_client 0))
     (run_steps [undo_step_of False 3, undo_step_of False 4])) = Some [2]"
  by code_simp

section \<open>Undo after joining\<close>

text \<open>The queue of a client that joined at sequence number 5 is not moved by a remote op.\<close>

lemma joined_undo_panics:
  "Option.bind (run_steps [local_step (EIns 0 [1]) 1, remote_step (remote_ins 6 0 [2] 2 1)] (empty_client 5))
     (\<lambda>(c, v). generate_undo_op c) = None \<and>
   map_option snd (run_steps [local_step (EIns 0 [1]) 1, remote_step (remote_ins 6 0 [2] 2 1)] (empty_client 5)) =
     Some [1, 2]"
  by code_simp

section \<open>Undo with nothing to undo\<close>

lemma idle_undo_blocks_sending:
  "map_option (\<lambda>(c, v). (v, pending_local_ops c, fst (maybe_package_local_ops c 1)))
     (run_steps [local_step (EUndo 0) 1, local_step (EIns 0 [1]) 2] (empty_client 0)) =
   Some ([1], 1, None)"
  by code_simp

section \<open>Deleting an empty text\<close>

lemma empty_delete_splits:
  "map_option (\<lambda>(op, d). (op, ranges d)) (convert_editor_op_and_apply (internal_doc_new 2) (EDel 1 []) 1) =
     Some (Mark [(1, [])] False 1, [Live 1, Dead 0, Live 1])"
  by code_simp

lemma empty_delete_at_end:
  "convert_editor_op_and_apply (internal_doc_new 2) (EDel 2 []) 1 = None"
  by code_simp

section \<open>Concurrent undo and redo of one deletion\<close>

definition undo_net :: "site_id \<Rightarrow> bool \<Rightarrow> nat \<Rightarrow> net \<Rightarrow> net option" where
  "undo_net i redo g n = do {
     p \<leftarrow> n_peers n i;
     (_, ctx) \<leftarrow> hand_out (p_client p) redo;
     edit_net n i (if redo then ERedo ctx else EUndo ctx) g }"

definition deliver :: "site_id \<Rightarrow> (net \<Rightarrow> net option) list" where
  "deliver i = [\<lambda>n. send_net n i 1, \<lambda>n. serve_net n i, \<lambda>n. take_net n 1, \<lambda>n. take_net n 2]"

definition opposite_run :: "utext \<Rightarrow> net option" where
  "opposite_run s = run_steps
     ([\<lambda>n. join_net n 1, \<lambda>n. join_net n 2, \<lambda>n. serve_net n 1, \<lambda>n. serve_net n 2,
       \<lambda>n. edit_net n 1 (EDel 0 s) 1, \<lambda>n. edit_net n 2 (EDel 0 s) 1] @ deliver 1 @ deliver 2 @
      [undo_net 1 False 2] @ deliver 1 @
      [undo_net 1 True 3, undo_net 2 False 2] @ deliver 1 @ deliver 2) (net_start s)"

definition shown :: "net \<Rightarrow> utext \<times> utext option \<times> utext option" where
  "shown n = (n_text n, map_option p_buffer (n_peers n 1), map_option p_buffer (n_peers n 2))"

definition idle :: "net \<Rightarrow> site_id \<Rightarrow> bool" where
  "idle n i \<longleftrightarrow> (case n_peers n i of
     Some p \<Rightarrow> p_up p = [] \<and> p_down p = [] \<and> pending_local_ops (p_client p) = 0 | None \<Rightarrow> False)"

lemma opposite_diverges:
  "map_option (\<lambda>n. (shown n, idle n 1 \<and> idle n 2)) (opposite_run [7]) = Some (([7], Some [7], Some []), True)"
  by code_simp

end
