(* ===== verification/Undo_Theorems.thy ===== *)
theory Undo_Theorems
  imports Limits
begin

text \<open>What undo and redo promise, and where the promise ends.\<close>

text \<open>C14: While the history replays to the document, handing out an undo or redo never panics, running it
  never fails, the instructions run are those handed out, and history and document stay in step.\<close>

theorem undo_runs_as_handed_out:
  assumes "queue_ok (ce_gh c)" and "replays (ce_gh c) D cs" and "represents (ce_doc c) cs"
  shows "\<exists>instrs ctx c' cs'. hand_out c redo = Some (instrs, ctx) \<and>
    process_local_op c \<lparr>ef_op = (if redo then ERedo ctx else EUndo ctx), ef_group_seq = g\<rparr>
      (ce_site_seq c + 1) = Some (c', Inr instrs) \<and>
    view_edits instrs (visible cs) = Some (visible cs') \<and>
    queue_ok (ce_gh c') \<and> replays (ce_gh c') D cs' \<and> represents (ce_doc c') cs'"
  using assms by (rule undo_runs)

text \<open>A client that has typed 1 2 and deleted the 1.\<close>

definition edited_client :: client_engine where
  "edited_client = (case run_steps [local_step (EIns 0 [1, 2]) 1, local_step (EDel 0 [1]) 2] (empty_client 0) of
     Some (c, _) \<Rightarrow> c | None \<Rightarrow> fst (empty_client 0))"

lemma edited_client_eq:
  "ce_gh edited_client = \<lparr>h_global = [],
     h_local = [\<lparr>fo_seq = None, fo_op = Ins (0, [1, 2]) 1, fo_site_seq = 1, fo_kind = Original, fo_group_seq = 1\<rparr>,
                \<lparr>fo_seq = None, fo_op = Mark [(0, [1])] False 1, fo_site_seq = 2, fo_kind = Original, fo_group_seq = 2\<rparr>],
     undo_queue = [1, 2], undo_tip = None\<rparr>"
  "ranges (ce_doc edited_client) = [Dead 1, Live 1]"
  "list_all (\<lambda>(s, c). c = cursor_at [Dead 1, Live 1] 0) (cursors (ce_doc edited_client))"
  by code_simp+

lemma edited_client_ok:
  "queue_ok (ce_gh edited_client)" "replays (ce_gh edited_client) [] [(1, False), (2, True)]"
  "represents (ce_doc edited_client) [(1, False), (2, True)]"
proof -
  show "queue_ok (ce_gh edited_client)"
    by (simp add: edited_client_eq(1) queue_ok_def h_total_len_def)
  show "replays (ce_gh edited_client) [] [(1, False), (2, True)]"
    by (simp add: edited_client_eq(1) replays_def timeline_def text_at_def t_ins_def t_mark_def)
  have "cursor_ok [Dead 1, Live 1] c" if "(s, c) \<in> set (cursors (ce_doc edited_client))" for s c
    using edited_client_eq(3) that cursor_ok_at [of "[Dead 1, Live 1]" 0] by (fastforce simp: list_all_iff)
  then show "represents (ce_doc edited_client) [(1, False), (2, True)]"
    by (auto simp: represents_def doc_ok_def edited_client_eq(2))
qed

lemma undo_runs_as_handed_out_witness:
  "\<exists>instrs ctx c'. hand_out edited_client False = Some (instrs, ctx) \<and>
     process_local_op edited_client \<lparr>ef_op = EUndo ctx, ef_group_seq = 3\<rparr> (ce_site_seq edited_client + 1) =
       Some (c', Inr instrs)"
  using undo_runs_as_handed_out [OF edited_client_ok, of False 3] by auto

text \<open>C15: While the history replays to the document (each recorded op agrees with the document the ops
  before it lead to), an undone insertion marks exactly the text it inserted, character for character
  and in order, wherever the ops recorded since have moved or split it, and each segment stands where
  the text is. (The history stops replaying when a remote op crosses a pending local one: then an
  undo can mark other text.)\<close>

theorem undo_marks_inserted_text:
  assumes "queue_ok h" and "replays h D cs" and "i < length (undo_queue h)"
    and "fo_op (timeline h ! (undo_queue h ! i - 1)) = Ins (p, s) site"
  shows "\<exists>es. fo_op (undo_of h i []) = Mark es False site \<and> concat (map snd es) = s \<and>
    ascending 0 es \<and> (\<forall>e \<in> set es. text_at cs e)"
proof -
  have agree: "op_agrees cs (fo_op (undo_of h i []))"
    using undo_of_agrees [OF assms(1-3), of "[]"] by simp
  have mt: "mark_text (fo_op (undo_of h i [])) = s"
    unfolding undo_of_text assms(4) by (simp add: mark_text_def)
  have tr: "\<exists>es. transform (Mark es0 False site) b = Mark es False site" for es0 b by (cases b) auto
  have bt: "\<exists>es. fo_op (batch_transform transform f gs) = Mark es False site"
    if "\<exists>es. fo_op f = Mark es False site" for f gs
    using that by (induction gs arbitrary: f) (simp, use tr in \<open>fastforce\<close>)
  have "\<exists>es. fo_op (fat_inverse (timeline h ! (undo_queue h ! i - 1))) = Mark es False site"
    using assms(4) by (simp add: fat_inverse_def)
  from bt [OF this, of "drop (undo_queue h ! i) (timeline h)"] obtain es where
      "fo_op (undo_of h i []) = Mark es False site"
    by (auto simp: undo_of_def Let_def)
  with agree mt show ?thesis by (auto simp: mark_text_def)
qed

lemma undo_marks_inserted_text_witness:
  "\<exists>es. fo_op (undo_of (ce_gh edited_client) 0 []) = Mark es False 1 \<and> concat (map snd es) = [1, 2]"
  using undo_marks_inserted_text [OF edited_client_ok(1,2), of 0 0 "[1, 2]" 1]
  by (auto simp: edited_client_eq(1) timeline_def)

text \<open>The undo queue never makes the history panic, and a local op keeps every pointer of the queue on
  an op of the timeline.\<close>

theorem history_queue_safe:
  assumes "queue_ok h"
  shows "process_opkind h kind s \<noteq> None \<and>
    (\<forall>h' k f. process_opkind h kind (h_total_len h + 1) = Some (h', Inr k) \<longrightarrow>
       queue_ok (h'\<lparr>h_local := h_local h' @ [f]\<rparr>))"
  using process_opkind_no_panic [OF assms] process_opkind_ok [OF assms] by blast

lemma history_queue_safe_witness:
  "process_opkind (ce_gh edited_client) KUndo 3 \<noteq> None"
  using history_queue_safe [OF edited_client_ok(1), of KUndo 3] by simp

text \<open>A redo right after an undo puts the undo tip and the length of the queue back where they were.\<close>

theorem redo_reverts_undo:
  assumes "queue_ok h" and "process_opkind h KUndo s = Some (h1, Inr k1)"
    and "process_opkind (h1\<lparr>h_local := h_local h1 @ [f]\<rparr>) KRedo s' = Some (h2, r)"
  shows "undo_tip h2 = undo_tip h \<and> length (undo_queue h2) = length (undo_queue h) \<and> (\<exists>k2. r = Inr k2)"
  using assms by (rule undo_then_redo)

definition undone_history :: history where
  "undone_history = (ce_gh edited_client)\<lparr>undo_queue := [1, 3], undo_tip := Some 1\<rparr>"

definition redone_history :: history where
  "redone_history = (ce_gh edited_client)
     \<lparr>h_local := h_local (ce_gh edited_client) @ [hd (h_local (ce_gh edited_client))], undo_queue := [1, 4], undo_tip := None\<rparr>"

lemma redo_reverts_undo_witness:
  "undo_tip redone_history = undo_tip (ce_gh edited_client)"
  using redo_reverts_undo [OF edited_client_ok(1), of 3 undone_history "Undo 1" "hd (h_local (ce_gh edited_client))" 4
      redone_history "Inr (Undo 1)"]
  by (simp add: edited_client_eq(1) undone_history_def redone_history_def process_opkind_def Let_def)

text \<open>A finding: when a remote op arrives while a local op is pending, \<open>process_remote_op\<close> records the op
  transformed against the local ones in front of them, so a later undo is transformed against the wrong
  op. Site 1 typed 1 2 3 and then 4, site 2 typed 5 inside; undoing both of its own insertions leaves site
  1 with its own 2 and without the other site's 5.\<close>

theorem crossed_undo_deletes_other_text:
  "map_option snd (crossed_history (empty_client 0)) = Some [4, 1, 5, 2, 3] \<and>
   map_option snd (Option.bind (crossed_history (empty_client 0))
     (run_steps [undo_step_of False 3, undo_step_of False 4])) = Some [2]"
  using crossed_before crossed_undo_twice by simp

text \<open>A finding: the undo queue of a client that joined at a later sequence number is counted from its
  own history but shifted by comparing with the host's numbers, so a remote op leaves it pointing to that
  op; generating the undo then panics.\<close>

theorem undo_after_join_panics:
  "Option.bind (run_steps [local_step (EIns 0 [1]) 1, remote_step (remote_ins 6 0 [2] 2 1)] (empty_client 5))
     (\<lambda>(c, v). generate_undo_op c) = None"
  using joined_undo_panics by simp

text \<open>A finding: an undo and a redo of the same deletion by two sites do not commute, since marks are not
  transformed against marks; with both in flight, the session comes to rest with different buffers.\<close>

theorem concurrent_undo_redo_diverges:
  "map_option (\<lambda>n. (shown n, idle n 1 \<and> idle n 2)) (opposite_run [7]) = Some (([7], Some [7], Some []), True)"
  by (rule opposite_diverges)

text \<open>A finding: an undo with nothing to undo uses up a site sequence number without an op, and from then
  on the client never sends: \<open>prev_op_acked\<close> waits for the number that no op carries.\<close>

theorem empty_undo_stops_sending:
  "map_option (\<lambda>(c, v). (v, pending_local_ops c, fst (maybe_package_local_ops c 1)))
     (run_steps [local_step (EUndo 0) 1, local_step (EIns 0 [1]) 2] (empty_client 0)) = Some ([1], 1, None)"
  by (rule idle_undo_blocks_sending)

text \<open>A finding: unlike an empty insertion, an empty deletion is not rejected; in the middle of a range it
  leaves an empty dead range behind, and at the end of the document the marking loop runs off the ranges.\<close>

theorem empty_deletion_breaks_ranges:
  "map_option (\<lambda>(op, d). ranges d) (convert_editor_op_and_apply (internal_doc_new 2) (EDel 1 []) 1) =
     Some [Live 1, Dead 0, Live 1] \<and>
   convert_editor_op_and_apply (internal_doc_new 2) (EDel 2 []) 1 = None"
  using empty_delete_splits empty_delete_at_end by auto

end
