(* ===== verification/Runtime.thy ===== *)
theory Runtime
  imports Engine "HOL-Library.AList"
begin

text \<open>
  What the components of the server share: hash maps and hash sets, formatted messages and time.

  A \<open>HashMap\<close> is an association list with distinct keys, a \<open>HashSet\<close> a list without duplicates.
  Rust iterates over both in an unspecified order; here it is the order of the list, and every
  property holds for whatever order the list has.

  A message made by \<open>format!\<close> is kept as its format string and arguments. An \<open>Instant\<close> is a number
  of milliseconds, which each operation that reads the clock takes as an argument.
\<close>

section \<open>Maps and sets\<close>

type_synonym ('k, 'v) hash_map = "('k \<times> 'v) list"
type_synonym 'a hash_set = "'a list"

definition keys :: "('k, 'v) hash_map \<Rightarrow> 'k list" where
  "keys m = map fst m"

definition same_set :: "'a hash_set \<Rightarrow> 'a hash_set \<Rightarrow> bool" where
  "same_set xs ys \<longleftrightarrow> list_all (\<lambda>x. x \<in> set ys) xs \<and> list_all (\<lambda>y. y \<in> set xs) ys"

lemma same_set_iff [simp]: "same_set xs ys \<longleftrightarrow> set xs = set ys"
  by (auto simp: same_set_def list_all_iff)

lemma set_keys [simp]: "set (keys m) = dom (map_of m)"
  by (simp add: keys_def dom_map_of_conv_image_fst)

lemma keys_update: "distinct (keys m) \<Longrightarrow> distinct (keys (AList.update k v m))"
  by (simp add: keys_def distinct_update)

lemma keys_delete: "distinct (keys m) \<Longrightarrow> distinct (keys (AList.delete k m))"
  by (simp add: keys_def distinct_delete)

lemma keys_map_entry [simp]: "keys (AList.map_entry k f m) = keys m"
  by (induction m) (auto simp: keys_def)

lemma map_of_update [simp]: "map_of (AList.update k v m) = (map_of m)(k \<mapsto> v)"
  by (rule update_conv')

lemma map_of_delete [simp]: "map_of (AList.delete k m) = (map_of m)(k := None)"
  by (rule delete_conv')

lemma map_of_alter [simp]:
  "map_of (AList.map_entry k f m) =
   (case map_of m k of None \<Rightarrow> map_of m | Some v \<Rightarrow> (map_of m)(k \<mapsto> f v))"
  by (induction m) (auto split: option.splits)

lemma keys_filter_map_of:
  "distinct (keys m) \<Longrightarrow> map_of (filter (\<lambda>(k, v). P k) m) = (map_of m) |` {k. P k}"
  by (induction m) (auto simp: keys_def fun_eq_iff restrict_map_def)

section \<open>Formatted messages\<close>

datatype fmt_arg = A_str string | A_num nat | A_fmt fmt_text | A_err engine_error
  and fmt_text = Fmt string "fmt_arg list"

text \<open>A literal message.\<close>

definition lit :: "string \<Rightarrow> fmt_text" where
  "lit s = Fmt s []"

section \<open>Time\<close>

type_synonym instant = nat

definition secs :: "nat \<Rightarrow> nat" where
  "secs s = 1000 * s"

text \<open>\<open>Instant::duration_since\<close> is zero when the other instant is later.\<close>

definition duration_since :: "instant \<Rightarrow> instant \<Rightarrow> nat" where
  "duration_since now since = now - since"

end
