(* ===== verification/Config.thy ===== *)
theory Config
  imports Runtime
begin

text \<open>
  \<open>config_man.rs\<close> without the files: the configuration a server runs with and the permission
  checks of its handlers. Replacing it, which saves it, is an operation of the server
  (\<open>Server_State\<close>); the files themselves, and the keys and certificates beside them, are in
  \<open>Startup\<close>.
\<close>

text \<open>Names that are safe as file names and certificate names.\<close>

datatype name_error = Empty_name | Bad_name string

definition is_ascii_alphanumeric :: "char \<Rightarrow> bool" where
  "is_ascii_alphanumeric c \<longleftrightarrow>
     (let n = of_char c :: nat in
      (48 \<le> n \<and> n \<le> 57) \<or> (65 \<le> n \<and> n \<le> 90) \<or> (97 \<le> n \<and> n \<le> 122))"

definition sanitize_name :: "string \<Rightarrow> name_error + unit" where
  "sanitize_name name =
     (if name = [] then Inl Empty_name
      else if \<not> list_all (\<lambda>c. is_ascii_alphanumeric c \<or> c = CHR ''_'' \<or> c = CHR ''-'') name
      then Inl (Bad_name name)
      else Inr ())"

record config_project =
  cp_name :: string
  cp_path :: string

record permission =
  pm_write :: bool
  pm_create :: bool
  pm_delete :: bool

definition permission_default :: permission where
  "permission_default = \<lparr>pm_write = True, pm_create = True, pm_delete = False\<rparr>"

record config =
  cf_projects :: "config_project list"
  cf_trusted_hosts :: "server_id hash_set"
  cf_host_id :: "server_id option"
  cf_permission :: "(server_id, permission) hash_map"

definition config_default :: config where
  "config_default = \<lparr>cf_projects = [], cf_trusted_hosts = [], cf_host_id = None, cf_permission = []\<rparr>"

section \<open>Permission checks\<close>

definition write_allowed :: "config \<Rightarrow> server_id \<Rightarrow> bool" where
  "write_allowed c host =
     (if Some host = cf_host_id c then True
      else (case map_of (cf_permission c) host of
              Some p \<Rightarrow> pm_write p
            | None \<Rightarrow> pm_write permission_default))"

definition create_allowed :: "config \<Rightarrow> server_id \<Rightarrow> bool" where
  "create_allowed c host =
     (if Some host = cf_host_id c then True
      else (case map_of (cf_permission c) host of
              Some p \<Rightarrow> pm_create p
            | None \<Rightarrow> pm_create permission_default))"

definition delete_allowed :: "config \<Rightarrow> server_id \<Rightarrow> bool" where
  "delete_allowed c host =
     (if Some host = cf_host_id c then True
      else (case map_of (cf_permission c) host of
              Some p \<Rightarrow> pm_delete p
            | None \<Rightarrow> pm_delete permission_default))"

definition add_permission :: "config \<Rightarrow> server_id \<Rightarrow> permission \<Rightarrow> config" where
  "add_permission c host p = c\<lparr>cf_permission := AList.update host p (cf_permission c)\<rparr>"

definition add_trusted_host :: "config \<Rightarrow> server_id \<Rightarrow> config" where
  "add_trusted_host c host = c\<lparr>cf_trusted_hosts := List.insert host (cf_trusted_hosts c)\<rparr>"

lemma permission_after_add [simp]:
  "cf_host_id c \<noteq> Some host \<Longrightarrow> write_allowed (add_permission c host p) host = pm_write p"
  "cf_host_id c \<noteq> Some host \<Longrightarrow> create_allowed (add_permission c host p) host = pm_create p"
  "cf_host_id c \<noteq> Some host \<Longrightarrow> delete_allowed (add_permission c host p) host = pm_delete p"
  by (auto simp: write_allowed_def create_allowed_def delete_allowed_def add_permission_def)

lemma permission_add_other [simp]:
  "host' \<noteq> host \<Longrightarrow> write_allowed (add_permission c host p) host' = write_allowed c host'"
  "host' \<noteq> host \<Longrightarrow> create_allowed (add_permission c host p) host' = create_allowed c host'"
  "host' \<noteq> host \<Longrightarrow> delete_allowed (add_permission c host p) host' = delete_allowed c host'"
  by (auto simp: write_allowed_def create_allowed_def delete_allowed_def add_permission_def)

end
