(* ===== verification/World.thy ===== *)
theory World
  imports Config
begin

text \<open>
  The declarative connection management of \<open>server.rs\<close>: the status of signaling servers and
  remote peers, \<open>WorldState\<close> with its operations and the back-off of reconnects. \<open>Server\<close> carries
  two of these, the ideal world (what the editor declared) and the current one.
\<close>

section \<open>State\<close>

datatype transport_config =
    SCTP string
  | SshStdio string "string list" "config_project list"

text \<open>\<open>TransportConfig::signaling_addr\<close>.\<close>

fun transport_signaling_addr :: "transport_config \<Rightarrow> string option" where
  "transport_signaling_addr (SCTP addr) = Some addr"
| "transport_signaling_addr (SshStdio _ _ _) = None"

text \<open>What the editor is told about a connection.\<close>

datatype connection_state =
    CS_connected
  | CS_connecting1 nat bool
  | CS_connecting2 nat bool
  | CS_pending
  | CS_disconnected
  | CS_failed_to_connect

datatype signaling_status =
    S_pending
  | S_binding instant
  | S_bound
  | S_disconnected instant nat
  | S_failed fmt_text

record signaling_state =
  ss_status :: signaling_status
  ss_trusted :: "server_id hash_set"
  ss_trust_sent_at :: "nat option"
  ss_retry_stride :: nat

definition signaling_state_default :: signaling_state where
  "signaling_state_default =
     \<lparr>ss_status = S_pending, ss_trusted = [], ss_trust_sent_at = None, ss_retry_stride = 0\<rparr>"

datatype remote_status =
    R_pending
  | R_connecting1 instant
  | R_connecting2 instant
  | R_connected
  | R_disconnected instant nat
  | R_failed fmt_text

type_synonym connection_id = "128 word"

record remote_state =
  rs_transport :: transport_config
  rs_status :: remote_status
  rs_ever_connected :: bool
  rs_retry_stride :: nat
  rs_connection_id :: connection_id

record world =
  w_signaling :: "(string, signaling_state) hash_map"
  w_remotes :: "(server_id, remote_state) hash_map"
  w_trusted :: "server_id hash_set"

definition world_default :: world where
  "world_default = \<lparr>w_signaling = [], w_remotes = [], w_trusted = []\<rparr>"

section \<open>Back-off\<close>

definition INITIAL_RETRY_STRIDE_SECS :: nat where
  "INITIAL_RETRY_STRIDE_SECS = 1"

definition MAX_RETRY_STRIDE_SECS :: nat where
  "MAX_RETRY_STRIDE_SECS = 60"

text \<open>A stride is a \<open>u64\<close>; doubling it saturates.\<close>

definition next_stride :: "nat \<Rightarrow> nat" where
  "next_stride cur = min (min (cur * 2) (2 ^ 64 - 1)) MAX_RETRY_STRIDE_SECS"

text \<open>
  A connection id is a fresh random \<open>u128\<close>; the operations that draw one take it as an argument.
\<close>

definition is_stale_connection_attempt :: "world \<Rightarrow> server_id \<Rightarrow> connection_id \<Rightarrow> bool" where
  "is_stale_connection_attempt w peer msg_id \<longleftrightarrow>
     map_option rs_connection_id (map_of (w_remotes w) peer) \<noteq> Some msg_id"

section \<open>Operations on remotes\<close>

definition ever_and_stride :: "world \<Rightarrow> server_id \<Rightarrow> bool \<times> nat" where
  "ever_and_stride w peer =
     (case map_of (w_remotes w) peer of
        Some r \<Rightarrow> (rs_ever_connected r, rs_retry_stride r)
      | None \<Rightarrow> (False, INITIAL_RETRY_STRIDE_SECS))"

definition put_remote :: "world \<Rightarrow> server_id \<Rightarrow> remote_state \<Rightarrow> world" where
  "put_remote w peer r = w\<lparr>w_remotes := AList.update peer r (w_remotes w)\<rparr>"

definition alter_remote :: "world \<Rightarrow> server_id \<Rightarrow> (remote_state \<Rightarrow> remote_state) \<Rightarrow> world" where
  "alter_remote w peer f = w\<lparr>w_remotes := AList.map_entry peer f (w_remotes w)\<rparr>"

definition set_remote_connecting1 ::
  "instant \<Rightarrow> connection_id \<Rightarrow> world \<Rightarrow> server_id \<Rightarrow> transport_config \<Rightarrow> world" where
  "set_remote_connecting1 now cid w peer transport =
     (let (ever, stride) = ever_and_stride w peer in
      put_remote w peer \<lparr>rs_transport = transport, rs_status = R_connecting1 now,
        rs_ever_connected = ever, rs_retry_stride = stride, rs_connection_id = cid\<rparr>)"

definition set_remote_connecting2 ::
  "instant \<Rightarrow> connection_id \<Rightarrow> world \<Rightarrow> server_id \<Rightarrow> transport_config \<Rightarrow> world" where
  "set_remote_connecting2 now cid w peer transport =
     (let (ever, stride) = ever_and_stride w peer in
      put_remote w peer \<lparr>rs_transport = transport, rs_status = R_connecting2 now,
        rs_ever_connected = ever, rs_retry_stride = stride, rs_connection_id = cid\<rparr>)"

definition set_remote_pending :: "connection_id \<Rightarrow> world \<Rightarrow> server_id \<Rightarrow> transport_config \<Rightarrow> world" where
  "set_remote_pending cid w peer transport =
     (let (ever, stride, id) =
        (case map_of (w_remotes w) peer of
           Some r \<Rightarrow> (rs_ever_connected r, rs_retry_stride r, rs_connection_id r)
         | None \<Rightarrow> (False, INITIAL_RETRY_STRIDE_SECS, cid))
      in put_remote w peer \<lparr>rs_transport = transport, rs_status = R_pending,
           rs_ever_connected = ever, rs_retry_stride = stride, rs_connection_id = id\<rparr>)"

definition mark_remote_connected :: "world \<Rightarrow> server_id \<Rightarrow> world" where
  "mark_remote_connected w peer =
     alter_remote w peer (\<lambda>r. r\<lparr>rs_status := R_connected, rs_ever_connected := True,
       rs_retry_stride := INITIAL_RETRY_STRIDE_SECS\<rparr>)"

definition mark_remote_disconnected :: "instant \<Rightarrow> world \<Rightarrow> server_id \<Rightarrow> world" where
  "mark_remote_disconnected now w peer =
     alter_remote w peer (\<lambda>r. let stride = rs_retry_stride r in
       r\<lparr>rs_status := R_disconnected (now + secs stride) stride, rs_retry_stride := next_stride stride\<rparr>)"

definition mark_remote_failed :: "world \<Rightarrow> server_id \<Rightarrow> fmt_text \<Rightarrow> world" where
  "mark_remote_failed w peer reason = alter_remote w peer (\<lambda>r. r\<lparr>rs_status := R_failed reason\<rparr>)"

definition remove_remote :: "world \<Rightarrow> server_id \<Rightarrow> world" where
  "remove_remote w peer = w\<lparr>w_remotes := AList.delete peer (w_remotes w)\<rparr>"

section \<open>Operations on signaling servers\<close>

text \<open>\<open>entry(addr).and_modify(f).or_insert_with(d)\<close>.\<close>

definition modify_or_insert ::
  "world \<Rightarrow> string \<Rightarrow> (signaling_state \<Rightarrow> signaling_state) \<Rightarrow> signaling_state \<Rightarrow> world" where
  "modify_or_insert w addr f d =
     w\<lparr>w_signaling := AList.update addr
       (case map_of (w_signaling w) addr of Some s \<Rightarrow> f s | None \<Rightarrow> d) (w_signaling w)\<rparr>"

definition alter_signaling :: "world \<Rightarrow> string \<Rightarrow> (signaling_state \<Rightarrow> signaling_state) \<Rightarrow> world" where
  "alter_signaling w addr f = w\<lparr>w_signaling := AList.map_entry addr f (w_signaling w)\<rparr>"

definition set_signaling_binding :: "instant \<Rightarrow> world \<Rightarrow> string \<Rightarrow> world" where
  "set_signaling_binding now w addr =
     modify_or_insert w addr (\<lambda>s. s\<lparr>ss_status := S_binding now\<rparr>)
       (signaling_state_default\<lparr>ss_status := S_binding now\<rparr>)"

definition mark_signaling_bound :: "world \<Rightarrow> string \<Rightarrow> world" where
  "mark_signaling_bound w addr =
     modify_or_insert w addr
       (\<lambda>s. s\<lparr>ss_status := S_bound, ss_retry_stride := INITIAL_RETRY_STRIDE_SECS\<rparr>)
       (signaling_state_default\<lparr>ss_status := S_bound\<rparr>)"

definition mark_signaling_disconnected :: "instant \<Rightarrow> world \<Rightarrow> string \<Rightarrow> world" where
  "mark_signaling_disconnected now w addr =
     alter_signaling w addr (\<lambda>s.
       let stride = (if ss_retry_stride s = 0 then INITIAL_RETRY_STRIDE_SECS else ss_retry_stride s) in
       s\<lparr>ss_status := S_disconnected (now + secs stride) stride, ss_retry_stride := next_stride stride\<rparr>)"

definition mark_signaling_failed :: "world \<Rightarrow> string \<Rightarrow> fmt_text \<Rightarrow> world" where
  "mark_signaling_failed w addr reason =
     modify_or_insert w addr (\<lambda>s. s\<lparr>ss_status := S_failed reason\<rparr>)
       (signaling_state_default\<lparr>ss_status := S_failed reason\<rparr>)"

definition remove_signaling :: "world \<Rightarrow> string \<Rightarrow> world" where
  "remove_signaling w addr = w\<lparr>w_signaling := AList.delete addr (w_signaling w)\<rparr>"

end
