(* ===== verification/Paths.thy ===== *)
theory Paths
  imports Runtime
begin

text \<open>
  \<open>std::path\<close> on Unix, as far as the server uses it: a path is its byte string, compared by its
  components; joining, prefixes and file names. And the environment the file handlers ask: what
  exists on disk, what opening and reading give, and the third-party functions applied to it.
\<close>

type_synonym path_buf = string

section \<open>Components\<close>

text \<open>The pieces between slashes.\<close>

fun split_slash :: "string \<Rightarrow> string list" where
  "split_slash [] = [[]]"
| "split_slash (c # cs) =
     (if c = CHR ''/'' then [] # split_slash cs
      else (case split_slash cs of p # ps \<Rightarrow> (c # p) # ps | [] \<Rightarrow> [[c]]))"

definition is_absolute :: "path_buf \<Rightarrow> bool" where
  "is_absolute p \<longleftrightarrow> (case p of c # _ \<Rightarrow> c = CHR ''/'' | [] \<Rightarrow> False)"

text \<open>
  \<open>Path::components\<close>: repeated and trailing separators and \<open>.\<close> are dropped, except a leading \<open>.\<close>
  of a relative path; the root is the component ''/''.
\<close>

definition path_comps :: "path_buf \<Rightarrow> string list" where
  "path_comps p =
     (let parts = split_slash p;
          normal = filter (\<lambda>s. s \<noteq> [] \<and> s \<noteq> ''.'') parts
      in if is_absolute p then ''/'' # normal
         else if hd parts = ''.'' then ''.'' # normal else normal)"

definition path_eq :: "path_buf \<Rightarrow> path_buf \<Rightarrow> bool" where
  "path_eq p q \<longleftrightarrow> path_comps p = path_comps q"

definition path_starts_with :: "path_buf \<Rightarrow> path_buf \<Rightarrow> bool" where
  "path_starts_with p base \<longleftrightarrow> prefix (path_comps base) (path_comps p)"

definition path_join :: "path_buf \<Rightarrow> string \<Rightarrow> path_buf" where
  "path_join p q =
     (if is_absolute q then q
      else if p = [] then q
      else if last p = CHR ''/'' then p @ q else p @ ''/'' @ q)"

definition path_file_name :: "path_buf \<Rightarrow> string option" where
  "path_file_name p =
     (case path_comps p of
        [] \<Rightarrow> None
      | cs \<Rightarrow> if last cs = ''/'' \<or> last cs = ''.'' \<or> last cs = ''..'' then None else Some (last cs))"

section \<open>Facts\<close>

lemma split_slash_nonempty: "split_slash s \<noteq> []"
  by (induction s) (auto split: list.splits)

lemma split_slash_sep:
  "split_slash (p @ CHR ''/'' # q) = split_slash p @ split_slash q"
  using split_slash_nonempty by (induction p) (fastforce split: list.splits)+

lemma path_join_relative:
  assumes "p \<noteq> []" and "\<not> is_absolute q" and "last p \<noteq> CHR ''/''"
  shows "split_slash (path_join p q) = split_slash p @ split_slash q"
  using assms by (simp add: path_join_def split_slash_sep)

text \<open>A relative path joined to an absolute root stays below it.\<close>

lemma join_starts_with:
  assumes "is_absolute p" and "\<not> is_absolute q" and "p \<noteq> []" and "last p \<noteq> CHR ''/''"
  shows "path_starts_with (path_join p q) p"
proof -
  have abs: "is_absolute (path_join p q)"
    using assms by (cases p) (auto simp: path_join_def is_absolute_def)
  show ?thesis
    unfolding path_starts_with_def path_comps_def Let_def
    using assms(1) abs path_join_relative [OF assms(3,2,4)] by simp
qed

lemma path_eq_refl [simp]: "path_eq p p"
  by (simp add: path_eq_def)

lemma path_starts_refl [simp]: "path_starts_with p p"
  by (simp add: path_starts_with_def)

end
