(* ===== verification/History_Print.thy ===== *)
theory History_Print
  imports History
begin

text \<open>
  Printing a history (\<open>print_history\<close> and \<open>print_history_debug\<close> of \<open>engine.rs\<close>, \<open>Display\<close> and \<open>Debug\<close>
  of \<open>Op\<close> in \<open>op.rs\<close>). What is printed is a list of pieces: strings of the program, numbers and
  texts of the document. Printing can panic: on an op without sequence number, on a pointer of the
  undo queue that leads nowhere, and on an undo that reaches back too far.
\<close>

datatype piece = P_str string | P_num nat | P_text utext

definition nl :: piece where "nl = P_str [CHR 0x0A]"
definition tab :: piece where "tab = P_str [CHR 0x09]"

section \<open>Ops\<close>

text \<open>A newline, 10, becomes a backslash, 92, and an n, 110.\<close>

definition replace_whitespace_char :: "utext \<Rightarrow> utext" where
  "replace_whitespace_char s = concat (map (\<lambda>c. if c = 10 then [92, 110] else [c]) s)"

definition truncate_for_log :: "utext \<Rightarrow> nat \<Rightarrow> piece list option" where
  "truncate_for_log s max_len =
     (if length s \<le> max_len then Some [P_text (replace_whitespace_char s)]
      else do {
        ensure (10 \<le> length s);
        Some [P_text (replace_whitespace_char (take 10 s)), P_str ''...'',
          P_text (replace_whitespace_char (drop (length s - 10) s)), P_str '' ('', P_num (length s), P_str '' chars)''] })"

definition print_mark :: "bool \<Rightarrow> nat \<times> utext \<Rightarrow> piece list option" where
  "print_mark live m = do {
     content \<leftarrow> truncate_for_log (snd m) 30;
     Some ([P_str (if live then ''mark_live('' else ''mark_dead(''), P_num (fst m), P_str '', ''] @ content @ [P_str '') '']) }"

text \<open>\<open>Debug\<close> prints nothing for a mark without segments, \<open>Display\<close> brackets.\<close>

definition print_op :: "bool \<Rightarrow> op \<Rightarrow> piece list option" where
  "print_op debug o1 =
     (case o1 of
        Ins (pos, content) _ \<Rightarrow> do {
          content \<leftarrow> truncate_for_log content 30;
          Some ([P_str ''ins('', P_num pos, P_str '', ''] @ content @ [P_str '')'']) }
      | Mark ops live _ \<Rightarrow> do {
          marks \<leftarrow> those (map (print_mark live) ops);
          Some ((if ops = [] \<and> \<not> debug then [P_str ''[]''] else []) @ concat marks) })"

section \<open>Histories\<close>

definition print_kind :: "op_kind \<Rightarrow> piece list option" where
  "print_kind kind = (case kind of Original \<Rightarrow> Some [P_str ''O''] | Undo _ \<Rightarrow> Some [P_str ''U''])"

definition print_kind_debug :: "op_kind \<Rightarrow> nat \<Rightarrow> piece list option" where
  "print_kind_debug kind seq =
     (case kind of
        Original \<Rightarrow> Some [P_str ''O'']
      | Undo delta \<Rightarrow> do { k \<leftarrow> sub_c seq delta; Some [P_str ''U('', P_num k, P_str '')''] })"

definition print_acked :: "bool \<Rightarrow> op fat_op \<Rightarrow> piece list option" where
  "print_acked debug f = do {
     seq \<leftarrow> fo_seq f;
     kind \<leftarrow> (if debug then print_kind_debug (fo_kind f) seq else print_kind (fo_kind f));
     t \<leftarrow> print_op debug (fo_op f);
     Some ([P_num seq, tab, P_num (fo_group_seq f), tab] @ kind @ [tab] @ t @ [nl]) }"

definition print_unacked :: "bool \<Rightarrow> nat \<times> op fat_op \<Rightarrow> piece list option" where
  "print_unacked debug x = do {
     kind \<leftarrow> (if debug then print_kind_debug (fo_kind (snd x)) (fst x) else print_kind (fo_kind (snd x)));
     t \<leftarrow> print_op debug (fo_op (snd x));
     Some ([P_str '' '', tab, P_num (fo_group_seq (snd x)), tab] @ kind @ [tab] @ t @ [nl]) }"

definition print_queued :: "bool \<Rightarrow> history \<Rightarrow> nat \<Rightarrow> piece list option" where
  "print_queued debug h idx = do {
     f \<leftarrow> nth_in_undo_queue h idx;
     seq \<leftarrow> nth_c (undo_queue h) idx;
     t \<leftarrow> print_op debug (fo_op f);
     Some ([P_num seq, tab] @ t @ [nl]) }"

definition print_tip :: "history \<Rightarrow> piece list option" where
  "print_tip h =
     (case undo_tip h of
        Some tip \<Rightarrow> do { seq \<leftarrow> nth_c (undo_queue h) tip; Some [nl, P_str ''UNDO TIP: '', P_num seq] }
      | None \<Rightarrow> Some [nl, P_str ''UNDO TIP: EMPTY''])"

definition print_history :: "bool \<Rightarrow> history \<Rightarrow> piece list option" where
  "print_history debug h = do {
     acked \<leftarrow> those (map (print_acked debug) (h_global h));
     unacked \<leftarrow> those (map (print_unacked debug) (enumerate (length (h_global h)) (h_local h)));
     queued \<leftarrow> those (map (print_queued debug h) [0..<length (undo_queue h)]);
     tip \<leftarrow> print_tip h;
     Some ([P_str ''SEQ'', tab, P_str ''GROUP'', tab, P_str ''KIND'', tab, P_str ''OP'', nl, nl, P_str ''ACKED:'', nl, nl] @
       concat acked @ [nl, P_str ''UNACKED:'', nl, nl] @ concat unacked @ [nl, P_str ''UNDO QUEUE:'', nl, nl] @
       concat queued @ tip) }"

section \<open>When printing works\<close>

definition printable :: "history \<Rightarrow> bool" where
  "printable h \<longleftrightarrow> queue_ok h \<and> (\<forall>f \<in> set (h_global h). fo_seq f \<noteq> None) \<and>
     (\<forall>f \<in> set (h_global h @ h_local h). fo_kind f = Original)"

lemma those_defined: "(\<And>x. x \<in> set xs \<Longrightarrow> f x \<noteq> None) \<Longrightarrow> those (map f xs) \<noteq> None"
  by (induction xs) (auto split: option.splits)

lemma truncate_defined: "\<exists>t. truncate_for_log s 30 = Some t"
  by (simp add: truncate_for_log_def ensure_def)

lemma print_mark_defined: "print_mark live m \<noteq> None"
  using truncate_defined [of "snd m"] by (auto simp: print_mark_def)

lemma print_op_defined: "\<exists>t. print_op debug o1 = Some t"
proof (cases o1)
  case (Ins x site)
  with truncate_defined [of "snd x"] show ?thesis by (cases x) (auto simp: print_op_def)
next
  case (Mark ops live site)
  have "those (map (print_mark live) ops) \<noteq> None"
    using print_mark_defined by (intro those_defined)
  with Mark show ?thesis by (auto simp: print_op_def)
qed

lemma nth_in_undo_queue_defined:
  assumes "queue_ok h" and "i < length (undo_queue h)"
  shows "\<exists>f. nth_in_undo_queue h i = Some f"
  using queue_ok_nth [OF assms] assms(2)
  by (auto simp: nth_in_undo_queue_def nth_c_def sub_c_def h_total_len_def ensure_def Let_def)

lemma print_acked_defined:
  assumes "fo_seq f \<noteq> None" and "fo_kind f = Original"
  shows "print_acked debug f \<noteq> None"
  using assms print_op_defined [of debug "fo_op f"] by (auto simp: print_acked_def print_kind_def print_kind_debug_def)

lemma print_unacked_defined:
  assumes "fo_kind (snd x) = Original"
  shows "print_unacked debug x \<noteq> None"
  using assms print_op_defined [of debug "fo_op (snd x)"]
  by (auto simp: print_unacked_def print_kind_def print_kind_debug_def)

lemma print_queued_defined:
  assumes "queue_ok h" and "i < length (undo_queue h)"
  shows "print_queued debug h i \<noteq> None"
proof -
  from nth_in_undo_queue_defined [OF assms] obtain f where "nth_in_undo_queue h i = Some f" by blast
  with assms(2) print_op_defined [of debug "fo_op f"] show ?thesis by (auto simp: print_queued_def nth_c_def)
qed

lemma printable_prints:
  assumes "printable h"
  shows "\<exists>ps. print_history debug h = Some ps"
proof -
  have q: "queue_ok h" using assms by (simp add: printable_def)
  have "those (map (print_acked debug) (h_global h)) \<noteq> None"
    using assms by (intro those_defined print_acked_defined) (auto simp: printable_def)
  moreover have "those (map (print_unacked debug) (enumerate (length (h_global h)) (h_local h))) \<noteq> None"
    using assms by (intro those_defined print_unacked_defined) (auto simp: printable_def in_set_enumerate_eq)
  moreover have "those (map (print_queued debug h) [0..<length (undo_queue h)]) \<noteq> None"
    using print_queued_defined [OF q] by (intro those_defined) simp
  moreover have "\<exists>t. print_tip h = Some t"
    using q by (auto simp: print_tip_def queue_ok_def nth_c_def split: option.splits)
  ultimately show ?thesis by (auto simp: print_history_def)
qed

end
