(* ===== verification/Messages.thy ===== *)
theory Messages
  imports World Paths History_Print
begin

text \<open>
  \<open>message.rs\<close> and the data messages carry: error and notification codes, notes and responses to
  the editor, the messages \<open>Msg\<close> between servers and \<open>SignalingMsg\<close> to the signaling server; and
  the outputs of the server, everything it sends on a channel. JSON values are kept as text.
\<close>

type_synonym json_map = "(string \<times> string) list"
type_synonym request_id = nat

section \<open>Codes\<close>

datatype notification_code =
    RemoteOpsArrived | FileListUpdated | ConnectionBroke | RemoteLeft | FailedToConnect
  | Connecting | ConnectionProgress | AcceptingConnection | AcceptStopped | Connected
  | FileMoved | FileDeleted | FileClosed | InfoReceived
  | UnimportantError | InternalError | ErrorResponse

datatype error_code =
    E_parse_error | E_invalid_request | E_method_not_found | E_invalid_params | E_internal_error
  | E_server_error_start | E_server_error_end | E_not_initialized
  | E_doc_fatal | E_permission_denied | E_io_error | E_network_error | E_bad_request | E_not_connected

fun error_number :: "error_code \<Rightarrow> int" where
  "error_number E_parse_error = -32700"
| "error_number E_invalid_request = -32600"
| "error_number E_method_not_found = -32601"
| "error_number E_invalid_params = -32602"
| "error_number E_internal_error = -32603"
| "error_number E_server_error_start = -32099"
| "error_number E_server_error_end = -32000"
| "error_number E_not_initialized = -32002"
| "error_number E_doc_fatal = 103"
| "error_number E_permission_denied = 104"
| "error_number E_io_error = 105"
| "error_number E_network_error = 106"
| "error_number E_bad_request = 113"
| "error_number E_not_connected = 114"

section \<open>Data\<close>

datatype open_mode = Mode_create | Mode_open

datatype undo_choice = Choose_undo | Choose_redo

record info =
  in_doc_id :: doc_id
  in_sender :: server_id
  in_value :: string

record list_files_entry =
  le_file :: editor_file_desc
  le_filename :: string
  le_is_directory :: bool
  le_meta :: json_map

record new_snapshot =
  sn_content :: utext
  sn_internal_doc :: internal_doc
  sn_name :: string
  sn_seq :: nat
  sn_site_id :: site_id
  sn_file_desc :: file_desc
  sn_doc_id :: doc_id

record hey_message =
  hey_text :: string
  hey_credentials :: string
  hey_version :: string

datatype file_content_or_path = File_content utext | File_path path_buf

text \<open>How an editor's file descriptor is printed.\<close>

definition show_file :: "editor_file_desc \<Rightarrow> string" where
  "show_file ef =
     (if ef_file ef = [] then ef_host_id ef @ ''/'' @ ef_project ef
      else ef_host_id ef @ ''/'' @ ef_project ef @ ''/'' @ ef_file ef)"

section \<open>Messages between servers\<close>

datatype msg =
    M_share_single_file string string file_content_or_path
  | M_file_shared doc_id
  | M_list_files "file_desc option"
  | M_file_list "list_files_entry list"
  | M_op_from_client context_ops
  | M_op_from_server doc_id "op fat_op list"
  | M_request_ops doc_id nat
  | M_request_file file_desc open_mode
  | M_make_directory file_desc
  | M_directory_made file_desc
  | M_move_file project_id string string
  | M_file_moved project_id string string
  | M_save_file doc_id
  | M_file_saved doc_id
  | M_close_file file_desc bool
  | M_file_deleted file_desc
  | M_file_closed file_desc
  | M_snapshot new_snapshot
  | M_reset_from_disk doc_id
  | M_info info
  | M_info_from_client info
  | M_info_from_server info
  | M_ice_progress server_id string
  | M_hey hey_message
  | M_bye
  | M_envoy_init server_id server_id string string "config_project list"
  | M_envoy_init_error string
  | M_failed_to_connect server_id fmt_text connection_id
  | M_connection_broke server_id connection_id
  | M_stop_sending_ops doc_id
  | M_serialization_err fmt_text
  | M_permission_denied fmt_text
  | M_bad_request fmt_text
  | M_doc_fatal doc_id fmt_text
  | M_error_resp error_code "file_desc option" fmt_text

datatype signaling_msg =
    SM_bound server_id "server_id list"
  | SM_connect server_id server_id bool
  | SM_sdp server_id server_id string
  | SM_candidate server_id server_id string
  | SM_trust server_id "server_id list"
  | SM_trusted server_id "server_id list"
  | SM_id_not_found server_id string
  | SM_rejected server_id string
  | SM_ping
  | SM_pong
  | SM_terminate string

section \<open>Messages to the editor\<close>

text \<open>The parameters of notifications.\<close>

datatype editor_note =
    RemoteOpsArrivedNote editor_file_desc nat
  | ConnectionBrokeNote server_id fmt_text
  | ErrorResponseNote error_code "file_desc option" fmt_text
  | HostAndMessageNote server_id fmt_text
  | ConnectingNote server_id
  | FileClosedNote editor_file_desc
  | AcceptingConnectionNote string
  | SignalingAddrNote string
  | FileMovedNote server_id project_id string string
  | FileDeletedNote editor_file_desc
  | SendInfoNote editor_file_desc string server_id
  | AcceptStoppedNote string fmt_text
  | MessageNote fmt_text

record response_error =
  re_code :: error_code
  re_message :: fmt_text

record connection_state_entry =
  cse_host_id :: server_id
  cse_state :: connection_state
  cse_transport :: transport_config
  cse_next_retry_in_secs :: "nat option"

record live_doc_entry =
  lv_file :: editor_file_desc
  lv_subscribers :: "server_id list"
  lv_filename :: string
  lv_meta :: json_map
  lv_seq :: nat

record connected_doc_entry =
  cd_file :: editor_file_desc
  cd_filename :: string
  cd_meta :: json_map

record connection_state_resp =
  cr_connections :: "connection_state_entry list"
  cr_accepting :: "string list"
  cr_live :: "live_doc_entry list"
  cr_connected :: "connected_doc_entry list"
  cr_projects :: "config_project list"
  cr_trusted_hosts :: "server_id hash_set"
  cr_permission :: "(server_id, permission) hash_map"
  cr_cert_hash :: string

record send_ops_resp =
  sr_ops :: "editor_lean_op list"
  sr_last_global_seq :: nat
  sr_pending_local_ops :: nat
  sr_doc_len :: nat

datatype resp =
    Resp_unit
  | InitResp server_id
  | ListFilesResp "list_files_entry list"
  | OpenFileResp utext site_id string editor_file_desc
  | MakeDirectoryResp editor_file_desc
  | MoveFileResp server_id project_id string string
  | SaveFileResp editor_file_desc
  | ResetFromDiskResp editor_file_desc
  | DeleteFileResp editor_file_desc
  | SendOpsResp send_ops_resp
  | UndoResp "edit_instruction list" nat
  | ShareFileResp editor_file_desc site_id
  | ConnectionStateResp connection_state_resp
  | PrintHistoryResp "piece list"

section \<open>Outputs\<close>

text \<open>
  What a handler writes to a channel: a notification or a response to the editor, a message to a
  remote server, a command to the web channel, the signaling channel or the file watcher, and
  what it does to the disk: writing a file, writing one without success (it was truncated, and holds
  an unknown part of the text), opening one (the flag: with permission to create it), making
  directories, renaming and deleting, and saving a configuration to the configuration file.
\<close>

datatype out =
    Notify notification_code editor_note
  | Respond request_id resp "response_error option"
  | To_remote server_id "request_id option" msg
  | Broadcast_remote msg
  | Disconnect server_id
  | Start_connect server_id connection_id "msg list"
  | Sig_bind string server_id "server_id list"
  | Sig_remove string
  | Sig_send string signaling_msg
  | Self_message server_id msg
  | Watch_files "path_buf list"
  | Write_file path_buf utext
  | Spoil_file path_buf
  | Open_file path_buf bool
  | Make_dirs path_buf
  | Rename_path path_buf path_buf
  | Delete_path path_buf
  | Save_config config

end
