(* ===== verification/Server_Docs.thy ===== *)
theory Server_Docs
  imports Messages Editor_View
begin

text \<open>
  The documents of \<open>server.rs\<close>: \<open>Doc\<close> (hosted here), \<open>RemoteDoc\<close> (opened from a host, ourselves
  included) and the container \<open>RemoteDocs\<close>, with their operations. The buffer is a \<open>GapBuffer\<close> of
  the crate \<open>gapbuf\<close>: its type and its operations are a parameter of everything that edits one,
  and what the code relies on is \<open>gapbuf_laws\<close>.
\<close>

section \<open>The buffer\<close>

record 'b gapbuf_ops =
  gb_new :: 'b
  gb_len :: "'b \<Rightarrow> nat"
  gb_insert_many :: "nat \<Rightarrow> utext \<Rightarrow> 'b \<Rightarrow> 'b option"
  gb_drain :: "nat \<Rightarrow> nat \<Rightarrow> 'b \<Rightarrow> 'b option"
  gb_iter :: "'b \<Rightarrow> utext"

text \<open>
  The documented behaviour: a gap buffer is a sequence; \<open>insert_many\<close> inserts before the given
  index, \<open>drain\<close> removes a range, and an index past the end panics.
\<close>

definition gapbuf_laws :: "'b gapbuf_ops \<Rightarrow> bool" where
  "gapbuf_laws B \<longleftrightarrow>
     gb_iter B (gb_new B) = [] \<and>
     (\<forall>b. gb_len B b = length (gb_iter B b)) \<and>
     (\<forall>p s b. map_option (gb_iter B) (gb_insert_many B p s b) = txt_ins p s (gb_iter B b)) \<and>
     (\<forall>p q b. p \<le> q \<longrightarrow> map_option (gb_iter B) (gb_drain B p q b) =
        (if q \<le> length (gb_iter B b) then Some (take p (gb_iter B b) @ drop q (gb_iter B b)) else None))"

text \<open>A buffer with given contents, as \<open>GapBuffer::new\<close> followed by \<open>insert_many(0, ..)\<close> makes it.\<close>

definition buffer_of :: "'b gapbuf_ops \<Rightarrow> utext \<Rightarrow> 'b option" where
  "buffer_of B s = gb_insert_many B 0 s (gb_new B)"

section \<open>Errors of the handlers\<close>

datatype server_error =
    Doc_fatal fmt_text
  | Engine_err engine_error
  | Permission_denied_err fmt_text
  | Other_err fmt_text

text \<open>What \<open>err.to_string()\<close> prints.\<close>

fun err_text :: "server_error \<Rightarrow> fmt_text" where
  "err_text (Doc_fatal t) = Fmt ''Doc fatal error ({0})'' [A_fmt t]"
| "err_text (Engine_err e) = Fmt ''{0}'' [A_err e]"
| "err_text (Permission_denied_err t) = Fmt ''Permission denied: {0}'' [A_fmt t]"
| "err_text (Other_err t) = t"

section \<open>Documents\<close>

datatype path_id = Buffer_id string | Path_id path_buf

fun is_buffer :: "path_id \<Rightarrow> bool" where
  "is_buffer (Buffer_id _) = True"
| "is_buffer (Path_id _) = False"

fun is_file_path :: "path_id \<Rightarrow> bool" where
  "is_file_path (Buffer_id _) = False"
| "is_file_path (Path_id _) = True"

text \<open>The derived equality: paths are compared by their components.\<close>

fun path_id_eq :: "path_id \<Rightarrow> path_id \<Rightarrow> bool" where
  "path_id_eq (Buffer_id a) (Buffer_id b) \<longleftrightarrow> a = b"
| "path_id_eq (Path_id p) (Path_id q) \<longleftrightarrow> path_eq p q"
| "path_id_eq _ _ \<longleftrightarrow> False"

record 'b doc =
  d_name :: string
  d_meta :: json_map
  d_abs_filename :: path_id
  d_canon_filename :: "path_buf option"
  d_file_desc :: file_desc
  d_disk_file :: "path_buf option"
  d_engine :: server_engine
  d_buffer :: 'b
  d_subscribers :: "(server_id, nat) hash_map"
  d_last_saved_at :: instant
  d_next_external_site_seq :: nat

text \<open>\<open>canon\<close> is what \<open>std::fs::canonicalize\<close> returns for a path, \<open>now\<close> the clock.\<close>

definition doc_new ::
  "'b gapbuf_ops \<Rightarrow> (path_buf \<Rightarrow> path_buf option) \<Rightarrow> instant \<Rightarrow> string \<Rightarrow> json_map \<Rightarrow> path_id \<Rightarrow>
     file_desc \<Rightarrow> utext \<Rightarrow> server_engine \<Rightarrow> path_buf option \<Rightarrow> 'b doc option" where
  "doc_new B canon now name meta abs_filename fd content engine disk_file = do {
     buffer \<leftarrow> buffer_of B content;
     Some \<lparr>d_name = name, d_meta = meta, d_abs_filename = abs_filename,
       d_canon_filename = (case abs_filename of Path_id p \<Rightarrow> canon p | Buffer_id _ \<Rightarrow> None),
       d_file_desc = fd, d_disk_file = disk_file, d_engine = engine, d_buffer = buffer,
       d_subscribers = [], d_last_saved_at = now, d_next_external_site_seq = 1\<rparr> }"

text \<open>
  The loops that apply the edits of an instruction from the last to the first. \<open>None\<close> is a panic
  (a \<open>drain\<close> out of range); an insertion past the end is an error.
\<close>

fun insert_edits :: "'b gapbuf_ops \<Rightarrow> edit list \<Rightarrow> 'b \<Rightarrow> ('b \<times> (server_error + unit)) option" where
  "insert_edits B [] b = Some (b, Inr ())"
| "insert_edits B (e # es) b =
     (if ed_pos e > gb_len B b
      then Some (b, Inl (Doc_fatal (Fmt ''Insertion pos > gapbuf_len, {pos} > {gapbuf_len}''
        [A_num (ed_pos e), A_num (gb_len B b)])))
      else do {
        b \<leftarrow> gb_insert_many B (ed_pos e) (ed_content e) b;
        insert_edits B es b })"

fun delete_edits :: "'b gapbuf_ops \<Rightarrow> edit list \<Rightarrow> 'b \<Rightarrow> 'b option" where
  "delete_edits B [] b = Some b"
| "delete_edits B (e # es) b = do {
     b \<leftarrow> gb_drain B (ed_pos e) (ed_pos e + length (ed_content e)) b;
     delete_edits B es b }"

fun edit_buffer :: "'b gapbuf_ops \<Rightarrow> edit_instruction \<Rightarrow> 'b \<Rightarrow> ('b \<times> (server_error + unit)) option" where
  "edit_buffer B (InsEdits es) b = insert_edits B (rev es) b"
| "edit_buffer B (DelEdits es) b = map_option (\<lambda>b. (b, Inr ())) (delete_edits B (rev es) b)"

definition len_mismatch :: "nat \<Rightarrow> nat \<Rightarrow> server_error" where
  "len_mismatch engine_len buffer_len =
     Doc_fatal (Fmt ''Engine editor_len {} doesn't match buffer len {}'' [A_num engine_len, A_num buffer_len])"

definition apply_op :: "'b gapbuf_ops \<Rightarrow> 'b doc \<Rightarrow> op fat_op \<Rightarrow> ('b doc \<times> (server_error + unit)) option" where
  "apply_op B d f = do {
     (instr, engine) \<leftarrow> server_convert_and_apply (d_engine d) f;
     (buffer, r) \<leftarrow> edit_buffer B instr (d_buffer d);
     let d = d\<lparr>d_engine := engine, d_buffer := buffer\<rparr>;
     (case r of
        Inl e \<Rightarrow> Some (d, Inl e)
      | Inr _ \<Rightarrow>
          (let engine_len = editor_len (se_doc (d_engine d)); buffer_len = gb_len B (d_buffer d) in
           if engine_len \<noteq> buffer_len then Some (d, Inl (len_mismatch engine_len buffer_len))
           else Some (d, Inr ()))) }"

text \<open>The loops \<open>for op in &processed { doc.apply_op(op.clone())?; }\<close>.\<close>

fun apply_ops :: "'b gapbuf_ops \<Rightarrow> 'b doc \<Rightarrow> op fat_op list \<Rightarrow> ('b doc \<times> (server_error + unit)) option" where
  "apply_ops B d [] = Some (d, Inr ())"
| "apply_ops B d (f # fs) = do {
     (d, r) \<leftarrow> apply_op B d f;
     (case r of Inl e \<Rightarrow> Some (d, Inl e) | Inr _ \<Rightarrow> apply_ops B d fs) }"

text \<open>
  Saving: how the calls on the file end is an argument. The truncation may fail, which leaves the file
  alone, or a later call (the seek, the write, the sync), after which the file holds an unknown part of
  the text. What changes here is the time before which file events are ignored.
\<close>

datatype save_outcome = Saved | Truncation_failed fmt_text | Write_failed fmt_text

definition LAST_SAVED_AT_BUFFER :: nat where
  "LAST_SAVED_AT_BUFFER = 100"

definition save_to_disk ::
  "'b gapbuf_ops \<Rightarrow> (path_buf \<Rightarrow> save_outcome) \<Rightarrow> instant \<Rightarrow> 'b doc \<Rightarrow>
     'b doc \<times> out list \<times> (server_error + unit)" where
  "save_to_disk B outcome now d =
     (case d_disk_file d of
        None \<Rightarrow> (d, [], Inr ())
      | Some file \<Rightarrow>
          (case outcome file of
             Truncation_failed e \<Rightarrow> (d, [], Inl (Other_err e))
           | Write_failed e \<Rightarrow> (d, [Spoil_file file], Inl (Other_err e))
           | Saved \<Rightarrow> (d\<lparr>d_last_saved_at := now + LAST_SAVED_AT_BUFFER\<rparr>,
               [Write_file file (gb_iter B (d_buffer d))], Inr ())))"

definition doc_matches :: "'b doc \<Rightarrow> path_id \<Rightarrow> bool" where
  "doc_matches d p = path_id_eq (d_abs_filename d) p"

section \<open>Remote documents\<close>

record 'b remote_doc =
  r_name :: string
  r_file_desc :: file_desc
  r_next_site_seq :: nat
  r_meta :: json_map
  r_remote_op_buffer :: "op fat_op list"
  r_engine :: client_engine
  r_buffer :: 'b

definition apply_edit_instruction_unchecked ::
  "'b gapbuf_ops \<Rightarrow> 'b remote_doc \<Rightarrow> edit_instruction \<Rightarrow> ('b remote_doc \<times> (server_error + unit)) option" where
  "apply_edit_instruction_unchecked B rd instr = do {
     (buffer, r) \<leftarrow> edit_buffer B instr (r_buffer rd);
     Some (rd\<lparr>r_buffer := buffer\<rparr>, r) }"

definition verify_buffer_engine_sync :: "'b gapbuf_ops \<Rightarrow> 'b remote_doc \<Rightarrow> server_error + unit" where
  "verify_buffer_engine_sync B rd =
     (let engine_len = editor_len (ce_doc (r_engine rd)); buffer_len = gb_len B (r_buffer rd) in
      if engine_len \<noteq> buffer_len then Inl (len_mismatch engine_len buffer_len) else Inr ())"

definition apply_edit_instruction ::
  "'b gapbuf_ops \<Rightarrow> 'b remote_doc \<Rightarrow> edit_instruction \<Rightarrow> ('b remote_doc \<times> (server_error + unit)) option" where
  "apply_edit_instruction B rd instr = do {
     (rd, r) \<leftarrow> apply_edit_instruction_unchecked B rd instr;
     (case r of Inl e \<Rightarrow> Some (rd, Inl e) | Inr _ \<Rightarrow> Some (rd, verify_buffer_engine_sync B rd)) }"

section \<open>The container of remote documents\<close>

record 'b remote_docs =
  rd_docs :: "(server_id \<times> doc_id, 'b remote_doc) hash_map"
  rd_editor_map :: "(editor_file_desc, doc_id) hash_map"

definition rd_new :: "'b remote_docs" where
  "rd_new = \<lparr>rd_docs = [], rd_editor_map = []\<rparr>"

definition rd_insert ::
  "'b remote_docs \<Rightarrow> server_id \<Rightarrow> doc_id \<Rightarrow> 'b remote_doc \<Rightarrow> editor_file_desc \<Rightarrow> 'b remote_docs" where
  "rd_insert s host doc rd fd =
     s\<lparr>rd_docs := AList.update (host, doc) rd (rd_docs s),
       rd_editor_map := AList.update fd doc (rd_editor_map s)\<rparr>"

definition rd_get :: "'b remote_docs \<Rightarrow> server_id \<Rightarrow> doc_id \<Rightarrow> 'b remote_doc option" where
  "rd_get s host doc = map_of (rd_docs s) (host, doc)"

text \<open>\<open>get_mut\<close> is \<open>get\<close> followed by storing the changed document.\<close>

definition rd_set :: "'b remote_docs \<Rightarrow> server_id \<Rightarrow> doc_id \<Rightarrow> 'b remote_doc \<Rightarrow> 'b remote_docs" where
  "rd_set s host doc rd = s\<lparr>rd_docs := AList.map_entry (host, doc) (\<lambda>_. rd) (rd_docs s)\<rparr>"

definition get_by_editor_desc ::
  "'b remote_docs \<Rightarrow> editor_file_desc \<Rightarrow> (doc_id \<times> 'b remote_doc) option" where
  "get_by_editor_desc s fd = do {
     doc \<leftarrow> map_of (rd_editor_map s) fd;
     rd \<leftarrow> map_of (rd_docs s) (ef_host_id fd, doc);
     Some (doc, rd) }"

definition rd_remove ::
  "'b remote_docs \<Rightarrow> server_id \<Rightarrow> doc_id \<Rightarrow> 'b remote_docs \<times> 'b remote_doc option" where
  "rd_remove s host doc =
     (case map_of (rd_docs s) (host, doc) of
        None \<Rightarrow> (s, None)
      | Some rd \<Rightarrow>
          (s\<lparr>rd_docs := AList.delete (host, doc) (rd_docs s),
             rd_editor_map := AList.delete (editor_file_desc_new (r_file_desc rd) host) (rd_editor_map s)\<rparr>,
           Some rd))"

definition remove_by_editor_desc ::
  "'b remote_docs \<Rightarrow> editor_file_desc \<Rightarrow> 'b remote_docs \<times> 'b remote_doc option" where
  "remove_by_editor_desc s fd =
     (case map_of (rd_editor_map s) fd of
        None \<Rightarrow> (s, None)
      | Some doc \<Rightarrow>
          (s\<lparr>rd_editor_map := AList.delete fd (rd_editor_map s),
             rd_docs := AList.delete (ef_host_id fd, doc) (rd_docs s)\<rparr>,
           map_of (rd_docs s) (ef_host_id fd, doc)))"

end
