(* ===== verification/Server_State.thy ===== *)
theory Server_State
  imports Server_Docs
begin

text \<open>
  The state of \<open>Server\<close> (\<open>server.rs\<close>) and the helpers its handlers share. Everything a handler
  sends is appended to \<open>sv_out\<close>, in order; \<open>sv_fix_world\<close> is the permit of \<open>fix_world_notify\<close>. A
  handler returns the new state, with an error or value beside it where it has a \<open>Result\<close>; \<open>None\<close>
  is a panic.
\<close>

section \<open>State\<close>

record project =
  pj_name :: string
  pj_root :: string
  pj_meta :: json_map

record 'b server =
  sv_host_id :: server_id
  sv_host_name :: string
  sv_site_id :: site_id
  sv_next_site_id :: u32
  sv_next_doc_id :: u32
  sv_docs :: "(doc_id, 'b doc) hash_map"
  sv_remote_docs :: "'b remote_docs"
  sv_projects :: "(project_id, project) hash_map"
  sv_site_id_map :: "(server_id, site_id) hash_map"
  sv_config :: config
  sv_cert_hash :: string
  sv_ideal_world :: world
  sv_current_world :: world
  sv_local_trusted_hosts :: "server_id hash_set"
  sv_fix_world :: bool
  sv_out :: "out list"

text \<open>The request id of the message being handled, if it has one.\<close>

record next_ctx =
  nx_req_id :: "request_id option"

definition server_new_with_keycert :: "server_id \<Rightarrow> string \<Rightarrow> config \<Rightarrow> string \<Rightarrow> 'b server" where
  "server_new_with_keycert host_id host_name c cert_hash =
     \<lparr>sv_host_id = host_id, sv_host_name = host_name, sv_site_id = 0, sv_next_site_id = 1,
      sv_next_doc_id = 1, sv_docs = [], sv_remote_docs = rd_new, sv_projects = [],
      sv_site_id_map = [], sv_config = c, sv_cert_hash = cert_hash,
      sv_ideal_world = world_default\<lparr>w_trusted := cf_trusted_hosts c\<rparr>,
      sv_current_world = world_default, sv_local_trusted_hosts = [], sv_fix_world = False,
      sv_out = []\<rparr>"

section \<open>Sending\<close>

definition emit :: "out \<Rightarrow> 'b server \<Rightarrow> 'b server" where
  "emit x s = s\<lparr>sv_out := sv_out s @ [x]\<rparr>"

text \<open>
  \<open>replace_and_save\<close>: the new configuration is in force and is given to \<open>save_config\<close>, which makes the
  directory and writes the configuration file; the error this may end in is an argument.
\<close>

definition replace_and_save :: "fmt_text option \<Rightarrow> config \<Rightarrow> 'b server \<Rightarrow> 'b server \<times> (fmt_text + unit)" where
  "replace_and_save save_err new_config s =
     (emit (Save_config new_config) (s\<lparr>sv_config := new_config\<rparr>),
      (case save_err of Some e \<Rightarrow> Inl e | None \<Rightarrow> Inr ()))"

definition send_notif :: "notification_code \<Rightarrow> editor_note \<Rightarrow> 'b server \<Rightarrow> 'b server" where
  "send_notif code params = emit (Notify code params)"

text \<open>Responding unwraps the request id.\<close>

definition send_resp ::
  "next_ctx \<Rightarrow> resp \<Rightarrow> response_error option \<Rightarrow> 'b server \<Rightarrow> 'b server option" where
  "send_resp nx result err s =
     (case nx_req_id nx of None \<Rightarrow> None | Some rid \<Rightarrow> Some (emit (Respond rid result err) s))"

definition send_error :: "next_ctx \<Rightarrow> error_code \<Rightarrow> fmt_text \<Rightarrow> 'b server \<Rightarrow> 'b server option" where
  "send_error nx code message = send_resp nx Resp_unit (Some \<lparr>re_code = code, re_message = message\<rparr>)"

definition send_to_remote :: "next_ctx \<Rightarrow> server_id \<Rightarrow> msg \<Rightarrow> 'b server \<Rightarrow> 'b server" where
  "send_to_remote nx host m = emit (To_remote host (nx_req_id nx) m)"

definition send_to_remote_no_req_id :: "server_id \<Rightarrow> msg \<Rightarrow> 'b server \<Rightarrow> 'b server" where
  "send_to_remote_no_req_id host m = emit (To_remote host None m)"

text \<open>The loops that send one message to several hosts.\<close>

fun send_to_all :: "next_ctx \<Rightarrow> server_id list \<Rightarrow> msg \<Rightarrow> 'b server \<Rightarrow> 'b server" where
  "send_to_all nx [] m s = s"
| "send_to_all nx (h # hs) m s = send_to_all nx hs m (send_to_remote nx h m s)"

definition fix_world_next :: "'b server \<Rightarrow> 'b server" where
  "fix_world_next s = s\<lparr>sv_fix_world := True\<rparr>"

lemma sv_out_emit [simp]: "sv_out (emit x s) = sv_out s @ [x]"
  by (simp add: emit_def)

lemma send_to_all_eq:
  "send_to_all nx hs m s = s\<lparr>sv_out := sv_out s @ map (\<lambda>h. To_remote h (nx_req_id nx) m) hs\<rparr>"
  by (induction hs arbitrary: s) (auto simp: send_to_remote_def emit_def)

section \<open>Lookups\<close>

definition resend_watch_files :: "'b server \<Rightarrow> 'b server" where
  "resend_watch_files s =
     emit (Watch_files (concat (map (\<lambda>(_, d). case d_abs_filename d of
        Path_id p \<Rightarrow> [p] | Buffer_id _ \<Rightarrow> []) (sv_docs s)))) s"

definition local_docs_not_in_any_project :: "'b server \<Rightarrow> (doc_id \<times> 'b doc) list" where
  "local_docs_not_in_any_project s =
     filter (\<lambda>(_, d). case d_abs_filename d of
         Path_id p \<Rightarrow> \<not> list_ex (\<lambda>(_, pj). path_starts_with p (pj_root pj)) (sv_projects s)
       | Buffer_id _ \<Rightarrow> False) (sv_docs s)"

definition path_id_from_file_desc :: "'b server \<Rightarrow> file_desc \<Rightarrow> server_error + path_id" where
  "path_id_from_file_desc s fd =
     (case fd of
        Project pid \<Rightarrow>
          (case map_of (sv_projects s) pid of
             Some pj \<Rightarrow> Inr (Path_id (pj_root pj))
           | None \<Rightarrow> Inl (Other_err (Fmt ''Project {} not found'' [A_str pid])))
      | ProjectFile pid file \<Rightarrow>
          (if pid = RESERVED_BUFFERS_PROJECT then Inr (Buffer_id file)
           else if pid = RESERVED_FILES_PROJECT then Inr (Path_id file)
           else (case map_of (sv_projects s) pid of
                   Some pj \<Rightarrow> Inr (Path_id (path_join (pj_root pj) file))
                 | None \<Rightarrow> Inl (Other_err (Fmt ''Project {} not found'' [A_str pid])))))"

text \<open>\<open>id_hash\<close> slices the id, which could panic; the ids are those of the trusted sets.\<close>

fun any_hash :: "string \<Rightarrow> server_id list \<Rightarrow> bool option" where
  "any_hash h [] = Some False"
| "any_hash h (i # is) = do { h' \<leftarrow> id_hash i; (if h' = h then Some True else any_hash h is) }"

definition is_cert_trusted :: "'b server \<Rightarrow> string \<Rightarrow> bool option" where
  "is_cert_trusted s cert_hash = do {
     a \<leftarrow> any_hash cert_hash (w_trusted (sv_ideal_world s));
     (if a then Some True else any_hash cert_hash (sv_local_trusted_hosts s)) }"

text \<open>\<open>fetch_add\<close> on an \<open>AtomicU32\<close> wraps around.\<close>

definition site_id_of :: "server_id \<Rightarrow> 'b server \<Rightarrow> site_id \<times> 'b server" where
  "site_id_of host s =
     (case map_of (sv_site_id_map s) host of
        Some i \<Rightarrow> (i, s)
      | None \<Rightarrow>
          (sv_next_site_id s,
           s\<lparr>sv_next_site_id := sv_next_site_id s + 1,
             sv_site_id_map := AList.update host (sv_next_site_id s) (sv_site_id_map s)\<rparr>))"

definition get_remote_doc :: "'b server \<Rightarrow> editor_file_desc \<Rightarrow> (doc_id \<times> 'b remote_doc) option" where
  "get_remote_doc s fd = get_by_editor_desc (sv_remote_docs s) fd"

definition set_remote_doc :: "server_id \<Rightarrow> doc_id \<Rightarrow> 'b remote_doc \<Rightarrow> 'b server \<Rightarrow> 'b server" where
  "set_remote_doc host doc rd s = s\<lparr>sv_remote_docs := rd_set (sv_remote_docs s) host doc rd\<rparr>"

definition drop_remote_doc :: "server_id \<Rightarrow> doc_id \<Rightarrow> 'b server \<Rightarrow> 'b server" where
  "drop_remote_doc host doc s = s\<lparr>sv_remote_docs := fst (rd_remove (sv_remote_docs s) host doc)\<rparr>"

definition set_doc :: "doc_id \<Rightarrow> 'b doc \<Rightarrow> 'b server \<Rightarrow> 'b server" where
  "set_doc doc d s = s\<lparr>sv_docs := AList.map_entry doc (\<lambda>_. d) (sv_docs s)\<rparr>"

definition remote_connected :: "'b server \<Rightarrow> server_id \<Rightarrow> bool" where
  "remote_connected s host \<longleftrightarrow>
     map_option rs_status (map_of (w_remotes (sv_current_world s)) host) = Some R_connected"

definition check_connection :: "next_ctx \<Rightarrow> server_id \<Rightarrow> 'b server \<Rightarrow> ('b server \<times> bool) option" where
  "check_connection nx host s =
     (if host = sv_host_id s then Some (s, True)
      else if remote_connected s host then Some (s, True)
      else do {
        s \<leftarrow> send_error nx E_not_connected (Fmt ''Not connected to remote {}'' [A_str host]) s;
        Some (s, False) })"

section \<open>Projects\<close>

text \<open>\<open>expanduser\<close> is a crate; its result is an argument.\<close>

fun expand_project_paths ::
  "(string \<Rightarrow> fmt_text + path_buf) \<Rightarrow> config_project list \<Rightarrow> server_error + config_project list" where
  "expand_project_paths expand [] = Inr []"
| "expand_project_paths expand (p # ps) =
     (case expand (cp_path p) of
        Inl e \<Rightarrow> Inl (Other_err (Fmt ''Failed to expand path {}: {}'' [A_str (cp_path p), A_fmt e]))
      | Inr q \<Rightarrow>
          (if \<not> is_absolute q
           then Inl (Other_err (Fmt
             ''Project path '{}' is not absolute. All project paths must be absolute.'' [A_str q]))
           else (case expand_project_paths expand ps of
                   Inl e \<Rightarrow> Inl e
                 | Inr qs \<Rightarrow> Inr (p\<lparr>cp_path := q\<rparr> # qs))))"

fun insert_projects :: "config_project list \<Rightarrow> 'b server \<Rightarrow> 'b server" where
  "insert_projects [] s = s"
| "insert_projects (p # ps) s =
     insert_projects ps (s\<lparr>sv_projects := AList.update (cp_name p)
       \<lparr>pj_name = cp_name p, pj_root = cp_path p, pj_meta = []\<rparr> (sv_projects s)\<rparr>)"

definition is_reserved :: "string \<Rightarrow> bool" where
  "is_reserved name \<longleftrightarrow> name = RESERVED_BUFFERS_PROJECT \<or> name = RESERVED_FILES_PROJECT"

text \<open>The \<open>DeclareProjects\<close> request.\<close>

definition handle_declare_projects ::
  "(string \<Rightarrow> fmt_text + path_buf) \<Rightarrow> next_ctx \<Rightarrow> config_project list \<Rightarrow> 'b server \<Rightarrow> 'b server option" where
  "handle_declare_projects expand nx projects s =
     (case filter (\<lambda>p. is_reserved (cp_name p)) projects of
        p # _ \<Rightarrow> send_error nx E_bad_request
                   (Fmt ''Project name {} is reserved and cannot be used'' [A_str (cp_name p)]) s
      | [] \<Rightarrow>
          (case expand_project_paths expand projects of
             Inl e \<Rightarrow> send_error nx E_io_error (err_text e) s
           | Inr ps \<Rightarrow> send_resp nx Resp_unit None (insert_projects ps s)))"

text \<open>Bootstrapping an envoy: the ids are fresh connection ids.\<close>

definition init_for_envoy ::
  "(string \<Rightarrow> fmt_text + path_buf) \<Rightarrow> instant \<Rightarrow> connection_id \<Rightarrow> connection_id \<Rightarrow> server_id \<Rightarrow>
     config_project list \<Rightarrow> 'b server \<Rightarrow> 'b server \<times> (server_error + unit)" where
  "init_for_envoy expand now cid1 cid2 host projects s =
     (case filter (\<lambda>p. is_reserved (cp_name p)) projects of
        p # _ \<Rightarrow> (s, Inl (Other_err (Fmt ''Project name {} is reserved'' [A_str (cp_name p)])))
      | [] \<Rightarrow>
          (case expand_project_paths expand projects of
             Inl e \<Rightarrow> (s, Inl e)
           | Inr ps \<Rightarrow>
               (let s = insert_projects ps s;
                    transport = SshStdio ''N/A'' [] [];
                    ideal = (sv_ideal_world s)\<lparr>w_trusted := List.insert host (w_trusted (sv_ideal_world s))\<rparr>;
                    ideal = put_remote ideal host \<lparr>rs_transport = transport, rs_status = R_connected,
                      rs_ever_connected = False, rs_retry_stride = INITIAL_RETRY_STRIDE_SECS,
                      rs_connection_id = cid1\<rparr>
                in (s\<lparr>sv_ideal_world := ideal,
                      sv_config := add_permission (sv_config s) host
                        \<lparr>pm_write = True, pm_create = True, pm_delete = True\<rparr>,
                      sv_current_world := set_remote_connecting2 now cid2 (sv_current_world s) host transport\<rparr>,
                    Inr ()))))"

end
