(* ===== verification/Server_Connect.thy ===== *)
theory Server_Connect
  imports Server_State
begin

text \<open>
  How \<open>server.rs\<close> keeps its connections: \<open>fix_world\<close> with its three passes, the handlers of the
  messages of the signaling server, and the connection messages of peers and of the editor. The
  clock, the results of sending and binding, fresh connection ids and the temporary certificate
  of an envoy come from the environment of a call.
\<close>

record conn_env =
  cv_now :: instant
  cv_now_secs :: nat
  cv_bind :: "string \<Rightarrow> fmt_text option"
  cv_send :: "string \<Rightarrow> signaling_msg \<Rightarrow> fmt_text option"
  cv_cid :: "server_id \<Rightarrow> connection_id"
  cv_gen_cert :: "string \<Rightarrow> fmt_text + string \<times> string \<times> string"

definition hey_msg :: msg where
  "hey_msg = M_hey \<lparr>hey_text = ''Nice to meet ya'', hey_credentials = '''', hey_version = ''v1.0.0''\<rparr>"

definition upd_current :: "(world \<Rightarrow> world) \<Rightarrow> 'b server \<Rightarrow> 'b server" where
  "upd_current f s = s\<lparr>sv_current_world := f (sv_current_world s)\<rparr>"

definition upd_ideal :: "(world \<Rightarrow> world) \<Rightarrow> 'b server \<Rightarrow> 'b server" where
  "upd_ideal f s = s\<lparr>sv_ideal_world := f (sv_ideal_world s)\<rparr>"

section \<open>The signaling pass\<close>

definition binding_timed_out :: "instant \<Rightarrow> signaling_state \<Rightarrow> bool" where
  "binding_timed_out now st =
     (case ss_status st of S_binding since \<Rightarrow> duration_since now since > secs 10 | _ \<Rightarrow> False)"

fun fail_bindings :: "string list \<Rightarrow> 'b server \<Rightarrow> 'b server" where
  "fail_bindings [] s = s"
| "fail_bindings (a # as) s =
     fail_bindings as (emit (Sig_remove a)
       (upd_current (\<lambda>w. mark_signaling_failed w a (lit ''bind timeout'')) s))"

fun drop_signaling :: "string list \<Rightarrow> 'b server \<Rightarrow> 'b server" where
  "drop_signaling [] s = s"
| "drop_signaling (a # as) s =
     drop_signaling as (upd_current (\<lambda>w. remove_signaling w a) (emit (Sig_remove a) s))"

definition wants_bind :: "instant \<Rightarrow> world \<Rightarrow> string \<Rightarrow> bool" where
  "wants_bind now current addr =
     (case map_of (w_signaling current) addr of
        None \<Rightarrow> True
      | Some st \<Rightarrow>
          (case ss_status st of
             S_pending \<Rightarrow> True
           | S_disconnected next_retry_at _ \<Rightarrow> now \<ge> next_retry_at
           | _ \<Rightarrow> False))"

definition bind_one :: "conn_env \<Rightarrow> string \<Rightarrow> 'b server \<Rightarrow> 'b server" where
  "bind_one v a s =
     (let s = upd_current (\<lambda>w. set_signaling_binding (cv_now v) w a) s;
          s = send_notif ConnectionProgress
                (MessageNote (Fmt ''Binding to signaling server {}'' [A_str a])) s;
          trusted = (case map_of (w_signaling (sv_ideal_world s)) a of
                       Some st \<Rightarrow> ss_trusted st | None \<Rightarrow> []);
          s = emit (Sig_bind a (sv_host_id s) trusted) s
      in case cv_bind v a of
           None \<Rightarrow> s
         | Some e \<Rightarrow> send_notif AcceptStopped (AcceptingConnectionNote a)
                       (upd_current (\<lambda>w. mark_signaling_failed w a e) s))"

fun start_bindings :: "conn_env \<Rightarrow> string list \<Rightarrow> 'b server \<Rightarrow> 'b server" where
  "start_bindings v [] s = s"
| "start_bindings v (a # as) s = start_bindings v as (bind_one v a s)"

definition wants_trust_sync :: "nat \<Rightarrow> server_id hash_set \<Rightarrow> signaling_state \<Rightarrow> bool" where
  "wants_trust_sync now_secs ideal_trusted st \<longleftrightarrow>
     ss_status st = S_bound \<and> \<not> same_set (ss_trusted st) ideal_trusted \<and>
     (case ss_trust_sent_at st of Some t \<Rightarrow> now_secs - t \<ge> 5 | None \<Rightarrow> True)"

fun sync_trust :: "conn_env \<Rightarrow> string list \<Rightarrow> 'b server \<Rightarrow> 'b server" where
  "sync_trust v [] s = s"
| "sync_trust v (a # as) s =
     sync_trust v as
       (emit (Sig_send a (SM_trust (sv_host_id s) (w_trusted (sv_ideal_world s))))
         (upd_current (\<lambda>w. alter_signaling w a (\<lambda>st. st\<lparr>ss_trust_sent_at := Some (cv_now_secs v)\<rparr>)) s))"

definition fix_world_signaling :: "conn_env \<Rightarrow> 'b server \<Rightarrow> 'b server" where
  "fix_world_signaling v s =
     (let timed_out = map fst (filter (\<lambda>(_, st). binding_timed_out (cv_now v) st) (w_signaling (sv_current_world s)));
          s = fail_bindings timed_out s;
          to_remove = filter (\<lambda>a. a \<notin> set (keys (w_signaling (sv_ideal_world s)))) (keys (w_signaling (sv_current_world s)));
          s = drop_signaling to_remove s;
          to_bind = filter (wants_bind (cv_now v) (sv_current_world s)) (keys (w_signaling (sv_ideal_world s)));
          s = start_bindings v to_bind s;
          to_sync = map fst (filter (\<lambda>(_, st). wants_trust_sync (cv_now_secs v) (w_trusted (sv_ideal_world s)) st)
                      (w_signaling (sv_current_world s)))
      in sync_trust v to_sync s)"

section \<open>Starting a connection\<close>

definition send_connect_message :: "conn_env \<Rightarrow> server_id \<Rightarrow> string \<Rightarrow> bool \<Rightarrow> 'b server \<Rightarrow> 'b server" where
  "send_connect_message v peer addr initiator s =
     (let m = SM_connect (sv_host_id s) peer initiator; s = emit (Sig_send addr m) s in
      case cv_send v addr m of
        None \<Rightarrow> s
      | Some e \<Rightarrow>
          (let reason = Fmt ''Failed to send Connect message: {}'' [A_fmt e] in
           send_notif ConnectionBroke (ConnectionBrokeNote peer reason)
             (upd_current (\<lambda>w. mark_remote_failed w peer reason) s)))"

definition try_connect_remote_sctp :: "conn_env \<Rightarrow> server_id \<Rightarrow> string \<Rightarrow> 'b server \<Rightarrow> 'b server" where
  "try_connect_remote_sctp v peer addr s =
     (let s = send_notif Connecting (ConnectingNote peer) s;
          s = upd_current (\<lambda>w. set_remote_connecting1 (cv_now v) (cv_cid v peer) w peer (SCTP addr)) s
      in send_connect_message v peer addr True s)"

definition try_connect_remote_ssh ::
  "conn_env \<Rightarrow> server_id \<Rightarrow> string \<Rightarrow> string list \<Rightarrow> config_project list \<Rightarrow> 'b server \<Rightarrow> 'b server" where
  "try_connect_remote_ssh v peer ssh_host command projects s =
     (let s = send_notif Connecting (ConnectingNote peer) s;
          cid = cv_cid v peer;
          s = upd_current (\<lambda>w. set_remote_connecting1 (cv_now v) cid w peer (SshStdio ssh_host command projects)) s;
          envoy_name = sv_host_name s @ ''-envoy''
      in case cv_gen_cert v envoy_name of
           Inl e \<Rightarrow>
             (let reason = Fmt ''Failed to generate cert: {}'' [A_fmt e] in
              emit (Self_message envoy_name (M_failed_to_connect envoy_name reason cid))
                (upd_current (\<lambda>w. mark_remote_failed w peer reason) s))
         | Inr (key_pem, cert_pem, cert_hash) \<Rightarrow>
             (let envoy_id = envoy_name @ ''::'' @ cert_hash;
                  s = s\<lparr>sv_local_trusted_hosts := List.insert envoy_id (sv_local_trusted_hosts s)\<rparr>
              in emit (Start_connect envoy_id cid
                   [M_envoy_init (sv_host_id s) envoy_id key_pem cert_pem projects, hey_msg]) s))"

definition try_connect_remote :: "conn_env \<Rightarrow> server_id \<Rightarrow> transport_config \<Rightarrow> 'b server \<Rightarrow> 'b server" where
  "try_connect_remote v peer transport s =
     (if peer = sv_host_id s then s
      else (case transport of
              SshStdio ssh_host command projects \<Rightarrow> try_connect_remote_ssh v peer ssh_host command projects s
            | SCTP addr \<Rightarrow> try_connect_remote_sctp v peer addr s))"

section \<open>The remote pass\<close>

fun drop_remotes :: "server_id list \<Rightarrow> 'b server \<Rightarrow> 'b server" where
  "drop_remotes [] s = s"
| "drop_remotes (p # ps) s = drop_remotes ps (upd_current (\<lambda>w. remove_remote w p) (emit (Disconnect p) s))"

definition wants_start :: "instant \<Rightarrow> world \<Rightarrow> server_id \<Rightarrow> bool" where
  "wants_start now current peer =
     (case map_of (w_remotes current) peer of
        None \<Rightarrow> True
      | Some r \<Rightarrow>
          (case rs_status r of
             R_pending \<Rightarrow> True
           | R_disconnected next_retry_at _ \<Rightarrow> now \<ge> next_retry_at
           | _ \<Rightarrow> False))"

definition signaling_bound :: "world \<Rightarrow> string \<Rightarrow> bool" where
  "signaling_bound w addr \<longleftrightarrow> map_option ss_status (map_of (w_signaling w) addr) = Some S_bound"

definition unbound :: "world \<Rightarrow> transport_config \<Rightarrow> bool" where
  "unbound w transport = (case transport of SCTP addr \<Rightarrow> \<not> signaling_bound w addr | SshStdio _ _ _ \<Rightarrow> False)"

definition start_one :: "conn_env \<Rightarrow> server_id \<Rightarrow> transport_config \<Rightarrow> 'b server \<Rightarrow> 'b server" where
  "start_one v p transport s =
     (if unbound (sv_current_world s) transport
      then upd_current (\<lambda>w. set_remote_pending (cv_cid v p) w p transport) s
      else try_connect_remote v p transport s)"

fun start_remotes :: "conn_env \<Rightarrow> (server_id \<times> transport_config) list \<Rightarrow> 'b server \<Rightarrow> 'b server" where
  "start_remotes v [] s = s"
| "start_remotes v ((p, transport) # ps) s = start_remotes v ps (start_one v p transport s)"

definition fix_world_remotes :: "conn_env \<Rightarrow> 'b server \<Rightarrow> 'b server" where
  "fix_world_remotes v s =
     (let to_remove = filter (\<lambda>p. p \<notin> set (keys (w_remotes (sv_ideal_world s)))) (keys (w_remotes (sv_current_world s)));
          s = drop_remotes to_remove s;
          to_start = map (\<lambda>(p, r). (p, rs_transport r))
            (filter (\<lambda>(p, _). wants_start (cv_now v) (sv_current_world s) p) (w_remotes (sv_ideal_world s)))
      in start_remotes v to_start s)"

section \<open>The timeout pass\<close>

definition remote_timed_out :: "instant \<Rightarrow> remote_state \<Rightarrow> string option" where
  "remote_timed_out now r =
     (case rs_status r of
        R_connecting1 since \<Rightarrow> if duration_since now since > secs 10 then Some ''stage1 timeout'' else None
      | R_connecting2 since \<Rightarrow> if duration_since now since > secs 30 then Some ''stage2 timeout'' else None
      | _ \<Rightarrow> None)"

text \<open>Disconnected if the peer was ever connected, failed otherwise.\<close>

definition ever_connected :: "world \<Rightarrow> server_id \<Rightarrow> bool" where
  "ever_connected w peer = (case map_of (w_remotes w) peer of Some r \<Rightarrow> rs_ever_connected r | None \<Rightarrow> False)"

definition give_up :: "instant \<Rightarrow> server_id \<Rightarrow> string \<Rightarrow> world \<Rightarrow> world" where
  "give_up now p reason w =
     (if ever_connected w p then mark_remote_disconnected now w p else mark_remote_failed w p (lit reason))"

fun time_out_remotes :: "instant \<Rightarrow> (server_id \<times> string) list \<Rightarrow> 'b server \<Rightarrow> 'b server" where
  "time_out_remotes now [] s = s"
| "time_out_remotes now ((p, reason) # ps) s =
     time_out_remotes now ps
       (send_notif FailedToConnect (ConnectionBrokeNote p (lit reason))
         (emit (Disconnect p) (upd_current (give_up now p reason) s)))"

definition fix_world_timeouts :: "conn_env \<Rightarrow> 'b server \<Rightarrow> 'b server" where
  "fix_world_timeouts v s =
     time_out_remotes (cv_now v)
       (concat (map (\<lambda>(p, r). case remote_timed_out (cv_now v) r of Some reason \<Rightarrow> [(p, reason)] | None \<Rightarrow> [])
          (w_remotes (sv_current_world s)))) s"

definition fix_world :: "conn_env \<Rightarrow> 'b server \<Rightarrow> 'b server" where
  "fix_world v s = fix_world_timeouts v (fix_world_remotes v (fix_world_signaling v s))"

section \<open>Messages of the signaling server\<close>

definition handle_signaling_bound_msg :: "string \<Rightarrow> server_id list \<Rightarrow> 'b server \<Rightarrow> 'b server" where
  "handle_signaling_bound_msg addr trusted s =
     (let s = upd_current (\<lambda>w. mark_signaling_bound w addr) s;
          s = upd_current (\<lambda>w. alter_signaling w addr
                (\<lambda>st. st\<lparr>ss_trusted := remdups trusted, ss_trust_sent_at := None\<rparr>)) s
      in send_notif AcceptingConnection (AcceptingConnectionNote addr) (fix_world_next s))"

definition connecting_or_connected :: "world \<Rightarrow> server_id \<Rightarrow> bool" where
  "connecting_or_connected w peer =
     (case map_of (w_remotes w) peer of
        Some r \<Rightarrow> (case rs_status r of R_connecting2 _ \<Rightarrow> True | R_connected \<Rightarrow> True | _ \<Rightarrow> False)
      | None \<Rightarrow> False)"

text \<open>The second id is the one drawn for the entry of the ideal world.\<close>

definition handle_signaling_connect_msg ::
  "conn_env \<Rightarrow> connection_id \<Rightarrow> string \<Rightarrow> server_id \<Rightarrow> bool \<Rightarrow> 'b server \<Rightarrow> 'b server option" where
  "handle_signaling_connect_msg v cid2 addr peer initiator s =
     (if connecting_or_connected (sv_current_world s) peer then Some s
      else do {
        hash \<leftarrow> id_hash peer;
        trusted \<leftarrow> is_cert_trusted s hash;
        (if \<not> trusted then
           Some (upd_current (\<lambda>w. mark_remote_failed w peer (lit ''certificate not trusted''))
             (emit (Sig_send addr (SM_rejected peer ''Provided certificate not in my trusted list''))
               (send_notif ErrorResponse (ErrorResponseNote E_permission_denied None
                  (Fmt ''Refusing connection from {}: certificate not trusted'' [A_str peer])) s)))
         else
           (let s = upd_ideal (\<lambda>w. w\<lparr>w_trusted := List.insert peer (w_trusted w)\<rparr>) s;
                s = upd_ideal (\<lambda>w. put_remote w peer \<lparr>rs_transport = SCTP addr, rs_status = R_connected,
                      rs_ever_connected = True, rs_retry_stride = INITIAL_RETRY_STRIDE_SECS,
                      rs_connection_id = cid2\<rparr>) s;
                cid = cv_cid v peer;
                s = upd_current (\<lambda>w. set_remote_connecting2 (cv_now v) cid w peer (SCTP addr)) s;
                s = (if initiator then send_connect_message v peer addr False s else s)
            in Some (emit (Start_connect peer cid [hey_msg]) s))) })"

definition handle_signaling_msg ::
  "conn_env \<Rightarrow> connection_id \<Rightarrow> string \<Rightarrow> signaling_msg \<Rightarrow> 'b server \<Rightarrow> 'b server option" where
  "handle_signaling_msg v cid2 addr m s =
     (case m of
        SM_bound _ trusted \<Rightarrow> Some (handle_signaling_bound_msg addr trusted s)
      | SM_trusted _ trusted \<Rightarrow>
          Some (upd_current (\<lambda>w. alter_signaling w addr
            (\<lambda>st. st\<lparr>ss_trusted := remdups trusted, ss_trust_sent_at := None\<rparr>)) s)
      | SM_connect peer _ initiator \<Rightarrow> handle_signaling_connect_msg v cid2 addr peer initiator s
      | SM_rejected peer reason \<Rightarrow>
          Some (send_notif FailedToConnect (ErrorResponseNote E_network_error None
                  (Fmt ''Connection to {} rejected: {}'' [A_str peer, A_str reason]))
            (upd_current (\<lambda>w. mark_remote_failed w peer
               (Fmt ''Rejected by signaling: {}'' [A_str reason])) s))
      | SM_id_not_found peer reason \<Rightarrow>
          Some (send_notif ErrorResponse (ErrorResponseNote E_network_error None
                  (Fmt ''Signaling error: {}'' [A_str reason]))
            (upd_current (\<lambda>w. mark_remote_failed w peer (Fmt ''IdNotFound: {}'' [A_str reason])) s))
      | _ \<Rightarrow> Some s)"

text \<open>The arm of the main loop for a signaling channel that stopped.\<close>

definition handle_accept_stopped :: "instant \<Rightarrow> string \<Rightarrow> string \<Rightarrow> 'b server \<Rightarrow> 'b server" where
  "handle_accept_stopped now addr reason s =
     fix_world_next (send_notif AcceptStopped (AcceptStoppedNote addr (lit reason))
       (upd_current (\<lambda>w. mark_signaling_disconnected now w addr) s))"

section \<open>Connection requests of the editor\<close>

definition handle_accept_connection :: "conn_env \<Rightarrow> string \<Rightarrow> 'b server \<Rightarrow> 'b server" where
  "handle_accept_connection v addr s =
     (let s = upd_ideal (\<lambda>w. w\<lparr>w_signaling := AList.update addr
                (signaling_state_default\<lparr>ss_status := S_bound\<rparr>) (w_signaling w)\<rparr>) s;
          status = map_option ss_status (map_of (w_signaling (sv_current_world s)) addr)
      in case status of
           Some S_bound \<Rightarrow> send_notif AcceptingConnection (SignalingAddrNote addr) s
         | Some (S_binding _) \<Rightarrow> s
         | _ \<Rightarrow>
             (let s = upd_current (\<lambda>w. set_signaling_binding (cv_now v) w addr) s;
                  s = emit (Sig_bind addr (sv_host_id s) (w_trusted (sv_ideal_world s))) s
              in case cv_bind v addr of
                   None \<Rightarrow> s
                 | Some e \<Rightarrow>
                     send_notif ErrorResponse (ErrorResponseNote E_internal_error None
                       (Fmt ''Failed to bind to signaling server: {}'' [A_fmt e]))
                       (upd_current (\<lambda>w. mark_signaling_failed w addr e) s)))"

fun normalize_transport :: "transport_config \<Rightarrow> transport_config" where
  "normalize_transport (SCTP addr) = SCTP (normalize_signaling_addr addr)"
| "normalize_transport (SshStdio h c ps) = SshStdio h c ps"

definition reset_failed :: "remote_state \<Rightarrow> remote_state" where
  "reset_failed r = (case rs_status r of R_failed _ \<Rightarrow> r\<lparr>rs_status := R_pending\<rparr> | _ \<Rightarrow> r)"

text \<open>The \<open>Connect\<close> notification.\<close>

definition handle_connect :: "connection_id \<Rightarrow> server_id \<Rightarrow> transport_config \<Rightarrow> 'b server \<Rightarrow> 'b server" where
  "handle_connect cid host transport s =
     (let transport = normalize_transport transport;
          s = upd_ideal (\<lambda>w. put_remote w host \<lparr>rs_transport = transport, rs_status = R_connected,
                rs_ever_connected = False, rs_retry_stride = INITIAL_RETRY_STRIDE_SECS,
                rs_connection_id = cid\<rparr>) s;
          s = upd_current (\<lambda>w. alter_remote w host reset_failed) s;
          s = (if remote_connected s host
               then send_notif Connected (HostAndMessageNote host (lit ''Already connected'')) s else s)
      in fix_world_next s)"

text \<open>The \<open>StopAccepting\<close> notification.\<close>

definition handle_stop_accepting :: "string \<Rightarrow> 'b server \<Rightarrow> 'b server" where
  "handle_stop_accepting addr s =
     (let addr = normalize_signaling_addr addr;
          s = upd_ideal (\<lambda>w. remove_signaling w addr) s
      in fix_world_next (send_notif AcceptStopped
           (AcceptStoppedNote addr (lit ''Stopped accepting by user request'')) s))"

text \<open>Saving the configuration may fail, which is an argument.\<close>

definition handle_update_config_from_editor ::
  "fmt_text option \<Rightarrow> server_id hash_set \<Rightarrow> (server_id, permission) hash_map \<Rightarrow> 'b server \<Rightarrow>
     'b server \<times> (server_error + unit)" where
  "handle_update_config_from_editor save_err trusted_hosts permission s =
     (let c = (sv_config s)\<lparr>cf_trusted_hosts := trusted_hosts\<rparr>;
          s = upd_ideal (\<lambda>w. w\<lparr>w_trusted := trusted_hosts\<rparr>) s;
          (s, r) = replace_and_save save_err (c\<lparr>cf_permission := permission\<rparr>) s
      in (s, (case r of Inl e \<Rightarrow> Inl (Other_err e) | Inr _ \<Rightarrow> Inr ())))"

section \<open>Connection messages of peers\<close>

text \<open>\<open>FailedToConnect\<close> and \<open>ConnectionBroke\<close> differ in the reasons they give.\<close>

definition connection_lost ::
  "instant \<Rightarrow> server_id \<Rightarrow> connection_id \<Rightarrow> fmt_text \<Rightarrow> fmt_text \<Rightarrow> 'b server \<Rightarrow> 'b server" where
  "connection_lost now peer cid fail_reason note_reason s =
     (if is_stale_connection_attempt (sv_current_world s) peer cid then s
      else
        (let s = (if ever_connected (sv_current_world s) peer
                  then fix_world_next (upd_current (\<lambda>w. mark_remote_disconnected now w peer) s)
                  else upd_current (\<lambda>w. mark_remote_failed w peer fail_reason) s)
         in send_notif ConnectionBroke (ConnectionBrokeNote peer note_reason) s))"

definition handle_failed_to_connect :: "instant \<Rightarrow> server_id \<Rightarrow> fmt_text \<Rightarrow> connection_id \<Rightarrow> 'b server \<Rightarrow> 'b server" where
  "handle_failed_to_connect now peer reason cid = connection_lost now peer cid reason reason"

definition handle_connection_broke :: "instant \<Rightarrow> server_id \<Rightarrow> connection_id \<Rightarrow> 'b server \<Rightarrow> 'b server" where
  "handle_connection_broke now peer cid =
     connection_lost now peer cid (lit ''broke before reaching Connected'') (lit '''')"

definition handle_hey :: "fmt_text option \<Rightarrow> server_id \<Rightarrow> hey_message \<Rightarrow> 'b server \<Rightarrow> 'b server" where
  "handle_hey save_err host hey s =
     (let s = upd_current (\<lambda>w. mark_remote_connected w host) s;
          s = send_notif Connected (HostAndMessageNote host (lit (hey_text hey))) s;
          (s, r) = replace_and_save save_err
            ((sv_config s)\<lparr>cf_trusted_hosts := w_trusted (sv_ideal_world s)\<rparr>) s
      in case r of
           Inr _ \<Rightarrow> s
         | Inl e \<Rightarrow> send_notif UnimportantError (HostAndMessageNote host
             (Fmt ''Failed to save new trusted host to config file, {}'' [A_fmt e])) s)"

definition handle_bye :: "server_id \<Rightarrow> 'b server \<Rightarrow> 'b server" where
  "handle_bye host s =
     send_notif RemoteLeft (HostAndMessageNote host (lit ''Peer said goodbye''))
       (fix_world_next (emit (Disconnect host) (upd_current (\<lambda>w. remove_remote w host) s)))"

end
