(* ===== verification/World_Correct.thy ===== *)
theory World_Correct
  imports Server_Connect
begin

text \<open>
  Invariants of the two worlds: strides between 1 and 60 seconds, a peer that is connected or
  disconnected was connected once, one entry per key; and that every connection event keeps them.
\<close>

section \<open>Back-off\<close>

definition stride_ok :: "nat \<Rightarrow> bool" where
  "stride_ok n \<longleftrightarrow> 1 \<le> n \<and> n \<le> MAX_RETRY_STRIDE_SECS"

lemma stride_ok_initial [simp]: "stride_ok INITIAL_RETRY_STRIDE_SECS"
  by (simp add: stride_ok_def INITIAL_RETRY_STRIDE_SECS_def MAX_RETRY_STRIDE_SECS_def)

lemma stride_ok_next [simp]: "stride_ok n \<Longrightarrow> stride_ok (next_stride n)"
  by (auto simp: stride_ok_def next_stride_def MAX_RETRY_STRIDE_SECS_def)

lemma next_stride_power: "next_stride (min (2 ^ k) 60) = min (2 ^ Suc k) 60"
  by (auto simp: next_stride_def MAX_RETRY_STRIDE_SECS_def min_def)

section \<open>The invariant\<close>

definition remote_ok :: "remote_state \<Rightarrow> bool" where
  "remote_ok r \<longleftrightarrow> stride_ok (rs_retry_stride r) \<and>
     (case rs_status r of
        R_connected \<Rightarrow> rs_ever_connected r
      | R_disconnected _ stride \<Rightarrow> rs_ever_connected r \<and> stride_ok stride
      | _ \<Rightarrow> True)"

definition signaling_ok :: "signaling_state \<Rightarrow> bool" where
  "signaling_ok st \<longleftrightarrow> ss_retry_stride st \<le> MAX_RETRY_STRIDE_SECS \<and>
     (case ss_status st of S_disconnected _ stride \<Rightarrow> stride_ok stride | _ \<Rightarrow> True)"

definition current_ok :: "world \<Rightarrow> bool" where
  "current_ok w \<longleftrightarrow> distinct (keys (w_remotes w)) \<and> distinct (keys (w_signaling w)) \<and>
     (\<forall>p r. map_of (w_remotes w) p = Some r \<longrightarrow> remote_ok r) \<and>
     (\<forall>a st. map_of (w_signaling w) a = Some st \<longrightarrow> signaling_ok st)"

definition ideal_ok :: "world \<Rightarrow> bool" where
  "ideal_ok w \<longleftrightarrow> distinct (keys (w_remotes w)) \<and> distinct (keys (w_signaling w)) \<and>
     (\<forall>p r. map_of (w_remotes w) p = Some r \<longrightarrow> rs_status r = R_connected) \<and>
     (\<forall>a st. map_of (w_signaling w) a = Some st \<longrightarrow> ss_status st = S_bound \<and> ss_trusted st = [])"

definition conn_ok :: "'b server \<Rightarrow> bool" where
  "conn_ok s \<longleftrightarrow> current_ok (sv_current_world s) \<and> ideal_ok (sv_ideal_world s)"

lemmas conn_ok_defs = conn_ok_def current_ok_def ideal_ok_def

section \<open>Operations on the current world\<close>

lemma current_ok_put:
  "current_ok w \<Longrightarrow> remote_ok r \<Longrightarrow> current_ok (put_remote w p r)"
  by (auto simp: current_ok_def put_remote_def keys_update split: if_splits)

lemma current_ok_alter:
  "current_ok w \<Longrightarrow> (\<And>r. map_of (w_remotes w) p = Some r \<Longrightarrow> remote_ok r \<Longrightarrow> remote_ok (f r)) \<Longrightarrow>
     current_ok (alter_remote w p f)"
  by (auto simp: current_ok_def alter_remote_def split: if_splits option.splits)

lemma stride_of_entry: "current_ok w \<Longrightarrow> stride_ok (snd (ever_and_stride w p))"
  by (auto simp: current_ok_def ever_and_stride_def remote_ok_def split: option.splits)

lemma current_ok_connecting [simp]:
  "current_ok w \<Longrightarrow> current_ok (set_remote_connecting1 now cid w p t)"
  "current_ok w \<Longrightarrow> current_ok (set_remote_connecting2 now cid w p t)"
  using stride_of_entry [of w p]
  by (auto simp: set_remote_connecting1_def set_remote_connecting2_def split_beta Let_def remote_ok_def
      intro!: current_ok_put)

lemma current_ok_pending [simp]: "current_ok w \<Longrightarrow> current_ok (set_remote_pending cid w p t)"
  using stride_of_entry [of w p]
  by (auto simp: set_remote_pending_def ever_and_stride_def remote_ok_def intro!: current_ok_put split: option.splits)

lemma current_ok_connected [simp]: "current_ok w \<Longrightarrow> current_ok (mark_remote_connected w p)"
  by (auto simp: mark_remote_connected_def remote_ok_def intro!: current_ok_alter)

lemma current_ok_disconnected [simp]:
  "current_ok w \<Longrightarrow> ever_connected w p \<Longrightarrow> current_ok (mark_remote_disconnected now w p)"
  by (auto simp: mark_remote_disconnected_def remote_ok_def ever_connected_def Let_def intro!: current_ok_alter)

lemma current_ok_failed [simp]: "current_ok w \<Longrightarrow> current_ok (mark_remote_failed w p e)"
  by (auto simp: mark_remote_failed_def remote_ok_def intro!: current_ok_alter)

lemma current_ok_reset [simp]: "current_ok w \<Longrightarrow> current_ok (alter_remote w p reset_failed)"
  by (auto simp: reset_failed_def remote_ok_def intro!: current_ok_alter split: remote_status.splits)

lemma current_ok_remove [simp]: "current_ok w \<Longrightarrow> current_ok (remove_remote w p)"
  by (auto simp: current_ok_def remove_remote_def keys_delete split: if_splits)

lemma current_ok_modify_signaling:
  "current_ok w \<Longrightarrow> (\<And>st. signaling_ok st \<Longrightarrow> signaling_ok (f st)) \<Longrightarrow> signaling_ok d \<Longrightarrow>
     current_ok (modify_or_insert w a f d)"
  by (auto simp: current_ok_def modify_or_insert_def keys_update split: if_splits option.splits)

lemma current_ok_alter_signaling:
  "current_ok w \<Longrightarrow> (\<And>st. signaling_ok st \<Longrightarrow> signaling_ok (f st)) \<Longrightarrow> current_ok (alter_signaling w a f)"
  by (auto simp: current_ok_def alter_signaling_def split: if_splits option.splits)

lemma signaling_ok_default [simp]: "signaling_ok (signaling_state_default\<lparr>ss_status := st\<rparr>) \<longleftrightarrow>
    (case st of S_disconnected _ stride \<Rightarrow> stride_ok stride | _ \<Rightarrow> True)"
  by (simp add: signaling_ok_def signaling_state_default_def)

lemma current_ok_signaling [simp]:
  "current_ok w \<Longrightarrow> current_ok (set_signaling_binding now w a)"
  "current_ok w \<Longrightarrow> current_ok (mark_signaling_bound w a)"
  "current_ok w \<Longrightarrow> current_ok (mark_signaling_failed w a e)"
  by (auto simp: set_signaling_binding_def mark_signaling_bound_def mark_signaling_failed_def signaling_ok_def
      signaling_state_default_def INITIAL_RETRY_STRIDE_SECS_def MAX_RETRY_STRIDE_SECS_def intro!: current_ok_modify_signaling)

lemma current_ok_signaling_disconnected [simp]:
  "current_ok w \<Longrightarrow> current_ok (mark_signaling_disconnected now w a)"
  by (auto simp: mark_signaling_disconnected_def Let_def signaling_ok_def stride_ok_def next_stride_def
      INITIAL_RETRY_STRIDE_SECS_def MAX_RETRY_STRIDE_SECS_def intro!: current_ok_alter_signaling)

lemma current_ok_trusted [simp]:
  "current_ok w \<Longrightarrow> current_ok (alter_signaling w a (\<lambda>st. st\<lparr>ss_trusted := xs, ss_trust_sent_at := t\<rparr>))"
  "current_ok w \<Longrightarrow> current_ok (alter_signaling w a (\<lambda>st. st\<lparr>ss_trust_sent_at := t\<rparr>))"
  by (auto simp: signaling_ok_def intro!: current_ok_alter_signaling)

lemma current_ok_remove_signaling [simp]: "current_ok w \<Longrightarrow> current_ok (remove_signaling w a)"
  by (auto simp: current_ok_def remove_signaling_def keys_delete split: if_splits)

lemma current_ok_default [simp]: "current_ok world_default"
  by (simp add: current_ok_def world_default_def keys_def)

section \<open>Operations on the ideal world\<close>

lemma ideal_ok_put [simp]: "ideal_ok w \<Longrightarrow> rs_status r = R_connected \<Longrightarrow> ideal_ok (put_remote w p r)"
  by (auto simp: ideal_ok_def put_remote_def keys_update split: if_splits)

lemma ideal_ok_trusted [simp]: "ideal_ok (w\<lparr>w_trusted := xs\<rparr>) = ideal_ok w"
  by (simp add: ideal_ok_def)

lemma ideal_ok_accept [simp]:
  "ideal_ok w \<Longrightarrow>
     ideal_ok (w\<lparr>w_signaling := AList.update a (signaling_state_default\<lparr>ss_status := S_bound\<rparr>) (w_signaling w)\<rparr>)"
  by (auto simp: ideal_ok_def keys_update signaling_state_default_def split: if_splits)

lemma ideal_ok_remove [simp]: "ideal_ok w \<Longrightarrow> ideal_ok (remove_signaling w a)"
  by (auto simp: ideal_ok_def remove_signaling_def keys_delete split: if_splits)

section \<open>Connection events\<close>

text \<open>Sending leaves everything but the outputs.\<close>

lemma emit_same [simp]:
  "sv_current_world (emit x s) = sv_current_world s" "sv_ideal_world (emit x s) = sv_ideal_world s"
  "sv_host_id (emit x s) = sv_host_id s" "sv_host_name (emit x s) = sv_host_name s"
  "sv_local_trusted_hosts (emit x s) = sv_local_trusted_hosts s"
  "sv_docs (emit x s) = sv_docs s" "sv_remote_docs (emit x s) = sv_remote_docs s" "sv_config (emit x s) = sv_config s"
  by (simp_all add: emit_def)

lemma send_notif_emit: "send_notif c n = emit (Notify c n)"
  by (simp add: send_notif_def fun_eq_iff)

lemma fix_world_next_same [simp]:
  "sv_current_world (fix_world_next s) = sv_current_world s" "sv_ideal_world (fix_world_next s) = sv_ideal_world s"
  "sv_out (fix_world_next s) = sv_out s" "sv_local_trusted_hosts (fix_world_next s) = sv_local_trusted_hosts s"
  "sv_host_id (fix_world_next s) = sv_host_id s" "sv_host_name (fix_world_next s) = sv_host_name s"
  by (simp_all add: fix_world_next_def)

lemma upd_current_same [simp]:
  "sv_current_world (upd_current f s) = f (sv_current_world s)" "sv_ideal_world (upd_current f s) = sv_ideal_world s"
  "sv_out (upd_current f s) = sv_out s" "sv_host_id (upd_current f s) = sv_host_id s"
  "sv_host_name (upd_current f s) = sv_host_name s" "sv_local_trusted_hosts (upd_current f s) = sv_local_trusted_hosts s"
  by (simp_all add: upd_current_def)

lemma upd_ideal_same [simp]:
  "sv_ideal_world (upd_ideal f s) = f (sv_ideal_world s)" "sv_current_world (upd_ideal f s) = sv_current_world s"
  "sv_out (upd_ideal f s) = sv_out s" "sv_host_id (upd_ideal f s) = sv_host_id s"
  "sv_host_name (upd_ideal f s) = sv_host_name s" "sv_local_trusted_hosts (upd_ideal f s) = sv_local_trusted_hosts s"
  by (simp_all add: upd_ideal_def)

lemmas send_simps = send_notif_emit send_to_remote_def send_to_remote_no_req_id_def

lemma conn_ok_emit [simp]:
  "conn_ok (emit x s) = conn_ok s" "conn_ok (fix_world_next s) = conn_ok s"
  by (simp_all add: conn_ok_def)

lemma conn_ok_upd [simp]:
  "conn_ok (upd_current f s) \<longleftrightarrow> current_ok (f (sv_current_world s)) \<and> ideal_ok (sv_ideal_world s)"
  "conn_ok (upd_ideal f s) \<longleftrightarrow> current_ok (sv_current_world s) \<and> ideal_ok (f (sv_ideal_world s))"
  by (simp_all add: conn_ok_def)

lemma conn_ok_config [simp]:
  "conn_ok (s\<lparr>sv_config := c\<rparr>) = conn_ok s" "conn_ok (s\<lparr>sv_local_trusted_hosts := l\<rparr>) = conn_ok s"
  by (simp_all add: conn_ok_def)

lemma conn_okD [simp]:
  "conn_ok s \<Longrightarrow> current_ok (sv_current_world s)" "conn_ok s \<Longrightarrow> ideal_ok (sv_ideal_world s)"
  by (simp_all add: conn_ok_def)

subsection \<open>The passes of \<open>fix_world\<close>\<close>

lemma conn_ok_fail_bindings: "conn_ok s \<Longrightarrow> conn_ok (fail_bindings as s)"
  by (induction "as" arbitrary: s) (auto)

lemma conn_ok_drop_signaling: "conn_ok s \<Longrightarrow> conn_ok (drop_signaling as s)"
  by (induction "as" arbitrary: s) (auto)

lemma conn_ok_bind_one: "conn_ok s \<Longrightarrow> conn_ok (bind_one v a s)"
  by (simp add: bind_one_def Let_def send_notif_emit split: option.split)

lemma conn_ok_start_bindings: "conn_ok s \<Longrightarrow> conn_ok (start_bindings v as s)"
  by (induction "as" arbitrary: s) (auto simp: conn_ok_bind_one)

lemma conn_ok_sync_trust: "conn_ok s \<Longrightarrow> conn_ok (sync_trust v as s)"
  by (induction "as" arbitrary: s) auto

lemma conn_ok_fix_world_signaling: "conn_ok s \<Longrightarrow> conn_ok (fix_world_signaling v s)"
  by (simp add: fix_world_signaling_def Let_def conn_ok_fail_bindings conn_ok_drop_signaling
      conn_ok_start_bindings conn_ok_sync_trust)

lemma conn_ok_send_connect_message: "conn_ok s \<Longrightarrow> conn_ok (send_connect_message v p a i s)"
  by (auto simp: send_connect_message_def Let_def send_notif_emit split: option.splits)

lemma conn_ok_try_connect_remote: "conn_ok s \<Longrightarrow> conn_ok (try_connect_remote v p t s)"
  by (auto simp: try_connect_remote_def try_connect_remote_ssh_def try_connect_remote_sctp_def Let_def
      send_notif_emit intro!: conn_ok_send_connect_message
      split: transport_config.splits sum.splits prod.splits)

lemma conn_ok_start_remotes: "conn_ok s \<Longrightarrow> conn_ok (start_remotes v ps s)"
  by (induction v ps s rule: start_remotes.induct) (auto simp: start_one_def conn_ok_try_connect_remote)

lemma conn_ok_drop_remotes: "conn_ok s \<Longrightarrow> conn_ok (drop_remotes ps s)"
  by (induction ps arbitrary: s) (auto)

lemma conn_ok_time_out_remotes: "conn_ok s \<Longrightarrow> conn_ok (time_out_remotes now ps s)"
  by (induction now ps s rule: time_out_remotes.induct) (auto simp: give_up_def send_notif_emit)

lemma conn_ok_fix_world: "conn_ok s \<Longrightarrow> conn_ok (fix_world v s)"
  by (simp add: fix_world_def fix_world_timeouts_def fix_world_remotes_def Let_def conn_ok_time_out_remotes
      conn_ok_start_remotes conn_ok_drop_remotes conn_ok_fix_world_signaling)

subsection \<open>The handlers\<close>

lemma conn_ok_handle_signaling_msg:
  "conn_ok s \<Longrightarrow> handle_signaling_msg v cid2 a m s = Some s' \<Longrightarrow> conn_ok s'"
  by (auto simp: handle_signaling_msg_def handle_signaling_bound_msg_def handle_signaling_connect_msg_def Let_def
      send_notif_emit intro!: conn_ok_send_connect_message
      split: signaling_msg.splits if_splits bind_splits)

lemma conn_ok_connection_lost: "conn_ok s \<Longrightarrow> conn_ok (connection_lost now p cid e1 e2 s)"
  by (auto simp: connection_lost_def Let_def send_notif_emit)

lemma conn_ok_handle_accept_connection: "conn_ok s \<Longrightarrow> conn_ok (handle_accept_connection v a s)"
  by (auto simp: handle_accept_connection_def Let_def send_notif_emit
      split: option.splits signaling_status.splits)

lemma conn_ok_handle_connect: "conn_ok s \<Longrightarrow> conn_ok (handle_connect cid h t s)"
  by (auto simp: handle_connect_def Let_def send_notif_emit)

text \<open>The events, with the arguments each handler takes.\<close>

datatype conn_event =
    Ev_fix_world conn_env
  | Ev_signaling conn_env connection_id string signaling_msg
  | Ev_accept_stopped instant string string
  | Ev_accept conn_env string
  | Ev_connect connection_id server_id transport_config
  | Ev_stop_accepting string
  | Ev_update_config "fmt_text option" "server_id hash_set" "(server_id, permission) hash_map"
  | Ev_failed_to_connect instant server_id fmt_text connection_id
  | Ev_connection_broke instant server_id connection_id
  | Ev_hey "fmt_text option" server_id hey_message
  | Ev_bye server_id

fun conn_step :: "conn_event \<Rightarrow> 'b server \<Rightarrow> 'b server option" where
  "conn_step (Ev_fix_world v) s = Some (fix_world v s)"
| "conn_step (Ev_signaling v cid a m) s = handle_signaling_msg v cid a m s"
| "conn_step (Ev_accept_stopped now a e) s = Some (handle_accept_stopped now a e s)"
| "conn_step (Ev_accept v a) s = Some (handle_accept_connection v (normalize_signaling_addr a) s)"
| "conn_step (Ev_connect cid h t) s = Some (handle_connect cid h t s)"
| "conn_step (Ev_stop_accepting a) s = Some (handle_stop_accepting a s)"
| "conn_step (Ev_update_config e t p) s = Some (fst (handle_update_config_from_editor e t p s))"
| "conn_step (Ev_failed_to_connect now h e cid) s = Some (handle_failed_to_connect now h e cid s)"
| "conn_step (Ev_connection_broke now h cid) s = Some (handle_connection_broke now h cid s)"
| "conn_step (Ev_hey e h m) s = Some (handle_hey e h m s)"
| "conn_step (Ev_bye h) s = Some (handle_bye h s)"

inductive conn_reachable :: "'b server \<Rightarrow> bool" where
  New: "conn_reachable (server_new_with_keycert host name c cert)"
| Event: "conn_reachable s \<Longrightarrow> conn_step e s = Some s' \<Longrightarrow> conn_reachable s'"

lemma conn_ok_step: "conn_ok s \<Longrightarrow> conn_step e s = Some s' \<Longrightarrow> conn_ok s'"
  by (cases e)
    (auto simp: conn_ok_fix_world conn_ok_connection_lost conn_ok_handle_accept_connection conn_ok_handle_connect
      handle_accept_stopped_def handle_stop_accepting_def handle_update_config_from_editor_def replace_and_save_def
      handle_failed_to_connect_def handle_connection_broke_def handle_hey_def handle_bye_def Let_def send_notif_emit intro: conn_ok_handle_signaling_msg split: option.splits sum.splits)

lemma conn_ok_new: "conn_ok (server_new_with_keycert host name c cert)"
  by (simp add: conn_ok_def server_new_with_keycert_def current_ok_default)
    (simp add: ideal_ok_def world_default_def keys_def)

lemma conn_reachable_ok: "conn_reachable s \<Longrightarrow> conn_ok s"
  by (induction rule: conn_reachable.induct) (auto intro: conn_ok_new conn_ok_step)

end
