(* ===== verification/Fix_World.thy ===== *)
theory Fix_World
  imports World_Correct
begin

text \<open>
  What one run of \<open>fix_world\<close> achieves, entry by entry, and that a second run at the same moment
  finds nothing to do.
\<close>

abbreviation sig_of :: "'b server \<Rightarrow> string \<Rightarrow> signaling_state option" where
  "sig_of s \<equiv> map_of (w_signaling (sv_current_world s))"

abbreviation rem_of :: "'b server \<Rightarrow> server_id \<Rightarrow> remote_state option" where
  "rem_of s \<equiv> map_of (w_remotes (sv_current_world s))"

lemmas remote_op_defs = put_remote_def alter_remote_def set_remote_connecting1_def set_remote_connecting2_def
  set_remote_pending_def mark_remote_connected_def mark_remote_disconnected_def mark_remote_failed_def
  remove_remote_def

lemmas signaling_op_defs = modify_or_insert_def alter_signaling_def set_signaling_binding_def
  mark_signaling_bound_def mark_signaling_disconnected_def mark_signaling_failed_def remove_signaling_def

lemma remote_ops_signaling [simp]:
  "w_signaling (put_remote w p r) = w_signaling w"
  "w_signaling (alter_remote w p f) = w_signaling w"
  "w_signaling (set_remote_connecting1 now cid w p t) = w_signaling w"
  "w_signaling (set_remote_connecting2 now cid w p t) = w_signaling w"
  "w_signaling (set_remote_pending cid w p t) = w_signaling w"
  "w_signaling (mark_remote_connected w p) = w_signaling w"
  "w_signaling (mark_remote_disconnected now w p) = w_signaling w"
  "w_signaling (mark_remote_failed w p e) = w_signaling w"
  "w_signaling (remove_remote w p) = w_signaling w"
  by (simp_all add: remote_op_defs split_beta Let_def)

lemma signaling_ops_remotes [simp]:
  "w_remotes (modify_or_insert w a f d) = w_remotes w"
  "w_remotes (alter_signaling w a f) = w_remotes w"
  "w_remotes (set_signaling_binding now w a) = w_remotes w"
  "w_remotes (mark_signaling_bound w a) = w_remotes w"
  "w_remotes (mark_signaling_disconnected now w a) = w_remotes w"
  "w_remotes (mark_signaling_failed w a e) = w_remotes w"
  "w_remotes (remove_signaling w a) = w_remotes w"
  by (simp_all add: signaling_op_defs Let_def)

section \<open>The signaling pass\<close>

lemma fail_bindings_same [simp]:
  "sv_ideal_world (fail_bindings as s) = sv_ideal_world s" "sv_host_id (fail_bindings as s) = sv_host_id s"
  "w_remotes (sv_current_world (fail_bindings as s)) = w_remotes (sv_current_world s)"
  by (induction "as" arbitrary: s) auto

lemma drop_signaling_same [simp]:
  "sv_ideal_world (drop_signaling as s) = sv_ideal_world s" "sv_host_id (drop_signaling as s) = sv_host_id s"
  "w_remotes (sv_current_world (drop_signaling as s)) = w_remotes (sv_current_world s)"
  by (induction "as" arbitrary: s) auto

lemma bind_one_same [simp]:
  "sv_ideal_world (bind_one v a s) = sv_ideal_world s" "sv_host_id (bind_one v a s) = sv_host_id s"
  "w_remotes (sv_current_world (bind_one v a s)) = w_remotes (sv_current_world s)"
  by (simp_all add: bind_one_def Let_def send_notif_emit split: option.split)

lemma start_bindings_same [simp]:
  "sv_ideal_world (start_bindings v as s) = sv_ideal_world s" "sv_host_id (start_bindings v as s) = sv_host_id s"
  "w_remotes (sv_current_world (start_bindings v as s)) = w_remotes (sv_current_world s)"
  by (induction "as" arbitrary: s) auto

lemma sync_trust_same [simp]:
  "sv_ideal_world (sync_trust v as s) = sv_ideal_world s" "sv_host_id (sync_trust v as s) = sv_host_id s"
  "w_remotes (sv_current_world (sync_trust v as s)) = w_remotes (sv_current_world s)"
  by (induction "as" arbitrary: s) auto

lemma fix_world_signaling_same [simp]:
  "sv_ideal_world (fix_world_signaling v s) = sv_ideal_world s"
  "sv_host_id (fix_world_signaling v s) = sv_host_id s"
  "w_remotes (sv_current_world (fix_world_signaling v s)) = w_remotes (sv_current_world s)"
  by (simp_all add: fix_world_signaling_def Let_def)

lemma fail_bindings_sig:
  "sig_of (fail_bindings as s) a =
     (if a \<in> set as
      then Some ((case sig_of s a of Some st \<Rightarrow> st | None \<Rightarrow> signaling_state_default)
             \<lparr>ss_status := S_failed (lit ''bind timeout'')\<rparr>)
      else sig_of s a)"
  by (induction "as" arbitrary: s)
    (auto simp: mark_signaling_failed_def modify_or_insert_def split: option.split)

lemma drop_signaling_sig: "sig_of (drop_signaling as s) a = (if a \<in> set as then None else sig_of s a)"
  by (induction "as" arbitrary: s) (auto simp: remove_signaling_def)

lemma bind_one_sig:
  "b \<noteq> a \<Longrightarrow> sig_of (bind_one v a s) b = sig_of s b"
  "\<exists>st. sig_of (bind_one v a s) a = Some st \<and> (ss_status st = S_binding (cv_now v) \<or> (\<exists>e. ss_status st = S_failed e))"
  by (simp_all add: bind_one_def Let_def send_notif_emit signaling_op_defs split: option.split)

lemma start_bindings_sig:
  "a \<notin> set as \<Longrightarrow> sig_of (start_bindings v as s) a = sig_of s a"
  "a \<in> set as \<Longrightarrow> \<exists>st. sig_of (start_bindings v as s) a = Some st \<and>
     (ss_status st = S_binding (cv_now v) \<or> (\<exists>e. ss_status st = S_failed e))"
proof (induction "as" arbitrary: s)
  case (Cons b bs)
  { case 1 with Cons.IH(1) show ?case by (simp add: bind_one_sig) }
  { case 2
    with Cons.IH bind_one_sig(2) [of v b s] show ?case
      by (cases "a \<in> set bs") auto }
qed auto

lemma sync_trust_sig:
  "sig_of (sync_trust v as s) a =
     (if a \<in> set as then map_option (\<lambda>st. st\<lparr>ss_trust_sent_at := Some (cv_now_secs v)\<rparr>) (sig_of s a)
      else sig_of s a)"
  by (induction "as" arbitrary: s) (auto simp: alter_signaling_def split: option.split)

text \<open>Nothing is left for the signaling pass.\<close>

definition quiet_signaling :: "conn_env \<Rightarrow> world \<Rightarrow> world \<Rightarrow> bool" where
  "quiet_signaling v ideal w \<longleftrightarrow>
     (\<forall>a st. map_of (w_signaling w) a = Some st \<longrightarrow>
        \<not> binding_timed_out (cv_now v) st \<and> \<not> wants_trust_sync (cv_now_secs v) (w_trusted ideal) st \<and>
        a \<in> dom (map_of (w_signaling ideal))) \<and>
     (\<forall>a \<in> dom (map_of (w_signaling ideal)). \<not> wants_bind (cv_now v) w a)"

lemma filter_entries_empty:
  assumes "distinct (keys m)" and "\<And>k x. map_of m k = Some x \<Longrightarrow> \<not> P k x"
  shows "filter (\<lambda>(k, x). P k x) m = []"
  using assms by (auto simp: filter_empty_conv keys_def)

lemma quiet_signaling_fixed:
  assumes "conn_ok s" and "quiet_signaling v (sv_ideal_world s) (sv_current_world s)"
  shows "fix_world_signaling v s = s"
proof -
  have d: "distinct (keys (w_signaling (sv_current_world s)))"
    using assms(1) by (simp add: conn_ok_def current_ok_def)
  have 1: "filter (\<lambda>(_, st). binding_timed_out (cv_now v) st) (w_signaling (sv_current_world s)) = []"
    using assms(2) by (intro filter_entries_empty [OF d]) (auto simp: quiet_signaling_def)
  have 2: "filter (\<lambda>a. a \<notin> set (keys (w_signaling (sv_ideal_world s)))) (keys (w_signaling (sv_current_world s))) = []"
    using assms(2) by (auto simp: filter_empty_conv quiet_signaling_def)
  have 3: "filter (wants_bind (cv_now v) (sv_current_world s)) (keys (w_signaling (sv_ideal_world s))) = []"
    using assms(2) by (auto simp: filter_empty_conv quiet_signaling_def)
  have 4: "filter (\<lambda>(_, st). wants_trust_sync (cv_now_secs v) (w_trusted (sv_ideal_world s)) st)
      (w_signaling (sv_current_world s)) = []"
    using assms(2) by (intro filter_entries_empty [OF d]) (auto simp: quiet_signaling_def)
  show ?thesis
    unfolding fix_world_signaling_def Let_def 1 list.map fail_bindings.simps 2 drop_signaling.simps 3
      start_bindings.simps 4 by simp
qed

lemma in_filtered_keys:
  assumes "distinct (keys m)"
  shows "k \<in> set (map fst (filter (\<lambda>(_, x). P x) m)) \<longleftrightarrow> (\<exists>x. map_of m k = Some x \<and> P x)"
  using assms by (force simp: keys_def)

lemma fix_world_signaling_quiet:
  assumes "conn_ok s"
  shows "quiet_signaling v (sv_ideal_world s) (sv_current_world (fix_world_signaling v s))"
proof -
  let ?now = "cv_now v"
  let ?ideal = "map_of (w_signaling (sv_ideal_world s))"
  define l1 where "l1 = map fst (filter (\<lambda>(_, st). binding_timed_out ?now st) (w_signaling (sv_current_world s)))"
  define s1 where "s1 = fail_bindings l1 s"
  define l2 where "l2 = filter (\<lambda>a. a \<notin> set (keys (w_signaling (sv_ideal_world s1)))) (keys (w_signaling (sv_current_world s1)))"
  define s2 where "s2 = drop_signaling l2 s1"
  define l3 where "l3 = filter (wants_bind ?now (sv_current_world s2)) (keys (w_signaling (sv_ideal_world s2)))"
  define s3 where "s3 = start_bindings v l3 s2"
  define l4 where "l4 = map fst (filter (\<lambda>(_, st). wants_trust_sync (cv_now_secs v) (w_trusted (sv_ideal_world s3)) st)
                      (w_signaling (sv_current_world s3)))"
  have s4: "fix_world_signaling v s = sync_trust v l4 s3"
    by (simp add: fix_world_signaling_def Let_def l1_def s1_def l2_def s2_def l3_def s3_def l4_def)
  have ok3: "conn_ok s3"
    using assms by (simp add: s3_def s2_def s1_def conn_ok_fail_bindings conn_ok_drop_signaling conn_ok_start_bindings)
  then have d3: "distinct (keys (w_signaling (sv_current_world s3)))" by (simp add: conn_ok_def current_ok_def)
  have d: "distinct (keys (w_signaling (sv_current_world s)))"
    using assms by (simp add: conn_ok_def current_ok_def)
  have ideal: "sv_ideal_world s1 = sv_ideal_world s" "sv_ideal_world s2 = sv_ideal_world s"
      "sv_ideal_world s3 = sv_ideal_world s"
    by (simp_all add: s1_def s2_def s3_def)
  have t1: "\<not> binding_timed_out ?now st" if "sig_of s1 a = Some st" for a st
    using that in_filtered_keys [OF d, of a "binding_timed_out ?now"]
    by (auto simp: s1_def fail_bindings_sig l1_def binding_timed_out_def split: if_splits option.splits)
  have t2: "\<not> binding_timed_out ?now st \<and> a \<in> dom ?ideal" if "sig_of s2 a = Some st" for a st
    using that t1 [of a st] by (auto simp: s2_def drop_signaling_sig l2_def ideal split: if_splits)
  have l3: "a \<in> set l3 \<longleftrightarrow> a \<in> dom ?ideal \<and> wants_bind ?now (sv_current_world s2) a" for a
    by (auto simp: l3_def ideal)
  have t3: "\<not> binding_timed_out ?now st \<and> a \<in> dom ?ideal" if a: "sig_of s3 a = Some st" for a st
  proof (cases "a \<in> set l3")
    case True
    with start_bindings_sig(2) [OF True, of v s2] a l3 [of a] show ?thesis
      by (auto simp: s3_def binding_timed_out_def duration_since_def secs_def)
  qed (use a t2 [of a st] in \<open>simp add: s3_def start_bindings_sig\<close>)
  have b3: "\<not> wants_bind ?now (sv_current_world s3) a" if a: "a \<in> dom ?ideal" for a
  proof (cases "a \<in> set l3")
    case True
    with start_bindings_sig(2) [OF True, of v s2] show ?thesis
      by (auto simp: s3_def wants_bind_def)
  next
    case False
    with a have "\<not> wants_bind ?now (sv_current_world s2) a" by (simp add: l3)
    with False show ?thesis by (simp add: s3_def start_bindings_sig wants_bind_def)
  qed
  have l4: "a \<in> set l4 \<longleftrightarrow> (\<exists>st. sig_of s3 a = Some st \<and>
      wants_trust_sync (cv_now_secs v) (w_trusted (sv_ideal_world s)) st)" for a
    unfolding l4_def in_filtered_keys [OF d3] ideal ..
  have t4: "\<not> binding_timed_out ?now st \<and> \<not> wants_trust_sync (cv_now_secs v) (w_trusted (sv_ideal_world s)) st \<and>
      a \<in> dom ?ideal" if a: "sig_of (sync_trust v l4 s3) a = Some st" for a st
  proof (cases "a \<in> set l4")
    case True
    then obtain st0 where st0: "sig_of s3 a = Some st0" by (auto simp: l4)
    with a True t3 [OF st0] show ?thesis
      by (auto simp: sync_trust_sig wants_trust_sync_def binding_timed_out_def)
  next
    case False
    with a t3 [of a st] show ?thesis unfolding l4 sync_trust_sig by auto
  qed
  have b4: "\<not> wants_bind ?now (sv_current_world (sync_trust v l4 s3)) a" if "a \<in> dom ?ideal" for a
    using b3 [OF that] by (auto simp: wants_bind_def sync_trust_sig split: option.splits signaling_status.splits)
  show ?thesis
    unfolding quiet_signaling_def s4 using t4 b4 by blast
qed

section \<open>The remote pass\<close>

lemma drop_remotes_same [simp]:
  "sv_ideal_world (drop_remotes ps s) = sv_ideal_world s" "sv_host_id (drop_remotes ps s) = sv_host_id s"
  "w_signaling (sv_current_world (drop_remotes ps s)) = w_signaling (sv_current_world s)"
  by (induction ps arbitrary: s) auto

lemma drop_remotes_rem: "rem_of (drop_remotes ps s) p = (if p \<in> set ps then None else rem_of s p)"
  by (induction ps arbitrary: s) (auto simp: remove_remote_def)

lemma send_connect_message_same [simp]:
  "sv_ideal_world (send_connect_message v p a i s) = sv_ideal_world s"
  "sv_host_id (send_connect_message v p a i s) = sv_host_id s"
  "w_signaling (sv_current_world (send_connect_message v p a i s)) = w_signaling (sv_current_world s)"
  "q \<noteq> p \<Longrightarrow> rem_of (send_connect_message v p a i s) q = rem_of s q"
  by (simp_all add: send_connect_message_def Let_def send_notif_emit mark_remote_failed_def alter_remote_def
      split: option.split)

lemma start_one_same [simp]:
  "sv_ideal_world (start_one v p t s) = sv_ideal_world s" "sv_host_id (start_one v p t s) = sv_host_id s"
  "w_signaling (sv_current_world (start_one v p t s)) = w_signaling (sv_current_world s)"
  by (simp_all add: start_one_def try_connect_remote_def try_connect_remote_sctp_def try_connect_remote_ssh_def
      Let_def send_notif_emit split: transport_config.split sum.split prod.split)

lemma start_one_other: "q \<noteq> p \<Longrightarrow> rem_of (start_one v p t s) q = rem_of s q"
  by (simp add: start_one_def try_connect_remote_def try_connect_remote_sctp_def try_connect_remote_ssh_def
      remote_op_defs split_beta Let_def send_notif_emit split: transport_config.split sum.split prod.split option.split)

text \<open>
  An entry the remote pass would leave as it is: it need not be started, or it is our own, or it
  waits for its signaling server.
\<close>

definition settled :: "conn_env \<Rightarrow> server_id \<Rightarrow> world \<Rightarrow> server_id \<Rightarrow> transport_config \<Rightarrow> bool" where
  "settled v host w p t \<longleftrightarrow>
     \<not> wants_start (cv_now v) w p \<or> (\<not> unbound w t \<and> p = host) \<or>
     (unbound w t \<and> (\<exists>r. map_of (w_remotes w) p = Some r \<and> rs_status r = R_pending \<and> rs_transport r = t))"

lemma unbound_cong: "w_signaling w' = w_signaling w \<Longrightarrow> unbound w' t = unbound w t"
  by (cases t) (simp_all add: unbound_def signaling_bound_def)

lemma settled_cong:
  "w_signaling w' = w_signaling w \<Longrightarrow> map_of (w_remotes w') p = map_of (w_remotes w) p \<Longrightarrow>
     settled v host w' p t = settled v host w p t"
  by (simp add: settled_def wants_start_def unbound_cong [of w' w])

lemma send_connect_message_status:
  assumes "rem_of s p = Some r"
  shows "\<exists>r'. rem_of (send_connect_message v p a i s) p = Some r' \<and>
    (rs_status r' = rs_status r \<or> (\<exists>e. rs_status r' = R_failed e))"
  using assms
  by (simp add: send_connect_message_def Let_def send_notif_emit mark_remote_failed_def alter_remote_def
      split: option.split)

lemma start_one_settles: "settled v (sv_host_id s) (sv_current_world (start_one v p t s)) p t"
proof (cases "unbound (sv_current_world s) t")
  case True
  then have "\<exists>r. rem_of (start_one v p t s) p = Some r \<and> rs_status r = R_pending \<and> rs_transport r = t"
    by (simp add: start_one_def set_remote_pending_def put_remote_def split_beta Let_def)
  moreover have "unbound (sv_current_world (start_one v p t s)) t"
    using True by (simp add: unbound_cong [OF start_one_same(3)])
  ultimately show ?thesis by (simp add: settled_def)
next
  case False
  then have nu: "\<not> unbound (sv_current_world (start_one v p t s)) t"
    by (simp add: unbound_cong [OF start_one_same(3)])
  have start: "start_one v p t s = try_connect_remote v p t s" using False by (simp add: start_one_def)
  show ?thesis
  proof (cases "p = sv_host_id s")
    case False
    have "\<exists>r. rem_of (try_connect_remote v p t s) p = Some r \<and>
        (rs_status r = R_connecting1 (cv_now v) \<or> (\<exists>e. rs_status r = R_failed e))"
    proof (cases t)
      case (SCTP a)
      let ?s = "upd_current (\<lambda>w. set_remote_connecting1 (cv_now v) (cv_cid v p) w p (SCTP a))
        (emit (Notify Connecting (ConnectingNote p)) s)"
      have "\<exists>r. rem_of ?s p = Some r \<and> rs_status r = R_connecting1 (cv_now v)"
        by (simp add: set_remote_connecting1_def put_remote_def split_beta Let_def)
      then obtain r where r: "rem_of ?s p = Some r" "rs_status r = R_connecting1 (cv_now v)" by blast
      with send_connect_message_status [OF r(1), of v a True] False SCTP show ?thesis
        by (auto simp: try_connect_remote_def try_connect_remote_sctp_def Let_def send_notif_emit)
    next
      case (SshStdio h c ps)
      with False show ?thesis
        by (simp add: try_connect_remote_def try_connect_remote_ssh_def remote_op_defs split_beta Let_def
            send_notif_emit split: sum.split)
    qed
    then show ?thesis unfolding start by (auto simp: settled_def wants_start_def)
  qed (use nu in \<open>simp add: settled_def\<close>)
qed

lemma update_same: "map_of m k = Some x \<Longrightarrow> AList.update k x m = m"
  by (induction m) (auto split: if_splits)

lemma settled_start_one:
  assumes "settled v (sv_host_id s) (sv_current_world s) p t" and "wants_start (cv_now v) (sv_current_world s) p"
  shows "start_one v p t s = s"
proof (cases "unbound (sv_current_world s) t")
  case True
  with assms obtain r where r: "rem_of s p = Some r" "rs_status r = R_pending" "rs_transport r = t"
    by (auto simp: settled_def)
  then have "set_remote_pending (cv_cid v p) (sv_current_world s) p t = sv_current_world s"
    by (auto simp: set_remote_pending_def put_remote_def update_same)
  with True show ?thesis by (simp add: start_one_def upd_current_def)
next
  case False
  with assms show ?thesis by (auto simp: start_one_def settled_def try_connect_remote_def)
qed

lemma start_remotes_same [simp]:
  "sv_ideal_world (start_remotes v ps s) = sv_ideal_world s" "sv_host_id (start_remotes v ps s) = sv_host_id s"
  "w_signaling (sv_current_world (start_remotes v ps s)) = w_signaling (sv_current_world s)"
  by (induction v ps s rule: start_remotes.induct) auto

lemma start_remotes_rem:
  "p \<notin> fst ` set ps \<Longrightarrow> rem_of (start_remotes v ps s) p = rem_of s p"
  "distinct (map fst ps) \<Longrightarrow> (p, t) \<in> set ps \<Longrightarrow>
     settled v (sv_host_id s) (sv_current_world (start_remotes v ps s)) p t"
proof (induction v ps s arbitrary: p t rule: start_remotes.induct)
  case (2 v q t' ps s)
  { case 1 with "2.IH"(1) show ?case by (auto simp: start_one_other) }
  { case 2
    show ?case
    proof (cases "(p, t) = (q, t')")
      case True
      with 2 have "q \<notin> fst ` set ps" by (force simp: image_iff)
      with "2.IH"(1) [of q] True start_one_settles [of v s q t'] show ?thesis
        by (auto simp: settled_cong [of "sv_current_world (start_remotes v ps (start_one v q t' s))"
              "sv_current_world (start_one v q t' s)"])
    qed (use 2 "2.IH"(2) in auto) }
qed auto

lemma start_remotes_settled:
  "\<forall>(p, t) \<in> set ps. settled v (sv_host_id s) (sv_current_world s) p t \<and> wants_start (cv_now v) (sv_current_world s) p \<Longrightarrow>
     start_remotes v ps s = s"
  by (induction v ps s rule: start_remotes.induct) (auto simp: settled_start_one)

definition quiet_remotes :: "conn_env \<Rightarrow> server_id \<Rightarrow> world \<Rightarrow> world \<Rightarrow> bool" where
  "quiet_remotes v host ideal w \<longleftrightarrow>
     dom (map_of (w_remotes w)) \<subseteq> dom (map_of (w_remotes ideal)) \<and>
     (\<forall>p r. map_of (w_remotes ideal) p = Some r \<longrightarrow> settled v host w p (rs_transport r))"

lemma quiet_remotes_fixed:
  assumes "conn_ok s" and "quiet_remotes v (sv_host_id s) (sv_ideal_world s) (sv_current_world s)"
  shows "fix_world_remotes v s = s"
proof -
  have d: "distinct (keys (w_remotes (sv_ideal_world s)))" using assms(1) by (simp add: conn_ok_def ideal_ok_def)
  have 1: "filter (\<lambda>p. p \<notin> set (keys (w_remotes (sv_ideal_world s)))) (keys (w_remotes (sv_current_world s))) = []"
    using assms(2) by (auto simp: filter_empty_conv quiet_remotes_def)
  show ?thesis
    unfolding fix_world_remotes_def 1 Let_def drop_remotes.simps
    using assms(2) d by (intro start_remotes_settled) (auto simp: quiet_remotes_def keys_def)
qed

lemma fix_world_remotes_same [simp]:
  "sv_ideal_world (fix_world_remotes v s) = sv_ideal_world s" "sv_host_id (fix_world_remotes v s) = sv_host_id s"
  "w_signaling (sv_current_world (fix_world_remotes v s)) = w_signaling (sv_current_world s)"
  by (simp_all add: fix_world_remotes_def Let_def)

lemma fix_world_remotes_quiet:
  assumes "conn_ok s"
  shows "quiet_remotes v (sv_host_id s) (sv_ideal_world s) (sv_current_world (fix_world_remotes v s))"
proof -
  let ?ideal = "w_remotes (sv_ideal_world s)"
  define l1 where "l1 = filter (\<lambda>p. p \<notin> set (keys ?ideal)) (keys (w_remotes (sv_current_world s)))"
  define s1 where "s1 = drop_remotes l1 s"
  define l2 where "l2 = map (\<lambda>(p, r). (p, rs_transport r))
            (filter (\<lambda>(p, _). wants_start (cv_now v) (sv_current_world s1) p) ?ideal)"
  have s2: "fix_world_remotes v s = start_remotes v l2 s1"
    by (simp add: fix_world_remotes_def Let_def l1_def s1_def l2_def)
  have d: "distinct (keys ?ideal)" using assms by (simp add: conn_ok_def ideal_ok_def)
  have "map fst l2 = map fst (filter (\<lambda>(p, _). wants_start (cv_now v) (sv_current_world s1) p) ?ideal)"
    by (simp add: l2_def split_beta comp_def)
  also have "\<dots> = filter (\<lambda>p. wants_start (cv_now v) (sv_current_world s1) p) (keys ?ideal)"
    by (simp add: keys_def filter_map comp_def case_prod_unfold)
  finally have fst2: "map fst l2 = filter (\<lambda>p. wants_start (cv_now v) (sv_current_world s1) p) (keys ?ideal)" .
  with d have d2: "distinct (map fst l2)" by simp
  have in2: "p \<in> fst ` set l2 \<longleftrightarrow> p \<in> dom (map_of ?ideal) \<and> wants_start (cv_now v) (sv_current_world s1) p" for p
    using arg_cong [OF fst2, of set] by auto
  have dom1: "dom (rem_of s1) \<subseteq> dom (map_of ?ideal)"
    by (auto simp: s1_def drop_remotes_rem l1_def split: if_splits)
  have "p \<in> dom (map_of ?ideal)" if "p \<in> dom (rem_of (start_remotes v l2 s1))" for p
    using that subsetD [OF dom1, of p] in2 [of p] start_remotes_rem(1) [of p l2 v s1]
    by (cases "p \<in> fst ` set l2") (auto simp: dom_def)
  moreover have "settled v (sv_host_id s) (sv_current_world (start_remotes v l2 s1)) p (rs_transport r)"
    if r: "map_of ?ideal p = Some r" for p r
  proof (cases "wants_start (cv_now v) (sv_current_world s1) p")
    case True
    with r have "(p, rs_transport r) \<in> set l2" by (auto simp: l2_def dest: map_of_SomeD)
    from start_remotes_rem(2) [OF d2 this, of v s1] show ?thesis by (simp add: s1_def)
  next
    case False
    then have "rem_of (start_remotes v l2 s1) p = rem_of s1 p" using in2 by (intro start_remotes_rem(1)) auto
    with False show ?thesis by (auto simp: settled_def wants_start_def)
  qed
  ultimately show ?thesis unfolding s2 quiet_remotes_def by auto
qed

section \<open>The timeout pass\<close>

lemma give_up_signaling [simp]: "w_signaling (give_up now p reason w) = w_signaling w"
  by (simp add: give_up_def)

lemma time_out_remotes_same [simp]:
  "sv_ideal_world (time_out_remotes now ps s) = sv_ideal_world s" "sv_host_id (time_out_remotes now ps s) = sv_host_id s"
  "w_signaling (sv_current_world (time_out_remotes now ps s)) = w_signaling (sv_current_world s)"
  by (induction now ps s rule: time_out_remotes.induct) (auto simp: send_notif_emit)

lemma fix_world_timeouts_same [simp]:
  "sv_ideal_world (fix_world_timeouts v s) = sv_ideal_world s" "sv_host_id (fix_world_timeouts v s) = sv_host_id s"
  "w_signaling (sv_current_world (fix_world_timeouts v s)) = w_signaling (sv_current_world s)"
  by (simp_all add: fix_world_timeouts_def)

definition given_up :: "instant \<Rightarrow> remote_state \<Rightarrow> bool" where
  "given_up now r \<longleftrightarrow> (case rs_status r of R_failed _ \<Rightarrow> True | R_disconnected t _ \<Rightarrow> now < t | _ \<Rightarrow> False)"

lemma give_up_rem:
  "q \<noteq> p \<Longrightarrow> map_of (w_remotes (give_up now p reason w)) q = map_of (w_remotes w) q"
  "map_of (w_remotes w) p = Some r \<Longrightarrow> remote_ok r \<Longrightarrow>
     \<exists>r'. map_of (w_remotes (give_up now p reason w)) p = Some r' \<and> given_up now r'"
  by (auto simp: give_up_def mark_remote_disconnected_def mark_remote_failed_def alter_remote_def Let_def
      given_up_def remote_ok_def stride_ok_def secs_def split: option.split)

lemma give_up_dom: "dom (map_of (w_remotes (give_up now p reason w))) = dom (map_of (w_remotes w))"
  by (auto simp: give_up_def mark_remote_disconnected_def mark_remote_failed_def alter_remote_def split: option.splits)

lemma time_out_remotes_rem:
  "p \<notin> fst ` set ps \<Longrightarrow> rem_of (time_out_remotes now ps s) p = rem_of s p"
  "distinct (map fst ps) \<Longrightarrow> p \<in> fst ` set ps \<Longrightarrow> rem_of s p = Some r \<Longrightarrow> remote_ok r \<Longrightarrow>
     \<exists>r'. rem_of (time_out_remotes now ps s) p = Some r' \<and> given_up now r'"
proof (induction now ps s arbitrary: r rule: time_out_remotes.induct)
  case (2 now q reason ps s)
  { case 1 with "2.IH"(1) show ?case by (auto simp: send_notif_emit give_up_rem) }
  { case 2
    let ?s = "send_notif FailedToConnect (ConnectionBrokeNote q (lit reason))
         (emit (Disconnect q) (upd_current (give_up now q reason) s))"
    show ?case
    proof (cases "p = q")
      case True
      with 2 have "p \<notin> fst ` set ps" by auto
      with "2.IH"(1) True give_up_rem(2) [OF 2(3)] 2(4) show ?thesis by (auto simp: send_notif_emit)
    next
      case False
      with 2(3) have "rem_of ?s p = Some r" by (simp add: send_notif_emit give_up_rem)
      with "2.IH"(2) [of r] 2 False show ?thesis by auto
    qed }
qed auto

lemma time_out_remotes_dom: "dom (rem_of (time_out_remotes now ps s)) = dom (rem_of s)"
  by (induction now ps s rule: time_out_remotes.induct) (auto simp: send_notif_emit give_up_dom)

definition timed_out_list :: "instant \<Rightarrow> (server_id, remote_state) hash_map \<Rightarrow> (server_id \<times> string) list" where
  "timed_out_list now m =
     concat (map (\<lambda>(p, r). case remote_timed_out now r of Some reason \<Rightarrow> [(p, reason)] | None \<Rightarrow> []) m)"

lemma timed_out_list_keys:
  "map fst (timed_out_list now m) = map fst (filter (\<lambda>(_, r). remote_timed_out now r \<noteq> None) m)"
  by (induction m) (auto simp: timed_out_list_def split: option.splits)

lemma fix_world_timeouts_rem:
  assumes "conn_ok s"
  shows "rem_of (fix_world_timeouts v s) p = rem_of s p \<and>
       (\<forall>r. rem_of s p = Some r \<longrightarrow> remote_timed_out (cv_now v) r = None) \<or>
     (\<exists>r. rem_of (fix_world_timeouts v s) p = Some r \<and> given_up (cv_now v) r)"
proof -
  let ?m = "w_remotes (sv_current_world s)"
  let ?l = "timed_out_list (cv_now v) ?m"
  have d: "distinct (keys ?m)" and ok: "\<And>r. rem_of s p = Some r \<Longrightarrow> remote_ok r"
    using assms by (simp_all add: conn_ok_def current_ok_def)
  have dl: "distinct (map fst ?l)"
    using d by (simp add: timed_out_list_keys keys_def distinct_map_filter)
  have l: "p \<in> fst ` set ?l \<longleftrightarrow> (\<exists>r. rem_of s p = Some r \<and> remote_timed_out (cv_now v) r \<noteq> None)"
    using in_filtered_keys [OF d, of p "\<lambda>r. remote_timed_out (cv_now v) r \<noteq> None"]
      arg_cong [OF timed_out_list_keys, of set "cv_now v" ?m] by auto
  have eq: "fix_world_timeouts v s = time_out_remotes (cv_now v) ?l s"
    by (simp add: fix_world_timeouts_def timed_out_list_def)
  show ?thesis
  proof (cases "p \<in> fst ` set ?l")
    case True
    then obtain r where "rem_of s p = Some r" using l by blast
    from time_out_remotes_rem(2) [OF dl True this ok [OF this]] show ?thesis unfolding eq by blast
  next
    case False
    with time_out_remotes_rem(1) [OF this] l show ?thesis unfolding eq by auto
  qed
qed

lemma fix_world_timeouts_fixed:
  assumes "conn_ok s" and "\<And>p r. rem_of s p = Some r \<Longrightarrow> remote_timed_out (cv_now v) r = None"
  shows "fix_world_timeouts v s = s"
proof -
  have d: "distinct (keys (w_remotes (sv_current_world s)))" using assms(1) by (simp add: conn_ok_def current_ok_def)
  then have "map fst (timed_out_list (cv_now v) (w_remotes (sv_current_world s))) = []"
    unfolding timed_out_list_keys using assms(2) by (subst filter_entries_empty) auto
  then have "timed_out_list (cv_now v) (w_remotes (sv_current_world s)) = []" by simp
  then show ?thesis by (simp add: fix_world_timeouts_def del: concat_eq_Nil_conv flip: timed_out_list_def)
qed

section \<open>A second run does nothing\<close>

lemma settled_given_up: "map_of (w_remotes w) p = Some r \<Longrightarrow> given_up (cv_now v) r \<Longrightarrow> settled v host w p t"
  by (auto simp: settled_def wants_start_def given_up_def split: remote_status.splits)

lemma not_timed_out_given_up: "given_up now r \<Longrightarrow> remote_timed_out now r = None"
  by (auto simp: remote_timed_out_def given_up_def split: remote_status.splits)

lemma fix_world_reached:
  assumes "conn_ok s"
  shows "conn_ok (fix_world v s)" and "sv_ideal_world (fix_world v s) = sv_ideal_world s"
    and "sv_host_id (fix_world v s) = sv_host_id s"
    and "quiet_signaling v (sv_ideal_world s) (sv_current_world (fix_world v s))"
    and "quiet_remotes v (sv_host_id s) (sv_ideal_world s) (sv_current_world (fix_world v s))"
    and "rem_of (fix_world v s) p = Some r \<Longrightarrow> remote_timed_out (cv_now v) r = None"
proof -
  define s1 where "s1 = fix_world_signaling v s"
  define s2 where "s2 = fix_world_remotes v s1"
  define s3 where "s3 = fix_world_timeouts v s2"
  have s3: "fix_world v s = s3" by (simp add: fix_world_def s1_def s2_def s3_def)
  have ok: "conn_ok s1" "conn_ok s2"
    using assms by (simp_all add: s1_def s2_def conn_ok_fix_world_signaling fix_world_remotes_def
        Let_def conn_ok_start_remotes conn_ok_drop_remotes)
  show "conn_ok (fix_world v s)" using assms by (rule conn_ok_fix_world)
  show "sv_ideal_world (fix_world v s) = sv_ideal_world s" "sv_host_id (fix_world v s) = sv_host_id s"
    by (simp_all add: fix_world_def)
  show "quiet_signaling v (sv_ideal_world s) (sv_current_world (fix_world v s))"
    using fix_world_signaling_quiet [OF assms, of v] by (simp add: quiet_signaling_def wants_bind_def fix_world_def)
  have q2: "quiet_remotes v (sv_host_id s) (sv_ideal_world s) (sv_current_world s2)"
    using fix_world_remotes_quiet [OF ok(1), of v] by (simp add: s2_def s1_def)
  have "dom (rem_of s3) = dom (rem_of s2)"
    by (simp add: s3_def fix_world_timeouts_def time_out_remotes_dom)
  moreover have "settled v (sv_host_id s) (sv_current_world s3) p (rs_transport r)"
    if "map_of (w_remotes (sv_ideal_world s)) p = Some r" for p r
  proof -
    have "settled v (sv_host_id s) (sv_current_world s2) p (rs_transport r)"
      using q2 that by (auto simp: quiet_remotes_def)
    with fix_world_timeouts_rem [OF ok(2), of v p] show ?thesis
      by (auto simp: s3_def intro: settled_given_up
          simp: settled_cong [of "sv_current_world (fix_world_timeouts v s2)" "sv_current_world s2"])
  qed
  ultimately show "quiet_remotes v (sv_host_id s) (sv_ideal_world s) (sv_current_world (fix_world v s))"
    using q2 unfolding s3 by (simp add: quiet_remotes_def)
  show "remote_timed_out (cv_now v) r = None" if "rem_of (fix_world v s) p = Some r"
    using fix_world_timeouts_rem [OF ok(2), of v p] that by (auto simp: s3 s3_def not_timed_out_given_up)
qed

lemma fix_world_idem:
  assumes "conn_ok s"
  shows "fix_world v (fix_world v s) = fix_world v s"
proof -
  note r = fix_world_reached [OF assms, of v]
  have "fix_world_signaling v (fix_world v s) = fix_world v s"
    using r by (simp add: quiet_signaling_fixed)
  moreover have "fix_world_remotes v (fix_world v s) = fix_world v s"
    using r by (simp add: quiet_remotes_fixed)
  moreover have "fix_world_timeouts v (fix_world v s) = fix_world v s"
    using r(1,6) by (rule fix_world_timeouts_fixed)
  ultimately show ?thesis by (simp add: fix_world_def [of v "fix_world v s"])
qed

end
