(* ===== verification/Connection_Theorems.thy ===== *)
theory Connection_Theorems
  imports Fix_World
begin

text \<open>What the connection management promises, and where its promise ends.\<close>

section \<open>A server with something to do\<close>

definition sample_env :: "instant \<Rightarrow> conn_env" where
  "sample_env now = \<lparr>cv_now = now, cv_now_secs = now div 1000, cv_bind = (\<lambda>_. None), cv_send = (\<lambda>_ _. None),
     cv_cid = (\<lambda>_. 7), cv_gen_cert = (\<lambda>_. Inr (''key'', ''cert'', ''EE''))\<rparr>"

definition sample_config :: config where
  "sample_config = \<lparr>cf_projects = [], cf_trusted_hosts = [''bob::BB''], cf_host_id = Some ''alice::AA'', cf_permission = []\<rparr>"

definition alice :: "unit server" where
  "alice = server_new_with_keycert ''alice::AA'' ''alice'' sample_config ''AA''"

fun conn_run :: "conn_event list \<Rightarrow> 'b server \<Rightarrow> 'b server option" where
  "conn_run [] s = Some s"
| "conn_run (e # es) s = Option.bind (conn_step e s) (conn_run es)"

lemma conn_run_reachable: "conn_reachable s \<Longrightarrow> conn_run es s = Some s' \<Longrightarrow> conn_reachable s'"
  by (induction es arbitrary: s) (auto split: bind_splits intro: conn_reachable.Event)

text \<open>The editor accepts connections at one signaling server and asks for a peer behind another.\<close>

definition sample_events :: "conn_event list" where
  "sample_events = [Ev_accept (sample_env 0) ''sig.example'', Ev_connect 1 ''bob::BB'' (SCTP ''other.example'')]"

definition busy :: "unit server" where
  "busy = (case conn_run sample_events alice of Some s \<Rightarrow> s | None \<Rightarrow> alice)"

lemma busy_reachable: "conn_reachable busy"
proof -
  have "conn_run sample_events alice \<noteq> None" by code_simp
  moreover have "conn_reachable alice" unfolding alice_def by (rule conn_reachable.New)
  ultimately show ?thesis
    unfolding busy_def by (auto split: option.split intro: conn_run_reachable)
qed

lemma busy_pending:
  "map_option rs_status (rem_of (fix_world (sample_env 5) busy) ''bob::BB'') = Some R_pending"
  "rem_of busy ''bob::BB'' = None"
  by code_simp+

section \<open>Properties\<close>

text \<open>C8: \<open>fix_world\<close> is idempotent, as its comment claims: in every state the connection events can lead
  to, a second run at the same moment changes nothing and sends nothing.\<close>

theorem fix_world_idempotent:
  assumes "conn_reachable s"
  shows "fix_world v (fix_world v s) = fix_world v s"
  using assms by (intro fix_world_idem conn_reachable_ok)

lemma fix_world_idempotent_witness:
  "fix_world (sample_env 5) (fix_world (sample_env 5) busy) = fix_world (sample_env 5) busy"
  by (rule fix_world_idempotent [OF busy_reachable])

text \<open>C23: \<open>fix_world\<close> reconciles the current world with the ideal one: afterwards no peer is left that was
  not asked for, and every peer asked for (ourselves apart) has an entry, which waits for its
  signaling server only if that is not bound, and otherwise is being connected, connected, failed,
  or disconnected with a retry in the future.\<close>

theorem fix_world_reconciles:
  assumes "conn_reachable s" and "s' = fix_world v s"
  shows "(\<forall>p. map_of (w_remotes (sv_current_world s')) p \<noteq> None \<longrightarrow> map_of (w_remotes (sv_ideal_world s)) p \<noteq> None) \<and>
    (\<forall>p i. map_of (w_remotes (sv_ideal_world s)) p = Some i \<longrightarrow> p \<noteq> sv_host_id s \<longrightarrow>
       (\<exists>r. map_of (w_remotes (sv_current_world s')) p = Some r \<and>
          (case rs_status r of
             R_pending \<Rightarrow> unbound (sv_current_world s') (rs_transport i)
           | R_disconnected retry _ \<Rightarrow> cv_now v < retry
           | _ \<Rightarrow> True)))"
proof -
  note r = fix_world_reached [OF conn_reachable_ok [OF assms(1)], of v, folded assms(2)]
  have "\<exists>r. map_of (w_remotes (sv_current_world s')) p = Some r \<and>
      (case rs_status r of
         R_pending \<Rightarrow> unbound (sv_current_world s') (rs_transport i)
       | R_disconnected retry _ \<Rightarrow> cv_now v < retry
       | _ \<Rightarrow> True)"
    if p: "map_of (w_remotes (sv_ideal_world s)) p = Some i" "p \<noteq> sv_host_id s" for p i
  proof -
    have "settled v (sv_host_id s) (sv_current_world s') p (rs_transport i)"
      using r(5) p(1) by (simp add: quiet_remotes_def)
    with p(2) show ?thesis
      by (auto simp: settled_def wants_start_def split: option.splits remote_status.splits)
  qed
  moreover have "dom (rem_of s') \<subseteq> dom (map_of (w_remotes (sv_ideal_world s)))"
    using r(5) by (simp add: quiet_remotes_def)
  ultimately show ?thesis by blast
qed

lemma fix_world_reconciles_witness:
  "\<exists>r. map_of (w_remotes (sv_current_world (fix_world (sample_env 5) busy))) ''bob::BB'' = Some r"
proof -
  have "map_of (w_remotes (sv_ideal_world busy)) ''bob::BB'' \<noteq> None" "''bob::BB'' \<noteq> sv_host_id busy"
    by code_simp+
  with fix_world_reconciles [OF busy_reachable refl, of "sample_env 5"] show ?thesis by fastforce
qed

text \<open>C26: The states of connections stay well formed under every connection event: retry strides lie between
  1 and 60 seconds, only a peer that was connected once is connected or waits for a retry, and no
  peer has two entries.\<close>

theorem connections_well_formed:
  assumes "conn_reachable s" and "map_of (w_remotes (sv_current_world s)) p = Some r"
  shows "1 \<le> rs_retry_stride r \<and> rs_retry_stride r \<le> 60 \<and>
    (rs_status r = R_connected \<longrightarrow> rs_ever_connected r) \<and>
    (\<forall>at stride. rs_status r = R_disconnected at stride \<longrightarrow> rs_ever_connected r \<and> 1 \<le> stride \<and> stride \<le> 60) \<and>
    distinct (keys (w_remotes (sv_current_world s)))"
proof -
  have "remote_ok r" "distinct (keys (w_remotes (sv_current_world s)))"
    using conn_reachable_ok [OF assms(1)] assms(2) by (simp_all add: conn_ok_def current_ok_def)
  then show ?thesis by (auto simp: remote_ok_def stride_ok_def MAX_RETRY_STRIDE_SECS_def)
qed

lemma connections_well_formed_witness:
  "\<exists>r. rem_of (fix_world (sample_env 5) busy) ''bob::BB'' = Some r \<and> rs_retry_stride r \<le> 60"
proof -
  have "conn_reachable (fix_world (sample_env 5) busy)"
    by (rule conn_reachable.Event [OF busy_reachable, of "Ev_fix_world (sample_env 5)"]) simp
  moreover obtain r where "rem_of (fix_world (sample_env 5) busy) ''bob::BB'' = Some r"
    using busy_pending by auto
  ultimately show ?thesis using connections_well_formed by blast
qed

text \<open>A peer that keeps failing: it is tried again, with a fresh id, and breaks at the given times.\<close>

fun failing :: "(instant \<times> connection_id \<times> instant) list \<Rightarrow> transport_config \<Rightarrow> server_id \<Rightarrow> world \<Rightarrow> world" where
  "failing [] t p w = w"
| "failing ((start, cid, broke) # xs) t p w =
     failing xs t p (mark_remote_disconnected broke (set_remote_connecting1 start cid w p t) p)"

lemma failing_snoc:
  "failing (xs @ [(start, cid, broke)]) t p w =
     mark_remote_disconnected broke (set_remote_connecting1 start cid (failing xs t p w) p t) p"
  by (induction xs arbitrary: w) auto

lemma failing_stride:
  assumes "map_of (w_remotes w) p = Some r" and "rs_retry_stride r = 1"
  shows "\<exists>r'. map_of (w_remotes (failing xs t p w)) p = Some r' \<and> rs_retry_stride r' = min (2 ^ length xs) 60"
proof (induction xs rule: rev_induct)
  case (snoc x xs)
  then obtain r' where "map_of (w_remotes (failing xs t p w)) p = Some r'"
      "rs_retry_stride r' = min (2 ^ length xs) 60" by blast
  with next_stride_power [of "length xs"] show ?case
    by (cases x) (simp add: failing_snoc set_remote_connecting1_def put_remote_def ever_and_stride_def
        mark_remote_disconnected_def alter_remote_def Let_def)
qed (use assms in auto)

text \<open>Back-off: after a connection that was established once has broken and failed n times in a row, the
  next attempt waits for the minimum of 2 to the n and 60 seconds, whenever the failures happened.\<close>

theorem reconnect_backs_off:
  assumes "map_of (w_remotes w) p \<noteq> None"
  shows "map_option rs_status (map_of (w_remotes
      (mark_remote_disconnected now (failing xs t p (mark_remote_connected w p)) p)) p) =
    Some (R_disconnected (now + 1000 * min (2 ^ length xs) 60) (min (2 ^ length xs) 60))"
proof -
  from assms obtain r0 where "map_of (w_remotes w) p = Some r0" by auto
  then have "\<exists>r. map_of (w_remotes (mark_remote_connected w p)) p = Some r \<and> rs_retry_stride r = 1"
    by (simp add: mark_remote_connected_def alter_remote_def INITIAL_RETRY_STRIDE_SECS_def)
  then obtain r where "map_of (w_remotes (mark_remote_connected w p)) p = Some r" "rs_retry_stride r = 1" by blast
  from failing_stride [OF this, of xs t] show ?thesis
    by (auto simp: mark_remote_disconnected_def alter_remote_def Let_def secs_def)
qed

lemma reconnect_backs_off_witness:
  "map_option rs_status (map_of (w_remotes (mark_remote_disconnected 100
      (failing [(1, 2, 3), (4, 5, 6), (7, 8, 9)] (SCTP ''a'') ''bob::BB''
        (mark_remote_connected (sv_current_world (fix_world (sample_env 5) busy)) ''bob::BB'')) ''bob::BB'')) ''bob::BB'') =
   Some (R_disconnected (100 + 1000 * 8) 8)"
  using reconnect_backs_off [of "sv_current_world (fix_world (sample_env 5) busy)" "''bob::BB''" 100
      "[(1, 2, 3), (4, 5, 6), (7, 8, 9)]" "SCTP ''a''"] busy_pending(1) by auto

section \<open>Trust\<close>

text \<open>The connections a server has started.\<close>

fun start_of :: "out \<Rightarrow> server_id list" where
  "start_of (Start_connect p _ _) = [p]"
| "start_of _ = []"

definition started :: "'b server \<Rightarrow> server_id list" where
  "started s = concat (map start_of (sv_out s))"

lemma started_emit [simp]: "started (emit x s) = started s @ start_of x"
  by (simp add: started_def)

lemma started_same [simp]:
  "started (upd_current f s) = started s" "started (upd_ideal f s) = started s" "started (fix_world_next s) = started s"
  "started (s\<lparr>sv_config := c\<rparr>) = started s" "started (s\<lparr>sv_local_trusted_hosts := l\<rparr>) = started s"
  by (simp_all add: started_def)

lemma bind_one_kept [simp]:
  "started (bind_one v a s) = started s" "sv_local_trusted_hosts (bind_one v a s) = sv_local_trusted_hosts s"
  "sv_host_name (bind_one v a s) = sv_host_name s"
  by (simp_all add: bind_one_def Let_def send_notif_emit split: option.split)

lemma signaling_loops_kept [simp]:
  "started (fail_bindings as s) = started s" "started (drop_signaling as s) = started s"
  "started (start_bindings v as s) = started s" "started (sync_trust v as s) = started s"
  "sv_local_trusted_hosts (fail_bindings as s) = sv_local_trusted_hosts s"
  "sv_local_trusted_hosts (drop_signaling as s) = sv_local_trusted_hosts s"
  "sv_local_trusted_hosts (start_bindings v as s) = sv_local_trusted_hosts s"
  "sv_local_trusted_hosts (sync_trust v as s) = sv_local_trusted_hosts s"
  "sv_host_name (fail_bindings as s) = sv_host_name s" "sv_host_name (drop_signaling as s) = sv_host_name s"
  "sv_host_name (start_bindings v as s) = sv_host_name s" "sv_host_name (sync_trust v as s) = sv_host_name s"
  by (induction "as" arbitrary: s) auto

lemma fix_world_signaling_kept [simp]:
  "started (fix_world_signaling v s) = started s"
  "sv_local_trusted_hosts (fix_world_signaling v s) = sv_local_trusted_hosts s"
  "sv_host_name (fix_world_signaling v s) = sv_host_name s"
  by (simp_all add: fix_world_signaling_def Let_def)

lemma send_connect_message_kept [simp]:
  "started (send_connect_message v p a i s) = started s"
  "sv_local_trusted_hosts (send_connect_message v p a i s) = sv_local_trusted_hosts s"
  "sv_host_name (send_connect_message v p a i s) = sv_host_name s"
  by (simp_all add: send_connect_message_def Let_def send_notif_emit split: option.split)

text \<open>Connections started to an envoy of ours carry a certificate made for it.\<close>

definition envoys :: "'b server \<Rightarrow> 'b server \<Rightarrow> bool" where
  "envoys s s' \<longleftrightarrow> sv_host_name s' = sv_host_name s \<and>
     set (sv_local_trusted_hosts s) \<subseteq> set (sv_local_trusted_hosts s') \<and>
     (\<exists>ps. started s' = started s @ ps \<and>
        (\<forall>p \<in> set ps. (\<exists>h. p = sv_host_name s @ ''-envoy::'' @ h) \<and> p \<in> set (sv_local_trusted_hosts s')))"

lemma envoys_trans: "envoys s s' \<Longrightarrow> envoys s' s'' \<Longrightarrow> envoys s s''"
  unfolding envoys_def by (auto 4 3)

lemma envoys_same:
  "started s' = started s \<Longrightarrow> sv_local_trusted_hosts s' = sv_local_trusted_hosts s \<Longrightarrow>
     sv_host_name s' = sv_host_name s \<Longrightarrow> envoys s s'"
  by (simp add: envoys_def)

lemma envoys_start_one: "envoys s (start_one v p t s)"
  by (auto simp: start_one_def try_connect_remote_def try_connect_remote_sctp_def try_connect_remote_ssh_def
      Let_def send_notif_emit envoys_def split: transport_config.split sum.split)

lemma envoys_start_remotes: "envoys s (start_remotes v ps s)"
  by (induction v ps s rule: start_remotes.induct) (auto intro: envoys_same envoys_trans [OF envoys_start_one])

lemma drop_remotes_kept [simp]:
  "started (drop_remotes ps s) = started s" "sv_local_trusted_hosts (drop_remotes ps s) = sv_local_trusted_hosts s"
  "sv_host_name (drop_remotes ps s) = sv_host_name s"
  by (induction ps arbitrary: s) auto

lemma time_out_remotes_kept [simp]:
  "started (time_out_remotes now ps s) = started s"
  "sv_local_trusted_hosts (time_out_remotes now ps s) = sv_local_trusted_hosts s"
  "sv_host_name (time_out_remotes now ps s) = sv_host_name s"
  by (induction now ps s rule: time_out_remotes.induct) (auto simp: send_notif_emit)

lemma envoys_fix_world: "envoys s (fix_world v s)"
proof -
  let ?s1 = "fix_world_signaling v s"
  have "envoys s ?s1" by (rule envoys_same) simp_all
  moreover have "envoys ?s1 (fix_world_remotes v ?s1)"
    unfolding fix_world_remotes_def Let_def by (rule envoys_trans [OF envoys_same envoys_start_remotes]) simp_all
  moreover have "envoys s' (fix_world_timeouts v s')" for s' :: "'a server"
    unfolding fix_world_timeouts_def by (rule envoys_same) simp_all
  ultimately show ?thesis unfolding fix_world_def by (blast intro: envoys_trans)
qed

lemma any_hash_in: "any_hash h is = Some True \<Longrightarrow> \<exists>i \<in> set is. id_hash i = Some h"
  by (induction "is") (auto split: bind_splits if_splits)

lemma connect_started:
  assumes "handle_signaling_connect_msg v cid2 a peer i s = Some s'"
  shows "started s' = started s \<or>
    (started s' = started s @ [peer] \<and>
     (\<exists>t \<in> set (w_trusted (sv_ideal_world s)) \<union> set (sv_local_trusted_hosts s). id_hash t = id_hash peer))"
proof (cases "connecting_or_connected (sv_current_world s) peer")
  case True
  with assms show ?thesis by (simp add: handle_signaling_connect_msg_def)
next
  case False
  with assms obtain h trusted where h: "id_hash peer = Some h" "is_cert_trusted s h = Some trusted"
    by (auto simp: handle_signaling_connect_msg_def split: bind_splits)
  show ?thesis
  proof (cases trusted)
    case True
    with h have "\<exists>t \<in> set (w_trusted (sv_ideal_world s)) \<union> set (sv_local_trusted_hosts s). id_hash t = id_hash peer"
      by (auto simp: is_cert_trusted_def split: bind_splits if_splits dest: any_hash_in)
    moreover have "started s' = started s @ [peer]"
      using assms False h True by (auto simp: handle_signaling_connect_msg_def Let_def)
    ultimately show ?thesis by blast
  qed (use assms False h in \<open>auto simp: handle_signaling_connect_msg_def send_notif_emit\<close>)
qed

text \<open>C24: Only trusted peers are connected to: whenever a connection event starts a connection, it is to a
  peer whose certificate hash is that of a trusted host, or to an envoy of our own whose
  certificate was just made.\<close>

theorem only_trusted_peers_connect:
  assumes "conn_step e s = Some s'"
  shows "\<exists>ps. started s' = started s @ ps \<and>
    (\<forall>p \<in> set ps.
       (\<exists>t \<in> set (w_trusted (sv_ideal_world s)) \<union> set (sv_local_trusted_hosts s). id_hash t = id_hash p) \<or>
       ((\<exists>h. p = sv_host_name s @ ''-envoy::'' @ h) \<and> p \<in> set (sv_local_trusted_hosts s')))"
proof (cases e)
  case (Ev_fix_world v)
  with assms envoys_fix_world [of s v] show ?thesis by (auto simp: envoys_def)
next
  case (Ev_signaling v cid a m)
  show ?thesis
  proof (cases "\<exists>peer r i. m = SM_connect peer r i")
    case True
    with assms Ev_signaling show ?thesis
      by (auto simp: handle_signaling_msg_def dest!: connect_started)
  next
    case False
    with assms Ev_signaling have "started s' = started s"
      by (auto simp: handle_signaling_msg_def handle_signaling_bound_msg_def Let_def send_notif_emit
          split: signaling_msg.splits)
    then show ?thesis by simp
  qed
next
  case (Ev_accept v a)
  with assms have "started s' = started s"
    by (auto simp: handle_accept_connection_def Let_def send_notif_emit split: option.split signaling_status.split)
  then show ?thesis by simp
qed (use assms in \<open>auto simp: handle_accept_stopped_def handle_connect_def handle_stop_accepting_def
    handle_update_config_from_editor_def handle_failed_to_connect_def handle_connection_broke_def connection_lost_def
    handle_hey_def handle_bye_def Let_def replace_and_save_def send_notif_emit split: option.split\<close>)

lemma only_trusted_peers_connect_witness:
  "\<exists>s'. conn_step (Ev_signaling (sample_env 5) 3 ''sig.example'' (SM_connect ''robert::BB'' ''alice::AA'' True)) busy = Some s' \<and>
     started s' = [''robert::BB''] \<and>
     (\<exists>ps. started s' = started busy @ ps \<and>
       (\<forall>p \<in> set ps.
         (\<exists>t \<in> set (w_trusted (sv_ideal_world busy)) \<union> set (sv_local_trusted_hosts busy). id_hash t = id_hash p) \<or>
         ((\<exists>h. p = sv_host_name busy @ ''-envoy::'' @ h) \<and> p \<in> set (sv_local_trusted_hosts s'))))"
proof -
  let ?e = "Ev_signaling (sample_env 5) 3 ''sig.example'' (SM_connect ''robert::BB'' ''alice::AA'' True)"
  have "map_option started (conn_step ?e busy) = Some [''robert::BB'']" by code_simp
  then obtain s' where s': "conn_step ?e busy = Some s'" "started s' = [''robert::BB'']" by auto
  from only_trusted_peers_connect [OF s'(1)] s' show ?thesis by blast
qed

section \<open>A finding\<close>

text \<open>An envoy answers under the id made for it, while the entry is kept under the id asked for.\<close>

definition ssh_peer_events :: "conn_event list" where
  "ssh_peer_events =
     [Ev_connect 1 ''envoy-peer'' (SshStdio ''carol@host'' [''collab-mode''] []),
      Ev_fix_world (sample_env 0),
      Ev_hey None ''alice-envoy::EE'' \<lparr>hey_text = ''hi'', hey_credentials = '''', hey_version = ''v1.0.0''\<rparr>]"

definition ssh_state :: "unit server" where
  "ssh_state = (case conn_run ssh_peer_events alice of Some s \<Rightarrow> s | None \<Rightarrow> alice)"

lemma ssh_state_worlds:
  "w_signaling (sv_current_world ssh_state) = []" "w_signaling (sv_ideal_world ssh_state) = []"
  "w_remotes (sv_ideal_world ssh_state) = [(''envoy-peer'', \<lparr>rs_transport = SshStdio ''carol@host'' [''collab-mode''] [], rs_status = R_connected,
     rs_ever_connected = False, rs_retry_stride = 1, rs_connection_id = 1\<rparr>)]"
  "w_remotes (sv_current_world ssh_state) = [(''envoy-peer'', \<lparr>rs_transport = SshStdio ''carol@host'' [''collab-mode''] [], rs_status = R_connecting1 0,
     rs_ever_connected = False, rs_retry_stride = 1, rs_connection_id = 7\<rparr>)]"
  by code_simp+

lemma ssh_run: "conn_run ssh_peer_events alice = Some ssh_state"
  unfolding ssh_state_def by code_simp
lemma ssh_state_times_out:
  "map_option rs_status (rem_of (fix_world (sample_env 10001) ssh_state) ''envoy-peer'') = Some (R_failed (lit ''stage1 timeout''))"
  by (simp add: fix_world_def fix_world_signaling_def fix_world_remotes_def fix_world_timeouts_def Let_def ssh_state_worlds keys_def
     wants_start_def remote_timed_out_def sample_env_def duration_since_def secs_def give_up_def ever_connected_def mark_remote_failed_def alter_remote_def send_notif_emit)

text \<open>A finding: a peer reached over ssh is never seen as connected. The connection is started, and its
  messages arrive, under the id of the envoy, but the current world keeps the peer under the id the
  editor asked for; so the envoy's greeting changes nothing, requests are refused, and after ten
  seconds the attempt counts as failed.\<close>

theorem ssh_peer_stays_unconnected:
  "map_option (\<lambda>s. (started s, remote_connected s ''envoy-peer'',
       map_option rs_status (rem_of s ''envoy-peer''),
       map_option rs_status (rem_of (fix_world (sample_env 10001) s) ''envoy-peer'')))
     (conn_run ssh_peer_events alice) =
   Some ([''alice-envoy::EE''], False, Some (R_connecting1 0), Some (R_failed (lit ''stage1 timeout'')))"
proof -
  have "started ssh_state = [''alice-envoy::EE'']" "\<not> remote_connected ssh_state ''envoy-peer''" by code_simp+
  then show ?thesis by (simp add: ssh_run ssh_state_worlds ssh_state_times_out)
qed

end
