(* ===== verification/Server_Ops.thy ===== *)
theory Server_Ops
  imports Server_State
begin

text \<open>
  The handlers of \<open>server.rs\<close> that carry ops between the editor, the client engines of remote
  documents and the server engines of hosted ones, and the one that turns a change of a file on
  disk into ops.
\<close>

definition num_doc :: "doc_id \<Rightarrow> fmt_arg" where
  "num_doc d = A_num (unat d)"

section \<open>Ops that arrive at the host\<close>

text \<open>Is the first op of a message the next one expected from the sender?\<close>

definition site_seq_gap :: "op fat_op list \<Rightarrow> nat \<Rightarrow> nat option" where
  "site_seq_gap ops expected =
     (case ops of
        [] \<Rightarrow> None
      | f # _ \<Rightarrow> if fo_site_seq f \<noteq> expected then Some (fo_site_seq f) else None)"

text \<open>Processing, recording the sender's sequence number and applying, as the code has them in order.\<close>

definition process_client_ops ::
  "'b gapbuf_ops \<Rightarrow> server_id \<Rightarrow> context_ops \<Rightarrow> 'b doc \<Rightarrow>
     ('b doc \<times> op fat_op list \<times> (server_error + unit)) option" where
  "process_client_ops B host co d = do {
     let (processed, engine) = server_process_ops (d_engine d) (co_ops co) (co_context co);
     let d = d\<lparr>d_engine := engine\<rparr>;
     let d = (if co_ops co = [] then d
              else d\<lparr>d_subscribers := AList.update host (fo_site_seq (last (co_ops co))) (d_subscribers d)\<rparr>);
     (d, r) \<leftarrow> apply_ops B d processed;
     Some (d, processed, r) }"

definition handle_op_from_client ::
  "'b gapbuf_ops \<Rightarrow> next_ctx \<Rightarrow> context_ops \<Rightarrow> server_id \<Rightarrow> 'b server \<Rightarrow>
     ('b server \<times> (server_error + unit)) option" where
  "handle_op_from_client B nx co host s =
     (let doc = co_doc co in
      if \<not> write_allowed (sv_config s) host
      then Some (send_to_remote nx host (M_permission_denied (lit ''Write permission denied'')) s, Inr ())
      else (case map_of (sv_docs s) doc of
        None \<Rightarrow> Some (send_to_remote nx host (M_bad_request (Fmt ''Doc {} not found'' [num_doc doc])) s, Inr ())
      | Some d \<Rightarrow>
          (case map_of (d_subscribers d) host of
             None \<Rightarrow> Some (send_to_remote nx host
               (M_bad_request (Fmt ''Doc {} ({}) not open'' [A_str (d_name d), num_doc doc])) s, Inr ())
           | Some last_seq \<Rightarrow>
               (case site_seq_gap (co_ops co) (last_seq + 1) of
                  Some got \<Rightarrow> Some (send_to_remote nx host (M_doc_fatal doc
                    (Fmt ''Site seq mismatch: expected {}, got {}'' [A_num (last_seq + 1), A_num got])) s, Inr ())
                | None \<Rightarrow> do {
                    (d, processed, r) \<leftarrow> process_client_ops B host co d;
                    let s = set_doc doc d s;
                    (case r of
                       Inl e \<Rightarrow> Some (s, Inl e)
                     | Inr _ \<Rightarrow> Some (send_to_all nx (keys (d_subscribers d)) (M_op_from_server doc processed) s,
                                     Inr ())) }))))"

definition handle_request_ops ::
  "next_ctx \<Rightarrow> doc_id \<Rightarrow> nat \<Rightarrow> server_id \<Rightarrow> 'b server \<Rightarrow> 'b server" where
  "handle_request_ops nx doc after host s =
     (case map_of (sv_docs s) doc of
        None \<Rightarrow> send_to_remote nx host (M_bad_request (Fmt ''Doc {} not found'' [num_doc doc])) s
      | Some d \<Rightarrow>
          (let s = set_doc doc (d\<lparr>d_subscribers := AList.update host 0 (d_subscribers d)\<rparr>) s;
               ops = global_ops_after (d_engine d) after
           in if ops \<noteq> [] then send_to_remote nx host (M_op_from_server doc ops) s else s))"

text \<open>The \<open>StopSendingOps\<close> message.\<close>

definition handle_stop_sending_ops :: "doc_id \<Rightarrow> server_id \<Rightarrow> 'b server \<Rightarrow> 'b server" where
  "handle_stop_sending_ops doc host s =
     (case map_of (sv_docs s) doc of
        None \<Rightarrow> s
      | Some d \<Rightarrow> set_doc doc (d\<lparr>d_subscribers := AList.delete host (d_subscribers d)\<rparr>) s)"

section \<open>Ops that arrive at a client\<close>

text \<open>The loop of \<open>handle_op_from_server\<close>; no document is left when an op has no sequence number.\<close>

fun buffer_ops ::
  "next_ctx \<Rightarrow> doc_id \<Rightarrow> server_id \<Rightarrow> op fat_op list \<Rightarrow> 'b remote_doc \<Rightarrow> 'b server \<Rightarrow>
     'b remote_doc option \<times> 'b server" where
  "buffer_ops nx doc host [] rd s = (Some rd, s)"
| "buffer_ops nx doc host (f # fs) rd s =
     (let expected = ce_seq (r_engine rd) + length (r_remote_op_buffer rd) + 1 in
      case fo_seq f of
        None \<Rightarrow>
          (None, send_notif ErrorResponse (ErrorResponseNote E_doc_fatal (Some (r_file_desc rd))
             (lit ''Received remote op without global seq, terminating doc'')) s)
      | Some gseq \<Rightarrow>
          if gseq < expected then buffer_ops nx doc host fs rd s
          else if gseq > expected
          then buffer_ops nx doc host fs rd (send_to_remote nx host (M_request_ops doc (expected - 1)) s)
          else buffer_ops nx doc host fs (rd\<lparr>r_remote_op_buffer := r_remote_op_buffer rd @ [f]\<rparr>) s)"

definition handle_op_from_server ::
  "next_ctx \<Rightarrow> doc_id \<Rightarrow> op fat_op list \<Rightarrow> server_id \<Rightarrow> 'b server \<Rightarrow> 'b server option" where
  "handle_op_from_server nx doc ops host s =
     (case ops of
        [] \<Rightarrow> Some s
      | first # _ \<Rightarrow>
          (case rd_get (sv_remote_docs s) host doc of
             None \<Rightarrow> Some (send_to_remote nx host (M_stop_sending_ops doc) s)
           | Some rd \<Rightarrow>
               (let op_is_not_ours = (fat_site first \<noteq> ce_site (r_engine rd));
                    old_len = length (r_remote_op_buffer rd)
                in case buffer_ops nx doc host ops rd s of
                     (None, s) \<Rightarrow> Some (drop_remote_doc host doc s)
                   | (Some rd, s) \<Rightarrow>
                       (let s = set_remote_doc host doc rd s; new_len = length (r_remote_op_buffer rd) in
                        if op_is_not_ours \<and> new_len > old_len \<and> new_len > 0 then do {
                          last_seq \<leftarrow> fo_seq (last (r_remote_op_buffer rd));
                          Some (send_notif RemoteOpsArrived
                            (RemoteOpsArrivedNote (editor_file_desc_new (r_file_desc rd) host) last_seq) s) }
                        else Some s))))"

section \<open>Ops and requests of the editor\<close>

fun apply_instructions ::
  "'b gapbuf_ops \<Rightarrow> edit_instruction list \<Rightarrow> 'b remote_doc \<Rightarrow> ('b remote_doc \<times> (server_error + unit)) option" where
  "apply_instructions B [] rd = Some (rd, Inr ())"
| "apply_instructions B (i # is) rd = do {
     (rd, r) \<leftarrow> apply_edit_instruction_unchecked B rd i;
     (case r of Inl e \<Rightarrow> Some (rd, Inl e) | Inr _ \<Rightarrow> apply_instructions B is rd) }"

text \<open>One op of the editor, and the loop over all of them.\<close>

definition process_editor_op ::
  "'b gapbuf_ops \<Rightarrow> editor_fat_op \<Rightarrow> 'b remote_doc \<Rightarrow> ('b remote_doc \<times> (server_error + unit)) option" where
  "process_editor_op B eop rd = do {
     let site_seq = r_next_site_seq rd;
     let rd = rd\<lparr>r_next_site_seq := site_seq + 1\<rparr>;
     (engine, r) \<leftarrow> process_local_op (r_engine rd) eop site_seq;
     let rd = rd\<lparr>r_engine := engine\<rparr>;
     (case r of
        Inl e \<Rightarrow> Some (rd, Inl (Engine_err e))
      | Inr instrs \<Rightarrow> do {
          (rd, r) \<leftarrow> apply_instructions B instrs rd;
          (case r of Inl e \<Rightarrow> Some (rd, Inl e) | Inr _ \<Rightarrow> Some (rd, verify_buffer_engine_sync B rd)) }) }"

fun process_editor_ops ::
  "'b gapbuf_ops \<Rightarrow> editor_fat_op list \<Rightarrow> 'b remote_doc \<Rightarrow> ('b remote_doc \<times> (server_error + unit)) option" where
  "process_editor_ops B [] rd = Some (rd, Inr ())"
| "process_editor_ops B (e # es) rd = do {
     (rd, r) \<leftarrow> process_editor_op B e rd;
     (case r of Inl e \<Rightarrow> Some (rd, Inl e) | Inr _ \<Rightarrow> process_editor_ops B es rd) }"

definition apply_remote_op ::
  "'b gapbuf_ops \<Rightarrow> op fat_op \<Rightarrow> 'b remote_doc \<Rightarrow>
     ('b remote_doc \<times> (server_error + editor_lean_op list)) option" where
  "apply_remote_op B f rd = do {
     (engine, r) \<leftarrow> process_remote_op (r_engine rd) f;
     let rd = rd\<lparr>r_engine := engine\<rparr>;
     (case r of
        Inl e \<Rightarrow> Some (rd, Inl (Engine_err e))
      | Inr None \<Rightarrow> Some (rd, Inr [])
      | Inr (Some (lean, _)) \<Rightarrow> do {
          (rd, r) \<leftarrow> apply_edit_instruction B rd (el_op lean);
          (case r of Inl e \<Rightarrow> Some (rd, Inl e) | Inr _ \<Rightarrow> Some (rd, Inr [lean])) }) }"

fun apply_remote_ops ::
  "'b gapbuf_ops \<Rightarrow> op fat_op list \<Rightarrow> 'b remote_doc \<Rightarrow>
     ('b remote_doc \<times> (server_error + editor_lean_op list)) option" where
  "apply_remote_ops B [] rd = Some (rd, Inr [])"
| "apply_remote_ops B (f # fs) rd = do {
     (rd, r) \<leftarrow> apply_remote_op B f rd;
     (case r of
        Inl e \<Rightarrow> Some (rd, Inl e)
      | Inr leans \<Rightarrow> do {
          (rd, r) \<leftarrow> apply_remote_ops B fs rd;
          (case r of Inl e \<Rightarrow> Some (rd, Inl e) | Inr leans' \<Rightarrow> Some (rd, Inr (leans @ leans'))) }) }"

text \<open>A failing document is dropped and the editor told.\<close>

definition fail_doc :: "next_ctx \<Rightarrow> server_id \<Rightarrow> doc_id \<Rightarrow> fmt_text \<Rightarrow> 'b server \<Rightarrow> 'b server option" where
  "fail_doc nx host doc message s = do {
     s \<leftarrow> send_error nx E_doc_fatal message s;
     Some (drop_remote_doc host doc s) }"

definition handle_send_ops_from_editor ::
  "'b gapbuf_ops \<Rightarrow> next_ctx \<Rightarrow> editor_fat_op list \<Rightarrow> editor_file_desc \<Rightarrow> 'b server \<Rightarrow> 'b server option" where
  "handle_send_ops_from_editor B nx ops file s =
     (case get_remote_doc s file of
        None \<Rightarrow> send_error nx E_io_error (Fmt ''File not found: {}'' [A_str (show_file file)]) s
      | Some (doc, rd) \<Rightarrow> do {
          let host = ef_host_id file;
          let remote_ops = r_remote_op_buffer rd;
          (rd, r) \<leftarrow> process_editor_ops B ops (rd\<lparr>r_remote_op_buffer := []\<rparr>);
          let s = set_remote_doc host doc rd s;
          (case r of
             Inl e \<Rightarrow> fail_doc nx host doc (Fmt ''Failed to process local ops: {}'' [A_fmt (err_text e)]) s
           | Inr _ \<Rightarrow> do {
               (rd, r) \<leftarrow> apply_remote_ops B remote_ops rd;
               let s = set_remote_doc host doc rd s;
               (case r of
                  Inl e \<Rightarrow> fail_doc nx host doc (Fmt ''Failed to apply remote ops: {}'' [A_fmt (err_text e)]) s
                | Inr leans \<Rightarrow> do {
                    let (package, engine) = maybe_package_local_ops (r_engine rd) doc;
                    let rd = rd\<lparr>r_engine := engine\<rparr>;
                    let s = set_remote_doc host doc rd s;
                    let s = (case package of
                               Some co \<Rightarrow> send_to_remote_no_req_id host (M_op_from_client co) s
                             | None \<Rightarrow> s);
                    send_resp nx (SendOpsResp \<lparr>sr_ops = leans, sr_last_global_seq = ce_seq engine,
                      sr_pending_local_ops = pending_local_ops engine,
                      sr_doc_len = gb_len B (r_buffer rd)\<rparr>) None s }) }) })"

definition handle_undo_from_editor ::
  "editor_file_desc \<Rightarrow> undo_choice \<Rightarrow> 'b server \<Rightarrow> (server_error + resp) option" where
  "handle_undo_from_editor file kind s =
     (case get_remote_doc s file of
        None \<Rightarrow> Some (Inl (Other_err (Fmt ''Remote doc not found: {}'' [A_str (show_file file)])))
      | Some (_, rd) \<Rightarrow> do {
          (ops, ctx) \<leftarrow> (case kind of
             Choose_undo \<Rightarrow> generate_undo_op (r_engine rd)
           | Choose_redo \<Rightarrow> generate_redo_op (r_engine rd));
          Some (Inr (UndoResp ops ctx)) })"

definition handle_print_history_from_editor ::
  "next_ctx \<Rightarrow> editor_file_desc \<Rightarrow> bool \<Rightarrow> 'b server \<Rightarrow> 'b server option" where
  "handle_print_history_from_editor nx file debug s =
     (case get_remote_doc s file of
        None \<Rightarrow> send_error nx E_io_error (Fmt ''File not found: {}'' [A_str (show_file file)]) s
      | Some (_, rd) \<Rightarrow> do {
          history \<leftarrow> print_history debug (ce_gh (r_engine rd));
          send_resp nx (PrintHistoryResp history) None s })"

section \<open>Info messages\<close>

definition broadcast_info :: "next_ctx \<Rightarrow> info \<Rightarrow> 'b server \<Rightarrow> 'b server \<times> (server_error + unit)" where
  "broadcast_info nx i s =
     (case map_of (sv_docs s) (in_doc_id i) of
        None \<Rightarrow> (s, Inl (Other_err (Fmt ''Doc {} not found'' [num_doc (in_doc_id i)])))
      | Some d \<Rightarrow>
          (send_to_all nx (filter (\<lambda>h. h \<noteq> in_sender i) (keys (d_subscribers d))) (M_info_from_server i) s, Inr ()))"

text \<open>The branch for a local document comes after one that takes every remote document, ours included.\<close>

definition handle_send_info_from_editor ::
  "next_ctx \<Rightarrow> string \<Rightarrow> editor_file_desc \<Rightarrow> 'b server \<Rightarrow> 'b server option" where
  "handle_send_info_from_editor nx value file s =
     (case get_remote_doc s file of
        Some (doc, _) \<Rightarrow>
          Some (send_to_remote nx (ef_host_id file)
            (M_info_from_client \<lparr>in_doc_id = doc, in_sender = sv_host_id s, in_value = value\<rparr>) s)
      | None \<Rightarrow>
          (case Option.bind (get_remote_doc s file) (\<lambda>(doc, _). map_option (\<lambda>d. doc) (map_of (sv_docs s) doc)) of
             None \<Rightarrow> Some s
           | Some doc \<Rightarrow>
               (case broadcast_info nx \<lparr>in_doc_id = doc, in_sender = sv_host_id s, in_value = value\<rparr> s of
                  (_, Inl _) \<Rightarrow> None
                | (s, Inr _) \<Rightarrow> Some s)))"

text \<open>The value of an info message is parsed as JSON; \<open>json_err\<close> is the error this ends in, if any.\<close>

definition handle_info_from_server ::
  "(string \<Rightarrow> fmt_text option) \<Rightarrow> next_ctx \<Rightarrow> info \<Rightarrow> server_id \<Rightarrow> 'b server \<Rightarrow>
     'b server \<times> (server_error + unit)" where
  "handle_info_from_server json_err nx i host s =
     (case rd_get (sv_remote_docs s) host (in_doc_id i) of
        Some rd \<Rightarrow>
          (case json_err (in_value i) of
             Some e \<Rightarrow> (s, Inl (Other_err e))
           | None \<Rightarrow> (send_notif InfoReceived
               (SendInfoNote (editor_file_desc_new (r_file_desc rd) host) (in_value i) (in_sender i)) s, Inr ()))
      | None \<Rightarrow> (send_to_remote nx host (M_stop_sending_ops (in_doc_id i)) s, Inr ()))"

section \<open>Changes on disk\<close>

text \<open>
  A chunk of a diff, as the crate \<open>dissimilar\<close> returns them; the diff itself is an argument, and
  so are the content of a file and the error opening or reading it may end in.
\<close>

datatype chunk = Equal utext | Delete utext | Insert utext

record disk_env =
  de_now :: instant
  de_read :: "path_buf \<Rightarrow> fmt_text + utext"
  de_diff :: "utext \<Rightarrow> utext \<Rightarrow> chunk list"

definition EXTERNAL_PROCESS_SITE_ID :: site_id where
  "EXTERNAL_PROCESS_SITE_ID = - 1"

text \<open>The ops of the chunks, at positions of the old document.\<close>

fun chunk_ops :: "nat \<Rightarrow> chunk list \<Rightarrow> site_id \<Rightarrow> op list" where
  "chunk_ops pos [] site = []"
| "chunk_ops pos (Equal s # cs) site = chunk_ops (pos + length s) cs site"
| "chunk_ops pos (Insert s # cs) site = Ins (pos, s) site # chunk_ops pos cs site"
| "chunk_ops pos (Delete s # cs) site = Mark [(pos, s)] False site # chunk_ops (pos + length s) cs site"

fun number_ops :: "nat \<Rightarrow> op list \<Rightarrow> op fat_op list \<times> nat" where
  "number_ops seq [] = ([], seq)"
| "number_ops seq (op # ops) =
     (let (fs, seq') = number_ops (seq + 1) ops in
      (\<lparr>fo_seq = None, fo_op = op, fo_site_seq = seq, fo_kind = Original, fo_group_seq = 0\<rparr> # fs, seq'))"

definition chunks_to_ops :: "chunk list \<Rightarrow> site_id \<Rightarrow> nat \<Rightarrow> op fat_op list \<times> nat" where
  "chunks_to_ops chunks site next_seq = number_ops next_seq (rev (chunk_ops 0 chunks site))"

text \<open>From the diff on: the part of \<open>reset_doc_from_disk\<close> that changes the document.\<close>

definition reset_doc ::
  "'b gapbuf_ops \<Rightarrow> disk_env \<Rightarrow> path_buf \<Rightarrow> utext \<Rightarrow> 'b doc \<Rightarrow>
     ('b doc \<times> op fat_op list \<times> (server_error + unit)) option" where
  "reset_doc B v path new_content d = do {
     let chunks = de_diff v (gb_iter B (d_buffer d)) new_content;
     let (ops, seq) = chunks_to_ops chunks EXTERNAL_PROCESS_SITE_ID (d_next_external_site_seq d);
     let d = d\<lparr>d_next_external_site_seq := seq\<rparr>;
     (if ops = [] then Some (d, [], Inr ())
      else do {
        let d = d\<lparr>d_disk_file := Some path\<rparr>;
        let (processed, engine) = server_process_ops (d_engine d) ops (se_seq (d_engine d));
        (d, r) \<leftarrow> apply_ops B (d\<lparr>d_engine := engine\<rparr>) processed;
        Some (d, processed, r) }) }"

definition find_by_canon :: "path_buf \<Rightarrow> (doc_id, 'b doc) hash_map \<Rightarrow> (doc_id \<times> 'b doc) option" where
  "find_by_canon path docs =
     find (\<lambda>(_, d). case d_canon_filename d of Some p \<Rightarrow> path_eq p path | None \<Rightarrow> False) docs"

definition reset_doc_from_disk ::
  "'b gapbuf_ops \<Rightarrow> disk_env \<Rightarrow> next_ctx \<Rightarrow> path_buf \<Rightarrow> instant option \<Rightarrow> 'b server \<Rightarrow>
     ('b server \<times> (server_error + unit)) option" where
  "reset_doc_from_disk B v nx path timestamp s =
     (case find_by_canon path (sv_docs s) of
        None \<Rightarrow> Some (s, Inr ())
      | Some (doc, d) \<Rightarrow>
          if (case timestamp of Some ts \<Rightarrow> ts \<le> d_last_saved_at d | None \<Rightarrow> False) then Some (s, Inr ())
          else (case de_read v path of
            Inl e \<Rightarrow> Some (s, Inl (Other_err e))
          | Inr new_content \<Rightarrow> do {
              (d, processed, r) \<leftarrow> reset_doc B v path new_content d;
              let s = set_doc doc d s;
              (case r of
                 Inl e \<Rightarrow> Some (s, Inl e)
               | Inr _ \<Rightarrow>
                   Some (if processed = [] then s
                         else send_to_all nx (keys (d_subscribers d)) (M_op_from_server doc processed) s, Inr ())) }))"

end
