(* ===== verification/Disk.thy ===== *)
theory Disk
  imports Server_Ops "HOL-Library.Char_ord" "HOL-Library.List_Lexorder"
begin

text \<open>
  The disk as the file handlers of \<open>server.rs\<close> see it: an environment with what the calls of
  \<open>std::fs\<close> and of the crates applied to files return, and the functions that read it. What a
  handler does to the disk is in its outputs.
\<close>

section \<open>The environment\<close>

text \<open>An entry of a directory: its name, and whether it is a directory when \<open>metadata\<close> succeeds.\<close>

record dir_entry =
  di_name :: string
  di_is_dir :: "bool option"

text \<open>
  \<open>fv_open p create\<close> is whether opening succeeds; \<open>fv_head\<close>, \<open>fv_seek\<close> and \<open>fv_content\<close> are the read of
  the first bytes, the seek and the read of the whole file as UTF-8; \<open>fv_is_binary\<close> is the crate
  \<open>content_inspector\<close>, \<open>fv_expand\<close> is \<open>expanduser\<close> and \<open>fv_diff_paths\<close> is \<open>pathdiff\<close>. A failing entry
  of \<open>fv_read_dir\<close> is \<open>None\<close>.
\<close>

record file_env =
  fv_disk :: disk_env
  fv_canon :: "path_buf \<Rightarrow> path_buf option"
  fv_exists :: "path_buf \<Rightarrow> bool"
  fv_is_dir :: "path_buf \<Rightarrow> bool option"
  fv_open :: "path_buf \<Rightarrow> bool \<Rightarrow> bool"
  fv_head :: "path_buf \<Rightarrow> bool"
  fv_is_binary :: "path_buf \<Rightarrow> bool"
  fv_seek :: "path_buf \<Rightarrow> bool"
  fv_content :: "path_buf \<Rightarrow> utext option"
  fv_create_dirs :: "path_buf \<Rightarrow> bool"
  fv_rename :: "path_buf \<Rightarrow> path_buf \<Rightarrow> bool"
  fv_remove :: "path_buf \<Rightarrow> bool"
  fv_save :: "path_buf \<Rightarrow> save_outcome"
  fv_read_dir :: "path_buf \<Rightarrow> dir_entry option list option"
  fv_expand :: "string \<Rightarrow> fmt_text + path_buf"
  fv_diff_paths :: "path_buf \<Rightarrow> path_buf \<Rightarrow> path_buf option"

definition fv_now :: "file_env \<Rightarrow> instant" where
  "fv_now v = de_now (fv_disk v)"

text \<open>\<open>String::len\<close>: the number of bytes of the UTF-8 encoding.\<close>

definition utf8_len :: "utext \<Rightarrow> nat" where
  "utf8_len s = sum_list (map (\<lambda>c. if c < 128 then 1 else if c < 2048 then 2 else if c < 65536 then 3 else 4) s)"

lemma utf8_len_ge: "length s \<le> utf8_len s"
  by (induction s) (auto simp: utf8_len_def)

lemma utf8_len_ascii: "utf8_len s = length s \<longleftrightarrow> list_all (\<lambda>c. c < 128) s"
proof (induction s)
  case (Cons c s)
  then show ?case using utf8_len_ge [of s] by (auto simp: utf8_len_def)
qed (simp add: utf8_len_def)

text \<open>\<open>Path::parent\<close>.\<close>

definition path_parent :: "path_buf \<Rightarrow> path_buf option" where
  "path_parent p =
     (case rev (path_comps p) of
        [] \<Rightarrow> None
      | c # cs \<Rightarrow> if c = ''/'' then None else Some (foldl path_join [] (rev cs)))"

section \<open>Opening a file\<close>

definition full_path :: "project_id \<Rightarrow> string \<Rightarrow> 'b server \<Rightarrow> server_error + path_buf" where
  "full_path pid rel_path s =
     (if pid = RESERVED_FILES_PROJECT then Inr rel_path
      else (case map_of (sv_projects s) pid of
              Some pj \<Rightarrow> Inr (path_join (pj_root pj) rel_path)
            | None \<Rightarrow> Inl (Other_err (Fmt ''Project {} not found'' [A_str pid]))))"

definition open_file_from_disk ::
  "file_env \<Rightarrow> project_id \<Rightarrow> string \<Rightarrow> open_mode \<Rightarrow> bool \<Rightarrow> 'b server \<Rightarrow>
     'b server \<times> (server_error + utext \<times> path_buf)" where
  "open_file_from_disk v pid rel_path mode may_create s =
     (if pid = RESERVED_BUFFERS_PROJECT
      then (s, Inl (Other_err (Fmt ''No existing doc {}'' [A_str rel_path])))
      else (case full_path pid rel_path s of
        Inl e \<Rightarrow> (s, Inl e)
      | Inr path \<Rightarrow>
          if mode = Mode_create \<and> \<not> may_create \<and> \<not> fv_exists v path
          then (s, Inl (Permission_denied_err (Fmt ''Creating file '{}' is not allowed'' [A_str path])))
          else (let create = (mode = Mode_create \<and> may_create);
                    s = emit (Open_file path create) s in
            if \<not> fv_open v path create
            then (s, Inl (Other_err (Fmt ''Failed to create/open file: {}'' [A_str path])))
            else if \<not> fv_head v path
            then (s, Inl (Other_err (Fmt ''Failed to read file: {}'' [A_str path])))
            else if fv_is_binary v path
            then (s, Inl (Other_err (Fmt ''Cannot open binary file: {}'' [A_str path])))
            else if \<not> fv_seek v path
            then (s, Inl (Other_err (Fmt ''Failed to seek file: {}'' [A_str path])))
            else (case fv_content v path of
              None \<Rightarrow> (s, Inl (Other_err (Fmt ''Failed to read file: {}'' [A_str path])))
            | Some content \<Rightarrow> (s, Inr (content, path))))))"

definition make_directory_on_disk ::
  "file_env \<Rightarrow> project_id \<Rightarrow> string \<Rightarrow> 'b server \<Rightarrow> 'b server \<times> (server_error + unit)" where
  "make_directory_on_disk v pid rel_path s =
     (if pid = RESERVED_BUFFERS_PROJECT \<or> pid = RESERVED_FILES_PROJECT
      then (s, Inl (Other_err (Fmt ''Cannot create directory in reserved project {}'' [A_str pid])))
      else (case map_of (sv_projects s) pid of
        None \<Rightarrow> (s, Inl (Other_err (Fmt ''Project {} not found'' [A_str pid])))
      | Some pj \<Rightarrow>
          (let path = path_join (pj_root pj) rel_path; s = emit (Make_dirs path) s in
           if fv_create_dirs v path then (s, Inr ())
           else (s, Inl (Other_err (Fmt ''Failed to create directory: {}'' [A_str path]))))))"

section \<open>Listing directories\<close>

definition plain_entry :: "server_id \<Rightarrow> project_id \<Rightarrow> string \<Rightarrow> string \<Rightarrow> bool \<Rightarrow> json_map \<Rightarrow> list_files_entry" where
  "plain_entry host pid file filename is_dir meta =
     \<lparr>le_file = \<lparr>ef_host_id = host, ef_project = pid, ef_file = file\<rparr>,
      le_filename = filename, le_is_directory = is_dir, le_meta = meta\<rparr>"

text \<open>
  The loop over a directory; \<open>rel\<close> gives the path of an entry relative to the project root, which
  may fail.
\<close>

fun list_entries ::
  "server_id \<Rightarrow> project_id \<Rightarrow> path_buf \<Rightarrow> (string \<Rightarrow> path_buf option) \<Rightarrow> dir_entry option list \<Rightarrow>
     server_error + list_files_entry list" where
  "list_entries host pid dir rel [] = Inr []"
| "list_entries host pid dir rel (None # es) =
     Inl (Other_err (Fmt ''Can't access files in {}'' [A_str dir]))"
| "list_entries host pid dir rel (Some e # es) =
     (case di_is_dir e of
        None \<Rightarrow> Inl (Other_err (Fmt ''Can't access file {}'' [A_str (di_name e)]))
      | Some is_dir \<Rightarrow>
          (case rel (di_name e) of
             None \<Rightarrow> Inl (Other_err (lit ''Failed to calculate relative path''))
           | Some file \<Rightarrow>
               (case list_entries host pid dir rel es of
                  Inl err \<Rightarrow> Inl err
                | Inr rest \<Rightarrow> Inr (plain_entry host pid file (di_name e) is_dir [] # rest))))"

definition sort_entries :: "list_files_entry list \<Rightarrow> list_files_entry list" where
  "sort_entries = sort_key le_filename"

definition sorted_result ::
  "server_error + list_files_entry list \<Rightarrow> server_error + list_files_entry list" where
  "sorted_result r = map_sum id sort_entries r"

definition list_project_file ::
  "file_env \<Rightarrow> project_id \<Rightarrow> string \<Rightarrow> 'b server \<Rightarrow> server_error + list_files_entry list" where
  "list_project_file v pid file s =
     (if pid = RESERVED_BUFFERS_PROJECT
      then Inl (Other_err (Fmt ''{} doesn't have subdirectories'' [A_str RESERVED_BUFFERS_PROJECT]))
      else (case map_of (sv_projects s) pid of
        None \<Rightarrow> Inl (Other_err (Fmt ''Project {} not found'' [A_str pid]))
      | Some pj \<Rightarrow>
          (let dir = path_join (pj_root pj) file in
           case fv_is_dir v dir of
             None \<Rightarrow> Inl (Other_err (Fmt ''Can't access file {}'' [A_str dir]))
           | Some False \<Rightarrow> Inl (Other_err (Fmt ''Not a directory: {}'' [A_str dir]))
           | Some True \<Rightarrow>
               (case fv_read_dir v dir of
                  None \<Rightarrow> Inl (Other_err (Fmt ''Can't access file {}'' [A_str dir]))
                | Some es \<Rightarrow> sorted_result (list_entries (sv_host_id s) pid dir
                    (\<lambda>n. fv_diff_paths v (path_join dir n) (pj_root pj)) es)))))"

definition buffer_entries :: "'b server \<Rightarrow> list_files_entry list" where
  "buffer_entries s =
     map (\<lambda>(_, d). plain_entry (sv_host_id s) RESERVED_BUFFERS_PROJECT (d_name d) (d_name d) False (d_meta d))
       (filter (\<lambda>(_, d). is_buffer (d_abs_filename d)) (sv_docs s))"

definition standalone_entries :: "'b server \<Rightarrow> list_files_entry list" where
  "standalone_entries s =
     concat (map (\<lambda>(_, d). case d_abs_filename d of
         Path_id p \<Rightarrow> [plain_entry (sv_host_id s) RESERVED_FILES_PROJECT p (d_name d) False (d_meta d)]
       | Buffer_id _ \<Rightarrow> []) (local_docs_not_in_any_project s))"

definition list_project ::
  "file_env \<Rightarrow> project_id \<Rightarrow> 'b server \<Rightarrow> server_error + list_files_entry list" where
  "list_project v pid s =
     (if pid = RESERVED_BUFFERS_PROJECT then Inr (sort_entries (buffer_entries s))
      else if pid = RESERVED_FILES_PROJECT then Inr (sort_entries (standalone_entries s))
      else (case map_of (sv_projects s) pid of
        None \<Rightarrow> Inl (Other_err (Fmt ''Project {} not found'' [A_str pid]))
      | Some pj \<Rightarrow>
          (case fv_read_dir v (pj_root pj) of
             None \<Rightarrow> Inl (Other_err (Fmt ''Can't access project root {}'' [A_str (pj_root pj)]))
           | Some es \<Rightarrow> sorted_result (list_entries (sv_host_id s) pid (pj_root pj) Some es))))"

definition list_projects :: "'b server \<Rightarrow> list_files_entry list" where
  "list_projects s =
     sort_entries
       (map (\<lambda>(_, pj). plain_entry (sv_host_id s) (pj_name pj) [] (pj_name pj) True (pj_meta pj)) (sv_projects s)
        @ map (\<lambda>r. plain_entry (sv_host_id s) r [] r True []) [RESERVED_BUFFERS_PROJECT, RESERVED_FILES_PROJECT])"

definition list_files_from_disk ::
  "file_env \<Rightarrow> file_desc option \<Rightarrow> 'b server \<Rightarrow> server_error + list_files_entry list" where
  "list_files_from_disk v dir s =
     (case dir of
        Some (ProjectFile pid file) \<Rightarrow> list_project_file v pid file s
      | Some (Project pid) \<Rightarrow> list_project v pid s
      | None \<Rightarrow> Inr (list_projects s))"

end
