(* ===== verification/Server_Files.thy ===== *)
theory Server_Files
  imports Disk
begin

text \<open>
  The handlers of \<open>server.rs\<close> that list, open and share files: for the editor, and for a remote
  host that asks for a file; and the one that receives the snapshot of a remote file.
\<close>

definition send_io_error :: "next_ctx \<Rightarrow> server_error \<Rightarrow> 'b server \<Rightarrow> 'b server option" where
  "send_io_error nx e = send_error nx E_io_error (err_text e)"

section \<open>Listing files\<close>

definition list_files_from_editor ::
  "file_env \<Rightarrow> next_ctx \<Rightarrow> server_id \<Rightarrow> file_desc option \<Rightarrow> 'b server \<Rightarrow> 'b server option" where
  "list_files_from_editor v nx host dir s =
     (if sv_host_id s \<noteq> host then Some (send_to_remote nx host (M_list_files dir) s)
      else (case list_files_from_disk v dir s of
              Inr files \<Rightarrow> send_resp nx (ListFilesResp files) None s
            | Inl e \<Rightarrow> send_io_error nx e s))"

definition list_files_from_remote ::
  "file_env \<Rightarrow> next_ctx \<Rightarrow> file_desc option \<Rightarrow> server_id \<Rightarrow> 'b server \<Rightarrow> 'b server" where
  "list_files_from_remote v nx dir host s =
     (case list_files_from_disk v dir s of
        Inr files \<Rightarrow> send_to_remote nx host (M_file_list files) s
      | Inl e \<Rightarrow> send_to_remote nx host (M_error_resp E_io_error dir (err_text e)) s)"

section \<open>Creating documents\<close>

text \<open>
  A new hosted document. The engine is made with the byte length of the content, \<open>content.len()\<close>;
  the counter wraps around.
\<close>

definition create_doc ::
  "'b gapbuf_ops \<Rightarrow> file_env \<Rightarrow> string \<Rightarrow> json_map \<Rightarrow> path_id \<Rightarrow> file_desc \<Rightarrow> utext \<Rightarrow>
     (server_id, nat) hash_map \<Rightarrow> path_buf option \<Rightarrow> 'b server \<Rightarrow> (doc_id \<times> 'b doc \<times> 'b server) option" where
  "create_doc B v name meta path fd content subscribers disk_file s = do {
     let doc = sv_next_doc_id s;
     d \<leftarrow> doc_new B (fv_canon v) (fv_now v) name meta path fd content
            (server_engine_new (utf8_len content)) disk_file;
     let d = d\<lparr>d_subscribers := subscribers\<rparr>;
     Some (doc, d, s\<lparr>sv_next_doc_id := doc + 1, sv_docs := AList.update doc d (sv_docs s)\<rparr>) }"

definition base_name :: "string \<Rightarrow> string" where
  "base_name file = (case path_file_name file of Some n \<Rightarrow> n | None \<Rightarrow> file)"

text \<open>A client copy of a document: buffer, engine, no ops yet.\<close>

definition new_remote_doc ::
  "'b gapbuf_ops \<Rightarrow> string \<Rightarrow> file_desc \<Rightarrow> json_map \<Rightarrow> client_engine \<Rightarrow> utext \<Rightarrow> 'b remote_doc option" where
  "new_remote_doc B name fd meta engine content = do {
     buffer \<leftarrow> buffer_of B content;
     Some \<lparr>r_name = name, r_file_desc = fd, r_next_site_seq = 1, r_meta = meta,
       r_remote_op_buffer = [], r_engine = engine, r_buffer = buffer\<rparr> }"

definition insert_remote_doc ::
  "server_id \<Rightarrow> doc_id \<Rightarrow> 'b remote_doc \<Rightarrow> editor_file_desc \<Rightarrow> 'b server \<Rightarrow> 'b server" where
  "insert_remote_doc host doc rd ef s = s\<lparr>sv_remote_docs := rd_insert (sv_remote_docs s) host doc rd ef\<rparr>"

section \<open>Opening a file for the editor\<close>

definition find_doc :: "path_id \<Rightarrow> (doc_id, 'b doc) hash_map \<Rightarrow> (doc_id \<times> 'b doc) option" where
  "find_doc path docs = find (\<lambda>(_, d). doc_matches d path) docs"

text \<open>The end of the local case: subscribe ourselves, add our own copy unless there is one, respond.\<close>

definition open_own_doc ::
  "'b gapbuf_ops \<Rightarrow> next_ctx \<Rightarrow> editor_file_desc \<Rightarrow> doc_id \<Rightarrow> 'b doc \<Rightarrow> 'b server \<Rightarrow> 'b server option" where
  "open_own_doc B nx ef doc d s = do {
     let s = set_doc doc (d\<lparr>d_subscribers := AList.update (sv_host_id s) 0 (d_subscribers d)\<rparr>) s;
     let content = gb_iter B (d_buffer d);
     s \<leftarrow> (case get_by_editor_desc (sv_remote_docs s) ef of
            Some _ \<Rightarrow> Some s
          | None \<Rightarrow> do {
              rd \<leftarrow> new_remote_doc B (d_name d) (file_desc_from ef) []
                      (client_engine_new (sv_site_id s) (se_seq (d_engine d)) (se_doc (d_engine d))) content;
              Some (insert_remote_doc (sv_host_id s) doc rd ef s) });
     s \<leftarrow> send_resp nx (OpenFileResp content (sv_site_id s) (d_name d) ef) None s;
     Some (resend_watch_files s) }"

text \<open>The loop over the open documents keeps the last match.\<close>

definition open_local_file ::
  "'b gapbuf_ops \<Rightarrow> file_env \<Rightarrow> next_ctx \<Rightarrow> editor_file_desc \<Rightarrow> open_mode \<Rightarrow> 'b server \<Rightarrow> 'b server option" where
  "open_local_file B v nx ef mode s =
     (if is_project ef then send_error nx E_bad_request (lit ''Cannot open a project directory'') s
      else (case path_id_from_file_desc s (file_desc_from ef) of
        Inl e \<Rightarrow> send_io_error nx e s
      | Inr path \<Rightarrow>
          (case find_doc path (rev (sv_docs s)) of
             Some (doc, d) \<Rightarrow> open_own_doc B nx ef doc d s
           | None \<Rightarrow>
               (case open_file_from_disk v (ef_project ef) (ef_file ef) mode True s of
                  (s, Inl e) \<Rightarrow> send_io_error nx e s
                | (s, Inr (content, p)) \<Rightarrow> do {
                    (doc, d, s) \<leftarrow> create_doc B v (base_name (ef_file ef)) [] (Path_id p)
                                     (file_desc_from ef) content [] (Some p) s;
                    open_own_doc B nx ef doc d s }))))"

definition open_file_from_editor ::
  "'b gapbuf_ops \<Rightarrow> file_env \<Rightarrow> next_ctx \<Rightarrow> editor_file_desc \<Rightarrow> open_mode \<Rightarrow> 'b server \<Rightarrow> 'b server option" where
  "open_file_from_editor B v nx ef mode s =
     (if sv_host_id s = ef_host_id ef then open_local_file B v nx ef mode s
      else (case get_remote_doc s ef of
        Some (_, rd) \<Rightarrow>
          send_resp nx (OpenFileResp (gb_iter B (r_buffer rd)) (ce_site (r_engine rd)) (r_name rd) ef) None s
      | None \<Rightarrow> Some (send_to_remote nx (ef_host_id ef) (M_request_file (file_desc_from ef) mode) s)))"

section \<open>Directories\<close>

definition make_directory_from_editor ::
  "file_env \<Rightarrow> next_ctx \<Rightarrow> editor_file_desc \<Rightarrow> 'b server \<Rightarrow> 'b server option" where
  "make_directory_from_editor v nx ef s =
     (if sv_host_id s = ef_host_id ef
      then (case make_directory_on_disk v (ef_project ef) (ef_file ef) s of
              (s, Inl e) \<Rightarrow> send_io_error nx e s
            | (s, Inr _) \<Rightarrow> send_resp nx (MakeDirectoryResp ef) None s)
      else Some (send_to_remote nx (ef_host_id ef) (M_make_directory (file_desc_from ef)) s))"

section \<open>A remote host asks for a file\<close>

definition snapshot_of :: "'b gapbuf_ops \<Rightarrow> doc_id \<Rightarrow> site_id \<Rightarrow> file_desc \<Rightarrow> 'b doc \<Rightarrow> new_snapshot" where
  "snapshot_of B doc site fd d =
     \<lparr>sn_content = gb_iter B (d_buffer d), sn_internal_doc = se_doc (d_engine d), sn_name = d_name d,
      sn_seq = se_seq (d_engine d), sn_site_id = site, sn_file_desc = fd, sn_doc_id = doc\<rparr>"

definition request_error_code :: "server_error \<Rightarrow> error_code" where
  "request_error_code e = (case e of Permission_denied_err _ \<Rightarrow> E_permission_denied | _ \<Rightarrow> E_io_error)"

text \<open>
  The snapshot of a new document is made from the content, not from the document: its length is
  \<open>content.chars().count()\<close>. The host that asks is not a subscriber until it requests the ops.
\<close>

definition serve_file ::
  "'b gapbuf_ops \<Rightarrow> file_env \<Rightarrow> next_ctx \<Rightarrow> project_id \<Rightarrow> string \<Rightarrow> path_id \<Rightarrow> site_id \<Rightarrow> server_id \<Rightarrow>
     open_mode \<Rightarrow> 'b server \<Rightarrow> 'b server option" where
  "serve_file B v nx pid file path site host mode s =
     (let fd = ProjectFile pid file in
      case find_doc path (sv_docs s) of
        Some (doc, d) \<Rightarrow> Some (send_to_remote nx host (M_snapshot (snapshot_of B doc site fd d)) s)
      | None \<Rightarrow>
          (case open_file_from_disk v pid file mode (create_allowed (sv_config s) host) s of
             (s, Inl e) \<Rightarrow> Some (send_to_remote nx host
               (M_error_resp (request_error_code e) (Some fd) (err_text e)) s)
           | (s, Inr (content, p)) \<Rightarrow> do {
               (doc, d, s) \<leftarrow> create_doc B v (base_name file) [] (Path_id p) fd content [] (Some p) s;
               Some (resend_watch_files (send_to_remote nx host (M_snapshot
                 \<lparr>sn_content = content, sn_internal_doc = internal_doc_new (length content),
                  sn_name = base_name file, sn_seq = 0, sn_site_id = site, sn_file_desc = fd,
                  sn_doc_id = doc\<rparr>) s)) }))"

definition handle_request_file ::
  "'b gapbuf_ops \<Rightarrow> file_env \<Rightarrow> next_ctx \<Rightarrow> file_desc \<Rightarrow> server_id \<Rightarrow> open_mode \<Rightarrow> 'b server \<Rightarrow>
     'b server option" where
  "handle_request_file B v nx fd host mode s =
     (case path_id_from_file_desc s fd of
        Inl e \<Rightarrow> Some (send_to_remote nx host (M_error_resp E_io_error (Some fd) (err_text e)) s)
      | Inr path \<Rightarrow>
          (let (site, s) = site_id_of host s in
           case fd of
             ProjectFile pid file \<Rightarrow> serve_file B v nx pid file path site host mode s
           | Project _ \<Rightarrow> Some (send_to_remote nx host (M_bad_request (lit ''Cannot open a project directory'')) s)))"

section \<open>The snapshot arrives\<close>

definition already_opened :: "server_id \<Rightarrow> file_desc \<Rightarrow> 'b remote_docs \<Rightarrow> 'b remote_doc option" where
  "already_opened host fd rs =
     map_option snd (find (\<lambda>((h, _), rd). h = host \<and> r_file_desc rd = fd) (rd_docs rs))"

definition handle_snapshot ::
  "'b gapbuf_ops \<Rightarrow> next_ctx \<Rightarrow> new_snapshot \<Rightarrow> server_id \<Rightarrow> 'b server \<Rightarrow> 'b server option" where
  "handle_snapshot B nx sn host s =
     (case already_opened host (sn_file_desc sn) (sv_remote_docs s) of
        Some rd \<Rightarrow> send_error nx E_bad_request
          (Fmt ''File {} is already opened from {}'' [A_str (r_name rd), A_str host]) s
      | None \<Rightarrow> do {
          let ef = editor_file_desc_new (sn_file_desc sn) host;
          rd \<leftarrow> new_remote_doc B (sn_name sn) (sn_file_desc sn) []
                  (client_engine_new (sn_site_id sn) (sn_seq sn) (sn_internal_doc sn)) (sn_content sn);
          let s = insert_remote_doc host (sn_doc_id sn) rd ef s;
          s \<leftarrow> send_resp nx (OpenFileResp (sn_content sn) (sn_site_id sn) (sn_name sn) ef) None s;
          Some (send_to_remote nx host (M_request_ops (sn_doc_id sn) (sn_seq sn)) s) })"

section \<open>Sharing a file\<close>

record share_params =
  sp_filename :: string
  sp_content :: utext
  sp_meta :: json_map

text \<open>A file that exists is opened for writing; if that fails the document has no file.\<close>

definition open_shared :: "file_env \<Rightarrow> path_buf \<Rightarrow> 'b server \<Rightarrow> 'b server \<times> path_buf option" where
  "open_shared v p s =
     (if fv_exists v p
      then (emit (Open_file p False) s, if fv_open v p False then Some p else None)
      else (s, None))"

definition handle_share_file_from_editor ::
  "'b gapbuf_ops \<Rightarrow> file_env \<Rightarrow> share_params \<Rightarrow> 'b server \<Rightarrow> ('b server \<times> (server_error + resp)) option" where
  "handle_share_file_from_editor B v ps s =
     (let filename = (case fv_expand v (sp_filename ps) of Inr p \<Rightarrow> p | Inl _ \<Rightarrow> sp_filename ps);
          fd = (if is_absolute filename then ProjectFile RESERVED_FILES_PROJECT filename
                else ProjectFile RESERVED_BUFFERS_PROJECT (sp_filename ps))
      in case path_id_from_file_desc s fd of
           Inl e \<Rightarrow> Some (s, Inl e)
         | Inr path \<Rightarrow>
             if list_ex (\<lambda>(_, d). doc_matches d path) (sv_docs s)
             then Some (s, Inl (Other_err (Fmt ''File {} already exists'' [A_str (sp_filename ps)])))
             else do {
               let (s, disk_file) = open_shared v filename s;
               let path = (if fv_exists v filename then Path_id filename else Buffer_id filename);
               (doc, _, s) \<leftarrow> create_doc B v (sp_filename ps) (sp_meta ps) path fd (sp_content ps)
                                [(sv_host_id s, 0)] disk_file s;
               rd \<leftarrow> new_remote_doc B (sp_filename ps) fd (sp_meta ps)
                       (client_engine_new (sv_site_id s) 0 (internal_doc_new (length (sp_content ps))))
                       (sp_content ps);
               let ef = editor_file_desc_new fd (sv_host_id s);
               Some (insert_remote_doc (sv_host_id s) doc rd ef s, Inr (ShareFileResp ef (sv_site_id s))) })"

end
