(* ===== verification/Server_Manage.thy ===== *)
theory Server_Manage
  imports Server_Files
begin

text \<open>
  The handlers of \<open>server.rs\<close> that manage open files: saving, resetting from disk, moving, closing
  and deleting, disconnecting; the report of the connection state; and the end of the main loop.
\<close>

text \<open>A hash set of subscribers that grows by the keys of a map.\<close>

definition add_all :: "'a hash_set \<Rightarrow> 'a list \<Rightarrow> 'a hash_set" where
  "add_all acc xs = fold (\<lambda>x acc. if x \<in> set acc then acc else acc @ [x]) xs acc"

lemma set_add_all [simp]: "set (add_all acc xs) = set acc \<union> set xs"
  unfolding add_all_def by (induction xs arbitrary: acc) auto

section \<open>Saving\<close>

definition save_file_to_disk ::
  "'b gapbuf_ops \<Rightarrow> file_env \<Rightarrow> doc_id \<Rightarrow> 'b server \<Rightarrow> 'b server \<times> (server_error + unit)" where
  "save_file_to_disk B v doc s =
     (case map_of (sv_docs s) doc of
        None \<Rightarrow> (s, Inl (Other_err (Fmt ''Doc {} not found'' [num_doc doc])))
      | Some d \<Rightarrow>
          if d_disk_file d = None then (s, Inr ())
          else (case save_to_disk B (fv_save v) (fv_now v) d of
                  (d, outs, r) \<Rightarrow> (fold emit outs (set_doc doc d s), r)))"

definition handle_save_file_from_editor ::
  "'b gapbuf_ops \<Rightarrow> file_env \<Rightarrow> next_ctx \<Rightarrow> editor_file_desc \<Rightarrow> 'b server \<Rightarrow> 'b server option" where
  "handle_save_file_from_editor B v nx file s =
     (let host = ef_host_id file in
      if host \<noteq> sv_host_id s
      then (case get_remote_doc s file of
              Some (doc, _) \<Rightarrow> Some (send_to_remote nx host (M_save_file doc) s)
            | None \<Rightarrow> send_error nx E_io_error (Fmt ''Remote file not open: {}'' [A_str (show_file file)]) s)
      else (case get_remote_doc s file of
              Some (doc, _) \<Rightarrow>
                (case save_file_to_disk B v doc s of
                   (s, Inl e) \<Rightarrow> send_io_error nx e s
                 | (s, Inr _) \<Rightarrow> send_resp nx (SaveFileResp file) None s)
            | None \<Rightarrow> send_error nx E_io_error (lit ''File not open'') s))"

text \<open>The \<open>SaveFile\<close> message.\<close>

definition handle_save_file ::
  "'b gapbuf_ops \<Rightarrow> file_env \<Rightarrow> next_ctx \<Rightarrow> doc_id \<Rightarrow> server_id \<Rightarrow> 'b server \<Rightarrow> 'b server" where
  "handle_save_file B v nx doc host s =
     (if \<not> write_allowed (sv_config s) host
      then send_to_remote nx host (M_permission_denied (lit ''Write permission denied'')) s
      else (case save_file_to_disk B v doc s of
              (s, Inl e) \<Rightarrow> send_to_remote nx host
                (M_error_resp E_io_error (map_option d_file_desc (map_of (sv_docs s) doc)) (err_text e)) s
            | (s, Inr _) \<Rightarrow> send_to_remote nx host (M_file_saved doc) s))"

section \<open>Resetting from disk\<close>

definition canon_of :: "'b server \<Rightarrow> doc_id \<Rightarrow> path_buf option" where
  "canon_of s doc = Option.bind (map_of (sv_docs s) doc) d_canon_filename"

definition handle_reset_from_disk_from_editor ::
  "'b gapbuf_ops \<Rightarrow> file_env \<Rightarrow> next_ctx \<Rightarrow> editor_file_desc \<Rightarrow> 'b server \<Rightarrow> 'b server option" where
  "handle_reset_from_disk_from_editor B v nx file s =
     (let host = ef_host_id file in
      if host \<noteq> sv_host_id s
      then (case get_remote_doc s file of
              Some (doc, _) \<Rightarrow>
                send_resp nx (ResetFromDiskResp file) None (send_to_remote nx host (M_reset_from_disk doc) s)
            | None \<Rightarrow> send_error nx E_io_error (Fmt ''Remote file not open: {}'' [A_str (show_file file)]) s)
      else (case get_remote_doc s file of
              None \<Rightarrow> send_error nx E_io_error (lit ''File not open'') s
            | Some (doc, _) \<Rightarrow>
                (case canon_of s doc of
                   None \<Rightarrow> send_error nx E_io_error (lit ''Doc has no on-disk file'') s
                 | Some path \<Rightarrow> do {
                     (s, r) \<leftarrow> reset_doc_from_disk B (fv_disk v) nx path None s;
                     (case r of
                        Inl e \<Rightarrow> send_io_error nx e s
                      | Inr _ \<Rightarrow> send_resp nx (ResetFromDiskResp file) None s) })))"

text \<open>The \<open>ResetFromDisk\<close> message.\<close>

definition handle_reset_from_disk ::
  "'b gapbuf_ops \<Rightarrow> file_env \<Rightarrow> next_ctx \<Rightarrow> doc_id \<Rightarrow> server_id \<Rightarrow> 'b server \<Rightarrow> 'b server option" where
  "handle_reset_from_disk B v nx doc host s =
     (let file = map_option d_file_desc (map_of (sv_docs s) doc) in
      if \<not> write_allowed (sv_config s) host
      then Some (send_to_remote nx host (M_permission_denied (lit ''Write permission denied'')) s)
      else (case canon_of s doc of
        None \<Rightarrow> Some (send_to_remote nx host
          (M_error_resp E_io_error file (Fmt ''Doc {} not found or has no path'' [num_doc doc])) s)
      | Some path \<Rightarrow> do {
          (s, r) \<leftarrow> reset_doc_from_disk B (fv_disk v) nx path None s;
          (case r of
             Inl e \<Rightarrow> Some (send_to_remote nx host (M_error_resp E_io_error file (err_text e)) s)
           | Inr _ \<Rightarrow> Some s) }))"

section \<open>Moving\<close>

text \<open>
  The loop over the open documents after the rename: it stops at the first buffer, with the
  documents before it already changed.
\<close>

fun move_docs ::
  "file_env \<Rightarrow> path_buf \<Rightarrow> path_buf \<Rightarrow> (doc_id, 'b doc) hash_map \<Rightarrow> server_id hash_set \<Rightarrow>
     (doc_id, 'b doc) hash_map \<times> (server_error + server_id hash_set)" where
  "move_docs v old new [] subs = ([], Inr subs)"
| "move_docs v old new ((i, d) # ds) subs =
     (case d_abs_filename d of
        Buffer_id _ \<Rightarrow> ((i, d) # ds, Inl (Other_err (lit ''Cannot move buffer'')))
      | Path_id p \<Rightarrow>
          (let dest = (if path_eq p old then Some new
                       else if path_starts_with p old then map_option (path_join new) (fv_diff_paths v p old)
                       else None);
               (d, subs) = (case dest of
                  Some q \<Rightarrow> (d\<lparr>d_abs_filename := Path_id q\<rparr>, add_all subs (keys (d_subscribers d)))
                | None \<Rightarrow> (d, subs));
               (ds, r) = move_docs v old new ds subs
           in ((i, d) # ds, r)))"

definition move_file_on_disk ::
  "file_env \<Rightarrow> project_id \<Rightarrow> string \<Rightarrow> string \<Rightarrow> 'b server \<Rightarrow>
     'b server \<times> (server_error + server_id hash_set)" where
  "move_file_on_disk v pid old_path new_path s =
     (case map_of (sv_projects s) pid of
        None \<Rightarrow> (s, Inl (Other_err (Fmt ''Project {} not found'' [A_str pid])))
      | Some pj \<Rightarrow>
          (let old = path_join (pj_root pj) old_path; new = path_join (pj_root pj) new_path in
           if fv_exists v new
           then (s, Inl (Other_err (Fmt ''Target path already exists on disk: {}'' [A_str new])))
           else (let (s, made) = (case path_parent new of
                        Some parent \<Rightarrow> (emit (Make_dirs parent) s, if fv_create_dirs v parent then None else Some parent)
                      | None \<Rightarrow> (s, None))
             in case made of
                  Some parent \<Rightarrow> (s, Inl (Other_err
                    (Fmt ''Failed to create parent directory: {}'' [A_str parent])))
                | None \<Rightarrow>
                    (let s = emit (Rename_path old new) s in
                     if \<not> fv_rename v old new
                     then (s, Inl (Other_err (Fmt ''Failed to move file from {} to {}'' [A_str old, A_str new])))
                     else (let (ds, r) = move_docs v old new (sv_docs s) []
                           in (s\<lparr>sv_docs := ds\<rparr>, r))))))"

text \<open>The loops that tell the subscribers; the host that asked gets its request id back.\<close>

fun tell_moved ::
  "(server_id \<Rightarrow> request_id option) \<Rightarrow> msg \<Rightarrow> server_id list \<Rightarrow> 'b server \<Rightarrow> 'b server" where
  "tell_moved rid m [] s = s"
| "tell_moved rid m (h # hs) s = tell_moved rid m hs (emit (To_remote h (rid h) m) s)"

definition handle_move_file ::
  "file_env \<Rightarrow> next_ctx \<Rightarrow> project_id \<Rightarrow> string \<Rightarrow> string \<Rightarrow> server_id \<Rightarrow> 'b server \<Rightarrow> 'b server" where
  "handle_move_file v nx pid old_path new_path host s =
     (case move_file_on_disk v pid old_path new_path s of
        (s, Inr subs) \<Rightarrow>
          tell_moved (\<lambda>h. if h = host then nx_req_id nx else None) (M_file_moved pid old_path new_path) subs s
      | (s, Inl e) \<Rightarrow> send_to_remote nx host (M_error_resp E_io_error None (err_text e)) s)"

definition handle_move_file_from_editor ::
  "file_env \<Rightarrow> next_ctx \<Rightarrow> server_id \<Rightarrow> project_id \<Rightarrow> string \<Rightarrow> string \<Rightarrow> 'b server \<Rightarrow> 'b server option" where
  "handle_move_file_from_editor v nx host pid old_path new_path s =
     (if sv_host_id s \<noteq> host
      then Some (send_to_remote nx host (M_move_file pid old_path new_path) s)
      else (case move_file_on_disk v pid old_path new_path s of
        (s, Inl e) \<Rightarrow> send_io_error nx e s
      | (s, Inr subs) \<Rightarrow> do {
          s \<leftarrow> send_resp nx (MoveFileResp (sv_host_id s) pid old_path new_path) None s;
          Some (tell_moved (\<lambda>_. None) (M_file_moved pid old_path new_path)
            (filter (\<lambda>h. h \<noteq> sv_host_id s) subs) s) }))"

section \<open>Closing and deleting\<close>

text \<open>The documents at or below a path, and everyone subscribed to one of them.\<close>

definition docs_below :: "path_buf \<Rightarrow> 'b server \<Rightarrow> (doc_id \<times> 'b doc) list" where
  "docs_below base s =
     filter (\<lambda>(_, d). case d_abs_filename d of Path_id p \<Rightarrow> path_starts_with p base | Buffer_id _ \<Rightarrow> False) (sv_docs s)"

definition docs_and_subscribers :: "path_buf \<Rightarrow> 'b server \<Rightarrow> doc_id list \<times> path_buf option \<times> server_id list" where
  "docs_and_subscribers base s =
     (let ds = docs_below base s in
      (map fst ds, Some base, fold (\<lambda>(_, d) subs. add_all subs (keys (d_subscribers d))) ds []))"

definition find_docs_and_path_to_delete ::
  "file_desc \<Rightarrow> 'b server \<Rightarrow> server_error + doc_id list \<times> path_buf option \<times> server_id list" where
  "find_docs_and_path_to_delete fd s =
     (case fd of
        Project pid \<Rightarrow>
          (case map_of (sv_projects s) pid of
             None \<Rightarrow> Inl (Other_err (Fmt ''Project {} not found'' [A_str pid]))
           | Some pj \<Rightarrow> Inr (docs_and_subscribers (pj_root pj) s))
      | ProjectFile pid file \<Rightarrow>
          if pid = RESERVED_BUFFERS_PROJECT \<or> pid = RESERVED_FILES_PROJECT
          then (case path_id_from_file_desc s fd of
            Inl e \<Rightarrow> Inl e
          | Inr path \<Rightarrow>
              (case find_doc path (sv_docs s) of
                 Some (doc, d) \<Rightarrow>
                   Inr ([doc], (case d_abs_filename d of Path_id p \<Rightarrow> Some p | Buffer_id _ \<Rightarrow> None),
                        keys (d_subscribers d))
               | None \<Rightarrow> Inr ([], None, [])))
          else (case map_of (sv_projects s) pid of
            None \<Rightarrow> Inl (Other_err (Fmt ''Project {} not found'' [A_str pid]))
          | Some pj \<Rightarrow> Inr (docs_and_subscribers (path_join (pj_root pj) file) s)))"

text \<open>The loop that removes documents: each is saved first, an error in saving is only logged.\<close>

fun close_docs :: "'b gapbuf_ops \<Rightarrow> file_env \<Rightarrow> doc_id list \<Rightarrow> 'b server \<Rightarrow> 'b server" where
  "close_docs B v [] s = s"
| "close_docs B v (doc # docs) s =
     (let s = (case map_of (sv_docs s) doc of
                 Some d \<Rightarrow>
                   (case save_to_disk B (fv_save v) (fv_now v) d of
                      (_, outs, _) \<Rightarrow> fold emit outs (s\<lparr>sv_docs := AList.delete doc (sv_docs s)\<rparr>))
               | None \<Rightarrow> s);
          s = drop_remote_doc (sv_host_id s) doc s
      in close_docs B v docs s)"

definition delete_path :: "file_env \<Rightarrow> path_buf \<Rightarrow> 'b server \<Rightarrow> 'b server \<times> (server_error + unit)" where
  "delete_path v path s =
     (if fv_is_dir v path = Some True
      then (emit (Delete_path path) s,
            if fv_remove v path then Inr ()
            else Inl (Other_err (Fmt ''Failed to delete directory: {}'' [A_str path])))
      else if fv_exists v path
      then (emit (Delete_path path) s,
            if fv_remove v path then Inr ()
            else Inl (Other_err (Fmt ''Failed to delete file: {}'' [A_str path])))
      else (s, Inr ()))"

definition handle_close_file_locally ::
  "'b gapbuf_ops \<Rightarrow> file_env \<Rightarrow> file_desc \<Rightarrow> bool \<Rightarrow> 'b server \<Rightarrow> 'b server \<times> (server_error + server_id list)" where
  "handle_close_file_locally B v fd delete s =
     (case find_docs_and_path_to_delete fd s of
        Inl e \<Rightarrow> (s, Inl e)
      | Inr (docs, path, subs) \<Rightarrow>
          (let s = close_docs B v docs s in
           case (case path of Some p \<Rightarrow> if delete then delete_path v p s else (s, Inr ()) | None \<Rightarrow> (s, Inr ())) of
             (s, Inl e) \<Rightarrow> (s, Inl e)
           | (s, Inr _) \<Rightarrow> (resend_watch_files s, Inr subs)))"

definition closed_msg :: "bool \<Rightarrow> file_desc \<Rightarrow> msg" where
  "closed_msg delete fd = (if delete then M_file_deleted fd else M_file_closed fd)"

definition handle_close_file_from_editor ::
  "'b gapbuf_ops \<Rightarrow> file_env \<Rightarrow> next_ctx \<Rightarrow> editor_file_desc \<Rightarrow> bool \<Rightarrow> 'b server \<Rightarrow> 'b server option" where
  "handle_close_file_from_editor B v nx file delete s =
     (let host = ef_host_id file; fd = file_desc_from file in
      if host \<noteq> sv_host_id s then Some (send_to_remote nx host (M_close_file fd delete) s)
      else (case handle_close_file_locally B v fd delete s of
        (s, Inr subs) \<Rightarrow> do {
          s \<leftarrow> send_resp nx Resp_unit None s;
          Some (tell_moved (\<lambda>_. None) (closed_msg delete fd) (filter (\<lambda>h. h \<noteq> sv_host_id s) subs) s) }
      | (s, Inl e) \<Rightarrow> send_io_error nx e s))"

definition handle_close_file_from_remote ::
  "'b gapbuf_ops \<Rightarrow> file_env \<Rightarrow> next_ctx \<Rightarrow> file_desc \<Rightarrow> server_id \<Rightarrow> bool \<Rightarrow> 'b server \<Rightarrow> 'b server" where
  "handle_close_file_from_remote B v nx fd requester delete s =
     (if \<not> delete_allowed (sv_config s) requester
      then send_to_remote nx requester
             (M_permission_denied (lit ''Permission denied for deleting/closing file'')) s
      else (case handle_close_file_locally B v fd delete s of
        (s, Inr subs) \<Rightarrow>
          (let s = tell_moved (\<lambda>h. if h = requester then nx_req_id nx else None) (closed_msg delete fd)
                     (filter (\<lambda>h. h = requester \<or> h \<noteq> sv_host_id s) subs) s
           in if requester \<in> set subs then s
              else send_to_remote nx requester (closed_msg delete fd) s)
      | (s, Inl e) \<Rightarrow> send_to_remote nx requester (M_error_resp E_io_error (Some fd) (err_text e)) s))"

definition handle_disconnect_from_file ::
  "next_ctx \<Rightarrow> editor_file_desc \<Rightarrow> 'b server \<Rightarrow> 'b server option" where
  "handle_disconnect_from_file nx file s =
     (let s = (case get_remote_doc s file of
                 Some (doc, _) \<Rightarrow>
                   send_to_remote nx (ef_host_id file) (M_stop_sending_ops doc)
                     (s\<lparr>sv_remote_docs := fst (remove_by_editor_desc (sv_remote_docs s) file)\<rparr>)
               | None \<Rightarrow> s)
      in send_resp nx Resp_unit None s)"

section \<open>The connection state\<close>

definition wire_state :: "nat \<Rightarrow> remote_state \<Rightarrow> connection_state" where
  "wire_state now_secs r =
     (case rs_status r of
        R_pending \<Rightarrow> CS_pending
      | R_connecting1 _ \<Rightarrow> CS_connecting1 now_secs (\<not> rs_ever_connected r)
      | R_connecting2 _ \<Rightarrow> CS_connecting2 now_secs (\<not> rs_ever_connected r)
      | R_connected \<Rightarrow> CS_connected
      | R_disconnected _ _ \<Rightarrow> CS_disconnected
      | R_failed _ \<Rightarrow> CS_failed_to_connect)"

definition connection_entry :: "instant \<Rightarrow> nat \<Rightarrow> server_id \<times> remote_state \<Rightarrow> connection_state_entry" where
  "connection_entry now now_secs hr =
     (case hr of (h, r) \<Rightarrow>
       \<lparr>cse_host_id = h, cse_state = wire_state now_secs r, cse_transport = rs_transport r,
        cse_next_retry_in_secs = (case rs_status r of
           R_disconnected next_retry_at _ \<Rightarrow> Some (duration_since next_retry_at now div secs 1)
         | _ \<Rightarrow> None)\<rparr>)"

definition connection_state_of :: "instant \<Rightarrow> nat \<Rightarrow> 'b server \<Rightarrow> connection_state_resp" where
  "connection_state_of now now_secs s =
     \<lparr>cr_connections = map (connection_entry now now_secs) (w_remotes (sv_current_world s)),
      cr_accepting = map fst (filter (\<lambda>(_, st). ss_status st = S_bound) (w_signaling (sv_current_world s))),
      cr_live = map (\<lambda>(_, d). \<lparr>lv_file = editor_file_desc_new (d_file_desc d) (sv_host_id s),
        lv_subscribers = keys (d_subscribers d), lv_filename = d_name d, lv_meta = d_meta d,
        lv_seq = se_seq (d_engine d)\<rparr>) (sv_docs s),
      cr_connected = map (\<lambda>((h, _), rd). \<lparr>cd_file = editor_file_desc_new (r_file_desc rd) h,
        cd_filename = r_name rd, cd_meta = r_meta rd\<rparr>) (rd_docs (sv_remote_docs s)),
      cr_projects = map (\<lambda>(_, pj). \<lparr>cp_name = pj_name pj, cp_path = pj_root pj\<rparr>) (sv_projects s),
      cr_trusted_hosts = w_trusted (sv_ideal_world s),
      cr_permission = cf_permission (sv_config s),
      cr_cert_hash = sv_cert_hash s\<rparr>"

definition handle_connection_state_from_editor ::
  "instant \<Rightarrow> nat \<Rightarrow> next_ctx \<Rightarrow> 'b server \<Rightarrow> 'b server option" where
  "handle_connection_state_from_editor now now_secs nx s =
     send_resp nx (ConnectionStateResp (connection_state_of now now_secs s)) None s"

section \<open>Shutting down\<close>

text \<open>Every document is saved, errors in saving are only logged.\<close>

definition shutdown_server :: "'b gapbuf_ops \<Rightarrow> file_env \<Rightarrow> 'b server \<Rightarrow> 'b server" where
  "shutdown_server B v s =
     (let s = emit (Broadcast_remote M_bye) s;
          outs = concat (map (\<lambda>(_, d). fst (snd (save_to_disk B (fv_save v) (fv_now v) d))) (sv_docs s))
      in fold emit outs (s\<lparr>sv_docs := []\<rparr>))"

end
