(* ===== verification/Server_Dispatch.thy ===== *)
theory Server_Dispatch
  imports Server_Manage Server_Connect
begin

text \<open>
  The dispatchers of \<open>server.rs\<close>: requests and notifications of the editor, messages of remote
  hosts, and the events of the main loop. Requests are taken after deserialisation; one whose
  parameters do not deserialise carries the error.
\<close>

section \<open>The environment of a message\<close>

text \<open>
  The disk, the clock and the channels; fresh connection ids for the entries of the ideal world;
  the error saving the configuration or parsing JSON ends in; and the derived \<open>Debug\<close> text of a
  message.
\<close>

record server_env =
  ev_file :: file_env
  ev_conn :: conn_env
  ev_cid :: connection_id
  ev_save_err :: "fmt_text option"
  ev_json_err :: "string \<Rightarrow> fmt_text option"
  ev_debug :: "msg \<Rightarrow> string"

text \<open>A handler that always answers: nothing to report.\<close>

definition fine :: "'b server \<Rightarrow> ('b server \<times> (server_error + unit)) option" where
  "fine s = Some (s, Inr ())"

definition finish :: "'b server option \<Rightarrow> ('b server \<times> (server_error + unit)) option" where
  "finish r = Option.bind r fine"

section \<open>Requests of the editor\<close>

datatype editor_request =
    Rq_initialize
  | Rq_connection_state
  | Rq_list_projects server_id
  | Rq_list_files editor_file_desc
  | Rq_open_file editor_file_desc open_mode
  | Rq_make_directory editor_file_desc
  | Rq_send_ops "editor_fat_op list" editor_file_desc
  | Rq_undo editor_file_desc undo_choice
  | Rq_print_history editor_file_desc bool
  | Rq_share_file share_params
  | Rq_update_config "server_id hash_set" "(server_id, permission) hash_map"
  | Rq_declare_projects "config_project list"
  | Rq_move_file server_id project_id string string
  | Rq_save_file editor_file_desc
  | Rq_reset_from_disk editor_file_desc
  | Rq_disconnect_from_file editor_file_desc
  | Rq_close_file editor_file_desc
  | Rq_delete_file editor_file_desc
  | Rq_bad_params fmt_text
  | Rq_unknown

text \<open>Handlers that first check the connection to a host, which answers the request if there is none.\<close>

definition when_connected ::
  "next_ctx \<Rightarrow> server_id \<Rightarrow> ('b server \<Rightarrow> 'b server option) \<Rightarrow> 'b server \<Rightarrow>
     ('b server \<times> (server_error + unit)) option" where
  "when_connected nx host f s = do {
     (s, connected) \<leftarrow> check_connection nx host s;
     (if connected then finish (f s) else fine s) }"

text \<open>\<open>let resp = handler(params)?; next.send_resp(resp, None)\<close>.\<close>

definition answer ::
  "next_ctx \<Rightarrow> 'b server \<times> (server_error + resp) \<Rightarrow> ('b server \<times> (server_error + unit)) option" where
  "answer nx r =
     (case r of
        (s, Inl e) \<Rightarrow> Some (s, Inl e)
      | (s, Inr resp) \<Rightarrow> finish (send_resp nx resp None s))"

definition handle_editor_request ::
  "'b gapbuf_ops \<Rightarrow> server_env \<Rightarrow> next_ctx \<Rightarrow> editor_request \<Rightarrow> 'b server \<Rightarrow>
     ('b server \<times> (server_error + unit)) option" where
  "handle_editor_request B v nx rq s =
     (let fv = ev_file v in
      case rq of
        Rq_initialize \<Rightarrow> finish (send_resp nx (InitResp (sv_host_id s)) None s)
      | Rq_connection_state \<Rightarrow>
          finish (handle_connection_state_from_editor (fv_now fv) (cv_now_secs (ev_conn v)) nx s)
      | Rq_list_projects host \<Rightarrow> when_connected nx host (list_files_from_editor fv nx host None) s
      | Rq_list_files dir \<Rightarrow>
          when_connected nx (ef_host_id dir)
            (list_files_from_editor fv nx (ef_host_id dir) (Some (file_desc_from dir))) s
      | Rq_open_file file mode \<Rightarrow> when_connected nx (ef_host_id file) (open_file_from_editor B fv nx file mode) s
      | Rq_make_directory file \<Rightarrow> when_connected nx (ef_host_id file) (make_directory_from_editor fv nx file) s
      | Rq_send_ops ops file \<Rightarrow> finish (handle_send_ops_from_editor B nx ops file s)
      | Rq_undo file kind \<Rightarrow> do { r \<leftarrow> handle_undo_from_editor file kind s; answer nx (s, r) }
      | Rq_print_history file debug \<Rightarrow> finish (handle_print_history_from_editor nx file debug s)
      | Rq_share_file ps \<Rightarrow> do {
          (s, r) \<leftarrow> handle_share_file_from_editor B fv ps s;
          (s, r) \<leftarrow> answer nx (s, r);
          Some (case r of Inl e \<Rightarrow> (s, Inl e) | Inr _ \<Rightarrow> (resend_watch_files s, Inr ())) }
      | Rq_update_config trusted permission \<Rightarrow>
          (case handle_update_config_from_editor (ev_save_err v) trusted permission s of
             (s, Inl e) \<Rightarrow> Some (s, Inl e)
           | (s, Inr _) \<Rightarrow> finish (send_resp nx Resp_unit None s))
      | Rq_declare_projects ps \<Rightarrow> finish (handle_declare_projects (fv_expand fv) nx ps s)
      | Rq_move_file host pid old_path new_path \<Rightarrow>
          when_connected nx host (handle_move_file_from_editor fv nx host pid old_path new_path) s
      | Rq_save_file file \<Rightarrow> when_connected nx (ef_host_id file) (handle_save_file_from_editor B fv nx file) s
      | Rq_reset_from_disk file \<Rightarrow>
          when_connected nx (ef_host_id file) (handle_reset_from_disk_from_editor B fv nx file) s
      | Rq_disconnect_from_file file \<Rightarrow>
          when_connected nx (ef_host_id file) (handle_disconnect_from_file nx file) s
      | Rq_close_file file \<Rightarrow> finish (handle_close_file_from_editor B fv nx file False s)
      | Rq_delete_file file \<Rightarrow>
          when_connected nx (ef_host_id file) (handle_close_file_from_editor B fv nx file True) s
      | Rq_bad_params e \<Rightarrow> Some (s, Inl (Other_err e))
      | Rq_unknown \<Rightarrow> fine s)"

section \<open>Notifications of the editor\<close>

datatype editor_notification =
    Nt_accept_connection string
  | Nt_connect server_id transport_config
  | Nt_send_info string editor_file_desc
  | Nt_stop_accepting string
  | Nt_bad_params fmt_text
  | Nt_unknown

definition handle_editor_notification ::
  "server_env \<Rightarrow> next_ctx \<Rightarrow> editor_notification \<Rightarrow> 'b server \<Rightarrow> ('b server \<times> (server_error + unit)) option" where
  "handle_editor_notification v nx nt s =
     (case nt of
        Nt_accept_connection addr \<Rightarrow>
          fine (handle_accept_connection (ev_conn v) (normalize_signaling_addr addr) s)
      | Nt_connect host transport \<Rightarrow> fine (handle_connect (ev_cid v) host transport s)
      | Nt_send_info value file \<Rightarrow> finish (handle_send_info_from_editor nx value file s)
      | Nt_stop_accepting addr \<Rightarrow> fine (handle_stop_accepting addr s)
      | Nt_bad_params e \<Rightarrow> Some (s, Inl (Other_err e))
      | Nt_unknown \<Rightarrow> fine s)"

datatype editor_message =
    Editor_request request_id editor_request
  | Editor_response
  | Editor_notification editor_notification

text \<open>Errors that reach this level are internal errors.\<close>

definition handle_editor_message ::
  "'b gapbuf_ops \<Rightarrow> server_env \<Rightarrow> editor_message \<Rightarrow> 'b server \<Rightarrow> 'b server option" where
  "handle_editor_message B v m s =
     (case m of
        Editor_request rid rq \<Rightarrow> do {
          let nx = \<lparr>nx_req_id = Some rid\<rparr>;
          (s, r) \<leftarrow> handle_editor_request B v nx rq s;
          (case r of
             Inl e \<Rightarrow> send_error nx E_internal_error (err_text e) s
           | Inr _ \<Rightarrow> Some s) }
      | Editor_response \<Rightarrow> Some s
      | Editor_notification nt \<Rightarrow> do {
          (s, r) \<leftarrow> handle_editor_notification v \<lparr>nx_req_id = None\<rparr> nt s;
          Some (case r of
             Inl e \<Rightarrow> send_notif InternalError (MessageNote (err_text e)) s
           | Inr _ \<Rightarrow> s) })"

section \<open>Messages of remote hosts\<close>

definition missing_req_id :: msg where
  "missing_req_id = M_bad_request (lit ''Missing req_id'')"

definition handle_make_directory ::
  "file_env \<Rightarrow> next_ctx \<Rightarrow> file_desc \<Rightarrow> server_id \<Rightarrow> 'b server \<Rightarrow> 'b server" where
  "handle_make_directory v nx fd host s =
     (if \<not> write_allowed (sv_config s) host
      then send_to_remote nx host (M_permission_denied (lit ''Write permission denied'')) s
      else (case fd of
        Project pid \<Rightarrow> send_to_remote nx host (M_error_resp E_bad_request (Some fd)
          (Fmt ''Cannot create project root as directory: {}'' [A_str pid])) s
      | ProjectFile pid file \<Rightarrow>
          (case make_directory_on_disk v pid file s of
             (s, Inl e) \<Rightarrow> send_to_remote nx host (M_error_resp E_io_error (Some fd) (err_text e)) s
           | (s, Inr _) \<Rightarrow> send_to_remote nx host (M_directory_made fd) s)))"

text \<open>The \<open>MoveFile\<close> message checks the permission before the handler.\<close>

definition handle_move_file_msg ::
  "file_env \<Rightarrow> next_ctx \<Rightarrow> project_id \<Rightarrow> string \<Rightarrow> string \<Rightarrow> server_id \<Rightarrow> 'b server \<Rightarrow> 'b server" where
  "handle_move_file_msg v nx pid source dest host s =
     (if \<not> write_allowed (sv_config s) host
      then send_to_remote nx host (M_permission_denied (lit ''Write permission denied'')) s
      else handle_move_file v nx pid source dest host s)"

text \<open>A message that is a response when it has a request id, and a notification otherwise.\<close>

definition resp_or_notif ::
  "next_ctx \<Rightarrow> resp \<Rightarrow> response_error option \<Rightarrow> notification_code \<Rightarrow> editor_note \<Rightarrow> 'b server \<Rightarrow>
     'b server option" where
  "resp_or_notif nx resp err code note s =
     (if nx_req_id nx \<noteq> None then send_resp nx resp err s else Some (send_notif code note s))"

definition handle_file_saved :: "next_ctx \<Rightarrow> doc_id \<Rightarrow> server_id \<Rightarrow> 'b server \<Rightarrow> 'b server option" where
  "handle_file_saved nx doc host s =
     (if nx_req_id nx = None then Some (send_to_remote nx host missing_req_id s)
      else (case rd_get (sv_remote_docs s) host doc of
        Some rd \<Rightarrow> send_resp nx (SaveFileResp (editor_file_desc_new (r_file_desc rd) host)) None s
      | None \<Rightarrow> Some s))"

definition handle_doc_fatal :: "doc_id \<Rightarrow> fmt_text \<Rightarrow> server_id \<Rightarrow> 'b server \<Rightarrow> 'b server" where
  "handle_doc_fatal doc reason host s =
     (case rd_remove (sv_remote_docs s) host doc of
        (rs, rd) \<Rightarrow> send_notif ErrorResponse
          (ErrorResponseNote E_doc_fatal (map_option r_file_desc rd) reason) (s\<lparr>sv_remote_docs := rs\<rparr>))"

definition handle_remote_message ::
  "'b gapbuf_ops \<Rightarrow> server_env \<Rightarrow> server_id \<Rightarrow> request_id option \<Rightarrow> msg \<Rightarrow> 'b server \<Rightarrow>
     ('b server \<times> (server_error + unit)) option" where
  "handle_remote_message B v host rid body s =
     (let nx = \<lparr>nx_req_id = rid\<rparr>; fv = ev_file v; now = cv_now (ev_conn v) in
      case body of
        M_ice_progress peer progress \<Rightarrow>
          fine (send_notif ConnectionProgress (HostAndMessageNote peer (lit progress)) s)
      | M_failed_to_connect peer reason cid \<Rightarrow> fine (handle_failed_to_connect now peer reason cid s)
      | M_connection_broke peer cid \<Rightarrow> fine (handle_connection_broke now peer cid s)
      | M_hey hey \<Rightarrow> fine (handle_hey (ev_save_err v) host hey s)
      | M_list_files dir \<Rightarrow>
          fine (if rid \<noteq> None then list_files_from_remote fv nx dir host s
                else send_to_remote_no_req_id host missing_req_id s)
      | M_file_list files \<Rightarrow>
          (if rid = None
           then fine (send_notif UnimportantError (HostAndMessageNote host
             (Fmt ''Received file list from remote {}, but without req_id'' [A_str host])) s)
           else finish (send_resp nx (ListFilesResp files) None s))
      | M_error_resp code file message \<Rightarrow>
          finish (resp_or_notif nx Resp_unit (Some \<lparr>re_code = code, re_message = message\<rparr>)
            ErrorResponse (ErrorResponseNote code file message) s)
      | M_request_file fd mode \<Rightarrow>
          (if rid \<noteq> None then finish (handle_request_file B fv nx fd host mode s)
           else fine (send_to_remote nx host missing_req_id s))
      | M_snapshot sn \<Rightarrow> (if rid \<noteq> None then finish (handle_snapshot B nx sn host s) else fine s)
      | M_make_directory fd \<Rightarrow> fine (handle_make_directory fv nx fd host s)
      | M_directory_made fd \<Rightarrow>
          (if rid = None then fine s
           else finish (send_resp nx (MakeDirectoryResp (editor_file_desc_new fd host)) None s))
      | M_op_from_client co \<Rightarrow> handle_op_from_client B nx co host s
      | M_op_from_server doc ops \<Rightarrow> finish (handle_op_from_server nx doc ops host s)
      | M_request_ops doc after \<Rightarrow> fine (handle_request_ops nx doc after host s)
      | M_move_file pid source dest \<Rightarrow> fine (handle_move_file_msg fv nx pid source dest host s)
      | M_file_moved pid old_path new_path \<Rightarrow>
          finish (resp_or_notif nx (MoveFileResp host pid old_path new_path) None
            FileMoved (FileMovedNote host pid old_path new_path) s)
      | M_save_file doc \<Rightarrow> fine (handle_save_file B fv nx doc host s)
      | M_reset_from_disk doc \<Rightarrow> finish (handle_reset_from_disk B fv nx doc host s)
      | M_file_saved doc \<Rightarrow> finish (handle_file_saved nx doc host s)
      | M_stop_sending_ops doc \<Rightarrow> fine (handle_stop_sending_ops doc host s)
      | M_close_file fd delete \<Rightarrow> fine (handle_close_file_from_remote B fv nx fd host delete s)
      | M_file_deleted fd \<Rightarrow>
          finish (resp_or_notif nx (DeleteFileResp (editor_file_desc_new fd host)) None
            FileDeleted (FileDeletedNote (editor_file_desc_new fd host)) s)
      | M_file_closed fd \<Rightarrow> fine (send_notif FileClosed (FileClosedNote (editor_file_desc_new fd host)) s)
      | M_info_from_client i \<Rightarrow> fine (fst (broadcast_info nx i s))
      | M_info_from_server i \<Rightarrow> Some (handle_info_from_server (ev_json_err v) nx i host s)
      | M_permission_denied message \<Rightarrow>
          finish (resp_or_notif nx Resp_unit (Some \<lparr>re_code = E_permission_denied, re_message = message\<rparr>)
            InternalError (HostAndMessageNote host message) s)
      | M_doc_fatal doc reason \<Rightarrow> fine (handle_doc_fatal doc reason host s)
      | M_bye \<Rightarrow> fine (handle_bye host s)
      | _ \<Rightarrow> fine (send_notif InternalError (HostAndMessageNote host
          (Fmt ''Unrecognized message type from {}: {:?}'' [A_str host, A_str (ev_debug v body)])) s))"

section \<open>The main loop\<close>

text \<open>
  What the loop can receive. Errors of the handlers are logged; a signaling channel delivers a
  message or its end; a tick runs \<open>fix_world\<close>, and so does the permit \<open>fix_world_notify\<close>, which is
  consumed by it.
\<close>

datatype server_event =
    Ev_editor editor_message
  | Ev_remote server_id "request_id option" msg
  | Ev_signaling string signaling_msg
  | Ev_accept_stopped string string
  | Ev_fix_world
  | Ev_tick
  | Ev_file_changed path_buf instant

definition server_step :: "'b gapbuf_ops \<Rightarrow> server_env \<Rightarrow> server_event \<Rightarrow> 'b server \<Rightarrow> 'b server option" where
  "server_step B v ev s =
     (case ev of
        Ev_editor m \<Rightarrow> handle_editor_message B v m s
      | Ev_remote host rid body \<Rightarrow> map_option fst (handle_remote_message B v host rid body s)
      | Ev_signaling addr m \<Rightarrow> handle_signaling_msg (ev_conn v) (ev_cid v) addr m s
      | Ev_accept_stopped addr reason \<Rightarrow> Some (handle_accept_stopped (cv_now (ev_conn v)) addr reason s)
      | Ev_fix_world \<Rightarrow> Some (fix_world (ev_conn v) (s\<lparr>sv_fix_world := False\<rparr>))
      | Ev_tick \<Rightarrow> Some (fix_world (ev_conn v) s)
      | Ev_file_changed path timestamp \<Rightarrow>
          map_option fst (reset_doc_from_disk B (fv_disk (ev_file v)) \<lparr>nx_req_id = None\<rparr> path (Some timestamp) s))"

text \<open>The start of \<open>run\<close>: the projects of the configuration.\<close>

definition run_start :: "(string \<Rightarrow> fmt_text + path_buf) \<Rightarrow> 'b server \<Rightarrow> server_error + 'b server" where
  "run_start expand s =
     (case expand_project_paths expand (cf_projects (sv_config s)) of
        Inl e \<Rightarrow> Inl e
      | Inr ps \<Rightarrow> Inr (insert_projects ps s))"

text \<open>The states the server can get into from a start.\<close>

inductive server_reachable :: "'b gapbuf_ops \<Rightarrow> 'b server \<Rightarrow> bool" for B where
  start: "server_reachable B (server_new_with_keycert host name c cert)"
| started: "server_reachable B s \<Longrightarrow> run_start expand s = Inr s' \<Longrightarrow> server_reachable B s'"
| envoy: "server_reachable B s \<Longrightarrow> init_for_envoy expand now cid1 cid2 h ps s = (s', r) \<Longrightarrow> server_reachable B s'"
| step: "server_reachable B s \<Longrightarrow> server_step B v ev s = Some s' \<Longrightarrow> server_reachable B s'"

end
