(* ===== verification/Server_Frame.thy ===== *)
theory Server_Frame
  imports Server_Dispatch
begin

text \<open>
  What handlers leave alone. \<open>keeps s t\<close>: from \<open>s\<close> to \<open>t\<close> nothing was changed on disk, every hosted
  document has the content it had, and so have the permissions. It is a preorder kept by each
  sending function, so that a handler is walked through once by its definition.
\<close>

lemma not_ok_iff: "(r :: 'e + unit) \<noteq> Inr () \<longleftrightarrow> (\<exists>e. r = Inl e)" "(\<forall>e. r \<noteq> Inl e) \<longleftrightarrow> r = Inr ()"
  by (cases r; auto)+

text \<open>Taking the run of a handler apart, the outermost case first.\<close>

lemmas run_splits =
  option.split_asm sum.split_asm prod.split_asm if_split_asm bind_split_asm list.split_asm

section \<open>Outputs\<close>

fun changes_disk :: "out \<Rightarrow> bool" where
  "changes_disk (Write_file _ _) = True"
| "changes_disk (Spoil_file _) = True"
| "changes_disk (Open_file _ create) = create"
| "changes_disk (Make_dirs _) = True"
| "changes_disk (Rename_path _ _) = True"
| "changes_disk (Delete_path _) = True"
| "changes_disk (Save_config _) = True"
| "changes_disk _ = False"

definition emitted :: "'b server \<Rightarrow> 'b server \<Rightarrow> out list" where
  "emitted s t = drop (length (sv_out s)) (sv_out t)"

definition extends :: "'b server \<Rightarrow> 'b server \<Rightarrow> bool" where
  "extends s t \<longleftrightarrow> prefix (sv_out s) (sv_out t)"

lemma emitted_append: "sv_out t = sv_out s @ xs \<Longrightarrow> emitted s t = xs"
  by (simp add: emitted_def)

section \<open>Content of the documents\<close>

definition same_content :: "'b doc \<Rightarrow> 'b doc \<Rightarrow> bool" where
  "same_content d d' \<longleftrightarrow>
     d_engine d' = d_engine d \<and> d_buffer d' = d_buffer d \<and> d_abs_filename d' = d_abs_filename d \<and>
     d_disk_file d' = d_disk_file d"

definition keeps_docs :: "'b server \<Rightarrow> 'b server \<Rightarrow> bool" where
  "keeps_docs s t \<longleftrightarrow>
     (\<forall>i d. map_of (sv_docs s) i = Some d \<longrightarrow> (\<exists>d'. map_of (sv_docs t) i = Some d' \<and> same_content d d'))"

lemma same_content_refl [simp]: "same_content d d"
  by (simp add: same_content_def)

lemma same_content_trans: "same_content d e \<Longrightarrow> same_content e f \<Longrightarrow> same_content d f"
  by (simp add: same_content_def)

lemma same_content_subscribers [simp]: "same_content d (d\<lparr>d_subscribers := x\<rparr>)"
  by (simp add: same_content_def)

definition keeps :: "'b server \<Rightarrow> 'b server \<Rightarrow> bool" where
  "keeps s t \<longleftrightarrow>
     keeps_docs s t \<and> cf_permission (sv_config t) = cf_permission (sv_config s) \<and>
     (\<exists>xs. sv_out t = sv_out s @ xs \<and> (\<forall>x \<in> set xs. \<not> changes_disk x))"

named_theorems keeps_intro "functions that keep documents, permissions and disk"

lemma keeps_refl [simp, intro]: "keeps s s"
  by (auto simp: keeps_def keeps_docs_def)

lemma keeps_trans: "keeps s t \<Longrightarrow> keeps t u \<Longrightarrow> keeps s u"
  unfolding keeps_def keeps_docs_def by (fastforce intro: same_content_trans)

text \<open>A change of the other fields is not seen.\<close>

lemma keeps_same:
  "keeps s t \<Longrightarrow> sv_docs u = sv_docs t \<Longrightarrow> cf_permission (sv_config u) = cf_permission (sv_config t) \<Longrightarrow>
     sv_out u = sv_out t \<Longrightarrow> keeps s u"
  by (simp add: keeps_def keeps_docs_def)

lemma keeps_emit [keeps_intro]: "\<not> changes_disk x \<Longrightarrow> keeps s t \<Longrightarrow> keeps s (emit x t)"
  unfolding keeps_def keeps_docs_def emit_def by auto

lemma keeps_send [keeps_intro]:
  "keeps s t \<Longrightarrow> keeps s (send_to_remote nx h m t)"
  "keeps s t \<Longrightarrow> keeps s (send_to_remote_no_req_id h m t)"
  "keeps s t \<Longrightarrow> keeps s (send_notif code note t)"
  "keeps s t \<Longrightarrow> keeps s (resend_watch_files t)"
  by (auto simp: send_to_remote_def send_to_remote_no_req_id_def send_notif_def resend_watch_files_def
      intro: keeps_emit)

lemma keeps_send_resp: "send_resp nx r e t = Some t' \<Longrightarrow> keeps s t \<Longrightarrow> keeps s t'"
  by (auto simp: send_resp_def split: option.splits intro: keeps_emit)

lemma keeps_send_error: "send_error nx c m t = Some t' \<Longrightarrow> keeps s t \<Longrightarrow> keeps s t'"
  by (auto simp: send_error_def intro: keeps_send_resp)

lemma keeps_send_to_all [keeps_intro]: "keeps s t \<Longrightarrow> keeps s (send_to_all nx hs m t)"
  by (induction hs arbitrary: t) (auto intro: keeps_intro)

lemma keeps_worlds [keeps_intro]:
  "keeps s t \<Longrightarrow> keeps s (upd_current f t)"
  "keeps s t \<Longrightarrow> keeps s (upd_ideal f t)"
  "keeps s t \<Longrightarrow> keeps s (fix_world_next t)"
  by (auto simp: upd_current_def upd_ideal_def fix_world_next_def elim!: keeps_same)

lemma keeps_remote_docs [keeps_intro]:
  "keeps s t \<Longrightarrow> keeps s (t\<lparr>sv_remote_docs := x\<rparr>)"
  "keeps s t \<Longrightarrow> keeps s (set_remote_doc h doc rd t)"
  "keeps s t \<Longrightarrow> keeps s (drop_remote_doc h doc t)"
  "keeps s t \<Longrightarrow> keeps s (insert_remote_doc h doc rd ef t)"
  by (auto simp: set_remote_doc_def drop_remote_doc_def insert_remote_doc_def elim!: keeps_same)

lemma keeps_set_doc:
  assumes "map_of (sv_docs t) doc = Some d" and "same_content d d'" and "keeps s t"
  shows "keeps s (set_doc doc d' t)"
  using assms unfolding keeps_def keeps_docs_def set_doc_def
  by (fastforce intro: same_content_trans split: option.splits)

lemma keeps_new_doc:
  assumes "map_of (sv_docs t) (sv_next_doc_id t) = None" and "keeps s t"
    and "create_doc B v name meta path fd content subs disk_file t = Some (doc, d, t')"
  shows "keeps s t'"
proof -
  have t': "sv_docs t' = AList.update (sv_next_doc_id t) d (sv_docs t)" "sv_out t' = sv_out t"
      "sv_config t' = sv_config t"
    using assms(3) by (auto simp: create_doc_def Let_def bind_eq_Some_conv)
  show ?thesis
    using assms(1,2) unfolding keeps_def keeps_docs_def t' map_of_update
    by (metis fun_upd_other option.distinct(1))
qed

section \<open>The handlers of messages\<close>

lemma keeps_list_files_from_remote: "keeps s (list_files_from_remote v nx dir h s)"
  by (auto simp: list_files_from_remote_def split: sum.splits intro: keeps_intro)

lemma keeps_connection_lost: "keeps s (connection_lost now p cid r1 r2 s)"
  by (auto simp: connection_lost_def Let_def intro: keeps_intro)

text \<open>A greeting saves the configuration, with the hosts trusted now; nothing else is changed on disk.\<close>

lemma hey_effect:
  assumes "handle_hey err h hey s = t"
  shows "sv_docs t = sv_docs s \<and>
    sv_config t = (sv_config s)\<lparr>cf_trusted_hosts := w_trusted (sv_ideal_world s)\<rparr> \<and>
    (\<exists>outs. sv_out t = sv_out s @ outs \<and> (\<forall>x \<in> set outs. changes_disk x \<longrightarrow> x = Save_config (sv_config t)))"
  using assms
  by (auto simp: handle_hey_def replace_and_save_def send_notif_def emit_def upd_current_def Let_def
      split: option.splits)

lemma keeps_bye: "keeps s (handle_bye h s)"
  by (auto simp: handle_bye_def intro!: keeps_intro)

lemma keeps_resp_or_notif: "resp_or_notif nx r e code note s = Some t \<Longrightarrow> keeps s t"
  by (auto simp: resp_or_notif_def split: if_splits intro: keeps_intro keeps_send_resp)

lemma keeps_request_ops: "keeps s (handle_request_ops nx doc after h s)"
  by (auto simp: handle_request_ops_def Let_def split: option.splits
      intro!: keeps_intro keeps_set_doc)

lemma keeps_stop_sending: "keeps s (handle_stop_sending_ops doc h s)"
  by (auto simp: handle_stop_sending_ops_def split: option.splits intro!: keeps_set_doc)

lemma keeps_broadcast_info: "keeps s (fst (broadcast_info nx i s))"
  by (auto simp: broadcast_info_def split: option.splits intro: keeps_intro)

lemma keeps_info_from_server: "handle_info_from_server err nx i h s = (t, r) \<Longrightarrow> keeps s t"
  by (auto simp: handle_info_from_server_def split: option.splits intro: keeps_intro)

lemma keeps_doc_fatal: "keeps s (handle_doc_fatal doc r h s)"
  by (auto simp: handle_doc_fatal_def split: prod.splits intro: keeps_intro)

lemma keeps_file_saved: "handle_file_saved nx doc h s = Some t \<Longrightarrow> keeps s t"
  by (auto simp: handle_file_saved_def split: if_splits option.splits intro: keeps_intro keeps_send_resp)

lemma keeps_snapshot: "handle_snapshot B nx sn h s = Some t \<Longrightarrow> keeps s t"
  by (auto simp: handle_snapshot_def Let_def split: option.splits bind_splits
      intro!: keeps_intro elim!: keeps_send_error keeps_send_resp)

lemma keeps_buffer_ops: "buffer_ops nx doc h fs rd t = (rd', t') \<Longrightarrow> keeps s t \<Longrightarrow> keeps s t'"
  by (induction nx doc h fs rd t rule: buffer_ops.induct)
    (auto simp: Let_def split: option.splits if_splits intro: keeps_intro)

lemma keeps_op_from_server: "handle_op_from_server nx doc ops h s = Some t \<Longrightarrow> keeps s t"
  by (auto simp: handle_op_from_server_def Let_def simp del: buffer_ops.simps
      split: list.splits option.splits prod.splits if_splits bind_splits
      intro!: keeps_intro dest!: keeps_buffer_ops [OF _ keeps_refl])

lemma keeps_open_file:
  assumes "open_file_from_disk v pid rel mode False s = (t, r)"
  shows "keeps s t \<and> sv_docs t = sv_docs s \<and> sv_next_doc_id t = sv_next_doc_id s"
  using assms
  by (auto simp: open_file_from_disk_def Let_def emit_def split: if_splits sum.splits option.splits
      intro!: keeps_emit [unfolded emit_def] keeps_refl)

lemma keeps_site_id_of: "site_id_of h s = (i, t) \<Longrightarrow>
    keeps s t \<and> sv_docs t = sv_docs s \<and> sv_next_doc_id t = sv_next_doc_id s \<and> sv_config t = sv_config s"
  by (auto simp: site_id_of_def keeps_def keeps_docs_def split: option.splits)

text \<open>A document is served to a host that may not create files.\<close>

lemma keeps_serve_file:
  assumes "\<not> create_allowed (sv_config s) h" and "map_of (sv_docs s) (sv_next_doc_id s) = None"
    and "serve_file B v nx pid name path site h mode s = Some t"
  shows "keeps s t"
proof (cases "find_doc path (sv_docs s)")
  case None
  obtain s1 r where o: "open_file_from_disk v pid name mode False s = (s1, r)" by fastforce
  note k = keeps_open_file [OF o]
  show ?thesis
  proof (cases r)
    case (Inl e)
    with assms(1,3) None o k show ?thesis by (auto simp: serve_file_def Let_def intro!: keeps_intro)
  next
    case (Inr cp)
    obtain content p where cp: "cp = (content, p)" by fastforce
    from assms(1,3) None o Inr cp obtain doc d s2 where
      c: "create_doc B v (base_name name) [] (Path_id p) (ProjectFile pid name) content [] (Some p) s1 = Some (doc, d, s2)"
      and t: "\<exists>m. t = resend_watch_files (send_to_remote nx h m s2)"
      by (auto simp: serve_file_def Let_def bind_eq_Some_conv)
    from k assms(2) have "keeps s s2" by (intro keeps_new_doc [OF _ _ c]) auto
    with t show ?thesis by (auto intro!: keeps_intro)
  qed
qed (use assms(3) in \<open>auto simp: serve_file_def Let_def intro!: keeps_intro\<close>)

lemma keeps_request_file:
  assumes "\<not> create_allowed (sv_config s) h" and "map_of (sv_docs s) (sv_next_doc_id s) = None"
    and "handle_request_file B v nx fd h mode s = Some t"
  shows "keeps s t"
proof -
  obtain i s1 where i: "site_id_of h s = (i, s1)" by fastforce
  note k = keeps_site_id_of [OF i]
  from assms k have f: "serve_file B v nx pid name path i h mode s1 = Some t \<Longrightarrow> keeps s1 t" for pid name path
    by (intro keeps_serve_file) auto
  from assms(3) i k f show ?thesis
    by (auto simp: handle_request_file_def Let_def split: sum.splits file_desc.splits
        intro!: keeps_intro intro: keeps_trans)
qed

text \<open>The handlers that check a permission stop there.\<close>

lemma keeps_denied:
  "\<not> write_allowed (sv_config s) h \<Longrightarrow> keeps s (handle_make_directory v nx fd h s)"
  "\<not> write_allowed (sv_config s) h \<Longrightarrow> keeps s (handle_move_file_msg v nx pid src dst h s)"
  "\<not> write_allowed (sv_config s) h \<Longrightarrow> keeps s (handle_save_file B v nx doc h s)"
  "\<not> delete_allowed (sv_config s) h \<Longrightarrow> keeps s (handle_close_file_from_remote B v nx fd h del s)"
  by (auto simp: handle_make_directory_def handle_move_file_msg_def handle_save_file_def
      handle_close_file_from_remote_def intro!: keeps_intro)

lemma keeps_denied_some:
  "\<not> write_allowed (sv_config s) h \<Longrightarrow> handle_op_from_client B nx co h s = Some (t, r) \<Longrightarrow> keeps s t"
  "\<not> write_allowed (sv_config s) h \<Longrightarrow> handle_reset_from_disk B v nx doc h s = Some t \<Longrightarrow> keeps s t"
  by (auto simp: handle_op_from_client_def handle_reset_from_disk_def Let_def intro!: keeps_intro)

lemmas keeps_handlers =
  keeps_list_files_from_remote keeps_connection_lost keeps_bye keeps_request_ops
  keeps_stop_sending keeps_broadcast_info keeps_doc_fatal

lemma fine_eq [simp]: "fine s = Some (t, r) \<longleftrightarrow> t = s \<and> r = Inr ()"
  by (auto simp: fine_def)

lemma finish_eq [simp]: "finish x = Some (t, r) \<longleftrightarrow> x = Some t \<and> r = Inr ()"
  by (auto simp: finish_def bind_eq_Some_conv)

lemma keeps_remote_message:
  assumes denied: "\<not> write_allowed (sv_config s) h" "\<not> create_allowed (sv_config s) h"
      "\<not> delete_allowed (sv_config s) h"
    and body: "\<forall>hey. body \<noteq> M_hey hey"
    and fresh: "map_of (sv_docs s) (sv_next_doc_id s) = None"
    and run: "handle_remote_message B v h rid body s = Some (t, r)"
  shows "keeps s t"
  using run denied body
  by (cases body)
    (auto simp: handle_remote_message_def Let_def handle_failed_to_connect_def handle_connection_broke_def
      split: if_splits
      intro!: keeps_intro keeps_handlers keeps_denied
      dest: keeps_denied_some keeps_resp_or_notif keeps_file_saved keeps_snapshot keeps_op_from_server
        keeps_send_resp [OF _ keeps_refl] keeps_request_file [OF denied(2) fresh]
        keeps_info_from_server)

end
