(* ===== verification/Site_Ids.thy ===== *)
theory Site_Ids
  imports Server_Frame
begin

text \<open>
  Site ids of the hosts: only a request for a file draws one, and what is drawn stays different
  from every other. \<open>ids\<close> is the part of the state that matters, with the server's own ids; every
  other handler leaves it.
\<close>

definition ids :: "'b server \<Rightarrow> site_id \<times> (server_id, site_id) hash_map \<times> server_id \<times> site_id" where
  "ids s = (sv_next_site_id s, sv_site_id_map s, sv_host_id s, sv_site_id s)"

lemma ids_updates [simp]:
  "ids (s\<lparr>sv_docs := a\<rparr>) = ids s" "ids (s\<lparr>sv_remote_docs := b\<rparr>) = ids s"
  "ids (s\<lparr>sv_projects := c\<rparr>) = ids s" "ids (s\<lparr>sv_config := d\<rparr>) = ids s"
  "ids (s\<lparr>sv_ideal_world := e\<rparr>) = ids s" "ids (s\<lparr>sv_current_world := f\<rparr>) = ids s"
  "ids (s\<lparr>sv_local_trusted_hosts := g\<rparr>) = ids s" "ids (s\<lparr>sv_fix_world := h\<rparr>) = ids s"
  "ids (s\<lparr>sv_out := i\<rparr>) = ids s" "ids (s\<lparr>sv_next_doc_id := j\<rparr>) = ids s"
  by (simp_all add: ids_def)

lemma ids_helpers [simp]:
  "ids (emit x s) = ids s" "ids (send_notif code note s) = ids s" "ids (send_to_remote nx h m s) = ids s"
  "ids (send_to_remote_no_req_id h m s) = ids s" "ids (resend_watch_files s) = ids s"
  "ids (fix_world_next s) = ids s" "ids (upd_current fc s) = ids s" "ids (upd_ideal fc s) = ids s"
  "ids (set_doc doc d s) = ids s" "ids (set_remote_doc h doc rd s) = ids s"
  "ids (drop_remote_doc h doc s) = ids s" "ids (insert_remote_doc h doc rd ef s) = ids s"
  by (simp_all add: emit_def send_notif_def send_to_remote_def send_to_remote_no_req_id_def
      resend_watch_files_def fix_world_next_def upd_current_def upd_ideal_def set_doc_def
      set_remote_doc_def drop_remote_doc_def insert_remote_doc_def)

lemma ids_fold_emit [simp]: "ids (fold emit xs s) = ids s"
  by (induction xs arbitrary: s) auto

lemma ids_send_to_all [simp]: "ids (send_to_all nx hs m s) = ids s"
  by (induction hs arbitrary: s) auto

lemma ids_tell_moved [simp]: "ids (tell_moved rid m hs s) = ids s"
  by (induction hs arbitrary: s) auto

lemma ids_send_resp: "send_resp nx r e s = Some t \<Longrightarrow> ids t = ids s"
  by (auto simp: send_resp_def split: option.splits)

lemma ids_send_error: "send_error nx c m s = Some t \<Longrightarrow> ids t = ids s"
  by (auto simp: send_error_def dest: ids_send_resp)

lemma ids_send_io_error: "send_io_error nx e s = Some t \<Longrightarrow> ids t = ids s"
  by (auto simp: send_io_error_def dest: ids_send_error)

lemma ids_insert_projects [simp]: "ids (insert_projects ps s) = ids s"
  by (induction ps arbitrary: s) auto

lemmas ids_dests = ids_send_resp ids_send_error ids_send_io_error

section \<open>Connections\<close>

lemma ids_loops [simp]:
  "ids (fail_bindings xs s) = ids s" "ids (drop_signaling xs s) = ids s"
  "ids (sync_trust v xs s) = ids s" "ids (drop_remotes ys s) = ids s"
  "ids (time_out_remotes now zs s) = ids s"
  by (induction xs arbitrary: s, simp_all, induction xs arbitrary: s, simp_all,
      induction xs arbitrary: s, simp_all, induction ys arbitrary: s, simp_all,
      induction zs arbitrary: s, auto)

lemma ids_send_connect [simp]: "ids (send_connect_message v p a i s) = ids s"
  by (simp add: send_connect_message_def Let_def split: option.splits)

lemma ids_bind_one [simp]: "ids (bind_one v a s) = ids s"
  by (simp add: bind_one_def Let_def split: option.splits)

lemma ids_start_bindings [simp]: "ids (start_bindings v xs s) = ids s"
  by (induction xs arbitrary: s) auto

lemma ids_try_connect [simp]: "ids (try_connect_remote v p tr s) = ids s"
  by (simp add: try_connect_remote_def try_connect_remote_sctp_def try_connect_remote_ssh_def Let_def
      split: transport_config.splits sum.splits prod.splits)

lemma ids_start_one [simp]: "ids (start_one v p tr s) = ids s"
  by (simp add: start_one_def)

lemma ids_start_remotes [simp]: "ids (start_remotes v xs s) = ids s"
  by (induction xs arbitrary: s) auto

lemma ids_passes [simp]:
  "ids (fix_world_signaling v s) = ids s" "ids (fix_world_remotes v s) = ids s"
  "ids (fix_world_timeouts v s) = ids s"
  unfolding fix_world_signaling_def fix_world_remotes_def fix_world_timeouts_def Let_def
  by (simp_all only: ids_loops ids_start_bindings ids_start_remotes)

lemma ids_fix_world [simp]: "ids (fix_world v s) = ids s"
  by (simp add: fix_world_def)

lemma ids_connection_handlers [simp]:
  "ids (handle_signaling_bound_msg a tr s) = ids s"
  "ids (handle_accept_stopped now a r s) = ids s"
  "ids (handle_accept_connection v a s) = ids s"
  "ids (handle_connect cid h tc s) = ids s"
  "ids (handle_stop_accepting a s) = ids s"
  "ids (connection_lost now p cid r1 r2 s) = ids s"
  "ids (handle_hey err h hey s) = ids s"
  "ids (handle_bye h s) = ids s"
  by (simp_all add: handle_signaling_bound_msg_def handle_accept_stopped_def handle_accept_connection_def
      handle_connect_def handle_stop_accepting_def connection_lost_def handle_hey_def handle_bye_def
      replace_and_save_def Let_def split: option.splits signaling_status.splits sum.splits)

lemma ids_signaling_msg: "handle_signaling_msg v cid a m s = Some t \<Longrightarrow> ids t = ids s"
  by (auto simp: handle_signaling_msg_def handle_signaling_connect_msg_def Let_def bind_eq_Some_conv
      split: signaling_msg.splits if_splits)

lemma ids_update_config: "handle_update_config_from_editor e tr p s = (t, r) \<Longrightarrow> ids t = ids s"
  by (auto simp: handle_update_config_from_editor_def replace_and_save_def Let_def split: prod.splits sum.splits)

lemma ids_init_for_envoy: "init_for_envoy expand now c1 c2 h ps s = (t, r) \<Longrightarrow> ids t = ids s"
  by (auto simp: init_for_envoy_def Let_def split: list.splits sum.splits)

section \<open>Ops\<close>

lemma ids_op_from_client: "handle_op_from_client B nx co h s = Some (t, r) \<Longrightarrow> ids t = ids s"
  by (auto simp: handle_op_from_client_def Let_def bind_eq_Some_conv not_ok_iff
      split: if_splits option.splits sum.splits)

lemma ids_request_ops [simp]: "ids (handle_request_ops nx doc after h s) = ids s"
  by (simp add: handle_request_ops_def Let_def split: option.splits)

lemma ids_stop_sending [simp]: "ids (handle_stop_sending_ops doc h s) = ids s"
  by (simp add: handle_stop_sending_ops_def split: option.splits)

lemma ids_buffer_ops: "buffer_ops nx doc h fs rd s = (rd', t) \<Longrightarrow> ids t = ids s"
  by (induction nx doc h fs rd s rule: buffer_ops.induct)
    (auto simp: Let_def split: option.splits if_splits)

lemma ids_op_from_server: "handle_op_from_server nx doc ops h s = Some t \<Longrightarrow> ids t = ids s"
  by (auto simp: handle_op_from_server_def Let_def bind_eq_Some_conv simp del: buffer_ops.simps
      split: list.splits option.splits prod.splits if_splits dest: ids_buffer_ops)

lemma ids_fail_doc: "fail_doc nx h doc m s = Some t \<Longrightarrow> ids t = ids s"
  by (auto simp: fail_doc_def bind_eq_Some_conv dest: ids_dests)

lemma ids_send_ops: "handle_send_ops_from_editor B nx ops ef s = Some t \<Longrightarrow> ids t = ids s"
  by (auto simp: handle_send_ops_from_editor_def Let_def
      split: run_splits dest!: ids_dests ids_fail_doc)

lemma ids_broadcast_info: "broadcast_info nx i s = (t, r) \<Longrightarrow> ids t = ids s"
  by (auto simp: broadcast_info_def split: option.splits)

lemma ids_send_info: "handle_send_info_from_editor nx value ef s = Some t \<Longrightarrow> ids t = ids s"
  by (auto simp: handle_send_info_from_editor_def split: option.splits prod.splits sum.splits
      dest!: ids_broadcast_info)

lemma ids_info_from_server: "handle_info_from_server err nx i h s = (t, r) \<Longrightarrow> ids t = ids s"
  by (auto simp: handle_info_from_server_def split: option.splits)

lemma ids_reset_doc: "reset_doc_from_disk B v nx p ts s = Some (t, r) \<Longrightarrow> ids t = ids s"
  by (auto simp: reset_doc_from_disk_def Let_def split: run_splits)

section \<open>Files\<close>

lemma ids_open_file: "open_file_from_disk v pid rel mode may s = (t, r) \<Longrightarrow> ids t = ids s"
  by (auto simp: open_file_from_disk_def Let_def split: run_splits)

lemma ids_make_directory: "make_directory_on_disk v pid rel s = (t, r) \<Longrightarrow> ids t = ids s"
  by (auto simp: make_directory_on_disk_def Let_def split: run_splits)

lemma ids_create_doc: "create_doc B v n m p fd c subs df s = Some (doc, d, t) \<Longrightarrow> ids t = ids s"
  by (auto simp: create_doc_def Let_def bind_eq_Some_conv ids_def)

lemma ids_open_own: "open_own_doc B nx ef doc d s = Some t \<Longrightarrow> ids t = ids s"
  by (auto simp: open_own_doc_def Let_def split: bind_split_asm option.split_asm dest!: ids_dests)

lemma ids_open_local: "open_local_file B v nx ef mode s = Some t \<Longrightarrow> ids t = ids s"
  by (auto simp: open_local_file_def
      split: run_splits
      dest!: ids_dests ids_open_own ids_open_file ids_create_doc)

lemma ids_editor_files:
  "list_files_from_editor v nx h dir s = Some t \<Longrightarrow> ids t = ids s"
  "open_file_from_editor B v nx ef mode s = Some t \<Longrightarrow> ids t = ids s"
  "make_directory_from_editor v nx ef s = Some t \<Longrightarrow> ids t = ids s"
  "handle_share_file_from_editor B v ps s = Some (t, r) \<Longrightarrow> ids t = ids s"
  by (auto simp: list_files_from_editor_def open_file_from_editor_def make_directory_from_editor_def
      handle_share_file_from_editor_def open_shared_def Let_def
      split: run_splits
      dest!: ids_dests ids_open_local ids_make_directory ids_create_doc)

lemma ids_snapshot: "handle_snapshot B nx sn h s = Some t \<Longrightarrow> ids t = ids s"
  by (auto simp: handle_snapshot_def Let_def split: run_splits dest!: ids_dests)

lemma ids_serve_file: "serve_file B v nx pid name p i h mode s = Some t \<Longrightarrow> ids t = ids s"
  by (auto simp: serve_file_def Let_def
      split: run_splits
      dest!: ids_open_file ids_create_doc)

lemma ids_list_files_from_remote [simp]: "ids (list_files_from_remote v nx dir h s) = ids s"
  by (simp add: list_files_from_remote_def split: sum.splits)

section \<open>File management\<close>

lemma ids_save_file: "save_file_to_disk B v doc s = (t, r) \<Longrightarrow> ids t = ids s"
  by (auto simp: save_file_to_disk_def split: run_splits)

lemma ids_move_file: "move_file_on_disk v pid a b s = (t, r) \<Longrightarrow> ids t = ids s"
  by (auto simp: move_file_on_disk_def Let_def split: run_splits)

lemma ids_close_docs [simp]: "ids (close_docs B v docs s) = ids s"
  by (induction docs arbitrary: s) (auto simp: Let_def split: option.splits prod.splits)

lemma ids_delete_path: "delete_path v p s = (t, r) \<Longrightarrow> ids t = ids s"
  by (auto simp: delete_path_def split: run_splits)

lemma ids_close_file: "handle_close_file_locally B v fd del s = (t, r) \<Longrightarrow> ids t = ids s"
  by (auto simp: handle_close_file_locally_def Let_def
      split: run_splits dest!: ids_delete_path)

lemma ids_manage_total [simp]:
  "ids (handle_save_file B v nx doc h s) = ids s"
  "ids (handle_move_file v nx pid a b h s) = ids s"
  "ids (handle_close_file_from_remote B v nx fd h del s) = ids s"
  by (auto simp: handle_save_file_def handle_move_file_def handle_close_file_from_remote_def Let_def
      split: sum.splits prod.splits dest!: ids_save_file ids_move_file ids_close_file)

lemma ids_manage:
  "handle_save_file_from_editor B v nx ef s = Some t \<Longrightarrow> ids t = ids s"
  "handle_reset_from_disk_from_editor B v nx ef s = Some t \<Longrightarrow> ids t = ids s"
  "handle_reset_from_disk B v nx doc h s = Some t \<Longrightarrow> ids t = ids s"
  "handle_move_file_from_editor v nx h pid a b s = Some t \<Longrightarrow> ids t = ids s"
  "handle_close_file_from_editor B v nx ef del s = Some t \<Longrightarrow> ids t = ids s"
  "handle_disconnect_from_file nx ef s = Some t \<Longrightarrow> ids t = ids s"
  by (auto simp: handle_save_file_from_editor_def handle_reset_from_disk_from_editor_def
      handle_reset_from_disk_def handle_move_file_from_editor_def handle_close_file_from_editor_def
      handle_disconnect_from_file_def Let_def
      split: run_splits
      dest!: ids_dests ids_save_file ids_move_file ids_close_file ids_reset_doc)

section \<open>The main loop\<close>

lemma ids_when_connected:
  assumes "when_connected nx h f s = Some (t, r)" and "\<And>s t. f s = Some t \<Longrightarrow> ids t = ids s"
  shows "ids t = ids s"
  using assms(1)
  by (auto simp: when_connected_def check_connection_def
      split: run_splits dest!: ids_dests assms(2))

lemma ids_answer: "answer nx (s, x) = Some (t, r) \<Longrightarrow> ids t = ids s"
  by (auto simp: answer_def split: run_splits dest!: ids_dests)

lemma ids_declare: "handle_declare_projects ex nx ps s = Some t \<Longrightarrow> ids t = ids s"
  by (auto simp: handle_declare_projects_def split: run_splits dest!: ids_dests)

lemma ids_editor_request:
  assumes "handle_editor_request B v nx rq s = Some (t, r)"
  shows "ids t = ids s"
  using assms
  by (cases rq)
    (auto simp: handle_editor_request_def Let_def handle_connection_state_from_editor_def
      handle_print_history_from_editor_def split: run_splits
      dest!: ids_dests ids_send_ops ids_answer ids_update_config ids_declare ids_editor_files(4) ids_manage(5)
      elim!: ids_when_connected intro: ids_editor_files ids_manage)

lemma ids_editor_message: "handle_editor_message B v m s = Some t \<Longrightarrow> ids t = ids s"
  by (auto simp: handle_editor_message_def handle_editor_notification_def Let_def
      split: editor_message.split_asm editor_notification.split_asm run_splits
      dest!: ids_editor_request ids_dests ids_send_info)

text \<open>A message of a remote host draws an id for that host, or leaves them alone.\<close>

lemma ids_request_file:
  assumes "handle_request_file B v nx fd h mode s = Some t"
  shows "ids t = ids s \<or> ids t = ids (snd (site_id_of h s))"
  using assms
  by (auto simp: handle_request_file_def Let_def
      split: run_splits file_desc.split_asm dest!: ids_serve_file)

lemma ids_resp_or_notif: "resp_or_notif nx x e code note s = Some t \<Longrightarrow> ids t = ids s"
  by (auto simp: resp_or_notif_def split: run_splits dest!: ids_dests)

lemma ids_remote_small [simp]:
  "ids (handle_make_directory v nx fd h s) = ids s"
  "ids (handle_move_file_msg v nx pid a b h s) = ids s"
  "ids (handle_doc_fatal doc x h s) = ids s"
  by (auto simp: handle_make_directory_def handle_move_file_msg_def handle_doc_fatal_def
      split: file_desc.splits sum.splits prod.splits dest!: ids_make_directory)

lemma ids_file_saved: "handle_file_saved nx doc h s = Some t \<Longrightarrow> ids t = ids s"
  by (auto simp: handle_file_saved_def split: run_splits dest!: ids_dests)

lemma ids_broadcast_info' [simp]: "ids (fst (broadcast_info nx i s)) = ids s"
  by (auto simp: broadcast_info_def split: option.splits)

lemma ids_remote_message:
  assumes "handle_remote_message B v h rid body s = Some (t, r)"
  shows "ids t = ids s \<or> ids t = ids (snd (site_id_of h s))"
  using assms
  by (cases body)
    (auto simp: handle_remote_message_def Let_def handle_failed_to_connect_def handle_connection_broke_def
      split: if_split_asm
      dest!: ids_request_file dest: ids_dests ids_snapshot ids_op_from_client ids_op_from_server
        ids_resp_or_notif ids_file_saved ids_manage(3) ids_info_from_server)

lemma ids_run_start: "run_start ex s = Inr t \<Longrightarrow> ids t = ids s"
  by (auto simp: run_start_def split: run_splits)

lemma ids_step:
  assumes "server_step B v ev s = Some t"
  shows "ids t = ids s \<or> (\<exists>h. ids t = ids (snd (site_id_of h s)))"
  using assms
  by (cases ev)
    (auto simp: server_step_def dest: ids_editor_message ids_remote_message ids_signaling_msg ids_reset_doc)

section \<open>The ids stay different\<close>

text \<open>The ids drawn are the numbers from 1 on, in the order of the first requests.\<close>

definition ids_ok :: "'b server \<Rightarrow> bool" where
  "ids_ok s \<longleftrightarrow>
     (let m = sv_site_id_map s in
      sv_site_id s = 0 \<and> distinct (keys m) \<and> sv_next_site_id s = of_nat (length m) + 1 \<and>
      set (map snd m) \<subseteq> of_nat ` {1..length m} \<and>
      (length m < 2 ^ 32 - 1 \<longrightarrow> distinct (map snd m)))"

lemma ids_ok_cong: "ids t = ids s \<Longrightarrow> ids_ok t = ids_ok s"
  by (simp add: ids_ok_def ids_def)

lemma update_new: "k \<notin> fst ` set m \<Longrightarrow> AList.update k v m = m @ [(k, v)]"
  by (induction m) auto

lemma of_nat_fresh:
  assumes "n < 2 ^ 32 - 1" and "i \<le> n"
  shows "(of_nat i :: u32) \<noteq> of_nat n + 1"
proof
  assume "(of_nat i :: u32) = of_nat n + 1"
  then have "(of_nat i :: u32) = of_nat (Suc n)" by (simp add: add.commute)
  then have "unat (of_nat i :: u32) = unat (of_nat (Suc n) :: u32)" by (rule arg_cong)
  then have "i mod 2 ^ 32 = Suc n mod 2 ^ 32" unfolding unat_of_nat by simp
  then show False using assms by simp
qed

lemma ids_ok_site_id_of:
  assumes "ids_ok s"
  shows "ids_ok (snd (site_id_of h s))"
proof (cases "map_of (sv_site_id_map s) h")
  case None
  let ?m = "sv_site_id_map s"
  from None have u: "AList.update h v ?m = ?m @ [(h, v)]" for v
    by (intro update_new) (simp add: map_of_eq_None_iff)
  from assms have ok: "sv_next_site_id s = of_nat (length ?m) + 1"
      "snd ` set ?m \<subseteq> of_nat ` {1..length ?m}"
    by (auto simp: ids_ok_def Let_def)
  have t: "sv_site_id_map (snd (site_id_of h s)) = ?m @ [(h, sv_next_site_id s)]"
      "sv_next_site_id (snd (site_id_of h s)) = sv_next_site_id s + 1"
      "sv_site_id (snd (site_id_of h s)) = sv_site_id s"
    using None u by (simp_all add: site_id_of_def)
  have fresh: "sv_next_site_id s \<notin> snd ` set ?m" if "length ?m < 2 ^ 32 - 1"
    using ok of_nat_fresh [OF that] by fastforce
  have "sv_next_site_id s \<in> of_nat ` {1..Suc (length ?m)}"
    using ok(1) by (auto intro!: image_eqI [of _ _ "Suc (length ?m)"] simp: add.commute)
  moreover have "of_nat ` {1..length ?m} \<subseteq> (of_nat :: nat \<Rightarrow> u32) ` {1..Suc (length ?m)}" by auto
  moreover have "h \<notin> fst ` set ?m" using None by (simp add: map_of_eq_None_iff)
  ultimately show ?thesis
    using assms fresh ok unfolding ids_ok_def Let_def t keys_def by (auto simp: add.commute)
qed (use assms in \<open>simp add: site_id_of_def\<close>)

lemma ids_ok_start: "ids_ok (server_new_with_keycert h n c k)"
  by (simp add: ids_ok_def server_new_with_keycert_def keys_def)

lemma ids_ok_reachable: "server_reachable B s \<Longrightarrow> ids_ok s"
proof (induction rule: server_reachable.induct)
  case (step s v ev t)
  with ids_step [OF step.hyps(2)] ids_ok_site_id_of [OF step.IH] show ?case
    using ids_ok_cong by metis
qed (auto simp: ids_ok_start ids_ok_cong [OF ids_run_start] ids_ok_cong [OF ids_init_for_envoy])

end
