(* ===== verification/Server_Samples.thy ===== *)
theory Server_Samples
  imports Server_Dispatch
begin

text \<open>
  Concrete environments in which the properties of the server are applied: a gap buffer that is a
  list, a disk with one project and a few files, and channels that always work.
\<close>

definition list_gapbuf :: "utext gapbuf_ops" where
  "list_gapbuf =
     \<lparr>gb_new = [], gb_len = length, gb_insert_many = txt_ins,
      gb_drain = (\<lambda>p q b. if q \<le> length b then Some (take p b @ drop q b) else None),
      gb_iter = (\<lambda>b. b)\<rparr>"

lemma list_gapbuf_laws: "gapbuf_laws list_gapbuf"
  by (auto simp: gapbuf_laws_def list_gapbuf_def option.map_ident)

text \<open>The files on disk, their content, and a diff that replaces everything.\<close>

definition sample_files :: "(path_buf \<times> utext) list" where
  "sample_files = [(''/p/a'', [97, 98]), (''/p/e'', [233]), (''/f'', [120])]"

definition replace_all :: "utext \<Rightarrow> utext \<Rightarrow> chunk list" where
  "replace_all a b = (if a = b then [Equal a] else [Delete a, Insert b])"

definition sample_disk :: "(path_buf \<times> utext) list \<Rightarrow> disk_env" where
  "sample_disk files =
     \<lparr>de_now = 7, de_read = (\<lambda>p. case map_of files p of Some c \<Rightarrow> Inr c | None \<Rightarrow> Inl (lit ''no file'')),
      de_diff = replace_all\<rparr>"

definition sample_file_env :: "(path_buf \<times> utext) list \<Rightarrow> file_env" where
  "sample_file_env files =
     \<lparr>fv_disk = sample_disk files, fv_canon = (\<lambda>p. Some p), fv_exists = (\<lambda>p. map_of files p \<noteq> None),
      fv_is_dir = (\<lambda>p. if map_of files p \<noteq> None then Some False else None),
      fv_open = (\<lambda>p create. create \<or> map_of files p \<noteq> None), fv_head = (\<lambda>_. True),
      fv_is_binary = (\<lambda>_. False), fv_seek = (\<lambda>_. True), fv_content = map_of files,
      fv_create_dirs = (\<lambda>_. True), fv_rename = (\<lambda>p q. map_of files p \<noteq> None),
      fv_remove = (\<lambda>_. True), fv_save = (\<lambda>_. Saved), fv_read_dir = (\<lambda>_. None),
      fv_expand = (\<lambda>s. Inr s), fv_diff_paths = (\<lambda>_ _. None)\<rparr>"

definition sample_conn_env :: conn_env where
  "sample_conn_env =
     \<lparr>cv_now = 7, cv_now_secs = 1, cv_bind = (\<lambda>_. None), cv_send = (\<lambda>_ _. None), cv_cid = (\<lambda>_. 5),
      cv_gen_cert = (\<lambda>_. Inl (lit ''none''))\<rparr>"

definition sample_env :: server_env where
  "sample_env =
     \<lparr>ev_file = sample_file_env sample_files, ev_conn = sample_conn_env, ev_cid = 6, ev_save_err = None,
      ev_json_err = (\<lambda>_. None), ev_debug = (\<lambda>_. [])\<rparr>"

text \<open>A server that hosts a project, after its start.\<close>

definition sample_config :: config where
  "sample_config = config_default\<lparr>cf_projects := [\<lparr>cp_name = ''p'', cp_path = ''/p''\<rparr>], cf_host_id := Some ''me''\<rparr>"

definition sample_server :: "utext server" where
  "sample_server = insert_projects (cf_projects sample_config)
     (server_new_with_keycert ''me'' ''me'' sample_config ''h'')"

lemma sample_server_reachable: "server_reachable list_gapbuf sample_server"
proof (rule server_reachable.started [OF server_reachable.start])
  show "run_start (\<lambda>s. Inr s) (server_new_with_keycert ''me'' ''me'' sample_config ''h'') = Inr sample_server"
    by code_simp
qed

text \<open>Runs of the main loop.\<close>

fun server_run :: "server_event list \<Rightarrow> utext server \<Rightarrow> utext server option" where
  "server_run [] s = Some s"
| "server_run (ev # evs) s = Option.bind (server_step list_gapbuf sample_env ev s) (server_run evs)"

lemma server_run_reachable:
  "server_run evs s = Some t \<Longrightarrow> server_reachable list_gapbuf s \<Longrightarrow> server_reachable list_gapbuf t"
  by (induction evs arbitrary: s) (auto simp: bind_eq_Some_conv intro: server_reachable.step)

end
