(* ===== verification/Server_Theorems.thy ===== *)
theory Server_Theorems
  imports Site_Ids Server_Samples
begin

text \<open>
  Properties of the server as a whole: permissions, and the site ids its documents rest on.
\<close>

text \<open>C9: A message that names as its sender a host without the write, create and delete permissions changes
  little: every hosted document keeps its content, engine and file, the permissions stay, and nothing
  is written, created, moved or deleted on disk, with one exception: a greeting saves our own
  configuration, in which the list of trusted hosts is the one in force and all else is as it was.
  (The sender is the host field of the message, which no transport compares with the peer it comes
  from. Document ids must not have wrapped around to one in use.)\<close>

theorem no_permission_no_change:
  assumes "\<not> write_allowed (sv_config s) h" and "\<not> create_allowed (sv_config s) h"
    and "\<not> delete_allowed (sv_config s) h"
    and "map_of (sv_docs s) (sv_next_doc_id s) = None"
    and "handle_remote_message B v h rid body s = Some (t, r)"
  shows "(\<forall>i d. map_of (sv_docs s) i = Some d \<longrightarrow>
           (\<exists>d'. map_of (sv_docs t) i = Some d' \<and> d_engine d' = d_engine d \<and> d_buffer d' = d_buffer d \<and>
              d_abs_filename d' = d_abs_filename d \<and> d_disk_file d' = d_disk_file d)) \<and>
         cf_permission (sv_config t) = cf_permission (sv_config s) \<and>
         (\<exists>outs. sv_out t = sv_out s @ outs \<and> (\<forall>x \<in> set outs. changes_disk x \<longrightarrow>
            (\<exists>hey. body = M_hey hey) \<and>
            x = Save_config ((sv_config s)\<lparr>cf_trusted_hosts := w_trusted (sv_ideal_world s)\<rparr>)))"
proof (cases "\<exists>hey. body = M_hey hey")
  case True
  then obtain hey where body: "body = M_hey hey" by blast
  with assms(5) have "handle_hey (ev_save_err v) h hey s = t" by (simp add: handle_remote_message_def Let_def)
  from hey_effect [OF this] body show ?thesis by auto
next
  case False
  with keeps_remote_message [OF assms(1-3) _ assms(4,5)] show ?thesis
    unfolding keeps_def keeps_docs_def same_content_def by blast
qed

definition guest :: "utext server" where
  "guest = sample_server\<lparr>sv_config := add_permission (sv_config sample_server) ''g''
     \<lparr>pm_write = False, pm_create = False, pm_delete = False\<rparr>\<rparr>"

lemma no_permission_no_change_witness:
  "\<exists>t r. handle_remote_message list_gapbuf sample_env ''g'' (Some 1)
       (M_request_file (ProjectFile ''p'' ''a'') Mode_create) guest = Some (t, r) \<and>
     sv_out t \<noteq> sv_out guest \<and> (\<forall>x \<in> set (sv_out t). \<not> changes_disk x)"
proof -
  have run: "handle_remote_message list_gapbuf sample_env ''g'' (Some 1)
       (M_request_file (ProjectFile ''p'' ''a'') Mode_create) guest \<noteq> None" by code_simp
  then obtain t r where t: "handle_remote_message list_gapbuf sample_env ''g'' (Some 1)
       (M_request_file (ProjectFile ''p'' ''a'') Mode_create) guest = Some (t, r)" by auto
  have h: "\<not> write_allowed (sv_config guest) ''g''" "\<not> create_allowed (sv_config guest) ''g''"
      "\<not> delete_allowed (sv_config guest) ''g''" by code_simp+
  have f: "map_of (sv_docs guest) (sv_next_doc_id guest) = None" by code_simp
  have "map_option (\<lambda>(t, _). length (sv_out t)) (handle_remote_message list_gapbuf sample_env ''g'' (Some 1)
       (M_request_file (ProjectFile ''p'' ''a'') Mode_create) guest) = Some 3" by code_simp
  moreover have "sv_out guest = []" by code_simp
  ultimately show ?thesis using t no_permission_no_change [OF h f t] by auto
qed

text \<open>C25: Site ids tell hosts apart: in every state the server can get into, as long as fewer than \<open>2 ^ 32 - 1\<close>
  hosts have asked for files, two hosts never share a site id, and none has the id of the server's
  own edits or of changes made on disk.\<close>

theorem site_ids_distinct:
  assumes "server_reachable B s" and "length (sv_site_id_map s) < 2 ^ 32 - 1"
    and "map_of (sv_site_id_map s) h1 = Some i" and "map_of (sv_site_id_map s) h2 = Some j"
  shows "(i = j \<longleftrightarrow> h1 = h2) \<and> i \<noteq> 0 \<and> i \<noteq> EXTERNAL_PROCESS_SITE_ID"
proof -
  let ?m = "sv_site_id_map s"
  from ids_ok_reachable [OF assms(1)] assms(2)
  have ok: "distinct (map fst ?m)" "distinct (map snd ?m)" "snd ` set ?m \<subseteq> of_nat ` {1..length ?m}"
    by (auto simp: ids_ok_def keys_def Let_def)
  from assms(3,4) have m: "(h1, i) \<in> set ?m" "(h2, j) \<in> set ?m" by (auto dest: map_of_SomeD)
  with ok(1,2) have "i = j \<longleftrightarrow> h1 = h2" unfolding distinct_map inj_on_def by fastforce
  moreover from m(1) ok(3) obtain k where k: "i = of_nat k" "1 \<le> k" "k \<le> length ?m" by fastforce
  from k(2,3) assms(2) have n: "unat (of_nat k :: u32) = k" by (simp add: unat_of_nat)
  from n k have "i \<noteq> 0" by auto
  moreover have "i \<noteq> EXTERNAL_PROCESS_SITE_ID"
  proof
    assume "i = EXTERNAL_PROCESS_SITE_ID"
    with k(1) have "(of_nat k :: u32) = - 1" by (simp add: EXTERNAL_PROCESS_SITE_ID_def)
    then have "(of_nat (Suc k) :: u32) = 0" unfolding of_nat_Suc by simp
    then have "unat (of_nat (Suc k) :: u32) = 0" by (simp only: unat_0)
    then show False using k(2,3) assms(2) unfolding unat_of_nat by simp
  qed
  ultimately show ?thesis by simp
qed

definition two_guests :: "server_event list" where
  "two_guests = [Ev_remote ''a'' (Some 1) (M_request_file (ProjectFile ''p'' ''a'') Mode_open),
     Ev_remote ''b'' (Some 1) (M_request_file (ProjectFile ''p'' ''a'') Mode_open)]"

lemma site_ids_distinct_witness:
  "\<exists>s :: utext server. server_reachable list_gapbuf s \<and> map_of (sv_site_id_map s) ''a'' = Some 1 \<and>
     map_of (sv_site_id_map s) ''b'' = Some 2 \<and> (1 :: u32) \<noteq> EXTERNAL_PROCESS_SITE_ID"
proof -
  have "map_option (\<lambda>s. (map_of (sv_site_id_map s) ''a'', map_of (sv_site_id_map s) ''b'',
      length (sv_site_id_map s))) (server_run two_guests sample_server) = Some (Some 1, Some 2, 2)"
    by code_simp
  then obtain s where s: "server_run two_guests sample_server = Some s"
      "map_of (sv_site_id_map s) ''a'' = Some 1" "map_of (sv_site_id_map s) ''b'' = Some 2"
      "length (sv_site_id_map s) = 2" by auto
  from server_run_reachable [OF s(1) sample_server_reachable] have r: "server_reachable list_gapbuf s" .
  from site_ids_distinct [OF r _ s(2,3)] s(4) have "(1 :: u32) \<noteq> EXTERNAL_PROCESS_SITE_ID" by simp
  with r s show ?thesis by auto
qed

end
