(* ===== verification/Host_Refines.thy ===== *)
theory Host_Refines
  imports Server_Frame Convergence
begin

text \<open>
  The host's handlers against the session of \<open>Network\<close>: a hosted document is the host of a session,
  and \<open>handle_op_from_client\<close> and \<open>handle_request_ops\<close> are its step \<open>serve_net\<close>, with the ops the
  step puts on the channels of the sites sent to their hosts.
\<close>

section \<open>Buffers\<close>

lemma gapbuf_insert:
  assumes "gapbuf_laws B" and "txt_ins p s (gb_iter B b) = Some v"
  shows "\<exists>b'. gb_insert_many B p s b = Some b' \<and> gb_iter B b' = v"
proof -
  have "map_option (gb_iter B) (gb_insert_many B p s b) = Some v"
    using assms by (simp add: gapbuf_laws_def)
  then show ?thesis by auto
qed

lemma gapbuf_delete:
  assumes "gapbuf_laws B" and "txt_del p s (gb_iter B b) = Some v"
  shows "\<exists>b'. gb_drain B p (p + length s) b = Some b' \<and> gb_iter B b' = v"
proof -
  have "map_option (gb_iter B) (gb_drain B p (p + length s) b) = Some v"
    using assms by (auto simp: gapbuf_laws_def txt_del_def split: if_splits)
  then show ?thesis by auto
qed

lemma gapbuf_len: "gapbuf_laws B \<Longrightarrow> gb_len B b = length (gb_iter B b)"
  by (simp add: gapbuf_laws_def)

lemma buffer_of_ok: "gapbuf_laws B \<Longrightarrow> \<exists>b. buffer_of B s = Some b \<and> gb_iter B b = s"
  using gapbuf_insert [of B 0 s "gb_new B" s] by (simp add: buffer_of_def gapbuf_laws_def txt_ins_def)

lemma insert_edits_snoc:
  "insert_edits B (es @ [e]) b =
     do { (b, r) \<leftarrow> insert_edits B es b; (case r of Inl x \<Rightarrow> Some (b, Inl x) | Inr _ \<Rightarrow> insert_edits B [e] b) }"
  by (induction es arbitrary: b) (auto split: bind_splits)

lemma delete_edits_snoc:
  "delete_edits B (es @ [e]) b = Option.bind (delete_edits B es b) (delete_edits B [e])"
  by (induction es arbitrary: b) (auto split: bind_splits)

lemma run_edits_Cons:
  "run_edits f (map edit_pair (e # es)) v =
     Option.bind (run_edits f (map edit_pair es) v) (f (ed_pos e) (ed_content e))"
  by (simp add: edit_pair_def)

lemma insert_edits_view:
  assumes "gapbuf_laws B" and "run_edits txt_ins (map edit_pair es) (gb_iter B b) = Some v"
  shows "\<exists>b'. insert_edits B (rev es) b = Some (b', Inr ()) \<and> gb_iter B b' = v"
  using assms(2)
proof (induction es arbitrary: v)
  case (Cons e es)
  then obtain w where w: "run_edits txt_ins (map edit_pair es) (gb_iter B b) = Some w"
      "txt_ins (ed_pos e) (ed_content e) w = Some v"
    unfolding run_edits_Cons bind_eq_Some_conv by blast
  from Cons.IH [OF w(1)] obtain b1 where b1: "insert_edits B (rev es) b = Some (b1, Inr ())" "gb_iter B b1 = w"
    by blast
  from gapbuf_insert [OF assms(1), of _ _ b1] w(2) b1(2) obtain b2 where
    "gb_insert_many B (ed_pos e) (ed_content e) b1 = Some b2" "gb_iter B b2 = v" by blast
  moreover have "ed_pos e \<le> gb_len B b1"
    using w(2) b1(2) gapbuf_len [OF assms(1)] by (auto simp: txt_ins_def split: if_splits)
  ultimately show ?case using b1(1) by (simp add: insert_edits_snoc)
qed simp

lemma delete_edits_view:
  assumes "gapbuf_laws B" and "run_edits txt_del (map edit_pair es) (gb_iter B b) = Some v"
  shows "\<exists>b'. delete_edits B (rev es) b = Some b' \<and> gb_iter B b' = v"
  using assms(2)
proof (induction es arbitrary: v)
  case (Cons e es)
  then obtain w where w: "run_edits txt_del (map edit_pair es) (gb_iter B b) = Some w"
      "txt_del (ed_pos e) (ed_content e) w = Some v"
    unfolding run_edits_Cons bind_eq_Some_conv by blast
  from Cons.IH [OF w(1)] obtain b1 where b1: "delete_edits B (rev es) b = Some b1" "gb_iter B b1 = w"
    by blast
  from gapbuf_delete [OF assms(1), of _ _ b1] w(2) b1(2) obtain b2 where
    "gb_drain B (ed_pos e) (ed_pos e + length (ed_content e)) b1 = Some b2" "gb_iter B b2 = v" by blast
  then show ?case using b1(1) by (simp add: delete_edits_snoc)
qed simp

lemma edit_buffer_view:
  assumes "gapbuf_laws B" and "edit_view instr (gb_iter B b) = Some v"
  shows "\<exists>b'. edit_buffer B instr b = Some (b', Inr ()) \<and> gb_iter B b' = v"
proof (cases instr)
  case (InsEdits es)
  with insert_edits_view [OF assms(1), of es b v] assms(2) show ?thesis by simp
next
  case (DelEdits es)
  with delete_edits_view [OF assms(1), of es b v] assms(2) show ?thesis by auto
qed

section \<open>Ops on a hosted document\<close>

lemma apply_op_ok:
  assumes "gapbuf_laws B" and "represents (se_doc (d_engine d)) cs" and "gb_iter B (d_buffer d) = visible cs"
    and "op_agrees cs (fo_op f)"
  shows "\<exists>instr k b. convert_internal_op_and_apply (se_doc (d_engine d)) (fo_op f) = Some (instr, k) \<and>
    edit_view instr (visible cs) = Some (gb_iter B b) \<and>
    apply_op B d f = Some (d\<lparr>d_engine := (d_engine d)\<lparr>se_doc := k\<rparr>, d_buffer := b\<rparr>, Inr ()) \<and>
    represents k (t_apply (fo_op f) cs) \<and> gb_iter B b = visible (t_apply (fo_op f) cs)"
proof -
  from idoc.conv_ok [OF assms(2,4)] obtain instr k where k:
      "convert_internal_op_and_apply (se_doc (d_engine d)) (fo_op f) = Some (instr, k)"
      "represents k (t_apply (fo_op f) cs)"
      "edit_view instr (visible cs) = Some (visible (t_apply (fo_op f) cs))" by blast
  from edit_buffer_view [OF assms(1)] k(3) assms(3) obtain b where b:
      "edit_buffer B instr (d_buffer d) = Some (b, Inr ())" "gb_iter B b = visible (t_apply (fo_op f) cs)"
    by metis
  have "editor_len k = gb_len B b"
    using b(2) represents_live_total [OF k(2)] gapbuf_len [OF assms(1)] by (simp add: editor_len_eq)
  with k b show ?thesis
    by (intro exI [of _ instr] exI [of _ k] exI [of _ b])
      (simp add: apply_op_def server_convert_and_apply_def Let_def)
qed

lemma apply_ops_run:
  assumes "gapbuf_laws B" and "represents (se_doc (d_engine d)) cs" and "gb_iter B (d_buffer d) = visible cs"
    and "fits_ops t_apply op_agrees fs cs"
  shows "\<exists>instrs k b. run_conv convert_internal_op_and_apply (se_doc (d_engine d)) fs = Some (instrs, k) \<and>
    view_edits instrs (visible cs) = Some (gb_iter B b) \<and> editor_len k = length (gb_iter B b) \<and>
    apply_ops B d fs = Some (d\<lparr>d_engine := (d_engine d)\<lparr>se_doc := k\<rparr>, d_buffer := b\<rparr>, Inr ())"
  using assms(2-4)
proof (induction fs arbitrary: d cs)
  case Nil
  then show ?case
    using represents_live_total [OF Nil(1)]
    by (intro exI [of _ "[]"] exI [of _ "se_doc (d_engine d)"] exI [of _ "d_buffer d"])
      (simp add: editor_len_eq)
next
  case (Cons f fs)
  then have "op_agrees cs (fo_op f)" by simp
  from apply_op_ok [OF assms(1) Cons.prems(1,2) this] obtain instr k b where k:
      "convert_internal_op_and_apply (se_doc (d_engine d)) (fo_op f) = Some (instr, k)"
      "edit_view instr (visible cs) = Some (gb_iter B b)"
      "apply_op B d f = Some (d\<lparr>d_engine := (d_engine d)\<lparr>se_doc := k\<rparr>, d_buffer := b\<rparr>, Inr ())"
      "represents k (t_apply (fo_op f) cs)" "gb_iter B b = visible (t_apply (fo_op f) cs)" by blast
  let ?d = "d\<lparr>d_engine := (d_engine d)\<lparr>se_doc := k\<rparr>, d_buffer := b\<rparr>"
  from Cons.IH [of ?d "t_apply (fo_op f) cs"] k(4,5) Cons.prems(3) obtain instrs k2 b2 where
      "run_conv convert_internal_op_and_apply k fs = Some (instrs, k2)"
      "view_edits instrs (gb_iter B b) = Some (gb_iter B b2)" "editor_len k2 = length (gb_iter B b2)"
      "apply_ops B ?d fs = Some (d\<lparr>d_engine := (d_engine d)\<lparr>se_doc := k2\<rparr>, d_buffer := b2\<rparr>, Inr ())" by auto
  with k(1-3) show ?case by (intro exI [of _ "instr # instrs"] exI [of _ k2] exI [of _ b2]) simp
qed

section \<open>A hosted document is the host of a session\<close>

text \<open>The site id of a host: our own, or the one it was given.\<close>

definition site_of :: "'b server \<Rightarrow> server_id \<Rightarrow> site_id option" where
  "site_of s h = (if h = sv_host_id s then Some (sv_site_id s) else map_of (sv_site_id_map s) h)"

definition hosts :: "'b gapbuf_ops \<Rightarrow> doc_id \<Rightarrow> 'b server \<Rightarrow> net \<Rightarrow> bool" where
  "hosts B doc s n \<longleftrightarrow>
     inj_on (site_of s) (dom (site_of s)) \<and>
     (\<exists>d. map_of (sv_docs s) doc = Some d \<and> d_engine d = n_server n \<and> gb_iter B (d_buffer d) = n_text n \<and>
        distinct (keys (d_subscribers d)) \<and>
        (\<forall>h. map_of (d_subscribers d) h = Option.bind (site_of s h) (n_subs n)))"

text \<open>The ops of a document among the messages to a host.\<close>

fun ops_in :: "doc_id \<Rightarrow> server_id \<Rightarrow> out \<Rightarrow> op fat_op list" where
  "ops_in doc h (To_remote h' _ (M_op_from_server doc' ops)) = (if h' = h \<and> doc' = doc then ops else [])"
| "ops_in doc h _ = []"

definition ops_sent :: "doc_id \<Rightarrow> server_id \<Rightarrow> out list \<Rightarrow> op fat_op list" where
  "ops_sent doc h outs = concat (map (ops_in doc h) outs)"

text \<open>The messages of a session as messages between servers.\<close>

fun up_body :: "doc_id \<Rightarrow> up_msg \<Rightarrow> msg" where
  "up_body doc (Request_ops after) = M_request_ops doc after"
| "up_body doc (Op_from_client co) = M_op_from_client co"

fun about_doc :: "doc_id \<Rightarrow> up_msg \<Rightarrow> bool" where
  "about_doc doc (Request_ops _) \<longleftrightarrow> True"
| "about_doc doc (Op_from_client co) \<longleftrightarrow> co_doc co = doc"

text \<open>
  What the handler sends is what the step puts on the channels: ops of the document, to hosts whose
  sites subscribe to it.
\<close>

definition delivers :: "doc_id \<Rightarrow> 'b server \<Rightarrow> 'b server \<Rightarrow> net \<Rightarrow> net \<Rightarrow> bool" where
  "delivers doc s t n n' \<longleftrightarrow>
     (\<exists>outs. sv_out t = sv_out s @ outs \<and>
        (\<forall>x \<in> set outs. \<exists>h rid ops j. x = To_remote h rid (M_op_from_server doc ops) \<and>
           site_of s h = Some j \<and> n_subs n' j \<noteq> None) \<and>
        (\<forall>h j p. site_of s h = Some j \<longrightarrow> n_peers n j = Some p \<longrightarrow>
           (\<exists>p'. n_peers n' j = Some p' \<and> p_down p' = p_down p @ ops_sent doc h outs)))"

lemma deliversI:
  assumes "sv_out t = sv_out s @ outs"
    and "\<And>x. x \<in> set outs \<Longrightarrow> \<exists>h rid ops j. x = To_remote h rid (M_op_from_server doc ops) \<and>
      site_of s h = Some j \<and> n_subs n' j \<noteq> None"
    and "\<And>h j p. site_of s h = Some j \<Longrightarrow> n_peers n j = Some p \<Longrightarrow>
      \<exists>p'. n_peers n' j = Some p' \<and> p_down p' = p_down p @ ops_sent doc h outs"
  shows "delivers doc s t n n'"
  using assms unfolding delivers_def by blast

lemma ops_sent_Nil [simp]: "ops_sent doc h [] = []"
  by (simp add: ops_sent_def)

lemma ops_sent_broadcast:
  "distinct hs \<Longrightarrow>
     ops_sent doc h (map (\<lambda>h. To_remote h rid (M_op_from_server doc ops)) hs) = (if h \<in> set hs then ops else [])"
  by (induction hs) (auto simp: ops_sent_def)

lemma site_of_simps [simp]:
  "site_of (set_doc doc d s) = site_of s" "site_of (send_to_remote nx h m s) = site_of s"
  "site_of (send_to_all nx hs m s) = site_of s"
  by (auto simp: fun_eq_iff site_of_def set_doc_def send_to_remote_def emit_def send_to_all_eq)

lemma set_doc_lookup:
  "map_of (sv_docs s) doc = Some d \<Longrightarrow> map_of (sv_docs (set_doc doc d' s)) doc = Some d'"
  by (simp add: set_doc_def)

lemma sends_keep_docs [simp]:
  "sv_docs (send_to_remote nx h m s) = sv_docs s" "sv_docs (send_to_all nx hs m s) = sv_docs s"
  by (simp_all add: send_to_remote_def emit_def send_to_all_eq)

text \<open>A subscriber whose number is recorded.\<close>

lemma subscribers_update:
  assumes "inj_on (site_of s) (dom (site_of s))" and "site_of s h = Some i"
    and "\<forall>h. map_of (d_subscribers d) h = Option.bind (site_of s h) (n_subs n)"
  shows "map_of (AList.update h q (d_subscribers d)) h' = Option.bind (site_of s h') ((n_subs n)(i := Some q))"
proof (cases "h' = h")
  case False
  then have "site_of s h' \<noteq> Some i" using assms(1,2) by (metis domI inj_onD)
  then show ?thesis using assms(3) False by (cases "site_of s h'") auto
qed (use assms in simp)

section \<open>Requests for ops\<close>

lemma request_ops_refines:
  assumes "hosts B doc s n" and "site_of s h = Some i" and "n_peers n i = Some p"
    and "p_up p = Request_ops after # rest"
  shows "\<exists>n'. serve_net n i = Some n' \<and> hosts B doc (handle_request_ops nx doc after h s) n' \<and>
    delivers doc s (handle_request_ops nx doc after h s) n n'"
proof -
  from assms(1) obtain d where d: "map_of (sv_docs s) doc = Some d" "d_engine d = n_server n"
      "gb_iter B (d_buffer d) = n_text n" "distinct (keys (d_subscribers d))"
      "\<forall>h. map_of (d_subscribers d) h = Option.bind (site_of s h) (n_subs n)"
      "inj_on (site_of s) (dom (site_of s))"
    by (auto simp: hosts_def)
  let ?d = "d\<lparr>d_subscribers := AList.update h 0 (d_subscribers d)\<rparr>"
  let ?ops = "global_ops_after (n_server n) after"
  let ?t = "handle_request_ops nx doc after h s"
  let ?n = "(set_peer n i (p\<lparr>p_up := rest, p_down := p_down p @ ?ops\<rparr>))\<lparr>n_subs := (n_subs n)(i := Some 0)\<rparr>"
  have n': "serve_net n i = Some ?n" using assms(3,4) by (simp add: serve_net_def)
  have t: "?t = (let s = set_doc doc ?d s in
      if ?ops \<noteq> [] then send_to_remote nx h (M_op_from_server doc ?ops) s else s)"
    using d(1,2) by (simp add: handle_request_ops_def Let_def)
  have "hosts B doc ?t ?n"
    using d set_doc_lookup [OF d(1), of ?d] subscribers_update [OF d(6) assms(2) d(5)]
    by (simp add: hosts_def t Let_def set_peer_def keys_update)
  moreover have "delivers doc s ?t n ?n"
  proof (rule deliversI)
    let ?outs = "if ?ops \<noteq> [] then [To_remote h (nx_req_id nx) (M_op_from_server doc ?ops)] else []"
    show "sv_out ?t = sv_out s @ ?outs"
      by (simp add: t Let_def send_to_remote_def emit_def set_doc_def)
    show "\<exists>h rid ops j. x = To_remote h rid (M_op_from_server doc ops) \<and> site_of s h = Some j \<and> n_subs ?n j \<noteq> None"
      if "x \<in> set ?outs" for x
      using that assms(2) by (auto split: if_split_asm)
    fix h' j p' assume j: "site_of s h' = Some j" "n_peers n j = Some p'"
    show "\<exists>p''. n_peers ?n j = Some p'' \<and> p_down p'' = p_down p' @ ops_sent doc h' ?outs"
    proof (cases "j = i")
      case True
      with j(1) assms(2) d(6) have "h' = h" by (metis domI inj_onD)
      with True j assms(3) show ?thesis by (auto simp: set_peer_def ops_sent_def)
    next
      case False
      with j(1) assms(2) have "h' \<noteq> h" by auto
      with False j show ?thesis by (auto simp: set_peer_def ops_sent_def)
    qed
  qed
  ultimately show ?thesis using n' by blast
qed

section \<open>Ops of a client\<close>

lemma op_from_client_refines:
  assumes B: "gapbuf_laws B" and ok: "net_ok text0 n" and h: "hosts B doc s n" "site_of s h = Some i"
    and p: "n_peers n i = Some p" "p_up p = Op_from_client co # rest"
    and may: "co_doc co = doc" "write_allowed (sv_config s) h"
  shows "\<exists>t n'. handle_op_from_client B nx co h s = Some (t, Inr ()) \<and> serve_net n i = Some n' \<and>
    hosts B doc t n' \<and> delivers doc s t n n'"
proof -
  let ?D = "start_cells text0" and ?G = "n_ops n" and ?c = "p_client p"
  from h(1) obtain d where d: "map_of (sv_docs s) doc = Some d" "d_engine d = n_server n"
      "gb_iter B (d_buffer d) = n_text n" "distinct (keys (d_subscribers d))"
      "\<forall>h. map_of (d_subscribers d) h = Option.bind (site_of s h) (n_subs n)"
      "inj_on (site_of s) (dom (site_of s))"
    by (auto simp: hosts_def)
  note po = net_okD(2) [OF ok p(1)] and so = net_okD(1) [OF ok p(1)]
  obtain A N where a: "site_ok ?D ?G i p" "channel_ok ?D ?G i (n_subs n i) p A"
    using po by (auto simp: peer_ok_def)
  obtain q where sub: "n_subs n i = Some q" and w: "on_the_way ?D ?G i (ce_seq ?c) q (ce_sent ?c) A co"
    using a(2) p(2) by (auto simp: channel_ok_def Let_def split: option.splits)
  have k: "ce_seq ?c \<le> length ?G" using a(1) by (simp add: site_ok_def Let_def)
  obtain P e where sp: "server_process_ops (n_server n) (co_ops co) (co_context co) = (P, e)" by fastforce
  note hf = host_fits [OF so w k sp]
  have seqs: "map fo_site_seq (co_ops co) = [Suc q ..< Suc (ce_sent ?c)]" and ne: "co_ops co \<noteq> []"
    using w by (simp_all add: on_the_way_def)
  then have lt: "Suc q < Suc (ce_sent ?c)" by (metis map_is_Nil_conv upt_eq_Nil_conv not_le)
  have hd: "fo_site_seq (hd (co_ops co)) = q + 1"
    using arg_cong [OF seqs, of hd] ne lt by (simp add: hd_map del: upt_Suc)
  let ?q = "fo_site_seq (last (co_ops co))"
  let ?d1 = "d\<lparr>d_engine := e, d_subscribers := AList.update h ?q (d_subscribers d)\<rparr>"
  from apply_ops_run [OF B, of ?d1, OF _ _ hf(3)] hf(1,2) d(3) obtain instrs k2 b where r:
      "run_conv convert_internal_op_and_apply (se_doc e) P = Some (instrs, k2)"
      "view_edits instrs (n_text n) = Some (gb_iter B b)" "editor_len k2 = length (gb_iter B b)"
      "apply_ops B ?d1 P = Some (?d1\<lparr>d_engine := e\<lparr>se_doc := k2\<rparr>, d_buffer := b\<rparr>, Inr ())" by auto
  let ?d = "?d1\<lparr>d_engine := e\<lparr>se_doc := k2\<rparr>, d_buffer := b\<rparr>"
  let ?hs = "keys (d_subscribers ?d)"
  let ?t = "send_to_all nx ?hs (M_op_from_server doc P) (set_doc doc ?d s)"
  let ?n = "broadcast ((set_peer n i (p\<lparr>p_up := rest\<rparr>))\<lparr>n_server := e\<lparr>se_doc := k2\<rparr>, n_text := gb_iter B b,
    n_subs := (n_subs n)(i := Some ?q)\<rparr>) P"
  have sq: "map_of (d_subscribers d) h = Some q" using d(5) h(2) sub by simp
  have gap: "site_seq_gap (co_ops co) (Suc q) = None"
    using hd ne by (cases "co_ops co") (simp_all add: site_seq_gap_def)
  have pc: "process_client_ops B h co d = Some (?d, P, Inr ())"
    using sp r(4) ne d(2) by (simp add: process_client_ops_def Let_def)
  have t: "handle_op_from_client B nx co h s = Some (?t, Inr ())"
    using may d(1) sq gap pc by (simp add: handle_op_from_client_def Let_def)
  have n': "serve_net n i = Some ?n"
    using p sub hd ne sp r(1-3) by (cases "co_ops co") (simp_all add: serve_net_def)
  have subs: "map_of (d_subscribers ?d) h' = Option.bind (site_of s h') (n_subs ?n)" for h'
    using subscribers_update [OF d(6) h(2) d(5), of ?q h'] by simp
  have "hosts B doc ?t ?n"
    using d(4,6) set_doc_lookup [OF d(1), of ?d] subs by (simp add: hosts_def keys_update)
  moreover have "delivers doc s ?t n ?n"
  proof (rule deliversI)
    show "sv_out ?t = sv_out s @ map (\<lambda>h. To_remote h (nx_req_id nx) (M_op_from_server doc P)) ?hs"
      by (simp add: send_to_all_eq set_doc_def)
    show "\<exists>h rid ops j. x = To_remote h rid (M_op_from_server doc ops) \<and> site_of s h = Some j \<and> n_subs ?n j \<noteq> None"
      if x: "x \<in> set (map (\<lambda>h. To_remote h (nx_req_id nx) (M_op_from_server doc P)) ?hs)" for x
    proof -
      obtain h' where x: "x = To_remote h' (nx_req_id nx) (M_op_from_server doc P)" "h' \<in> set ?hs"
        using x unfolding set_map by blast
      then have "map_of (d_subscribers ?d) h' \<noteq> None" unfolding set_keys by blast
      then have "Option.bind (site_of s h') (n_subs ?n) \<noteq> None" unfolding subs .
      with x(1) show ?thesis by (auto simp: bind_eq_Some_conv)
    qed
    fix h' j p' assume j: "site_of s h' = Some j" "n_peers n j = Some p'"
    have dis: "distinct ?hs" using d(4) by (simp add: keys_update)
    have "n_subs ?n j = map_of (d_subscribers ?d) h'" unfolding subs j(1) by simp
    then have "h' \<in> set ?hs \<longleftrightarrow> n_subs ?n j \<noteq> None" unfolding set_keys by (simp add: domIff)
    then have os: "ops_sent doc h' (map (\<lambda>h. To_remote h (nx_req_id nx) (M_op_from_server doc P)) ?hs) =
        (if n_subs ?n j \<noteq> None then P else [])"
      by (simp only: ops_sent_broadcast [OF dis])
    show "\<exists>p''. n_peers ?n j = Some p'' \<and> p_down p'' = p_down p' @
        ops_sent doc h' (map (\<lambda>h. To_remote h (nx_req_id nx) (M_op_from_server doc P)) ?hs)"
      unfolding os using j p(1) by (auto simp: set_peer_def)
  qed
  ultimately show ?thesis using t n' by blast
qed

end
