(* ===== verification/Client_Refines.thy ===== *)
theory Client_Refines
  imports Host_Refines
begin

text \<open>
  The client's handlers against the session of \<open>Network\<close>: a remote document is a site of a session.
  \<open>handle_op_from_server\<close> moves ops from the channel into the document's own buffer of remote ops;
  \<open>handle_send_ops_from_editor\<close> runs the edits, takes what is buffered and sends what is pending.
\<close>

section \<open>A remote document is a site\<close>

definition copy_of :: "'b gapbuf_ops \<Rightarrow> 'b remote_doc \<Rightarrow> peer \<Rightarrow> bool" where
  "copy_of B rd p \<longleftrightarrow>
     r_engine rd = p_client p \<and> gb_iter B (r_buffer rd) = p_buffer p \<and>
     r_next_site_seq rd = ce_site_seq (p_client p) + 1"

text \<open>The ops on the way to the site are those it has buffered and then \<open>later\<close>, still to arrive.\<close>

definition opens ::
  "'b gapbuf_ops \<Rightarrow> doc_id \<Rightarrow> editor_file_desc \<Rightarrow> 'b server \<Rightarrow> peer \<Rightarrow> op fat_op list \<Rightarrow> bool" where
  "opens B doc ef s p later \<longleftrightarrow>
     (\<exists>rd. get_remote_doc s ef = Some (doc, rd) \<and> copy_of B rd p \<and>
        p_down p = r_remote_op_buffer rd @ later)"

section \<open>Edits\<close>

lemma local_op_keeps_seq:
  assumes "edit_fits e v" and "local_op c e = Some (c', r)"
  shows "ce_site_seq c' = ce_site_seq c"
  using assms
  by (cases e) (auto simp: local_op_def split: if_split_asm bind_split_asm)

lemma process_local_seq:
  assumes "edit_fits (ef_op eop) v" and "process_local_op c eop q = Some (c', Inr instrs)"
  shows "ce_site_seq c' = q"
  using assms local_op_keeps_seq [OF assms(1)]
  by (fastforce simp: process_local_op_def Let_def
      split: if_split_asm bind_split_asm prod.split_asm sum.split_asm)

lemma view_edits_apply:
  assumes "gapbuf_laws B" and "view_edits instrs (gb_iter B (r_buffer rd)) = Some v"
  shows "\<exists>b. apply_instructions B instrs rd = Some (rd\<lparr>r_buffer := b\<rparr>, Inr ()) \<and> gb_iter B b = v"
  using assms(2)
proof (induction instrs arbitrary: rd)
  case Nil
  then show ?case by (intro exI [of _ "r_buffer rd"]) simp
next
  case (Cons i "is")
  then obtain w where w: "edit_view i (gb_iter B (r_buffer rd)) = Some w" "view_edits is w = Some v"
    by (auto simp: bind_eq_Some_conv)
  from edit_buffer_view [OF assms(1) w(1)] obtain b where b:
      "edit_buffer B i (r_buffer rd) = Some (b, Inr ())" "gb_iter B b = w" by blast
  from Cons.IH [of "rd\<lparr>r_buffer := b\<rparr>"] w(2) b show ?case
    by (auto simp: apply_edit_instruction_unchecked_def)
qed

lemma editor_op_refines:
  assumes "gapbuf_laws B" and "n_peers n i = Some p" and "copy_of B rd p"
    and "edit_fits (ef_op eop) (p_buffer p)" and "edit_net n i (ef_op eop) (ef_group_seq eop) = Some n'"
  shows "\<exists>rd' p'. process_editor_op B eop rd = Some (rd', Inr ()) \<and> n_peers n' i = Some p' \<and>
    copy_of B rd' p' \<and> p_down p' = p_down p \<and> p_up p' = p_up p \<and>
    r_remote_op_buffer rd' = r_remote_op_buffer rd"
proof -
  have eop: "\<lparr>ef_op = ef_op eop, ef_group_seq = ef_group_seq eop\<rparr> = eop" by (cases eop) simp
  from assms(2,5) obtain c instrs v where c:
      "process_local_op (p_client p) eop (ce_site_seq (p_client p) + 1) = Some (c, Inr instrs)"
      "view_edits instrs (p_buffer p) = Some v" "editor_len (ce_doc c) = length v"
      "n' = set_peer n i (p\<lparr>p_client := c, p_buffer := v\<rparr>)"
    by (auto simp: edit_net_def eop split: bind_split_asm prod.split_asm sum.split_asm)
  let ?rd = "rd\<lparr>r_next_site_seq := r_next_site_seq rd + 1, r_engine := c\<rparr>"
  from view_edits_apply [OF assms(1), of instrs ?rd v] c(2) assms(3) obtain b where b:
      "apply_instructions B instrs ?rd = Some (?rd\<lparr>r_buffer := b\<rparr>, Inr ())" "gb_iter B b = v"
    by (auto simp: copy_of_def)
  have "ce_site_seq c = ce_site_seq (p_client p) + 1"
    by (rule process_local_seq [OF assms(4) c(1)])
  with c b assms(3) gapbuf_len [OF assms(1)] show ?thesis
    by (intro exI [of _ "?rd\<lparr>r_buffer := b\<rparr>"] exI [of _ "p\<lparr>p_client := c, p_buffer := v\<rparr>"])
      (simp add: process_editor_op_def copy_of_def verify_buffer_engine_sync_def set_peer_def Let_def)
qed

definition edit_actions :: "site_id \<Rightarrow> editor_fat_op list \<Rightarrow> action list" where
  "edit_actions i ops = map (\<lambda>e. A_edit i (ef_op e) (ef_group_seq e)) ops"

lemma editor_ops_refine:
  assumes "gapbuf_laws B" and "n_peers n i = Some p" and "copy_of B rd p"
    and "acts (edit_actions i ops) n = Some n'"
  shows "\<exists>rd' p'. process_editor_ops B ops rd = Some (rd', Inr ()) \<and> n_peers n' i = Some p' \<and>
    copy_of B rd' p' \<and> p_down p' = p_down p \<and> p_up p' = p_up p \<and>
    r_remote_op_buffer rd' = r_remote_op_buffer rd"
  using assms(2-4)
proof (induction ops arbitrary: n p rd)
  case (Cons e es)
  then obtain n1 where n1: "edit_fits (ef_op e) (p_buffer p)"
      "edit_net n i (ef_op e) (ef_group_seq e) = Some n1" "acts (edit_actions i es) n1 = Some n'"
    by (auto simp: edit_actions_def split: if_split_asm bind_split_asm)
  from editor_op_refines [OF assms(1) Cons.prems(1,2) n1(1,2)] obtain rd1 p1 where r1:
      "process_editor_op B e rd = Some (rd1, Inr ())" "n_peers n1 i = Some p1" "copy_of B rd1 p1"
      "p_down p1 = p_down p" "p_up p1 = p_up p" "r_remote_op_buffer rd1 = r_remote_op_buffer rd" by blast
  from Cons.IH [OF r1(2,3) n1(3)] r1 show ?case by fastforce
qed (simp add: edit_actions_def)

section \<open>Taking the buffered ops\<close>

lemma process_remote_seq:
  "process_remote_op c f = Some (c', Inr r) \<Longrightarrow> ce_site_seq c' = ce_site_seq c"
  by (auto simp: process_remote_op_def client_convert_and_apply_def Let_def
      split: option.split_asm if_split_asm list.split_asm prod.split_asm bind_split_asm)

lemma process_remote_global_seq:
  "process_remote_op c f = Some (c', Inr r) \<Longrightarrow> ce_seq c' = ce_seq c + 1"
  by (auto simp: process_remote_op_def client_convert_and_apply_def Let_def
      split: option.split_asm if_split_asm list.split_asm prod.split_asm bind_split_asm)

lemma remote_op_refines:
  assumes "gapbuf_laws B" and "n_peers n i = Some p" and "copy_of B rd p"
    and "p_down p = f # later" and "take_net n i = Some n'"
  shows "\<exists>rd' leans p'. apply_remote_op B f rd = Some (rd', Inr leans) \<and> n_peers n' i = Some p' \<and>
    copy_of B rd' p' \<and> p_down p' = later \<and> p_up p' = p_up p \<and>
    r_remote_op_buffer rd' = r_remote_op_buffer rd \<and>
    view_edits (map el_op leans) (p_buffer p) = Some (p_buffer p') \<and>
    ce_seq (p_client p') = ce_seq (p_client p) + 1"
proof -
  from assms(2,4,5) obtain c r where c: "process_remote_op (p_client p) f = Some (c, Inr r)"
    by (auto simp: take_net_def split: bind_split_asm prod.split_asm sum.split_asm)
  note sq = process_remote_seq [OF c] and gs = process_remote_global_seq [OF c]
  let ?rd = "rd\<lparr>r_engine := c\<rparr>"
  show ?thesis
  proof (cases r)
    case None
    with c sq gs assms(2-5) show ?thesis
      by (intro exI [of _ ?rd] exI [of _ "[]"] exI [of _ "p\<lparr>p_client := c, p_down := later\<rparr>"])
        (auto simp: apply_remote_op_def take_net_def copy_of_def set_peer_def)
  next
    case (Some x)
    obtain lean q where x: "x = (lean, q)" by fastforce
    with c Some assms(2,4,5) obtain v where v: "edit_view (el_op lean) (p_buffer p) = Some v"
        "editor_len (ce_doc c) = length v"
        "n' = set_peer n i (p\<lparr>p_client := c, p_buffer := v, p_down := later\<rparr>)"
      by (auto simp: take_net_def split: bind_split_asm)
    from edit_buffer_view [OF assms(1), of "el_op lean" "r_buffer rd" v] v(1) assms(3) obtain b where b:
        "edit_buffer B (el_op lean) (r_buffer rd) = Some (b, Inr ())" "gb_iter B b = v"
      by (auto simp: copy_of_def)
    with c Some x v sq gs assms(3) gapbuf_len [OF assms(1)] show ?thesis
      by (intro exI [of _ "?rd\<lparr>r_buffer := b\<rparr>"] exI [of _ "[lean]"]
            exI [of _ "p\<lparr>p_client := c, p_buffer := v, p_down := later\<rparr>"])
        (simp add: apply_remote_op_def copy_of_def set_peer_def apply_edit_instruction_def
          apply_edit_instruction_unchecked_def verify_buffer_engine_sync_def Let_def)
  qed
qed

lemma remote_ops_refine:
  assumes "gapbuf_laws B" and "net_ok text0 n" and "n_peers n i = Some p" and "copy_of B rd p"
    and "p_down p = fs @ later"
  shows "\<exists>rd' leans p' n'. apply_remote_ops B fs rd = Some (rd', Inr leans) \<and>
    acts (replicate (length fs) (A_take i)) n = Some n' \<and> n_peers n' i = Some p' \<and>
    copy_of B rd' p' \<and> p_down p' = later \<and> p_up p' = p_up p \<and>
    r_remote_op_buffer rd' = r_remote_op_buffer rd \<and>
    view_edits (map el_op leans) (p_buffer p) = Some (p_buffer p') \<and>
    ce_seq (p_client p') = ce_seq (p_client p) + length fs"
  using assms(2-5)
proof (induction fs arbitrary: n p rd)
  case (Cons f fs)
  from take_ok [OF Cons.prems(1,2)] Cons.prems(4) obtain n1 where n1:
      "take_net n i = Some n1" "net_ok text0 n1" by auto
  from remote_op_refines [OF assms(1) Cons.prems(2,3) _ n1(1)] Cons.prems(4) obtain rd1 l1 p1 where r1:
      "apply_remote_op B f rd = Some (rd1, Inr l1)" "n_peers n1 i = Some p1" "copy_of B rd1 p1"
      "p_down p1 = fs @ later" "p_up p1 = p_up p" "r_remote_op_buffer rd1 = r_remote_op_buffer rd"
      "view_edits (map el_op l1) (p_buffer p) = Some (p_buffer p1)" "ce_seq (p_client p1) = ce_seq (p_client p) + 1" by auto
  from Cons.IH [OF n1(2) r1(2-4)] obtain rd2 l2 p2 n2 where r2:
      "apply_remote_ops B fs rd1 = Some (rd2, Inr l2)" "acts (replicate (length fs) (A_take i)) n1 = Some n2"
      "n_peers n2 i = Some p2" "copy_of B rd2 p2" "p_down p2 = later" "p_up p2 = p_up p1"
      "r_remote_op_buffer rd2 = r_remote_op_buffer rd1"
      "view_edits (map el_op l2) (p_buffer p1) = Some (p_buffer p2)"
      "ce_seq (p_client p2) = ce_seq (p_client p1) + length fs" by blast
  with r1 n1(1) show ?case
    by (intro exI [of _ rd2] exI [of _ "l1 @ l2"] exI [of _ p2] exI [of _ n2]) (simp add: view_edits_append)
qed auto

section \<open>The request of the editor\<close>

lemma acts_append: "acts (as @ bs) n = Option.bind (acts as n) (acts bs)"
  by (induction "as" arbitrary: n) (auto split: bind_splits)

lemma set_remote_doc_lookup:
  assumes "get_remote_doc s ef = Some (doc, rd)" and "h = ef_host_id ef"
  shows "get_remote_doc (set_remote_doc h doc rd' s) ef = Some (doc, rd')"
  using assms
  by (auto simp: get_remote_doc_def get_by_editor_desc_def set_remote_doc_def rd_set_def bind_eq_Some_conv)

lemma send_refines:
  assumes "n_peers n i = Some p" and "maybe_package_local_ops (p_client p) doc = (pkg, c)"
  shows "\<exists>n' p'. (case pkg of None \<Rightarrow> n' = n | Some _ \<Rightarrow> send_net n i doc = Some n') \<and>
    n_peers n' i = Some p' \<and> p_client p' = c \<and> p_buffer p' = p_buffer p \<and> p_down p' = p_down p \<and>
    p_up p' = p_up p @ (case pkg of None \<Rightarrow> [] | Some co \<Rightarrow> [Op_from_client co])"
  using assms
  by (cases pkg)
    (auto simp: send_net_def set_peer_def maybe_package_local_ops_def split: if_split_asm option.split_asm)

lemma package_facts:
  assumes "maybe_package_local_ops c doc = (pkg, c')"
  shows "ce_site_seq c' = ce_site_seq c" and "pkg = Some co \<Longrightarrow> co_doc co = doc" and "ce_seq c' = ce_seq c"
  using assms
  by (auto simp: maybe_package_local_ops_def package_local_ops_def Let_def split: if_split_asm option.split_asm)

lemma acts_net_ok: "net_ok text0 n \<Longrightarrow> acts (edit_actions i ops) n = Some n' \<Longrightarrow> net_ok text0 n'"
proof (induction ops arbitrary: n)
  case (Cons e es)
  then obtain p n1 where n1: "n_peers n i = Some p" "edit_fits (ef_op e) (p_buffer p)"
      "edit_net n i (ef_op e) (ef_group_seq e) = Some n1" "acts (edit_actions i es) n1 = Some n'"
    by (auto simp: edit_actions_def split: if_split_asm bind_split_asm option.split_asm)
  from edit_ok [OF Cons.prems(1) n1(1,2), of "ef_group_seq e"] n1(3) have "net_ok text0 n1" by auto
  from Cons.IH [OF this n1(4)] show ?case .
qed (simp add: edit_actions_def)

lemma sends_keep_remote [simp]:
  "get_remote_doc (send_to_remote_no_req_id h m s) ef = get_remote_doc s ef"
  "get_remote_doc (emit x s) ef = get_remote_doc s ef"
  "sv_out (set_remote_doc h doc rd s) = sv_out s"
  by (simp_all add: get_remote_doc_def send_to_remote_no_req_id_def emit_def set_remote_doc_def)

lemma send_ops_refines:
  assumes B: "gapbuf_laws B" and ok: "net_ok text0 n" and p: "n_peers n i = Some p"
    and o: "opens B doc ef s p later" and e: "acts (edit_actions i ops) n = Some n1"
    and rid: "nx_req_id nx = Some rid"
  shows "\<exists>t k n2 n3 p3 more r.
    handle_send_ops_from_editor B nx ops ef s = Some t \<and>
    acts (replicate k (A_take i)) n1 = Some n2 \<and> (n3 = n2 \<and> more = [] \<or> send_net n2 i doc = Some n3) \<and>
    n_peers n3 i = Some p3 \<and> opens B doc ef t p3 later \<and> p_down p3 = later \<and>
    p_up p3 = p_up p @ more \<and> (\<forall>m \<in> set more. about_doc doc m) \<and>
    sr_doc_len r = length (p_buffer p3) \<and> sr_last_global_seq r = ce_seq (p_client p3) \<and>
    (\<forall>p1. n_peers n1 i = Some p1 \<longrightarrow> view_edits (map el_op (sr_ops r)) (p_buffer p1) = Some (p_buffer p3) \<and>
       sr_last_global_seq r + length later = ce_seq (p_client p1) + length (p_down p)) \<and>
    sv_out t = sv_out s @ map (\<lambda>m. To_remote (ef_host_id ef) None (up_body doc m)) more @
      [Respond rid (SendOpsResp r) None]"
proof -
  let ?h = "ef_host_id ef"
  from o obtain rd where rd: "get_remote_doc s ef = Some (doc, rd)" "copy_of B rd p"
      "p_down p = r_remote_op_buffer rd @ later" by (auto simp: opens_def)
  let ?fs = "r_remote_op_buffer rd" and ?rd0 = "rd\<lparr>r_remote_op_buffer := []\<rparr>"
  have "copy_of B ?rd0 p" using rd(2) by (simp add: copy_of_def)
  from editor_ops_refine [OF B p this e] obtain rd1 p1 where r1:
      "process_editor_ops B ops ?rd0 = Some (rd1, Inr ())" "n_peers n1 i = Some p1" "copy_of B rd1 p1"
      "p_down p1 = p_down p" "p_up p1 = p_up p" "r_remote_op_buffer rd1 = []" by auto
  have "p_down p1 = ?fs @ later" using r1(4) rd(3) by simp
  from remote_ops_refine [OF B acts_net_ok [OF ok e] r1(2,3) this] r1(6) obtain rd2 leans p2 n2 where r2:
      "apply_remote_ops B ?fs rd1 = Some (rd2, Inr leans)" "acts (replicate (length ?fs) (A_take i)) n1 = Some n2"
      "n_peers n2 i = Some p2" "copy_of B rd2 p2" "p_down p2 = later" "p_up p2 = p_up p1"
      "r_remote_op_buffer rd2 = []" "view_edits (map el_op leans) (p_buffer p1) = Some (p_buffer p2)"
      "ce_seq (p_client p2) = ce_seq (p_client p1) + length ?fs" by auto
  obtain pkg c where m: "maybe_package_local_ops (p_client p2) doc = (pkg, c)" by fastforce
  from send_refines [OF r2(3) m] obtain n3 p3 where r3:
      "case pkg of None \<Rightarrow> n3 = n2 | Some _ \<Rightarrow> send_net n2 i doc = Some n3" "n_peers n3 i = Some p3"
      "p_client p3 = c" "p_buffer p3 = p_buffer p2" "p_down p3 = p_down p2"
      "p_up p3 = p_up p2 @ (case pkg of None \<Rightarrow> [] | Some co \<Rightarrow> [Op_from_client co])" by blast
  let ?rd = "rd2\<lparr>r_engine := c\<rparr>"
  let ?s3 = "set_remote_doc ?h doc ?rd (set_remote_doc ?h doc rd2 (set_remote_doc ?h doc rd1 s))"
  let ?s4 = "case pkg of Some co \<Rightarrow> send_to_remote_no_req_id ?h (M_op_from_client co) ?s3 | None \<Rightarrow> ?s3"
  let ?r = "\<lparr>sr_ops = leans, sr_last_global_seq = ce_seq c, sr_pending_local_ops = pending_local_ops c,
    sr_doc_len = gb_len B (r_buffer ?rd)\<rparr>"
  let ?more = "case pkg of None \<Rightarrow> [] | Some co \<Rightarrow> [Op_from_client co]"
  let ?t = "emit (Respond rid (SendOpsResp ?r) None) ?s4"
  have eng: "r_engine rd2 = p_client p2" using r2(4) by (simp add: copy_of_def)
  have t: "handle_send_ops_from_editor B nx ops ef s = Some ?t"
    using rd(1) r1(1) r2(1) m eng rid
    by (simp add: handle_send_ops_from_editor_def Let_def send_resp_def split: option.split)
  have cp: "copy_of B ?rd p3"
    using r2(4) r3(3,4) package_facts(1) [OF m] by (simp add: copy_of_def)
  have l3: "get_remote_doc ?s3 ef = Some (doc, ?rd)"
    by (intro set_remote_doc_lookup [OF set_remote_doc_lookup [OF set_remote_doc_lookup [OF rd(1)]]] refl)
  then have "get_remote_doc ?t ef = Some (doc, ?rd)" by (simp split: option.split)
  then have "opens B doc ef ?t p3 later"
    using cp r2(5,7) r3(5) by (auto simp: opens_def)
  moreover have "sv_out ?t = sv_out s @ map (\<lambda>m. To_remote ?h None (up_body doc m)) ?more @
      [Respond rid (SendOpsResp ?r) None]"
    by (simp add: send_to_remote_no_req_id_def emit_def split: option.split)
  moreover have "\<forall>m \<in> set ?more. about_doc doc m"
    using package_facts(2) [OF m] by (auto split: option.splits)
  moreover have "n3 = n2 \<and> ?more = [] \<or> send_net n2 i doc = Some n3"
    using r3(1) by (cases pkg) auto
  moreover have "sr_doc_len ?r = length (p_buffer p3)" "sr_last_global_seq ?r = ce_seq (p_client p3)"
    using cp gapbuf_len [OF B] r3(3) by (simp_all add: copy_of_def)
  moreover have "\<forall>p1. n_peers n1 i = Some p1 \<longrightarrow> view_edits (map el_op (sr_ops ?r)) (p_buffer p1) = Some (p_buffer p3) \<and>
       sr_last_global_seq ?r + length later = ce_seq (p_client p1) + length (p_down p)"
    using r1(2) r2(8,9) r3(4) rd(3) package_facts(3) [OF m] by simp
  ultimately show ?thesis
    using t r2(2,5,6) r3(2,5,6) r1(5) by (intro exI conjI) (assumption | simp)+
qed

section \<open>Ops arrive\<close>

text \<open>What the host has put on the channel is numbered from the site's own number on.\<close>

lemma down_numbered:
  assumes "net_ok text0 n" and "n_peers n i = Some p" and "j < length (p_down p)"
  shows "fo_seq (p_down p ! j) = Some (ce_seq (p_client p) + j + 1)"
proof -
  let ?D = "start_cells text0" and ?G = "n_ops n" and ?k = "ce_seq (p_client p)"
  obtain A where "channel_ok ?D ?G i (n_subs n i) p A"
    using net_okD(2) [OF assms(1,2)] by (auto simp: peer_ok_def)
  then have "p_down p = drop ?k ?G"
    using assms(3) by (auto simp: channel_ok_def Let_def split: option.splits)
  moreover have "fo_seq (?G ! j) = Some (j + 1)" if "j < length ?G" for j
    using that net_okD(1) [OF assms(1,2)] by (simp add: server_ok_def Let_def)
  ultimately show ?thesis using assms(3) by simp
qed

lemma buffer_ops_all:
  assumes "\<And>j. j < length fs \<Longrightarrow>
      fo_seq (fs ! j) = Some (ce_seq (r_engine rd) + length (r_remote_op_buffer rd) + j + 1)"
  shows "buffer_ops nx doc h fs rd s = (Some (rd\<lparr>r_remote_op_buffer := r_remote_op_buffer rd @ fs\<rparr>), s)"
  using assms
proof (induction fs arbitrary: rd)
  case (Cons f fs)
  let ?rd = "rd\<lparr>r_remote_op_buffer := r_remote_op_buffer rd @ [f]\<rparr>"
  have "fo_seq (fs ! j) = Some (ce_seq (r_engine ?rd) + length (r_remote_op_buffer ?rd) + j + 1)"
    if "j < length fs" for j
    using Cons.prems [of "Suc j"] that by simp
  from Cons.IH [OF this] Cons.prems [of 0] show ?case by simp
qed simp

lemma op_from_server_refines:
  assumes ok: "net_ok text0 n" and p: "n_peers n i = Some p" and o: "opens B doc ef s p (ops @ later)"
  shows "\<exists>t outs. handle_op_from_server nx doc ops (ef_host_id ef) s = Some t \<and> opens B doc ef t p later \<and>
    sv_out t = sv_out s @ outs \<and> (\<forall>x \<in> set outs. \<exists>e. x = Notify RemoteOpsArrived e)"
proof (cases ops)
  case Nil
  with o show ?thesis by (simp add: handle_op_from_server_def)
next
  case (Cons f fs)
  let ?h = "ef_host_id ef"
  from o obtain rd where rd: "get_remote_doc s ef = Some (doc, rd)" "copy_of B rd p"
      "p_down p = r_remote_op_buffer rd @ ops @ later" by (auto simp: opens_def)
  let ?buf = "r_remote_op_buffer rd" and ?rd = "rd\<lparr>r_remote_op_buffer := r_remote_op_buffer rd @ ops\<rparr>"
  have seq: "fo_seq (ops ! j) = Some (ce_seq (r_engine rd) + length ?buf + j + 1)" if "j < length ops" for j
    using down_numbered [OF ok p, of "length ?buf + j"] that rd(2,3)
    by (simp add: copy_of_def nth_append add.assoc)
  have b: "buffer_ops nx doc ?h ops rd s = (Some ?rd, s)" by (rule buffer_ops_all) (rule seq)
  have g: "rd_get (sv_remote_docs s) ?h doc = Some rd"
    using rd(1) by (auto simp: get_remote_doc_def get_by_editor_desc_def rd_get_def bind_eq_Some_conv)
  have last: "fo_seq (last (?buf @ ops)) \<noteq> None"
    using seq [of "length ops - 1"] Cons by (simp add: last_conv_nth)
  let ?s = "set_remote_doc ?h doc ?rd s"
  have "get_remote_doc ?s ef = Some (doc, ?rd)" by (rule set_remote_doc_lookup [OF rd(1) refl])
  then have os: "opens B doc ef ?s p later" using rd(2,3) by (simp add: opens_def copy_of_def)
  then have on: "opens B doc ef (send_notif code e ?s) p later" for code e
    by (simp add: opens_def send_notif_def)
  show ?thesis
  proof (cases "fat_site f \<noteq> ce_site (r_engine rd)")
    case True
    with b g last Cons obtain e where
      "handle_op_from_server nx doc ops ?h s = Some (send_notif RemoteOpsArrived e ?s)"
      by (auto simp: handle_op_from_server_def Let_def simp del: buffer_ops.simps)
    with on show ?thesis by (auto simp: send_notif_def)
  next
    case False
    with b g Cons have "handle_op_from_server nx doc ops ?h s = Some ?s"
      by (simp add: handle_op_from_server_def Let_def del: buffer_ops.simps)
    with os show ?thesis by auto
  qed
qed

end
