(* ===== verification/Open_Refines.thy ===== *)
theory Open_Refines
  imports Client_Refines Site_Ids
begin

text \<open>
  Opening a file starts a session or joins one: a document created from ASCII content is a session
  without sites, and asking for an open file and receiving its snapshot is the step \<open>join_net\<close>.
\<close>

section \<open>Site ids\<close>

lemma site_of_inj:
  assumes "ids_ok s" and "length (sv_site_id_map s) < 2 ^ 32 - 1"
  shows "inj_on (site_of s) (dom (site_of s))"
proof (rule inj_onI)
  let ?m = "sv_site_id_map s"
  from assms have ok: "sv_site_id s = 0" "distinct (map snd ?m)"
      "snd ` set ?m \<subseteq> of_nat ` {1..length ?m}" by (auto simp: ids_ok_def Let_def)
  have nz: "map_of ?m h \<noteq> Some 0" for h
  proof
    assume "map_of ?m h = Some 0"
    then have "(0 :: u32) \<in> snd ` set ?m" by (force dest: map_of_SomeD)
    with ok(3) obtain k where k: "(0 :: u32) = of_nat k" "1 \<le> k" "k \<le> length ?m" by auto
    then have "unat (of_nat k :: u32) = 0" by simp
    then show False using k(2,3) assms(2) unfolding unat_of_nat by simp
  qed
  fix x y assume xy: "x \<in> dom (site_of s)" "y \<in> dom (site_of s)" "site_of s x = site_of s y"
  show "x = y"
  proof (cases "x = sv_host_id s \<or> y = sv_host_id s")
    case True
    then show ?thesis using xy(3) nz ok(1) by (metis site_of_def)
  next
    case False
    with xy obtain j where "map_of ?m x = Some j" "map_of ?m y = Some j"
      by (auto simp: site_of_def)
    then have "(x, j) \<in> set ?m" "(y, j) \<in> set ?m" by (auto dest: map_of_SomeD)
    then show ?thesis using ok(2) unfolding distinct_map inj_on_def by fastforce
  qed
qed

lemma site_id_of_site:
  assumes "site_id_of h s = (i, s1)" and "h \<noteq> sv_host_id s"
  shows "site_of s1 h = Some i" and "h' \<noteq> h \<Longrightarrow> site_of s1 h' = site_of s h'"
    and "site_of s h = None \<or> site_of s h = Some i" and "sv_docs s1 = sv_docs s"
proof -
  have d: "(case map_of (sv_site_id_map s) h of
       Some j \<Rightarrow> i = j \<and> s1 = s
     | None \<Rightarrow> s1 = s\<lparr>sv_next_site_id := sv_next_site_id s + 1,
         sv_site_id_map := AList.update h i (sv_site_id_map s)\<rparr>)"
    using assms(1) by (auto simp: site_id_of_def split: option.split_asm)
  show "site_of s1 h = Some i" "site_of s h = None \<or> site_of s h = Some i" "sv_docs s1 = sv_docs s"
    using d assms(2) by (simp_all add: site_of_def split: option.split_asm)
  show "site_of s1 h' = site_of s h'" if "h' \<noteq> h"
    using d that by (simp add: site_of_def split: option.split_asm)
qed

section \<open>A new document\<close>

lemma create_doc_hosts:
  assumes B: "gapbuf_laws B" and ascii: "list_all (\<lambda>c. c < 128) content"
    and inj: "inj_on (site_of s) (dom (site_of s))"
    and c: "create_doc B v name meta path fd content [] df s = Some (doc, d, t)"
  shows "hosts B doc t (net_start content)"
proof -
  from buffer_of_ok [OF B] obtain b where b: "buffer_of B content = Some b" "gb_iter B b = content" by blast
  from c b have t: "map_of (sv_docs t) doc = Some d" "d_engine d = server_engine_new (length content)"
      "gb_iter B (d_buffer d) = content" "d_subscribers d = []" "ids t = ids s"
    using ascii utf8_len_ascii [of content] ids_create_doc [OF c]
    by (auto simp: create_doc_def doc_new_def Let_def bind_eq_Some_conv)
  then have "site_of t = site_of s" by (auto simp: fun_eq_iff site_of_def ids_def)
  with t inj show ?thesis
    by (simp add: hosts_def net_start_def keys_def Option.bind_eq_None_conv split: Option.bind_splits)
qed

section \<open>Joining\<close>

text \<open>Ops that the host puts on the channel are still to arrive.\<close>

lemma opens_more:
  assumes "opens B doc ef s p later" and "p_client p' = p_client p" and "p_buffer p' = p_buffer p"
    and "p_down p' = p_down p @ fs"
  shows "opens B doc ef s p' (later @ fs)"
  using assms by (auto simp: opens_def copy_of_def)

lemma request_file_refines:
  assumes s: "ids_ok s" "length (sv_site_id_map s1) < 2 ^ 32 - 1"
    and i: "site_id_of h s = (i, s1)" "h \<noteq> sv_host_id s"
    and hs: "hosts B doc s n" "net_ok text0 n" "n_peers n i = None"
    and f: "path_id_from_file_desc s (ProjectFile pid name) = Inr path" "find_doc path (sv_docs s) = Some (doc, d)"
      "distinct (keys (sv_docs s))"
  shows "\<exists>sn n' p. handle_request_file B v nx (ProjectFile pid name) h mode s =
      Some (send_to_remote nx h (M_snapshot sn) s1) \<and>
    join_net n i = Some n' \<and> n_peers n' i = Some p \<and> hosts B doc (send_to_remote nx h (M_snapshot sn) s1) n' \<and>
    sn_doc_id sn = doc \<and> sn_file_desc sn = ProjectFile pid name \<and> sn_content sn = p_buffer p \<and>
    p_client p = client_engine_new (sn_site_id sn) (sn_seq sn) (sn_internal_doc sn) \<and>
    p_up p = [Request_ops (sn_seq sn)] \<and> p_down p = []"
proof -
  note st = site_id_of_site [OF i]
  have ok: "ids_ok s1" using ids_ok_site_id_of [OF s(1), of h] i(1) by simp
  from f(2) have "(doc, d) \<in> set (sv_docs s)" by (auto simp: find_doc_def find_Some_iff) (metis nth_mem)
  with f(3) have m: "map_of (sv_docs s) doc = Some d" by (simp add: keys_def)
  with hs(1) have d: "d_engine d = n_server n" "gb_iter B (d_buffer d) = n_text n" "distinct (keys (d_subscribers d))"
      "\<And>h. map_of (d_subscribers d) h = Option.bind (site_of s h) (n_subs n)" by (auto simp: hosts_def)
  have no: "n_subs n i = None" using hs(2,3) by (simp add: net_ok_def)
  let ?sn = "snapshot_of B doc i (ProjectFile pid name) d"
  let ?p = "\<lparr>p_client = client_engine_new i (se_seq (n_server n)) (se_doc (n_server n)), p_buffer = n_text n,
    p_up = [Request_ops (se_seq (n_server n))], p_down = []\<rparr>"
  have r: "handle_request_file B v nx (ProjectFile pid name) h mode s =
      Some (send_to_remote nx h (M_snapshot ?sn) s1)"
    using f(1,2) i(1) st(4) by (simp add: handle_request_file_def serve_file_def)
  have "map_of (d_subscribers d) h' = Option.bind (site_of s1 h') (n_subs n)" for h'
    using d(4) [of h'] st(1-3) no by (cases "h' = h") auto
  with d m site_of_inj [OF ok s(2)] st(4)
  have "hosts B doc (send_to_remote nx h (M_snapshot ?sn) s1) (set_peer n i ?p)"
    by (simp add: hosts_def set_peer_def)
  moreover have "join_net n i = Some (set_peer n i ?p)" using hs(3) by (simp add: join_net_def Let_def)
  moreover have "n_peers (set_peer n i ?p) i = Some ?p" by (simp add: set_peer_def)
  ultimately show ?thesis
    using r d(1,2)
    by (intro exI [of _ ?sn] exI [of _ "set_peer n i ?p"] exI [of _ ?p] conjI) (assumption | simp add: snapshot_of_def)+
qed

lemma snapshot_refines:
  assumes B: "gapbuf_laws B" and new: "already_opened host (sn_file_desc sn) (sv_remote_docs c) = None"
    and rid: "nx_req_id nx = Some rid"
    and p: "sn_content sn = p_buffer p" "p_client p = client_engine_new (sn_site_id sn) (sn_seq sn) (sn_internal_doc sn)"
      "p_up p = [m]" "m = Request_ops (sn_seq sn)" "p_down p = []"
  shows "\<exists>t r. handle_snapshot B nx sn host c = Some t \<and>
    opens B (sn_doc_id sn) (editor_file_desc_new (sn_file_desc sn) host) t p [] \<and>
    sv_out t = sv_out c @ [Respond rid r None, To_remote host (Some rid) (up_body (sn_doc_id sn) m)]"
proof -
  from buffer_of_ok [OF B] obtain b where b: "buffer_of B (sn_content sn) = Some b" "gb_iter B b = sn_content sn"
    by blast
  let ?ef = "editor_file_desc_new (sn_file_desc sn) host"
  have h: "ef_host_id ?ef = host" by (simp add: editor_file_desc_new_def split: file_desc.split)
  from new rid b(1) obtain t where t: "handle_snapshot B nx sn host c = Some t"
      "sv_out t = sv_out c @ [Respond rid (OpenFileResp (sn_content sn) (sn_site_id sn) (sn_name sn) ?ef) None,
        To_remote host (Some rid) (M_request_ops (sn_doc_id sn) (sn_seq sn))]"
      "get_remote_doc t ?ef = Some (sn_doc_id sn, \<lparr>r_name = sn_name sn, r_file_desc = sn_file_desc sn,
         r_next_site_seq = 1, r_meta = [], r_remote_op_buffer = [],
         r_engine = client_engine_new (sn_site_id sn) (sn_seq sn) (sn_internal_doc sn), r_buffer = b\<rparr>)"
    by (auto simp: handle_snapshot_def new_remote_doc_def insert_remote_doc_def send_resp_def emit_def
        send_to_remote_def get_remote_doc_def get_by_editor_desc_def rd_insert_def h Let_def)
  with p b(2) show ?thesis
    by (auto simp: opens_def copy_of_def client_engine_new_def)
qed

text \<open>Both ends together, through the dispatcher of messages.\<close>

lemma opening_refines:
  assumes "gapbuf_laws B" and "net_ok text0 n" and "hosts B doc s n" and "n_peers n i = None"
    and "site_id_of h s = (i, s1)" and "h \<noteq> sv_host_id s"
    and "ids_ok s" and "length (sv_site_id_map s1) < 2 ^ 32 - 1"
    and "distinct (keys (sv_docs s))" and "path_id_from_file_desc s (ProjectFile pid name) = Inr path"
    and "find_doc path (sv_docs s) = Some (doc, d)"
    and "already_opened host (ProjectFile pid name) (sv_remote_docs c) = None"
  shows "\<exists>sn t n' p c' r m.
    handle_remote_message B v h (Some rid) (M_request_file (ProjectFile pid name) mode) s = Some (t, Inr ()) \<and>
    sv_out t = sv_out s1 @ [To_remote h (Some rid) (M_snapshot sn)] \<and>
    join_net n i = Some n' \<and> hosts B doc t n' \<and> n_peers n' i = Some p \<and> p_up p = [m] \<and>
    handle_remote_message B v' host (Some rid') (M_snapshot sn) c = Some (c', Inr ()) \<and>
    opens B doc (editor_file_desc_new (ProjectFile pid name) host) c' p [] \<and>
    sv_out c' = sv_out c @ [Respond rid' r None, To_remote host (Some rid') (up_body doc m)]"
proof -
  let ?nx = "\<lparr>nx_req_id = Some rid\<rparr>" and ?fd = "ProjectFile pid name"
  let ?s = "\<lambda>sn. send_to_remote ?nx h (M_snapshot sn) s1"
  from request_file_refines [OF assms(7) assms(8,5,6,3) assms(2) assms(4,10,11,9)]
  obtain sn n' p where r: "handle_request_file B (ev_file v) ?nx ?fd h mode s = Some (?s sn)"
      "join_net n i = Some n'" "n_peers n' i = Some p" "hosts B doc (?s sn) n'" "sn_doc_id sn = doc"
      "sn_file_desc sn = ?fd" "sn_content sn = p_buffer p"
      "p_client p = client_engine_new (sn_site_id sn) (sn_seq sn) (sn_internal_doc sn)"
      "p_up p = [Request_ops (sn_seq sn)]" "p_down p = []" by blast
  have nx': "nx_req_id \<lparr>nx_req_id = Some rid'\<rparr> = Some rid'" by simp
  have new: "already_opened host (sn_file_desc sn) (sv_remote_docs c) = None" using assms(12) r(6) by simp
  from snapshot_refines [OF assms(1) new nx' r(7-9) refl r(10)] r(5,6) obtain c' x where c':
      "handle_snapshot B \<lparr>nx_req_id = Some rid'\<rparr> sn host c = Some c'"
      "opens B doc (editor_file_desc_new ?fd host) c' p []"
      "sv_out c' = sv_out c @ [Respond rid' x None, To_remote host (Some rid') (up_body doc (Request_ops (sn_seq sn)))]"
    by auto
  have "sv_out (?s sn) = sv_out s1 @ [To_remote h (Some rid) (M_snapshot sn)]" by (simp add: send_to_remote_def)
  moreover have "handle_remote_message B v h (Some rid) (M_request_file ?fd mode) s = Some (?s sn, Inr ())"
      "handle_remote_message B v' host (Some rid') (M_snapshot sn) c = Some (c', Inr ())"
    using r(1) c'(1) by (simp_all add: handle_remote_message_def Let_def finish_def fine_def)
  ultimately show ?thesis using r(2-4,9) c'(2,3) by blast
qed

end
