(* ===== verification/Refinement_Theorems.thy ===== *)
theory Refinement_Theorems
  imports Open_Refines Server_Samples
begin

text \<open>
  The server implements sessions: its handlers refine the steps of \<open>Network\<close>, for any number of
  documents, hosts and requests around them, so that what holds of sessions holds of the documents
  of the servers.
\<close>

section \<open>The host\<close>

text \<open>C6: The host implements the session: when a message of a site is next on its channel, and the
  permissions of the host let the server of this site write, the handler succeeds, does the session's
  step on the hosted document, and sends each host exactly the ops that the step puts on the channel
  of its site. (Without the permission it answers \<open>PermissionDenied\<close> and does not do the step.)\<close>

theorem host_implements_session:
  assumes "gapbuf_laws B" and "reachable text0 n" and "hosts B doc s n" and "site_of s h = Some i"
    and "n_peers n i = Some p" and "p_up p = m # rest" and "about_doc doc m"
    and "write_allowed (sv_config s) h"
  shows "\<exists>t n'. handle_remote_message B v h rid (up_body doc m) s = Some (t, Inr ()) \<and>
    serve_net n i = Some n' \<and> hosts B doc t n' \<and> delivers doc s t n n'"
proof (cases m)
  case (Request_ops after)
  with request_ops_refines [OF assms(3-5), of after rest "\<lparr>nx_req_id = rid\<rparr>"] assms(6) show ?thesis
    by (auto simp: handle_remote_message_def Let_def)
next
  case (Op_from_client co)
  with op_from_client_refines [OF assms(1) reachable_ok [OF assms(2)] assms(3-5), of co rest "\<lparr>nx_req_id = rid\<rparr>"]
    assms(6-8) show ?thesis
    by (auto simp: handle_remote_message_def Let_def)
qed

text \<open>A server that hosts ''ab'' for a guest.\<close>

definition guest_event :: server_event where
  "guest_event = Ev_remote ''a'' (Some 1) (M_request_file (ProjectFile ''p'' ''a'') Mode_open)"

lemma hosts_client_act:
  assumes "act a n = Some n'" and "\<forall>i. a \<noteq> A_serve i"
  shows "hosts B doc s n' = hosts B doc s n"
proof -
  have "n_server n' = n_server n \<and> n_text n' = n_text n \<and> n_subs n' = n_subs n"
    using assms
    by (cases a) (auto simp: join_net_def edit_net_def send_net_def take_net_def set_peer_def Let_def
        split: option.split_asm if_split_asm bind_split_asm prod.split_asm sum.split_asm list.split_asm)
  then show ?thesis by (simp add: hosts_def)
qed

lemma guest_hosted:
  obtains s where "server_run [guest_event] sample_server = Some s" and "server_reachable list_gapbuf s"
    and "hosts list_gapbuf 1 s (net_start [97, 98])" and "site_of s ''a'' = Some 1"
    and "write_allowed (sv_config s) ''a''"
proof -
  have "map_option (\<lambda>s. (length (sv_site_id_map s), write_allowed (sv_config s) ''a'', site_of s ''a'',
      map_option (\<lambda>d. (d_engine d, d_buffer d, d_subscribers d)) (map_of (sv_docs s) 1)))
    (server_run [guest_event] sample_server) =
    Some (1, True, Some 1, Some (server_engine_new 2, [97, 98], []))"
    by code_simp
  then obtain s d where s: "server_run [guest_event] sample_server = Some s" "length (sv_site_id_map s) = 1"
      "write_allowed (sv_config s) ''a''" "site_of s ''a'' = Some 1" "map_of (sv_docs s) 1 = Some d"
      "d_engine d = server_engine_new 2" "d_buffer d = [97, 98]" "d_subscribers d = []" by auto
  have r: "server_reachable list_gapbuf s" by (rule server_run_reachable [OF s(1) sample_server_reachable])
  have "hosts list_gapbuf 1 s (net_start [97, 98])"
  proof -
    have "length [97 :: nat, 98] = 2" by simp
    then show ?thesis
      using s site_of_inj [OF ids_ok_reachable [OF r]] unfolding hosts_def net_start_def
      by (auto simp: keys_def list_gapbuf_def simp del: length_Cons list.size split: Option.bind_splits)
  qed
  then show thesis using that s r by blast
qed

lemma host_implements_session_witness:
  "\<exists>s t n n'. hosts list_gapbuf 1 s n \<and> hosts list_gapbuf 1 t n' \<and> n_subs n 1 = None \<and> n_subs n' 1 \<noteq> None \<and>
     handle_remote_message list_gapbuf sample_env ''a'' None (M_request_ops 1 0) s = Some (t, Inr ())"
proof -
  obtain s where s: "server_run [guest_event] sample_server = Some s" "server_reachable list_gapbuf s"
      "hosts list_gapbuf 1 s (net_start [97, 98])" "site_of s ''a'' = Some 1" "write_allowed (sv_config s) ''a''"
    by (rule guest_hosted)
  obtain n p where n: "act (A_join 1) (net_start [97, 98]) = Some n" "n_peers n 1 = Some p"
      "p_up p = [Request_ops 0]" "n_subs n 1 = None"
    by (auto simp: join_net_def net_start_def set_peer_def server_engine_new_def)
  have r: "reachable [97, 98] n" by (rule reachable.Step [OF reachable.Start act_step [OF n(1)]])
  have h: "hosts list_gapbuf 1 s n" using hosts_client_act [OF n(1), of list_gapbuf 1 s] s(3) by simp
  from host_implements_session [OF list_gapbuf_laws r h s(4) n(2,3) _ s(5), of sample_env None]
  obtain t n' where t: "handle_remote_message list_gapbuf sample_env ''a'' None (M_request_ops 1 0) s = Some (t, Inr ())"
      "serve_net n 1 = Some n'" "hosts list_gapbuf 1 t n'" by auto
  have "n_subs n' 1 \<noteq> None" using t(2) n(2,3) by (auto simp: serve_net_def)
  with h t n(4) show ?thesis by blast
qed

section \<open>The client\<close>

text \<open>C7: The client implements the session: a request with edits that fit the buffer succeeds; it runs the
  edits, takes the ops that have arrived, sends at most one message, which is the session's, and
  answers with the length of the buffer the editor is to have.\<close>

theorem client_implements_session:
  assumes "gapbuf_laws B" and "reachable text0 n" and "n_peers n i = Some p" and "opens B doc ef s p later"
    and "acts (edit_actions i ops) n = Some n1"
  shows "\<exists>t k n2 n3 p3 more r.
    handle_editor_request B v \<lparr>nx_req_id = Some rid\<rparr> (Rq_send_ops ops ef) s = Some (t, Inr ()) \<and>
    acts (replicate k (A_take i)) n1 = Some n2 \<and> (n3 = n2 \<and> more = [] \<or> send_net n2 i doc = Some n3) \<and>
    n_peers n3 i = Some p3 \<and> opens B doc ef t p3 later \<and> p_down p3 = later \<and>
    p_up p3 = p_up p @ more \<and> (\<forall>m \<in> set more. about_doc doc m) \<and>
    sr_doc_len r = length (p_buffer p3) \<and> sr_last_global_seq r = ce_seq (p_client p3) \<and>
    sv_out t = sv_out s @ map (\<lambda>m. To_remote (ef_host_id ef) None (up_body doc m)) more @
      [Respond rid (SendOpsResp r) None]"
proof -
  have nx: "nx_req_id \<lparr>nx_req_id = Some rid\<rparr> = Some rid" by simp
  have rq: "handle_editor_request B v nx (Rq_send_ops ops ef) s = finish (handle_send_ops_from_editor B nx ops ef s)" for nx
    by (simp add: handle_editor_request_def Let_def)
  show ?thesis
    using send_ops_refines [OF assms(1) reachable_ok [OF assms(2)] assms(3-5) nx] unfolding rq finish_eq by blast
qed

text \<open>Ops that arrive at a client in order are buffered, all of them, and nothing but the editor is told.\<close>

theorem arriving_ops_are_buffered:
  assumes "reachable text0 n" and "n_peers n i = Some p" and "opens B doc ef s p (ops @ later)"
  shows "\<exists>t outs. handle_remote_message B v (ef_host_id ef) rid (M_op_from_server doc ops) s = Some (t, Inr ()) \<and>
    opens B doc ef t p later \<and> sv_out t = sv_out s @ outs \<and>
    (\<forall>x \<in> set outs. \<exists>e. x = Notify RemoteOpsArrived e)"
  using op_from_server_refines [OF reachable_ok [OF assms(1)] assms(2,3), of "\<lparr>nx_req_id = rid\<rparr>"]
  by (auto simp: handle_remote_message_def Let_def)

section \<open>Opening\<close>

text \<open>C22: Opening joins the session: a host that asks for an open file gets a snapshot; the client that receives
  it has a site of the session the host is left in, with its request for the later ops sent.\<close>

theorem opening_joins_session:
  assumes "gapbuf_laws B" and "reachable text0 n" and "hosts B doc s n" and "n_peers n i = None"
    and "site_id_of h s = (i, s1)" and "h \<noteq> sv_host_id s"
    and "server_reachable B s" and "length (sv_site_id_map s1) < 2 ^ 32 - 1"
    and "distinct (keys (sv_docs s))" and "path_id_from_file_desc s (ProjectFile pid name) = Inr path"
    and "find_doc path (sv_docs s) = Some (doc, d)"
    and "already_opened host (ProjectFile pid name) (sv_remote_docs c) = None"
  shows "\<exists>sn t n' p c' r m.
    handle_remote_message B v h (Some rid) (M_request_file (ProjectFile pid name) mode) s = Some (t, Inr ()) \<and>
    sv_out t = sv_out s1 @ [To_remote h (Some rid) (M_snapshot sn)] \<and>
    join_net n i = Some n' \<and> hosts B doc t n' \<and> n_peers n' i = Some p \<and> p_up p = [m] \<and>
    handle_remote_message B v' host (Some rid') (M_snapshot sn) c = Some (c', Inr ()) \<and>
    opens B doc (editor_file_desc_new (ProjectFile pid name) host) c' p [] \<and>
    sv_out c' = sv_out c @ [Respond rid' r None, To_remote host (Some rid') (up_body doc m)]"
  by (rule opening_refines [OF assms(1) reachable_ok [OF assms(2)] assms(3-6)
      ids_ok_reachable [OF assms(7)] assms(8-12)])

text \<open>A second guest opens the file that is open.\<close>

definition guest_server :: "utext server" where
  "guest_server = server_new_with_keycert ''b'' ''b'' config_default ''k''"

definition join_facts :: "utext server \<Rightarrow> (site_id \<times> nat) \<times> (server_error + path_id) \<times> doc_id option \<times> bool" where
  "join_facts s = ((fst (site_id_of ''b'' s), length (sv_site_id_map (snd (site_id_of ''b'' s)))),
     path_id_from_file_desc s (ProjectFile ''p'' ''a''), map_option fst (find_doc (Path_id ''/p/a'') (sv_docs s)),
     ''b'' \<noteq> sv_host_id s \<and> distinct (keys (sv_docs s)))"

lemma guest_facts:
  obtains s s1 d where "server_run [guest_event] sample_server = Some s" and "server_reachable list_gapbuf s"
    and "hosts list_gapbuf 1 s (net_start [97, 98])" and "site_id_of ''b'' s = (2, s1)"
    and "length (sv_site_id_map s1) < 2 ^ 32 - 1" and "''b'' \<noteq> sv_host_id s" and "distinct (keys (sv_docs s))"
    and "path_id_from_file_desc s (ProjectFile ''p'' ''a'') = Inr (Path_id ''/p/a'')"
    and "find_doc (Path_id ''/p/a'') (sv_docs s) = Some (1, d)"
proof -
  obtain s where s: "server_run [guest_event] sample_server = Some s" "server_reachable list_gapbuf s"
      "hosts list_gapbuf 1 s (net_start [97, 98])" by (rule guest_hosted)
  have "map_option join_facts (server_run [guest_event] sample_server) =
      Some ((2, 2), Inr (Path_id ''/p/a''), Some 1, True)" by code_simp
  with s(1) have f: "join_facts s = ((2, 2), Inr (Path_id ''/p/a''), Some 1, True)" by simp
  obtain s1 where "site_id_of ''b'' s = (2, s1)" "length (sv_site_id_map s1) = 2"
    using f by (cases "site_id_of ''b'' s") (auto simp: join_facts_def)
  with s f that show thesis by (auto simp: join_facts_def)
qed

lemma guest_site:
  assumes "join_net (net_start [97, 98]) 2 = Some n" and "n_peers n 2 = Some p"
  shows "p_client p = client_engine_new 2 0 (internal_doc_new 2)" and "p_buffer p = [97, 98]"
    and "p_down p = []"
  using assms by (auto simp: join_net_def net_start_def set_peer_def server_engine_new_def numeral_2_eq_2)

lemma guest_joins:
  obtains c ef n p where "act (A_join 2) (net_start [97, 98]) = Some n" and "n_peers n 2 = Some p"
    and "opens list_gapbuf 1 ef c p []"
proof -
  obtain s s1 d where s: "server_run [guest_event] sample_server = Some s" "server_reachable list_gapbuf s"
    "hosts list_gapbuf 1 s (net_start [97, 98])" "site_id_of ''b'' s = (2, s1)"
    "length (sv_site_id_map s1) < 2 ^ 32 - 1" "''b'' \<noteq> sv_host_id s" "distinct (keys (sv_docs s))"
    "path_id_from_file_desc s (ProjectFile ''p'' ''a'') = Inr (Path_id ''/p/a'')"
    "find_doc (Path_id ''/p/a'') (sv_docs s) = Some (1, d)" by (rule guest_facts)
  have new: "already_opened ''me'' (ProjectFile ''p'' ''a'') (sv_remote_docs guest_server) = None" by code_simp
  have none: "n_peers (net_start [97, 98]) 2 = None" by (simp add: net_start_def)
  from opening_refines [OF list_gapbuf_laws reachable_ok [OF reachable.Start] s(3) none s(4,6)
      ids_ok_reachable [OF s(2)] s(5,7,8,9) new, of sample_env 1 Mode_open sample_env 1]
  obtain n p c ef where "join_net (net_start [97, 98]) 2 = Some n" "n_peers n 2 = Some p"
      "opens list_gapbuf 1 ef c p []" by blast
  then show thesis by (intro that) simp_all
qed

lemma opening_joins_session_witness:
  "\<exists>s (n' :: net) p c'. hosts list_gapbuf 1 s n' \<and> n_peers n' 2 = Some p \<and> p_buffer p = [97, 98] \<and>
     opens list_gapbuf 1 \<lparr>ef_host_id = ''me'', ef_project = ''p'', ef_file = ''a''\<rparr> c' p []"
proof -
  obtain s s1 d where s: "server_run [guest_event] sample_server = Some s" "server_reachable list_gapbuf s"
    "hosts list_gapbuf 1 s (net_start [97, 98])" "site_id_of ''b'' s = (2, s1)"
    "length (sv_site_id_map s1) < 2 ^ 32 - 1" "''b'' \<noteq> sv_host_id s" "distinct (keys (sv_docs s))"
    "path_id_from_file_desc s (ProjectFile ''p'' ''a'') = Inr (Path_id ''/p/a'')"
    "find_doc (Path_id ''/p/a'') (sv_docs s) = Some (1, d)" by (rule guest_facts)
  have new: "already_opened ''me'' (ProjectFile ''p'' ''a'') (sv_remote_docs guest_server) = None" by code_simp
  have none: "n_peers (net_start [97, 98]) 2 = None" by (simp add: net_start_def)
  from opening_joins_session [OF list_gapbuf_laws reachable.Start s(3) none s(4,6,2,5,7,8,9) new,
      of sample_env 1 Mode_open sample_env 1]
  obtain t n' p c' where "join_net (net_start [97, 98]) 2 = Some n'" "n_peers n' 2 = Some p"
      "opens list_gapbuf 1 (editor_file_desc_new (ProjectFile ''p'' ''a'') ''me'') c' p []" "hosts list_gapbuf 1 t n'"
    by blast
  with guest_site(2) show ?thesis by (fastforce simp: editor_file_desc_new_def)
qed

lemma client_implements_session_witness:
  "\<exists>(n :: net) p c ef t r out. n_peers n 2 = Some p \<and> opens list_gapbuf 1 ef c p [] \<and>
     handle_editor_request list_gapbuf sample_env \<lparr>nx_req_id = Some 3\<rparr>
       (Rq_send_ops [\<lparr>ef_op = EIns 1 [7], ef_group_seq = 1\<rparr>] ef) c = Some (t, Inr ()) \<and>
     sv_out t = out @ [Respond 3 (SendOpsResp r) None]"
proof -
  let ?ops = "[\<lparr>ef_op = EIns 1 [7], ef_group_seq = 1\<rparr>]"
  obtain c ef n p where n: "act (A_join 2) (net_start [97, 98]) = Some n" "n_peers n 2 = Some p"
      "opens list_gapbuf 1 ef c p []" by (rule guest_joins)
  have "acts (A_join 2 # edit_actions 2 ?ops) (net_start [97, 98]) \<noteq> None" by code_simp
  with n(1) obtain n1 where e: "acts (edit_actions 2 ?ops) n = Some n1" by auto
  have r: "reachable [97, 98] n" by (rule reachable.Step [OF reachable.Start act_step [OF n(1)]])
  from client_implements_session [OF list_gapbuf_laws r n(2,3) e, of sample_env 3]
  obtain t more x where t: "handle_editor_request list_gapbuf sample_env \<lparr>nx_req_id = Some 3\<rparr> (Rq_send_ops ?ops ef) c =
      Some (t, Inr ())"
      "sv_out t = sv_out c @ map (\<lambda>m. To_remote (ef_host_id ef) None (up_body 1 m)) more @
        [Respond 3 (SendOpsResp x) None]" by blast
  have "sv_out t = (sv_out c @ map (\<lambda>m. To_remote (ef_host_id ef) None (up_body 1 m)) more) @
      [Respond 3 (SendOpsResp x) None]" unfolding t(2) by simp
  with n(2,3) t(1) show ?thesis by blast
qed

definition other_edits :: "action list" where
  "other_edits = [A_serve 2, A_join 1, A_serve 1, A_edit 1 (EIns 0 [5]) 1, A_send 1 1, A_serve 1]"

lemma arriving_ops_are_buffered_witness:
  "\<exists>f c t ef p. opens list_gapbuf 1 ef c p [f] \<and> opens list_gapbuf 1 ef t p [] \<and>
     handle_remote_message list_gapbuf sample_env (ef_host_id ef) None (M_op_from_server 1 [f]) c = Some (t, Inr ())"
proof -
  obtain c ef n p where n: "act (A_join 2) (net_start [97, 98]) = Some n" "n_peers n 2 = Some p"
      "opens list_gapbuf 1 ef c p []" by (rule guest_joins)
  have "map_option (\<lambda>n. map_option (\<lambda>p. (p_client p, p_buffer p, length (p_down p))) (n_peers n 2))
      (acts (A_join 2 # other_edits) (net_start [97, 98])) =
    Some (Some (client_engine_new 2 0 (internal_doc_new 2), [97, 98], 1))" by code_simp
  then obtain n1 p1 where n1: "acts (A_join 2 # other_edits) (net_start [97, 98]) = Some n1" "n_peers n1 2 = Some p1"
      "p_client p1 = client_engine_new 2 0 (internal_doc_new 2)" "p_buffer p1 = [97, 98]" "length (p_down p1) = 1"
    by auto
  then obtain f where f: "p_down p1 = [f]" by (auto simp: length_Suc_conv)
  have g: "join_net (net_start [97, 98]) 2 = Some n" using n(1) by simp
  note gs = guest_site [OF g n(2)]
  have o: "opens list_gapbuf 1 ef c p1 ([] @ [f])"
    by (rule opens_more [OF n(3)]) (use gs n1(3,4) f in simp_all)
  have r: "reachable [97, 98] n1" by (rule acts_reachable [OF reachable.Start n1(1)])
  from arriving_ops_are_buffered [OF r n1(2), of list_gapbuf 1 ef c "[f]" "[]" sample_env None] o
  show ?thesis by fastforce
qed

end
