(* ===== verification/Reset.thy ===== *)
theory Reset
  imports Host_Refines
begin

text \<open>
  Resetting a document to what is on disk: the chunks of a diff as ops. The ops carry positions of
  the old text and are run from the last to the first; on a document without tombstones they turn
  the old text into the new one.
\<close>

section \<open>What a diff has to be\<close>

fun chunk_old :: "chunk \<Rightarrow> utext" where
  "chunk_old (Equal s) = s"
| "chunk_old (Delete s) = s"
| "chunk_old (Insert s) = []"

fun chunk_new :: "chunk \<Rightarrow> utext" where
  "chunk_new (Equal s) = s"
| "chunk_new (Delete s) = []"
| "chunk_new (Insert s) = s"

fun chunk_text :: "chunk \<Rightarrow> utext" where
  "chunk_text (Equal s) = s"
| "chunk_text (Delete s) = s"
| "chunk_text (Insert s) = s"

text \<open>A diff is right when its chunks are not empty, and spell the old and the new text.\<close>

definition diff_of :: "chunk list \<Rightarrow> utext \<Rightarrow> utext \<Rightarrow> bool" where
  "diff_of cs old new \<longleftrightarrow>
     (\<forall>c \<in> set cs. chunk_text c \<noteq> []) \<and> concat (map chunk_old cs) = old \<and> concat (map chunk_new cs) = new"

section \<open>Running the chunks\<close>

definition all_live :: "utext \<Rightarrow> cells" where
  "all_live s = map (\<lambda>c. (c, True)) s"

lemma all_live_simps [simp]:
  "all_live [] = []" "all_live (s @ t) = all_live s @ all_live t" "length (all_live s) = length s"
  "visible (all_live s) = s" "map fst (all_live s) = s"
  by (simp_all add: all_live_def visible_def comp_def)

lemma t_ins_at:
  assumes "length P = p"
  shows "t_ins p s (P @ R) = P @ all_live s @ R"
  using assms by (simp add: t_ins_def all_live_def)

lemma t_mark_at:
  assumes "length P = p" and "length s = n"
  shows "t_mark False p n (P @ all_live s @ R) = P @ map (\<lambda>c. (c, False)) s @ R"
  using assms by (simp add: t_mark_def all_live_def comp_def)

text \<open>
  The later chunks have been run when a chunk's turn comes, so what stands behind its text does
  not matter.
\<close>

lemma chunk_ops_run:
  assumes "\<forall>c \<in> set cs. chunk_text c \<noteq> []" and "map fo_op fs = rev (chunk_ops (length P) cs site)"
  shows "\<exists>S. app_ops t_apply fs (P @ all_live (concat (map chunk_old cs))) = P @ S \<and>
    visible S = concat (map chunk_new cs) \<and>
    fits_ops t_apply op_agrees fs (P @ all_live (concat (map chunk_old cs)))"
  using assms
proof (induction cs arbitrary: P fs)
  case (Cons c cs)
  let ?rest = "concat (map chunk_old cs)"
  show ?case
  proof (cases c)
    case (Equal s)
    with Cons.IH [of fs "P @ all_live s"] Cons.prems obtain S where
      "app_ops t_apply fs (P @ all_live s @ all_live ?rest) = P @ all_live s @ S"
      "visible S = concat (map chunk_new cs)"
      "fits_ops t_apply op_agrees fs (P @ all_live s @ all_live ?rest)" by auto
    with Equal show ?thesis by (intro exI [of _ "all_live s @ S"]) simp
  next
    case (Insert s)
    with Cons.prems(2) obtain gs f where fs: "fs = gs @ [f]" "fo_op f = Ins (length P, s) site"
        "map fo_op gs = rev (chunk_ops (length P) cs site)"
      by (auto simp: map_eq_append_conv)
    with Cons.IH [of gs P] Cons.prems(1) obtain S where
      "app_ops t_apply gs (P @ all_live ?rest) = P @ S" "visible S = concat (map chunk_new cs)"
      "fits_ops t_apply op_agrees gs (P @ all_live ?rest)" by auto
    with Insert fs Cons.prems(1) show ?thesis
      by (intro exI [of _ "all_live s @ S"]) (simp add: t_ins_at)
  next
    case (Delete s)
    with Cons.prems(2) obtain gs f where fs: "fs = gs @ [f]" "fo_op f = Mark [(length P, s)] False site"
        "map fo_op gs = rev (chunk_ops (length (P @ all_live s)) cs site)"
      by (auto simp: map_eq_append_conv)
    with Cons.IH [of gs "P @ all_live s"] Cons.prems(1) obtain S where
      "app_ops t_apply gs (P @ all_live s @ all_live ?rest) = P @ all_live s @ S"
      "visible S = concat (map chunk_new cs)"
      "fits_ops t_apply op_agrees gs (P @ all_live s @ all_live ?rest)" by auto
    moreover have "visible (map (\<lambda>c. (c, False)) s) = []" by (simp add: visible_def)
    ultimately show ?thesis using Delete fs Cons.prems(1)
      by (intro exI [of _ "map (\<lambda>c. (c, False)) s @ S"]) (simp add: t_mark_at text_at_def)
  qed
qed (simp add: visible_def)

lemma number_ops_ops: "number_ops seq ops = (fs, seq') \<Longrightarrow> map fo_op fs = ops \<and> seq' = seq + length ops"
  by (induction seq ops arbitrary: fs seq' rule: number_ops.induct) (auto simp: Let_def split: prod.splits)

lemma quatradic_no_base: "quatradic_transform transform [] ops = ([], ops)"
  by (induction ops) (simp_all add: Let_def)

lemma chunks_to_ops_run:
  assumes "diff_of cs old new" and "chunks_to_ops cs site seq = (fs, seq')"
  shows "fits_ops t_apply op_agrees fs (all_live old) \<and> visible (app_ops t_apply fs (all_live old)) = new"
proof -
  have "map fo_op fs = rev (chunk_ops (length ([] :: cells)) cs site)"
    using number_ops_ops assms(2) by (fastforce simp: chunks_to_ops_def)
  with chunk_ops_run [of cs fs "[]" site] assms(1) show ?thesis by (auto simp: diff_of_def)
qed

section \<open>The document after a reset\<close>

text \<open>A hosted document none of whose text has been deleted.\<close>

definition undeleted :: "'b gapbuf_ops \<Rightarrow> 'b doc \<Rightarrow> bool" where
  "undeleted B d \<longleftrightarrow>
     represents (se_doc (d_engine d)) (all_live (gb_iter B (d_buffer d))) \<and>
     se_seq (d_engine d) = length (h_global (se_gh (d_engine d)))"

lemma reset_doc_restores:
  assumes "gapbuf_laws B" and "undeleted B d" and "diff_of (de_diff v (gb_iter B (d_buffer d)) new) (gb_iter B (d_buffer d)) new"
  shows "\<exists>d' ops. reset_doc B v path new d = Some (d', ops, Inr ()) \<and>
    gb_iter B (d_buffer d') = new \<and>
    fits_ops t_apply op_agrees ops (all_live (gb_iter B (d_buffer d))) \<and>
    visible (app_ops t_apply ops (all_live (gb_iter B (d_buffer d)))) = new \<and>
    d_subscribers d' = d_subscribers d \<and> d_canon_filename d' = d_canon_filename d"
proof -
  let ?old = "gb_iter B (d_buffer d)"
  obtain fs seq where fs: "chunks_to_ops (de_diff v ?old new) EXTERNAL_PROCESS_SITE_ID (d_next_external_site_seq d) = (fs, seq)"
    by fastforce
  note run = chunks_to_ops_run [OF assms(3) fs]
  show ?thesis
  proof (cases "fs = []")
    case True
    with run fs show ?thesis by (simp add: reset_doc_def)
  next
    case False
    let ?d = "d\<lparr>d_next_external_site_seq := seq, d_disk_file := Some path\<rparr>"
    obtain ps e where p: "server_process_ops (d_engine d) fs (se_seq (d_engine d)) = (ps, e)" by fastforce
    have k: "se_seq (d_engine d) \<le> length (h_global (se_gh (d_engine d)))"
      using assms(2) by (simp add: undeleted_def)
    note sp = server_process_ok [OF p k]
    have ops: "map fo_op ps = map fo_op fs"
      using sp(1) assms(2) by (simp add: undeleted_def quatradic_no_base)
    have run': "fits_ops t_apply op_agrees ps (all_live ?old)" "visible (app_ops t_apply ps (all_live ?old)) = new"
      using run by (simp_all only: fits_ops_cong [OF ops] app_ops_cong [OF ops])
    have rep: "represents (se_doc e) (all_live ?old)"
      using assms(2) sp(6) by (simp add: undeleted_def)
    then have "represents (se_doc (d_engine (?d\<lparr>d_engine := e\<rparr>))) (all_live ?old)" by simp
    from apply_ops_run [OF assms(1) this _ run'(1)] obtain instrs k' b where b:
        "run_conv convert_internal_op_and_apply (se_doc e) ps = Some (instrs, k')"
        "view_edits instrs ?old = Some (gb_iter B b)"
        "apply_ops B (?d\<lparr>d_engine := e\<rparr>) ps = Some (?d\<lparr>d_engine := e\<lparr>se_doc := k'\<rparr>, d_buffer := b\<rparr>, Inr ())" by auto
    from idoc.run_ok [OF rep run'(1)] b(1,2) run'(2) have "gb_iter B b = new" by auto
    with b(3) run' fs p False show ?thesis by (simp add: reset_doc_def)
  qed
qed

end
