(* ===== verification/File_Theorems.thy ===== *)
theory File_Theorems
  imports Reset Server_Samples
begin

text \<open>
  Properties of the server's documents and the files behind them: a reset brings a document to what
  is on disk, when nothing of it was deleted before; and two runs that show where the code goes
  wrong, one after a deletion and one on a file that is not ASCII.
\<close>

section \<open>Resetting\<close>

text \<open>C33: A change on disk reaches the document: if nothing of a document has been deleted since it was
  opened, and its engine counts as many characters as the buffer has (for a file that is not ASCII it
  counts bytes, and a reset ends in an error), a file watcher's event newer than the last save leaves the document with the content of
  the file, and every subscriber is sent the same ops, which lead from the old text to the new.\<close>

theorem reset_restores_disk:
  assumes "gapbuf_laws B" and "find_by_canon path (sv_docs s) = Some (doc, d)" and "undeleted B d"
    and "d_last_saved_at d < timestamp" and "de_read v path = Inr new"
    and "diff_of (de_diff v (gb_iter B (d_buffer d)) new) (gb_iter B (d_buffer d)) new"
  shows "\<exists>t d' ops. reset_doc_from_disk B v \<lparr>nx_req_id = rid\<rparr> path (Some timestamp) s = Some (t, Inr ()) \<and>
    map_of (sv_docs t) doc = Some d' \<and> gb_iter B (d_buffer d') = new \<and>
    sv_out t = sv_out s @ (if ops = [] then []
      else map (\<lambda>h. To_remote h rid (M_op_from_server doc ops)) (keys (d_subscribers d))) \<and>
    visible (app_ops t_apply ops (all_live (gb_iter B (d_buffer d)))) = new"
proof -
  from reset_doc_restores [OF assms(1,3,6), of path] obtain d' ops where r:
      "reset_doc B v path new d = Some (d', ops, Inr ())" "gb_iter B (d_buffer d') = new"
      "visible (app_ops t_apply ops (all_live (gb_iter B (d_buffer d)))) = new"
      "d_subscribers d' = d_subscribers d" by blast
  have "map_of (sv_docs s) doc \<noteq> None"
    using assms(2) by (auto simp: find_by_canon_def find_Some_iff map_of_eq_None_iff image_iff)
      (metis fst_conv nth_mem)
  with r assms(2,4,5) show ?thesis
    by (intro exI [of _ "if ops = [] then set_doc doc d' s
          else send_to_all \<lparr>nx_req_id = rid\<rparr> (keys (d_subscribers d)) (M_op_from_server doc ops) (set_doc doc d' s)"]
        exI [of _ d'] exI [of _ ops])
      (auto simp: reset_doc_from_disk_def send_to_all_eq set_doc_def update_conv)
qed

text \<open>A guest has the file open that holds ''ab''; on disk it becomes ''cb''.\<close>

definition changed_disk :: "utext \<Rightarrow> chunk list \<Rightarrow> disk_env" where
  "changed_disk new chunks =
     \<lparr>de_now = 9, de_read = (\<lambda>_. Inr new), de_diff = (\<lambda>_ _. chunks)\<rparr>"

definition guest_opens :: "string \<Rightarrow> server_event list" where
  "guest_opens f = [Ev_remote ''a'' (Some 1) (M_request_file (ProjectFile ''p'' f) Mode_open),
     Ev_remote ''a'' None (M_request_ops 1 0)]"

definition guest_sends :: "op \<Rightarrow> nat \<Rightarrow> nat \<Rightarrow> server_event" where
  "guest_sends op context seq = Ev_remote ''a'' None (M_op_from_client \<lparr>co_doc = 1, co_context = context,
     co_ops = [\<lparr>fo_seq = None, fo_op = op, fo_site_seq = seq, fo_kind = Original, fo_group_seq = seq\<rparr>]\<rparr>)"

lemma reset_restores_disk_witness:
  "\<exists>s t d'. server_run (guest_opens ''a'') sample_server = Some s \<and>
     reset_doc_from_disk list_gapbuf (changed_disk [99, 98] [Delete [97], Insert [99], Equal [98]])
       \<lparr>nx_req_id = None\<rparr> ''/p/a'' (Some 8) s = Some (t, Inr ()) \<and>
     map_of (sv_docs t) 1 = Some d' \<and> d_buffer d' = [99, 98] \<and> sv_out t \<noteq> sv_out s"
proof -
  let ?v = "changed_disk [99, 98] [Delete [97], Insert [99], Equal [98]]"
  have "map_option (\<lambda>s. map_option (\<lambda>(doc, d). (doc, d_engine d, d_buffer d, keys (d_subscribers d), d_last_saved_at d))
      (find_by_canon ''/p/a'' (sv_docs s))) (server_run (guest_opens ''a'') sample_server) =
    Some (Some (1, server_engine_new 2, [97, 98], [''a''], 7))"
    by code_simp
  then obtain s d where s: "server_run (guest_opens ''a'') sample_server = Some s"
      "find_by_canon ''/p/a'' (sv_docs s) = Some (1, d)" "d_engine d = server_engine_new 2"
      "d_buffer d = [97, 98]" "keys (d_subscribers d) = [''a'']" "d_last_saved_at d = 7" by auto
  have u: "undeleted list_gapbuf d"
    using s(3,4) represents_new [of "[97, 98]"]
    by (simp add: undeleted_def all_live_def list_gapbuf_def server_engine_new_def history_new_def numeral_2_eq_2)
  have df: "diff_of (de_diff ?v (gb_iter list_gapbuf (d_buffer d)) [99, 98]) (gb_iter list_gapbuf (d_buffer d)) [99, 98]"
    using s(4) by (simp add: diff_of_def changed_disk_def list_gapbuf_def)
  have "d_last_saved_at d < 8" "de_read ?v ''/p/a'' = Inr [99, 98]" using s(6) by (simp_all add: changed_disk_def)
  from reset_restores_disk [OF list_gapbuf_laws s(2) u this df, of None] obtain t d' ops where t:
      "reset_doc_from_disk list_gapbuf ?v \<lparr>nx_req_id = None\<rparr> ''/p/a'' (Some 8) s = Some (t, Inr ())"
      "map_of (sv_docs t) 1 = Some d'" "gb_iter list_gapbuf (d_buffer d') = [99, 98]"
      "sv_out t = sv_out s @ (if ops = [] then [] else [To_remote ''a'' None (M_op_from_server 1 ops)])"
      "visible (app_ops t_apply ops (all_live (gb_iter list_gapbuf (d_buffer d)))) = [99, 98]"
    unfolding s(5) by (auto simp only: list.map)
  have "ops \<noteq> []" using t(5) s(4) by (auto simp: list_gapbuf_def)
  with s(1) t show ?thesis by (auto simp: list_gapbuf_def)
qed

text \<open>A finding: a reset after a deletion corrupts the document. The ops of a reset carry positions of the
  text, but are run as positions of the document with its tombstones. In a document that read ''ab''
  and from which a guest has deleted the ''a'', the change of the file from ''b'' to ''bc'' becomes an
  insertion before the ''b''; document and file differ from then on.\<close>

theorem reset_after_deletion_corrupts:
  "map_option (\<lambda>s. map_option d_buffer (map_of (sv_docs s) 1))
     (Option.bind (server_run (guest_opens ''a'' @ [guest_sends (Mark [(0, [97])] False 1) 0 1]) sample_server)
       (server_step list_gapbuf
         (sample_env\<lparr>ev_file := (sample_file_env [])\<lparr>fv_disk := changed_disk [98, 99] [Equal [98], Insert [99]]\<rparr>\<rparr>)
         (Ev_file_changed ''/p/a'' 8))) =
   Some (Some [99, 98])"
  by code_simp

section \<open>Two ways to lose a document\<close>

text \<open>A finding: a file that is not ASCII cannot be edited. The engine of a hosted file is made with the
  number of bytes of its content, the buffer with its characters. The first op of a guest is put
  into the host's history and buffer, then the lengths are found to differ, and the op is reported to nobody:
  the guest waits for its acknowledgement forever.\<close>

theorem non_ascii_file_breaks_host:
  "map_option (\<lambda>s. (map_option d_buffer (map_of (sv_docs s) 1),
      map_option (\<lambda>(t, r). (r \<noteq> Inr (), map_option (\<lambda>d. (d_buffer d, length (h_global (se_gh (d_engine d))))) (map_of (sv_docs t) 1),
          sv_out t = sv_out s))
        (handle_remote_message list_gapbuf sample_env ''a'' None
          (M_op_from_client \<lparr>co_doc = 1, co_context = 0,
             co_ops = [\<lparr>fo_seq = None, fo_op = Ins (0, [97]) 1, fo_site_seq = 1, fo_kind = Original, fo_group_seq = 1\<rparr>]\<rparr>) s)))
     (server_run (guest_opens ''e'') sample_server) =
   Some (Some [233], Some (True, Some ([97, 233], 1), True))"
  by code_simp

text \<open>A finding: asking for missing ops loses the document. A client that has sent an op and then finds
  a gap in what it receives asks for the ops after its sequence number; the host then expects the
  site sequence number 1 again and answers the client's next op with \<open>DocFatal\<close>.\<close>

theorem resubscription_breaks_client:
  "map_option (\<lambda>s. last (sv_out s))
     (server_run (guest_opens ''a'' @
        [guest_sends (Ins (0, [97]) 1) 0 1, Ev_remote ''a'' None (M_request_ops 1 1), guest_sends (Ins (0, [97]) 1) 1 2])
      sample_server) =
   Some (To_remote ''a'' None (M_doc_fatal 1 (Fmt ''Site seq mismatch: expected {}, got {}'' [A_num 1, A_num 2])))"
  by code_simp

end
