(* ===== verification/Signaling_Auth.thy ===== *)
theory Signaling_Auth
  imports Messages
begin

text \<open>
  The identity an endpoint proves to a signaling server: \<open>signaling.rs\<close> (identities, signatures and
  the headers that carry them), \<open>signaling/auth.rs\<close> (signing and verifying) and the certificate
  hash of \<open>config_man.rs\<close>. Base64, SHA-256, X.509 and ECDSA come from crates and are a parameter,
  with the laws the code relies on in \<open>crypto_laws\<close>. The clock is an argument.
\<close>

type_synonym u8 = "8 word"
type_synonym bytes = "u8 list"

record crypto =
  cr_b64_encode :: "bytes \<Rightarrow> string"
  cr_b64_decode :: "string \<Rightarrow> fmt_text + bytes"
  cr_sha256 :: "bytes \<Rightarrow> bytes"
  cr_parse_cert :: "bytes \<Rightarrow> fmt_text + bytes"
  cr_load_key :: "bytes \<Rightarrow> fmt_text + bytes"
  cr_sign :: "bytes \<Rightarrow> bytes \<Rightarrow> fmt_text + bytes"
  cr_verify :: "bytes \<Rightarrow> bytes \<Rightarrow> bytes \<Rightarrow> bool"

section \<open>Numbers and separators in text\<close>

definition digit :: "nat \<Rightarrow> char" where
  "digit d = char_of (48 + d)"

definition digit_value :: "char \<Rightarrow> nat option" where
  "digit_value c = (let n = of_char c :: nat in if 48 \<le> n \<and> n \<le> 57 then Some (n - 48) else None)"

fun show_dec :: "nat \<Rightarrow> string" where
  "show_dec n = (if n < 10 then [digit n] else show_dec (n div 10) @ [digit (n mod 10)])"

declare show_dec.simps [simp del]

text \<open>\<open>u64::from_str\<close>: an optional plus sign and at least one digit, within 64 bits.\<close>

fun parse_digits :: "int \<Rightarrow> string \<Rightarrow> string + int" where
  "parse_digits acc [] = Inr acc"
| "parse_digits acc (c # cs) =
     (case digit_value c of
        None \<Rightarrow> Inl ''invalid digit found in string''
      | Some d \<Rightarrow> if acc * 10 + int d < 2 ^ 64 then parse_digits (acc * 10 + int d) cs
                 else Inl ''number too large to fit in target type'')"

definition parse_u64 :: "string \<Rightarrow> string + u64" where
  "parse_u64 s =
     (if s = [] then Inl ''cannot parse integer from empty string''
      else if s = ''+'' \<or> s = ''-'' then Inl ''invalid digit found in string''
      else case parse_digits 0 (if hd s = CHR ''+'' then tl s else s) of
             Inl e \<Rightarrow> Inl e
           | Inr n \<Rightarrow> Inr (of_int n))"

text \<open>\<open>str::split_once\<close>, \<open>str::split\<close> and \<open>join\<close> at a character.\<close>

fun split_once :: "char \<Rightarrow> string \<Rightarrow> (string \<times> string) option" where
  "split_once c [] = None"
| "split_once c (x # xs) =
     (if x = c then Some ([], xs) else map_option (\<lambda>(a, b). (x # a, b)) (split_once c xs))"

fun split_on :: "char \<Rightarrow> string \<Rightarrow> string list" where
  "split_on c [] = [[]]"
| "split_on c (x # xs) =
     (if x = c then [] # split_on c xs
      else (case split_on c xs of [] \<Rightarrow> [[x]] | s # ss \<Rightarrow> (x # s) # ss))"

fun join_with :: "string \<Rightarrow> string list \<Rightarrow> string" where
  "join_with sep [] = []"
| "join_with sep [s] = s"
| "join_with sep (s # ss) = s @ sep @ join_with sep ss"

section \<open>Certificate hashes\<close>

text \<open>\<open>hash_der\<close>: the bytes of the hash in hex, separated by colons, in upper case.\<close>

definition hex_digit :: "nat \<Rightarrow> char" where
  "hex_digit d = (if d < 10 then char_of (48 + d) else char_of (87 + d))"

definition hex_byte :: "u8 \<Rightarrow> string" where
  "hex_byte b = [hex_digit (unat b div 16), hex_digit (unat b mod 16)]"

definition upper :: "char \<Rightarrow> char" where
  "upper c = (let n = of_char c :: nat in if 97 \<le> n \<and> n \<le> 122 then char_of (n - 32) else c)"

definition hash_der :: "crypto \<Rightarrow> bytes \<Rightarrow> string" where
  "hash_der cr der = map upper (join_with '':'' (map hex_byte (cr_sha256 cr der)))"

record key_cert =
  kc_key_der :: bytes
  kc_cert_der :: bytes

definition cert_der_hash :: "crypto \<Rightarrow> key_cert \<Rightarrow> string" where
  "cert_der_hash cr kc = hash_der cr (kc_cert_der kc)"

section \<open>Identities and headers\<close>

record identity =
  id_timestamp :: u64
  id_cert :: bytes

type_synonym signature = string

definition identity_to_string :: "crypto \<Rightarrow> identity \<Rightarrow> string" where
  "identity_to_string cr i = show_dec (unat (id_timestamp i)) @ '':'' @ cr_b64_encode cr (id_cert i)"

definition identity_to_bytes :: "crypto \<Rightarrow> identity \<Rightarrow> bytes" where
  "identity_to_bytes cr i = map of_char (identity_to_string cr i)"

definition parse_identity_header :: "crypto \<Rightarrow> string \<Rightarrow> fmt_text + identity" where
  "parse_identity_header cr s =
     (case split_once (CHR '':'') s of
        None \<Rightarrow> Inl (Fmt ''Identity missing ':' separator'' [])
      | Some (ts, cert) \<Rightarrow>
          (case parse_u64 ts of
             Inl e \<Rightarrow> Inl (Fmt e [])
           | Inr timestamp \<Rightarrow>
               (case cr_b64_decode cr cert of
                  Inl e \<Rightarrow> Inl (Fmt ''cert base64: {e}'' [A_fmt e])
                | Inr c \<Rightarrow> Inr \<lparr>id_timestamp = timestamp, id_cert = c\<rparr>)))"

definition encode_trusted_header :: "server_id list \<Rightarrow> fmt_text + string" where
  "encode_trusted_header trusted =
     (case find (\<lambda>i. CHR '','' \<in> set i) trusted of
        Some i \<Rightarrow> Inl (Fmt ''endpoint id {id:?} contains a comma; cannot encode in header'' [A_str i])
      | None \<Rightarrow> Inr (join_with '','' trusted))"

definition decode_trusted_header :: "string \<Rightarrow> server_id list" where
  "decode_trusted_header value = (if value = [] then [] else split_on (CHR '','') value)"

section \<open>Signing and verifying\<close>

definition MAX_TIMESTAMP_OFFSET :: nat where
  "MAX_TIMESTAMP_OFFSET = 30"

definition sign_identity :: "crypto \<Rightarrow> u64 \<Rightarrow> key_cert \<Rightarrow> fmt_text + identity \<times> signature" where
  "sign_identity cr now kc =
     (let i = \<lparr>id_timestamp = now, id_cert = kc_cert_der kc\<rparr> in
      case cr_load_key cr (kc_key_der kc) of
        Inl e \<Rightarrow> Inl (Fmt ''Loading signing key: {err}'' [A_fmt e])
      | Inr key \<Rightarrow>
          (case cr_sign cr key (identity_to_bytes cr i) of
             Inl e \<Rightarrow> Inl (Fmt ''Signing identity: {err}'' [A_fmt e])
           | Inr sig \<Rightarrow> Inr (i, cr_b64_encode cr sig)))"

definition abs_diff :: "u64 \<Rightarrow> u64 \<Rightarrow> nat" where
  "abs_diff a b = (if a < b then unat (b - a) else unat (a - b))"

definition verify_identity :: "crypto \<Rightarrow> u64 \<Rightarrow> identity \<Rightarrow> signature \<Rightarrow> fmt_text + string" where
  "verify_identity cr now i sig =
     (if abs_diff now (id_timestamp i) > MAX_TIMESTAMP_OFFSET
      then Inl (Fmt ''Identity timestamp {} outside max allowed {}s offset (now={})''
             [A_num (unat (id_timestamp i)), A_num MAX_TIMESTAMP_OFFSET, A_num (unat now)])
      else (case cr_b64_decode cr sig of
        Inl e \<Rightarrow> Inl (Fmt ''Signature base64: {err}'' [A_fmt e])
      | Inr sig_bytes \<Rightarrow>
          (case cr_parse_cert cr (id_cert i) of
             Inl e \<Rightarrow> Inl (Fmt ''Parsing identity cert: {err}'' [A_fmt e])
           | Inr pubkey \<Rightarrow>
               if cr_verify cr pubkey (identity_to_bytes cr i) sig_bytes then Inr (hash_der cr (id_cert i))
               else Inl (lit ''Identity signature verification failed''))))"

section \<open>Round trips\<close>

lemma digit_value_digit: "d < 10 \<Longrightarrow> digit_value (digit d) = Some d"
  by (simp add: digit_value_def digit_def Let_def)

lemma parse_digits_append:
  "parse_digits a (s @ t) = (case parse_digits a s of Inl e \<Rightarrow> Inl e | Inr b \<Rightarrow> parse_digits b t)"
  by (induction s arbitrary: a) (auto split: option.splits sum.splits)

lemma parse_show_dec: "n < 2 ^ 64 \<Longrightarrow> parse_digits 0 (show_dec n) = Inr (int n)"
proof (induction n rule: show_dec.induct)
  case (1 n)
  show ?case
  proof (cases "n < 10")
    case True
    with 1 show ?thesis by (simp add: show_dec.simps [of n] digit_value_digit)
  next
    case False
    with 1 have "parse_digits 0 (show_dec (n div 10)) = Inr (int (n div 10))"
      using div_le_dividend [of n 10] by (simp add: le_less_trans)
    moreover have "int (n div 10) * 10 + int (n mod 10) = int n"
      by (metis div_mult_mod_eq of_nat_add of_nat_mult of_nat_numeral)
    moreover have "int n < 2 ^ 64" using 1 by simp
    ultimately show ?thesis using False
      by (simp add: show_dec.simps [of n] parse_digits_append digit_value_digit)
  qed
qed

lemma show_dec_digits: "c \<in> set (show_dec n) \<Longrightarrow> digit_value c \<noteq> None"
proof (induction n rule: show_dec.induct)
  case (1 n)
  then show ?case
    by (cases "n < 10") (auto simp: show_dec.simps [of n] digit_value_digit)
qed

lemma show_dec_nonempty: "show_dec n \<noteq> []"
  by (simp add: show_dec.simps [of n])

lemma parse_show_u64: "parse_u64 (show_dec (unat x)) = Inr x"
proof -
  let ?s = "show_dec (unat x)"
  have "digit_value (hd ?s) \<noteq> None"
    by (rule show_dec_digits [of _ "unat x"]) (simp add: show_dec_nonempty)
  then have "hd ?s \<noteq> CHR ''+''" "hd ?s \<noteq> CHR ''-''" by (auto simp: digit_value_def Let_def)
  then have "?s \<noteq> ''+''" "?s \<noteq> ''-''" by auto
  moreover have "unat x < 2 ^ LENGTH(64)" by (rule unsigned_less)
  then have "unat x < 2 ^ 64" by simp
  then have "parse_digits 0 ?s = Inr (int (unat x))" by (rule parse_show_dec)
  ultimately show ?thesis using show_dec_nonempty [of "unat x"] \<open>hd ?s \<noteq> CHR ''+''\<close>
    by (simp add: parse_u64_def)
qed

lemma split_once_append: "c \<notin> set a \<Longrightarrow> split_once c (a @ c # b) = Some (a, b)"
  by (induction a) auto

lemma identity_round_trip:
  assumes "cr_b64_decode cr (cr_b64_encode cr (id_cert i)) = Inr (id_cert i)"
  shows "parse_identity_header cr (identity_to_string cr i) = Inr i"
proof -
  have "CHR '':'' \<notin> set (show_dec (unat (id_timestamp i)))"
    using show_dec_digits by (force simp: digit_value_def Let_def)
  then have "split_once (CHR '':'') (identity_to_string cr i) =
      Some (show_dec (unat (id_timestamp i)), cr_b64_encode cr (id_cert i))"
    unfolding identity_to_string_def by (simp add: split_once_append)
  with assms show ?thesis by (simp add: parse_identity_header_def parse_show_u64)
qed

lemma split_on_nonempty: "split_on c s \<noteq> []"
  by (induction s) (auto split: list.splits)

lemma split_on_no_sep: "c \<notin> set s \<Longrightarrow> split_on c s = [s]"
  by (induction s) auto

lemma split_on_append: "c \<notin> set s \<Longrightarrow> split_on c (s @ c # t) = s # split_on c t"
  by (induction s) auto

lemma split_join: "ss \<noteq> [] \<Longrightarrow> \<forall>s \<in> set ss. c \<notin> set s \<Longrightarrow> split_on c (join_with [c] ss) = ss"
  by (induction "[c]" ss rule: join_with.induct) (auto simp: split_on_no_sep split_on_append)

lemma join_empty: "join_with [c] ss = [] \<Longrightarrow> ss = [] \<or> ss = [[]]"
  by (induction "[c]" ss rule: join_with.induct) auto

lemma trusted_round_trip:
  assumes "encode_trusted_header trusted = Inr s" and "trusted \<noteq> [[]]"
  shows "decode_trusted_header s = trusted"
proof -
  from assms(1) have s: "s = join_with '','' trusted" "\<forall>i \<in> set trusted. CHR '','' \<notin> set i"
    by (auto simp: encode_trusted_header_def find_None_iff split: option.splits)
  show ?thesis
  proof (cases "trusted = []")
    case True
    with s show ?thesis by (simp add: decode_trusted_header_def)
  next
    case False
    then have "s \<noteq> []" using s(1) join_empty [of "CHR '',''" trusted] assms(2) by auto
    with split_join [OF False s(2)] s(1) show ?thesis by (simp add: decode_trusted_header_def)
  qed
qed

end
