(* ===== verification/Signaling_Server.thy ===== *)
theory Signaling_Server
  imports Signaling_Auth
begin

text \<open>
  The signaling server of \<open>signaling/server.rs\<close>: endpoints bind by proving that they own the
  certificate their id names, and Connect, SDP and Candidate messages are relayed to endpoints that
  trust the sender. A connection is served by two tasks, \<open>handle_connection\<close> and
  \<open>send_receive_stream\<close>; an event of the model is what one of them does between two waits, so that
  the events of several connections interleave freely. The channels between the two tasks of a
  connection are unbounded here (\<open>Signaling_Tasks\<close> looks at their bounds).
\<close>

type_synonym conn = nat

section \<open>Binding\<close>

definition BIND_HEADER_ID :: string where "BIND_HEADER_ID = ''X-Collab-Endpoint-Id''"
definition BIND_HEADER_IDENTITY :: string where "BIND_HEADER_IDENTITY = ''X-Collab-Identity''"
definition BIND_HEADER_SIGNATURE :: string where "BIND_HEADER_SIGNATURE = ''X-Collab-Signature''"
definition BIND_HEADER_TRUSTED :: string where "BIND_HEADER_TRUSTED = ''X-Collab-Trusted''"

text \<open>
  The headers of an upgrade request, and \<open>HeaderValue::to_str\<close>, which fails on values that are not
  visible ASCII (crate \<open>http\<close>, a parameter).
\<close>

type_synonym headers = "(string \<times> string) list"

definition header_str :: "(string \<Rightarrow> string option) \<Rightarrow> headers \<Rightarrow> string \<Rightarrow> fmt_text + string" where
  "header_str to_str hs name =
     (case Option.bind (map_of hs name) to_str of
        None \<Rightarrow> Inl (Fmt ''missing {name}'' [A_str name])
      | Some s \<Rightarrow> Inr s)"

text \<open>\<open>id_hash\<close> panics never: it cuts behind two ASCII characters (\<open>id_hash_defined\<close>).\<close>

definition validate_bind ::
  "crypto \<Rightarrow> (string \<Rightarrow> string option) \<Rightarrow> u64 \<Rightarrow> headers \<Rightarrow> fmt_text + server_id \<times> server_id hash_set" where
  "validate_bind cr to_str now hs =
     (case header_str to_str hs BIND_HEADER_ID of
        Inl e \<Rightarrow> Inl e
      | Inr i \<Rightarrow> (case header_str to_str hs BIND_HEADER_IDENTITY of
        Inl e \<Rightarrow> Inl e
      | Inr identity_str \<Rightarrow> (case parse_identity_header cr identity_str of
        Inl e \<Rightarrow> Inl (Fmt ''{BIND_HEADER_IDENTITY}: {e}'' [A_str BIND_HEADER_IDENTITY, A_fmt e])
      | Inr identity \<Rightarrow> (case header_str to_str hs BIND_HEADER_SIGNATURE of
        Inl e \<Rightarrow> Inl e
      | Inr sig \<Rightarrow> (case header_str to_str hs BIND_HEADER_TRUSTED of
        Inl e \<Rightarrow> Inl e
      | Inr trusted_str \<Rightarrow> (case verify_identity cr now identity sig of
        Inl e \<Rightarrow> Inl (Fmt ''identity verify: {e}'' [A_fmt e])
      | Inr cert_hash \<Rightarrow>
          if id_hash i \<noteq> Some cert_hash
          then Inl (Fmt ''bind id hash {} != cert hash {}'' [A_str (the (id_hash i)), A_str cert_hash])
          else Inr (i, remdups (decode_trusted_header trusted_str))))))))"

section \<open>State\<close>

record endpoint_info =
  ei_msg_tx :: conn
  ei_trusted :: "server_id hash_set"

text \<open>
  A connection: the id it has bound, whether its stream task still runs (its channels are open),
  whether \<open>handle_connection\<close> has stopped serving it, and the times the stream task looks at.
\<close>

record sig_conn =
  sc_endpoint_id :: server_id
  sc_open :: bool
  sc_stopped :: bool
  sc_last_ping :: nat
  sc_bound_at :: instant

datatype ws_out = Ws_msg signaling_msg | Ws_close "string option"

record sig_server =
  ss_endpoint_map :: "(server_id, endpoint_info) hash_map"
  ss_conns :: "(conn, sig_conn) hash_map"
  ss_out :: "(conn \<times> ws_out) list"

definition sig_server_new :: sig_server where
  "sig_server_new = \<lparr>ss_endpoint_map = [], ss_conns = [], ss_out = []\<rparr>"

definition update_trust :: "server_id \<Rightarrow> server_id hash_set \<Rightarrow> sig_server \<Rightarrow> sig_server" where
  "update_trust i trusted s =
     s\<lparr>ss_endpoint_map := AList.map_entry i (\<lambda>e. e\<lparr>ei_trusted := trusted\<rparr>) (ss_endpoint_map s)\<rparr>"

definition remove_endpoint :: "server_id \<Rightarrow> sig_server \<Rightarrow> sig_server" where
  "remove_endpoint i s = s\<lparr>ss_endpoint_map := AList.delete i (ss_endpoint_map s)\<rparr>"

definition get_endpoint_info :: "server_id \<Rightarrow> sig_server \<Rightarrow> endpoint_info option" where
  "get_endpoint_info i s = map_of (ss_endpoint_map s) i"

definition alter_conn :: "conn \<Rightarrow> (sig_conn \<Rightarrow> sig_conn) \<Rightarrow> sig_server \<Rightarrow> sig_server" where
  "alter_conn c f s = s\<lparr>ss_conns := AList.map_entry c f (ss_conns s)\<rparr>"

text \<open>A send fails when the task at the other end has gone.\<close>

definition conn_open :: "conn \<Rightarrow> sig_server \<Rightarrow> bool" where
  "conn_open c s = (case map_of (ss_conns s) c of Some k \<Rightarrow> sc_open k | None \<Rightarrow> False)"

definition send_conn :: "conn \<Rightarrow> ws_out \<Rightarrow> sig_server \<Rightarrow> sig_server \<times> (fmt_text + unit)" where
  "send_conn c m s =
     (if conn_open c s then (s\<lparr>ss_out := ss_out s @ [(c, m)]\<rparr>, Inr ()) else (s, Inl (lit ''channel closed'')))"

section \<open>Messages\<close>

datatype ws_in = Ws_text "fmt_text + signaling_msg" | Ws_other | Ws_error fmt_text

definition resp_unsupported :: "string \<Rightarrow> ws_out" where
  "resp_unsupported msg = Ws_close (Some msg)"

definition check_id :: "server_id \<Rightarrow> conn \<Rightarrow> server_id \<Rightarrow> sig_server \<Rightarrow> sig_server \<times> (fmt_text + unit)" where
  "check_id provided c recorded s =
     (if recorded \<noteq> provided
      then (case send_conn c
                (resp_unsupported ''You are using a endpoint id different from the one recorded'') s of
              (s, Inl e) \<Rightarrow> (s, Inl e)
            | (s, Inr _) \<Rightarrow> (s, Inl (lit ''Endpoint tries to use a different endpoint as previously used'')))
      else (s, Inr ()))"

text \<open>Relaying a message between two endpoints. The apostrophe of the reason is U+2019 in UTF-8.\<close>

definition relay :: "conn \<Rightarrow> server_id \<Rightarrow> server_id \<Rightarrow> server_id \<Rightarrow> signaling_msg \<Rightarrow> sig_server \<Rightarrow>
     sig_server \<times> (fmt_text + unit)" where
  "relay c recorded sender receiver m s =
     (case check_id sender c recorded s of
        (s, Inl e) \<Rightarrow> (s, Inl e)
      | (s, Inr _) \<Rightarrow>
          (case get_endpoint_info receiver s of
             None \<Rightarrow> send_conn c (Ws_msg (SM_id_not_found sender (''No endpoint found for id: '' @ receiver))) s
           | Some info \<Rightarrow>
               if sender \<notin> set (ei_trusted info)
               then send_conn c (Ws_msg (SM_rejected sender
                 (''Sender not in '' @ receiver @ map char_of [226 :: nat, 128, 153] @ ''s trust list''))) s
               else send_conn (ei_msg_tx info) (Ws_msg m) s))"

text \<open>\<open>now\<close> is the time since the epoch in seconds.\<close>

definition handle_message ::
  "nat \<Rightarrow> conn \<Rightarrow> server_id \<Rightarrow> ws_in \<Rightarrow> sig_server \<Rightarrow> sig_server \<times> (fmt_text + unit)" where
  "handle_message now c recorded msg s =
     (case msg of
        Ws_error e \<Rightarrow> (s, Inl e)
      | Ws_other \<Rightarrow> send_conn c (Ws_close (Some ''We only support text message'')) s
      | Ws_text (Inl e) \<Rightarrow> (s, Inl e)
      | Ws_text (Inr m) \<Rightarrow>
          (case m of
             SM_trust sender trusted \<Rightarrow>
               (case check_id sender c recorded s of
                  (s, Inl e) \<Rightarrow> (s, Inl e)
                | (s, Inr _) \<Rightarrow>
                    send_conn c (Ws_msg (SM_trusted sender trusted)) (update_trust sender (remdups trusted) s))
           | SM_connect sender receiver initiator \<Rightarrow> relay c recorded sender receiver m s
           | SM_sdp sender receiver sdp \<Rightarrow> relay c recorded sender receiver m s
           | SM_candidate sender receiver candidate \<Rightarrow> relay c recorded sender receiver m s
           | SM_ping \<Rightarrow> (alter_conn c (\<lambda>k. k\<lparr>sc_last_ping := now\<rparr>) s, Inr ())
           | SM_pong \<Rightarrow> (s, Inr ())
           | _ \<Rightarrow> send_conn c (resp_unsupported ''Send Connect, SDP, Candidate, Trust, or Ping only'') s))"

section \<open>Connections\<close>

text \<open>
  The first part of \<open>handle_connection\<close>: the upgrade with its check of the headers, and the
  registration, which overrides an older one of the same id.
\<close>

definition accept_bind :: "nat \<Rightarrow> instant \<Rightarrow> conn \<Rightarrow> server_id \<times> server_id hash_set \<Rightarrow> sig_server \<Rightarrow> sig_server" where
  "accept_bind now at c bound s =
     (let (i, trusted) = bound in
      s\<lparr>ss_endpoint_map := AList.update i \<lparr>ei_msg_tx = c, ei_trusted = trusted\<rparr> (ss_endpoint_map s),
        ss_conns := AList.update c
          \<lparr>sc_endpoint_id = i, sc_open = True, sc_stopped = False, sc_last_ping = now, sc_bound_at = at\<rparr>
          (ss_conns s)\<rparr>)"

text \<open>The loop of \<open>handle_connection\<close> on one message.\<close>

definition serve_message :: "nat \<Rightarrow> conn \<Rightarrow> sig_conn \<Rightarrow> ws_in \<Rightarrow> sig_server \<Rightarrow> sig_server" where
  "serve_message now c k msg s =
     (case handle_message now c (sc_endpoint_id k) msg s of
        (s, Inr _) \<Rightarrow> s
      | (s, Inl _) \<Rightarrow> alter_conn c (\<lambda>k. k\<lparr>sc_stopped := True\<rparr>) (fst (send_conn c (Ws_close None) s)))"

text \<open>The end of a connection, in the task that \<open>run_signaling_server\<close> has spawned for it.\<close>

definition end_connection :: "conn \<Rightarrow> sig_conn \<Rightarrow> sig_server \<Rightarrow> sig_server" where
  "end_connection c k s =
     remove_endpoint (sc_endpoint_id k) (s\<lparr>ss_conns := AList.delete c (ss_conns s)\<rparr>)"

definition MAX_CONNECTION_LIFETIME_SECS :: nat where
  "MAX_CONNECTION_LIFETIME_SECS = 12 * 60 * 60"

definition INACTIVE_TIMEOUT_SECS :: nat where
  "INACTIVE_TIMEOUT_SECS = 600"

text \<open>
  The periodic check of the stream task, with the time since the epoch in seconds and the
  \<open>Instant\<close>; it panics when the last ping is in the future.
\<close>

definition close_reason :: "nat \<Rightarrow> instant \<Rightarrow> sig_conn \<Rightarrow> string option option" where
  "close_reason now at k =
     (if duration_since at (sc_bound_at k) > secs MAX_CONNECTION_LIFETIME_SECS
      then Some (Some ''12-hour limit reached, need re-auth'')
      else do {
        idle \<leftarrow> sub_c now (sc_last_ping k);
        Some (if idle > INACTIVE_TIMEOUT_SECS then Some ''No ping received in 10 minutes'' else None) })"

definition check_activity :: "nat \<Rightarrow> instant \<Rightarrow> conn \<Rightarrow> sig_conn \<Rightarrow> sig_server \<Rightarrow> sig_server" where
  "check_activity now at c k s =
     (case close_reason now at k of
        None \<Rightarrow> alter_conn c (\<lambda>k. k\<lparr>sc_open := False\<rparr>) s
      | Some None \<Rightarrow> s
      | Some (Some reason) \<Rightarrow>
          alter_conn c (\<lambda>k. k\<lparr>sc_open := False\<rparr>)
            (s\<lparr>ss_out := ss_out s @ [(c, Ws_msg (SM_terminate reason)), (c, Ws_close None)]\<rparr>))"

section \<open>The server\<close>

datatype sig_event =
    Se_upgrade conn headers
  | Se_message conn ws_in
  | Se_tick conn
  | Se_stream_closed conn
  | Se_end conn

record sig_env =
  se_crypto :: crypto
  se_to_str :: "string \<Rightarrow> string option"
  se_now :: u64
  se_at :: instant

text \<open>
  An upgrade is a new connection. The stream task ends by itself when the client closes (or a send to it
  fails); the connection ends when its stream task has gone or \<open>handle_connection\<close> has stopped.
\<close>

definition sig_step :: "sig_env \<Rightarrow> sig_event \<Rightarrow> sig_server \<Rightarrow> sig_server option" where
  "sig_step v ev s =
     (case ev of
        Se_upgrade c hs \<Rightarrow>
          (case (map_of (ss_conns s) c, validate_bind (se_crypto v) (se_to_str v) (se_now v) hs) of
             (None, Inr bound) \<Rightarrow> Some (accept_bind (unat (se_now v)) (se_at v) c bound s)
           | (None, Inl _) \<Rightarrow> Some s
           | (Some _, _) \<Rightarrow> None)
      | Se_message c m \<Rightarrow>
          (case map_of (ss_conns s) c of
             Some k \<Rightarrow> if sc_stopped k then None else Some (serve_message (unat (se_now v)) c k m s)
           | None \<Rightarrow> None)
      | Se_tick c \<Rightarrow>
          (case map_of (ss_conns s) c of
             Some k \<Rightarrow> if sc_open k then Some (check_activity (unat (se_now v)) (se_at v) c k s) else None
           | None \<Rightarrow> None)
      | Se_stream_closed c \<Rightarrow>
          (if conn_open c s then Some (alter_conn c (\<lambda>k. k\<lparr>sc_open := False\<rparr>) s) else None)
      | Se_end c \<Rightarrow>
          (case map_of (ss_conns s) c of
             Some k \<Rightarrow> if sc_stopped k \<or> \<not> sc_open k then Some (end_connection c k s) else None
           | None \<Rightarrow> None))"

text \<open>A run of the server: events with what the environment has at each of them.\<close>

type_synonym sig_history = "(sig_env \<times> sig_event) list"

fun sig_run :: "sig_history \<Rightarrow> sig_server \<Rightarrow> sig_server option" where
  "sig_run [] s = Some s"
| "sig_run ((v, ev) # evs) s = Option.bind (sig_step v ev s) (sig_run evs)"

lemma sig_run_snoc: "sig_run (evs @ [(v, ev)]) s = Option.bind (sig_run evs s) (sig_step v ev)"
  by (induction evs s rule: sig_run.induct) (auto split: bind_splits)

section \<open>Invariant\<close>

text \<open>
  What the headers of an upgrade prove at the time of the upgrade: the id is claimed in them, the
  identity is at most thirty seconds away from now, it is signed with the key of its certificate, and
  the hash in the id is that of the certificate.
\<close>

definition proves :: "sig_env \<Rightarrow> headers \<Rightarrow> server_id \<Rightarrow> bool" where
  "proves v hs i \<longleftrightarrow> (\<exists>text identity sig sig_bytes pub.
     header_str (se_to_str v) hs BIND_HEADER_ID = Inr i \<and>
     header_str (se_to_str v) hs BIND_HEADER_IDENTITY = Inr text \<and>
     parse_identity_header (se_crypto v) text = Inr identity \<and>
     header_str (se_to_str v) hs BIND_HEADER_SIGNATURE = Inr sig \<and>
     abs_diff (se_now v) (id_timestamp identity) \<le> MAX_TIMESTAMP_OFFSET \<and>
     cr_b64_decode (se_crypto v) sig = Inr sig_bytes \<and>
     cr_parse_cert (se_crypto v) (id_cert identity) = Inr pub \<and>
     cr_verify (se_crypto v) pub (identity_to_bytes (se_crypto v) identity) sig_bytes \<and>
     id_hash i = Some (hash_der (se_crypto v) (id_cert identity)))"

lemma validate_bind_proves:
  "validate_bind (se_crypto v) (se_to_str v) (se_now v) hs = Inr (i, trusted) \<Longrightarrow> proves v hs i"
  unfolding validate_bind_def verify_identity_def proves_def
  by (auto split: sum.split_asm if_split_asm)

text \<open>
  The id proved on a connection, from the history: by the headers of the upgrade that opened it; it
  has not ended since, and was not opened again.
\<close>

definition proved_on :: "sig_history \<Rightarrow> conn \<Rightarrow> server_id \<Rightarrow> bool" where
  "proved_on evs c i \<longleftrightarrow> (\<exists>before v hs after. evs = before @ (v, Se_upgrade c hs) # after \<and> proves v hs i \<and>
     (\<forall>ev \<in> snd ` set after. ev \<noteq> Se_end c \<and> (\<forall>hs'. ev \<noteq> Se_upgrade c hs')))"

lemma proved_now: "proves v hs i \<Longrightarrow> proved_on (evs @ [(v, Se_upgrade c hs)]) c i"
  unfolding proved_on_def by (intro exI [of _ evs] exI [of _ v] exI [of _ hs] exI [of _ "[]"]) simp

lemma proved_still:
  assumes "proved_on evs c i" and "ev \<noteq> Se_end c" and "\<forall>hs. ev \<noteq> Se_upgrade c hs"
  shows "proved_on (evs @ [(v, ev)]) c i"
proof -
  obtain before w hs after where "evs = before @ (w, Se_upgrade c hs) # after" "proves w hs i"
      "\<forall>ev \<in> snd ` set after. ev \<noteq> Se_end c \<and> (\<forall>hs'. ev \<noteq> Se_upgrade c hs')"
    using assms(1) by (auto simp: proved_on_def)
  with assms(2,3) show ?thesis
    unfolding proved_on_def
    by (intro exI [of _ before] exI [of _ w] exI [of _ hs] exI [of _ "after @ [(v, ev)]"]) auto
qed

text \<open>Every endpoint is listed with the connection that has bound it.\<close>

definition sig_ok :: "sig_server \<Rightarrow> bool" where
  "sig_ok s \<longleftrightarrow>
     (\<forall>i e. map_of (ss_endpoint_map s) i = Some e \<longrightarrow>
        (\<exists>k. map_of (ss_conns s) (ei_msg_tx e) = Some k \<and> sc_endpoint_id k = i))"

text \<open>Changes that keep the ids of connections and the channels of endpoints, and only add to the output.\<close>

definition same_ids :: "sig_server \<Rightarrow> sig_server \<Rightarrow> bool" where
  "same_ids s t \<longleftrightarrow>
     (\<forall>c. map_option sc_endpoint_id (map_of (ss_conns t) c) = map_option sc_endpoint_id (map_of (ss_conns s) c)) \<and>
     (\<forall>i. map_option ei_msg_tx (map_of (ss_endpoint_map t) i) = map_option ei_msg_tx (map_of (ss_endpoint_map s) i)) \<and>
     prefix (ss_out s) (ss_out t)"

lemma same_ids_refl [simp]: "same_ids s s"
  by (simp add: same_ids_def)

lemma same_ids_trans: "same_ids s t \<Longrightarrow> same_ids t u \<Longrightarrow> same_ids s u"
  by (auto simp: same_ids_def intro: prefix_order.trans)

lemma sig_ok_ids:
  "sig_ok s \<longleftrightarrow>
     (\<forall>i c. map_option ei_msg_tx (map_of (ss_endpoint_map s) i) = Some c \<longrightarrow>
        map_option sc_endpoint_id (map_of (ss_conns s) c) = Some i)"
  by (auto simp: sig_ok_def)

lemma same_ids_ok: "same_ids s t \<Longrightarrow> sig_ok s \<Longrightarrow> sig_ok t"
  by (simp only: same_ids_def sig_ok_ids)

lemma same_ids_steps [simp]:
  "same_ids s (s\<lparr>ss_out := ss_out s @ xs\<rparr>)"
  "same_ids s (update_trust i trusted s)"
  "same_ids s (fst (send_conn c m s))"
  by (auto simp: same_ids_def update_trust_def send_conn_def split: option.split)

lemma same_ids_alter: "(\<And>k. sc_endpoint_id (f k) = sc_endpoint_id k) \<Longrightarrow> same_ids s (alter_conn c f s)"
  by (auto simp: same_ids_def alter_conn_def split: option.split)

lemma send_conn_same: "send_conn c m s = (t, r) \<Longrightarrow> same_ids s t"
  by (metis fst_conv same_ids_steps(3))

lemma check_id_same: "check_id i c recorded s = (t, r) \<Longrightarrow> same_ids s t"
  by (auto simp: check_id_def split: if_split_asm prod.split_asm sum.split_asm dest: send_conn_same)

lemma relay_same: "relay c recorded a b m s = (t, r) \<Longrightarrow> same_ids s t"
  unfolding relay_def
  by (auto split: prod.split_asm sum.split_asm option.split_asm if_split_asm
      dest!: send_conn_same check_id_same intro: same_ids_trans)

lemma handle_message_same:
  assumes "handle_message now c recorded m s = (t, r)"
  shows "same_ids s t"
proof (cases "\<exists>i trusted. m = Ws_text (Inr (SM_trust i trusted))")
  case True
  then obtain i trusted where m: "m = Ws_text (Inr (SM_trust i trusted))" by blast
  obtain s1 r1 where c: "check_id i c recorded s = (s1, r1)" by fastforce
  note s1 = check_id_same [OF c]
  show ?thesis
  proof (cases r1)
    case (Inl e)
    with assms m c s1 show ?thesis by (simp add: handle_message_def)
  next
    case (Inr u)
    with assms m c have "same_ids (update_trust i (remdups trusted) s1) t"
      by (auto simp: handle_message_def dest: send_conn_same)
    then show ?thesis using s1 by (meson same_ids_steps(2) same_ids_trans)
  qed
next
  case False
  have "same_ids s (alter_conn c (\<lambda>k. k\<lparr>sc_last_ping := now\<rparr>) s)" by (simp add: same_ids_alter)
  with False assms show ?thesis
    by (auto simp: handle_message_def split: ws_in.split_asm sum.split_asm signaling_msg.split_asm
        dest: send_conn_same relay_same)
qed

lemma serve_message_same: "same_ids s (serve_message now c k m s)"
proof -
  obtain t r where h: "handle_message now c (sc_endpoint_id k) m s = (t, r)" by fastforce
  note t = handle_message_same [OF h]
  show ?thesis
  proof (cases r)
    case (Inl e)
    have "same_ids (fst (send_conn c (Ws_close None) t)) (serve_message now c k m s)"
      using Inl h by (simp add: serve_message_def same_ids_alter)
    with t show ?thesis by (meson same_ids_steps(3) same_ids_trans)
  next
    case (Inr u)
    with h t show ?thesis by (simp add: serve_message_def)
  qed
qed

lemma check_activity_same: "same_ids s (check_activity now at c k s)"
  unfolding check_activity_def
  by (auto split: option.split intro!: same_ids_alter same_ids_trans [OF same_ids_steps(1) same_ids_alter])

text \<open>What an event does to the connections.\<close>

lemma sig_step_cases:
  assumes "sig_step v ev s = Some t"
  obtains (bound) c hs i trusted where "ev = Se_upgrade c hs" "map_of (ss_conns s) c = None" "proves v hs i"
      "t = accept_bind (unat (se_now v)) (se_at v) c (i, trusted) s"
    | (ended) c k where "ev = Se_end c" "map_of (ss_conns s) c = Some k" "t = end_connection c k s"
    | (same) "same_ids s t" "\<forall>c. ev \<noteq> Se_end c"
        "\<forall>c hs. ev = Se_upgrade c hs \<longrightarrow> map_of (ss_conns s) c = None"
proof (cases ev)
  case (Se_upgrade c hs)
  show ?thesis
  proof (cases "validate_bind (se_crypto v) (se_to_str v) (se_now v) hs")
    case (Inl e)
    with Se_upgrade assms show ?thesis by (intro same) (auto simp: sig_step_def split: option.split_asm)
  next
    case (Inr b)
    obtain i trusted where b: "b = (i, trusted)" by fastforce
    show ?thesis
      using Se_upgrade assms Inr b validate_bind_proves [of v hs i trusted]
      by (intro bound [of c hs i trusted]) (auto simp: sig_step_def split: option.split_asm)
  qed
next
  case (Se_message c m)
  with assms serve_message_same show ?thesis
    by (intro same) (auto simp: sig_step_def split: option.split_asm if_split_asm)
next
  case (Se_tick c)
  with assms check_activity_same show ?thesis
    by (intro same) (auto simp: sig_step_def split: option.split_asm if_split_asm)
next
  case (Se_stream_closed c)
  with assms same_ids_alter show ?thesis
    by (intro same) (auto simp: sig_step_def split: if_split_asm)
next
  case (Se_end c)
  with assms ended show ?thesis
    by (auto simp: sig_step_def split: option.split_asm if_split_asm)
qed

lemma sig_ok_step:
  assumes "sig_ok s" and "sig_step v ev s = Some t"
  shows "sig_ok t"
  using assms(2)
proof (cases rule: sig_step_cases)
  case (bound c hs i trusted)
  with assms(1) show ?thesis by (force simp: sig_ok_def accept_bind_def)
next
  case (ended c k)
  have "ei_msg_tx e \<noteq> c" if "map_of (ss_endpoint_map s) i = Some e" "i \<noteq> sc_endpoint_id k" for i e
    using that ended(2) assms(1) by (metis option.inject sig_ok_def)
  with ended assms(1) show ?thesis by (auto simp: sig_ok_def end_connection_def remove_endpoint_def)
qed (use assms(1) same_ids_ok in blast)

text \<open>A connection keeps the id it was opened with.\<close>

lemma conn_step_id:
  assumes "sig_step v ev s = Some t" and "map_of (ss_conns t) c = Some k"
  shows "(\<exists>hs. ev = Se_upgrade c hs \<and> proves v hs (sc_endpoint_id k)) \<or>
    (\<exists>k'. map_of (ss_conns s) c = Some k' \<and> sc_endpoint_id k' = sc_endpoint_id k \<and>
       ev \<noteq> Se_end c \<and> (\<forall>hs. ev \<noteq> Se_upgrade c hs))"
  using assms(1)
proof (cases rule: sig_step_cases)
  case (bound c0 hs i trusted)
  with assms(2) show ?thesis by (auto simp: accept_bind_def split: if_split_asm)
next
  case (ended c0 k0)
  with assms(2) show ?thesis by (auto simp: end_connection_def remove_endpoint_def split: if_split_asm)
next
  case same
  have "map_option sc_endpoint_id (map_of (ss_conns s) c) = Some (sc_endpoint_id k)"
    using same(1) assms(2) by (metis option.simps(9) same_ids_def)
  with same(2,3) show ?thesis by fastforce
qed

lemma sig_run_facts:
  assumes "sig_run evs sig_server_new = Some s"
  shows "sig_ok s" and "\<forall>c k. map_of (ss_conns s) c = Some k \<longrightarrow> proved_on evs c (sc_endpoint_id k)"
proof -
  have "sig_ok s \<and> (\<forall>c k. map_of (ss_conns s) c = Some k \<longrightarrow> proved_on evs c (sc_endpoint_id k))"
    using assms
  proof (induction evs arbitrary: s rule: rev_induct)
    case Nil
    then show ?case by (auto simp: sig_server_new_def sig_ok_def)
  next
    case (snoc x evs)
    obtain v ev where x: "x = (v, ev)" by fastforce
    from snoc.prems x obtain r where r: "sig_run evs sig_server_new = Some r" "sig_step v ev r = Some s"
      by (auto simp: sig_run_snoc bind_eq_Some_conv)
    have "proved_on (evs @ [x]) c (sc_endpoint_id k)" if "map_of (ss_conns s) c = Some k" for c k
      using conn_step_id [OF r(2) that] snoc.IH [OF r(1)] x proved_now proved_still by metis
    with sig_ok_step [OF _ r(2)] snoc.IH [OF r(1)] show ?case by blast
  qed
  then show "sig_ok s" "\<forall>c k. map_of (ss_conns s) c = Some k \<longrightarrow> proved_on evs c (sc_endpoint_id k)" by simp_all
qed

end
