(* ===== verification/Signaling_Tasks.thy ===== *)
theory Signaling_Tasks
  imports Signaling_Server
begin

text \<open>
  The two tasks that serve one connection of the signaling server, with the bounds of the channels
  between them: \<open>send_receive_stream\<close> hands each message of the client to \<open>handle_connection\<close> through
  a channel that holds one, and takes the answers from another that holds one. While the stream task
  waits for room it takes no answer. The messages are those a client addresses to the server itself.
\<close>

datatype stream_task = Selecting | Forwarding signaling_msg
datatype handler_task = Receiving | Sending ws_out

record tasks =
  tk_input :: "signaling_msg list"
  tk_stream :: stream_task
  tk_req :: "signaling_msg list"
  tk_handler :: handler_task
  tk_resp :: "ws_out list"
  tk_output :: "ws_out list"

definition CHANNEL_SIZE :: nat where
  "CHANNEL_SIZE = 1"

text \<open>What \<open>handle_message\<close> answers to the client itself, on a server with no other connection.\<close>

definition answer_to :: "server_id \<Rightarrow> signaling_msg \<Rightarrow> ws_out option" where
  "answer_to i m =
     (case ss_out (fst (handle_message 0 0 i (Ws_text (Inr m)) (accept_bind 0 0 0 (i, []) sig_server_new))) of
        [] \<Rightarrow> None
      | (_, r) # _ \<Rightarrow> Some r)"

definition tasks_start :: "signaling_msg list \<Rightarrow> tasks" where
  "tasks_start ms = \<lparr>tk_input = ms, tk_stream = Selecting, tk_req = [], tk_handler = Receiving,
     tk_resp = [], tk_output = []\<rparr>"

text \<open>The client sends all it wants to at once; each step is what one task does between two waits.\<close>

inductive task_step :: "server_id \<Rightarrow> tasks \<Rightarrow> tasks \<Rightarrow> bool" for i where
  read: "tk_stream t = Selecting \<Longrightarrow> tk_input t = m # ms \<Longrightarrow>
    task_step i t (t\<lparr>tk_input := ms, tk_stream := Forwarding m\<rparr>)"
| forward: "tk_stream t = Forwarding m \<Longrightarrow> length (tk_req t) < CHANNEL_SIZE \<Longrightarrow>
    task_step i t (t\<lparr>tk_req := tk_req t @ [m], tk_stream := Selecting\<rparr>)"
| receive: "tk_handler t = Receiving \<Longrightarrow> tk_req t = m # ms \<Longrightarrow>
    task_step i t (t\<lparr>tk_req := ms,
      tk_handler := (case answer_to i m of None \<Rightarrow> Receiving | Some r \<Rightarrow> Sending r)\<rparr>)"
| respond: "tk_handler t = Sending r \<Longrightarrow> length (tk_resp t) < CHANNEL_SIZE \<Longrightarrow>
    task_step i t (t\<lparr>tk_resp := tk_resp t @ [r], tk_handler := Receiving\<rparr>)"
| hand_out: "tk_stream t = Selecting \<Longrightarrow> tk_resp t = r # rs \<Longrightarrow>
    task_step i t (t\<lparr>tk_resp := rs, tk_output := tk_output t @ [r]\<rparr>)"

definition stuck :: "server_id \<Rightarrow> tasks \<Rightarrow> bool" where
  "stuck i t \<longleftrightarrow> (\<forall>u. \<not> task_step i t u)"

text \<open>Nothing is left to do.\<close>

definition all_served :: "tasks \<Rightarrow> bool" where
  "all_served t \<longleftrightarrow> tk_input t = [] \<and> tk_stream t = Selecting \<and> tk_req t = [] \<and> tk_handler t = Receiving \<and>
     tk_resp t = []"

section \<open>Answers\<close>

text \<open>The answers that messages get, in their order.\<close>

definition answers :: "server_id \<Rightarrow> signaling_msg list \<Rightarrow> ws_out list" where
  "answers i = List.map_filter (answer_to i)"

lemma answers_simps [simp]:
  "answers i [] = []" "answers i (m # ms) = (case answer_to i m of None \<Rightarrow> [] | Some r \<Rightarrow> [r]) @ answers i ms"
  "answers i (ms @ ns) = answers i ms @ answers i ns"
  by (simp_all add: answers_def map_filter_def split: option.split)

definition forwarded :: "stream_task \<Rightarrow> signaling_msg list" where
  "forwarded k = (case k of Selecting \<Rightarrow> [] | Forwarding m \<Rightarrow> [m])"

definition sending :: "handler_task \<Rightarrow> ws_out list" where
  "sending k = (case k of Receiving \<Rightarrow> [] | Sending r \<Rightarrow> [r])"

text \<open>Nothing is lost, added or reordered: the answers given, on the way and to be given stay the same.\<close>

definition all_answers :: "server_id \<Rightarrow> tasks \<Rightarrow> ws_out list" where
  "all_answers i t = tk_output t @ tk_resp t @ sending (tk_handler t) @
     answers i (tk_req t @ forwarded (tk_stream t) @ tk_input t)"

lemma all_answers_step: "task_step i t u \<Longrightarrow> all_answers i u = all_answers i t"
  by (induction rule: task_step.induct)
    (auto simp: all_answers_def forwarded_def sending_def split: option.split)

lemma all_answers_steps: "(task_step i)\<^sup>*\<^sup>* t u \<Longrightarrow> all_answers i u = all_answers i t"
  by (induction rule: rtranclp_induct) (auto dest: all_answers_step)

section \<open>When the tasks wait for each other\<close>

definition stream_size :: "stream_task \<Rightarrow> nat" where
  "stream_size k = (case k of Selecting \<Rightarrow> 0 | Forwarding _ \<Rightarrow> 1)"

definition handler_size :: "handler_task \<Rightarrow> nat" where
  "handler_size k = (case k of Receiving \<Rightarrow> 0 | Sending _ \<Rightarrow> 1)"

text \<open>The messages and answers between the client and itself.\<close>

definition in_tasks :: "tasks \<Rightarrow> nat" where
  "in_tasks t = length (tk_input t) + stream_size (tk_stream t) + length (tk_req t) +
     handler_size (tk_handler t) + length (tk_resp t)"

lemma in_tasks_step: "task_step i t u \<Longrightarrow> in_tasks u \<le> in_tasks t"
  by (induction rule: task_step.induct)
    (auto simp: in_tasks_def stream_size_def handler_size_def split: option.split)

lemma in_tasks_steps: "(task_step i)\<^sup>*\<^sup>* t u \<Longrightarrow> in_tasks u \<le> in_tasks t"
  by (induction rule: rtranclp_induct) (auto dest: in_tasks_step)

lemma stuck_cases:
  assumes "stuck i t"
  shows "all_served t \<or>
    (\<exists>m r. tk_stream t = Forwarding m \<and> tk_handler t = Sending r \<and> tk_req t \<noteq> [] \<and> tk_resp t \<noteq> [])"
proof -
  have no: "\<not> task_step i t u" for u using assms by (simp add: stuck_def)
  have resp: "tk_resp t \<noteq> []" if "tk_handler t = Sending r" for r
    using no task_step.respond [OF that] by (auto simp: CHANNEL_SIZE_def)
  show ?thesis
  proof (cases "tk_stream t")
    case Selecting
    have "tk_resp t = []" using no task_step.hand_out [OF Selecting] by (cases "tk_resp t") auto
    moreover have "tk_input t = []" using no task_step.read [OF Selecting] by (cases "tk_input t") auto
    moreover have h: "tk_handler t = Receiving" using resp calculation(1) by (cases "tk_handler t") auto
    moreover have "tk_req t = []" using no task_step.receive [OF h] by (cases "tk_req t") auto
    ultimately show ?thesis using Selecting by (simp add: all_served_def)
  next
    case (Forwarding m)
    have q: "tk_req t \<noteq> []" using no task_step.forward [OF Forwarding] by (auto simp: CHANNEL_SIZE_def)
    have "tk_handler t \<noteq> Receiving" using no task_step.receive [of t] q by (cases "tk_req t") auto
    then obtain r where "tk_handler t = Sending r" by (cases "tk_handler t") auto
    with Forwarding q resp show ?thesis by blast
  qed
qed

lemma short_bursts_served:
  assumes "(task_step i)\<^sup>*\<^sup>* (tasks_start ms) t" and "length ms < 4" and "stuck i t"
  shows "all_served t"
proof (rule ccontr)
  assume "\<not> all_served t"
  with stuck_cases [OF assms(3)] obtain m r where t: "tk_stream t = Forwarding m" "tk_handler t = Sending r"
      "tk_req t \<noteq> []" "tk_resp t \<noteq> []" by blast
  then have "4 \<le> in_tasks t"
    by (cases "tk_req t"; cases "tk_resp t") (auto simp: in_tasks_def stream_size_def handler_size_def)
  with in_tasks_steps [OF assms(1)] assms(2) show False
    by (simp add: in_tasks_def tasks_start_def stream_size_def handler_size_def)
qed

lemma short_bursts_answered:
  assumes "(task_step i)\<^sup>*\<^sup>* (tasks_start ms) t" and "length ms < 4" and "stuck i t"
  shows "tk_output t = answers i ms"
  using short_bursts_served [OF assms] all_answers_steps [OF assms(1)]
  by (simp add: all_answers_def all_served_def tasks_start_def forwarded_def sending_def)

lemma long_burst_stuck:
  assumes a: "answer_to i m1 = Some r" and b: "answer_to i m2 = Some r'"
  shows "\<exists>t. (task_step i)\<^sup>*\<^sup>* (tasks_start (m1 # m2 # m3 # m4 # ms)) t \<and> stuck i t \<and> tk_output t = []"
proof -
  let ?t = "\<lambda>inp st req h resp. \<lparr>tk_input = inp, tk_stream = st, tk_req = req, tk_handler = h,
     tk_resp = resp, tk_output = []\<rparr>"
  note steps = task_step.intros [of "?t _ _ _ _ _", simplified] and size = CHANNEL_SIZE_def
  have "task_step i (?t (m1 # m2 # m3 # m4 # ms) Selecting [] Receiving []) (?t (m2 # m3 # m4 # ms) (Forwarding m1) [] Receiving [])"
    using steps(1) by simp
  moreover have "task_step i (?t (m2 # m3 # m4 # ms) (Forwarding m1) [] Receiving []) (?t (m2 # m3 # m4 # ms) Selecting [m1] Receiving [])"
    using steps(2) by (simp add: size)
  moreover have "task_step i (?t (m2 # m3 # m4 # ms) Selecting [m1] Receiving []) (?t (m2 # m3 # m4 # ms) Selecting [] (Sending r) [])"
    using steps(3) a by (metis (no_types, lifting) option.simps(5))
  moreover have "task_step i (?t (m2 # m3 # m4 # ms) Selecting [] (Sending r) []) (?t (m2 # m3 # m4 # ms) Selecting [] Receiving [r])"
    using steps(4) by (simp add: size)
  moreover have "task_step i (?t (m2 # m3 # m4 # ms) Selecting [] Receiving [r]) (?t (m3 # m4 # ms) (Forwarding m2) [] Receiving [r])"
    using steps(1) by simp
  moreover have "task_step i (?t (m3 # m4 # ms) (Forwarding m2) [] Receiving [r]) (?t (m3 # m4 # ms) Selecting [m2] Receiving [r])"
    using steps(2) by (simp add: size)
  moreover have "task_step i (?t (m3 # m4 # ms) Selecting [m2] Receiving [r]) (?t (m3 # m4 # ms) Selecting [] (Sending r') [r])"
    using steps(3) b by (metis (no_types, lifting) option.simps(5))
  moreover have "task_step i (?t (m3 # m4 # ms) Selecting [] (Sending r') [r]) (?t (m4 # ms) (Forwarding m3) [] (Sending r') [r])"
    using steps(1) by simp
  moreover have "task_step i (?t (m4 # ms) (Forwarding m3) [] (Sending r') [r]) (?t (m4 # ms) Selecting [m3] (Sending r') [r])"
    using steps(2) by (simp add: size)
  moreover have "task_step i (?t (m4 # ms) Selecting [m3] (Sending r') [r]) (?t ms (Forwarding m4) [m3] (Sending r') [r])"
    using steps(1) by simp
  ultimately have "(task_step i)\<^sup>*\<^sup>* (tasks_start (m1 # m2 # m3 # m4 # ms)) (?t ms (Forwarding m4) [m3] (Sending r') [r])"
    unfolding tasks_start_def by (meson converse_rtranclp_into_rtranclp r_into_rtranclp)
  moreover have "stuck i (?t ms (Forwarding m4) [m3] (Sending r') [r])"
    by (auto simp: stuck_def size elim: task_step.cases)
  ultimately show ?thesis by (metis tasks.select_convs(6))
qed

end
