(* ===== verification/Signaling_Client.thy ===== *)
theory Signaling_Client
  imports Signaling_Server
begin

text \<open>
  The signaling client of \<open>signaling/client.rs\<close>: \<open>SignalingChannel\<close>, which keeps one client per
  signaling server, and the actor \<open>RealSignalingClient\<close> behind each, with the sockets its peers'
  SDP and candidates go to. An event of the model is what the channel's caller or an actor does
  between two waits. The in-process client for tests is in \<open>Test_Signaling\<close>.
\<close>

type_synonym actor_id = nat
type_synonym sock_id = nat

section \<open>Requests\<close>

text \<open>
  What the crate \<open>http\<close> is asked for: the authority of a URI, a random key, and whether a string may
  be the value of a header.
\<close>

record http =
  ht_authority :: "string \<Rightarrow> fmt_text + string"
  ht_key :: string
  ht_value_ok :: "string \<Rightarrow> bool"

definition build_bind_request ::
  "http \<Rightarrow> string \<Rightarrow> server_id \<Rightarrow> string \<Rightarrow> string \<Rightarrow> string \<Rightarrow> fmt_text + headers" where
  "build_bind_request ht addr i identity_str signature_str trusted_header =
     (case ht_authority ht addr of
        Inl e \<Rightarrow> Inl e
      | Inr host \<Rightarrow>
          (let hs =
            [(''Host'', host), (''Connection'', ''Upgrade''), (''Upgrade'', ''websocket''),
             (''Sec-WebSocket-Version'', ''13''), (''Sec-WebSocket-Key'', ht_key ht),
             (BIND_HEADER_ID, i), (BIND_HEADER_IDENTITY, identity_str),
             (BIND_HEADER_SIGNATURE, signature_str), (BIND_HEADER_TRUSTED, trusted_header)]
           in if list_all (\<lambda>(_, x). ht_value_ok ht x) hs then Inr hs else Inl (lit ''building upgrade request'')))"

text \<open>The checks and headers of \<open>bind_real\<close>.\<close>

definition bind_headers ::
  "crypto \<Rightarrow> http \<Rightarrow> u64 \<Rightarrow> string \<Rightarrow> server_id \<Rightarrow> key_cert \<Rightarrow> server_id list \<Rightarrow>
     fmt_text + headers" where
  "bind_headers cr ht now addr i kc trusted =
     (let hash = cert_der_hash cr kc in
      if id_hash i \<noteq> Some hash
      then Inl (Fmt ''Endpoint id hash {} doesn't match our cert hash {}'' [A_str (the (id_hash i)), A_str hash])
      else case sign_identity cr now kc of
        Inl e \<Rightarrow> Inl e
      | Inr (identity, signature) \<Rightarrow>
          (case encode_trusted_header trusted of
             Inl e \<Rightarrow> Inl e
           | Inr trusted_header \<Rightarrow>
               build_bind_request ht addr i (identity_to_string cr identity) signature trusted_header))"

section \<open>State\<close>

datatype command = Cmd_send signaling_msg | Cmd_create_sock server_id

text \<open>
  What an actor does to the world: text on its socket to the server, messages to the server loop
  (an error is the reason accepting has stopped), and what reaches the sockets of peers.
\<close>

datatype client_out =
    To_ws actor_id signaling_msg
  | To_loop string "fmt_text + signaling_msg"
  | Sock_made sock_id server_id server_id
  | Sock_sdp sock_id string
  | Sock_candidate sock_id string
  | Shut_down actor_id

datatype actor_phase = Connecting "server_id list" | Running

text \<open>
  An actor with the commands waiting for it. The shutdown command of \<open>remove\<close> is sent by a task of its
  own, so it may arrive at any time after: \<open>ac_removed\<close> says that it is under way.
\<close>

record actor =
  ac_id :: server_id
  ac_addr :: string
  ac_phase :: actor_phase
  ac_socks :: "(server_id, sock_id) hash_map"
  ac_cmds :: "command list"
  ac_removed :: bool

record sig_channel =
  ch_clients :: "(string, actor_id) hash_map"
  ch_actors :: "(actor_id, actor) hash_map"
  ch_next_actor :: actor_id
  ch_next_sock :: sock_id
  ch_out :: "client_out list"

definition sig_channel_new :: sig_channel where
  "sig_channel_new = \<lparr>ch_clients = [], ch_actors = [], ch_next_actor = 0, ch_next_sock = 0, ch_out = []\<rparr>"

definition put_out :: "client_out list \<Rightarrow> sig_channel \<Rightarrow> sig_channel" where
  "put_out xs s = s\<lparr>ch_out := ch_out s @ xs\<rparr>"

section \<open>Operations of the channel\<close>

text \<open>The new client is registered before it starts to connect.\<close>

definition register_actor :: "string \<Rightarrow> server_id \<Rightarrow> server_id list \<Rightarrow> sig_channel \<Rightarrow> sig_channel" where
  "register_actor addr i trusted s =
     (let a = ch_next_actor s in
      s\<lparr>ch_clients := AList.update addr a (ch_clients s),
        ch_actors := AList.update a
          \<lparr>ac_id = i, ac_addr = addr, ac_phase = Connecting trusted, ac_socks = [], ac_cmds = [], ac_removed = False\<rparr>
          (ch_actors s),
        ch_next_actor := a + 1\<rparr>)"

definition bind_channel ::
  "crypto \<Rightarrow> http \<Rightarrow> u64 \<Rightarrow> string \<Rightarrow> server_id \<Rightarrow> key_cert \<Rightarrow> server_id list \<Rightarrow>
     sig_channel \<Rightarrow> sig_channel \<times> (fmt_text + unit)" where
  "bind_channel cr ht now addr i kc trusted s =
     (if map_of (ch_clients s) addr \<noteq> None then (s, Inr ())
      else case bind_headers cr ht now addr i kc trusted of
        Inl e \<Rightarrow> (s, Inl e)
      | Inr _ \<Rightarrow>
          (register_actor addr i trusted s, Inr ()))"

text \<open>\<open>send\<close> and \<open>create_sock\<close> find the channel to the actor first; \<open>remove\<close> never fails.\<close>

definition handle_tx :: "string \<Rightarrow> sig_channel \<Rightarrow> fmt_text + actor_id" where
  "handle_tx addr s =
     (case map_of (ch_clients s) addr of
        None \<Rightarrow> Inl (Fmt ''No signaling client for address {}'' [A_str addr])
      | Some a \<Rightarrow> Inr a)"

definition queue_cmd :: "actor_id \<Rightarrow> command \<Rightarrow> sig_channel \<Rightarrow> sig_channel" where
  "queue_cmd a c s = s\<lparr>ch_actors := AList.map_entry a (\<lambda>k. k\<lparr>ac_cmds := ac_cmds k @ [c]\<rparr>) (ch_actors s)\<rparr>"

definition channel_command :: "string \<Rightarrow> command \<Rightarrow> sig_channel \<Rightarrow> sig_channel \<times> (fmt_text + unit)" where
  "channel_command addr c s =
     (case handle_tx addr s of
        Inl e \<Rightarrow> (s, Inl e)
      | Inr a \<Rightarrow>
          if map_of (ch_actors s) a = None
          then (s, Inl (Fmt ''Signaling client {} channel closed'' [A_str addr]))
          else (queue_cmd a c s, Inr ()))"

definition channel_send :: "string \<Rightarrow> signaling_msg \<Rightarrow> sig_channel \<Rightarrow> sig_channel \<times> (fmt_text + unit)" where
  "channel_send addr m s = channel_command addr (Cmd_send m) s"

definition create_sock :: "string \<Rightarrow> server_id \<Rightarrow> sig_channel \<Rightarrow> sig_channel \<times> (fmt_text + unit)" where
  "create_sock addr peer s = channel_command addr (Cmd_create_sock peer) s"

definition remove_client :: "string \<Rightarrow> sig_channel \<Rightarrow> sig_channel" where
  "remove_client addr s =
     (case map_of (ch_clients s) addr of
        None \<Rightarrow> s
      | Some a \<Rightarrow>
          s\<lparr>ch_clients := AList.delete addr (ch_clients s),
            ch_actors := AList.map_entry a (\<lambda>k. k\<lparr>ac_removed := True\<rparr>) (ch_actors s)\<rparr>)"

section \<open>The actor\<close>

text \<open>The cleanup of an actor drops the handle of its address, whoever's it is by then.\<close>

definition stop_actor :: "actor_id \<Rightarrow> actor \<Rightarrow> fmt_text \<Rightarrow> client_out list \<Rightarrow> sig_channel \<Rightarrow> sig_channel" where
  "stop_actor a k termination outs s =
     put_out (To_loop (ac_addr k) (Inl termination) # outs)
       (s\<lparr>ch_clients := AList.delete (ac_addr k) (ch_clients s), ch_actors := AList.delete a (ch_actors s)\<rparr>)"

text \<open>The outcome of connecting: a stream, an error, or none after ten seconds.\<close>

datatype connect_outcome = Connected | Upgrade_failed fmt_text | Timed_out

definition connect_actor :: "connect_outcome \<Rightarrow> actor_id \<Rightarrow> actor \<Rightarrow> server_id list \<Rightarrow> sig_channel \<Rightarrow> sig_channel" where
  "connect_actor outcome a k trusted s =
     (case outcome of
        Connected \<Rightarrow>
          put_out [To_loop (ac_addr k) (Inr (SM_bound (ac_id k) trusted))]
            (s\<lparr>ch_actors := AList.update a (k\<lparr>ac_phase := Running\<rparr>) (ch_actors s)\<rparr>)
      | Upgrade_failed e \<Rightarrow> stop_actor a k (Fmt ''WebSocket bind upgrade failed: {}'' [A_fmt e]) [] s
      | Timed_out \<Rightarrow> stop_actor a k (lit ''WebSocket bind upgrade timed out'') [] s)"

definition handle_incoming :: "signaling_msg \<Rightarrow> actor \<Rightarrow> sig_channel \<Rightarrow> sig_channel" where
  "handle_incoming m k s =
     (case m of
        SM_trusted _ _ \<Rightarrow> put_out [To_loop (ac_addr k) (Inr m)] s
      | SM_connect _ _ _ \<Rightarrow> put_out [To_loop (ac_addr k) (Inr m)] s
      | SM_id_not_found _ _ \<Rightarrow> put_out [To_loop (ac_addr k) (Inr m)] s
      | SM_rejected _ _ \<Rightarrow> put_out [To_loop (ac_addr k) (Inr m)] s
      | SM_sdp sender _ sdp \<Rightarrow>
          (case map_of (ac_socks k) sender of Some c \<Rightarrow> put_out [Sock_sdp c sdp] s | None \<Rightarrow> s)
      | SM_candidate sender _ candidate \<Rightarrow>
          (case map_of (ac_socks k) sender of Some c \<Rightarrow> put_out [Sock_candidate c candidate] s | None \<Rightarrow> s)
      | _ \<Rightarrow> s)"

text \<open>What the loop of an actor waits for: its ping timer, the web socket, and commands.\<close>

datatype ws_incoming =
  In_text "fmt_text + signaling_msg" | In_close | In_err fmt_text | In_other | In_end

datatype actor_input =
  Ping_due "fmt_text option" | Ws_in ws_incoming | Next_cmd "fmt_text option" | Shutdown

text \<open>The argument of a ping and of a command is the error of the send, if it fails.\<close>

definition run_command :: "command \<Rightarrow> fmt_text option \<Rightarrow> actor_id \<Rightarrow> actor \<Rightarrow> sig_channel \<Rightarrow> sig_channel" where
  "run_command c err a k s =
     (case c of
        Cmd_send m \<Rightarrow>
          (case err of
             None \<Rightarrow> put_out [To_ws a m] s
           | Some e \<Rightarrow> stop_actor a k (Fmt ''Send error: {}'' [A_fmt e]) [] s)
      | Cmd_create_sock peer \<Rightarrow>
          put_out [Sock_made (ch_next_sock s) (ac_id k) peer]
            (s\<lparr>ch_actors := AList.map_entry a
                 (\<lambda>k. k\<lparr>ac_socks := AList.update peer (ch_next_sock s) (ac_socks k)\<rparr>) (ch_actors s),
              ch_next_sock := ch_next_sock s + 1\<rparr>))"

definition actor_turn :: "actor_input \<Rightarrow> actor_id \<Rightarrow> actor \<Rightarrow> sig_channel \<Rightarrow> sig_channel option" where
  "actor_turn inp a k s =
     (case inp of
        Ping_due None \<Rightarrow> Some (put_out [To_ws a SM_ping] s)
      | Ping_due (Some e) \<Rightarrow> Some (stop_actor a k (Fmt ''Failed to send ping: {}'' [A_fmt e]) [] s)
      | Ws_in In_end \<Rightarrow> Some (stop_actor a k (lit ''Websocket stream closed'') [] s)
      | Ws_in (In_text (Inr m)) \<Rightarrow> Some (handle_incoming m k s)
      | Ws_in (In_text (Inl e)) \<Rightarrow> Some (stop_actor a k (Fmt ''Parse error: {}'' [A_fmt e]) [] s)
      | Ws_in In_close \<Rightarrow> Some (stop_actor a k (lit ''Signaling server closed connection'') [] s)
      | Ws_in (In_err e) \<Rightarrow> Some (stop_actor a k (Fmt ''Websocket error: {}'' [A_fmt e]) [] s)
      | Ws_in In_other \<Rightarrow> Some s
      | Next_cmd err \<Rightarrow>
          (case ac_cmds k of
             [] \<Rightarrow> None
           | c # cs \<Rightarrow>
               Some (run_command c err a k
                 (s\<lparr>ch_actors := AList.map_entry a (\<lambda>k. k\<lparr>ac_cmds := cs\<rparr>) (ch_actors s)\<rparr>)))
      | Shutdown \<Rightarrow> if ac_removed k then Some (stop_actor a k (lit []) [Shut_down a] s) else None)"

section \<open>Sockets\<close>

record sock =
  so_my_id :: server_id
  so_peer_id :: server_id

definition send_sdp :: "sock \<Rightarrow> string \<Rightarrow> command" where
  "send_sdp k sdp = Cmd_send (SM_sdp (so_my_id k) (so_peer_id k) sdp)"

definition send_candidate :: "sock \<Rightarrow> string \<Rightarrow> command" where
  "send_candidate k candidate = Cmd_send (SM_candidate (so_my_id k) (so_peer_id k) candidate)"

definition sock_cert_hash :: "sock \<Rightarrow> string option" where
  "sock_cert_hash k = id_hash (so_peer_id k)"

section \<open>Runs\<close>

datatype client_event =
    Ce_bind string server_id key_cert "server_id list"
  | Ce_send string signaling_msg
  | Ce_create_sock string server_id
  | Ce_sock_send actor_id command
  | Ce_remove string
  | Ce_connect actor_id connect_outcome
  | Ce_actor actor_id actor_input

record client_env =
  ce_crypto :: crypto
  ce_http :: http
  ce_now :: u64

definition client_step :: "client_env \<Rightarrow> client_event \<Rightarrow> sig_channel \<Rightarrow> sig_channel option" where
  "client_step v ev s =
     (case ev of
        Ce_bind addr i kc trusted \<Rightarrow> Some (fst (bind_channel (ce_crypto v) (ce_http v) (ce_now v) addr i kc trusted s))
      | Ce_send addr m \<Rightarrow> Some (fst (channel_send addr m s))
      | Ce_create_sock addr peer \<Rightarrow> Some (fst (create_sock addr peer s))
      | Ce_sock_send a c \<Rightarrow> Some (queue_cmd a c s)
      | Ce_remove addr \<Rightarrow> Some (remove_client addr s)
      | Ce_connect a outcome \<Rightarrow>
          (case map_of (ch_actors s) a of
             Some k \<Rightarrow> (case ac_phase k of Connecting trusted \<Rightarrow> Some (connect_actor outcome a k trusted s)
                        | Running \<Rightarrow> None)
           | None \<Rightarrow> None)
      | Ce_actor a inp \<Rightarrow>
          (case map_of (ch_actors s) a of
             Some k \<Rightarrow>
               (case ac_phase k of Running \<Rightarrow> actor_turn inp a k s | Connecting _ \<Rightarrow> None)
           | None \<Rightarrow> None))"

inductive client_reachable :: "sig_channel \<Rightarrow> bool" where
  start: "client_reachable sig_channel_new"
| step: "client_reachable s \<Longrightarrow> client_step v ev s = Some s' \<Longrightarrow> client_reachable s'"

fun client_run :: "client_env \<Rightarrow> client_event list \<Rightarrow> sig_channel \<Rightarrow> sig_channel option" where
  "client_run v [] s = Some s"
| "client_run v (ev # evs) s = Option.bind (client_step v ev s) (client_run v evs)"

end
