(* ===== verification/Signaling_Theorems.thy ===== *)
theory Signaling_Theorems
  imports Signaling_Tasks Signaling_Client
begin

text \<open>
  Properties of signaling: a client's bind request is accepted with its trust list, messages are
  relayed only from a proved sender to an endpoint that trusts it, and three ways in which the
  server or the client can lose a connection.
\<close>

section \<open>Binding\<close>

text \<open>A toy instance of the crates: base64 is the identity on bytes, a key signs by copying.\<close>

definition toy_crypto :: crypto where
  "toy_crypto = \<lparr>cr_b64_encode = map (\<lambda>b. char_of (unat b)), cr_b64_decode = (\<lambda>s. Inr (map (\<lambda>c. of_nat (of_char c)) s)), cr_sha256 = (\<lambda>x. x),
     cr_parse_cert = Inr, cr_load_key = Inr, cr_sign = (\<lambda>_ m. Inr m), cr_verify = (\<lambda>_ m sig. sig = m)\<rparr>"

lemma toy_b64: "cr_b64_decode toy_crypto (cr_b64_encode toy_crypto x) = Inr x"
proof -
  have "of_nat (of_char (char_of (unat b)) :: nat) = b" for b :: u8
  proof -
    have "unat b < 2 ^ LENGTH(8)" by (rule unsigned_less)
    then show ?thesis by simp
  qed
  then show ?thesis by (simp add: toy_crypto_def comp_def)
qed

definition toy_http :: http where
  "toy_http = \<lparr>ht_authority = Inr, ht_key = ''k'', ht_value_ok = (\<lambda>_. True)\<rparr>"

definition toy_key :: "u8 \<Rightarrow> key_cert" where
  "toy_key b = \<lparr>kc_key_der = [b], kc_cert_der = [b]\<rparr>"

text \<open>C34: A client that owns its id is bound: the headers that the client makes from its certificate and
  trust list are accepted by the server within thirty seconds, and the server ends up with exactly
  that id and trust list. (Base64 has to decode what it encodes, the certificate to hold the public
  key of the signing key, and the headers to be text.)\<close>

theorem bind_is_accepted:
  assumes "\<forall>x. cr_b64_decode cr (cr_b64_encode cr x) = Inr x"
    and "cr_load_key cr (kc_key_der kc) = Inr key" and "cr_parse_cert cr (kc_cert_der kc) = Inr pub"
    and "\<forall>m sig. cr_sign cr key m = Inr sig \<longrightarrow> cr_verify cr pub m sig"
    and "bind_headers cr ht now addr i kc trusted = Inr hs" and "\<forall>(_, x) \<in> set hs. to_str x = Some x"
    and "abs_diff later now \<le> MAX_TIMESTAMP_OFFSET" and "trusted \<noteq> [[]]"
  shows "validate_bind cr to_str later hs = Inr (i, remdups trusted)"
proof -
  let ?i = "\<lparr>id_timestamp = now, id_cert = kc_cert_der kc\<rparr>"
  from assms(2,5) obtain sig host header where h:
      "id_hash i = Some (cert_der_hash cr kc)" "cr_sign cr key (identity_to_bytes cr ?i) = Inr sig"
      "encode_trusted_header trusted = Inr header"
      "hs = [(''Host'', host), (''Connection'', ''Upgrade''), (''Upgrade'', ''websocket''),
             (''Sec-WebSocket-Version'', ''13''), (''Sec-WebSocket-Key'', ht_key ht),
             (BIND_HEADER_ID, i), (BIND_HEADER_IDENTITY, identity_to_string cr ?i),
             (BIND_HEADER_SIGNATURE, cr_b64_encode cr sig), (BIND_HEADER_TRUSTED, header)]"
    by (auto simp: bind_headers_def sign_identity_def build_bind_request_def Let_def
        split: if_split_asm sum.split_asm)
  have "verify_identity cr later ?i (cr_b64_encode cr sig) = Inr (cert_der_hash cr kc)"
    using assms(1,3,4,7) h(2) by (simp add: verify_identity_def cert_der_hash_def)
  moreover have "parse_identity_header cr (identity_to_string cr ?i) = Inr ?i"
    using assms(1) by (intro identity_round_trip) simp
  moreover have "decode_trusted_header header = trusted" by (rule trusted_round_trip [OF h(3) assms(8)])
  ultimately show ?thesis
    using assms(6) h(1) unfolding h(4)
    by (simp add: validate_bind_def header_str_def BIND_HEADER_ID_def BIND_HEADER_IDENTITY_def
        BIND_HEADER_SIGNATURE_def BIND_HEADER_TRUSTED_def)
qed

lemma bind_is_accepted_witness:
  "\<exists>hs. bind_headers toy_crypto toy_http 100 ''ws://s'' ''al::2A'' (toy_key 42) [''bo::07'', ''cy::08''] = Inr hs \<and>
     validate_bind toy_crypto Some 120 hs = Inr (''al::2A'', [''bo::07'', ''cy::08''])"
proof -
  let ?h = "bind_headers toy_crypto toy_http 100 ''ws://s'' ''al::2A'' (toy_key 42) [''bo::07'', ''cy::08'']"
  have "case ?h of Inl _ \<Rightarrow> False | Inr _ \<Rightarrow> True" by code_simp
  then obtain hs where hs: "?h = Inr hs" by (auto split: sum.split_asm)
  have "abs_diff 120 100 \<le> MAX_TIMESTAMP_OFFSET" by code_simp
  with bind_is_accepted [OF _ _ _ _ hs, of "[42]" "[42]" Some 120] show ?thesis
    using hs toy_b64 by (simp add: toy_crypto_def toy_key_def)
qed

section \<open>Relaying\<close>

text \<open>The sender and the receiver of a message that is relayed.\<close>

fun relayed :: "signaling_msg \<Rightarrow> (server_id \<times> server_id) option" where
  "relayed (SM_connect a b _) = Some (a, b)"
| "relayed (SM_sdp a b _) = Some (a, b)"
| "relayed (SM_candidate a b _) = Some (a, b)"
| "relayed _ = None"

text \<open>What a step sends: all that is new in the output.\<close>

definition newly :: "sig_server \<Rightarrow> sig_server \<Rightarrow> (conn \<times> ws_out) set" where
  "newly s t = set (drop (length (ss_out s)) (ss_out t))"

lemma newly_same: "ss_out t = ss_out s \<Longrightarrow> newly s t = {}"
  by (simp add: newly_def)

lemma newly_send: "send_conn c m s = (t, r) \<Longrightarrow> newly s t \<subseteq> {(c, m)}"
  by (auto simp: send_conn_def newly_def split: if_split_asm)

lemma check_id_passes: "check_id i c recorded s = (t, Inr u) \<Longrightarrow> t = s \<and> recorded = i"
  by (auto simp: check_id_def split: if_split_asm prod.split_asm sum.split_asm)

lemma check_id_fails: "check_id i c recorded s = (t, Inl e) \<Longrightarrow> (c', Ws_msg m) \<notin> newly s t"
  by (auto simp: check_id_def resp_unsupported_def split: if_split_asm prod.split_asm sum.split_asm
      dest!: newly_send)

definition relay_ok :: "sig_server \<Rightarrow> server_id \<Rightarrow> conn \<Rightarrow> signaling_msg \<Rightarrow> bool" where
  "relay_ok s recorded c' m \<longleftrightarrow>
     (\<forall>a b. relayed m = Some (a, b) \<longrightarrow> recorded = a \<and>
        (\<exists>info. map_of (ss_endpoint_map s) b = Some info \<and> ei_msg_tx info = c' \<and> a \<in> set (ei_trusted info)))"

lemma relay_sent:
  assumes "relay c recorded a b m0 s = (t, r)" and "relayed m0 = Some (a, b)"
    and "(c', Ws_msg m) \<in> newly s t" and "relayed m \<noteq> None"
  shows "relay_ok s recorded c' m \<and> m = m0"
proof -
  obtain s1 r1 where c: "check_id a c recorded s = (s1, r1)" by fastforce
  show ?thesis
  proof (cases r1)
    case (Inl e)
    with assms(1,3) c check_id_fails show ?thesis by (fastforce simp: relay_def)
  next
    case (Inr u)
    note s1 = check_id_passes [OF c [unfolded Inr]]
    consider (reply) reply where "send_conn c (Ws_msg reply) s = (t, r)" "relayed reply = None"
      | (pass) info where "map_of (ss_endpoint_map s) b = Some info" "a \<in> set (ei_trusted info)"
          "send_conn (ei_msg_tx info) (Ws_msg m0) s = (t, r)"
      using assms(1) c Inr s1 by (auto simp: relay_def get_endpoint_info_def split: option.split_asm if_split_asm)
    then show ?thesis
    proof cases
      case reply
      from newly_send [OF reply(1)] assms(3) have "m = reply" by auto
      with reply(2) assms(4) show ?thesis by simp
    next
      case pass
      from newly_send [OF pass(3)] assms(3) have "c' = ei_msg_tx info" "m = m0" by auto
      with pass s1 assms(2) show ?thesis by (simp add: relay_ok_def)
    qed
  qed
qed

lemma handle_message_sent:
  assumes "handle_message now c recorded m0 s = (t, r)" and "(c', Ws_msg m) \<in> newly s t" and "relayed m \<noteq> None"
  shows "relay_ok s recorded c' m \<and> m0 = Ws_text (Inr m)"
proof -
  consider (trust) i ts where "m0 = Ws_text (Inr (SM_trust i ts))"
    | (relay) m1 a b where "m0 = Ws_text (Inr m1)" "relayed m1 = Some (a, b)" "relay c recorded a b m1 s = (t, r)"
    | (other) "ss_out t = ss_out s \<or> (\<exists>x. send_conn c (Ws_close x) s = (t, r))"
    using assms(1)
    by (auto simp: handle_message_def resp_unsupported_def alter_conn_def
        split: ws_in.split_asm sum.split_asm signaling_msg.split_asm)
  then show ?thesis
  proof cases
    case trust
    obtain s1 r1 where c: "check_id i c recorded s = (s1, r1)" by fastforce
    show ?thesis
    proof (cases r1)
      case (Inl e)
      with trust assms(1,2) c check_id_fails show ?thesis by (fastforce simp: handle_message_def)
    next
      case (Inr u)
      with trust assms(1) c check_id_passes have
        "send_conn c (Ws_msg (SM_trusted i ts)) (update_trust i (remdups ts) s) = (t, r)"
        by (fastforce simp: handle_message_def)
      from newly_send [OF this] assms(2) have "m = SM_trusted i ts" by (auto simp: newly_def update_trust_def)
      with assms(3) show ?thesis by simp
    qed
  next
    case relay
    from relay_sent [OF relay(3,2) assms(2,3)] relay(1) show ?thesis by auto
  next
    case other
    with assms(2) show ?thesis by (auto simp: newly_same dest: newly_send)
  qed
qed

text \<open>C35: Only trusted and proved senders get through: in every run of the signaling server, when a Connect,
  SDP or Candidate message is sent to a connection, it is the message just received on a connection
  that proved the sender's id: the upgrade that opened this very connection carried an identity of
  that time, at most thirty seconds off, signed with the key of the certificate whose hash is in the
  id. The connection it goes to has proved the receiver's id in the same way and is the one
  registered for it, and the trust list registered for the receiver has the sender.\<close>

theorem relays_only_trusted:
  assumes "sig_run evs sig_server_new = Some s" and "sig_step v ev s = Some t" and "relayed m = Some (a, b)"
    and "(c', Ws_msg m) \<in> newly s t"
  shows "\<exists>c info. ev = Se_message c (Ws_text (Inr m)) \<and> proved_on evs c a \<and> proved_on evs c' b \<and>
    map_of (ss_endpoint_map s) b = Some info \<and> ei_msg_tx info = c' \<and> a \<in> set (ei_trusted info)"
proof -
  note ok = sig_run_facts [OF assms(1)]
  have "m \<noteq> SM_terminate x" for x using assms(3) by auto
  with assms(2,4) obtain c k m0 where e: "ev = Se_message c m0" "map_of (ss_conns s) c = Some k"
      "t = serve_message (unat (se_now v)) c k m0 s"
    by (cases ev)
      (auto simp: sig_step_def accept_bind_def alter_conn_def end_connection_def remove_endpoint_def newly_def
        check_activity_def split: option.split_asm sum.split_asm if_split_asm)
  obtain s1 r where h: "handle_message (unat (se_now v)) c (sc_endpoint_id k) m0 s = (s1, r)" by fastforce
  have "length (ss_out s) \<le> length (ss_out s1)"
    using handle_message_same [OF h] by (simp add: same_ids_def prefix_length_le)
  then have "(c', Ws_msg m) \<in> newly s s1"
    using e(3) h assms(4)
    by (auto simp: serve_message_def alter_conn_def send_conn_def newly_def split: sum.split_asm if_split_asm)
  from handle_message_sent [OF h this] assms(3) have r:
      "relay_ok s (sc_endpoint_id k) c' m" "m0 = Ws_text (Inr m)" by auto
  then obtain info where i: "map_of (ss_endpoint_map s) b = Some info" "ei_msg_tx info = c'"
      "a \<in> set (ei_trusted info)" "sc_endpoint_id k = a"
    using assms(3) by (auto simp: relay_ok_def)
  from ok(1) i(1) have "\<exists>k'. map_of (ss_conns s) (ei_msg_tx info) = Some k' \<and> sc_endpoint_id k' = b"
    by (simp add: sig_ok_def)
  with i(2) obtain k' where "map_of (ss_conns s) c' = Some k'" "sc_endpoint_id k' = b" by blast
  then have "proved_on evs c' b" "proved_on evs c a" using ok(2) e(2) i(4) by blast+
  with e(1) r(2) i(1-3) show ?thesis by blast
qed

text \<open>Bob has bound, with al in his trust list, and al binds on a second connection.\<close>

definition toy_env :: "nat \<Rightarrow> sig_env" where
  "toy_env now = \<lparr>se_crypto = toy_crypto, se_to_str = Some, se_now = of_nat now, se_at = 0\<rparr>"

definition toy_headers :: "server_id \<Rightarrow> u8 \<Rightarrow> server_id list \<Rightarrow> headers" where
  "toy_headers i key trusted =
     (case bind_headers toy_crypto toy_http 100 ''ws://s'' i (toy_key key) trusted of Inr hs \<Rightarrow> hs | Inl _ \<Rightarrow> [])"

definition toy_history :: "(nat \<times> sig_event) list \<Rightarrow> sig_history" where
  "toy_history evs = map (\<lambda>(now, ev). (toy_env now, ev)) evs"

definition toy_run :: "(nat \<times> sig_event) list \<Rightarrow> sig_server option" where
  "toy_run evs = sig_run (toy_history evs) sig_server_new"

definition both_bind :: "(nat \<times> sig_event) list" where
  "both_bind = [(100, Se_upgrade 1 (toy_headers ''al::2A'' 42 [])),
     (101, Se_upgrade 2 (toy_headers ''bo::07'' 7 [''al::2A'']))]"

lemma relays_only_trusted_witness:
  "\<exists>s t info. toy_run both_bind = Some s \<and>
     sig_step (toy_env 102) (Se_message 1 (Ws_text (Inr (SM_connect ''al::2A'' ''bo::07'' True)))) s = Some t \<and>
     (2, Ws_msg (SM_connect ''al::2A'' ''bo::07'' True)) \<in> newly s t \<and>
     proved_on (toy_history both_bind) 1 ''al::2A'' \<and> proved_on (toy_history both_bind) 2 ''bo::07'' \<and>
     map_of (ss_endpoint_map s) ''bo::07'' = Some info \<and> ''al::2A'' \<in> set (ei_trusted info)"
proof -
  let ?m = "SM_connect ''al::2A'' ''bo::07'' True"
  let ?ev = "Se_message 1 (Ws_text (Inr ?m))"
  have "map_option (\<lambda>s. map_option (\<lambda>t. list_ex (\<lambda>x. x = (2, Ws_msg ?m)) (drop (length (ss_out s)) (ss_out t)))
      (sig_step (toy_env 102) ?ev s)) (toy_run both_bind) = Some (Some True)"
    by code_simp
  then obtain s t where s: "toy_run both_bind = Some s" "sig_step (toy_env 102) ?ev s = Some t"
      "(2, Ws_msg ?m) \<in> newly s t"
    by (auto simp: newly_def list_ex_iff)
  have "sig_run (toy_history both_bind) sig_server_new = Some s" using s(1) by (simp add: toy_run_def)
  from relays_only_trusted [OF this s(2) _ s(3), of "''al::2A''" "''bo::07''"] s show ?thesis by auto
qed

section \<open>Losing a connection\<close>

text \<open>A finding: an old connection that ends unbinds the new one. A client that binds again, on a new
  connection, overrides its entry; when the old connection ends (it times out after ten minutes, or
  its socket breaks), the entry is removed by id, whosever connection it names. The client is still connected,
  but whoever asks for it is told that there is no such endpoint.\<close>

theorem old_connection_unbinds_new:
  "map_option (\<lambda>s. (map_of (ss_endpoint_map s) ''al::2A'' = None, conn_open 3 s, last (ss_out s)))
     (toy_run (both_bind @
       [(105, Se_upgrade 3 (toy_headers ''al::2A'' 42 [''bo::07''])), (110, Se_stream_closed 1), (110, Se_end 1),
        (111, Se_message 2 (Ws_text (Inr (SM_connect ''bo::07'' ''al::2A'' True))))])) =
   Some (True, True, (2, Ws_msg (SM_id_not_found ''bo::07'' ''No endpoint found for id: al::2A'')))"
  by code_simp



text \<open>
  The client has a race of the same kind: \<open>remove\<close> sends the shutdown from a task of its own, and the
  cleanup of the old actor drops the handle of its address, even if the address is bound again by
  then. The new actor runs on, but can no longer be reached.
\<close>

lemma late_shutdown_unbinds_new:
  "map_option (\<lambda>s. (map_option ac_phase (map_of (ch_actors s) 1), snd (channel_send ''ws://s'' SM_ping s)))
     (client_run \<lparr>ce_crypto = toy_crypto, ce_http = toy_http, ce_now = 100\<rparr>
       [Ce_bind ''ws://s'' ''al::2A'' (toy_key 42) [], Ce_connect 0 Connected, Ce_remove ''ws://s'',
        Ce_bind ''ws://s'' ''al::2A'' (toy_key 42) [], Ce_connect 1 Connected, Ce_actor 0 Shutdown]
       sig_channel_new) =
   Some (Some Running, Inl (Fmt ''No signaling client for address {}'' [A_str ''ws://s'']))"
  by code_simp

end
