(* ===== verification/Frames.thy ===== *)
theory Frames
  imports Signaling_Auth
begin

text \<open>
  Messages on a byte stream: \<open>webchannel.rs\<close> (\<open>Message\<close>), \<open>webchannel/byte_stream.rs\<close>
  (\<open>frame_write\<close>, \<open>frame_read\<close>) and \<open>webchannel/io_remote.rs\<close> (the actor over a pair of pipes). A
  frame is the length of the payload in eight bytes, high byte first, and the payload. Serde is a
  parameter.

  The actor runs one \<open>select!\<close> loop, and the model has a step for everything that can happen to it.
  What \<open>frame_read\<close> has taken from the pipe is part of the future the loop waits for, and the loop
  drops that future when a command wins: the future is a part of the phase \<open>In_select\<close> alone.
\<close>

unbundle bit_operations_syntax

section \<open>Integers as bytes\<close>

text \<open>\<open>u64::to_be_bytes\<close> and \<open>u64::from_be_bytes\<close>.\<close>

definition to_be_bytes :: "u64 \<Rightarrow> bytes" where
  "to_be_bytes w = map (\<lambda>i. ucast (drop_bit (8 * i) w)) (rev [0..<8])"

definition from_be_bytes :: "bytes \<Rightarrow> u64" where
  "from_be_bytes bs = foldl (\<lambda>acc b. push_bit 8 acc OR ucast b) 0 bs"

lemma to_be_bytes_length [simp]: "length (to_be_bytes w) = 8"
  by (simp add: to_be_bytes_def)

lemma low_bytes_fold:
  "foldl (\<lambda>acc b. push_bit 8 acc OR ucast b) acc (map (\<lambda>i. ucast (drop_bit (8 * i) (w :: u64)) :: u8) (rev [0..<k])) =
     push_bit (8 * k) acc OR take_bit (8 * k) w" (is "?L k acc = _")
proof (induction k arbitrary: acc)
  case (Suc k)
  have step: "push_bit (8 * k) (push_bit 8 acc OR ucast (ucast (drop_bit (8 * k) w) :: u8)) OR take_bit (8 * k) w =
      push_bit (8 * Suc k) acc OR take_bit (8 * Suc k) w"
    by (rule bit_word_eqI) (auto simp: bit_simps not_less less_diff_conv2 add.commute [of 8])
  have "?L (Suc k) acc = ?L k (push_bit 8 acc OR ucast (ucast (drop_bit (8 * k) w) :: u8))"
    by simp
  also have "\<dots> = push_bit (8 * Suc k) acc OR take_bit (8 * Suc k) w"
    unfolding Suc.IH by (rule step)
  finally show ?case .
qed simp

lemma from_to_be_bytes [simp]: "from_be_bytes (to_be_bytes w) = w"
  by (simp add: from_be_bytes_def to_be_bytes_def low_bytes_fold del: upt_Suc)
     (simp add: take_bit_word_eq_self)

section \<open>Messages and frames\<close>

record message =
  mg_host :: server_id
  mg_body :: msg
  mg_req_id :: "request_id option"

text \<open>
  \<open>serde_json::to_vec\<close> and \<open>from_slice\<close>, and the longest vector of bytes that there is memory for. What
  is relied on for some messages: each is read back from what it is written as, and there is memory
  for that, and its length is one that 63 bits hold, as that of every Rust vector.
\<close>

record serde =
  sd_enc :: "message \<Rightarrow> fmt_text + bytes"
  sd_dec :: "bytes \<Rightarrow> fmt_text + message"
  sd_memory :: nat

definition serde_ok :: "serde \<Rightarrow> message list \<Rightarrow> bool" where
  "serde_ok sd ms = list_all (\<lambda>m. case sd_enc sd m of Inl e \<Rightarrow> False
     | Inr bs \<Rightarrow> sd_dec sd bs = Inr m \<and> length bs \<le> sd_memory sd \<and> int (length bs) < 2 ^ 63) ms"

definition frame :: "serde \<Rightarrow> message \<Rightarrow> fmt_text + bytes" where
  "frame sd m =
     (case sd_enc sd m of
        Inl e \<Rightarrow> Inl e
      | Inr bs \<Rightarrow> Inr (to_be_bytes (of_nat (length bs)) @ bs))"

section \<open>Reading a frame\<close>

text \<open>
  \<open>frame_read\<close> as a future: which of the two \<open>read_exact\<close> it is at, and what that has read. A poll
  takes what the pipe holds, as much as is missing. \<open>vec![0; len]\<close> panics for a length that is not
  that of a vector, and the process is aborted when there is no memory for it. At the end of the
  stream \<open>read_exact\<close> fails.
\<close>

datatype read_future = Read_len bytes | Read_body u64 bytes

datatype read_poll = Pending read_future bytes | Ready message bytes | Failed fmt_text | Panic | Abort

definition read_exact :: "nat \<Rightarrow> bytes \<Rightarrow> bytes \<Rightarrow> bytes \<times> bytes" where
  "read_exact n buf av = (buf @ take (n - length buf) av, drop (n - length buf) av)"

definition early_eof :: fmt_text where
  "early_eof = lit ''early eof''"

definition poll_body :: "serde \<Rightarrow> bool \<Rightarrow> u64 \<Rightarrow> bytes \<Rightarrow> bytes \<Rightarrow> read_poll" where
  "poll_body sd eof len buf av =
     (case read_exact (unat len) buf av of (buf', av') \<Rightarrow>
        if length buf' < unat len then (if eof then Failed early_eof else Pending (Read_body len buf') av')
        else (case sd_dec sd buf' of Inl e \<Rightarrow> Failed e | Inr m \<Rightarrow> Ready m av'))"

definition frame_poll :: "serde \<Rightarrow> bool \<Rightarrow> read_future \<Rightarrow> bytes \<Rightarrow> read_poll" where
  "frame_poll sd eof fu av =
     (case fu of
        Read_body len buf \<Rightarrow> poll_body sd eof len buf av
      | Read_len buf \<Rightarrow>
          (case read_exact 8 buf av of (buf', av') \<Rightarrow>
             if length buf' < 8 then (if eof then Failed early_eof else Pending (Read_len buf') av')
             else if 2 ^ 63 \<le> from_be_bytes buf' then Panic
             else if sd_memory sd < unat (from_be_bytes buf') then Abort
             else poll_body sd eof (from_be_bytes buf') [] av'))"

section \<open>The actor\<close>

datatype io_exit = Outgoing_err | Inbound_closed | Sender_dropped

datatype io_phase =
    In_select read_future
  | Delivering message
  | Writing bytes
  | Exited io_exit
  | Panicked
  | Aborted

text \<open>
  \<open>ir_in\<close> is what the pipe to the reader holds, \<open>ir_out\<close> what the pipe from the writer has taken,
  \<open>ir_mailbox\<close> what the actor has sent to the server.
\<close>

record io_remote =
  ir_peer :: server_id
  ir_cid :: connection_id
  ir_in :: bytes
  ir_eof :: bool
  ir_out :: bytes
  ir_mailbox :: "message list"
  ir_phase :: io_phase

definition io_remote_new :: "server_id \<Rightarrow> connection_id \<Rightarrow> io_remote" where
  "io_remote_new peer cid =
     \<lparr>ir_peer = peer, ir_cid = cid, ir_in = [], ir_eof = False, ir_out = [], ir_mailbox = [],
      ir_phase = In_select (Read_len [])\<rparr>"

definition connection_broke :: "server_id \<Rightarrow> connection_id \<Rightarrow> message" where
  "connection_broke peer cid = \<lparr>mg_host = peer, mg_body = M_connection_broke peer cid, mg_req_id = None\<rparr>"

text \<open>The end of \<open>run\<close>: the loop has returned.\<close>

definition io_end :: "io_exit \<Rightarrow> io_remote \<Rightarrow> io_remote" where
  "io_end e r = r\<lparr>ir_phase := Exited e, ir_mailbox := ir_mailbox r @ [connection_broke (ir_peer r) (ir_cid r)]\<rparr>"

text \<open>
  What can happen: bytes arrive, the other end closes its pipe, \<open>select!\<close> polls the frame, a command
  comes in or the senders of commands are gone, the mailbox of the server has room or is gone, the
  pipe takes some bytes of a frame or fails. A step that is not enabled is \<open>None\<close>.
\<close>

datatype io_event =
    Io_arrive bytes | Io_close | Io_poll
  | Io_command message | Io_commands_gone
  | Io_room | Io_server_gone
  | Io_write nat | Io_write_error

definition io_poll :: "serde \<Rightarrow> read_future \<Rightarrow> io_remote \<Rightarrow> io_remote" where
  "io_poll sd fu r =
     (case frame_poll sd (ir_eof r) fu (ir_in r) of
        Pending fu' av \<Rightarrow> r\<lparr>ir_phase := In_select fu', ir_in := av\<rparr>
      | Ready m av \<Rightarrow> r\<lparr>ir_phase := Delivering m, ir_in := av\<rparr>
      | Failed e \<Rightarrow> io_end Inbound_closed r
      | Panic \<Rightarrow> r\<lparr>ir_phase := Panicked\<rparr>
      | Abort \<Rightarrow> r\<lparr>ir_phase := Aborted\<rparr>)"

definition io_command :: "serde \<Rightarrow> message \<Rightarrow> io_remote \<Rightarrow> io_remote" where
  "io_command sd m r =
     (case frame sd m of
        Inl e \<Rightarrow> io_end Outgoing_err r
      | Inr bs \<Rightarrow> r\<lparr>ir_phase := Writing bs\<rparr>)"

definition io_write :: "nat \<Rightarrow> bytes \<Rightarrow> io_remote \<Rightarrow> io_remote option" where
  "io_write n bs r =
     (if n = 0 \<or> length bs < n then None
      else Some (r\<lparr>ir_out := ir_out r @ take n bs,
                   ir_phase := (if drop n bs = [] then In_select (Read_len []) else Writing (drop n bs))\<rparr>))"

definition io_step :: "serde \<Rightarrow> io_event \<Rightarrow> io_remote \<Rightarrow> io_remote option" where
  "io_step sd ev r =
     (case ev of
        Io_arrive bs \<Rightarrow> if ir_eof r then None else Some (r\<lparr>ir_in := ir_in r @ bs\<rparr>)
      | Io_close \<Rightarrow> Some (r\<lparr>ir_eof := True\<rparr>)
      | Io_poll \<Rightarrow> (case ir_phase r of In_select fu \<Rightarrow> Some (io_poll sd fu r) | _ \<Rightarrow> None)
      | Io_command m \<Rightarrow> (case ir_phase r of In_select fu \<Rightarrow> Some (io_command sd m r) | _ \<Rightarrow> None)
      | Io_commands_gone \<Rightarrow> (case ir_phase r of In_select fu \<Rightarrow> Some (io_end Sender_dropped r) | _ \<Rightarrow> None)
      | Io_room \<Rightarrow>
          (case ir_phase r of
             Delivering m \<Rightarrow> Some (r\<lparr>ir_mailbox := ir_mailbox r @ [m], ir_phase := In_select (Read_len [])\<rparr>)
           | _ \<Rightarrow> None)
      | Io_server_gone \<Rightarrow>
          (case ir_phase r of Delivering m \<Rightarrow> Some (r\<lparr>ir_phase := Exited Inbound_closed\<rparr>) | _ \<Rightarrow> None)
      | Io_write n \<Rightarrow> (case ir_phase r of Writing bs \<Rightarrow> io_write n bs r | _ \<Rightarrow> None)
      | Io_write_error \<Rightarrow> (case ir_phase r of Writing bs \<Rightarrow> Some (io_end Outgoing_err r) | _ \<Rightarrow> None))"

fun io_run :: "serde \<Rightarrow> io_event list \<Rightarrow> io_remote \<Rightarrow> io_remote option" where
  "io_run sd [] r = Some r"
| "io_run sd (e # es) r = (case io_step sd e r of None \<Rightarrow> None | Some r' \<Rightarrow> io_run sd es r')"

lemma io_run_append:
  "io_run sd (es @ fs) r = Option.bind (io_run sd es r) (io_run sd fs)"
  by (induction es arbitrary: r) (auto split: option.splits)

section \<open>What a poll makes of a stream of frames\<close>

fun consumed :: "read_future \<Rightarrow> bytes" where
  "consumed (Read_len b) = b"
| "consumed (Read_body l b) = to_be_bytes l @ b"

fun partial :: "read_future \<Rightarrow> bool" where
  "partial (Read_len b) = (length b < 8)"
| "partial (Read_body l b) = (length b < unat l)"

definition readable :: "serde \<Rightarrow> message \<Rightarrow> bytes \<Rightarrow> bool" where
  "readable sd m bs = (\<exists>p. sd_dec sd p = Inr m \<and> int (length p) < 2 ^ 63 \<and> length p \<le> sd_memory sd \<and> bs = to_be_bytes (of_nat (length p)) @ p)"

lemma readable_frame: "serde_ok sd [m] \<Longrightarrow> \<exists>bs. frame sd m = Inr bs \<and> readable sd m bs"
  by (auto simp: serde_ok_def frame_def readable_def split: sum.splits)

lemma payload_length:
  assumes "int (length (p :: bytes)) < 2 ^ 63"
  shows "unat (of_nat (length p) :: u64) = length p" "\<not> (2 ^ 63 :: u64) \<le> of_nat (length p)"
proof -
  show *: "unat (of_nat (length p) :: u64) = length p"
    using assms by (simp add: unat_of_nat)
  have "uint (2 ^ 63 :: u64) = 2 ^ 63" by simp
  moreover have "uint (of_nat (length p) :: u64) = int (length p)"
    using * by (metis uint_nat)
  ultimately show "\<not> (2 ^ 63 :: u64) \<le> of_nat (length p)"
    using assms by (simp only: word_le_def not_le)
qed

lemma to_be_bytes_inject [simp]: "to_be_bytes v = to_be_bytes w \<longleftrightarrow> v = w"
  by (metis from_to_be_bytes)

lemma partial_not_whole:
  assumes "partial fu" "readable sd m bs"
  shows "consumed fu \<noteq> bs @ later"
proof
  assume eq: "consumed fu = bs @ later"
  obtain p where p: "int (length p) < 2 ^ 63" "bs = to_be_bytes (of_nat (length p)) @ p"
    using assms(2) by (auto simp: readable_def)
  show False
  proof (cases fu)
    case (Read_len b)
    then have "length b = 8 + length p + length later" using eq p(2) by simp
    then show False using assms(1) Read_len by simp
  next
    case (Read_body l b)
    then have "l = of_nat (length p)" "b = p @ later" using eq p(2) by auto
    then show False using assms(1) Read_body payload_length(1) [OF p(1)] by simp
  qed
qed

lemma read_exact_split:
  assumes "b @ av @ rest = x @ y" "length b \<le> length x" "length x \<le> length b + length av"
  shows "b @ take (length x - length b) av = x" "drop (length x - length b) av @ rest = y"
proof -
  define c where "c = drop (length b) x"
  have "take (length b) x = b" using assms(1,2) by (metis append_eq_conv_conj take_append take_all_iff diff_is_0_eq take_0 append_Nil2)
  then have x: "x = b @ c" unfolding c_def by (metis append_take_drop_id)
  then have c: "av @ rest = c @ y" using assms(1) by simp
  with assms(3) have "take (length c) av = c" "drop (length c) av @ rest = y"
    using c by (simp_all add: x append_eq_append_conv2 [of av]) (auto)
  then show "b @ take (length x - length b) av = x" "drop (length x - length b) av @ rest = y"
    by (simp_all add: x(1))
qed

definition poll_result :: "message \<Rightarrow> bytes \<Rightarrow> bytes \<Rightarrow> bytes \<Rightarrow> read_poll \<Rightarrow> bool" where
  "poll_result m seen rest later q \<longleftrightarrow>
     (\<exists>av'. q = Ready m av' \<and> av' @ rest = later) \<or> (\<exists>fu'. q = Pending fu' [] \<and> partial fu' \<and> consumed fu' = seen)"

lemma poll_body_frame:
  assumes p: "sd_dec sd p = Inr m" "int (length p) < 2 ^ 63" and b: "length b \<le> length p"
    and eq: "b @ av @ rest = p @ later"
  shows "poll_result m (to_be_bytes (of_nat (length p)) @ b @ av) rest later
           (poll_body sd False (of_nat (length p)) b av)"
proof (cases "length b + length av < length p")
  case True
  then show ?thesis
    by (auto simp: poll_result_def poll_body_def read_exact_def payload_length [OF p(2)])
next
  case False
  then have "b @ take (length p - length b) av = p \<and> drop (length p - length b) av @ rest = later"
    using read_exact_split [OF eq b] by simp
  with False show ?thesis
    by (auto simp: poll_result_def poll_body_def read_exact_def payload_length [OF p(2)] p(1))
qed

lemma poll_frame:
  assumes m: "readable sd m bs" and fu: "partial fu" and eq: "consumed fu @ av @ rest = bs @ later"
  shows "poll_result m (consumed fu @ av) rest later (frame_poll sd False fu av)"
proof -
  obtain p where p: "sd_dec sd p = Inr m" "int (length p) < 2 ^ 63" "bs = to_be_bytes (of_nat (length p)) @ p"
      and mem: "length p \<le> sd_memory sd"
    using m by (auto simp: readable_def)
  show ?thesis
  proof (cases fu)
    case (Read_body l b)
    then have "l = of_nat (length p)" "b @ av @ rest = p @ later"
      using eq p(3) by auto
    moreover from this fu Read_body have "length b \<le> length p"
      by (simp add: payload_length [OF p(2)])
    ultimately show ?thesis
      using poll_body_frame [OF p(1,2)] Read_body by (simp add: frame_poll_def)
  next
    case (Read_len b)
    show ?thesis
    proof (cases "length b + length av < 8")
      case True
      then show ?thesis using Read_len by (simp add: poll_result_def frame_poll_def read_exact_def)
    next
      case False
      then have head: "b @ take (8 - length b) av = to_be_bytes (of_nat (length p))"
        and tail: "drop (8 - length b) av @ rest = p @ later"
        using read_exact_split [of b av rest "to_be_bytes (of_nat (length p))" "p @ later"] fu eq p(3) Read_len
        by simp_all
      have "poll_result m (to_be_bytes (of_nat (length p)) @ drop (8 - length b) av) rest later
          (poll_body sd False (of_nat (length p)) [] (drop (8 - length b) av))"
        using poll_body_frame [OF p(1,2), of "[]"] tail by simp
      moreover have "to_be_bytes (of_nat (length p)) @ drop (8 - length b) av = b @ av"
        using head by (metis append.assoc append_take_drop_id)
      ultimately show ?thesis
        using Read_len head False payload_length [OF p(2)] mem by (simp add: frame_poll_def read_exact_def)
    qed
  qed
qed

section \<open>Runs in which no frame is dropped\<close>

definition pending :: "io_remote \<Rightarrow> bytes" where
  "pending r = (case ir_phase r of In_select fu \<Rightarrow> consumed fu @ ir_in r | _ \<Rightarrow> ir_in r)"

definition in_hand :: "io_remote \<Rightarrow> message list" where
  "in_hand r = (case ir_phase r of Delivering m \<Rightarrow> [m] | _ \<Rightarrow> [])"

definition alive :: "io_remote \<Rightarrow> bool" where
  "alive r = (case ir_phase r of In_select fu \<Rightarrow> partial fu | Exited e \<Rightarrow> False | Panicked \<Rightarrow> False | Aborted \<Rightarrow> False | Writing bs \<Rightarrow> bs \<noteq> [] | _ \<Rightarrow> True)"

text \<open>
  Nothing fails and the pipe is not closed, and a command finds the loop between two frames. What
  arrives in a run.
\<close>

definition calm_event :: "serde \<Rightarrow> io_event \<Rightarrow> io_remote \<Rightarrow> bool" where
  "calm_event sd e r =
     (case e of
        Io_arrive bs \<Rightarrow> True
      | Io_poll \<Rightarrow> True
      | Io_room \<Rightarrow> True
      | Io_write n \<Rightarrow> True
      | Io_command m \<Rightarrow> ir_phase r = In_select (Read_len []) \<and> (case frame sd m of Inl err \<Rightarrow> False | Inr bs \<Rightarrow> True)
      | _ \<Rightarrow> False)"

fun calm :: "serde \<Rightarrow> io_event list \<Rightarrow> io_remote \<Rightarrow> bool" where
  "calm sd [] r = True"
| "calm sd (e # es) r = (calm_event sd e r \<and> (case io_step sd e r of None \<Rightarrow> True | Some r' \<Rightarrow> calm sd es r'))"

fun arrives :: "io_event \<Rightarrow> bytes" where
  "arrives (Io_arrive bs) = bs"
| "arrives _ = []"

definition arrived :: "io_event list \<Rightarrow> bytes" where
  "arrived es = concat (map arrives es)"

definition frames_ahead :: "serde \<Rightarrow> message list \<Rightarrow> bytes \<Rightarrow> bool" where
  "frames_ahead sd todo bs \<longleftrightarrow> (\<exists>bss. list_all2 (readable sd) todo bss \<and> bs = concat bss)"

definition in_step :: "serde \<Rightarrow> message list \<Rightarrow> bytes \<Rightarrow> io_remote \<Rightarrow> bool" where
  "in_step sd ms rest r \<longleftrightarrow> \<not> ir_eof r \<and> alive r \<and>
     (\<exists>todo. ir_mailbox r @ in_hand r @ todo = ms \<and> frames_ahead sd todo (pending r @ rest))"

lemma frames_ahead_Nil [simp]: "frames_ahead sd [] bs \<longleftrightarrow> bs = []"
  by (simp add: frames_ahead_def)

lemma frames_ahead_Cons:
  "frames_ahead sd (m # todo) bs \<longleftrightarrow> (\<exists>b later. readable sd m b \<and> bs = b @ later \<and> frames_ahead sd todo later)"
proof
  assume "frames_ahead sd (m # todo) bs"
  then obtain b bss where "readable sd m b" "bs = b @ concat bss" "list_all2 (readable sd) todo bss"
    by (auto simp: frames_ahead_def list_all2_Cons1)
  then show "\<exists>b later. readable sd m b \<and> bs = b @ later \<and> frames_ahead sd todo later"
    unfolding frames_ahead_def by blast
next
  assume "\<exists>b later. readable sd m b \<and> bs = b @ later \<and> frames_ahead sd todo later"
  then obtain b bss where "readable sd m b" "bs = concat (b # bss)" "list_all2 (readable sd) todo bss"
    by (auto simp: frames_ahead_def)
  then show "frames_ahead sd (m # todo) bs"
    unfolding frames_ahead_def by blast
qed

lemma frame_not_empty: "frame sd m = Inr bs \<Longrightarrow> bs \<noteq> []"
  by (auto simp: frame_def dest: arg_cong [where f = length] split: sum.splits)

lemma poll_nothing: "frame_poll sd False (Read_len []) [] = Pending (Read_len []) []"
  by (simp add: frame_poll_def read_exact_def)

lemma partial_empty: "partial fu \<Longrightarrow> consumed fu = [] \<Longrightarrow> fu = Read_len []"
  by (cases fu) (auto dest: arg_cong [where f = length])

lemma in_step_poll:
  assumes inv: "in_step sd ms rest r" and fu: "ir_phase r = In_select fu"
  shows "in_step sd ms rest (io_poll sd fu r)"
proof -
  obtain todo where *: "\<not> ir_eof r" "partial fu" "ir_mailbox r @ todo = ms"
      "frames_ahead sd todo (consumed fu @ ir_in r @ rest)"
    using inv fu by (auto simp: in_step_def alive_def pending_def in_hand_def)
  show ?thesis
  proof (cases todo)
    case Nil
    then have "fu = Read_len []" "ir_in r = []" "rest = []"
      using * by (auto dest: partial_empty)
    then show ?thesis using inv fu * by (simp add: io_poll_def poll_nothing in_step_def alive_def pending_def in_hand_def)
  next
    case (Cons m todo')
    then obtain b later where m: "readable sd m b" "frames_ahead sd todo' later"
        "consumed fu @ ir_in r @ rest = b @ later"
      using * by (auto simp: frames_ahead_Cons)
    from poll_frame [OF m(1) *(2) m(3)] show ?thesis
      using * Cons m
      by (auto simp: poll_result_def io_poll_def in_step_def alive_def pending_def in_hand_def)
  qed
qed

lemma in_step_step:
  assumes inv: "in_step sd ms (arrives e @ rest) r" and st: "io_step sd e r = Some r'" and calm: "calm_event sd e r"
  shows "in_step sd ms rest r'"
proof (cases e)
  case Io_poll
  then show ?thesis using st inv in_step_poll [of sd ms rest r]
    by (auto simp: io_step_def split: io_phase.splits)
next
  case (Io_arrive bs)
  then show ?thesis using st inv
    by (auto simp: io_step_def in_step_def alive_def pending_def in_hand_def split: if_splits io_phase.splits)
next
  case Io_room
  then show ?thesis using st inv
    by (auto simp: io_step_def in_step_def alive_def pending_def in_hand_def split: io_phase.splits)
next
  case (Io_write n)
  then show ?thesis using st inv
    by (auto simp: io_step_def io_write_def in_step_def alive_def pending_def in_hand_def split: if_splits io_phase.splits)
next
  case (Io_command m)
  then show ?thesis using st inv calm
    by (auto simp: io_step_def io_command_def calm_event_def in_step_def alive_def pending_def in_hand_def dest: frame_not_empty split: sum.splits)
qed (use calm in \<open>simp_all add: calm_event_def\<close>)

lemma in_step_run:
  "in_step sd ms (arrived es @ rest) r \<Longrightarrow> io_run sd es r = Some r' \<Longrightarrow> calm sd es r \<Longrightarrow> in_step sd ms rest r'"
  by (induction es arbitrary: r) (auto simp: arrived_def split: option.splits dest: in_step_step)


text \<open>When nothing more arrives: what the actor does next, and the state it comes to rest in.\<close>

definition io_settled :: "io_remote \<Rightarrow> bool" where
  "io_settled r = (ir_in r = [] \<and> (case ir_phase r of In_select fu \<Rightarrow> True | _ \<Rightarrow> False))"

definition next_event :: "io_remote \<Rightarrow> io_event" where
  "next_event r =
     (case ir_phase r of
        Delivering m \<Rightarrow> Io_room
      | Writing bs \<Rightarrow> Io_write (length bs)
      | _ \<Rightarrow> Io_poll)"

fun io_drain :: "serde \<Rightarrow> nat \<Rightarrow> io_remote \<Rightarrow> io_remote" where
  "io_drain sd 0 r = r"
| "io_drain sd (Suc n) r =
     (case io_step sd (next_event r) r of None \<Rightarrow> r | Some r' \<Rightarrow> io_drain sd n r')"

lemma settled_all:
  assumes "in_step sd ms [] r" "io_settled r"
  shows "ir_mailbox r = ms"
proof -
  obtain fu todo where *: "ir_phase r = In_select fu" "partial fu" "ir_mailbox r @ todo = ms"
      "frames_ahead sd todo (consumed fu)"
    using assms by (auto simp: io_settled_def in_step_def alive_def pending_def in_hand_def split: io_phase.splits)
  then show ?thesis
    using partial_not_whole [OF *(2)] by (cases todo) (auto simp: frames_ahead_Cons)
qed

definition need :: "message list \<Rightarrow> io_remote \<Rightarrow> nat" where
  "need ms r = 2 * (length ms - length (ir_mailbox r)) + (if io_settled r then 0 else case ir_phase r of In_select fu \<Rightarrow> 1 | Delivering m \<Rightarrow> 0 | _ \<Rightarrow> 2)"

lemma drain_step:
  assumes inv: "in_step sd ms [] r"
  shows "\<exists>r'. io_step sd (next_event r) r = Some r' \<and> in_step sd ms [] r' \<and> (need ms r' < need ms r \<or> io_settled r')"
proof -
  have "\<exists>r'. io_step sd (next_event r) r = Some r'"
    using inv by (auto simp: io_step_def next_event_def io_write_def in_step_def alive_def split: io_phase.splits)
  then obtain r' where st: "io_step sd (next_event r) r = Some r'" by auto
  have "arrives (next_event r) = []" "calm_event sd (next_event r) r"
    by (auto simp: next_event_def calm_event_def split: io_phase.splits)
  then have inv': "in_step sd ms [] r'"
    using in_step_step [of sd ms "next_event r" "[]" r r'] inv st by simp
  have "need ms r' < need ms r \<or> io_settled r'"
  proof (cases "ir_phase r")
    case (In_select fu)
    have r': "r' = io_poll sd fu r"
      using st In_select by (simp add: io_step_def next_event_def)
    obtain todo where *: "\<not> ir_eof r" "partial fu" "ir_mailbox r @ todo = ms"
        "frames_ahead sd todo (consumed fu @ ir_in r)"
      using inv In_select by (auto simp: in_step_def alive_def pending_def in_hand_def)
    show ?thesis
    proof (cases todo)
      case Nil
      then show ?thesis using * partial_empty [of fu]
        by (auto simp: r' io_poll_def poll_nothing io_settled_def)
    next
      case (Cons m todo')
      then obtain b later where m: "readable sd m b" "consumed fu @ ir_in r @ [] = b @ later"
        using * by (auto simp: frames_ahead_Cons)
      then have ne: "ir_in r \<noteq> []" using partial_not_whole [OF *(2) m(1)] by auto
      from poll_frame [OF m(1) *(2) m(2)] show ?thesis
        using * ne In_select
        by (auto simp: poll_result_def r' io_poll_def need_def io_settled_def)
    qed
  qed (use st inv in \<open>auto simp: io_step_def next_event_def io_write_def need_def io_settled_def in_step_def alive_def in_hand_def\<close>)
  then show ?thesis using st inv' by blast
qed


lemma drain_settled:
  assumes "in_step sd ms [] r" "io_settled r"
  shows "io_drain sd n r = r"
proof (cases n)
  case (Suc k)
  obtain fu where fu: "ir_phase r = In_select fu" "ir_in r = []" "\<not> ir_eof r" "partial fu"
    using assms by (auto simp: io_settled_def in_step_def alive_def split: io_phase.splits)
  have "ir_mailbox r = ms" using settled_all [OF assms] .
  then have "fu = Read_len []"
    using assms(1) fu partial_empty [of fu] by (auto simp: in_step_def in_hand_def pending_def)
  then have "io_step sd (next_event r) r = Some r"
    using fu by (simp add: io_step_def next_event_def io_poll_def poll_nothing)
  then show ?thesis using Suc by (induction k arbitrary: n) auto
qed simp

lemma drain_settles:
  "in_step sd ms [] r \<Longrightarrow> need ms r \<le> n \<Longrightarrow> io_settled (io_drain sd n r) \<and> in_step sd ms [] (io_drain sd n r)"
proof (induction n arbitrary: r)
  case 0
  then show ?case
    by (auto simp: need_def in_step_def in_hand_def split: if_splits io_phase.splits)
next
  case (Suc n)
  obtain r' where r': "io_step sd (next_event r) r = Some r'" "in_step sd ms [] r'"
      "need ms r' < need ms r \<or> io_settled r'"
    using drain_step [OF Suc.prems(1)] by blast
  from r'(3) show ?case
  proof
    assume "io_settled r'"
    then show ?thesis using r' drain_settled [OF r'(2)] by simp
  qed (use r' Suc in simp)
qed

lemma need_bound: "need ms r \<le> 2 * length ms + 2"
  by (auto simp: need_def split: io_phase.splits)

text \<open>The frames of a list of messages, as \<open>frame_write\<close> puts them on a stream.\<close>

fun frames :: "serde \<Rightarrow> message list \<Rightarrow> fmt_text + bytes" where
  "frames sd [] = Inr []"
| "frames sd (m # ms) =
     (case frame sd m of
        Inl e \<Rightarrow> Inl e
      | Inr bs \<Rightarrow> (case frames sd ms of Inl e \<Rightarrow> Inl e | Inr rest \<Rightarrow> Inr (bs @ rest)))"

lemma frames_ahead_frames:
  "serde_ok sd ms \<Longrightarrow> frames sd ms = Inr bs \<Longrightarrow> frames_ahead sd ms bs"
proof (induction ms arbitrary: bs)
  case (Cons m ms)
  then obtain b rest where b: "frame sd m = Inr b" "frames sd ms = Inr rest" "bs = b @ rest"
    by (auto split: sum.splits)
  have "serde_ok sd [m]" "serde_ok sd ms" using Cons.prems(1) by (auto simp: serde_ok_def)
  then show ?case
    using readable_frame [of sd m] Cons.IH b by (auto simp: frames_ahead_Cons)
qed (simp add: frames_ahead_def)

lemma in_step_start:
  "serde_ok sd ms \<Longrightarrow> frames sd ms = Inr bs \<Longrightarrow> in_step sd ms bs (io_remote_new peer cid)"
  by (auto simp: in_step_def io_remote_new_def alive_def pending_def in_hand_def frames_ahead_frames)

lemma in_step_prefix: "in_step sd ms rest r \<Longrightarrow> \<exists>k. ir_mailbox r = take k ms"
  by (auto simp: in_step_def intro: exI [of _ "length (ir_mailbox r)"])


end
