(* ===== verification/Sctp.thy ===== *)
theory Sctp
  imports Frames
begin

text \<open>
  The actor over an SCTP association, \<open>SctpRemote\<close> of \<open>webchannel.rs\<close>: every message goes over a
  stream of its own, in packets; a stream that comes in is read by a task of its own; bytes on the
  ping stream show that the other end lives. The association is outside the source: its outcomes
  are arguments of the steps, what it was asked to do is recorded in \<open>sc_out\<close>, and what a read
  returns is a parameter. Clocks are in seconds.
\<close>

type_synonym u16 = "16 word"

definition STREAM_ID_CLIENT_INIT :: u16 where "STREAM_ID_CLIENT_INIT = 1"
definition STREAM_ID_SERVER_INIT :: u16 where "STREAM_ID_SERVER_INIT = 2"
definition PING_STREAM_ID :: u16 where "PING_STREAM_ID = 0"
definition PING_INTERVAL_SECS :: nat where "PING_INTERVAL_SECS = 10"
definition PING_TIMEOUT_SECS :: nat where "PING_TIMEOUT_SECS = 30"
definition PING_CHECK_INTERVAL :: nat where "PING_CHECK_INTERVAL = 3"
definition MAX_FRAME_SIZE :: nat where "MAX_FRAME_SIZE = 64 * 1024"

section \<open>Stream ids\<close>

text \<open>The order of Rust strings, byte by byte.\<close>

fun str_less :: "string \<Rightarrow> string \<Rightarrow> bool" where
  "str_less a [] = False"
| "str_less [] (y # ys) = True"
| "str_less (x # xs) (y # ys) =
     ((of_char x :: nat) < of_char y \<or> (x = y \<and> str_less xs ys))"

definition stream_id_init :: "server_id \<Rightarrow> server_id \<Rightarrow> u16" where
  "stream_id_init my_id peer_id =
     (if str_less my_id peer_id then STREAM_ID_CLIENT_INIT else STREAM_ID_SERVER_INIT)"

section \<open>State\<close>

datatype shutdown = Shut_read | Shut_write | Shut_both

datatype stream_out = Opened u16 | Wrote u16 bytes | Shut u16 shutdown | Pinged

datatype sctp_exit = Outgoing_failed | Incoming_closed | Senders_gone | Ping_timeout

datatype sctp_phase = Sc_running | Sc_exited sctp_exit | No_ping_stream | Cancelled

text \<open>\<open>sc_readers\<close> are the streams with a task \<open>read_from_stream\<close>, with what has come in on them.\<close>

record sctp_remote =
  sc_peer :: server_id
  sc_next_stream_id :: u16
  sc_stream_id_parity :: u16
  sc_last_ping_sent :: nat
  sc_last_ping_recv :: nat
  sc_cid :: connection_id
  sc_readers :: "u16 list"
  sc_out :: "stream_out list"
  sc_mailbox :: "message list"
  sc_phase :: sctp_phase

definition sctp_remote_new :: "server_id \<Rightarrow> u16 \<Rightarrow> connection_id \<Rightarrow> nat \<Rightarrow> sctp_remote" where
  "sctp_remote_new peer init cid now =
     \<lparr>sc_peer = peer, sc_next_stream_id = init, sc_stream_id_parity = init,
      sc_last_ping_sent = now - PING_INTERVAL_SECS, sc_last_ping_recv = now, sc_cid = cid,
      sc_readers = [], sc_out = [], sc_mailbox = [], sc_phase = Sc_running\<rparr>"

definition mail :: "message \<Rightarrow> sctp_remote \<Rightarrow> sctp_remote" where
  "mail m r = r\<lparr>sc_mailbox := sc_mailbox r @ [m]\<rparr>"

definition do_out :: "stream_out list \<Rightarrow> sctp_remote \<Rightarrow> sctp_remote" where
  "do_out os r = r\<lparr>sc_out := sc_out r @ os\<rparr>"

text \<open>The end of \<open>run\<close>, after the loop has returned and when the ping stream could not be opened.\<close>

definition sctp_end :: "sctp_phase \<Rightarrow> sctp_remote \<Rightarrow> sctp_remote" where
  "sctp_end ph r = mail (connection_broke (sc_peer r) (sc_cid r)) (r\<lparr>sc_phase := ph\<rparr>)"

definition sctp_run_start :: "bool \<Rightarrow> sctp_remote \<Rightarrow> sctp_remote" where
  "sctp_run_start ping_stream_opened r =
     (if ping_stream_opened then do_out [Opened PING_STREAM_ID] r else sctp_end No_ping_stream r)"

section \<open>Sending\<close>

text \<open>The loop over the payload, and the packets of a message.\<close>

lemma MAX_FRAME_SIZE_pos [simp]: "0 < MAX_FRAME_SIZE"
  by (simp add: MAX_FRAME_SIZE_def)

function chunks_from :: "nat \<Rightarrow> bytes \<Rightarrow> bytes list" where
  "chunks_from offset data =
     (if offset < length data
      then (let chunk_end = min (offset + MAX_FRAME_SIZE) (length data)
            in drop offset (take chunk_end data) # chunks_from chunk_end data)
      else [])"
  by pat_completeness auto
termination
  by (relation "measure (\<lambda>(offset, data). length data - offset)") (auto simp: min_def intro: diff_less_mono2)

declare chunks_from.simps [simp del]

definition packets :: "bytes \<Rightarrow> bytes list" where
  "packets data = to_be_bytes (of_nat (length data)) # chunks_from 0 data"

text \<open>
  What the association does with a message: the stream cannot be opened, or the writes succeed up to
  some write, or all do.
\<close>

datatype send_outcome = Open_failed | Write_failed nat | All_written

definition serialization_err :: "server_id \<Rightarrow> fmt_text \<Rightarrow> message" where
  "serialization_err peer reason =
     \<lparr>mg_host = peer, mg_body = M_serialization_err reason, mg_req_id = None\<rparr>"

text \<open>The reason given when a message cannot be written as JSON is the id of the peer.\<close>

definition handle_outgoing_message ::
  "serde \<Rightarrow> send_outcome \<Rightarrow> message \<Rightarrow> sctp_remote \<Rightarrow> sctp_remote \<times> (unit + unit)" where
  "handle_outgoing_message sd out m r =
     (let stream_id = sc_next_stream_id r; r = r\<lparr>sc_next_stream_id := stream_id + 2\<rparr>
      in if out = Open_failed then (r, Inl ())
         else case sd_enc sd m of
           Inl e \<Rightarrow> (do_out [Opened stream_id, Shut stream_id Shut_both]
                      (mail (serialization_err (sc_peer r) (lit (sc_peer r))) r), Inl ())
         | Inr data \<Rightarrow>
             (case out of
                Write_failed n \<Rightarrow>
                  (do_out (Opened stream_id # map (Wrote stream_id) (take n (packets data)) @ [Shut stream_id Shut_both]) r,
                   Inl ())
              | _ \<Rightarrow>
                  (do_out (Opened stream_id # map (Wrote stream_id) (packets data) @ [Shut stream_id Shut_write]) r,
                   Inr ())))"

section \<open>Receiving\<close>

text \<open>
  What \<open>Stream::read\<close> gives for a buffer of some length, from the packets that have come in: one
  packet, when the buffer is long enough, and nothing once the stream has ended.
\<close>

type_synonym stream_read = "nat \<Rightarrow> bytes list \<Rightarrow> (fmt_text + bytes) \<times> bytes list"

definition packet_reads :: "stream_read \<Rightarrow> bool" where
  "packet_reads rd \<longleftrightarrow>
     (\<forall>n p q. length p \<le> n \<longrightarrow> rd n (p # q) = (Inr p, q)) \<and> (\<forall>n. rd n [] = (Inr [], []))"

datatype read_outcome = Got message | Complained message | Reader_panics | Process_aborts

definition short_buffer :: fmt_text where
  "short_buffer = lit ''Failed to read from stream because buffer too short which should never happen''"

function read_content :: "stream_read \<Rightarrow> nat \<Rightarrow> bytes \<Rightarrow> bytes list \<Rightarrow> fmt_text + bytes" where
  "read_content rd content_length full_buffer q =
     (if length full_buffer < content_length
      then (case rd (min (content_length - length full_buffer) MAX_FRAME_SIZE) q of
              (Inl e, q') \<Rightarrow> Inl short_buffer
            | (Inr bs, q') \<Rightarrow>
                if bs = [] then Inl (Fmt ''EOF while reading content: expected {} bytes, got {}''
                                       [A_num content_length, A_num (length full_buffer)])
                else read_content rd content_length (full_buffer @ bs) q')
      else Inr full_buffer)"
  by pat_completeness auto
termination
  by (relation "measure (\<lambda>(rd, n, buf, q). n - length buf)") (auto simp: neq_Nil_conv)

declare read_content.simps [simp del]

definition read_from_stream :: "serde \<Rightarrow> stream_read \<Rightarrow> server_id \<Rightarrow> bytes list \<Rightarrow> read_outcome" where
  "read_from_stream sd rd peer q =
     (case rd 8 q of
        (Inl e, q') \<Rightarrow> Complained (serialization_err peer short_buffer)
      | (Inr len_bytes, q') \<Rightarrow>
          if length len_bytes < 8
          then Complained (serialization_err peer
                 (Fmt ''Failed to read full length (8 bytes) prefix: only got {} bytes'' [A_num (length len_bytes)]))
          else
            (let content_length = from_be_bytes len_bytes
             in if 2 ^ 63 \<le> content_length then Reader_panics
                else if sd_memory sd < unat content_length then Process_aborts
                else case read_content rd (unat content_length) [] q' of
                       Inl e \<Rightarrow> Complained (serialization_err peer e)
                     | Inr full_buffer \<Rightarrow>
                         (case sd_dec sd full_buffer of
                            Inl e \<Rightarrow> Complained (serialization_err peer (Fmt ''Failed to deserialize message: {}'' [A_fmt e]))
                          | Inr m \<Rightarrow> Got m)))"

definition handle_incoming_stream :: "u16 \<Rightarrow> sctp_remote \<Rightarrow> sctp_remote" where
  "handle_incoming_stream stream_id r =
     (if stream_id = PING_STREAM_ID then r
      else if stream_id mod 2 = sc_stream_id_parity r mod 2 then do_out [Shut stream_id Shut_read] r
      else r\<lparr>sc_readers := sc_readers r @ [stream_id]\<rparr>)"

text \<open>The end of a reader: a message it got counts as a sign of life.\<close>

definition reader_done :: "nat \<Rightarrow> u16 \<Rightarrow> read_outcome \<Rightarrow> sctp_remote \<Rightarrow> sctp_remote" where
  "reader_done now stream_id res r =
     (let r = r\<lparr>sc_readers := remove1 stream_id (sc_readers r)\<rparr>
      in case res of
           Got m \<Rightarrow> mail m (do_out [Shut stream_id Shut_both] (r\<lparr>sc_last_ping_recv := now\<rparr>))
         | Complained m \<Rightarrow> mail m (do_out [Shut stream_id Shut_both] r)
         | _ \<Rightarrow> r)"

section \<open>Pings\<close>

definition handle_ping_tick :: "bool \<Rightarrow> nat \<Rightarrow> sctp_remote \<Rightarrow> sctp_remote \<times> sctp_exit option" where
  "handle_ping_tick written now r =
     (if now - sc_last_ping_recv r > PING_TIMEOUT_SECS then (r, Some Ping_timeout)
      else if now - sc_last_ping_sent r < PING_INTERVAL_SECS then (r, None)
      else if \<not> written then (r, Some Outgoing_failed)
      else (do_out [Pinged] (r\<lparr>sc_last_ping_sent := now\<rparr>), None))"

definition handle_ping_read :: "fmt_text + nat \<Rightarrow> nat \<Rightarrow> sctp_remote \<Rightarrow> sctp_remote \<times> sctp_exit option" where
  "handle_ping_read res now r =
     (case res of
        Inl e \<Rightarrow> (r, Some Ping_timeout)
      | Inr n \<Rightarrow> if n = 0 then (r, Some Ping_timeout) else (r\<lparr>sc_last_ping_recv := now\<rparr>, None))"

section \<open>The loop\<close>

text \<open>
  The branches of \<open>run_inner\<close>, the end of a reader (a task of its own, which runs on after the actor
  has ended), and the token of the actor being cancelled.
\<close>

datatype sctp_event =
    Sc_command message send_outcome
  | Sc_commands_gone
  | Sc_accept "u16 option"
  | Sc_tick nat bool
  | Sc_ping nat "fmt_text + nat"
  | Sc_reader nat u16 read_outcome
  | Sc_cancel

definition leave :: "sctp_remote \<times> sctp_exit option \<Rightarrow> sctp_remote" where
  "leave = (\<lambda>(r, e). case e of None \<Rightarrow> r | Some e \<Rightarrow> sctp_end (Sc_exited e) r)"

definition sctp_turn :: "serde \<Rightarrow> sctp_event \<Rightarrow> sctp_remote \<Rightarrow> sctp_remote" where
  "sctp_turn sd ev r =
     (case ev of
        Sc_command m out \<Rightarrow>
          (case handle_outgoing_message sd out m r of
             (r, Inl _) \<Rightarrow> sctp_end (Sc_exited Outgoing_failed) r
           | (r, Inr _) \<Rightarrow> r)
      | Sc_commands_gone \<Rightarrow> sctp_end (Sc_exited Senders_gone) r
      | Sc_accept None \<Rightarrow> sctp_end (Sc_exited Incoming_closed) r
      | Sc_accept (Some stream_id) \<Rightarrow> handle_incoming_stream stream_id r
      | Sc_tick now written \<Rightarrow> leave (handle_ping_tick written now r)
      | Sc_ping now res \<Rightarrow> leave (handle_ping_read res now r)
      | Sc_cancel \<Rightarrow> r\<lparr>sc_phase := Cancelled\<rparr>
      | _ \<Rightarrow> r)"

definition sctp_step :: "serde \<Rightarrow> sctp_event \<Rightarrow> sctp_remote \<Rightarrow> sctp_remote option" where
  "sctp_step sd ev r =
     (case ev of
        Sc_reader now stream_id res \<Rightarrow>
          if stream_id \<in> set (sc_readers r) then Some (reader_done now stream_id res r) else None
      | _ \<Rightarrow> if sc_phase r = Sc_running then Some (sctp_turn sd ev r) else None)"

fun sctp_run :: "serde \<Rightarrow> sctp_event list \<Rightarrow> sctp_remote \<Rightarrow> sctp_remote option" where
  "sctp_run sd [] r = Some r"
| "sctp_run sd (e # es) r = (case sctp_step sd e r of None \<Rightarrow> None | Some r' \<Rightarrow> sctp_run sd es r')"

section \<open>A message through a stream\<close>

lemma read_chunks:
  "packet_reads rd \<Longrightarrow> offset \<le> length data \<Longrightarrow>
     read_content rd (length data) (take offset data) (chunks_from offset data) = Inr data"
proof (induction offset data rule: chunks_from.induct)
  case (1 offset data)
  show ?case
  proof (cases "offset < length data")
    case False
    then show ?thesis using 1(3) by (simp add: read_content.simps)
  next
    case True
    let ?to = "min (offset + MAX_FRAME_SIZE) (length data)"
    let ?chunk = "drop offset (take ?to data)"
    have len: "length ?chunk = min (length data - offset) MAX_FRAME_SIZE"
      using MAX_FRAME_SIZE_pos True by (simp add: min_def del: MAX_FRAME_SIZE_pos) arith
    have "?to > offset" using True MAX_FRAME_SIZE_pos by linarith
    have "0 < length ?chunk" unfolding len using True by simp
    then have ne: "?chunk \<noteq> []" by (metis length_greater_0_conv)
    have "take offset (take ?to data) = take offset data"
      using less_imp_le [OF \<open>offset < ?to\<close>] by (simp only: take_take min.absorb1)
    then have "take offset data @ ?chunk = take ?to data"
      by (metis append_take_drop_id)
    moreover have "read_content rd (length data) (take ?to data) (chunks_from ?to data) = Inr data"
      using 1(1) [OF True refl 1(2)] by simp
    moreover have "rd (min (length data - offset) MAX_FRAME_SIZE) (?chunk # chunks_from ?to data) = (Inr ?chunk, chunks_from ?to data)"
      using 1(2) len by (simp add: packet_reads_def)
    ultimately show ?thesis
      using True ne by (subst read_content.simps, subst chunks_from.simps) (simp add: Let_def)
  qed
qed

lemma read_packets:
  assumes "packet_reads rd" "sd_dec sd p = Inr m" "int (length p) < 2 ^ 63" "length p \<le> sd_memory sd"
  shows "read_from_stream sd rd peer (packets p) = Got m"
proof -
  have "rd 8 (packets p) = (Inr (to_be_bytes (of_nat (length p))), chunks_from 0 p)"
    using assms(1) by (simp add: packet_reads_def packets_def)
  moreover have "read_content rd (length p) [] (chunks_from 0 p) = Inr p"
    using read_chunks [OF assms(1), of 0 p] by simp
  ultimately show ?thesis
    using payload_length [OF assms(3)] assms(2,4) by (simp add: read_from_stream_def)
qed

text \<open>What was written on a stream.\<close>

fun written :: "u16 \<Rightarrow> stream_out list \<Rightarrow> bytes list" where
  "written i [] = []"
| "written i (Wrote j b # os) = (if i = j then b # written i os else written i os)"
| "written i (x # os) = written i os"

lemma written_append [simp]: "written i (xs @ ys) = written i xs @ written i ys"
  by (induction xs rule: written.induct) auto

lemma written_map [simp]: "written i (map (Wrote i) bs) = bs"
  by (induction bs) auto

lemma sent_message:
  assumes "serde_ok sd [m]" "handle_outgoing_message sd All_written m r = (r', res)"
  obtains p os where "res = Inr ()" "sc_out r' = sc_out r @ os" "written (sc_next_stream_id r) os = packets p"
    "sd_dec sd p = Inr m" "int (length p) < 2 ^ 63" "length p \<le> sd_memory sd"
    "sc_next_stream_id r' = sc_next_stream_id r + 2" "sc_phase r' = sc_phase r"
  using assms
  by (auto simp: handle_outgoing_message_def serde_ok_def do_out_def Let_def split: sum.splits)

section \<open>Stream ids\<close>

lemma str_less_cases: "a \<noteq> b \<Longrightarrow> str_less a b \<noteq> str_less b a"
proof (induction a b rule: str_less.induct)
  case (1 a)
  then show ?case by (cases a) auto
next
  case (3 x xs y ys)
  have "(of_char x :: nat) = of_char y \<longleftrightarrow> x = y" by simp
  then have "x \<noteq> y \<Longrightarrow> (of_char x :: nat) < of_char y \<or> (of_char y :: nat) < of_char x"
    by (metis nat_neq_iff)
  then show ?case using 3 by (cases "x = y") auto
qed simp

lemma one_side_odd:
  "a \<noteq> b \<Longrightarrow> odd (stream_id_init a b) \<noteq> odd (stream_id_init b a)"
  using str_less_cases [of a b] by (auto simp: stream_id_init_def STREAM_ID_CLIENT_INIT_def STREAM_ID_SERVER_INIT_def)

lemma sctp_run_append:
  "sctp_run sd (es @ fs) r = Option.bind (sctp_run sd es r) (sctp_run sd fs)"
  by (induction es arbitrary: r) (auto split: option.splits)

fun is_command :: "sctp_event \<Rightarrow> bool" where
  "is_command (Sc_command m out) = True"
| "is_command _ = False"

definition commands :: "sctp_event list \<Rightarrow> nat" where
  "commands es = length (filter is_command es)"

lemmas sctp_defs = sctp_step_def sctp_turn_def leave_def sctp_end_def mail_def do_out_def reader_done_def
  handle_ping_tick_def handle_ping_read_def handle_incoming_stream_def handle_outgoing_message_def

lemma sctp_step_ids:
  "sctp_step sd e r = Some r' \<Longrightarrow>
     sc_stream_id_parity r' = sc_stream_id_parity r \<and>
     sc_next_stream_id r' = sc_next_stream_id r + (if is_command e then 2 else 0)"
  by (cases e) (auto simp: sctp_defs Let_def split: if_splits sum.splits option.splits send_outcome.splits read_outcome.splits prod.splits)

lemma sctp_run_ids:
  "sctp_run sd es r = Some r' \<Longrightarrow>
     sc_stream_id_parity r' = sc_stream_id_parity r \<and>
     sc_next_stream_id r' = sc_next_stream_id r + of_nat (2 * commands es)"
  by (induction es arbitrary: r)
     (auto simp: commands_def algebra_simps split: option.splits dest: sctp_step_ids)

text \<open>The streams of the messages an end sends, by number.\<close>

definition nth_stream_id :: "server_id \<Rightarrow> server_id \<Rightarrow> nat \<Rightarrow> u16" where
  "nth_stream_id my_id peer_id k = stream_id_init my_id peer_id + of_nat (2 * k)"

lemma nth_stream_id_odd [simp]: "odd (nth_stream_id a b k) = odd (stream_id_init a b)"
  by (simp add: nth_stream_id_def)

lemma nth_stream_id_inj:
  assumes "nth_stream_id a b i = nth_stream_id a b j" "i < 32768" "j < 32768"
  shows "i = j"
proof -
  have "(of_nat (2 * i) :: u16) = of_nat (2 * j)" using assms(1) by (simp add: nth_stream_id_def del: of_nat_mult)
  then have "unat (of_nat (2 * i) :: u16) = unat (of_nat (2 * j) :: u16)" by (simp only:)
  then show ?thesis using assms(2,3) by (simp add: unat_of_nat del: of_nat_mult)
qed

lemma stream_id_after:
  "sctp_run sd es (sctp_remote_new peer (stream_id_init my peer) cid now) = Some r \<Longrightarrow>
     sc_next_stream_id r = nth_stream_id my peer (commands es)"
  by (drule sctp_run_ids) (simp add: sctp_remote_new_def nth_stream_id_def)

lemma ping_stream_in_turn:
  "nth_stream_id a b k = PING_STREAM_ID \<longleftrightarrow> \<not> str_less a b \<and> k mod 32768 = 32767"
proof -
  have "even (PING_STREAM_ID)" by (simp add: PING_STREAM_ID_def)
  then have odd: "str_less a b \<Longrightarrow> nth_stream_id a b k \<noteq> PING_STREAM_ID"
    by (metis nth_stream_id_odd stream_id_init_def STREAM_ID_CLIENT_INIT_def odd_one)
  have "(2 + of_nat (2 * k) :: u16) = of_nat (2 + 2 * k)" by simp
  then have "unat (2 + of_nat (2 * k) :: u16) = (2 + 2 * k) mod 65536"
    by (simp only: unat_of_nat) simp
  then have "(2 + of_nat (2 * k) :: u16) = 0 \<longleftrightarrow> (2 + 2 * k) mod 65536 = 0"
    by (metis unat_eq_zero)
  also have "(2 + 2 * k) mod 65536 = 2 * (Suc k mod 32768)"
    using mult_mod_right [of 2 "Suc k" 32768] by simp
  also have "2 * (Suc k mod 32768) = 0 \<longleftrightarrow> k mod 32768 = 32767"
    by (simp add: mod_Suc)
  finally show ?thesis
    using odd by (auto simp: nth_stream_id_def stream_id_init_def STREAM_ID_SERVER_INIT_def PING_STREAM_ID_def)
qed

lemma foreign_stream_is_read:
  assumes "a \<noteq> b" "sc_stream_id_parity q = stream_id_init b a" "nth_stream_id a b k \<noteq> PING_STREAM_ID"
  shows "handle_incoming_stream (nth_stream_id a b k) q = q\<lparr>sc_readers := sc_readers q @ [nth_stream_id a b k]\<rparr>"
proof -
  have "nth_stream_id a b k mod 2 \<noteq> stream_id_init b a mod 2"
    using one_side_odd [OF assms(1)] by (metis nth_stream_id_odd odd_iff_mod_2_eq_one)
  then show ?thesis using assms by (simp add: handle_incoming_stream_def)
qed


section \<open>Signs of life\<close>

text \<open>Events that bring nothing from the other end.\<close>

fun silent :: "sctp_event \<Rightarrow> bool" where
  "silent (Sc_ping now res) = False"
| "silent (Sc_reader now stream_id (Got m)) = False"
| "silent _ = True"

lemma silent_step:
  "sctp_step sd e r = Some r' \<Longrightarrow> silent e \<Longrightarrow>
     sc_last_ping_recv r' = sc_last_ping_recv r \<and> sc_peer r' = sc_peer r \<and> sc_cid r' = sc_cid r"
  by (cases e) (auto simp: sctp_defs Let_def split: if_splits sum.splits option.splits send_outcome.splits read_outcome.splits prod.splits)

lemma silent_run:
  "sctp_run sd es r = Some r' \<Longrightarrow> list_all silent es \<Longrightarrow>
     sc_last_ping_recv r' = sc_last_ping_recv r \<and> sc_peer r' = sc_peer r \<and> sc_cid r' = sc_cid r"
  by (induction es arbitrary: r) (auto split: option.splits dest: silent_step)

lemma ping_after_tick:
  assumes "sctp_step sd (Sc_tick now True) r = Some r'" "sc_phase r' = Sc_running"
  shows "now - sc_last_ping_sent r' < PING_INTERVAL_SECS"
  using assms by (auto simp: sctp_defs PING_INTERVAL_SECS_def split: if_splits)

end
