(* ===== verification/Web_Channel.thy ===== *)
theory Web_Channel
  imports Sctp Signaling_Client
begin

text \<open>
  The web channel of \<open>webchannel.rs\<close> and the ssh transport of \<open>webchannel/ssh_remote.rs\<close>: the
  handles of the peers, the tasks that connect to a peer, the actors they start, and sending. A
  cancellation token is a number, given out once: a task runs while its token and that of the root
  are not cancelled. Dropping a handle cancels its token. What a transport does is an argument of
  the steps. An operation that would wait for room is \<open>None\<close>.
\<close>

section \<open>State\<close>

datatype transport =
    Via_sock sock
  | Via_ssh string "string list"
  | Via_io

datatype peer_actor =
    Io_actor io_remote
  | Sctp_actor sctp_remote
  | Ssh_actor server_id string "string list" connection_id

fun actor_peer :: "peer_actor \<Rightarrow> server_id" where
  "actor_peer (Io_actor r) = ir_peer r"
| "actor_peer (Sctp_actor r) = sc_peer r"
| "actor_peer (Ssh_actor peer host cmd cid) = peer"

text \<open>A task of \<open>start_connect\<close>: what it waits for, and what it was started with.\<close>

datatype attempt_phase = Awaiting_transport | Establishing sock | Posting "msg list"

record attempt =
  at_peer :: server_id
  at_cid :: connection_id
  at_msgs :: "msg list"
  at_phase :: attempt_phase

text \<open>A handle is dead once its receiver is dropped. The channel to an actor has room for 16 commands.\<close>

record handle =
  hn_queue :: "message list"
  hn_open :: bool
  hn_token :: nat

record web_channel =
  wc_host :: server_id
  wc_remote :: "message list"
  wc_loopback :: "message list"
  wc_shutdown :: bool
  wc_map :: "(server_id, handle) hash_map"
  wc_next_token :: nat
  wc_cancelled :: "nat list"
  wc_attempts :: "(nat, attempt) hash_map"
  wc_actors :: "(nat, peer_actor) hash_map"

definition web_channel_new :: "server_id \<Rightarrow> web_channel" where
  "web_channel_new host =
     \<lparr>wc_host = host, wc_remote = [], wc_loopback = [], wc_shutdown = False, wc_map = [], wc_next_token = 0,
      wc_cancelled = [], wc_attempts = [], wc_actors = []\<rparr>"

definition live :: "web_channel \<Rightarrow> nat \<Rightarrow> bool" where
  "live w t \<longleftrightarrow> \<not> wc_shutdown w \<and> t \<notin> set (wc_cancelled w)"

definition REMOTE_QUEUE :: nat where "REMOTE_QUEUE = 16"
definition LOOPBACK_QUEUE :: nat where "LOOPBACK_QUEUE = 1000"

definition to_server :: "message list \<Rightarrow> web_channel \<Rightarrow> web_channel" where
  "to_server ms w = w\<lparr>wc_remote := wc_remote w @ ms\<rparr>"

text \<open>\<open>DualReceiver::recv\<close>: whichever channel \<open>select!\<close> takes, when it has something.\<close>

definition dual_recv :: "bool \<Rightarrow> web_channel \<Rightarrow> (message \<times> web_channel) option" where
  "dual_recv remote w =
     (if remote
      then (case wc_remote w of [] \<Rightarrow> None | m # ms \<Rightarrow> Some (m, w\<lparr>wc_remote := ms\<rparr>))
      else (case wc_loopback w of [] \<Rightarrow> None | m # ms \<Rightarrow> Some (m, w\<lparr>wc_loopback := ms\<rparr>)))"

section \<open>Handles\<close>

text \<open>\<open>HashMap::remove\<close> of a handle, which drops it.\<close>

definition drop_handle :: "server_id \<Rightarrow> web_channel \<Rightarrow> web_channel" where
  "drop_handle peer w =
     (case map_of (wc_map w) peer of
        None \<Rightarrow> w
      | Some h \<Rightarrow> w\<lparr>wc_map := AList.delete peer (wc_map w), wc_cancelled := hn_token h # wc_cancelled w\<rparr>)"

definition insert_handle :: "server_id \<Rightarrow> nat \<Rightarrow> web_channel \<Rightarrow> web_channel \<times> (fmt_text + unit)" where
  "insert_handle peer t w =
     (case map_of (wc_map w) peer of
        Some h \<Rightarrow>
          if hn_open h then (w, Inl (Fmt ''Connection to {} already exists'' [A_str peer]))
          else (let w = drop_handle peer w
                in (w\<lparr>wc_map := AList.update peer \<lparr>hn_queue = [], hn_open = True, hn_token = t\<rparr> (wc_map w)\<rparr>, Inr ()))
      | None \<Rightarrow> (w\<lparr>wc_map := AList.update peer \<lparr>hn_queue = [], hn_open = True, hn_token = t\<rparr> (wc_map w)\<rparr>, Inr ()))"

text \<open>The receiver that belongs to a token is dropped, with what is queued.\<close>

definition close_rx :: "nat \<Rightarrow> web_channel \<Rightarrow> web_channel" where
  "close_rx t w =
     w\<lparr>wc_map := map (\<lambda>(p, h). (p, if hn_token h = t then h\<lparr>hn_open := False, hn_queue := []\<rparr> else h)) (wc_map w)\<rparr>"

definition disconnect :: "server_id \<Rightarrow> web_channel \<Rightarrow> web_channel" where
  "disconnect peer w = drop_handle peer w"

definition shutdown_channel :: "web_channel \<Rightarrow> web_channel" where
  "shutdown_channel w = w\<lparr>wc_map := [], wc_cancelled := map (hn_token \<circ> snd) (wc_map w) @ wc_cancelled w\<rparr>"

section \<open>Sending\<close>

definition queue_full :: "handle \<Rightarrow> bool" where
  "queue_full h \<longleftrightarrow> REMOTE_QUEUE \<le> length (hn_queue h)"

definition send ::
  "server_id \<Rightarrow> request_id option \<Rightarrow> msg \<Rightarrow> web_channel \<Rightarrow> (web_channel \<times> (fmt_text + unit)) option" where
  "send recipient rid body w =
     (let message = \<lparr>mg_host = wc_host w, mg_body = body, mg_req_id = rid\<rparr>
      in if recipient = wc_host w
         then if LOOPBACK_QUEUE \<le> length (wc_loopback w)
              then Some (w\<lparr>wc_shutdown := True\<rparr>, Inl (lit ''Loopback channel is full which shouldn't happen; shutting down''))
              else Some (w\<lparr>wc_loopback := wc_loopback w @ [message]\<rparr>, Inr ())
         else case map_of (wc_map w) recipient of
           None \<Rightarrow> Some (w, Inl (lit ''Not connected''))
         | Some h \<Rightarrow>
             if \<not> hn_open h then Some (w, Inl (lit ''Channel broke''))
             else if queue_full h then None
             else Some (w\<lparr>wc_map := AList.update recipient (h\<lparr>hn_queue := hn_queue h @ [message]\<rparr>) (wc_map w)\<rparr>, Inr ()))"

text \<open>The loop of \<open>broadcast\<close> over the handles there were at its start, counting the failures.\<close>

fun broadcast_to ::
  "server_id list \<Rightarrow> request_id option \<Rightarrow> msg \<Rightarrow> nat \<Rightarrow> web_channel \<Rightarrow> (web_channel \<times> nat) option" where
  "broadcast_to [] rid body errs w = Some (w, errs)"
| "broadcast_to (p # ps) rid body errs w =
     (case map_of (wc_map w) p of
        None \<Rightarrow> broadcast_to ps rid body (Suc errs) w
      | Some h \<Rightarrow>
          if \<not> hn_open h then broadcast_to ps rid body (Suc errs) w
          else if queue_full h then None
          else broadcast_to ps rid body errs
                 (w\<lparr>wc_map := AList.update p
                     (h\<lparr>hn_queue := hn_queue h @ [\<lparr>mg_host = wc_host w, mg_body = body, mg_req_id = rid\<rparr>]\<rparr>) (wc_map w)\<rparr>))"

definition broadcast_all :: "request_id option \<Rightarrow> msg \<Rightarrow> web_channel \<Rightarrow> (web_channel \<times> (fmt_text + unit)) option" where
  "broadcast_all rid body w =
     (case broadcast_to (keys (wc_map w)) rid body 0 w of
        None \<Rightarrow> None
      | Some (w, errs) \<Rightarrow>
          Some (w, if errs = 0 then Inr () else Inl (Fmt ''broadcast failed for {} peer(s)'' [A_num errs])))"

section \<open>Connecting\<close>

definition verify_dtls_cert :: "crypto \<Rightarrow> string \<Rightarrow> bytes list \<Rightarrow> fmt_text + unit" where
  "verify_dtls_cert cr cert certs =
     (case certs of
        [] \<Rightarrow> Inl (lit ''Remote host provided empty certificate'')
      | c # cs \<Rightarrow>
          if hash_der cr c \<noteq> cert
          then Inl (Fmt ''Certificate hash mismatch, cert from signaling server = {}, cert provided by DTLS = {}''
                      [A_str cert, A_str (hash_der cr c)])
          else Inr ())"

text \<open>
  What ICE, DTLS and SCTP come to: whether ICE connects, the certificates that the other end has
  presented in the handshake, and whether the association is made.
\<close>

record establish_env =
  es_ice :: "fmt_text + unit"
  es_dtls :: "fmt_text + bytes list"
  es_sctp :: "fmt_text + unit"

definition establish_sctp :: "crypto \<Rightarrow> establish_env \<Rightarrow> string \<Rightarrow> fmt_text + unit" where
  "establish_sctp cr v their_cert =
     (case es_ice v of
        Inl e \<Rightarrow> Inl e
      | Inr _ \<Rightarrow>
          (case es_dtls v of
             Inl e \<Rightarrow> Inl e
           | Inr certs \<Rightarrow>
               (case verify_dtls_cert cr their_cert certs of Inl e \<Rightarrow> Inl e | Inr _ \<Rightarrow> es_sctp v)))"

definition start_connect :: "server_id \<Rightarrow> connection_id \<Rightarrow> msg list \<Rightarrow> web_channel \<Rightarrow> web_channel" where
  "start_connect peer cid msgs w =
     w\<lparr>wc_next_token := Suc (wc_next_token w),
       wc_attempts := AList.update (wc_next_token w)
         \<lparr>at_peer = peer, at_cid = cid, at_msgs = msgs, at_phase = Awaiting_transport\<rparr> (wc_attempts w)\<rparr>"

text \<open>
  The end of \<open>start_connect_1\<close> with an error. A receiver that \<open>connect\<close> holds is dropped when it
  returns an error.
\<close>

definition fail_attempt :: "fmt_text \<Rightarrow> nat \<Rightarrow> attempt \<Rightarrow> web_channel \<Rightarrow> web_channel" where
  "fail_attempt e t att w =
     to_server [\<lparr>mg_host = wc_host w, mg_body = M_failed_to_connect (at_peer att) e (at_cid att), mg_req_id = None\<rparr>]
       (w\<lparr>wc_attempts := AList.delete t (wc_attempts w)\<rparr>)"

definition set_phase :: "nat \<Rightarrow> attempt \<Rightarrow> attempt_phase \<Rightarrow> web_channel \<Rightarrow> web_channel" where
  "set_phase t att ph w = w\<lparr>wc_attempts := AList.update t (att\<lparr>at_phase := ph\<rparr>) (wc_attempts w)\<rparr>"

definition spawn_actor :: "nat \<Rightarrow> peer_actor \<Rightarrow> attempt \<Rightarrow> web_channel \<Rightarrow> web_channel" where
  "spawn_actor t a att w =
     set_phase t att (Posting (at_msgs att)) (w\<lparr>wc_actors := AList.update t a (wc_actors w)\<rparr>)"

text \<open>The transport is there: \<open>connect\<close> up to where it waits for the other end, or to its end.\<close>

definition connect :: "nat \<Rightarrow> attempt \<Rightarrow> transport \<Rightarrow> web_channel \<Rightarrow> web_channel" where
  "connect t att tr w =
     (case insert_handle (case tr of Via_sock k \<Rightarrow> so_peer_id k | _ \<Rightarrow> at_peer att) t w of
        (w, Inl e) \<Rightarrow> fail_attempt e t att w
      | (w, Inr _) \<Rightarrow>
          (case tr of
             Via_sock k \<Rightarrow> set_phase t att (Establishing k) w
           | Via_ssh host cmd \<Rightarrow> spawn_actor t (Ssh_actor (at_peer att) host cmd (at_cid att)) att w
           | Via_io \<Rightarrow> spawn_actor t (Io_actor (io_remote_new (at_peer att) (at_cid att))) att w))"

definition transport_ready :: "nat \<Rightarrow> fmt_text + transport \<Rightarrow> attempt \<Rightarrow> web_channel \<Rightarrow> web_channel" where
  "transport_ready t res att w =
     (case res of Inl e \<Rightarrow> fail_attempt e t att w | Inr tr \<Rightarrow> connect t att tr w)"

text \<open>
  The rest of \<open>connect_with_sock\<close>. The certificate is the one in the id of the socket's peer; a task
  whose socket has none that can be sliced out panics.
\<close>

definition connect_with_sock :: "crypto \<Rightarrow> establish_env \<Rightarrow> nat \<Rightarrow> nat \<Rightarrow> attempt \<Rightarrow> sock \<Rightarrow> web_channel \<Rightarrow> web_channel" where
  "connect_with_sock cr v now t att k w =
     (case sock_cert_hash k of
        None \<Rightarrow> close_rx t (w\<lparr>wc_attempts := AList.delete t (wc_attempts w)\<rparr>)
      | Some their_cert \<Rightarrow>
          (case establish_sctp cr v their_cert of
             Inl e \<Rightarrow> fail_attempt e t att (close_rx t w)
           | Inr _ \<Rightarrow>
               spawn_actor t (Sctp_actor (sctp_remote_new (so_peer_id k)
                 (stream_id_init (wc_host w) (so_peer_id k)) (at_cid att) now)) att w))"

text \<open>One message of the loop over \<open>post_connect_msgs\<close>, or its end.\<close>

definition post_message :: "nat \<Rightarrow> attempt \<Rightarrow> msg list \<Rightarrow> web_channel \<Rightarrow> web_channel option" where
  "post_message t att ms w =
     (case ms of
        [] \<Rightarrow> Some (w\<lparr>wc_attempts := AList.delete t (wc_attempts w)\<rparr>)
      | m # ms \<Rightarrow>
          (case send (at_peer att) None m w of
             None \<Rightarrow> None
           | Some (w, Inl e) \<Rightarrow> Some (fail_attempt e t att w)
           | Some (w, Inr _) \<Rightarrow> Some (set_phase t att (Posting ms) w)))"

section \<open>Actors\<close>

fun actor_mailbox :: "peer_actor \<Rightarrow> message list" where
  "actor_mailbox (Io_actor r) = ir_mailbox r"
| "actor_mailbox (Sctp_actor r) = sc_mailbox r"
| "actor_mailbox (Ssh_actor peer host cmd cid) = []"

fun actor_running :: "peer_actor \<Rightarrow> bool" where
  "actor_running (Io_actor r) = (case ir_phase r of Exited e \<Rightarrow> False | Panicked \<Rightarrow> False | Aborted \<Rightarrow> False | _ \<Rightarrow> True)"
| "actor_running (Sctp_actor r) = (sc_phase r = Sc_running)"
| "actor_running (Ssh_actor peer host cmd cid) = True"

text \<open>An actor has made a step: what it sent goes to the server, and at its end its receiver is dropped.\<close>

definition put_actor :: "nat \<Rightarrow> peer_actor \<Rightarrow> peer_actor \<Rightarrow> web_channel \<Rightarrow> web_channel" where
  "put_actor t a a' w =
     (let w = to_server (drop (length (actor_mailbox a)) (actor_mailbox a'))
                (w\<lparr>wc_actors := AList.update t a' (wc_actors w)\<rparr>)
      in if actor_running a' then w else close_rx t w)"

text \<open>
  \<open>SshRemote::run\<close>: there is nothing to run, ssh fails at some point, or the command runs and an
  actor takes over its pipes.
\<close>

datatype ssh_outcome = Session_failed | Spawn_failed | No_pipes | Spawned

definition ssh_remote_run :: "ssh_outcome \<Rightarrow> server_id \<Rightarrow> string list \<Rightarrow> connection_id \<Rightarrow> io_remote" where
  "ssh_remote_run res peer cmd cid =
     (let r = io_remote_new peer cid
      in if cmd = [] then io_end Inbound_closed r
         else case res of
           Session_failed \<Rightarrow> io_end Inbound_closed r
         | Spawn_failed \<Rightarrow> io_end Inbound_closed r
         | No_pipes \<Rightarrow> io_end Inbound_closed r
         | Spawned \<Rightarrow> r)"

datatype peer_input =
    In_io io_event
  | In_sctp sctp_event
  | In_ssh ssh_outcome
  | In_command send_outcome

text \<open>A command comes from the queue of the handle.\<close>

definition take_command :: "serde \<Rightarrow> send_outcome \<Rightarrow> nat \<Rightarrow> peer_actor \<Rightarrow> web_channel \<Rightarrow> web_channel option" where
  "take_command sd out t a w =
     (case map_of (wc_map w) (actor_peer a) of
        None \<Rightarrow> None
      | Some h \<Rightarrow>
          (case hn_queue h of
             [] \<Rightarrow> None
           | m # ms \<Rightarrow>
               (let w' = w\<lparr>wc_map := AList.update (actor_peer a) (h\<lparr>hn_queue := ms\<rparr>) (wc_map w)\<rparr>
                in if hn_token h \<noteq> t then None
                   else case a of
                     Io_actor r \<Rightarrow> map_option (\<lambda>r'. put_actor t a (Io_actor r') w') (io_step sd (Io_command m) r)
                   | Sctp_actor r \<Rightarrow> map_option (\<lambda>r'. put_actor t a (Sctp_actor r') w') (sctp_step sd (Sc_command m out) r)
                   | Ssh_actor peer host cmd cid \<Rightarrow> None)))"

definition actor_step :: "serde \<Rightarrow> peer_input \<Rightarrow> nat \<Rightarrow> peer_actor \<Rightarrow> web_channel \<Rightarrow> web_channel option" where
  "actor_step sd inp t a w =
     (case (inp, a) of
        (In_io ev, Io_actor r) \<Rightarrow>
          (case ev of Io_command m \<Rightarrow> None | _ \<Rightarrow> map_option (\<lambda>r'. put_actor t a (Io_actor r') w) (io_step sd ev r))
      | (In_sctp ev, Sctp_actor r) \<Rightarrow>
          (case ev of Sc_command m out \<Rightarrow> None | _ \<Rightarrow> map_option (\<lambda>r'. put_actor t a (Sctp_actor r') w) (sctp_step sd ev r))
      | (In_ssh res, Ssh_actor peer host cmd cid) \<Rightarrow>
          Some (put_actor t a (Io_actor (ssh_remote_run res peer cmd cid)) w)
      | (In_command out, _) \<Rightarrow> take_command sd out t a w
      | _ \<Rightarrow> None)"

section \<open>Steps\<close>

text \<open>
  The operations the server calls, the tasks of \<open>start_connect\<close>, the actors, and the server reading
  its channel. Tasks stand still once their token is cancelled, but for readers of streams.
\<close>

datatype channel_event =
    Wc_start server_id connection_id "msg list"
  | Wc_transport nat "fmt_text + transport"
  | Wc_progress nat string
  | Wc_establish nat establish_env nat
  | Wc_post nat
  | Wc_actor nat peer_input
  | Wc_send server_id "request_id option" msg
  | Wc_broadcast "request_id option" msg
  | Wc_disconnect server_id
  | Wc_shutdown
  | Wc_recv bool

definition attempt_step :: "crypto \<Rightarrow> channel_event \<Rightarrow> nat \<Rightarrow> attempt \<Rightarrow> web_channel \<Rightarrow> web_channel option" where
  "attempt_step cr ev t att w =
     (case (ev, at_phase att) of
        (Wc_transport u res, Awaiting_transport) \<Rightarrow> Some (transport_ready t res att w)
      | (Wc_progress u text, Establishing k) \<Rightarrow>
          Some (to_server [\<lparr>mg_host = wc_host w, mg_body = M_ice_progress (so_peer_id k) text, mg_req_id = None\<rparr>] w)
      | (Wc_establish u v now, Establishing k) \<Rightarrow> Some (connect_with_sock cr v now t att k w)
      | (Wc_post u, Posting ms) \<Rightarrow> post_message t att ms w
      | _ \<Rightarrow> None)"

definition is_reader :: "peer_input \<Rightarrow> bool" where
  "is_reader inp = (case inp of In_sctp (Sc_reader now i res) \<Rightarrow> True | _ \<Rightarrow> False)"

definition on_attempt :: "crypto \<Rightarrow> channel_event \<Rightarrow> nat \<Rightarrow> web_channel \<Rightarrow> web_channel option" where
  "on_attempt cr ev t w =
     (case map_of (wc_attempts w) t of
        None \<Rightarrow> None
      | Some att \<Rightarrow> if live w t then attempt_step cr ev t att w else None)"

definition channel_step :: "crypto \<Rightarrow> serde \<Rightarrow> channel_event \<Rightarrow> web_channel \<Rightarrow> web_channel option" where
  "channel_step cr sd ev w =
     (case ev of
        Wc_start peer cid msgs \<Rightarrow> Some (start_connect peer cid msgs w)
      | Wc_actor t inp \<Rightarrow>
          (case map_of (wc_actors w) t of
             None \<Rightarrow> None
           | Some a \<Rightarrow> if live w t \<or> is_reader inp then actor_step sd inp t a w else None)
      | Wc_send p rid m \<Rightarrow> map_option fst (send p rid m w)
      | Wc_broadcast rid m \<Rightarrow> map_option fst (broadcast_all rid m w)
      | Wc_disconnect p \<Rightarrow> Some (disconnect p w)
      | Wc_shutdown \<Rightarrow> Some (shutdown_channel w)
      | Wc_recv remote \<Rightarrow> map_option snd (dual_recv remote w)
      | Wc_transport t res \<Rightarrow> on_attempt cr ev t w
      | Wc_progress t text \<Rightarrow> on_attempt cr ev t w
      | Wc_establish t v now \<Rightarrow> on_attempt cr ev t w
      | Wc_post t \<Rightarrow> on_attempt cr ev t w)"

inductive channel_reachable :: "crypto \<Rightarrow> serde \<Rightarrow> web_channel \<Rightarrow> bool" for cr sd where
  fresh: "channel_reachable cr sd (web_channel_new host)"
| step: "channel_reachable cr sd w \<Longrightarrow> channel_step cr sd ev w = Some w' \<Longrightarrow> channel_reachable cr sd w'"

section \<open>One actor per peer\<close>

text \<open>
  Which token the handle of a peer has, the tokens cancelled, the next token, the attempts and the
  actors: an attempt that waits for its transport has a token no one knows yet; the token of an
  attempt to establish a connection, or of an actor, is that of the handle of its peer or cancelled.
\<close>

definition owner :: "web_channel \<Rightarrow> server_id \<Rightarrow> nat option" where
  "owner w p = map_option hn_token (map_of (wc_map w) p)"

definition unused ::
  "(server_id \<Rightarrow> nat option) \<Rightarrow> nat set \<Rightarrow> (nat \<Rightarrow> peer_actor option) \<Rightarrow> nat \<Rightarrow> bool" where
  "unused ow C R t \<longleftrightarrow> t \<notin> C \<and> (\<forall>p. ow p \<noteq> Some t) \<and> R t = None"

definition tokens_ok :: "(server_id \<Rightarrow> nat option) \<Rightarrow> nat set \<Rightarrow> nat \<Rightarrow> bool" where
  "tokens_ok ow C n \<longleftrightarrow> (\<forall>p t. ow p = Some t \<longrightarrow> t < n \<and> t \<notin> C) \<and>
     (\<forall>p q t. ow p = Some t \<longrightarrow> ow q = Some t \<longrightarrow> p = q) \<and> (\<forall>t \<in> C. t < n)"

definition attempt_ok ::
  "(server_id \<Rightarrow> nat option) \<Rightarrow> nat set \<Rightarrow> (nat \<Rightarrow> peer_actor option) \<Rightarrow> nat \<Rightarrow> attempt \<Rightarrow> bool" where
  "attempt_ok ow C R t att \<longleftrightarrow>
     (at_phase att = Awaiting_transport \<longrightarrow> unused ow C R t) \<and>
     (\<forall>k. at_phase att = Establishing k \<longrightarrow> R t = None \<and> (t \<in> C \<or> ow (so_peer_id k) = Some t))"

definition tasks_ok ::
  "(server_id \<Rightarrow> nat option) \<Rightarrow> nat set \<Rightarrow> nat \<Rightarrow> (nat \<Rightarrow> attempt option) \<Rightarrow> (nat \<Rightarrow> peer_actor option) \<Rightarrow> bool" where
  "tasks_ok ow C n T R \<longleftrightarrow> tokens_ok ow C n \<and>
     (\<forall>t att. T t = Some att \<longrightarrow> t < n \<and> attempt_ok ow C R t att) \<and>
     (\<forall>t a. R t = Some a \<longrightarrow> t < n \<and> (t \<in> C \<or> ow (actor_peer a) = Some t))"

lemmas tasks_defs = tasks_ok_def tokens_ok_def attempt_ok_def unused_def

lemma tasks_drop:
  "tasks_ok ow C n T R \<Longrightarrow> ow p = Some t \<Longrightarrow> tasks_ok (ow(p := None)) (insert t C) n T R"
  unfolding tasks_defs by (auto split: if_splits) (metis option.inject)+

lemma tasks_insert:
  "tasks_ok ow C n T R \<Longrightarrow> ow p = None \<Longrightarrow> unused ow C R t \<Longrightarrow> t < n \<Longrightarrow> T t = None \<Longrightarrow>
     tasks_ok (ow(p \<mapsto> t)) C n T R"
  unfolding tasks_defs by (auto split: if_splits) (metis option.distinct(1))+

lemma tasks_next: "tasks_ok ow C n T R \<Longrightarrow> n \<le> n' \<Longrightarrow> tasks_ok ow C n' T R"
  unfolding tasks_defs by (meson order_less_le_trans)

lemma unused_next: "tasks_ok ow C n T R \<Longrightarrow> unused ow C R n"
  unfolding tasks_defs by (metis less_irrefl_nat not_None_eq)

lemma tasks_attempt:
  "tasks_ok ow C n T R \<Longrightarrow> t < n \<Longrightarrow> attempt_ok ow C R t att \<Longrightarrow> tasks_ok ow C n (T(t \<mapsto> att)) R"
  unfolding tasks_ok_def by auto

lemma tasks_no_attempt: "tasks_ok ow C n T R \<Longrightarrow> tasks_ok ow C n (T(t := None)) R"
  unfolding tasks_ok_def by auto

lemma tasks_actor:
  "tasks_ok ow C n T R \<Longrightarrow> t < n \<Longrightarrow> T t = None \<Longrightarrow> t \<in> C \<or> ow (actor_peer a) = Some t \<Longrightarrow>
     tasks_ok ow C n T (R(t \<mapsto> a))"
  unfolding tasks_defs by (auto split: if_splits)

lemma tasks_same_actor:
  "tasks_ok ow C n T R \<Longrightarrow> R t = Some a \<Longrightarrow> actor_peer a' = actor_peer a \<Longrightarrow> tasks_ok ow C n T (R(t \<mapsto> a'))"
  unfolding tasks_defs by (auto split: if_splits)

lemma tasks_clear:
  "tasks_ok ow C n T R \<Longrightarrow> tasks_ok (\<lambda>p. None) ({t. \<exists>p. ow p = Some t} \<union> C) n T R"
  unfolding tasks_defs by auto blast+

definition channel_ok :: "web_channel \<Rightarrow> bool" where
  "channel_ok w \<longleftrightarrow>
     tasks_ok (owner w) (set (wc_cancelled w)) (wc_next_token w) (map_of (wc_attempts w)) (map_of (wc_actors w)) \<and>
     distinct (keys (wc_map w)) \<and>
     (\<forall>p h. map_of (wc_map w) p = Some h \<longrightarrow> length (hn_queue h) \<le> REMOTE_QUEUE) \<and>
     length (wc_loopback w) \<le> LOOPBACK_QUEUE"


lemma to_server_ok [simp]: "channel_ok (to_server ms w) = channel_ok w"
  by (simp add: channel_ok_def owner_def [abs_def] to_server_def)

lemma new_ok: "channel_ok (web_channel_new host)"
  by (simp add: channel_ok_def owner_def [abs_def] tasks_defs web_channel_new_def keys_def)

lemma owner_update [simp]: "owner (w\<lparr>wc_map := AList.update p h (wc_map w)\<rparr>) = (owner w)(p \<mapsto> hn_token h)"
  by (auto simp: owner_def fun_eq_iff)

lemma owner_fields [simp]:
  "owner (w\<lparr>wc_attempts := x\<rparr>) = owner w" "owner (w\<lparr>wc_actors := y\<rparr>) = owner w"
  "owner (w\<lparr>wc_next_token := n\<rparr>) = owner w" "owner (w\<lparr>wc_loopback := l\<rparr>) = owner w"
  "owner (w\<lparr>wc_shutdown := b\<rparr>) = owner w" "owner (w\<lparr>wc_remote := r\<rparr>) = owner w"
  by (simp_all add: owner_def [abs_def])

lemma drop_handle_ok: "channel_ok w \<Longrightarrow> channel_ok (drop_handle p w)"
proof (cases "map_of (wc_map w) p")
  case (Some h)
  assume ok: "channel_ok w"
  have "owner (drop_handle p w) = (owner w)(p := None)"
    using Some by (auto simp: owner_def drop_handle_def fun_eq_iff)
  moreover have "owner w p = Some (hn_token h)" using Some by (simp add: owner_def)
  ultimately show ?thesis
    using ok Some tasks_drop [of "owner w" "set (wc_cancelled w)"]
    by (simp add: channel_ok_def) (simp add: drop_handle_def keys_delete)
qed (simp add: drop_handle_def)

lemma drop_handle_fields [simp]:
  "wc_attempts (drop_handle p w) = wc_attempts w" "wc_actors (drop_handle p w) = wc_actors w"
  "wc_next_token (drop_handle p w) = wc_next_token w" "map_of (wc_map (drop_handle p w)) p = None"
  by (simp_all add: drop_handle_def split: option.splits)

lemma shutdown_ok: "channel_ok w \<Longrightarrow> channel_ok (shutdown_channel w)"
proof -
  assume ok: "channel_ok w"
  have "t \<in> hn_token ` snd ` set (wc_map w) \<longleftrightarrow> (\<exists>p. owner w p = Some t)" for t
  proof
    assume "t \<in> hn_token ` snd ` set (wc_map w)"
    then obtain p h where "(p, h) \<in> set (wc_map w)" "t = hn_token h" by auto
    then have "owner w p = Some t"
      using ok by (simp add: channel_ok_def owner_def keys_def map_of_is_SomeI)
    then show "\<exists>p. owner w p = Some t" by blast
  next
    assume "\<exists>p. owner w p = Some t"
    then obtain p h where "map_of (wc_map w) p = Some h" "hn_token h = t" by (auto simp: owner_def)
    then show "t \<in> hn_token ` snd ` set (wc_map w)" by (metis image_eqI map_of_SomeD snd_conv)
  qed
  then have "set (wc_cancelled (shutdown_channel w)) = {t. \<exists>p. owner w p = Some t} \<union> set (wc_cancelled w)"
    by (auto simp: shutdown_channel_def image_comp)
  moreover have "owner (shutdown_channel w) = (\<lambda>p. None)"
    by (simp add: owner_def [abs_def] shutdown_channel_def)
  ultimately show ?thesis
    using ok tasks_clear [of "owner w"]
    by (simp add: channel_ok_def) (simp add: shutdown_channel_def keys_def)
qed

lemma start_connect_ok: "channel_ok w \<Longrightarrow> channel_ok (start_connect p cid ms w)"
proof -
  assume ok: "channel_ok w"
  let ?ow = "owner w" and ?C = "set (wc_cancelled w)" and ?R = "map_of (wc_actors w)"
  have "tasks_ok ?ow ?C (Suc (wc_next_token w)) (map_of (wc_attempts w)) ?R"
    using ok by - (rule tasks_next [where n = "wc_next_token w"], simp_all add: channel_ok_def)
  moreover have "attempt_ok ?ow ?C ?R (wc_next_token w)
      \<lparr>at_peer = p, at_cid = cid, at_msgs = ms, at_phase = Awaiting_transport\<rparr>"
    using ok by (auto simp: attempt_ok_def channel_ok_def dest: unused_next)
  ultimately have "tasks_ok ?ow ?C (Suc (wc_next_token w)) ((map_of (wc_attempts w))(wc_next_token w \<mapsto>
      \<lparr>at_peer = p, at_cid = cid, at_msgs = ms, at_phase = Awaiting_transport\<rparr>)) ?R"
    by - (rule tasks_attempt, simp_all)
  then show ?thesis using ok by (simp add: channel_ok_def start_connect_def)
qed

text \<open>Steps that leave the owners, the tokens and the tasks alone.\<close>

lemma close_rx_owner [simp]: "owner (close_rx t w) = owner w"
  by (auto simp: owner_def close_rx_def map_of_map fun_eq_iff option.map_comp comp_def intro!: option.map_cong)

lemma close_rx_ok: "channel_ok w \<Longrightarrow> channel_ok (close_rx t w)"
  by (simp add: channel_ok_def) (auto simp: close_rx_def keys_def comp_def case_prod_unfold map_of_map)

lemma queue_ok:
  assumes "channel_ok w" "map_of (wc_map w) p = Some h" "length q \<le> REMOTE_QUEUE"
  shows "channel_ok (w\<lparr>wc_map := AList.update p (h\<lparr>hn_queue := q\<rparr>) (wc_map w)\<rparr>)"
proof -
  have "(owner w)(p \<mapsto> hn_token h) = owner w" using assms(2) by (auto simp: owner_def)
  then show ?thesis using assms by (simp add: channel_ok_def keys_update)
qed

lemma channel_send_ok: "channel_ok w \<Longrightarrow> send p rid m w = Some (w', res) \<Longrightarrow> channel_ok w'"
proof (cases "map_of (wc_map w) p")
  case (Some h)
  assume "channel_ok w" "send p rid m w = Some (w', res)"
  then show ?thesis
    using queue_ok [OF _ Some, of "hn_queue h @ [\<lparr>mg_host = wc_host w, mg_body = m, mg_req_id = rid\<rparr>]"] Some
    by (simp add: send_def Let_def queue_full_def not_le split: if_splits) (auto simp: channel_ok_def)
qed (auto simp: send_def Let_def channel_ok_def split: if_splits)

lemma broadcast_to_ok: "channel_ok w \<Longrightarrow> broadcast_to ps rid m n w = Some (w', k) \<Longrightarrow> channel_ok w'"
proof (induction ps arbitrary: n w)
  case (Cons p ps)
  show ?case
  proof (cases "map_of (wc_map w) p")
    case None
    then show ?thesis using Cons by simp
  next
    case (Some h)
    then show ?thesis
      using Cons.prems Cons.IH [OF Cons.prems(1)] Cons.IH [OF queue_ok [OF Cons.prems(1) Some],
          of "hn_queue h @ [\<lparr>mg_host = wc_host w, mg_body = m, mg_req_id = rid\<rparr>]"]
      by (simp add: queue_full_def split: if_splits)
  qed
qed simp

lemma dual_recv_ok: "channel_ok w \<Longrightarrow> dual_recv b w = Some (m, w') \<Longrightarrow> channel_ok w'"
  by (cases b; cases "wc_remote w"; cases "wc_loopback w") (auto simp: dual_recv_def channel_ok_def)


definition without :: "nat \<Rightarrow> web_channel \<Rightarrow> web_channel" where
  "without t w = w\<lparr>wc_attempts := AList.delete t (wc_attempts w)\<rparr>"

lemma without_ok: "channel_ok w \<Longrightarrow> channel_ok (without t w)"
  by (simp add: without_def channel_ok_def tasks_no_attempt)

lemma fail_attempt_ok: "channel_ok w \<Longrightarrow> channel_ok (fail_attempt e t att w)"
  by (simp add: fail_attempt_def without_ok flip: without_def)

lemma insert_handle_ok:
  assumes ok: "channel_ok w" and att: "map_of (wc_attempts w) t = Some att" "at_phase att = Awaiting_transport"
    and ins: "insert_handle p t w = (w', Inr u)"
  shows "channel_ok (without t w')" "owner w' p = Some t" "t < wc_next_token w'"
    "map_of (wc_actors w') t = None" "map_of (wc_attempts w') = map_of (wc_attempts w)"
proof -
  let ?d = "drop_handle p w" and ?h = "\<lparr>hn_queue = [], hn_open = True, hn_token = t\<rparr>"
  have w': "w' = ?d\<lparr>wc_map := AList.update p ?h (wc_map ?d)\<rparr>"
    using ins by (auto simp: insert_handle_def Let_def drop_handle_def split: option.splits if_splits)
  have t: "t < wc_next_token w" "unused (owner w) (set (wc_cancelled w)) (map_of (wc_actors w)) t"
    using ok att by (auto simp: channel_ok_def tasks_ok_def attempt_ok_def)
  then have "unused (owner ?d) (set (wc_cancelled ?d)) (map_of (wc_actors ?d)) t"
    by (auto simp: unused_def owner_def drop_handle_def split: option.splits)
  moreover have d: "channel_ok (without t ?d)" using ok by (simp add: drop_handle_ok without_ok)
  ultimately have "tasks_ok ((owner ?d)(p \<mapsto> t)) (set (wc_cancelled ?d)) (wc_next_token ?d)
      ((map_of (wc_attempts w))(t := None)) (map_of (wc_actors w))"
    using t(1) by - (rule tasks_insert, auto simp: channel_ok_def without_def owner_def)
  then show "channel_ok (without t w')"
    using d by (auto simp: w' channel_ok_def without_def keys_update)
  show "owner w' p = Some t" "t < wc_next_token w'" "map_of (wc_actors w') t = None"
    "map_of (wc_attempts w') = map_of (wc_attempts w)"
    using t by (auto simp: w' owner_def unused_def)
qed

lemma insert_handle_err: "insert_handle p t w = (w', Inl e) \<Longrightarrow> w' = w"
  by (auto simp: insert_handle_def Let_def split: option.splits if_splits)

lemma set_phase_ok:
  assumes "channel_ok (without t w)" "t < wc_next_token w"
    "attempt_ok (owner w) (set (wc_cancelled w)) (map_of (wc_actors w)) t (att\<lparr>at_phase := ph\<rparr>)"
  shows "channel_ok (set_phase t att ph w)"
  using assms tasks_attempt [of "owner w" _ _ "(map_of (wc_attempts w))(t := None)" _ t]
  by (simp add: channel_ok_def without_def set_phase_def)

lemma spawn_actor_ok:
  assumes "channel_ok (without t w)" "t < wc_next_token w"
    "t \<in> set (wc_cancelled w) \<or> owner w (actor_peer a) = Some t"
  shows "channel_ok (spawn_actor t a att w)"
  unfolding spawn_actor_def
proof (rule set_phase_ok)
  show "channel_ok (without t (w\<lparr>wc_actors := AList.update t a (wc_actors w)\<rparr>))"
    using assms by (auto simp: channel_ok_def without_def intro!: tasks_actor)
qed (use assms in \<open>simp_all add: attempt_ok_def\<close>)

lemma connect_ok:
  assumes "channel_ok w" "map_of (wc_attempts w) t = Some att" "at_phase att = Awaiting_transport"
  shows "channel_ok (connect t att tr w)"
proof -
  define p where "p = (case tr of Via_sock k \<Rightarrow> so_peer_id k | _ \<Rightarrow> at_peer att)"
  obtain w' res where ins: "insert_handle p t w = (w', res)" by (cases "insert_handle p t w")
  show ?thesis
  proof (cases res)
    case (Inl e)
    then show ?thesis
      using ins insert_handle_err [of p t w] assms(1) by (simp add: connect_def fail_attempt_ok flip: p_def)
  next
    case (Inr u)
    note ok = insert_handle_ok [OF assms ins [unfolded Inr]]
    show ?thesis
      using ins Inr ok
      by (auto simp: connect_def p_def attempt_ok_def io_remote_new_def split: transport.splits
          intro!: set_phase_ok spawn_actor_ok)
  qed
qed

lemma tasks_establishing:
  assumes "channel_ok w" "map_of (wc_attempts w) t = Some att" "at_phase att = Establishing k"
  shows "t < wc_next_token w" "t \<in> set (wc_cancelled w) \<or> owner w (so_peer_id k) = Some t"
  using assms by (auto simp: channel_ok_def tasks_ok_def attempt_ok_def)

lemma connect_with_sock_ok:
  assumes "channel_ok w" "map_of (wc_attempts w) t = Some att" "at_phase att = Establishing k"
  shows "channel_ok (connect_with_sock cr v now t att k w)"
  using tasks_establishing [OF assms] assms(1)
  by (auto simp: connect_with_sock_def sctp_remote_new_def without_ok close_rx_ok fail_attempt_ok simp flip: without_def
      split: option.splits sum.splits intro!: spawn_actor_ok)


lemma post_message_ok:
  assumes "channel_ok w" "map_of (wc_attempts w) t = Some att" "post_message t att ms w = Some w'"
  shows "channel_ok w'"
proof -
  have t: "t < wc_next_token w" using assms(1,2) by (auto simp: channel_ok_def tasks_ok_def)
  have "wc_next_token v = wc_next_token w" if "send p rid m w = Some (v, res)" for p rid m v res
    using that by (auto simp: send_def Let_def split: if_splits option.splits)
  then show ?thesis
    using assms t
    by (auto simp: post_message_def attempt_ok_def without_ok fail_attempt_ok channel_send_ok simp flip: without_def
        split: list.splits option.splits sum.splits intro!: set_phase_ok)
qed

lemma io_step_peer: "io_step sd ev r = Some r' \<Longrightarrow> ir_peer r' = ir_peer r"
  by (auto simp: io_step_def io_poll_def io_command_def io_write_def io_end_def
      split: io_event.splits io_phase.splits if_splits read_poll.splits sum.splits)

lemma sctp_step_peer: "sctp_step sd ev r = Some r' \<Longrightarrow> sc_peer r' = sc_peer r"
  by (cases ev) (auto simp: sctp_defs Let_def split: if_splits sum.splits option.splits send_outcome.splits read_outcome.splits prod.splits)

lemma put_actor_ok:
  assumes "channel_ok w" "map_of (wc_actors w) t = Some a" "actor_peer a' = actor_peer a"
  shows "channel_ok (put_actor t a a' w)"
proof -
  have "channel_ok (w\<lparr>wc_actors := AList.update t a' (wc_actors w)\<rparr>)"
    using assms by (auto simp: channel_ok_def intro: tasks_same_actor)
  then show ?thesis by (simp add: put_actor_def Let_def close_rx_ok)
qed

lemma take_command_ok:
  assumes "channel_ok w" "map_of (wc_actors w) t = Some a" "take_command sd out t a w = Some w'"
  shows "channel_ok w'"
proof -
  obtain h m ms where h: "map_of (wc_map w) (actor_peer a) = Some h" "hn_queue h = m # ms"
    using assms(3) by (auto simp: take_command_def split: option.splits list.splits)
  then have "length ms \<le> REMOTE_QUEUE" using assms(1) by (force simp: channel_ok_def)
  from queue_ok [OF assms(1) h(1) this] show ?thesis
    using assms(2,3) h
    by (auto simp: take_command_def Let_def split: if_splits peer_actor.splits
        intro!: put_actor_ok dest: io_step_peer sctp_step_peer)
qed

lemma actor_step_ok:
  assumes "channel_ok w" "map_of (wc_actors w) t = Some a" "actor_step sd inp t a w = Some w'"
  shows "channel_ok w'"
  using assms
  by (auto simp: actor_step_def ssh_remote_run_def io_end_def io_remote_new_def Let_def
      split: peer_input.splits peer_actor.splits io_event.splits sctp_event.splits ssh_outcome.splits if_splits
      intro: take_command_ok intro!: put_actor_ok dest: io_step_peer sctp_step_peer)

lemma attempt_step_ok:
  assumes "channel_ok w" "map_of (wc_attempts w) t = Some att" "attempt_step cr ev t att w = Some w'"
  shows "channel_ok w'"
  using assms
  by (auto simp: attempt_step_def transport_ready_def fail_attempt_ok connect_ok connect_with_sock_ok
      split: channel_event.splits attempt_phase.splits sum.splits intro: post_message_ok)

lemma channel_step_ok: "channel_step cr sd ev w = Some w' \<Longrightarrow> channel_ok w \<Longrightarrow> channel_ok w'"
  by (cases ev)
     (auto simp: channel_step_def on_attempt_def start_connect_ok broadcast_all_def disconnect_def drop_handle_ok shutdown_ok
      split: option.splits if_splits prod.splits dest: attempt_step_ok actor_step_ok channel_send_ok broadcast_to_ok dual_recv_ok)

lemma channel_reachable_ok: "channel_reachable cr sd w \<Longrightarrow> channel_ok w"
  by (induction rule: channel_reachable.induct) (auto intro: new_ok channel_step_ok)


end
