(* ===== verification/Transport_Theorems.thy ===== *)
theory Transport_Theorems
  imports Web_Channel Server_Theorems
begin

text \<open>
  Properties of the transports: what goes into a stream of frames or of packets comes out, one actor
  per peer, peers that prove their identity, and what can go wrong on the way.
\<close>

section \<open>A codec for one message\<close>

definition sample_msg :: "server_id \<Rightarrow> msg \<Rightarrow> message" where
  "sample_msg host body = \<lparr>mg_host = host, mg_body = body, mg_req_id = Some 1\<rparr>"

definition toy_serde :: "message \<Rightarrow> bytes \<Rightarrow> serde" where
  "toy_serde m p =
     \<lparr>sd_enc = (\<lambda>m'. if m' = m then Inr p else Inl (lit ''not this one'')),
      sd_dec = (\<lambda>bs. if bs = p then Inr m else Inl (lit ''not this one'')), sd_memory = 1000\<rparr>"

lemma toy_frame: "frame (toy_serde m p) m = Inr (to_be_bytes (of_nat (length p)) @ p)"
  by (simp add: frame_def toy_serde_def)

lemma toy_ok: "length p \<le> 1000 \<Longrightarrow> serde_ok (toy_serde m p) [m]"
  by (simp add: serde_ok_def toy_serde_def)


section \<open>Frames\<close>

text \<open>C28: Messages sent over a pipe arrive: the frames of some messages come in, cut into pieces in any
  way, while the actor polls, delivers and writes in any order, with commands coming only between
  two frames. Then the actor is still running, has delivered the first so many messages, in order,
  and nothing else; and left to itself it delivers all the rest within \<open>2 * length ms + 2\<close> steps.\<close>

theorem frames_round_trip:
  assumes "serde_ok sd ms" and "frames sd ms = Inr (arrived evs)"
    and "io_run sd evs (io_remote_new peer cid) = Some r" and "calm sd evs (io_remote_new peer cid)"
  shows "alive r \<and> (\<exists>k. ir_mailbox r = take k ms) \<and>
     io_settled (io_drain sd (2 * length ms + 2) r) \<and> ir_mailbox (io_drain sd (2 * length ms + 2) r) = ms"
proof -
  have inv: "in_step sd ms [] r"
    using in_step_run [OF _ assms(3,4), of ms "[]"] in_step_start [OF assms(1,2)] by simp
  have "alive r" using inv by (simp add: in_step_def)
  moreover have "need ms r \<le> 2 * length ms + 2" by (rule need_bound)
  note drain_settles [OF inv this]
  ultimately show ?thesis
    using settled_all in_step_prefix [OF inv] by blast
qed

definition hello :: message where
  "hello = sample_msg ''eve'' M_bye"

definition in_pieces :: "io_event list" where
  "in_pieces = [Io_arrive [0, 0, 0], Io_poll, Io_arrive [0, 0, 0, 0, 2, 7], Io_poll, Io_arrive [9]]"

lemma frames_round_trip_witness:
  "ir_mailbox (io_drain (toy_serde hello [7, 9]) 4
     (the (io_run (toy_serde hello [7, 9]) in_pieces (io_remote_new ''p'' 1)))) = [hello]"
proof -
  let ?sd = "toy_serde hello [7, 9]"
  have "frames ?sd [hello] = Inr (arrived in_pieces)"
    by (simp add: toy_frame) code_simp
  moreover have "serde_ok ?sd [hello]" by (simp add: toy_ok)
  moreover have "calm ?sd in_pieces (io_remote_new ''p'' 1)" by code_simp
  moreover have "io_run ?sd in_pieces (io_remote_new ''p'' 1) \<noteq> None" by code_simp
  ultimately show ?thesis
    using frames_round_trip [of ?sd "[hello]" in_pieces "''p''" 1] by (auto simp: numeral_eq_Suc)
qed

text \<open>A command that reaches the actor when the length of a frame has been read and its payload has
  not, drops the length: \<open>frame_read\<close> is not cancellation safe. The payload is then read as a frame;
  its first eight bytes, the text of the first key, are a length of more than \<open>2 ^ 62\<close> bytes, and the
  process is aborted for want of memory. (Every payload starts with these bytes, and \<open>frame_write\<close>
  writes length and payload separately.)\<close>

definition first_key :: bytes where
  "first_key = [0x7B, 0x22, 0x68, 0x6F, 0x73, 0x74, 0x22, 0x3A]"

theorem command_inside_frame_aborts:
  assumes "frame sd m = Inr (to_be_bytes len @ p)" and "take 8 p = first_key"
    and "len < 2 ^ 63" and "unat len \<le> sd_memory sd" and "int (sd_memory sd) < 2 ^ 62" and "0 < len"
    and "frame sd c = Inr f"
  shows "\<exists>r. io_run sd [Io_arrive (to_be_bytes len), Io_poll, Io_command c, Io_write (length f), Io_arrive p, Io_poll]
      (io_remote_new peer cid) = Some r \<and> ir_phase r = Aborted \<and> ir_mailbox r = []"
proof -
  have p: "8 \<le> length p"
    using arg_cong [OF assms(2), of length] by (simp add: first_key_def)
  have len: "unat len \<noteq> 0" using assms(6) by (simp add: unat_eq_zero)
  have huge: "from_be_bytes first_key = 0x7B22686F7374223A" by code_simp
  have "unat (0x7B22686F7374223A :: u64) = nat 0x7B22686F7374223A" by simp
  then have mem: "sd_memory sd < unat (from_be_bytes first_key)"
    using assms(5) huge by simp
  have ok: "\<not> (2 ^ 63 :: u64) \<le> from_be_bytes first_key" unfolding huge by simp
  have ne: "length f \<noteq> 0" using frame_not_empty [OF assms(7)] by simp
  have "8 - length p = 0" using p by simp
  moreover have "length first_key = 8" by (simp add: first_key_def)
  moreover have "\<not> 2 ^ 63 \<le> len" using assms(3) by (simp only: not_le)
  ultimately show ?thesis
    using assms(2,4,7) p len mem ok ne
    by (simp add: io_step_def io_poll_def io_command_def io_write_def io_remote_new_def frame_poll_def read_exact_def
        poll_body_def)
qed

lemma command_inside_frame_aborts_witness:
  "\<exists>r. io_run (toy_serde hello (first_key @ [1])) [Io_arrive (to_be_bytes 9), Io_poll, Io_command hello,
      Io_write 17, Io_arrive (first_key @ [1]), Io_poll] (io_remote_new ''p'' 1) = Some r \<and>
     ir_phase r = Aborted \<and> ir_mailbox r = []"
proof -
  let ?p = "first_key @ [1]"
  let ?sd = "toy_serde hello ?p"
  have f: "frame ?sd hello = Inr (to_be_bytes 9 @ ?p)" by (simp add: toy_frame first_key_def)
  have len: "length (to_be_bytes 9 @ ?p) = 17" by (simp add: first_key_def)
  have p: "take 8 ?p = first_key" by (simp add: first_key_def)
  have n: "(9 :: u64) < 2 ^ 63" "unat (9 :: u64) \<le> sd_memory ?sd" "int (sd_memory ?sd) < 2 ^ 62" "(0 :: u64) < 9"
    by (simp_all add: toy_serde_def)
  show ?thesis using command_inside_frame_aborts [OF f p n f, of "''p''" 1] unfolding len .
qed


section \<open>Packets\<close>

lemma str_less_irrefl: "\<not> str_less a a"
  by (induction a) auto

lemma send_many:
  "serde_ok sd [m] \<Longrightarrow> sc_phase r = Sc_running \<Longrightarrow>
     \<exists>r'. sctp_run sd (replicate n (Sc_command m All_written)) r = Some r' \<and> sc_phase r' = Sc_running \<and>
       sc_peer r' = sc_peer r \<and> sc_cid r' = sc_cid r"
proof (induction n arbitrary: r)
  case (Suc n)
  have "\<exists>r1. sctp_step sd (Sc_command m All_written) r = Some r1 \<and> sc_phase r1 = Sc_running \<and>
       sc_peer r1 = sc_peer r \<and> sc_cid r1 = sc_cid r"
    using Suc.prems by (auto simp: serde_ok_def sctp_step_def sctp_turn_def handle_outgoing_message_def do_out_def Let_def
        split: sum.splits)
  then show ?case using Suc by fastforce
qed simp

text \<open>C29: Messages sent over SCTP arrive: of two ends with different ids, whatever one end has done since
  its start, when it sends a message in full on a stream that is not the ping stream, the other end
  starts a reader for that stream, and the reader gets the message from the packets and hands it to
  the server. (Reads give one packet at a time.)\<close>

theorem sctp_message_arrives:
  assumes "a \<noteq> b" and "serde_ok sd [m]" and "packet_reads rd"
    and "sctp_run sd evs (sctp_remote_new b (stream_id_init a b) cid now) = Some r"
    and "sc_next_stream_id r \<noteq> PING_STREAM_ID"
    and "sctp_step sd (Sc_command m All_written) r = Some r'"
    and "sc_stream_id_parity q = stream_id_init b a" and "sc_phase q = Sc_running"
  shows "\<exists>q'. sctp_run sd
      [Sc_accept (Some (sc_next_stream_id r)),
       Sc_reader later (sc_next_stream_id r)
         (read_from_stream sd rd (sc_peer q) (written (sc_next_stream_id r) (drop (length (sc_out r)) (sc_out r'))))] q
      = Some q' \<and> sc_mailbox q' = sc_mailbox q @ [m] \<and> sc_phase q' = Sc_running"
proof -
  let ?i = "sc_next_stream_id r"
  have i: "?i = nth_stream_id a b (commands evs)" by (rule stream_id_after [OF assms(4)])
  obtain r2 res where h: "handle_outgoing_message sd All_written m r = (r2, res)"
    by (cases "handle_outgoing_message sd All_written m r")
  from sent_message [OF assms(2) h] obtain p os where
    p: "res = Inr ()" "sc_out r2 = sc_out r @ os" "written ?i os = packets p"
      "sd_dec sd p = Inr m" "int (length p) < 2 ^ 63" "length p \<le> sd_memory sd" by metis
  have "r' = r2" using assms(6) h p(1) by (auto simp: sctp_step_def sctp_turn_def split: if_splits)
  then have "written ?i (drop (length (sc_out r)) (sc_out r')) = packets p"
    using p(2,3) by simp
  then have got: "read_from_stream sd rd (sc_peer q) (written ?i (drop (length (sc_out r)) (sc_out r'))) = Got m"
    using read_packets [OF assms(3) p(4-6)] by simp
  have "handle_incoming_stream ?i q = q\<lparr>sc_readers := sc_readers q @ [?i]\<rparr>"
    using foreign_stream_is_read [OF assms(1,7)] assms(5) i by simp
  then show ?thesis
    using assms(8) by (simp add: got sctp_step_def sctp_turn_def reader_done_def mail_def do_out_def)
qed

definition one_packet :: stream_read where
  "one_packet n q = (case q of [] \<Rightarrow> (Inr [], []) | p # ps \<Rightarrow> if length p \<le> n then (Inr p, ps) else (Inl short_buffer, ps))"

lemma one_packet_reads: "packet_reads one_packet"
  by (simp add: packet_reads_def one_packet_def)

lemma sctp_message_arrives_witness:
  "\<exists>r' q'. sctp_step (toy_serde hello [7, 9]) (Sc_command hello All_written)
        (sctp_remote_new ''b'' (stream_id_init ''a'' ''b'') 1 100) = Some r' \<and>
      sctp_run (toy_serde hello [7, 9])
        [Sc_accept (Some 1), Sc_reader 101 1 (read_from_stream (toy_serde hello [7, 9]) one_packet ''a'' (written 1 (sc_out r')))]
        (sctp_remote_new ''a'' (stream_id_init ''b'' ''a'') 2 100) = Some q' \<and> sc_mailbox q' = [hello]"
proof -
  let ?sd = "toy_serde hello [7, 9]" and ?r = "sctp_remote_new ''b'' (stream_id_init ''a'' ''b'') 1 100"
    and ?q = "sctp_remote_new ''a'' (stream_id_init ''b'' ''a'') 2 100"
  have i: "sc_next_stream_id ?r = 1" "sc_out ?r = []" "sc_mailbox ?q = []" "sc_peer ?q = ''a''"
    by (simp_all add: sctp_remote_new_def stream_id_init_def STREAM_ID_CLIENT_INIT_def)
  have q: "sc_stream_id_parity ?q = stream_id_init ''b'' ''a''" "sc_phase ?q = Sc_running"
    by (simp_all add: sctp_remote_new_def)
  obtain r' where r': "sctp_step ?sd (Sc_command hello All_written) ?r = Some r'"
    by (simp add: sctp_step_def sctp_remote_new_def)
  have "sctp_run ?sd [] (sctp_remote_new ''b'' (stream_id_init ''a'' ''b'') 1 100) = Some ?r"
    "sc_next_stream_id ?r \<noteq> PING_STREAM_ID" "''a'' \<noteq> ''b''"
    by (simp_all add: i PING_STREAM_ID_def)
  from sctp_message_arrives [OF this(3) _ one_packet_reads this(1,2) r' q, of 101] r'
  show ?thesis by (simp add: i toy_ok) blast
qed

text \<open>C37: The end with the larger id runs into the ping stream: it can send 32767 messages in full, and
  then its next stream is the stream of the pings. Either that stream cannot be opened a second
  time, and the connection breaks, or the message goes out on it, and the other end, which takes it
  for pings, starts no reader.\<close>

theorem ping_stream_swallows_message:
  assumes "str_less b a" and "serde_ok sd [m]"
  shows "\<exists>r. sctp_run sd (replicate 32767 (Sc_command m All_written)) (sctp_remote_new b (stream_id_init a b) cid now) = Some r \<and>
     sc_phase r = Sc_running \<and> sc_next_stream_id r = PING_STREAM_ID \<and>
     (\<exists>r'. sctp_step sd (Sc_command m Open_failed) r = Some r' \<and> sc_phase r' = Sc_exited Outgoing_failed \<and>
        sc_mailbox r' = sc_mailbox r @ [connection_broke b cid]) \<and>
     (\<forall>q. sc_phase q = Sc_running \<longrightarrow> sctp_step sd (Sc_accept (Some (sc_next_stream_id r))) q = Some q)"
proof -
  let ?new = "sctp_remote_new b (stream_id_init a b) cid now"
  obtain r where r: "sctp_run sd (replicate 32767 (Sc_command m All_written)) ?new = Some r" "sc_phase r = Sc_running"
    "sc_peer r = b" "sc_cid r = cid"
    using send_many [OF assms(2), of ?new 32767] by (auto simp: sctp_remote_new_def)
  have "commands (replicate 32767 (Sc_command m All_written)) = 32767"
    by (simp add: commands_def filter_replicate)
  moreover have "\<not> str_less a b" using str_less_cases [of a b] str_less_irrefl [of b] assms(1) by (cases "a = b") auto
  ultimately have "sc_next_stream_id r = PING_STREAM_ID"
    using stream_id_after [OF r(1)] ping_stream_in_turn [of a b 32767] by simp
  then show ?thesis
    using r by (auto simp: sctp_step_def sctp_turn_def handle_outgoing_message_def handle_incoming_stream_def
        sctp_end_def mail_def Let_def)
qed

lemma ping_stream_swallows_message_witness:
  "\<exists>r. sctp_run (toy_serde hello [7, 9]) (replicate 32767 (Sc_command hello All_written))
      (sctp_remote_new ''a'' (stream_id_init ''b'' ''a'') 1 100) = Some r \<and>
     sc_next_stream_id r = PING_STREAM_ID"
proof -
  have "str_less ''a'' ''b''" by simp
  from ping_stream_swallows_message [OF this, of "toy_serde hello [7, 9]" hello 1 100] toy_ok
  show ?thesis by auto
qed

text \<open>A dead connection is noticed and a living one is kept. An end that has heard nothing for more
  than 30 seconds ends at its next tick and reports the broken connection; and when the other end
  ticks every three seconds, what it sent last is at most nine seconds old at its last tick, so a
  tick up to 21 seconds after that finds nothing wrong, if that ping has come in.\<close>

theorem silence_is_noticed:
  assumes "sctp_run sd evs r0 = Some r" and "list_all silent evs" and "sc_phase r = Sc_running"
    and "sctp_step sd (Sc_tick sent True) p = Some p'" and "sc_phase p' = Sc_running"
  shows "(sc_last_ping_recv r0 + 30 < now \<longrightarrow>
       (\<exists>r'. sctp_step sd (Sc_tick now w) r = Some r' \<and> sc_phase r' = Sc_exited Ping_timeout \<and>
          sc_mailbox r' = sc_mailbox r @ [connection_broke (sc_peer r0) (sc_cid r0)])) \<and>
     (sc_last_ping_recv r \<ge> sc_last_ping_sent p' \<and> now \<le> sent + 21 \<longrightarrow>
       (\<exists>r'. sctp_step sd (Sc_tick now True) r = Some r' \<and> sc_phase r' = Sc_running))"
proof -
  have "sc_last_ping_recv r = sc_last_ping_recv r0" "sc_peer r = sc_peer r0" "sc_cid r = sc_cid r0"
    using silent_run [OF assms(1,2)] by simp_all
  moreover have "sent - sc_last_ping_sent p' < 10"
    using ping_after_tick [OF assms(4,5)] by (simp add: PING_INTERVAL_SECS_def)
  ultimately show ?thesis
    using assms(3)
    by (auto simp: sctp_defs PING_TIMEOUT_SECS_def PING_INTERVAL_SECS_def)
qed


lemma silence_is_noticed_witness:
  "\<exists>r'. sctp_step (toy_serde hello [7, 9]) (Sc_tick 131 True) (sctp_remote_new ''a'' 2 1 100) = Some r' \<and>
     sc_phase r' = Sc_exited Ping_timeout"
  "\<exists>r'. sctp_step (toy_serde hello [7, 9]) (Sc_tick 118 True) (sctp_remote_new ''a'' 2 1 100) = Some r' \<and>
     sc_phase r' = Sc_running"
proof -
  let ?sd = "toy_serde hello [7, 9]" and ?r = "sctp_remote_new ''a'' 2 1 100" and ?p = "sctp_remote_new ''b'' 1 2 90"
  have p: "\<exists>p'. sctp_step ?sd (Sc_tick 97 True) ?p = Some p' \<and> sc_phase p' = Sc_running \<and> sc_last_ping_sent p' = 97"
    by (simp add: sctp_defs sctp_remote_new_def PING_TIMEOUT_SECS_def PING_INTERVAL_SECS_def)
  then obtain p' where p': "sctp_step ?sd (Sc_tick 97 True) ?p = Some p'" "sc_phase p' = Sc_running"
    "sc_last_ping_sent p' = 97" by blast
  have r: "sctp_run ?sd [] ?r = Some ?r" "list_all silent []" "sc_phase ?r = Sc_running" "sc_last_ping_recv ?r = 100"
    by (simp_all add: sctp_remote_new_def)
  show "\<exists>r'. sctp_step ?sd (Sc_tick 131 True) ?r = Some r' \<and> sc_phase r' = Sc_exited Ping_timeout"
    using silence_is_noticed [OF r(1-3) p'(1,2), of 131 True] r(4) by auto
  show "\<exists>r'. sctp_step ?sd (Sc_tick 118 True) ?r = Some r' \<and> sc_phase r' = Sc_running"
    using silence_is_noticed [OF r(1-3) p'(1,2), of 118 True] r(4) p'(3) by auto
qed

section \<open>The web channel\<close>

text \<open>C31: A peer has one actor: in every state the web channel can get into, two actors of one peer whose
  tokens have not been cancelled are the same, and theirs is the token of the handle of the peer, so
  disconnecting the peer stops them.\<close>

theorem one_actor_per_peer:
  assumes "channel_reachable cr sd w" and "map_of (wc_actors w) t1 = Some a1" and "map_of (wc_actors w) t2 = Some a2"
    and "live w t1" and "live w t2" and "actor_peer a1 = actor_peer a2"
  shows "t1 = t2 \<and> owner w (actor_peer a1) = Some t1 \<and> \<not> live (disconnect (actor_peer a1) w) t1"
proof -
  have "\<forall>t a. map_of (wc_actors w) t = Some a \<longrightarrow> live w t \<longrightarrow> owner w (actor_peer a) = Some t"
    using channel_reachable_ok [OF assms(1)] by (auto simp: channel_ok_def tasks_ok_def live_def)
  then have "owner w (actor_peer a1) = Some t1" "owner w (actor_peer a1) = Some t2"
    using assms(2-6) by metis+
  then show ?thesis
    by (auto simp: owner_def live_def disconnect_def drop_handle_def)
qed

fun channel_run :: "crypto \<Rightarrow> serde \<Rightarrow> channel_event list \<Rightarrow> web_channel \<Rightarrow> web_channel option" where
  "channel_run cr sd [] w = Some w"
| "channel_run cr sd (e # es) w = (case channel_step cr sd e w of None \<Rightarrow> None | Some w' \<Rightarrow> channel_run cr sd es w')"

lemma channel_run_reachable:
  "channel_run cr sd es w = Some w' \<Longrightarrow> channel_reachable cr sd w \<Longrightarrow> channel_reachable cr sd w'"
  by (induction es arbitrary: w) (auto split: option.splits intro: channel_reachable.step)

definition three_starts :: "channel_event list" where
  "three_starts =
     [Wc_start ''p'' 1 [M_bye], Wc_start ''p'' 2 [], Wc_transport 0 (Inr Via_io), Wc_transport 1 (Inr Via_io), Wc_post 0]"

definition no_crypto :: crypto where
  "no_crypto =
     \<lparr>cr_b64_encode = (\<lambda>_. []), cr_b64_decode = (\<lambda>_. Inr []), cr_sha256 = (\<lambda>b. b), cr_parse_cert = Inr,
      cr_load_key = Inr, cr_sign = (\<lambda>_ _. Inr []), cr_verify = (\<lambda>_ _ _. True)\<rparr>"

lemma one_actor_per_peer_witness:
  "\<exists>w. channel_run no_crypto (toy_serde hello []) three_starts (web_channel_new ''me'') = Some w \<and>
     live w 0 \<and> \<not> live (disconnect ''p'' w) 0"
proof -
  let ?run = "channel_run no_crypto (toy_serde hello []) three_starts (web_channel_new ''me'')"
  have "map_option (\<lambda>w. (live w 0, map_option actor_peer (map_of (wc_actors w) 0))) ?run = Some (True, Some ''p'')"
    by code_simp
  then obtain w a where w: "?run = Some w" "live w 0" "map_of (wc_actors w) 0 = Some a" "actor_peer a = ''p''"
    by auto
  have "channel_reachable no_crypto (toy_serde hello []) w"
    by (rule channel_run_reachable [OF w(1) channel_reachable.fresh])
  from one_actor_per_peer [OF this w(3,3,2,2) refl] w show ?thesis by auto
qed

lemma wc_actors_simps [simp]:
  "wc_actors (to_server ms w) = wc_actors w" "wc_actors (set_phase t att ph w) = wc_actors w"
  "wc_actors (fail_attempt e t att w) = wc_actors w" "wc_actors (close_rx t w) = wc_actors w"
  "wc_actors (start_connect p cid bodies w) = wc_actors w" "wc_actors (shutdown_channel w) = wc_actors w"
  "wc_actors (disconnect p w) = wc_actors w"
  by (simp_all add: to_server_def set_phase_def fail_attempt_def close_rx_def start_connect_def shutdown_channel_def
      disconnect_def)

lemma insert_handle_actors: "insert_handle p t w = (w', res) \<Longrightarrow> wc_actors w' = wc_actors w"
  by (auto simp: insert_handle_def Let_def split: option.splits if_splits)

lemma send_actors: "send p rid m w = Some (w', res) \<Longrightarrow> wc_actors w' = wc_actors w"
  by (auto simp: send_def Let_def split: option.splits if_splits)

lemma broadcast_to_actors: "broadcast_to ps rid m n w = Some (w', k) \<Longrightarrow> wc_actors w' = wc_actors w"
proof (induction ps arbitrary: n w)
  case (Cons p ps)
  then show ?case by (fastforce split: option.splits if_splits)
qed simp

lemma dual_recv_actors: "dual_recv b w = Some (m, w') \<Longrightarrow> wc_actors w' = wc_actors w"
  by (auto simp: dual_recv_def split: if_splits list.splits)

lemma put_actor_actors [simp]: "wc_actors (put_actor t a a' w) = AList.update t a' (wc_actors w)"
  by (simp add: put_actor_def Let_def)

definition sctp_at :: "nat \<Rightarrow> web_channel \<Rightarrow> bool" where
  "sctp_at t w = (case map_of (wc_actors w) t of Some (Sctp_actor r) \<Rightarrow> True | _ \<Rightarrow> False)"

lemma sctp_at_iff: "sctp_at t w \<longleftrightarrow> (\<exists>r. map_of (wc_actors w) t = Some (Sctp_actor r))"
  by (simp add: sctp_at_def split: option.splits peer_actor.splits)

lemma sctp_at_same: "wc_actors w' = wc_actors w \<Longrightarrow> sctp_at t w' = sctp_at t w"
  by (simp add: sctp_at_def)

lemma sctp_at_actor_step:
  "actor_step sd inp u a w = Some w' \<Longrightarrow> map_of (wc_actors w) u = Some a \<Longrightarrow> sctp_at t w' \<Longrightarrow> sctp_at t w"
  by (auto simp: actor_step_def take_command_def Let_def sctp_at_def
      split: peer_input.splits peer_actor.splits io_event.splits sctp_event.splits option.splits list.splits if_splits)

lemma sctp_at_transport: "sctp_at t (transport_ready u res att w) \<Longrightarrow> sctp_at t w"
  by (auto simp: transport_ready_def connect_def spawn_actor_def sctp_at_def dest: insert_handle_actors
      split: sum.splits prod.splits transport.splits if_splits)

lemma sctp_at_post: "post_message u att ms w = Some w' \<Longrightarrow> wc_actors w' = wc_actors w"
  by (auto simp: post_message_def split: list.splits option.splits sum.splits) (drule send_actors, simp)+

lemma sctp_at_step:
  assumes "channel_step cr sd ev w = Some w'" "sctp_at t w'" "\<not> sctp_at t w"
  shows "\<exists>u v now. ev = Wc_establish u v now"
proof (cases ev)
  case (Wc_transport u res)
  then show ?thesis
    using assms by (auto simp: channel_step_def on_attempt_def attempt_step_def dest: sctp_at_transport
        split: option.splits if_splits attempt_phase.splits)
next
  case (Wc_actor u inp)
  then show ?thesis
    using assms by (auto simp: channel_step_def dest: sctp_at_actor_step split: option.splits if_splits)
next
  case (Wc_broadcast rid m)
  then show ?thesis
    using assms by (auto simp: channel_step_def broadcast_all_def dest!: broadcast_to_actors sctp_at_same
        split: option.splits)
next
  case (Wc_send p rid m)
  then show ?thesis
    using assms by (auto simp: channel_step_def dest!: send_actors sctp_at_same)
next
  case (Wc_recv b)
  then show ?thesis
    using assms by (auto simp: channel_step_def dest!: dual_recv_actors sctp_at_same)
next
  case (Wc_post u)
  then show ?thesis
    using assms by (auto simp: channel_step_def on_attempt_def attempt_step_def dest!: sctp_at_post sctp_at_same
        split: option.splits if_splits attempt_phase.splits)
qed (use assms in \<open>auto simp: channel_step_def on_attempt_def attempt_step_def sctp_at_def
        split: option.splits if_splits attempt_phase.splits\<close>)

text \<open>C30: Over WebRTC a peer has proved its identity: an actor over SCTP only ever comes from a connection
  in whose handshake the other end presented the certificate whose hash is in the id of the peer.\<close>

theorem sctp_peer_has_certificate:
  assumes "channel_step cr sd ev w = Some w'"
    and "map_of (wc_actors w') t = Some (Sctp_actor r)" and "\<forall>r0. map_of (wc_actors w) t \<noteq> Some (Sctp_actor r0)"
  shows "\<exists>v now cert certs. ev = Wc_establish t v now \<and> es_ice v = Inr () \<and> es_dtls v = Inr (cert # certs) \<and>
     es_sctp v = Inr () \<and> id_hash (sc_peer r) = Some (hash_der cr cert)"
proof -
  have new: "sctp_at t w'" "\<not> sctp_at t w"
    using assms(2,3) by (auto simp: sctp_at_iff)
  from sctp_at_step [OF assms(1) this]
  obtain u v now where ev: "ev = Wc_establish u v now" by blast
  then obtain att k where k: "map_of (wc_attempts w) u = Some att" "w' = connect_with_sock cr v now u att k w"
    using assms(1)
    by (auto simp: channel_step_def on_attempt_def attempt_step_def split: option.splits if_splits attempt_phase.splits)
  then show ?thesis
    using assms(2) new ev
    by (auto simp: connect_with_sock_def spawn_actor_def sctp_at_def establish_sctp_def verify_dtls_cert_def
        sctp_remote_new_def sock_cert_hash_def
        split: option.splits sum.splits if_splits list.splits peer_actor.splits)
qed


definition sock_ready :: "channel_event list" where
  "sock_ready =
     [Wc_start ''n::0A'' 1 [], Wc_transport 0 (Inr (Via_sock \<lparr>so_my_id = ''me'', so_peer_id = ''n::0A''\<rparr>))]"

definition proof_env :: establish_env where
  "proof_env = \<lparr>es_ice = Inr (), es_dtls = Inr [[10]], es_sctp = Inr ()\<rparr>"

lemma sctp_peer_has_certificate_witness:
  "\<exists>w w' r. channel_run no_crypto (toy_serde hello []) sock_ready (web_channel_new ''me'') = Some w \<and>
     channel_step no_crypto (toy_serde hello []) (Wc_establish 0 proof_env 100) w = Some w' \<and>
     map_of (wc_actors w') 0 = Some (Sctp_actor r) \<and> id_hash (sc_peer r) = Some (hash_der no_crypto [10])"
proof -
  let ?sd = "toy_serde hello []"
  let ?run = "channel_run no_crypto ?sd sock_ready (web_channel_new ''me'')"
  have "map_option (\<lambda>w. (map_of (wc_actors w) 0 = None,
      map_option (sctp_at 0) (channel_step no_crypto ?sd (Wc_establish 0 proof_env 100) w))) ?run = Some (True, Some True)"
    by code_simp
  then obtain w w' r where w: "?run = Some w" "map_of (wc_actors w) 0 = None"
      "channel_step no_crypto ?sd (Wc_establish 0 proof_env 100) w = Some w'"
      "map_of (wc_actors w') 0 = Some (Sctp_actor r)"
    by (auto simp: sctp_at_iff)
  from sctp_peer_has_certificate [OF w(3,4)] w show ?thesis by (auto simp: proof_env_def)
qed

text \<open>A disconnect does not stop an attempt that still waits for its transport.\<close>

lemma attempt_survives_disconnect:
  "\<exists>w. channel_run no_crypto (toy_serde hello [])
      [Wc_start ''p'' 1 [], Wc_disconnect ''p'', Wc_transport 0 (Inr Via_io)] (web_channel_new ''me'') = Some w \<and>
     live w 0 \<and> owner w ''p'' = Some 0"
proof -
  have "map_option (\<lambda>w. (live w 0, owner w ''p'')) (channel_run no_crypto (toy_serde hello [])
      [Wc_start ''p'' 1 [], Wc_disconnect ''p'', Wc_transport 0 (Inr Via_io)] (web_channel_new ''me'')) = Some (True, Some 0)"
    by code_simp
  then show ?thesis by auto
qed

section \<open>Two ends of a pair of pipes\<close>

text \<open>
  Two actors, each reading what the other writes. A pipe holds a limited number of bytes. Neither
  process dies: no pipe fails or is closed.
\<close>

datatype side = Near | Far

record io_pair =
  pr_near :: io_remote
  pr_far :: io_remote

fun this_end :: "side \<Rightarrow> io_pair \<Rightarrow> io_remote" where
  "this_end Near p = pr_near p"
| "this_end Far p = pr_far p"

fun that_end :: "side \<Rightarrow> io_pair \<Rightarrow> io_remote" where
  "that_end Near p = pr_far p"
| "that_end Far p = pr_near p"

fun both_ends :: "side \<Rightarrow> io_remote \<Rightarrow> io_remote \<Rightarrow> io_pair" where
  "both_ends Near r q = \<lparr>pr_near = r, pr_far = q\<rparr>"
| "both_ends Far r q = \<lparr>pr_near = q, pr_far = r\<rparr>"

definition pair_new :: "server_id \<Rightarrow> server_id \<Rightarrow> connection_id \<Rightarrow> connection_id \<Rightarrow> io_pair" where
  "pair_new a b cid1 cid2 = \<lparr>pr_near = io_remote_new b cid1, pr_far = io_remote_new a cid2\<rparr>"

definition pair_write :: "serde \<Rightarrow> nat \<Rightarrow> nat \<Rightarrow> side \<Rightarrow> io_pair \<Rightarrow> io_pair option" where
  "pair_write sd cap n s p =
     (if cap < length (ir_in (that_end s p)) + n then None
      else case io_step sd (Io_write n) (this_end s p) of
             None \<Rightarrow> None
           | Some r \<Rightarrow>
               (case io_step sd (Io_arrive (drop (length (ir_out (this_end s p))) (ir_out r))) (that_end s p) of
                  None \<Rightarrow> None
                | Some q \<Rightarrow> Some (both_ends s r q)))"

definition pair_step :: "serde \<Rightarrow> nat \<Rightarrow> side \<Rightarrow> io_event \<Rightarrow> io_pair \<Rightarrow> io_pair option" where
  "pair_step sd cap s ev p =
     (case ev of
        Io_write n \<Rightarrow> pair_write sd cap n s p
      | Io_arrive bs \<Rightarrow> None
      | Io_close \<Rightarrow> None
      | Io_write_error \<Rightarrow> None
      | _ \<Rightarrow> (case io_step sd ev (this_end s p) of None \<Rightarrow> None | Some r \<Rightarrow> Some (both_ends s r (that_end s p))))"

fun pair_run :: "serde \<Rightarrow> nat \<Rightarrow> (side \<times> io_event) list \<Rightarrow> io_pair \<Rightarrow> io_pair option" where
  "pair_run sd cap [] p = Some p"
| "pair_run sd cap ((s, ev) # es) p =
     (case pair_step sd cap s ev p of None \<Rightarrow> None | Some p' \<Rightarrow> pair_run sd cap es p')"

definition two_big_writes :: "message \<Rightarrow> message \<Rightarrow> nat \<Rightarrow> (side \<times> io_event) list" where
  "two_big_writes m1 m2 cap =
     [(Near, Io_command m1), (Far, Io_command m2), (Near, Io_write cap), (Far, Io_write cap)]"

text \<open>C38: Two actors that send each other a frame larger than a pipe holds, at the same time, are stuck for
  good: both wait for room in their pipe to write the rest, and neither reads while it writes. There
  is no timer on this transport.\<close>

theorem big_frames_deadlock:
  assumes "frame sd m1 = Inr f1" "frame sd m2 = Inr f2" "0 < cap" "cap < length f1" "cap < length f2"
  shows "\<exists>p. pair_run sd cap (two_big_writes m1 m2 cap) (pair_new a b cid1 cid2) = Some p \<and>
     (\<forall>s ev. pair_step sd cap s ev p = None)"
proof -
  let ?r = "\<lambda>peer cid mine theirs. (io_remote_new peer cid)\<lparr>ir_in := take cap theirs, ir_out := take cap mine, ir_phase := Writing (drop cap mine)\<rparr>"
  let ?p = "\<lparr>pr_near = ?r b cid1 f1 f2, pr_far = ?r a cid2 f2 f1\<rparr>"
  have "pair_run sd cap (two_big_writes m1 m2 cap) (pair_new a b cid1 cid2) = Some ?p"
    using assms
    by (simp add: two_big_writes_def pair_new_def pair_step_def pair_write_def io_step_def io_command_def io_write_def
        io_remote_new_def)
  moreover have "pair_step sd cap s ev ?p = None" for s ev
    using assms
    by (cases s; cases ev) (auto simp: pair_step_def pair_write_def io_step_def io_write_def)
  ultimately show ?thesis by blast
qed


lemma big_frames_deadlock_witness:
  "\<exists>p. pair_run (toy_serde hello [7, 9]) 4 (two_big_writes hello hello 4) (pair_new ''a'' ''b'' 1 2) = Some p \<and>
     (\<forall>s ev. pair_step (toy_serde hello [7, 9]) 4 s ev p = None)"
  by (rule big_frames_deadlock [OF toy_frame toy_frame]) simp_all

section \<open>Who a message is from\<close>


text \<open>A message is taken to be from whom it says it is from: a peer without any permission, connected over
  a pipe as \<open>g\<close>, sends a message that names the host itself as its sender. The actor hands it on as
  it is, and the server, which would have denied it to \<open>g\<close>, moves the file.\<close>

theorem spoofed_host_is_obeyed:
  assumes "m = sample_msg ''me'' (M_move_file ''p'' ''a'' ''b'')" and "serde_ok sd [m]" and "frame sd m = Inr f"
  shows "\<exists>r t u. io_run sd [Io_arrive f, Io_poll, Io_room] (io_remote_new ''g'' cid) = Some r \<and> ir_mailbox r = [m] \<and>
     server_step list_gapbuf sample_env (Ev_remote (mg_host m) (mg_req_id m) (mg_body m)) guest = Some t \<and>
     Rename_path ''/p/a'' ''/p/b'' \<in> set (sv_out t) \<and>
     server_step list_gapbuf sample_env (Ev_remote ''g'' (mg_req_id m) (mg_body m)) guest = Some u \<and>
     (\<forall>x \<in> set (sv_out u). \<not> changes_disk x)"
proof -
  obtain p where p: "f = to_be_bytes (of_nat (length p)) @ p" "sd_dec sd p = Inr m" "int (length p) < 2 ^ 63"
      "length p \<le> sd_memory sd"
    using readable_frame [OF assms(2)] assms(3) by (auto simp: readable_def)
  have "\<exists>r. io_run sd [Io_arrive f, Io_poll, Io_room] (io_remote_new ''g'' cid) = Some r \<and> ir_mailbox r = [m]"
    using payload_length [OF p(3)] p
    by (simp add: io_step_def io_remote_new_def io_poll_def frame_poll_def poll_body_def read_exact_def)
  moreover have "map_option (\<lambda>t. Rename_path ''/p/a'' ''/p/b'' \<in> set (sv_out t))
      (server_step list_gapbuf sample_env (Ev_remote ''me'' (Some 1) (M_move_file ''p'' ''a'' ''b'')) guest) = Some True"
    by code_simp
  moreover have "map_option (\<lambda>t. list_all (Not \<circ> changes_disk) (sv_out t))
      (server_step list_gapbuf sample_env (Ev_remote ''g'' (Some 1) (M_move_file ''p'' ''a'' ''b'')) guest) = Some True"
    by code_simp
  ultimately show ?thesis
    by (auto simp: assms(1) sample_msg_def list_all_iff)
qed

lemma spoofed_host_is_obeyed_witness:
  "\<exists>r t. io_run (toy_serde (sample_msg ''me'' (M_move_file ''p'' ''a'' ''b'')) [5])
        [Io_arrive (to_be_bytes 1 @ [5]), Io_poll, Io_room] (io_remote_new ''g'' 1) = Some r \<and>
     server_step list_gapbuf sample_env (Ev_remote ''me'' (Some 1) (M_move_file ''p'' ''a'' ''b'')) guest = Some t \<and>
     Rename_path ''/p/a'' ''/p/b'' \<in> set (sv_out t)"
proof -
  let ?m = "sample_msg ''me'' (M_move_file ''p'' ''a'' ''b'')"
  have "frame (toy_serde ?m [5]) ?m = Inr (to_be_bytes 1 @ [5])" by (simp add: toy_frame)
  from spoofed_host_is_obeyed [OF refl toy_ok this, of 1] show ?thesis
    by (auto simp: sample_msg_def)
qed

end
