(* ===== verification/Startup.thy ===== *)
theory Startup
  imports Frames Server_State
begin

text \<open>
  How a process gets its configuration and its identity: the files of \<open>ConfigManager\<close>
  (\<open>config_man.rs\<close>), \<open>Server::new\<close> (\<open>server.rs\<close>), and the start of \<open>main.rs\<close> with \<open>--config\<close> or the XDG
  directories, for a process and for an envoy. The files are a map from paths to their text. Keys,
  certificates, PEM and JSON come from crates and are parameters, with the laws in \<open>tools_ok\<close>.
\<close>

type_synonym files = "(path_buf, string) hash_map"

record tools =
  tl_generate :: "fmt_text + bytes"
  tl_key_pem :: "bytes \<Rightarrow> string"
  tl_parse_pem :: "string \<Rightarrow> fmt_text + bytes"
  tl_key_from_pem :: "string \<Rightarrow> fmt_text + bytes"
  tl_self_sign :: "string \<Rightarrow> bytes \<Rightarrow> fmt_text + bytes"
  tl_cert_pem :: "bytes \<Rightarrow> string"
  tl_to_json :: "config \<Rightarrow> fmt_text + string"
  tl_from_json :: "string \<Rightarrow> fmt_text + config"
  tl_place :: "string \<Rightarrow> fmt_text + path_buf"
  tl_find :: "string \<Rightarrow> files \<Rightarrow> path_buf option"
  tl_read_err :: "path_buf \<Rightarrow> fmt_text option"
  tl_write_err :: "path_buf \<Rightarrow> fmt_text option"

section \<open>Names\<close>

text \<open>The host name of the machine in characters, if there is one that is text.\<close>

definition name_char :: "scalar \<Rightarrow> char" where
  "name_char c =
     (if c < 128 \<and> (is_ascii_alphanumeric (char_of c) \<or> char_of c = CHR ''_'' \<or> char_of c = CHR ''-'')
      then char_of c else CHR ''-'')"

definition default_name :: "utext option \<Rightarrow> string" where
  "default_name hostname =
     (let sanitized = take 20 (map name_char (case hostname of None \<Rightarrow> [] | Some raw \<Rightarrow> raw))
      in if sanitized = [] then ''dude'' else sanitized)"

definition name_error_text :: "name_error \<Rightarrow> fmt_text" where
  "name_error_text e =
     (case e of
        Empty_name \<Rightarrow> lit ''Name cannot be empty''
      | Bad_name n \<Rightarrow> Fmt ''Name must contain only ASCII letters, digits, '_', or '-': {:?}'' [A_str n])"

section \<open>The configuration file\<close>

record config_manager =
  cm_dir :: "path_buf option"
  cm_config :: config

definition get_config_file_path :: "tools \<Rightarrow> config_manager \<Rightarrow> fmt_text + path_buf" where
  "get_config_file_path tk cm =
     (case cm_dir cm of
        Some dir \<Rightarrow> Inr (path_join dir ''config.json'')
      | None \<Rightarrow>
          (case tl_place tk ''config.json'' of
             Inl e \<Rightarrow> Inl (Fmt ''Failed to determine config file location: {}'' [A_fmt e])
           | Inr p \<Rightarrow> Inr p))"

definition read_file :: "tools \<Rightarrow> path_buf \<Rightarrow> files \<Rightarrow> fmt_text + string" where
  "read_file tk p fs =
     (case tl_read_err tk p of
        Some e \<Rightarrow> Inl e
      | None \<Rightarrow> (case map_of fs p of None \<Rightarrow> Inl (lit ''no such file'') | Some s \<Rightarrow> Inr s))"

definition read_config :: "tools \<Rightarrow> path_buf \<Rightarrow> files \<Rightarrow> fmt_text + config" where
  "read_config tk p fs =
     (if map_of fs p = None then Inr config_default
      else case read_file tk p fs of
        Inl e \<Rightarrow> Inl (Fmt ''Failed to read config file {:?}: {}'' [A_str p, A_fmt e])
      | Inr s \<Rightarrow>
          (case tl_from_json tk s of
             Inl e \<Rightarrow> Inl (Fmt ''Failed to parse config file {:?}: {}'' [A_str p, A_fmt e])
           | Inr c \<Rightarrow> Inr c))"

definition load_config :: "tools \<Rightarrow> path_buf option \<Rightarrow> files \<Rightarrow> fmt_text + config" where
  "load_config tk dir fs =
     (case dir of
        Some d \<Rightarrow> read_config tk (path_join d ''config.json'') fs
      | None \<Rightarrow>
          (case tl_find tk ''config.json'' fs of
             None \<Rightarrow> Inr config_default
           | Some p \<Rightarrow> read_config tk p fs))"

definition config_manager_new :: "tools \<Rightarrow> path_buf option \<Rightarrow> files \<Rightarrow> fmt_text + config_manager" where
  "config_manager_new tk dir fs =
     (case load_config tk dir fs of Inl e \<Rightarrow> Inl e | Inr c \<Rightarrow> Inr \<lparr>cm_dir = dir, cm_config = c\<rparr>)"

text \<open>The directory of the file is made first; that this fails is an error of writing.\<close>

definition save_config :: "tools \<Rightarrow> config_manager \<Rightarrow> files \<Rightarrow> files \<times> (fmt_text + unit)" where
  "save_config tk cm fs =
     (case get_config_file_path tk cm of
        Inl e \<Rightarrow> (fs, Inl e)
      | Inr p \<Rightarrow>
          (case tl_to_json tk (cm_config cm) of
             Inl e \<Rightarrow> (fs, Inl (Fmt ''Failed to serialize config: {}'' [A_fmt e]))
           | Inr s \<Rightarrow>
               (case tl_write_err tk p of
                  Some e \<Rightarrow> (fs, Inl (Fmt ''Failed to write config file {:?}: {}'' [A_str p, A_fmt e]))
                | None \<Rightarrow> (AList.update p s fs, Inr ()))))"

definition replace_config :: "tools \<Rightarrow> config \<Rightarrow> config_manager \<Rightarrow> files \<Rightarrow> config_manager \<times> files \<times> (fmt_text + unit)" where
  "replace_config tk c cm fs = (let cm = cm\<lparr>cm_config := c\<rparr> in (cm, save_config tk cm fs))"

section \<open>Key and certificate\<close>

definition secret_path :: "tools \<Rightarrow> config_manager \<Rightarrow> string \<Rightarrow> fmt_text \<Rightarrow> fmt_text + path_buf" where
  "secret_path tk cm file_name what =
     (case cm_dir cm of
        Some dir \<Rightarrow> Inr (path_join dir (''secrets/'' @ file_name))
      | None \<Rightarrow> (case tl_place tk file_name of Inl e \<Rightarrow> Inl what | Inr p \<Rightarrow> Inr p))"

text \<open>That the PEM of a key just made cannot be parsed, where the code unwraps, is an error here.\<close>

definition load_or_make_key :: "tools \<Rightarrow> path_buf \<Rightarrow> files \<Rightarrow> files \<times> (fmt_text + bytes \<times> bytes)" where
  "load_or_make_key tk p fs =
     (if map_of fs p \<noteq> None
      then (fs,
        case read_file tk p fs of
          Inl e \<Rightarrow> Inl (Fmt ''Failed to read private key from disk: {:#?}'' [A_fmt e])
        | Inr pem \<Rightarrow>
            (case tl_parse_pem tk pem of
               Inl e \<Rightarrow> Inl e
             | Inr der \<Rightarrow> (case tl_key_from_pem tk pem of Inl e \<Rightarrow> Inl e | Inr key \<Rightarrow> Inr (key, der))))
      else case tl_generate tk of
        Inl e \<Rightarrow> (fs, Inl e)
      | Inr key \<Rightarrow>
          (case tl_parse_pem tk (tl_key_pem tk key) of
             Inl e \<Rightarrow> (fs, Inl e)
           | Inr der \<Rightarrow>
               (case tl_write_err tk p of
                  Some e \<Rightarrow> (fs, Inl (Fmt ''Failed to save the private key to disk: {:#?}'' [A_fmt e]))
                | None \<Rightarrow> (AList.update p (tl_key_pem tk key) fs, Inr (key, der)))))"

definition load_or_make_cert :: "tools \<Rightarrow> string \<Rightarrow> bytes \<Rightarrow> path_buf \<Rightarrow> files \<Rightarrow> files \<times> (fmt_text + bytes)" where
  "load_or_make_cert tk name key p fs =
     (if map_of fs p \<noteq> None
      then (fs,
        case read_file tk p fs of
          Inl e \<Rightarrow> Inl (Fmt ''Failed to read the certificate file: {:#?}'' [A_fmt e])
        | Inr pem \<Rightarrow> tl_parse_pem tk pem)
      else case tl_self_sign tk name key of
        Inl e \<Rightarrow> (fs, Inl e)
      | Inr cert \<Rightarrow>
          (case tl_parse_pem tk (tl_cert_pem tk cert) of
             Inl e \<Rightarrow> (fs, Inl e)
           | Inr der \<Rightarrow>
               (case tl_write_err tk p of
                  Some e \<Rightarrow> (fs, Inl (Fmt ''Failed to save the certificate to disk: {:#?}'' [A_fmt e]))
                | None \<Rightarrow> (AList.update p (tl_cert_pem tk cert) fs, Inr der))))"

definition get_key_and_cert :: "tools \<Rightarrow> string \<Rightarrow> config_manager \<Rightarrow> files \<Rightarrow> files \<times> (fmt_text + key_cert)" where
  "get_key_and_cert tk name cm fs =
     (case sanitize_name name of
        Inl e \<Rightarrow> (fs, Inl (name_error_text e))
      | Inr _ \<Rightarrow>
          (case secret_path tk cm (name @ ''.key.pem'') (lit ''Failed to find/create private key'') of
             Inl e \<Rightarrow> (fs, Inl e)
           | Inr key_file \<Rightarrow>
               (case secret_path tk cm (name @ ''.cert.pem'') (lit ''Failed to find/create certificate'') of
                  Inl e \<Rightarrow> (fs, Inl e)
                | Inr cert_file \<Rightarrow>
                    (case load_or_make_key tk key_file fs of
                       (fs, Inl e) \<Rightarrow> (fs, Inl e)
                     | (fs, Inr (key, key_der)) \<Rightarrow>
                         (case load_or_make_cert tk name key cert_file fs of
                            (fs, Inl e) \<Rightarrow> (fs, Inl e)
                          | (fs, Inr cert_der) \<Rightarrow> (fs, Inr \<lparr>kc_key_der = key_der, kc_cert_der = cert_der\<rparr>))))))"

section \<open>Starting\<close>

text \<open>\<open>Server::new\<close>; slicing the id inside a character panics, which is \<open>None\<close>.\<close>

definition server_new ::
  "tools \<Rightarrow> crypto \<Rightarrow> server_id \<Rightarrow> config_manager \<Rightarrow> files \<Rightarrow> (files \<times> (fmt_text + 'b server)) option" where
  "server_new tk cr host_id cm fs = do {
     nm \<leftarrow> id_name host_id;
     (case nm of
        None \<Rightarrow> Some (fs, Inl (lit ''host_id has no name; expects `<name>::<cert-hash>`''))
      | Some name \<Rightarrow>
          (case get_key_and_cert tk name cm fs of
             (fs, Inl e) \<Rightarrow> Some (fs, Inl e)
           | (fs, Inr kc) \<Rightarrow>
               Some (fs, Inr (server_new_with_keycert host_id name (cm_config cm) (cert_der_hash cr kc)))))
   }"

text \<open>The name of this process: the one configured, or one made up, which is written back.\<close>

definition adopt_name ::
  "tools \<Rightarrow> utext option \<Rightarrow> config_manager \<Rightarrow> files \<Rightarrow> string \<times> config_manager \<times> files \<times> (fmt_text + unit)" where
  "adopt_name tk hostname cm fs =
     (case cf_host_id (cm_config cm) of
        Some n \<Rightarrow> (n, cm, fs, Inr ())
      | None \<Rightarrow>
          (let name = default_name hostname
           in (name, replace_config tk ((cm_config cm)\<lparr>cf_host_id := Some name\<rparr>) cm fs)))"

definition start_as ::
  "tools \<Rightarrow> crypto \<Rightarrow> string \<Rightarrow> config_manager \<Rightarrow> files \<Rightarrow> (files \<times> (fmt_text + 'b server)) option" where
  "start_as tk cr name cm fs =
     (case get_key_and_cert tk name cm fs of
        (fs, Inl e) \<Rightarrow> Some (fs, Inl e)
      | (fs, Inr kc) \<Rightarrow> server_new tk cr (make_id (Some name) (cert_der_hash cr kc)) cm fs)"

text \<open>
  \<open>main\<close> for \<open>Run\<close>, up to where the server is made. It panics, which is \<open>None\<close>, when both \<open>--config\<close>
  and \<open>--profile\<close> are given and when the name it made up cannot be saved.
\<close>

definition main_run ::
  "tools \<Rightarrow> crypto \<Rightarrow> utext option \<Rightarrow> (fmt_text + path_buf) option \<Rightarrow> string option \<Rightarrow> files \<Rightarrow>
     (files \<times> (fmt_text + 'b server)) option" where
  "main_run tk cr hostname config profile fs =
     (if config \<noteq> None \<and> profile \<noteq> None then None
      else case (case config of None \<Rightarrow> Inr None | Some (Inl e) \<Rightarrow> Inl e | Some (Inr d) \<Rightarrow> Inr (Some d)) of
        Inl e \<Rightarrow> Some (fs, Inl (lit ''Can't expand filename to absolute path''))
      | Inr config_location \<Rightarrow>
          (case config_manager_new tk config_location fs of
             Inl e \<Rightarrow> Some (fs, Inl e)
           | Inr cm \<Rightarrow>
               (case adopt_name tk hostname cm fs of
                  (name, cm, fs, Inl e) \<Rightarrow> None
                | (name, cm, fs, Inr _) \<Rightarrow> start_as tk cr name cm fs)))"

section \<open>Starting as an envoy\<close>

definition key_cert_from_pem :: "tools \<Rightarrow> string \<Rightarrow> string \<Rightarrow> fmt_text + key_cert" where
  "key_cert_from_pem tk key_pem cert_pem =
     (case tl_parse_pem tk key_pem of
        Inl e \<Rightarrow> Inl e
      | Inr key \<Rightarrow>
          (case tl_parse_pem tk cert_pem of
             Inl e \<Rightarrow> Inl e
           | Inr cert \<Rightarrow> Inr \<lparr>kc_key_der = key, kc_cert_der = cert\<rparr>))"

definition envoy_hey :: "server_id \<Rightarrow> message" where
  "envoy_hey envoy_id =
     \<lparr>mg_host = envoy_id,
      mg_body = M_hey \<lparr>hey_text = ''Nice to meet ya'', hey_credentials = [], hey_version = ''v1.0.0''\<rparr>,
      mg_req_id = None\<rparr>"

text \<open>
  \<open>run_envoy\<close>, up to where the server runs: from the first frame of its standard input, what it
  writes to its standard output and the server. Its configuration is that of an empty directory.
  \<open>None\<close> is a panic of slicing the id.
\<close>

definition run_envoy ::
  "tools \<Rightarrow> crypto \<Rightarrow> (string \<Rightarrow> fmt_text + path_buf) \<Rightarrow> instant \<Rightarrow> connection_id \<Rightarrow> connection_id \<Rightarrow>
     fmt_text + message \<Rightarrow> (message list \<times> (fmt_text + 'b server)) option" where
  "run_envoy tk cr expand now cid1 cid2 first =
     (case first of
        Inl e \<Rightarrow> Some ([], Inl (lit ''reading EnvoyInit from stdin''))
      | Inr m \<Rightarrow>
          (case mg_body m of
             M_envoy_init host_id envoy_id key_pem cert_pem projects \<Rightarrow>
               (case key_cert_from_pem tk key_pem cert_pem of
                  Inl e \<Rightarrow> Some ([], Inl e)
                | Inr kc \<Rightarrow>
                    (case id_name envoy_id of
                       None \<Rightarrow> None
                     | Some None \<Rightarrow> Some ([], Inl (Fmt ''envoy_id has no name: {:?}'' [A_str envoy_id]))
                     | Some (Some name) \<Rightarrow>
                         (case init_for_envoy expand now cid1 cid2 host_id projects
                                 (server_new_with_keycert envoy_id name config_default (cert_der_hash cr kc)) of
                            (s, Inl e) \<Rightarrow> Some ([], Inl (err_text e))
                          | (s, Inr _) \<Rightarrow> Some ([envoy_hey envoy_id], Inr s))))
           | _ \<Rightarrow>
               Some ([\<lparr>mg_host = ''envoy'', mg_body = M_envoy_init_error ''expected EnvoyInit'', mg_req_id = None\<rparr>],
                     Inl (lit ''expected EnvoyInit''))))"

section \<open>What is relied on of the crates\<close>

text \<open>
  A PEM file or a configuration that was written is read back; files can be read; the directories
  of XDG place files of different names at different paths, a file that was placed is found, and
  finding a file does not depend on files of other names.
\<close>

definition pem_ok :: "tools \<Rightarrow> bool" where
  "pem_ok tk \<longleftrightarrow>
     (\<forall>k. tl_parse_pem tk (tl_key_pem tk k) = Inr k \<and> tl_key_from_pem tk (tl_key_pem tk k) = Inr k) \<and>
     (\<forall>c. tl_parse_pem tk (tl_cert_pem tk c) = Inr c)"

definition json_ok :: "tools \<Rightarrow> bool" where
  "json_ok tk \<longleftrightarrow> (\<forall>c s. tl_to_json tk c = Inr s \<longrightarrow> tl_from_json tk s = Inr c)"

definition places_ok :: "tools \<Rightarrow> bool" where
  "places_ok tk \<longleftrightarrow>
     (\<forall>n n' p. tl_place tk n = Inr p \<longrightarrow> tl_place tk n' = Inr p \<longrightarrow> n = n') \<and>
     (\<forall>n p fs. tl_place tk n = Inr p \<longrightarrow> map_of fs p \<noteq> None \<longrightarrow> tl_find tk n fs = Some p) \<and>
     (\<forall>n n' p s fs. tl_place tk n' = Inr p \<longrightarrow> n' \<noteq> n \<longrightarrow>
        tl_find tk n (AList.update p s fs) = tl_find tk n fs \<and> tl_find tk n fs \<noteq> Some p)"

definition tools_ok :: "tools \<Rightarrow> bool" where
  "tools_ok tk \<longleftrightarrow> pem_ok tk \<and> json_ok tk \<and> places_ok tk \<and> (\<forall>p. tl_read_err tk p = None)"

section \<open>Names\<close>

lemma name_char_safe:
  "is_ascii_alphanumeric (name_char c) \<or> name_char c = CHR ''_'' \<or> name_char c = CHR ''-''"
  by (simp add: name_char_def)

lemma default_name_safe: "sanitize_name (default_name h) = Inr ()" "length (default_name h) \<le> 20"
proof -
  have "list_all (\<lambda>c. is_ascii_alphanumeric c \<or> c = CHR ''_'' \<or> c = CHR ''-'') (map name_char xs)" for xs
    by (induction xs) (auto simp: name_char_safe)
  then have "list_all (\<lambda>c. is_ascii_alphanumeric c \<or> c = CHR ''_'' \<or> c = CHR ''-'') (take 20 (map name_char xs))" for xs
    unfolding take_map .
  note safe = this
  have dude: "sanitize_name ''dude'' = Inr ()" by code_simp
  show "sanitize_name (default_name h) = Inr ()"
  proof (cases "(case h of None \<Rightarrow> [] | Some raw \<Rightarrow> raw) = []")
    case True
    then show ?thesis using dude by (simp add: default_name_def)
  next
    case False
    then show ?thesis using safe by (simp add: default_name_def sanitize_name_def Let_def)
  qed
  show "length (default_name h) \<le> 20" by (simp add: default_name_def Let_def)
qed

lemma safe_no_colon: "sanitize_name n = Inr () \<Longrightarrow> CHR '':'' \<notin> set n"
  by (auto simp: sanitize_name_def list_all_iff is_ascii_alphanumeric_def split: if_splits)

lemma no_colons: "CHR '':'' \<notin> set n \<Longrightarrow> str_find ''::'' (n @ '':'') = None"
  by (induction n) (auto simp: prefix_colons)

lemma name_of_made_id:
  "sanitize_name n = Inr () \<Longrightarrow> id_name (make_id (Some n) h) = Some (Some n)"
  using str_find_colons [OF no_colons, of n h] char_boundary_colons [of n h] safe_no_colon [of n]
  by (auto simp: id_name_def make_id_def slice_to_def sanitize_name_def split: if_splits)

section \<open>Paths\<close>

lemma join_inj: "path_join d p = path_join d q \<Longrightarrow> \<not> is_absolute p \<Longrightarrow> \<not> is_absolute q \<Longrightarrow> p = q"
  by (auto simp: path_join_def split: if_splits)

section \<open>Reading back\<close>

lemma key_again:
  "tools_ok tk \<Longrightarrow> load_or_make_key tk p fs = (fs', Inr (key, der)) \<Longrightarrow> map_of fs'' p = map_of fs' p \<Longrightarrow>
     load_or_make_key (tk\<lparr>tl_generate := g, tl_self_sign := f\<rparr>) p fs'' = (fs'', Inr (key, der))"
  by (auto simp: load_or_make_key_def read_file_def tools_ok_def pem_ok_def split: if_splits sum.splits option.splits)

lemma cert_again:
  "tools_ok tk \<Longrightarrow> load_or_make_cert tk name key p fs = (fs', Inr der) \<Longrightarrow> map_of fs'' p = map_of fs' p \<Longrightarrow>
     load_or_make_cert (tk\<lparr>tl_generate := g, tl_self_sign := f\<rparr>) name key p fs'' = (fs'', Inr der)"
  by (auto simp: load_or_make_cert_def read_file_def tools_ok_def pem_ok_def split: if_splits sum.splits option.splits)

lemma key_files: "load_or_make_key tk p fs = (fs', r) \<Longrightarrow> fs' = fs \<or> (\<exists>s. fs' = AList.update p s fs)"
  by (auto simp: load_or_make_key_def split: if_splits sum.splits option.splits)

lemma cert_files: "load_or_make_cert tk name key p fs = (fs', r) \<Longrightarrow> fs' = fs \<or> (\<exists>s. fs' = AList.update p s fs)"
  by (auto simp: load_or_make_cert_def split: if_splits sum.splits option.splits)

lemma secret_path_inj:
  assumes "places_ok tk" "secret_path tk cm f e = Inr p" "secret_path tk cm f' e' = Inr p"
  shows "f = f'"
proof (cases "cm_dir cm")
  case None
  then have "tl_place tk f = Inr p" "tl_place tk f' = Inr p"
    using assms(2,3) by (auto simp: secret_path_def split: sum.splits)
  then show ?thesis using assms(1) unfolding places_ok_def by metis
next
  case (Some d)
  then have "path_join d (''secrets/'' @ f) = path_join d (''secrets/'' @ f')"
    using assms(2,3) by (simp add: secret_path_def)
  then show ?thesis by (auto dest!: join_inj simp: is_absolute_def)
qed

lemma key_and_cert_again:
  assumes ok: "tools_ok tk" and get: "get_key_and_cert tk name cm fs = (fs', Inr kc)" and dir: "cm_dir cm' = cm_dir cm"
  shows "get_key_and_cert (tk\<lparr>tl_generate := g, tl_self_sign := f\<rparr>) name cm' fs' = (fs', Inr kc)"
proof -
  obtain kf cf fs1 key der c where
    p: "secret_path tk cm (name @ ''.key.pem'') (lit ''Failed to find/create private key'') = Inr kf"
      "secret_path tk cm (name @ ''.cert.pem'') (lit ''Failed to find/create certificate'') = Inr cf" and
    k: "load_or_make_key tk kf fs = (fs1, Inr (key, der))" and
    c: "load_or_make_cert tk name key cf fs1 = (fs', Inr c)" and
    r: "sanitize_name name = Inr ()" "kc = \<lparr>kc_key_der = der, kc_cert_der = c\<rparr>"
    using get by (auto simp: get_key_and_cert_def split: sum.splits prod.splits)
  have "kf \<noteq> cf"
    using secret_path_inj [OF _ p(1), of "name @ ''.cert.pem''"] p(2) ok by (auto simp: tools_ok_def)
  then have "map_of fs' kf = map_of fs1 kf" using cert_files [OF c] by auto
  note k' = key_again [OF ok k this, where g = g and f = f]
  have c': "load_or_make_cert (tk\<lparr>tl_generate := g, tl_self_sign := f\<rparr>) name key cf fs' = (fs', Inr c)"
    by (rule cert_again [OF ok c refl])
  have "secret_path (tk\<lparr>tl_generate := g, tl_self_sign := f\<rparr>) cm' = secret_path tk cm"
    by (simp add: secret_path_def dir fun_eq_iff split: option.splits)
  then show ?thesis using p k' c' r by (simp add: get_key_and_cert_def)
qed

text \<open>Writing a key or a certificate leaves the configuration that is loaded alone; a saved one is loaded.\<close>

lemma read_config_same: "map_of fs p = map_of fs' p \<Longrightarrow> read_config tk p fs = read_config tk p fs'"
  by (simp add: read_config_def read_file_def split: option.splits)

lemma config_after_secret:
  assumes "places_ok tk" "secret_path tk cm n e = Inr p" "n \<noteq> ''config.json''"
  shows "load_config tk (cm_dir cm) (AList.update p s fs) = load_config tk (cm_dir cm) fs"
proof (cases "cm_dir cm")
  case (Some d)
  then have "p = path_join d (''secrets/'' @ n)" using assms(2) by (simp add: secret_path_def)
  then have "p \<noteq> path_join d ''config.json''" by (auto dest!: join_inj simp: is_absolute_def)
  then show ?thesis using Some read_config_same [of "AList.update p s fs"] by (simp add: load_config_def)
next
  case None
  then have "tl_place tk n = Inr p" using assms(2) by (auto simp: secret_path_def split: sum.splits)
  moreover have "tl_place tk n' = Inr p \<Longrightarrow> n' \<noteq> n \<Longrightarrow>
      tl_find tk n (AList.update p s fs) = tl_find tk n fs \<and> tl_find tk n fs \<noteq> Some p" for n n' p s fs
    using assms(1) unfolding places_ok_def by blast
  ultimately have "tl_find tk ''config.json'' (AList.update p s fs) = tl_find tk ''config.json'' fs"
      "tl_find tk ''config.json'' fs \<noteq> Some p"
    using assms(3) by blast+
  then show ?thesis
    using None read_config_same [of "AList.update p s fs" _ fs] by (auto simp: load_config_def split: option.splits)
qed

lemma config_after_secrets:
  assumes "places_ok tk" "get_key_and_cert tk name cm fs = (fs', res)"
  shows "load_config tk (cm_dir cm) fs' = load_config tk (cm_dir cm) fs"
proof -
  have n: "name @ ''.key.pem'' \<noteq> ''config.json''" "name @ ''.cert.pem'' \<noteq> ''config.json''"
    by (auto dest!: arg_cong [where f = last])
  show ?thesis
    using assms config_after_secret [OF assms(1) _ n(1), of cm] config_after_secret [OF assms(1) _ n(2), of cm]
    by (fastforce simp: get_key_and_cert_def split: sum.splits prod.splits dest: key_files cert_files)
qed

lemma config_after_save:
  assumes "tools_ok tk" "save_config tk cm fs = (fs', Inr u)"
  shows "load_config tk (cm_dir cm) fs' = Inr (cm_config cm)"
proof -
  obtain p s where p: "get_config_file_path tk cm = Inr p" "tl_to_json tk (cm_config cm) = Inr s"
      "fs' = AList.update p s fs"
    using assms(2) by (auto simp: save_config_def split: sum.splits option.splits)
  have "tl_from_json tk s = Inr (cm_config cm)" using assms(1) p(2) by (simp add: tools_ok_def json_ok_def)
  then have "read_config tk p fs' = Inr (cm_config cm)"
    using assms(1) p(3) by (simp add: read_config_def read_file_def tools_ok_def)
  moreover have "tl_find tk ''config.json'' fs' = Some p" if "tl_place tk ''config.json'' = Inr p"
    using assms(1) that p(3) by (simp add: tools_ok_def places_ok_def)
  ultimately show ?thesis
    using p(1) by (auto simp: get_config_file_path_def load_config_def split: option.splits sum.splits)
qed

lemma load_config_tools [simp]:
  "load_config (tk\<lparr>tl_generate := g, tl_self_sign := f\<rparr>) = load_config tk"
  by (simp add: load_config_def read_config_def read_file_def fun_eq_iff split: option.splits)

section \<open>Starting twice\<close>

definition config_dir :: "(fmt_text + path_buf) option \<Rightarrow> path_buf option" where
  "config_dir config = (case config of Some (Inr d) \<Rightarrow> Some d | _ \<Rightarrow> None)"

text \<open>A start that succeeded: the files it left have its configuration, key and certificate.\<close>

lemma main_run_result:
  assumes ok: "tools_ok tk" and run: "main_run tk cr hostname config profile fs = Some (fs', Inr s)"
  shows "\<exists>name cm kc. cm_dir cm = config_dir config \<and> cf_host_id (cm_config cm) = Some name \<and>
     load_config tk (cm_dir cm) fs' = Inr (cm_config cm) \<and>
     get_key_and_cert tk name cm fs' = (fs', Inr kc) \<and> sanitize_name name = Inr () \<and>
     s = server_new_with_keycert (make_id (Some name) (cert_der_hash cr kc)) name (cm_config cm) (cert_der_hash cr kc)"
proof -
  obtain cm0 name cm fs1 where cm0: "config_manager_new tk (config_dir config) fs = Inr cm0"
    and name: "adopt_name tk hostname cm0 fs = (name, cm, fs1, Inr ())"
    and start: "start_as tk cr name cm fs1 = Some (fs', Inr s)"
    using run by (auto simp: main_run_def config_dir_def split: if_splits sum.splits option.splits prod.splits)
  have cm0': "cm_dir cm0 = config_dir config" "load_config tk (config_dir config) fs = Inr (cm_config cm0)"
    using cm0 by (auto simp: config_manager_new_def split: sum.splits)
  have cm: "cm_dir cm = config_dir config \<and> cf_host_id (cm_config cm) = Some name \<and>
      load_config tk (cm_dir cm) fs1 = Inr (cm_config cm)"
  proof (cases "cf_host_id (cm_config cm0)")
    case (Some n)
    then show ?thesis using name cm0' by (simp add: adopt_name_def)
  next
    case None
    then have eq: "cm = cm0\<lparr>cm_config := (cm_config cm0)\<lparr>cf_host_id := Some name\<rparr>\<rparr>" and sv: "save_config tk cm fs = (fs1, Inr ())"
      using name by (auto simp: adopt_name_def replace_config_def Let_def)
    then show ?thesis using config_after_save [OF ok sv] cm0' eq by simp
  qed
  obtain fs2 kc where kc: "get_key_and_cert tk name cm fs1 = (fs2, Inr kc)"
    and new: "server_new tk cr (make_id (Some name) (cert_der_hash cr kc)) cm fs2 = Some (fs', Inr s)"
    using start by (auto simp: start_as_def split: prod.splits sum.splits)
  have again: "get_key_and_cert tk name cm fs2 = (fs2, Inr kc)"
    using key_and_cert_again [OF ok kc refl, of "tl_self_sign tk" "tl_generate tk"] by simp
  have safe: "sanitize_name name = Inr ()"
    using kc by (auto simp: get_key_and_cert_def split: sum.splits)
  have "fs' = fs2" "s = server_new_with_keycert (make_id (Some name) (cert_der_hash cr kc)) name (cm_config cm) (cert_der_hash cr kc)"
    using new again name_of_made_id [OF safe] by (auto simp: server_new_def)
  moreover have "load_config tk (cm_dir cm) fs2 = Inr (cm_config cm)"
    using config_after_secrets [OF _ kc] cm ok by (metis tools_ok_def)
  ultimately show ?thesis using cm again safe by blast
qed


text \<open>C32: A process keeps its identity: a start that succeeds gives the server the id made of its name and
  the hash of its certificate, and starting again from the files it left, with whatever keys would
  be made now and under whatever host name, changes no file and gives the same server.\<close>

theorem restart_keeps_identity:
  assumes "tools_ok tk" and "main_run tk cr hostname config profile fs = Some (fs', Inr s)"
  shows "sv_host_id s = make_id (Some (sv_host_name s)) (sv_cert_hash s) \<and>
     main_run (tk\<lparr>tl_generate := g, tl_self_sign := f\<rparr>) cr hostname' config profile fs' = Some (fs', Inr s)"
proof -
  let ?tk = "tk\<lparr>tl_generate := g, tl_self_sign := f\<rparr>"
  obtain name cm kc where r: "cm_dir cm = config_dir config" "cf_host_id (cm_config cm) = Some name"
      "load_config tk (cm_dir cm) fs' = Inr (cm_config cm)"
      "get_key_and_cert tk name cm fs' = (fs', Inr kc)" "sanitize_name name = Inr ()"
      "s = server_new_with_keycert (make_id (Some name) (cert_der_hash cr kc)) name (cm_config cm) (cert_der_hash cr kc)"
    using main_run_result [OF assms] by blast
  have get: "get_key_and_cert ?tk name cm fs' = (fs', Inr kc)"
    by (rule key_and_cert_again [OF assms(1) r(4) refl])
  have start: "start_as ?tk cr name cm fs' = Some (fs', Inr s)"
    using get name_of_made_id [OF r(5)] by (simp add: start_as_def server_new_def r(6))
  have "config_manager_new ?tk (config_dir config) fs' = Inr cm"
    using r(1,3) by (simp add: config_manager_new_def)
  moreover have "adopt_name ?tk hostname' cm fs' = (name, cm, fs', Inr ())"
    using r(2) by (simp add: adopt_name_def)
  moreover have "\<not> (config \<noteq> None \<and> profile \<noteq> None)" "\<forall>e. config \<noteq> Some (Inl e)"
    using assms(2) by (auto simp: main_run_def split: if_splits sum.splits option.splits)
  ultimately have "main_run ?tk cr hostname' config profile fs' = Some (fs', Inr s)"
    using start by (auto simp: main_run_def config_dir_def split: option.splits sum.splits)
  then show ?thesis by (simp add: r(6) server_new_with_keycert_def)
qed

text \<open>A server does not know itself: the permission checks compare with the name in the configuration,
  but the id of the server, and of everything it sends, is the name with the hash of the
  certificate. So its own id has the permissions of a stranger: it may not delete, unless it is
  listed.\<close>

theorem own_id_is_a_stranger:
  assumes "tools_ok tk" and "main_run tk cr hostname config profile fs = Some (fs', Inr s)"
    and "map_of (cf_permission (sv_config s)) (sv_host_id s) = None"
  shows "cf_host_id (sv_config s) = Some (sv_host_name s) \<and> \<not> delete_allowed (sv_config s) (sv_host_id s) \<and>
     delete_allowed (sv_config s) (sv_host_name s)"
proof -
  obtain name cm kc where r: "cm_dir cm = config_dir config" "cf_host_id (cm_config cm) = Some name"
      "load_config tk (cm_dir cm) fs' = Inr (cm_config cm)"
      "get_key_and_cert tk name cm fs' = (fs', Inr kc)" "sanitize_name name = Inr ()"
      "s = server_new_with_keycert (make_id (Some name) (cert_der_hash cr kc)) name (cm_config cm) (cert_der_hash cr kc)"
    using main_run_result [OF assms(1,2)] by blast
  have "make_id (Some name) h \<noteq> name" for h
    using r(5) by (auto simp: make_id_def sanitize_name_def)
  then show ?thesis
    using assms(3) r by (auto simp: server_new_with_keycert_def delete_allowed_def permission_default_def)
qed


section \<open>A start that can happen\<close>

definition plain_crypto :: crypto where
  "plain_crypto =
     \<lparr>cr_b64_encode = (\<lambda>_. []), cr_b64_decode = (\<lambda>_. Inr []), cr_sha256 = (\<lambda>b. b), cr_parse_cert = Inr,
      cr_load_key = Inr, cr_sign = (\<lambda>_ _. Inr []), cr_verify = (\<lambda>_ _ _. True)\<rparr>"

definition toy_pem :: "bytes \<Rightarrow> string" where
  "toy_pem = map (\<lambda>b. char_of (unat b))"

definition toy_parse :: "string \<Rightarrow> fmt_text + bytes" where
  "toy_parse s = Inr (map (\<lambda>c. of_nat (of_char c)) s)"

definition toy_config :: config where
  "toy_config = config_default\<lparr>cf_host_id := Some ''box''\<rparr>"

definition toy_tools :: tools where
  "toy_tools =
     \<lparr>tl_generate = Inr [1], tl_key_pem = toy_pem, tl_parse_pem = toy_parse, tl_key_from_pem = toy_parse,
      tl_self_sign = (\<lambda>_ _. Inr [10]), tl_cert_pem = toy_pem,
      tl_to_json = (\<lambda>c. if c = toy_config then Inr ''c'' else Inl (lit ''not this one'')),
      tl_from_json = (\<lambda>s. if s = ''c'' then Inr toy_config else Inl (lit ''not this one'')),
      tl_place = (\<lambda>n. Inr (''/x/'' @ n)),
      tl_find = (\<lambda>n fs. if map_of fs (''/x/'' @ n) = None then None else Some (''/x/'' @ n)),
      tl_read_err = (\<lambda>_. None), tl_write_err = (\<lambda>_. None)\<rparr>"

lemma toy_parse_pem: "toy_parse (toy_pem b) = Inr b"
proof -
  have "(of_nat (unat w mod 256) :: u8) = w" for w :: u8
    using unsigned_less [of w, where 'a = nat] by simp
  then show ?thesis by (simp add: toy_parse_def toy_pem_def comp_def)
qed

lemma toy_tools_ok: "tools_ok toy_tools"
  by (auto simp: tools_ok_def pem_ok_def json_ok_def places_ok_def toy_tools_def toy_parse_pem split: if_splits)

lemma restart_keeps_identity_witness:
  "\<exists>fs s. main_run toy_tools plain_crypto (Some [98, 111, 120]) None None [] = Some (fs, Inr (s :: utext server)) \<and>
     main_run (toy_tools\<lparr>tl_generate := Inr [3], tl_self_sign := (\<lambda>_ _. Inr [4])\<rparr>) plain_crypto None None None fs
       = Some (fs, Inr s)"
proof -
  let ?run = "main_run toy_tools plain_crypto (Some [98, 111, 120]) None None [] :: (files \<times> (fmt_text + utext server)) option"
  have "map_option (isl \<circ> snd) ?run = Some False" by code_simp
  then obtain fs r where "?run = Some (fs, r)" "\<not> isl r" by auto
  then obtain s where "?run = Some (fs, Inr s)" by (cases r) auto
  from this restart_keeps_identity [OF toy_tools_ok this] show ?thesis by blast
qed

lemma own_id_is_a_stranger_witness:
  "\<exists>fs s. main_run toy_tools plain_crypto (Some [98, 111, 120]) None None [] = Some (fs, Inr (s :: utext server)) \<and>
     \<not> delete_allowed (sv_config s) (sv_host_id s) \<and> delete_allowed (sv_config s) (sv_host_name s)"
proof -
  let ?run = "main_run toy_tools plain_crypto (Some [98, 111, 120]) None None [] :: (files \<times> (fmt_text + utext server)) option"
  have "map_option (isl \<circ> snd) ?run = Some False" by code_simp
  moreover have "map_option (\<lambda>(fs, r). case r of Inl e \<Rightarrow> [] | Inr s \<Rightarrow> cf_permission (sv_config s)) ?run = Some []" by code_simp
  ultimately obtain fs r where r: "?run = Some (fs, r)" "\<not> isl r"
      "(case r of Inl e \<Rightarrow> [] | Inr s \<Rightarrow> cf_permission (sv_config s)) = []" by auto
  then obtain s where "?run = Some (fs, Inr s)" "map_of (cf_permission (sv_config s)) (sv_host_id s) = None"
    by (cases r) auto
  from this(1) own_id_is_a_stranger [OF toy_tools_ok this] show ?thesis by blast
qed


end
