(* ===== verification/Filewatch.thy ===== *)
theory Filewatch
  imports Disk
begin

text \<open>
  The file watcher of \<open>filewatch_receptor.rs\<close>: the loop between the crate \<open>notify\<close>, which watches
  directories, and the server, which names the files it wants to hear of. What the watcher is asked
  to do is recorded in \<open>fw_calls\<close>; canonical paths are an argument.
\<close>

section \<open>State\<close>

datatype event_kind = Modify_data | Other_kind

datatype watch_call = Unwatch path_buf | Watch path_buf | Commit

record file_watch =
  fw_files :: "path_buf hash_set"
  fw_dirs :: "path_buf hash_set"
  fw_calls :: "watch_call list"
  fw_out :: "(path_buf \<times> instant) list"
  fw_shutdown :: bool

definition file_watch_new :: file_watch where
  "file_watch_new = \<lparr>fw_files = [], fw_dirs = [], fw_calls = [], fw_out = [], fw_shutdown = False\<rparr>"

section \<open>Operations\<close>

definition difference :: "'a list \<Rightarrow> 'a list \<Rightarrow> 'a list" where
  "difference xs ys = filter (\<lambda>x. x \<notin> set ys) xs"

definition apply_watch_files :: "(path_buf \<Rightarrow> path_buf option) \<Rightarrow> path_buf list \<Rightarrow> file_watch \<Rightarrow> file_watch" where
  "apply_watch_files canon paths w =
     (let new_files = remdups (List.map_filter canon paths);
          new_dirs = remdups (List.map_filter path_parent new_files)
      in w\<lparr>fw_calls := fw_calls w @ map Unwatch (difference (fw_dirs w) new_dirs) @
             map Watch (difference new_dirs (fw_dirs w)) @ [Commit],
           fw_dirs := new_dirs, fw_files := new_files\<rparr>)"

text \<open>
  The paths of an event in turn, while the channel to the server has a receiver: the number of
  sends that succeed before one fails is an argument, if one does.
\<close>

definition forward :: "nat option \<Rightarrow> path_buf list \<Rightarrow> instant \<Rightarrow> file_watch \<Rightarrow> file_watch \<times> (fmt_text + unit)" where
  "forward fails_at paths now w =
     (let hits = filter (\<lambda>p. p \<in> set (fw_files w)) paths
      in case fails_at of
           Some n \<Rightarrow>
             if n < length hits
             then (w\<lparr>fw_out := fw_out w @ map (\<lambda>p. (p, now)) (take n hits)\<rparr>, Inl (lit ''outbound channel closed''))
             else (w\<lparr>fw_out := fw_out w @ map (\<lambda>p. (p, now)) hits\<rparr>, Inr ())
         | None \<Rightarrow> (w\<lparr>fw_out := fw_out w @ map (\<lambda>p. (p, now)) hits\<rparr>, Inr ()))"

definition handle_notify_event ::
  "nat option \<Rightarrow> instant \<Rightarrow> fmt_text + event_kind \<times> path_buf list \<Rightarrow> file_watch \<Rightarrow> file_watch \<times> (fmt_text + unit)" where
  "handle_notify_event fails_at now ev w =
     (case ev of
        Inl e \<Rightarrow> (w, Inr ())
      | Inr (kind, paths) \<Rightarrow> if kind \<noteq> Modify_data then (w, Inr ()) else forward fails_at paths now w)"

text \<open>The branches of the loop; once it is left, nothing happens any more.\<close>

datatype watch_event =
    Fw_notify "nat option" instant "fmt_text + event_kind \<times> path_buf list"
  | Fw_notify_closed
  | Fw_watch "path_buf \<Rightarrow> path_buf option" "path_buf list"
  | Fw_file_changed
  | Fw_server_closed

definition stop_watch :: "file_watch \<Rightarrow> file_watch" where
  "stop_watch w = w\<lparr>fw_shutdown := True\<rparr>"

definition watch_step :: "watch_event \<Rightarrow> file_watch \<Rightarrow> file_watch option" where
  "watch_step ev w =
     (if fw_shutdown w then None
      else case ev of
        Fw_notify fails_at now e \<Rightarrow>
          (case handle_notify_event fails_at now e w of
             (w, Inl err) \<Rightarrow> Some (stop_watch w)
           | (w, Inr _) \<Rightarrow> Some w)
      | Fw_notify_closed \<Rightarrow> Some (stop_watch w)
      | Fw_watch canon paths \<Rightarrow> Some (apply_watch_files canon paths w)
      | Fw_file_changed \<Rightarrow> Some w
      | Fw_server_closed \<Rightarrow> Some (stop_watch w))"

fun watch_run :: "watch_event list \<Rightarrow> file_watch \<Rightarrow> file_watch option" where
  "watch_run [] w = Some w"
| "watch_run (e # es) w = (case watch_step e w of None \<Rightarrow> None | Some w' \<Rightarrow> watch_run es w')"

section \<open>What is watched\<close>

text \<open>The directories that are watched when every call succeeds.\<close>

fun watching :: "watch_call list \<Rightarrow> path_buf set \<Rightarrow> path_buf set" where
  "watching [] D = D"
| "watching (Unwatch d # cs) D = watching cs (D - {d})"
| "watching (Watch d # cs) D = watching cs (insert d D)"
| "watching (Commit # cs) D = watching cs D"

lemma watching_append [simp]: "watching (cs @ ds) D = watching ds (watching cs D)"
  by (induction cs D rule: watching.induct) auto

lemma watching_unwatch [simp]: "watching (map Unwatch ds) D = D - set ds"
  by (induction ds arbitrary: D) auto

lemma watching_watch [simp]: "watching (map Watch ds) D = D \<union> set ds"
  by (induction ds arbitrary: D) auto

definition watch_ok :: "file_watch \<Rightarrow> bool" where
  "watch_ok w \<longleftrightarrow> watching (fw_calls w) {} = set (fw_dirs w) \<and>
     set (fw_dirs w) = {d. \<exists>p \<in> set (fw_files w). path_parent p = Some d}"

lemma set_map_filter [simp]: "set (List.map_filter f xs) = {y. \<exists>x \<in> set xs. f x = Some y}"
  by (force simp: List.map_filter_def)

lemma apply_watch_ok: "watch_ok w \<Longrightarrow> watch_ok (apply_watch_files canon paths w)"
  by (auto simp: watch_ok_def apply_watch_files_def Let_def difference_def)

lemma forward_out:
  "forward n paths now w = (w', r) \<Longrightarrow> watch_ok w' = watch_ok w \<and> fw_files w' = fw_files w \<and>
     (\<exists>outs. fw_out w' = fw_out w @ outs \<and> (\<forall>(p, t) \<in> set outs. p \<in> set (fw_files w)))"
  by (auto simp: forward_def Let_def watch_ok_def dest!: in_set_takeD split: option.splits if_splits)

lemma watch_step_ok: "watch_step e w = Some w' \<Longrightarrow> watch_ok w \<Longrightarrow> watch_ok w'"
proof -
  have stop: "watch_ok (stop_watch v) = watch_ok v" for v
    by (simp add: watch_ok_def stop_watch_def)
  show "watch_step e w = Some w' \<Longrightarrow> watch_ok w \<Longrightarrow> watch_ok w'"
    by (cases e) (auto simp: watch_step_def handle_notify_event_def stop apply_watch_ok
        split: if_splits sum.splits prod.splits dest: forward_out)
qed

lemma watch_run_ok: "watch_run es w = Some w' \<Longrightarrow> watch_ok w \<Longrightarrow> watch_ok w'"
  by (induction es arbitrary: w) (auto split: option.splits dest: watch_step_ok)

lemma watch_run_append: "watch_run (es @ fs) w = Option.bind (watch_run es w) (watch_run fs)"
  by (induction es arbitrary: w) (auto split: option.splits)

lemma notify_step:
  "watch_step (Fw_notify n now ev) w = Some w' \<Longrightarrow> fw_files w' = fw_files w \<and>
     (\<exists>outs. fw_out w' = fw_out w @ outs \<and> (\<forall>(p, t) \<in> set outs. p \<in> set (fw_files w)))"
  by (auto simp: watch_step_def handle_notify_event_def stop_watch_def split: if_splits sum.splits prod.splits)
     (drule forward_out, force)+

text \<open>The watcher watches what it should: whatever files the server has named and whatever has happened,
  the directories it watches are those of the files it was last told to watch, in their canonical
  form, if no call to watch fails; and each change it reports is of a file it was told to watch when
  the change came in.\<close>

theorem watcher_follows_server:
  assumes "watch_run (evs @ [Fw_watch canon paths, Fw_notify n now ev]) file_watch_new = Some w"
  shows "watching (fw_calls w) {} = {d. \<exists>p \<in> set paths. \<exists>c. canon p = Some c \<and> path_parent c = Some d} \<and>
     (\<exists>w0 outs. watch_run evs file_watch_new = Some w0 \<and> fw_out w = fw_out w0 @ outs \<and>
        (\<forall>(c, t) \<in> set outs. \<exists>p \<in> set paths. canon p = Some c))"
proof -
  obtain w0 where w0: "watch_run evs file_watch_new = Some w0"
    and st: "watch_step (Fw_notify n now ev) (apply_watch_files canon paths w0) = Some w"
    using assms by (auto simp: watch_run_append bind_eq_Some_conv watch_step_def split: option.splits if_splits)
  have "watch_ok file_watch_new" by (simp add: watch_ok_def file_watch_new_def)
  then have "watch_ok w" using watch_run_ok [OF assms] by blast
  moreover have files: "set (fw_files (apply_watch_files canon paths w0)) = {c. \<exists>p \<in> set paths. canon p = Some c}"
    "fw_out (apply_watch_files canon paths w0) = fw_out w0"
    by (simp_all add: apply_watch_files_def Let_def)
  moreover note notify_step [OF st]
  ultimately show ?thesis
    using w0 by (auto simp: watch_ok_def)
qed

definition sample_watch :: "watch_event list" where
  "sample_watch = [Fw_watch Some [''/p/a'', ''/q/b'']]"

lemma watcher_follows_server_witness:
  "\<exists>w. watch_run (sample_watch @ [Fw_watch Some [''/p/a''], Fw_notify None 5 (Inr (Modify_data, [''/p/a'', ''/p/c'']))])
      file_watch_new = Some w \<and> watching (fw_calls w) {} = {''/p''}"
proof -
  let ?run = "watch_run (sample_watch @ [Fw_watch Some [''/p/a''], Fw_notify None 5 (Inr (Modify_data, [''/p/a'', ''/p/c'']))])
      file_watch_new"
  have "?run \<noteq> None" by code_simp
  then obtain w where w: "?run = Some w" by auto
  have "path_parent ''/p/a'' = Some ''/p''" by code_simp
  with watcher_follows_server [OF w] w show ?thesis by auto
qed

end
