(* ===== verification/Machines.thy ===== *)
theory Machines
  imports Main
begin

text \<open>
  State machines: the states a machine can reach from its start, and two interfaces of machines.
  \<open>invariant\<close>: a predicate that holds at the start and is kept by every step holds of every reachable
  state. \<open>simulation\<close>: a machine each of whose steps is matched by any number of steps of another one
  reaches only states that are related to reachable ones of the other.
\<close>

inductive reaches :: "('s \<Rightarrow> bool) \<Rightarrow> ('s \<Rightarrow> 's \<Rightarrow> bool) \<Rightarrow> 's \<Rightarrow> bool" for start step where
  Begin: "start s \<Longrightarrow> reaches start step s"
| Next: "reaches start step s \<Longrightarrow> step s t \<Longrightarrow> reaches start step t"

lemma reaches_steps: "step\<^sup>*\<^sup>* s t \<Longrightarrow> reaches start step s \<Longrightarrow> reaches start step t"
  by (induction rule: rtranclp_induct) (auto intro: reaches.Next)

locale invariant =
  fixes start :: "'s \<Rightarrow> bool" and step :: "'s \<Rightarrow> 's \<Rightarrow> bool" and inv :: "'s \<Rightarrow> bool"
  assumes start_inv: "start s \<Longrightarrow> inv s"
    and step_inv: "inv s \<Longrightarrow> step s t \<Longrightarrow> inv t"
begin

lemma reached: "reaches start step s \<Longrightarrow> inv s"
  by (induction rule: reaches.induct) (auto intro: start_inv step_inv)

lemma steps_inv: "step\<^sup>*\<^sup>* s t \<Longrightarrow> inv s \<Longrightarrow> inv t"
  by (induction rule: rtranclp_induct) (auto intro: step_inv)

end

locale simulation =
  fixes start :: "'s \<Rightarrow> bool" and step :: "'s \<Rightarrow> 's \<Rightarrow> bool"
    and astart :: "'a \<Rightarrow> bool" and astep :: "'a \<Rightarrow> 'a \<Rightarrow> bool" and rel :: "'s \<Rightarrow> 'a \<Rightarrow> bool"
  assumes start_sim: "start s \<Longrightarrow> \<exists>a. astart a \<and> rel s a"
    and step_sim: "reaches astart astep a \<Longrightarrow> rel s a \<Longrightarrow> step s t \<Longrightarrow> \<exists>a'. astep\<^sup>*\<^sup>* a a' \<and> rel t a'"
begin

lemma reached_steps:
  assumes "reaches astart astep a" and "rel s a" and "step s t"
  shows "\<exists>a'. reaches astart astep a' \<and> rel t a'"
  using step_sim [OF assms] reaches_steps [OF _ assms(1)] by blast

end

sublocale simulation \<subseteq> sim: invariant start step "\<lambda>s. \<exists>a. reaches astart astep a \<and> rel s a"
  using start_sim reached_steps by unfold_locales (blast intro: reaches.Begin)+

end
