(* ===== verification/Servers.thy ===== *)
theory Servers
  imports Refinement_Theorems Machines
begin

text \<open>
  Servers that talk to each other: every server with its whole state, and the messages on the way
  from each to each. A server handles a request of its editor or the next message from another
  server (or from itself, over the loopback channel) with \<open>server_step\<close>, and what it sends is put
  on the channels. The channels are FIFO, one for each sender and receiver: this is what the
  actors of the transports provide.
\<close>

section \<open>A network of servers\<close>

type_synonym mail = "request_id option \<times> msg"

record 'b servers =
  y_server :: "server_id \<Rightarrow> 'b server option"
  y_queue :: "server_id \<Rightarrow> server_id \<Rightarrow> mail list"

text \<open>What is sent to a server, in order.\<close>

fun mail_in :: "server_id \<Rightarrow> out \<Rightarrow> mail list" where
  "mail_in b (To_remote h rid m) = (if h = b then [(rid, m)] else [])"
| "mail_in b _ = []"

definition mail_to :: "server_id \<Rightarrow> out list \<Rightarrow> mail list" where
  "mail_to b outs = concat (map (mail_in b) outs)"

definition post :: "server_id \<Rightarrow> 'b server \<Rightarrow> out list \<Rightarrow> 'b servers \<Rightarrow> 'b servers" where
  "post a t outs y =
     \<lparr>y_server = (y_server y)(a \<mapsto> t),
      y_queue = (\<lambda>x b. if x = a then y_queue y x b @ mail_to b outs else y_queue y x b)\<rparr>"

definition run_at ::
  "'b gapbuf_ops \<Rightarrow> server_env \<Rightarrow> server_event \<Rightarrow> server_id \<Rightarrow> 'b servers \<Rightarrow> 'b servers option" where
  "run_at B v ev a y = do {
     s \<leftarrow> y_server y a;
     t \<leftarrow> server_step B v ev s;
     Some (post a t (emitted s t) y) }"

text \<open>The next message from \<open>a\<close> to \<open>b\<close>.\<close>

definition deliver_mail ::
  "'b gapbuf_ops \<Rightarrow> server_env \<Rightarrow> server_id \<Rightarrow> server_id \<Rightarrow> 'b servers \<Rightarrow> 'b servers option" where
  "deliver_mail B v a b y =
     (case y_queue y a b of
        [] \<Rightarrow> None
      | (rid, m) # rest \<Rightarrow>
          run_at B v (Ev_remote a rid m) b (y\<lparr>y_queue := (y_queue y)(a := (y_queue y a)(b := rest))\<rparr>))"

section \<open>Editing a file of one server on many\<close>

text \<open>A file: its host, its descriptor, and the id of its document there.\<close>

record shared_file =
  sf_host :: server_id
  sf_project :: project_id
  sf_name :: string
  sf_doc :: doc_id

definition sf_desc :: "shared_file \<Rightarrow> file_desc" where
  "sf_desc f = ProjectFile (sf_project f) (sf_name f)"

definition sf_ed :: "shared_file \<Rightarrow> editor_file_desc" where
  "sf_ed f = editor_file_desc_new (sf_desc f) (sf_host f)"

text \<open>A name as editors send it: a file, without slashes at its ends.\<close>

definition sf_ok :: "shared_file \<Rightarrow> bool" where
  "sf_ok f \<longleftrightarrow> sf_name f \<noteq> [] \<and> trim_slashes (sf_name f) = sf_name f"

lemma sf_ed_simps:
  "ef_host_id (sf_ed f) = sf_host f" "sf_ok f \<Longrightarrow> file_desc_from (sf_ed f) = sf_desc f"
  "sf_ok f \<Longrightarrow> \<not> is_project (sf_ed f)"
  by (simp_all add: sf_ed_def sf_desc_def editor_file_desc_new_def file_desc_from_def is_project_def sf_ok_def)

text \<open>Edits in a row, each of which fits what the editor shows then.\<close>

fun edits_fit :: "editor_fat_op list \<Rightarrow> utext \<Rightarrow> bool" where
  "edits_fit [] v \<longleftrightarrow> True"
| "edits_fit (e # es) v \<longleftrightarrow> edit_fits (ef_op e) v \<and>
     (case edit_view (own_instruction (ef_op e)) v of Some w \<Rightarrow> edits_fit es w | None \<Rightarrow> False)"

text \<open>The editor's own edits, as instructions to run on what it shows.\<close>

definition own_instructions :: "editor_fat_op list \<Rightarrow> edit_instruction list" where
  "own_instructions ops = map (\<lambda>e. own_instruction (ef_op e)) ops"

text \<open>A server has not opened the file.\<close>

definition unopened :: "shared_file \<Rightarrow> 'b server \<Rightarrow> bool" where
  "unopened f s \<longleftrightarrow>
     Option.is_none (get_remote_doc s (sf_ed f)) \<and>
     Option.is_none (already_opened (sf_host f) (sf_desc f) (sv_remote_docs s))"

lemma unopened_iff:
  "unopened f s \<longleftrightarrow>
     get_remote_doc s (sf_ed f) = None \<and> already_opened (sf_host f) (sf_desc f) (sv_remote_docs s) = None"
  by (simp add: unopened_def Option.is_none_def)

text \<open>The ids of sites are 32 bits wide; the host has one left.\<close>

definition ids_left :: "shared_file \<Rightarrow> 'b servers \<Rightarrow> bool" where
  "ids_left f y \<longleftrightarrow>
     (case y_server y (sf_host f) of Some s \<Rightarrow> length (sv_site_id_map s) < 2 ^ 32 - 2 | None \<Rightarrow> False)"

text \<open>
  The host has the document, nobody has opened it, nothing is on the way, and everybody may write.
\<close>

definition servers_start :: "'b gapbuf_ops \<Rightarrow> shared_file \<Rightarrow> utext \<Rightarrow> 'b servers \<Rightarrow> bool" where
  "servers_start B f text0 y \<longleftrightarrow>
     sf_ok f \<and> (\<exists>H path d d'. y_server y (sf_host f) = Some H \<and> server_reachable B H \<and> distinct (keys (sv_docs H)) \<and>
        hosts B (sf_doc f) H (net_start text0) \<and> ids_left f y \<and>
        path_id_from_file_desc H (sf_desc f) = Inr path \<and>
        find_doc path (sv_docs H) = Some (sf_doc f, d) \<and> find_doc path (rev (sv_docs H)) = Some (sf_doc f, d') \<and>
        (\<forall>a s. y_server y a = Some s \<longrightarrow>
           sv_host_id s = a \<and> unopened f s \<and> write_allowed (sv_config H) a) \<and>
        (\<forall>a b. y_queue y a b = []))"

text \<open>Events that leave the file alone: nothing changes but worlds, trust and notices to the editor.\<close>

definition bystander :: "'b server \<Rightarrow> 'b server \<Rightarrow> bool" where
  "bystander s t \<longleftrightarrow>
     sv_docs t = sv_docs s \<and> sv_remote_docs t = sv_remote_docs s \<and> sv_projects t = sv_projects s \<and>
     ids t = ids s \<and> sv_config t = sv_config s \<and> (\<forall>b. mail_to b (emitted s t) = [])"

text \<open>
  The steps: an editor opens the file, when there is no earlier request for it under way; an editor
  sends edits that fit its buffer (or none, to fetch what has arrived); a message between the host
  and another server, or from the host to itself, is delivered; anything that is no business of the
  file.
\<close>

inductive servers_step :: "'b gapbuf_ops \<Rightarrow> shared_file \<Rightarrow> 'b servers \<Rightarrow> 'b servers \<Rightarrow> bool" for B f where
  Opens: "y_server y a = Some s \<Longrightarrow> unopened f s \<Longrightarrow> y_queue y a (sf_host f) = [] \<Longrightarrow> y_queue y (sf_host f) a = [] \<Longrightarrow>
    run_at B v (Ev_editor (Editor_request rid (Rq_open_file (sf_ed f) mode))) a y = Some y' \<Longrightarrow>
    servers_step B f y y'"
| Types: "y_server y a = Some s \<Longrightarrow> get_remote_doc s (sf_ed f) = Some (doc, rd) \<Longrightarrow>
    edits_fit ops (gb_iter B (r_buffer rd)) \<Longrightarrow>
    run_at B v (Ev_editor (Editor_request rid (Rq_send_ops ops (sf_ed f)))) a y = Some y' \<Longrightarrow>
    servers_step B f y y'"
| Delivers: "a = sf_host f \<or> b = sf_host f \<Longrightarrow> ids_left f y \<Longrightarrow> deliver_mail B v a b y = Some y' \<Longrightarrow>
    servers_step B f y y'"
| Other: "y_server y a = Some s \<Longrightarrow> server_step B v ev s = Some t \<Longrightarrow> bystander s t \<Longrightarrow>
    run_at B v ev a y = Some y' \<Longrightarrow> servers_step B f y y'"

definition servers_reachable :: "'b gapbuf_ops \<Rightarrow> shared_file \<Rightarrow> utext \<Rightarrow> 'b servers \<Rightarrow> bool" where
  "servers_reachable B f text0 = reaches (servers_start B f text0) (servers_step B f)"

section \<open>What a server's handlers leave alone\<close>

text \<open>
  \<open>hosted\<close>: what a session of a hosted document rests on; the handlers of a client keep it.
  \<open>house\<close>: the same without the documents' contents, which the handlers of a host keep, with
  everything of the documents opened elsewhere.
\<close>

definition doc_names :: "'b server \<Rightarrow> (doc_id \<times> path_id) list" where
  "doc_names s = map (\<lambda>(i, d). (i, d_abs_filename d)) (sv_docs s)"

definition hosted where
  "hosted s = (ids s, sv_config s, sv_projects s, sv_docs s)"

definition house where
  "house s = (ids s, sv_config s, sv_projects s, doc_names s, sv_remote_docs s)"

lemma hosted_updates [simp]:
  "hosted (emit x s) = hosted s" "hosted (send_notif code note s) = hosted s"
  "hosted (send_to_remote nx h m s) = hosted s" "hosted (send_to_remote_no_req_id h m s) = hosted s"
  "hosted (resend_watch_files s) = hosted s" "hosted (set_remote_doc h doc rd s) = hosted s"
  "hosted (drop_remote_doc h doc s) = hosted s" "hosted (insert_remote_doc h doc rd ef s) = hosted s"
  by (simp_all add: hosted_def emit_def send_notif_def send_to_remote_def
      send_to_remote_no_req_id_def resend_watch_files_def ids_def set_remote_doc_def drop_remote_doc_def
      insert_remote_doc_def)

lemma hosted_send_resp: "send_resp nx r e s = Some t \<Longrightarrow> hosted t = hosted s"
  by (auto simp: send_resp_def split: option.splits)

lemma hosted_send_error: "send_error nx c m s = Some t \<Longrightarrow> hosted t = hosted s"
  by (auto simp: send_error_def dest: hosted_send_resp)

lemma hosted_fail_doc: "fail_doc nx h doc m s = Some t \<Longrightarrow> hosted t = hosted s"
  by (auto simp: fail_doc_def bind_eq_Some_conv dest: hosted_send_error)

lemma hosted_send_ops: "handle_send_ops_from_editor B nx ops ef s = Some t \<Longrightarrow> hosted t = hosted s"
  by (auto simp: handle_send_ops_from_editor_def Let_def
      split: run_splits dest!: hosted_send_resp hosted_send_error hosted_fail_doc)

lemma hosted_buffer_ops: "buffer_ops nx doc h fs rd s = (rd', t) \<Longrightarrow> hosted t = hosted s"
  by (induction nx doc h fs rd s rule: buffer_ops.induct) (auto simp: Let_def split: option.splits if_splits)

lemma hosted_op_from_server: "handle_op_from_server nx doc ops h s = Some t \<Longrightarrow> hosted t = hosted s"
  by (auto simp: handle_op_from_server_def Let_def bind_eq_Some_conv simp del: buffer_ops.simps
      split: list.splits option.splits prod.splits if_splits dest: hosted_buffer_ops)

lemma hosted_snapshot: "handle_snapshot B nx sn h s = Some t \<Longrightarrow> hosted t = hosted s"
  by (auto simp: handle_snapshot_def Let_def split: run_splits dest!: hosted_send_resp hosted_send_error)

text \<open>The handlers of a host.\<close>

lemma house_updates [simp]:
  "house (emit x s) = house s" "house (send_notif code note s) = house s"
  "house (send_to_remote nx h m s) = house s" "house (send_to_remote_no_req_id h m s) = house s"
  "house (resend_watch_files s) = house s"
  by (simp_all add: house_def doc_names_def emit_def send_notif_def send_to_remote_def
      send_to_remote_no_req_id_def resend_watch_files_def ids_def)

lemma house_send_to_all [simp]: "house (send_to_all nx hs m s) = house s"
  by (induction hs arbitrary: s) auto

lemma names_map_entry:
  "map_of ds doc = Some d \<Longrightarrow> d_abs_filename d' = d_abs_filename d \<Longrightarrow>
     map (\<lambda>(i, d). (i, d_abs_filename d)) (AList.map_entry doc (\<lambda>_. d') ds) =
     map (\<lambda>(i, d). (i, d_abs_filename d)) ds"
  by (induction ds) (auto split: if_split_asm)

lemma house_set_doc:
  "map_of (sv_docs s) doc = Some d \<Longrightarrow> d_abs_filename d' = d_abs_filename d \<Longrightarrow>
     house (set_doc doc d' s) = house s"
  by (simp add: house_def doc_names_def set_doc_def ids_def names_map_entry)

lemma apply_op_name: "apply_op B d f = Some (d', r) \<Longrightarrow> d_abs_filename d' = d_abs_filename d"
  by (auto simp: apply_op_def Let_def split: run_splits)

lemma apply_ops_name: "apply_ops B d fs = Some (d', r) \<Longrightarrow> d_abs_filename d' = d_abs_filename d"
  by (induction fs arbitrary: d) (auto split: run_splits dest!: apply_op_name)

lemma house_op_from_client: "handle_op_from_client B nx co h s = Some (t, r) \<Longrightarrow> house t = house s"
  by (auto simp: handle_op_from_client_def process_client_ops_def Let_def
      split: run_splits dest!: apply_ops_name intro!: house_set_doc)

lemma house_request_ops [simp]: "house (handle_request_ops nx doc after h s) = house s"
  by (auto simp: handle_request_ops_def Let_def house_set_doc split: option.split)

text \<open>What rests on these parts.\<close>

lemma site_of_ids: "ids t = ids s \<Longrightarrow> site_of t = site_of s"
  by (auto simp: site_of_def ids_def fun_eq_iff)

lemma hosted_hosts: "hosted t = hosted s \<Longrightarrow> hosts B doc t n = hosts B doc s n"
  using site_of_ids [of t s] by (simp add: hosted_def hosts_def)

lemma house_hosted: "hosted t = hosted s \<Longrightarrow> sv_remote_docs t = sv_remote_docs s \<Longrightarrow> house t = house s"
  by (simp add: hosted_def house_def doc_names_def)

end
