(* ===== verification/Servers_Correct.thy ===== *)
theory Servers_Correct
  imports Servers
begin

text \<open>
  A network of servers that edit one file is a session of \<open>Network\<close>: each server is a site once it
  has the file, and the messages between it and the host are the channels of the site. Every step of
  a server is a run of steps of the session, so that what holds of sessions holds of the servers.
\<close>

section \<open>The part of one server\<close>

text \<open>Messages of a site to the host; the others between them go from the host to the site.\<close>

definition for_host :: "msg \<Rightarrow> bool" where
  "for_host m = (case m of M_request_file _ _ \<Rightarrow> True | M_request_ops _ _ \<Rightarrow> True
     | M_op_from_client _ \<Rightarrow> True | _ \<Rightarrow> False)"

lemma for_host_simps [simp]:
  "for_host (M_request_file fd mode)" "for_host (M_request_ops doc k)" "for_host (M_op_from_client co)"
  "\<not> for_host (M_op_from_server doc ops)" "\<not> for_host (M_snapshot sn)"
  by (simp_all add: for_host_def)

lemma for_host_up_body [simp]: "for_host (up_body doc m)"
  by (cases m) simp_all

definition ups :: "shared_file \<Rightarrow> 'b servers \<Rightarrow> server_id \<Rightarrow> mail list" where
  "ups f y a = filter (\<lambda>x. for_host (snd x)) (y_queue y a (sf_host f))"

definition downs :: "shared_file \<Rightarrow> 'b servers \<Rightarrow> server_id \<Rightarrow> mail list" where
  "downs f y a = filter (\<lambda>x. \<not> for_host (snd x)) (y_queue y (sf_host f) a)"

text \<open>
  A server and the file: it has not asked for it, the host has not answered, the answer is on its
  way, or it has the file and is a site of the session. \<open>site\<close> is the site id it has at the host,
  \<open>P\<close> the sites of the session.
\<close>

inductive part_ok ::
  "'b gapbuf_ops \<Rightarrow> shared_file \<Rightarrow> site_id option \<Rightarrow> (site_id \<Rightarrow> peer option) \<Rightarrow> 'b server \<Rightarrow> mail list \<Rightarrow>
     mail list \<Rightarrow> bool" for B f site P s where
  Fresh: "unopened f s \<Longrightarrow> (\<And>i. site = Some i \<Longrightarrow> P i = None) \<Longrightarrow> part_ok B f site P s [] []"
| Asked: "unopened f s \<Longrightarrow> sv_host_id s \<noteq> sf_host f \<Longrightarrow> (\<And>i. site = Some i \<Longrightarrow> P i = None) \<Longrightarrow>
    part_ok B f site P s [(Some rid, M_request_file (sf_desc f) mode)] []"
| Answered: "unopened f s \<Longrightarrow> sv_host_id s \<noteq> sf_host f \<Longrightarrow> site = Some i \<Longrightarrow> P i = Some p \<Longrightarrow>
    sn_doc_id sn = sf_doc f \<Longrightarrow> sn_file_desc sn = sf_desc f \<Longrightarrow> sn_content sn = p_buffer p \<Longrightarrow>
    p_client p = client_engine_new (sn_site_id sn) (sn_seq sn) (sn_internal_doc sn) \<Longrightarrow>
    p_up p = [Request_ops (sn_seq sn)] \<Longrightarrow> p_down p = [] \<Longrightarrow>
    part_ok B f site P s [] [(Some rid, M_snapshot sn)]"
| Opened: "site = Some i \<Longrightarrow> P i = Some p \<Longrightarrow> map snd up = map (up_body (sf_doc f)) (p_up p) \<Longrightarrow>
    (\<And>m. m \<in> set (p_up p) \<Longrightarrow> about_doc (sf_doc f) m) \<Longrightarrow>
    map snd down = map (M_op_from_server (sf_doc f)) opss \<Longrightarrow>
    opens B (sf_doc f) (sf_ed f) s p (concat opss) \<Longrightarrow> part_ok B f site P s up down"

lemma part_ok_cong:
  assumes "part_ok B f site P s up down" and "\<And>i. site = Some i \<Longrightarrow> P' i = P i"
  shows "part_ok B f site P' s up down"
  using assms by cases (auto intro: part_ok.intros)

text \<open>Only the documents opened elsewhere matter.\<close>

lemma unopened_cong: "sv_remote_docs t = sv_remote_docs s \<Longrightarrow> unopened f t = unopened f s"
  by (simp add: unopened_iff get_remote_doc_def)

lemma opens_cong: "sv_remote_docs t = sv_remote_docs s \<Longrightarrow> opens B doc ef t p later = opens B doc ef s p later"
  by (simp add: opens_def get_remote_doc_def)

lemma part_ok_server:
  assumes "part_ok B f site P s up down"
    and "sv_remote_docs t = sv_remote_docs s" and "sv_host_id t = sv_host_id s"
  shows "part_ok B f site P t up down"
proof -
  note same = unopened_cong [OF assms(2)] opens_cong [OF assms(2)] assms(3)
  show ?thesis using assms(1)
  proof cases
    case (Answered i p sn rid)
    then show ?thesis by (simp add: same part_ok.Answered)
  next
    case (Opened i p opss)
    then show ?thesis by (intro part_ok.Opened [of site i P p]) (simp_all add: same)
  qed (simp_all add: same part_ok.Fresh part_ok.Asked)
qed

section \<open>The invariant\<close>

definition host_ok :: "'b gapbuf_ops \<Rightarrow> shared_file \<Rightarrow> 'b server \<Rightarrow> net \<Rightarrow> bool" where
  "host_ok B f H n \<longleftrightarrow>
     sf_ok f \<and> server_reachable B H \<and> length (sv_site_id_map H) < 2 ^ 32 - 1 \<and> hosts B (sf_doc f) H n \<and>
     dom (n_peers n) \<subseteq> ran (site_of H) \<and> distinct (keys (sv_docs H)) \<and>
     (\<exists>path d d'. path_id_from_file_desc H (sf_desc f) = Inr path \<and>
        find_doc path (sv_docs H) = Some (sf_doc f, d) \<and> find_doc path (rev (sv_docs H)) = Some (sf_doc f, d'))"

definition servers_ok :: "'b gapbuf_ops \<Rightarrow> shared_file \<Rightarrow> 'b servers \<Rightarrow> net \<Rightarrow> bool" where
  "servers_ok B f y n \<longleftrightarrow>
     (\<exists>H. y_server y (sf_host f) = Some H \<and> host_ok B f H n \<and>
        (\<forall>a s. y_server y a = Some s \<longrightarrow>
           sv_host_id s = a \<and> write_allowed (sv_config H) a \<and>
           part_ok B f (site_of H a) (n_peers n) s (ups f y a) (downs f y a)) \<and>
        (\<forall>a. y_server y a = None \<longrightarrow> y_queue y a (sf_host f) = []) \<and>
        (\<forall>a. a \<noteq> sf_host f \<longrightarrow>
           list_all (\<lambda>x. for_host (snd x)) (y_queue y a (sf_host f)) \<and>
           list_all (\<lambda>x. \<not> for_host (snd x)) (y_queue y (sf_host f) a)))"

lemma servers_okD:
  assumes "servers_ok B f y n"
  obtains H where "y_server y (sf_host f) = Some H" and "host_ok B f H n"
    and "\<And>a s. y_server y a = Some s \<Longrightarrow> sv_host_id s = a \<and> write_allowed (sv_config H) a \<and>
      part_ok B f (site_of H a) (n_peers n) s (ups f y a) (downs f y a)"
    and "\<And>a. y_server y a = None \<Longrightarrow> y_queue y a (sf_host f) = []"
    and "\<And>a. a \<noteq> sf_host f \<Longrightarrow> list_all (\<lambda>x. for_host (snd x)) (y_queue y a (sf_host f)) \<and>
      list_all (\<lambda>x. \<not> for_host (snd x)) (y_queue y (sf_host f) a)"
  using assms unfolding servers_ok_def by blast

lemma hosts_ids:
  assumes "hosts B doc H n"
  shows "inj_on (site_of H) (dom (site_of H))"
  using assms by (auto simp: hosts_def)

text \<open>Posting and taking mail.\<close>

lemma post_simps [simp]:
  "y_server (post a t outs y) = (y_server y)(a \<mapsto> t)"
  "ups f (post a t outs y) b =
     ups f y b @ (if b = a then filter (\<lambda>x. for_host (snd x)) (mail_to (sf_host f) outs) else [])"
  "downs f (post a t outs y) b =
     downs f y b @ (if a = sf_host f then filter (\<lambda>x. \<not> for_host (snd x)) (mail_to b outs) else [])"
  by (auto simp: post_def ups_def downs_def)

definition pop_mail :: "server_id \<Rightarrow> server_id \<Rightarrow> 'b servers \<Rightarrow> 'b servers" where
  "pop_mail a b y = y\<lparr>y_queue := (y_queue y)(a := (y_queue y a)(b := tl (y_queue y a b)))\<rparr>"

lemma pop_server [simp]: "y_server (pop_mail a b y) = y_server y"
  by (simp add: pop_mail_def)

lemma pop_subset: "set (y_queue (pop_mail a b y) c d) \<subseteq> set (y_queue y c d)"
  by (cases "y_queue y a b") (auto simp: pop_mail_def)

lemma pop_up:
  assumes "y_queue y a (sf_host f) = x # rest" and "for_host (snd x)"
  shows "ups f (pop_mail a (sf_host f) y) b = (if b = a then tl (ups f y b) else ups f y b)"
    and "downs f (pop_mail a (sf_host f) y) b = downs f y b"
    and "ups f y a = x # ups f (pop_mail a (sf_host f) y) a"
  using assms by (auto simp: pop_mail_def ups_def downs_def)

lemma pop_down:
  assumes "y_queue y (sf_host f) a = x # rest" and "\<not> for_host (snd x)"
  shows "downs f (pop_mail (sf_host f) a y) b = (if b = a then tl (downs f y b) else downs f y b)"
    and "ups f (pop_mail (sf_host f) a y) b = ups f y b"
    and "downs f y a = x # downs f (pop_mail (sf_host f) a y) a"
  using assms by (auto simp: pop_mail_def ups_def downs_def)

lemma deliver_eq:
  "deliver_mail B v a b y = (case y_queue y a b of [] \<Rightarrow> None
     | (rid, m) # rest \<Rightarrow> run_at B v (Ev_remote a rid m) b (pop_mail a b y))"
  by (auto simp: deliver_mail_def pop_mail_def split: list.split)

lemma mail_simps [simp]:
  "mail_to b [] = []" "mail_to b (x # xs) = mail_in b x @ mail_to b xs"
  "mail_to b (xs @ ys) = mail_to b xs @ mail_to b ys"
  by (simp_all add: mail_to_def)

section \<open>Steps of a session\<close>

lemma serve_frame:
  assumes "serve_net n i = Some n'"
  shows "n_peers n j = None \<Longrightarrow> n_peers n' j = None"
    and "n_peers n j = Some p \<Longrightarrow> \<exists>p'. n_peers n' j = Some p' \<and> p_client p' = p_client p \<and>
      p_buffer p' = p_buffer p \<and> p_up p' = (if j = i then tl (p_up p) else p_up p)"
  using assms
  by (auto simp: serve_net_def broadcast_def Let_def
      split: bind_split_asm list.split_asm up_msg.split_asm prod.split_asm option.split)

definition acts_of :: "site_id \<Rightarrow> action list \<Rightarrow> bool" where
  "acts_of i as \<longleftrightarrow> (\<forall>a \<in> set as. a = A_take i \<or> (\<exists>e g. a = A_edit i e g) \<or> (\<exists>d. a = A_send i d))"

lemma client_act_frame:
  assumes "act a n = Some n'" and "acts_of i [a]"
  shows "j \<noteq> i \<Longrightarrow> n_peers n' j = n_peers n j" and "hosts B doc s n' = hosts B doc s n"
    and "dom (n_peers n') = dom (n_peers n)"
proof -
  show "hosts B doc s n' = hosts B doc s n"
    using assms by (intro hosts_client_act) (auto simp: acts_of_def)
  show "n_peers n' j = n_peers n j" if "j \<noteq> i"
    using assms that
    by (auto simp: acts_of_def edit_net_def send_net_def take_net_def Let_def
        split: option.split_asm if_split_asm bind_split_asm prod.split_asm sum.split_asm list.split_asm)
  show "dom (n_peers n') = dom (n_peers n)"
    using assms
    by (auto simp: acts_of_def edit_net_def send_net_def take_net_def Let_def insert_absorb
        split: option.split_asm if_split_asm bind_split_asm prod.split_asm sum.split_asm list.split_asm)
qed

lemma client_acts_frame:
  assumes "acts as n = Some n'" and "acts_of i as"
  shows "(\<forall>j. j \<noteq> i \<longrightarrow> n_peers n' j = n_peers n j) \<and> hosts B doc s n' = hosts B doc s n \<and>
    dom (n_peers n') = dom (n_peers n)"
  using assms
proof (induction "as" arbitrary: n)
  case (Cons a "as")
  then obtain n1 where n1: "act a n = Some n1" "acts as n1 = Some n'" by (auto split: bind_splits)
  have "acts_of i [a]" "acts_of i as" using Cons.prems(2) by (auto simp: acts_of_def)
  with Cons.IH [OF n1(2)] client_act_frame [OF n1(1)] show ?case by simp
qed simp

lemma edit_net_buffer:
  assumes "net_ok text0 n" and "n_peers n i = Some p" and "edit_fits e (p_buffer p)"
  shows "\<exists>n' p'. edit_net n i e g = Some n' \<and> net_ok text0 n' \<and> n_peers n' i = Some p' \<and>
    edit_view (own_instruction e) (p_buffer p) = Some (p_buffer p') \<and> ce_seq (p_client p') = ce_seq (p_client p)"
proof -
  obtain n' where n': "edit_net n i e g = Some n'" "net_ok text0 n'"
    using edit_ok [OF assms] by blast
  have so: "site_ok (start_cells text0) (n_ops n) i p"
    using net_okD(2) [OF assms(1,2)] by (simp add: peer_ok_def)
  then have s: "represents (ce_doc (p_client p)) (app_ops t_apply (h_local (ce_gh (p_client p)))
      (doc_at (n_ops n) (start_cells text0) (ce_seq (p_client p))))" "queue_ok (ce_gh (p_client p))"
      "p_buffer p = visible (app_ops t_apply (h_local (ce_gh (p_client p)))
        (doc_at (n_ops n) (start_cells text0) (ce_seq (p_client p))))"
    by (simp_all add: site_ok_def Let_def)
  from process_local_edit_ok [OF s(1) _ s(2), of e g] assms(3) s(3) obtain c' where
    "process_local_op (p_client p) \<lparr>ef_op = e, ef_group_seq = g\<rparr> (ce_site_seq (p_client p) + 1) =
      Some (c', Inr [own_instruction e])" "ce_seq c' = ce_seq (p_client p)" by auto
  with n'(1) assms(2) obtain v where "edit_view (own_instruction e) (p_buffer p) = Some v"
      "n' = set_peer n i (p\<lparr>p_client := c', p_buffer := v\<rparr>)"
    by (auto simp: edit_net_def split: bind_split_asm)
  with n' \<open>ce_seq c' = ce_seq (p_client p)\<close> show ?thesis by auto
qed

lemma edits_fit_acts:
  assumes "net_ok text0 n" and "n_peers n i = Some p" and "edits_fit ops (p_buffer p)"
  shows "\<exists>n' p'. acts (edit_actions i ops) n = Some n' \<and> n_peers n' i = Some p' \<and>
    view_edits (own_instructions ops) (p_buffer p) = Some (p_buffer p') \<and> ce_seq (p_client p') = ce_seq (p_client p)"
  using assms
proof (induction ops arbitrary: n p)
  case (Cons e es)
  then obtain w where w: "edit_fits (ef_op e) (p_buffer p)" "edits_fit es w"
      "edit_view (own_instruction (ef_op e)) (p_buffer p) = Some w" by (auto split: option.split_asm)
  from edit_net_buffer [OF Cons.prems(1,2) w(1), of "ef_group_seq e"] w(2,3) obtain n1 p1 where
      "edit_net n i (ef_op e) (ef_group_seq e) = Some n1" "net_ok text0 n1" "n_peers n1 i = Some p1"
      "edits_fit es (p_buffer p1)" "p_buffer p1 = w" "ce_seq (p_client p1) = ce_seq (p_client p)" by auto
  with Cons.IH [of n1 p1] Cons.prems(2) w(1,3) show ?case by (auto simp: edit_actions_def own_instructions_def)
qed (simp add: edit_actions_def own_instructions_def)

section \<open>The host handles a message\<close>

definition session_mail :: "doc_id \<Rightarrow> 'b server \<Rightarrow> net \<Rightarrow> out list \<Rightarrow> bool" where
  "session_mail doc H n outs \<longleftrightarrow>
     (\<forall>x \<in> set outs. \<exists>h rid ops j. x = To_remote h rid (M_op_from_server doc ops) \<and>
        site_of H h = Some j \<and> n_subs n j \<noteq> None)"

lemma session_mail_facts:
  assumes "session_mail doc H n outs"
  shows "filter (\<lambda>x. for_host (snd x)) (mail_to b outs) = []"
    and "filter (\<lambda>x. \<not> for_host (snd x)) (mail_to b outs) = mail_to b outs"
    and "\<exists>opss. map snd (mail_to b outs) = map (M_op_from_server doc) opss \<and> concat opss = ops_sent doc b outs"
    and "(\<And>j. site_of H b = Some j \<Longrightarrow> n_subs n j = None) \<Longrightarrow> mail_to b outs = []"
  using assms
proof (induction outs)
  case (Cons x xs)
  {
    case 1
    with Cons.IH(1) show ?case by (auto simp: session_mail_def)
  next
    case 2
    with Cons.IH(2) show ?case by (auto simp: session_mail_def)
  next
    case 3
    with Cons.IH(3) obtain opss where
      "map snd (mail_to b xs) = map (M_op_from_server doc) opss" "concat opss = ops_sent doc b xs"
      by (auto simp: session_mail_def)
    moreover obtain h rid ops where "x = To_remote h rid (M_op_from_server doc ops)"
      using 3 by (auto simp: session_mail_def)
    ultimately show ?case
      by (intro exI [of _ "(if h = b then [ops] else []) @ opss"]) (simp add: ops_sent_def)
  next
    case 4
    with Cons.IH(4) show ?case by (fastforce simp: session_mail_def)
  }
qed (simp_all add: ops_sent_def)

lemma waiting_not_subscribed:
  assumes "reachable text0 n" and "n_peers n j = Some p" and "p_up p = [Request_ops k]"
  shows "n_subs n j = None"
proof -
  obtain A where "channel_ok (start_cells text0) (n_ops n) j (n_subs n j) p A"
    using net_okD(2) [OF reachable_ok [OF assms(1)] assms(2)] by (auto simp: peer_ok_def)
  then show ?thesis using assms(3) by (auto simp: channel_ok_def Let_def split: option.split_asm)
qed

lemma absent_not_subscribed: "reachable text0 n \<Longrightarrow> n_peers n j = None \<Longrightarrow> n_subs n j = None"
  using reachable_ok by (simp add: net_ok_def)

lemma part_served:
  assumes r: "reachable text0 n'" and sv: "serve_net n i = Some n'" and m: "session_mail (sf_doc f) H n' outs"
    and d: "\<And>h j p. site_of H h = Some j \<Longrightarrow> n_peers n j = Some p \<Longrightarrow>
      \<exists>p'. n_peers n' j = Some p' \<and> p_down p' = p_down p @ ops_sent (sf_doc f) h outs"
    and inj: "inj_on (site_of H) (dom (site_of H))" and a: "site_of H a = Some i"
    and p: "part_ok B f (site_of H b) (n_peers n) s up down" and ne: "b = a \<Longrightarrow> up \<noteq> []"
  shows "part_ok B f (site_of H b) (n_peers n') s (if b = a then tl up else up) (down @ mail_to b outs)"
proof -
  note mf = session_mail_facts [OF m, of b]
  have other: "j \<noteq> i" if "site_of H b = Some j" "b \<noteq> a" for j
    using that a inj by (metis domI inj_onD)
  have i: "n_peers n i \<noteq> None" using sv by (auto simp: serve_net_def split: bind_split_asm)
  show ?thesis using p
  proof cases
    case Fresh
    have none: "n_peers n' j = None" if "site_of H b = Some j" for j
      by (rule serve_frame(1) [OF sv Fresh(4) [OF that]])
    then have "mail_to b outs = []" by (intro mf(4)) (rule absent_not_subscribed [OF r])
    with Fresh none show ?thesis by (simp add: part_ok.Fresh)
  next
    case (Asked rid mode)
    have ba: "b \<noteq> a" using Asked(5) [of i] a i by auto
    have none: "n_peers n' j = None" if "site_of H b = Some j" for j
      by (rule serve_frame(1) [OF sv Asked(5) [OF that]])
    then have "mail_to b outs = []" by (intro mf(4)) (rule absent_not_subscribed [OF r])
    with Asked none ba show ?thesis by (simp add: part_ok.Asked)
  next
    case (Answered j p sn rid)
    then have ba: "b \<noteq> a" using ne by auto
    note ji = other [OF Answered(5) ba]
    from serve_frame(2) [OF sv Answered(6)] ji obtain p' where p': "n_peers n' j = Some p'"
        "p_client p' = p_client p" "p_buffer p' = p_buffer p" "p_up p' = p_up p" by auto
    have "n_subs n' j = None"
      by (rule waiting_not_subscribed [OF r p'(1)]) (use p'(4) Answered(11) in simp)
    then have mt: "mail_to b outs = []" using Answered(5) by (intro mf(4)) simp
    have "ops_sent (sf_doc f) b outs = []" using mf(3) mt by auto
    with d [OF Answered(5,6)] p'(1) Answered(12) have "p_down p' = []" by auto
    with Answered p' ba mt show ?thesis by (simp add: part_ok.Answered)
  next
    case (Opened j p opss)
    from serve_frame(2) [OF sv Opened(2)] obtain p' where p': "n_peers n' j = Some p'"
        "p_client p' = p_client p" "p_buffer p' = p_buffer p"
        "p_up p' = (if j = i then tl (p_up p) else p_up p)" by blast
    have ji: "(j = i) = (b = a)" using other [OF Opened(1)] Opened(1) a by auto
    from mf(3) obtain more where more: "map snd (mail_to b outs) = map (M_op_from_server (sf_doc f)) more"
        "concat more = ops_sent (sf_doc f) b outs" by blast
    have dn: "p_down p' = p_down p @ concat more" using d [OF Opened(1,2)] p'(1) more(2) by auto
    have "opens B (sf_doc f) (sf_ed f) s p' (concat (opss @ more))"
      unfolding concat_append by (rule opens_more [OF Opened(6) p'(2,3) dn])
    moreover have "map snd (if b = a then tl up else up) = map (up_body (sf_doc f)) (p_up p')"
      using Opened(3) p'(4) ji by (simp add: map_tl)
    moreover have "about_doc (sf_doc f) m" if "m \<in> set (p_up p')" for m
      using that Opened(4) p'(4) by (cases "p_up p") (auto split: if_split_asm)
    ultimately show ?thesis
      using Opened(1,5) p'(1) more(1) by (intro part_ok.Opened [of _ j _ p' _ _ _ "opss @ more"]) simp_all
  qed
qed

text \<open>The next state, when the host has done a step of the session and sent its mail.\<close>

lemma host_step_ok:
  assumes ok: "servers_ok B f y n" and H: "y_server y (sf_host f) = Some H"
    and q: "y_queue y a (sf_host f) = x # rest" "for_host (snd x)"
    and hk: "host_ok B f t n'" and kept: "sv_config t = sv_config H"
      "sv_remote_docs t = sv_remote_docs H" "sv_host_id t = sv_host_id H"
    and mail: "\<And>b. filter (\<lambda>x. for_host (snd x)) (mail_to b outs) = []"
    and part: "\<And>b s. y_server y b = Some s \<Longrightarrow>
      part_ok B f (site_of H b) (n_peers n) s (ups f y b) (downs f y b) \<Longrightarrow> sv_host_id s = b \<Longrightarrow>
      part_ok B f (site_of t b) (n_peers n') s (if b = a then tl (ups f y b) else ups f y b)
        (downs f y b @ mail_to b outs)"
  shows "servers_ok B f (post (sf_host f) t outs (pop_mail a (sf_host f) y)) n'"
proof -
  let ?h = "sf_host f" and ?y = "post (sf_host f) t outs (pop_mail a (sf_host f) y)"
  from ok H have s: "\<And>b s. y_server y b = Some s \<Longrightarrow> sv_host_id s = b \<and> write_allowed (sv_config H) b \<and>
      part_ok B f (site_of H b) (n_peers n) s (ups f y b) (downs f y b)"
    and none: "\<And>b. y_server y b = None \<Longrightarrow> y_queue y b ?h = []"
    and pure: "\<And>b. b \<noteq> ?h \<Longrightarrow> list_all (\<lambda>x. for_host (snd x)) (y_queue y b ?h) \<and>
      list_all (\<lambda>x. \<not> for_host (snd x)) (y_queue y ?h b)"
    by (auto elim!: servers_okD)
  have down: "filter (\<lambda>x. \<not> for_host (snd x)) (mail_to b outs) = mail_to b outs" for b
    using mail [of b] by (induction "mail_to b outs") (auto simp: filter_empty_conv)
  have ud: "ups f ?y b = (if b = a then tl (ups f y b) else ups f y b)"
    "downs f ?y b = downs f y b @ mail_to b outs" for b
    unfolding post_simps pop_up [OF q] mail down by simp_all
  have "part_ok B f (site_of t b) (n_peers n') s' (ups f ?y b) (downs f ?y b) \<and> sv_host_id s' = b \<and>
      write_allowed (sv_config t) b"
    if "y_server ?y b = Some s'" for b s'
  proof (cases "b = ?h")
    case False
    with that have b: "y_server y b = Some s'" by simp
    with s [OF b] part [OF b] show ?thesis unfolding ud kept by blast
  next
    case True
    with that have t: "s' = t" by simp
    from s [OF H] part [OF H] have
      "part_ok B f (site_of t ?h) (n_peers n') H (ups f ?y ?h) (downs f ?y ?h)" "sv_host_id H = ?h"
      unfolding ud by blast+
    with True t s [OF H] kept show ?thesis by (simp add: part_ok_server)
  qed
  moreover have "y_queue ?y b ?h = []" if "y_server ?y b = None" for b
    using that none [of b] H by (auto simp: post_def pop_mail_def split: if_split_asm)
  moreover have "list_all (\<lambda>x. for_host (snd x)) (y_queue ?y b ?h) \<and>
      list_all (\<lambda>x. \<not> for_host (snd x)) (y_queue ?y ?h b)" if "b \<noteq> ?h" for b
  proof -
    have "y_queue ?y b ?h = (if b = a then tl (y_queue y b ?h) else y_queue y b ?h)"
      "y_queue ?y ?h b = y_queue y ?h b @ mail_to b outs"
      using that by (auto simp: post_def pop_mail_def)
    moreover have "list_all (\<lambda>x. \<not> for_host (snd x)) (mail_to b outs)"
      using mail [of b] by (simp add: list_all_iff filter_empty_conv)
    ultimately show ?thesis using pure [OF that] q by (auto simp: list_all_iff)
  qed
  ultimately show ?thesis
    using hk unfolding servers_ok_def by (intro conjI exI [of _ t]) simp_all
qed

lemma house_up:
  "handle_remote_message B v a rid (up_body doc m) H = Some (t, r) \<Longrightarrow> house t = house H"
  by (cases m) (auto simp: handle_remote_message_def Let_def fine_def dest: house_op_from_client)

lemma find_doc_names:
  assumes "map (\<lambda>(i, d). (i, d_abs_filename d)) ds' = map (\<lambda>(i, d). (i, d_abs_filename d)) ds"
    and "find_doc path ds = Some (doc, d)"
  shows "\<exists>d'. find_doc path ds' = Some (doc, d')"
  using assms
proof (induction ds arbitrary: ds')
  case (Cons x ds)
  obtain i e where x: "x = (i, e)" by fastforce
  with Cons.prems(1) obtain e' es where ds': "ds' = (i, e') # es" "d_abs_filename e' = d_abs_filename e"
      "map (\<lambda>(i, d). (i, d_abs_filename d)) es = map (\<lambda>(i, d). (i, d_abs_filename d)) ds" by auto
  show ?case
  proof (cases "doc_matches e path")
    case True
    with x ds' Cons.prems(2) show ?thesis by (auto simp: find_doc_def doc_matches_def)
  next
    case False
    with x Cons.prems(2) have "find_doc path ds = Some (doc, d)" by (simp add: find_doc_def)
    with Cons.IH [OF ds'(3)] False ds'(1,2) show ?thesis by (auto simp: find_doc_def doc_matches_def)
  qed
qed (simp add: find_doc_def)

lemma names_keys: "map fst (doc_names s) = keys (sv_docs s)"
  by (simp add: doc_names_def keys_def comp_def case_prod_unfold)

lemma path_id_cong: "sv_projects t = sv_projects s \<Longrightarrow> path_id_from_file_desc t = path_id_from_file_desc s"
  unfolding path_id_from_file_desc_def [abs_def] by (elim ssubst) (rule refl)

text \<open>What is constant about the host.\<close>

lemma host_ok_same:
  assumes "host_ok B f H n" and "ids t = ids H" and "sv_projects t = sv_projects H" and "doc_names t = doc_names H"
    and "server_reachable B t" and "hosts B (sf_doc f) t n'" and "dom (n_peers n') \<subseteq> ran (site_of H)"
  shows "host_ok B f t n'"
proof -
  from assms(1) obtain path d d' where h: "sf_ok f" "path_id_from_file_desc H (sf_desc f) = Inr path"
      "find_doc path (sv_docs H) = Some (sf_doc f, d)" "find_doc path (rev (sv_docs H)) = Some (sf_doc f, d')"
      "distinct (keys (sv_docs H))" "length (sv_site_id_map H) < 2 ^ 32 - 1"
    by (auto simp: host_ok_def)
  have nm: "map (\<lambda>(i, d). (i, d_abs_filename d)) (sv_docs t) = map (\<lambda>(i, d). (i, d_abs_filename d)) (sv_docs H)"
    using assms(4) by (simp add: doc_names_def)
  then have "map (\<lambda>(i, d). (i, d_abs_filename d)) (rev (sv_docs t)) =
      map (\<lambda>(i, d). (i, d_abs_filename d)) (rev (sv_docs H))" by (simp flip: rev_map)
  with find_doc_names [OF nm h(3)] find_doc_names [OF _ h(4)] obtain e e' where
      "find_doc path (sv_docs t) = Some (sf_doc f, e)" "find_doc path (rev (sv_docs t)) = Some (sf_doc f, e')"
    by blast
  moreover have "keys (sv_docs t) = keys (sv_docs H)" using assms(4) by (metis names_keys)
  ultimately show ?thesis
    using assms(2,5-7) h site_of_ids [OF assms(2)] path_id_cong [OF assms(3)]
    by (auto simp: host_ok_def ids_def)
qed

lemma net_steps_reachable: "net_step\<^sup>*\<^sup>* n n' \<Longrightarrow> reachable text0 n \<Longrightarrow> reachable text0 n'"
  by (induction rule: rtranclp_induct) (auto intro: reachable.Step)

lemma join_frame:
  assumes "join_net n i = Some n'"
  shows "dom (n_peers n') = insert i (dom (n_peers n))" and "j \<noteq> i \<Longrightarrow> n_peers n' j = n_peers n j"
    and "n_peers n i = None"
  using assms by (auto simp: join_net_def Let_def split: option.split_asm)

lemma site_map_grows: "length (sv_site_id_map (snd (site_id_of a s))) \<le> Suc (length (sv_site_id_map s))"
proof -
  have "length (AList.update k v xs) \<le> Suc (length xs)" for k and v :: site_id and xs :: "(server_id \<times> site_id) list"
    by (induction xs) auto
  then show ?thesis by (simp add: site_id_of_def split: option.split)
qed

lemma site_id_kept:
  "sv_remote_docs (snd (site_id_of a s)) = sv_remote_docs s" "sv_config (snd (site_id_of a s)) = sv_config s"
  "sv_projects (snd (site_id_of a s)) = sv_projects s" "sv_docs (snd (site_id_of a s)) = sv_docs s"
  "sv_host_id (snd (site_id_of a s)) = sv_host_id s" "sv_out (snd (site_id_of a s)) = sv_out s"
  by (simp_all add: site_id_of_def split: option.split)

text \<open>A message of a site of the session.\<close>

lemma host_serves_site:
  assumes B: "gapbuf_laws B" and ok: "servers_ok B f y n" and r: "reachable text0 n"
    and H: "y_server y (sf_host f) = Some H" and q: "y_queue y a (sf_host f) = (rid, m) # rest" "for_host m"
    and part: "site_of H a = Some i" "n_peers n i = Some p" "map snd (ups f y a) = map (up_body (sf_doc f)) (p_up p)"
      "\<And>m. m \<in> set (p_up p) \<Longrightarrow> about_doc (sf_doc f) m"
    and may: "write_allowed (sv_config H) a"
  shows "\<exists>t n'. handle_remote_message B v a rid m H = Some (t, Inr ()) \<and> net_step\<^sup>*\<^sup>* n n' \<and>
    servers_ok B f (post (sf_host f) t (emitted H t) (pop_mail a (sf_host f) y)) n'"
proof -
  from ok H have hk: "host_ok B f H n" by (auto elim: servers_okD)
  then have hs: "hosts B (sf_doc f) H n" "server_reachable B H" by (simp_all add: host_ok_def)
  have "ups f y a = (rid, m) # ups f (pop_mail a (sf_host f) y) a" by (rule pop_up(3) [OF q(1)]) (use q(2) in simp)
  with part(3) obtain u us where u: "p_up p = u # us" "m = up_body (sf_doc f) u" by auto
  from host_implements_session [OF B r hs(1) part(1,2) u(1) _ may, of v rid] part(4) u(1) obtain t n' where t:
      "handle_remote_message B v a rid (up_body (sf_doc f) u) H = Some (t, Inr ())" "serve_net n i = Some n'"
      "hosts B (sf_doc f) t n'" "delivers (sf_doc f) H t n n'" by auto
  from t(4) obtain outs where o: "sv_out t = sv_out H @ outs" "session_mail (sf_doc f) H n' outs"
      "\<And>h j p. site_of H h = Some j \<Longrightarrow> n_peers n j = Some p \<Longrightarrow>
        \<exists>p'. n_peers n' j = Some p' \<and> p_down p' = p_down p @ ops_sent (sf_doc f) h outs"
    unfolding delivers_def session_mail_def by blast
  note hu = house_up [OF t(1)]
  have kept: "sv_config t = sv_config H" "sv_remote_docs t = sv_remote_docs H" "sv_host_id t = sv_host_id H"
      "site_of t = site_of H" using hu site_of_ids [of t H] by (auto simp: house_def ids_def)
  have step: "net_step n n'" by (rule net_step.Serve [OF t(2)])
  have r': "reachable text0 n'" by (rule reachable.Step [OF r step])
  have "server_reachable B t"
    by (rule server_reachable.step [OF hs(2), of v "Ev_remote a rid m"]) (simp add: server_step_def t(1) u(2))
  moreover have "dom (n_peers n') \<subseteq> dom (n_peers n)"
    using serve_frame(1) [OF t(2)] by (auto simp: dom_def) (metis option.distinct(1) not_Some_eq)
  ultimately have hk': "host_ok B f t n'"
    using hk hu by (intro host_ok_same [OF hk _ _ _ _ t(3)]) (auto simp: house_def host_ok_def)
  have "servers_ok B f (post (sf_host f) t outs (pop_mail a (sf_host f) y)) n'"
  proof (rule host_step_ok [OF ok H q(1) _ hk' kept(1-3) session_mail_facts(1) [OF o(2)]])
    show "for_host (snd (rid, m))" using q(2) by simp
    fix b s assume b: "y_server y b = Some s" "part_ok B f (site_of H b) (n_peers n) s (ups f y b) (downs f y b)"
    show "part_ok B f (site_of t b) (n_peers n') s (if b = a then tl (ups f y b) else ups f y b)
        (downs f y b @ mail_to b outs)"
      unfolding kept(4)
      by (rule part_served [OF r' t(2) o(2,3) hosts_ids [OF hs(1)] part(1) b(2)])
        (use part(3) u(1) in auto)
  qed
  then show ?thesis using t(1) u(2) step emitted_append [OF o(1)] by auto
qed

text \<open>A request for the file: the host's answer makes the sender a site.\<close>

lemma host_answers:
  assumes ok: "servers_ok B f y n" and r: "reachable text0 n" and left: "ids_left f y"
    and H: "y_server y (sf_host f) = Some H" and q: "y_queue y a (sf_host f) = (rid, m) # rest"
    and s: "y_server y a = Some s" "a \<noteq> sf_host f" "unopened f s" "downs f y a = []"
    and m: "ups f y a = [(Some rq, M_request_file (sf_desc f) mode)]" "for_host m"
    and none: "\<And>i. site_of H a = Some i \<Longrightarrow> n_peers n i = None"
  shows "\<exists>t n'. handle_remote_message B v a rid m H = Some (t, Inr ()) \<and> net_step\<^sup>*\<^sup>* n n' \<and>
    servers_ok B f (post (sf_host f) t (emitted H t) (pop_mail a (sf_host f) y)) n'"
proof -
  from ok H s(1) have hk: "host_ok B f H n" and sid: "sv_host_id s = a" "sv_host_id H = sf_host f"
    by (auto elim: servers_okD)
  then obtain path d d' where hs: "hosts B (sf_doc f) H n" "server_reachable B H"
      "dom (n_peers n) \<subseteq> ran (site_of H)" "distinct (keys (sv_docs H))"
      "path_id_from_file_desc H (sf_desc f) = Inr path"
      "find_doc path (sv_docs H) = Some (sf_doc f, d)" "find_doc path (rev (sv_docs H)) = Some (sf_doc f, d')"
    by (auto simp: host_ok_def)
  have rm: "rid = Some rq" "m = M_request_file (sf_desc f) mode"
    using pop_up(3) [OF q] m by auto
  obtain i s1 where i: "site_id_of a H = (i, s1)" by fastforce
  have len: "length (sv_site_id_map s1) < 2 ^ 32 - 1"
    using site_map_grows [of a H] i left H by (simp add: ids_left_def)
  have a: "a \<noteq> sv_host_id H" using s(2) sid(2) by simp
  note st = site_id_of_site [OF i a]
  have ids1: "ids_ok s1" using ids_ok_site_id_of [OF ids_ok_reachable [OF hs(2)], of a] i by simp
  note inj = site_of_inj [OF ids1 len]
  have other: "j \<noteq> i" if "site_of H b = Some j" "b \<noteq> a" for b j
    using that st(1,2) inj by (metis domI inj_onD)
  have ni: "n_peers n i = None"
  proof (cases "site_of H a")
    case None
    then have "i \<notin> ran (site_of H)" using other by (auto simp: ran_def) (metis option.distinct(1))
    then show ?thesis using hs(3) by blast
  qed (use none st(3) in auto)
  from request_file_refines [OF ids_ok_reachable [OF hs(2)] len i a hs(1) reachable_ok [OF r] ni
      hs(5) [unfolded sf_desc_def] hs(6,4), of "ev_file v" "\<lparr>nx_req_id = Some rq\<rparr>" mode] obtain sn n' p where sn:
    "handle_request_file B (ev_file v) \<lparr>nx_req_id = Some rq\<rparr> (sf_desc f) a mode H =
       Some (send_to_remote \<lparr>nx_req_id = Some rq\<rparr> a (M_snapshot sn) s1)"
    "join_net n i = Some n'" "n_peers n' i = Some p"
    "hosts B (sf_doc f) (send_to_remote \<lparr>nx_req_id = Some rq\<rparr> a (M_snapshot sn) s1) n'"
    "sn_doc_id sn = sf_doc f" "sn_file_desc sn = sf_desc f" "sn_content sn = p_buffer p"
    "p_client p = client_engine_new (sn_site_id sn) (sn_seq sn) (sn_internal_doc sn)"
    "p_up p = [Request_ops (sn_seq sn)]" "p_down p = []" unfolding sf_desc_def by blast
  let ?t = "send_to_remote \<lparr>nx_req_id = Some rq\<rparr> a (M_snapshot sn) s1"
  let ?outs = "[To_remote a (Some rq) (M_snapshot sn)]"
  have t: "handle_remote_message B v a rid m H = Some (?t, Inr ())"
    using sn(1) rm by (simp add: handle_remote_message_def Let_def finish_def fine_def)
  note kept = site_id_kept [of a H, unfolded i, simplified]
  have so: "site_of ?t = site_of s1" by simp
  have out: "sv_out ?t = sv_out H @ ?outs" by (simp add: send_to_remote_def emit_def kept)
  have step: "net_step n n'" by (rule net_step.Join [OF sn(2)])
  have "server_reachable B ?t"
    by (rule server_reachable.step [OF hs(2), of v "Ev_remote a rid m"]) (simp add: server_step_def t)
  moreover have "dom (n_peers n') \<subseteq> ran (site_of s1)"
  proof -
    have "ran (site_of H) \<subseteq> ran (site_of s1)"
    proof
      fix j assume "j \<in> ran (site_of H)"
      then obtain b where "site_of H b = Some j" by (auto simp: ran_def)
      then have "site_of s1 b = Some j" using st(1-3) by (cases "b = a") auto
      then show "j \<in> ran (site_of s1)" by (auto simp: ran_def)
    qed
    moreover have "i \<in> ran (site_of s1)" using st(1) by (auto simp: ran_def)
    ultimately show ?thesis using hs(3) join_frame(1) [OF sn(2)] by auto
  qed
  moreover have "sf_ok f" using hk by (simp add: host_ok_def)
  moreover have same: "sv_projects ?t = sv_projects H" "sv_docs ?t = sv_docs H" "sv_site_id_map ?t = sv_site_id_map s1"
    by (simp_all add: send_to_remote_def emit_def kept)
  ultimately have hk': "host_ok B f ?t n'"
    using len sn(4) hs(4-7) so unfolding host_ok_def path_id_cong [OF same(1)] same by simp
  have "servers_ok B f (post (sf_host f) ?t ?outs (pop_mail a (sf_host f) y)) n'"
  proof (rule host_step_ok [OF ok H q _ hk'])
    show "sv_config ?t = sv_config H" "sv_remote_docs ?t = sv_remote_docs H" "sv_host_id ?t = sv_host_id H"
      by (simp_all add: send_to_remote_def emit_def kept)
    show "for_host (snd (rid, m))" using m(2) by simp
    show "filter (\<lambda>x. for_host (snd x)) (mail_to b ?outs) = []" for b by simp
    fix b s' assume b: "y_server y b = Some s'" "part_ok B f (site_of H b) (n_peers n) s' (ups f y b) (downs f y b)"
    show "part_ok B f (site_of ?t b) (n_peers n') s' (if b = a then tl (ups f y b) else ups f y b)
        (downs f y b @ mail_to b ?outs)"
    proof (cases "b = a")
      case True
      with b s have "s' = s" by simp
      with True s sid m st(1) so sn show ?thesis by (simp add: part_ok.Answered)
    next
      case False
      then have "site_of ?t b = site_of H b" using st(2) so by simp
      moreover have "part_ok B f (site_of H b) (n_peers n') s' (ups f y b) (downs f y b)"
        by (rule part_ok_cong [OF b(2)]) (use other False join_frame(2) [OF sn(2)] in auto)
      ultimately show ?thesis using False by simp
    qed
  qed
  then show ?thesis using t step emitted_append [OF out] by (intro exI [of _ ?t] exI [of _ n']) auto
qed

text \<open>Whatever is next for the host, it handles without an error.\<close>

lemma host_handles:
  assumes B: "gapbuf_laws B" and ok: "servers_ok B f y n" and r: "reachable text0 n" and left: "ids_left f y"
    and q: "y_queue y a (sf_host f) = (rid, m) # rest" "for_host m"
  shows "\<exists>H t n'. y_server y (sf_host f) = Some H \<and>
    handle_remote_message B v a rid m H = Some (t, Inr ()) \<and> net_step\<^sup>*\<^sup>* n n' \<and>
    servers_ok B f (post (sf_host f) t (emitted H t) (pop_mail a (sf_host f) y)) n'"
proof -
  from ok obtain H where H: "y_server y (sf_host f) = Some H"
    and all: "\<And>a s. y_server y a = Some s \<Longrightarrow> sv_host_id s = a \<and> write_allowed (sv_config H) a \<and>
      part_ok B f (site_of H a) (n_peers n) s (ups f y a) (downs f y a)"
    and none: "\<And>a. y_server y a = None \<Longrightarrow> y_queue y a (sf_host f) = []" by (auto elim!: servers_okD)
  from q none obtain s where s: "y_server y a = Some s" by fastforce
  have up: "ups f y a \<noteq> []" using pop_up(3) [OF q(1)] q(2) by simp
  have "part_ok B f (site_of H a) (n_peers n) s (ups f y a) (downs f y a)" using all [OF s] by blast
  then show ?thesis
  proof cases
    case (Asked rq mode)
    from host_answers [OF ok r left H q(1) s _ Asked(3,2,1) q(2) Asked(5)] Asked(4) all [OF s] H show ?thesis by auto
  next
    case (Opened i p opss)
    from host_serves_site [OF B ok r H q Opened(1-4)] all [OF s] H show ?thesis by auto
  qed (use up in simp_all)
qed

section \<open>A client handles a message or a request\<close>

text \<open>
  The next state in general: \<open>a\<close> has handled something, maybe taken from its mail (\<open>y1\<close>); the part of
  every server is right again.
\<close>

lemma post_ok:
  assumes ok: "servers_ok B f y n" and a: "y_server y a = Some s" and H: "y_server y (sf_host f) = Some H"
    and y1: "y_server y1 = y_server y" "\<And>c d. set (y_queue y1 c d) \<subseteq> set (y_queue y c d)"
    and H': "H' = (if a = sf_host f then t else H)" "host_ok B f H' n'" "sv_config H' = sv_config H"
      "sv_host_id t = sv_host_id s"
    and pure: "a \<noteq> sf_host f \<Longrightarrow> list_all (\<lambda>x. for_host (snd x)) (mail_to (sf_host f) outs)"
      "\<And>b. a = sf_host f \<Longrightarrow> b \<noteq> sf_host f \<Longrightarrow> list_all (\<lambda>x. \<not> for_host (snd x)) (mail_to b outs)"
    and part: "\<And>b s'. y_server y b = Some s' \<Longrightarrow> sv_host_id s' = b \<Longrightarrow>
      part_ok B f (site_of H b) (n_peers n) s' (ups f y b) (downs f y b) \<Longrightarrow>
      part_ok B f (site_of H' b) (n_peers n') (if b = a then t else s') (ups f (post a t outs y1) b)
        (downs f (post a t outs y1) b)"
  shows "servers_ok B f (post a t outs y1) n'"
proof -
  let ?h = "sf_host f" and ?y = "post a t outs y1"
  from ok H have all: "\<And>b s. y_server y b = Some s \<Longrightarrow> sv_host_id s = b \<and> write_allowed (sv_config H) b \<and>
      part_ok B f (site_of H b) (n_peers n) s (ups f y b) (downs f y b)"
    and none: "\<And>b. y_server y b = None \<Longrightarrow> y_queue y b ?h = []"
    and q: "\<And>b. b \<noteq> ?h \<Longrightarrow> list_all (\<lambda>x. for_host (snd x)) (y_queue y b ?h) \<and>
      list_all (\<lambda>x. \<not> for_host (snd x)) (y_queue y ?h b)"
    by (auto elim!: servers_okD)
  have "sv_host_id s' = b \<and> write_allowed (sv_config H') b \<and>
      part_ok B f (site_of H' b) (n_peers n') s' (ups f ?y b) (downs f ?y b)"
    if "y_server ?y b = Some s'" for b s'
  proof (cases "b = a")
    case True
    with that have "s' = t" by simp
    with True all [OF a] part [OF a] H' show ?thesis by auto
  next
    case False
    with that have b: "y_server y b = Some s'" by (simp add: y1)
    with False all [OF b] part [OF b] H' show ?thesis by auto
  qed
  moreover have "y_queue ?y b ?h = []" if "y_server ?y b = None" for b
    using that none [of b] y1(1) y1(2) [of b ?h] by (auto simp: post_def split: if_split_asm)
  moreover have "list_all (\<lambda>x. for_host (snd x)) (y_queue ?y b ?h) \<and>
      list_all (\<lambda>x. \<not> for_host (snd x)) (y_queue ?y ?h b)" if "b \<noteq> ?h" for b
  proof -
    have "set (y_queue y1 b ?h) \<subseteq> set (y_queue y b ?h)" "set (y_queue y1 ?h b) \<subseteq> set (y_queue y ?h b)"
      by (rule y1(2))+
    then show ?thesis
      using q [OF that] pure(1) pure(2) [OF _ that] that by (auto simp: post_def list_all_iff)
  qed
  moreover have "y_server ?y ?h = Some H'" using H H'(1) by (simp add: y1)
  ultimately show ?thesis using H'(2) unfolding servers_ok_def by (intro conjI exI [of _ H']) blast+
qed

text \<open>A server that touches nothing but its copy and writes to nobody but the host.\<close>

lemma client_step_ok:
  assumes ok: "servers_ok B f y n" and r: "reachable text0 n'" and a: "y_server y a = Some s"
    and H: "y_server y (sf_host f) = Some H"
    and y1: "y1 = y \<or> y1 = pop_mail (sf_host f) a y \<and> y_queue y (sf_host f) a \<noteq> [] \<and>
      \<not> for_host (snd (hd (y_queue y (sf_host f) a)))"
    and t: "hosted t = hosted s" "server_step B v ev s = Some t"
    and n': "\<And>s. hosts B (sf_doc f) s n' = hosts B (sf_doc f) s n" "dom (n_peers n') = dom (n_peers n)"
      "\<And>j. site_of H a \<noteq> Some j \<Longrightarrow> n_peers n' j = n_peers n j"
    and outs: "\<And>b. b \<noteq> sf_host f \<Longrightarrow> mail_to b outs = []"
      "list_all (\<lambda>x. for_host (snd x)) (mail_to (sf_host f) outs)"
    and part: "part_ok B f (site_of H a) (n_peers n') t (ups f y a @ mail_to (sf_host f) outs) (downs f y1 a)"
  shows "servers_ok B f (post a t outs y1) n'"
proof -
  let ?h = "sf_host f" and ?H = "if a = sf_host f then t else H"
  from ok H a have hk: "host_ok B f H n" by (auto elim: servers_okD)
  then have hs: "hosts B (sf_doc f) H n" by (simp add: host_ok_def)
  have hH: "hosted ?H = hosted H" using a H t(1) by auto
  then have site: "site_of ?H = site_of H" and cfg: "sv_config ?H = sv_config H"
    using site_of_ids [of ?H H] by (auto simp: hosted_def)
  have id: "sv_host_id t = sv_host_id s" using t(1) by (simp add: hosted_def ids_def)
  have "hosts B (sf_doc f) ?H n'" using hs hosted_hosts [OF hH] n'(1) by blast
  moreover have "server_reachable B ?H"
    using hk server_reachable.step [OF _ t(2)] a H by (auto simp: host_ok_def)
  ultimately have hk': "host_ok B f ?H n'"
    using hk n'(2) site path_id_cong [of ?H H] hH unfolding host_ok_def hosted_def ids_def by auto
  have u: "ups f y1 b = ups f y b" "b \<noteq> a \<Longrightarrow> downs f y1 b = downs f y b" for b
    using y1 pop_down(1,2) [of y f a] by (auto simp: neq_Nil_conv)
  have m: "filter (\<lambda>x. for_host (snd x)) (mail_to ?h outs) = mail_to ?h outs"
    "filter (\<lambda>x. \<not> for_host (snd x)) (mail_to b outs) = []" for b
    using outs by (cases "b = ?h"; auto simp: list_all_iff filter_id_conv filter_empty_conv)+
  show ?thesis
  proof (rule post_ok [OF ok a H _ _ refl hk' cfg id])
    show "y_server y1 = y_server y" using y1 by auto
    show "set (y_queue y1 c d) \<subseteq> set (y_queue y c d)" for c d
      using y1 pop_subset [of ?h a y c d] by blast
    show "list_all (\<lambda>x. for_host (snd x)) (mail_to ?h outs)" by (rule outs)
    show "list_all (\<lambda>x. \<not> for_host (snd x)) (mail_to b outs)" if "b \<noteq> ?h" for b using outs(1) [OF that] by simp
    fix b s' assume b: "y_server y b = Some s'" "part_ok B f (site_of H b) (n_peers n) s' (ups f y b) (downs f y b)"
    show "part_ok B f (site_of ?H b) (n_peers n') (if b = a then t else s') (ups f (post a t outs y1) b)
        (downs f (post a t outs y1) b)"
    proof (cases "b = a")
      case True
      then show ?thesis unfolding post_simps site u(1) m using part by simp
    next
      case False
      have "n_peers n' j = n_peers n j" if "site_of H b = Some j" for j
        using n'(3) that False hosts_ids [OF hs] by (metis domI inj_onD)
      from part_ok_cong [OF b(2) this] False show ?thesis unfolding post_simps site m u(1) u(2) [OF False] by simp
    qed
  qed
qed

text \<open>What is next for a client, it handles without an error.\<close>

lemma client_handles:
  assumes B: "gapbuf_laws B" and ok: "servers_ok B f y n" and r: "reachable text0 n"
    and a: "y_server y a = Some s" and q: "y_queue y (sf_host f) a = (rid, m) # rest" "\<not> for_host m"
  shows "\<exists>t. handle_remote_message B v (sf_host f) rid m s = Some (t, Inr ()) \<and>
    servers_ok B f (post a t (emitted s t) (pop_mail (sf_host f) a y)) n"
proof -
  let ?h = "sf_host f" and ?y = "pop_mail (sf_host f) a y"
  from ok obtain H where H: "y_server y ?h = Some H" and p: "sv_host_id s = a"
      "part_ok B f (site_of H a) (n_peers n) s (ups f y a) (downs f y a)"
    using a by (auto elim!: servers_okD)
  have dn: "downs f y a = (rid, m) # downs f ?y a" by (rule pop_down(3) [OF q(1)]) (use q(2) in simp)
  have y1: "?y = y \<or> ?y = ?y \<and> y_queue y ?h a \<noteq> [] \<and> \<not> for_host (snd (hd (y_queue y ?h a)))"
    using q by simp
  have go: "servers_ok B f (post a t (emitted s t) ?y) n"
    if "hosted t = hosted s" "handle_remote_message B v ?h rid m s = Some (t, Inr ())"
      "\<And>b. b \<noteq> ?h \<Longrightarrow> mail_to b (emitted s t) = []" "list_all (\<lambda>x. for_host (snd x)) (mail_to ?h (emitted s t))"
      "part_ok B f (site_of H a) (n_peers n) t (ups f y a @ mail_to ?h (emitted s t)) (downs f ?y a)" for t
    by (rule client_step_ok [OF ok r a H y1 that(1), of v "Ev_remote ?h rid m"])
      (use that in \<open>simp_all add: server_step_def\<close>)
  show ?thesis using p(2)
  proof cases
    case (Answered i p sn rq)
    from Answered(2) dn have m: "rid = Some rq" "m = M_snapshot sn" "downs f ?y a = []" by auto
    have new: "already_opened ?h (sn_file_desc sn) (sv_remote_docs s) = None"
      using Answered(3,8) by (simp add: unopened_iff)
    have nx: "nx_req_id \<lparr>nx_req_id = Some rq\<rparr> = Some rq" by simp
    from snapshot_refines [OF B new nx Answered(9-11) refl Answered(12)] obtain t x where t:
        "handle_snapshot B \<lparr>nx_req_id = Some rq\<rparr> sn ?h s = Some t"
        "opens B (sf_doc f) (sf_ed f) t p []"
        "sv_out t = sv_out s @ [Respond rq x None, To_remote ?h (Some rq) (up_body (sf_doc f) (Request_ops (sn_seq sn)))]"
      using Answered(7,8) by (auto simp: sf_ed_def)
    note e = emitted_append [OF t(3)]
    have h: "handle_remote_message B v ?h rid m s = Some (t, Inr ())"
      using t(1) m by (simp add: handle_remote_message_def Let_def finish_def fine_def)
    have "part_ok B f (site_of H a) (n_peers n) t (ups f y a @ mail_to ?h (emitted s t)) (downs f ?y a)"
      using Answered(1,5,6,11) t(2) m(3) e
      by (intro part_ok.Opened [of _ i _ p _ _ _ "[]"]) simp_all
    then show ?thesis
      using go [OF hosted_snapshot [OF t(1)] h] e h by auto
  next
    case (Opened i p opss)
    from Opened(5) dn obtain ops more where o: "opss = ops # more" "m = M_op_from_server (sf_doc f) ops"
      "map snd (downs f ?y a) = map (M_op_from_server (sf_doc f)) more" by auto
    from op_from_server_refines [OF reachable_ok [OF r] Opened(2), of B "sf_doc f" "sf_ed f" s ops "concat more"
        "\<lparr>nx_req_id = rid\<rparr>"] Opened(6) o(1) obtain t outs where t:
        "handle_op_from_server \<lparr>nx_req_id = rid\<rparr> (sf_doc f) ops ?h s = Some t"
        "opens B (sf_doc f) (sf_ed f) t p (concat more)" "sv_out t = sv_out s @ outs"
        "\<forall>x \<in> set outs. \<exists>e. x = Notify RemoteOpsArrived e" by (auto simp: sf_ed_simps)
    note e = emitted_append [OF t(3)]
    have mail: "mail_to b outs = []" for b using t(4) by (induction outs) auto
    have h: "handle_remote_message B v ?h rid m s = Some (t, Inr ())"
      using t(1) o(2) by (simp add: handle_remote_message_def Let_def finish_def fine_def)
    have "part_ok B f (site_of H a) (n_peers n) t (ups f y a @ mail_to ?h (emitted s t)) (downs f ?y a)"
      using Opened(1-4) t(2) o(3) e mail by (intro part_ok.Opened [of _ i _ p _ _ _ more]) simp_all
    then show ?thesis
      using go [OF hosted_op_from_server [OF t(1)] h] e mail h by auto
  qed (use dn in simp_all)
qed

lemma acts_steps: "acts as n = Some n' \<Longrightarrow> net_step\<^sup>*\<^sup>* n n'"
proof (induction "as" arbitrary: n)
  case (Cons a "as")
  then obtain n1 where "net_step n n1" "acts as n1 = Some n'"
    by (auto simp: bind_eq_Some_conv intro: act_step)
  with Cons.IH [of n1] show ?case by (meson converse_rtranclp_into_rtranclp)
qed simp

text \<open>Edits that fit are handled without an error.\<close>

lemma editor_types:
  assumes B: "gapbuf_laws B" and ok: "servers_ok B f y n" and r: "reachable text0 n"
    and a: "y_server y a = Some s" and rd: "get_remote_doc s (sf_ed f) = Some (doc, rd)"
    and fit: "edits_fit ops (gb_iter B (r_buffer rd))"
  shows "\<exists>t n' x. handle_editor_request B v \<lparr>nx_req_id = Some rid\<rparr> (Rq_send_ops ops (sf_ed f)) s = Some (t, Inr ()) \<and>
    (\<exists>rd' w. Respond rid (SendOpsResp x) None \<in> set (emitted s t) \<and>
       get_remote_doc t (sf_ed f) = Some (doc, rd') \<and> r_remote_op_buffer rd' = [] \<and>
       view_edits (own_instructions ops) (gb_iter B (r_buffer rd)) = Some w \<and>
       view_edits (map el_op (sr_ops x)) w = Some (gb_iter B (r_buffer rd')) \<and>
       sr_doc_len x = length (gb_iter B (r_buffer rd')) \<and>
       sr_last_global_seq x = ce_seq (r_engine rd) + length (r_remote_op_buffer rd)) \<and>
    net_step\<^sup>*\<^sup>* n n' \<and> servers_ok B f (post a t (emitted s t) y) n'"
proof -
  let ?h = "sf_host f"
  from ok obtain H where H: "y_server y ?h = Some H"
      "part_ok B f (site_of H a) (n_peers n) s (ups f y a) (downs f y a)"
    using a by (auto elim!: servers_okD)
  from H(2) rd obtain i p opss where p: "site_of H a = Some i" "n_peers n i = Some p"
      "map snd (ups f y a) = map (up_body (sf_doc f)) (p_up p)" "\<And>m. m \<in> set (p_up p) \<Longrightarrow> about_doc (sf_doc f) m"
      "map snd (downs f y a) = map (M_op_from_server (sf_doc f)) opss" "opens B (sf_doc f) (sf_ed f) s p (concat opss)"
    by cases (auto simp: unopened_iff)
  have c: "p_buffer p = gb_iter B (r_buffer rd)" "doc = sf_doc f" "p_client p = r_engine rd"
      "p_down p = r_remote_op_buffer rd @ concat opss"
    using p(6) rd by (auto simp: opens_def copy_of_def)
  from edits_fit_acts [OF reachable_ok [OF r] p(2), of ops] fit c(1) obtain n1 p1 where n1: "acts (edit_actions i ops) n = Some n1"
      "n_peers n1 i = Some p1" "view_edits (own_instructions ops) (p_buffer p) = Some (p_buffer p1)"
      "ce_seq (p_client p1) = ce_seq (p_client p)" by auto
  have nx: "nx_req_id \<lparr>nx_req_id = Some rid\<rparr> = Some rid" by simp
  from send_ops_refines [OF B reachable_ok [OF r] p(2,6) n1(1) nx, unfolded sf_ed_simps(1)] n1(2) obtain t k n2 n3 p3 more x where t:
      "handle_send_ops_from_editor B \<lparr>nx_req_id = Some rid\<rparr> ops (sf_ed f) s = Some t"
      "acts (replicate k (A_take i)) n1 = Some n2"
      "n3 = n2 \<and> more = [] \<or> send_net n2 i (sf_doc f) = Some n3" "n_peers n3 i = Some p3"
      "opens B (sf_doc f) (sf_ed f) t p3 (concat opss)" "p_up p3 = p_up p @ more"
      "\<forall>m \<in> set more. about_doc (sf_doc f) m"
      "sv_out t = sv_out s @ map (\<lambda>m. To_remote ?h None (up_body (sf_doc f) m)) more @ [Respond rid (SendOpsResp x) None]"
      "view_edits (map el_op (sr_ops x)) (p_buffer p1) = Some (p_buffer p3)" "sr_doc_len x = length (p_buffer p3)"
      "sr_last_global_seq x + length (concat opss) = ce_seq (p_client p1) + length (p_down p)" "p_down p3 = concat opss"
    by blast
  obtain rd' where rd': "get_remote_doc t (sf_ed f) = Some (doc, rd')" "gb_iter B (r_buffer rd') = p_buffer p3"
      "r_remote_op_buffer rd' = []"
    using t(5,12) c(2) by (auto simp: opens_def copy_of_def)
  note e = emitted_append [OF t(8)]
  have mail: "mail_to b (map (\<lambda>m. To_remote ?h None (up_body (sf_doc f) m)) ms) =
      (if b = ?h then map (\<lambda>m. (None, up_body (sf_doc f) m)) ms else [])" for b ms
    by (induction ms) auto
  let ?as = "edit_actions i ops @ replicate k (A_take i) @ (if n3 = n2 \<and> more = [] then [] else [A_send i (sf_doc f)])"
  have as: "acts ?as n = Some n3" using n1(1) t(2,3) by (auto simp: acts_append)
  have "acts_of i ?as" by (auto simp: acts_of_def edit_actions_def)
  from client_acts_frame [OF as this, of B "sf_doc f"] have fr:
      "\<And>s. hosts B (sf_doc f) s n3 = hosts B (sf_doc f) s n" "dom (n_peers n3) = dom (n_peers n)"
      "\<And>j. j \<noteq> i \<Longrightarrow> n_peers n3 j = n_peers n j" by blast+
  have h: "handle_editor_request B v \<lparr>nx_req_id = Some rid\<rparr> (Rq_send_ops ops (sf_ed f)) s = Some (t, Inr ())"
    using t(1) by (simp add: handle_editor_request_def Let_def finish_def fine_def)
  have st: "server_step B v (Ev_editor (Editor_request rid (Rq_send_ops ops (sf_ed f)))) s = Some t"
    using h by (simp add: server_step_def handle_editor_message_def Let_def)
  have "part_ok B f (site_of H a) (n_peers n3) t (ups f y a @ mail_to ?h (emitted s t)) (downs f y a)"
    using p(1,3-5) t(4-7) by (intro part_ok.Opened [of _ i _ p3 _ _ _ opss]) (auto simp: e mail comp_def)
  then have "servers_ok B f (post a t (emitted s t) y) n3"
    by (intro client_step_ok [OF ok net_steps_reachable [OF acts_steps [OF as] r] a H(1) _ hosted_send_ops [OF t(1)] st fr(1,2)])
      (use fr(3) p(1) in \<open>auto simp: e mail list_all_iff\<close>)
  moreover have "sr_last_global_seq x = ce_seq (r_engine rd) + length (r_remote_op_buffer rd)"
    using t(11) n1(4) c(3,4) by simp
  ultimately show ?thesis
    using h acts_steps [OF as] e rd' n1(3) c(1) t(9,10)
    by (intro exI [of _ t] exI [of _ n3] exI [of _ x] conjI exI [of _ rd'] exI [of _ "p_buffer p1"]) simp_all
qed

section \<open>Opening\<close>

text \<open>A guest asks the host, or is told that it is not connected.\<close>

lemma guest_opens:
  assumes ok: "servers_ok B f y n" and r: "reachable text0 n" and a: "y_server y a = Some s" "a \<noteq> sf_host f"
    and un: "unopened f s" and q: "y_queue y a (sf_host f) = []" "y_queue y (sf_host f) a = []"
  shows "\<exists>t. handle_editor_request B v \<lparr>nx_req_id = Some rid\<rparr> (Rq_open_file (sf_ed f) mode) s = Some (t, Inr ()) \<and>
    servers_ok B f (post a t (emitted s t) y) n"
proof -
  let ?h = "sf_host f" and ?nx = "\<lparr>nx_req_id = Some rid\<rparr>"
  from ok obtain H where H: "y_server y ?h = Some H" "sv_host_id s = a" "sf_ok f"
      "part_ok B f (site_of H a) (n_peers n) s (ups f y a) (downs f y a)"
    using a by (auto elim!: servers_okD simp: host_ok_def)
  have ud: "ups f y a = []" "downs f y a = []" using q by (simp_all add: ups_def downs_def)
  have none: "n_peers n i = None" if "site_of H a = Some i" for i
    using H(4) ud un that by cases (auto simp: unopened_iff opens_def)
  define t where "t = (if remote_connected s ?h then send_to_remote ?nx ?h (M_request_file (sf_desc f) mode) s
    else emit (Respond rid Resp_unit (Some \<lparr>re_code = E_not_connected,
      re_message = Fmt ''Not connected to remote {}'' [A_str ?h]\<rparr>)) s)"
  have h: "handle_editor_request B v ?nx (Rq_open_file (sf_ed f) mode) s = Some (t, Inr ())"
    using H(2,3) a(2) un
    by (simp add: t_def handle_editor_request_def Let_def when_connected_def check_connection_def sf_ed_simps
        open_file_from_editor_def unopened_iff finish_def fine_def send_error_def send_resp_def)
  have st: "server_step B v (Ev_editor (Editor_request rid (Rq_open_file (sf_ed f) mode))) s = Some t"
    using h by (simp add: server_step_def handle_editor_message_def Let_def)
  have hosted: "hosted t = hosted s" and rds: "sv_remote_docs t = sv_remote_docs s"
    by (simp_all add: t_def send_to_remote_def emit_def hosted_def ids_def)
  have e: "emitted s t = (if remote_connected s ?h then [To_remote ?h (Some rid) (M_request_file (sf_desc f) mode)]
      else [Respond rid Resp_unit (Some \<lparr>re_code = E_not_connected,
        re_message = Fmt ''Not connected to remote {}'' [A_str ?h]\<rparr>)])"
    by (intro emitted_append) (simp add: t_def send_to_remote_def emit_def)
  have id: "sv_host_id t = a" using hosted H(2) by (simp add: hosted_def ids_def)
  have un': "unopened f t" using un unopened_cong [OF rds] by simp
  have "part_ok B f (site_of H a) (n_peers n) t (ups f y a @ mail_to ?h (emitted s t)) (downs f y a)"
    using part_ok.Fresh [OF un' none] part_ok.Asked [OF un' _ none] id a(2) by (simp add: e ud)
  then have "servers_ok B f (post a t (emitted s t) y) n"
    by (intro client_step_ok [OF ok r a(1) H(1) _ hosted st]) (auto simp: e)
  with h show ?thesis by blast
qed

text \<open>The host opens its own file: it joins, and is subscribed at once.\<close>

lemma join_and_serve:
  assumes r: "reachable text0 n" and none: "n_peers n i = None"
  shows "\<exists>n1 n' p. join_net n i = Some n1 \<and> serve_net n1 i = Some n' \<and> n_peers n' i = Some p \<and>
    p = \<lparr>p_client = client_engine_new i (se_seq (n_server n)) (se_doc (n_server n)), p_buffer = n_text n,
         p_up = [], p_down = []\<rparr> \<and>
    n_server n' = n_server n \<and> n_text n' = n_text n \<and> n_subs n' = (n_subs n)(i := Some 0) \<and>
    n_peers n' = (n_peers n)(i := Some p)"
proof -
  have "server_ok (start_cells text0) n" using reachable_ok [OF r] by (simp add: net_ok_def)
  then have "global_ops_after (n_server n) (se_seq (n_server n)) = []"
    by (simp add: server_ok_def Let_def global_ops_after_def ops_after_def n_ops_def)
  then show ?thesis using none by (simp add: join_net_def serve_net_def set_peer_def Let_def)
qed

lemma host_opens:
  assumes B: "gapbuf_laws B" and ok: "servers_ok B f y n" and r: "reachable text0 n"
    and H: "y_server y (sf_host f) = Some H" and un: "unopened f H" and q: "y_queue y (sf_host f) (sf_host f) = []"
  shows "\<exists>t n'. handle_editor_request B v \<lparr>nx_req_id = Some rid\<rparr> (Rq_open_file (sf_ed f) mode) H = Some (t, Inr ()) \<and>
    net_step\<^sup>*\<^sup>* n n' \<and> servers_ok B f (post (sf_host f) t (emitted H t) y) n'"
proof -
  let ?h = "sf_host f" and ?nx = "\<lparr>nx_req_id = Some rid\<rparr>" and ?doc = "sf_doc f" and ?i = "sv_site_id H"
  from ok H have p0: "sv_host_id H = ?h" "part_ok B f (site_of H ?h) (n_peers n) H (ups f y ?h) (downs f y ?h)"
    and hk: "host_ok B f H n" by (auto elim!: servers_okD)
  then obtain path e e' where hs: "sf_ok f" "hosts B ?doc H n" "server_reachable B H" "distinct (keys (sv_docs H))"
      "dom (n_peers n) \<subseteq> ran (site_of H)" "path_id_from_file_desc H (sf_desc f) = Inr path"
      "find_doc path (rev (sv_docs H)) = Some (?doc, e')" by (auto simp: host_ok_def)
  from hs(2) obtain d where d: "map_of (sv_docs H) ?doc = Some d" "d_engine d = n_server n"
      "gb_iter B (d_buffer d) = n_text n" "distinct (keys (d_subscribers d))"
      "\<forall>h. map_of (d_subscribers d) h = Option.bind (site_of H h) (n_subs n)"
      "inj_on (site_of H) (dom (site_of H))" by (auto simp: hosts_def)
  have "(?doc, e') \<in> set (sv_docs H)" using hs(7) by (auto simp: find_doc_def find_Some_iff) (metis nth_mem length_rev set_rev)
  with hs(4) d(1) have e': "e' = d" by (simp add: keys_def)
  have sh: "site_of H ?h = Some ?i" using p0(1) by (simp add: site_of_def)
  have ud: "ups f y ?h = []" "downs f y ?h = []" using q by (simp_all add: ups_def downs_def)
  have none: "n_peers n ?i = None" using p0(2) ud un sh by cases (auto simp: unopened_iff opens_def)
  from join_and_serve [OF r none] obtain n1 n' p where n': "join_net n ?i = Some n1" "serve_net n1 ?i = Some n'"
      "n_peers n' ?i = Some p"
      "p = \<lparr>p_client = client_engine_new ?i (se_seq (n_server n)) (se_doc (n_server n)), p_buffer = n_text n,
         p_up = [], p_down = []\<rparr>"
      "n_server n' = n_server n" "n_text n' = n_text n" "n_subs n' = (n_subs n)(?i := Some 0)"
      "n_peers n' = (n_peers n)(?i := Some p)" by blast
  have steps: "net_step\<^sup>*\<^sup>* n n'"
    using net_step.Join [OF n'(1)] net_step.Serve [OF n'(2)] by (meson rtranclp.simps)
  from buffer_of_ok [OF B] obtain b where b: "buffer_of B (n_text n) = Some b" "gb_iter B b = n_text n" by blast
  let ?d = "d\<lparr>d_subscribers := AList.update ?h 0 (d_subscribers d)\<rparr>"
  let ?rd = "\<lparr>r_name = d_name d, r_file_desc = sf_desc f, r_next_site_seq = 1, r_meta = [],
       r_remote_op_buffer = [], r_engine = p_client p, r_buffer = b\<rparr>"
  let ?s = "insert_remote_doc ?h ?doc ?rd (sf_ed f) (set_doc ?doc ?d H)"
  let ?t = "resend_watch_files (emit (Respond rid (OpenFileResp (n_text n) ?i (d_name d) (sf_ed f)) None) ?s)"
  have h: "handle_editor_request B v ?nx (Rq_open_file (sf_ed f) mode) H = Some (?t, Inr ())"
    using p0(1) hs(1,6,7) un d(2,3) b(1) n'(4) e'
    by (simp add: handle_editor_request_def Let_def when_connected_def check_connection_def sf_ed_simps
        open_file_from_editor_def open_local_file_def open_own_doc_def unopened_iff finish_def fine_def
        send_resp_def new_remote_doc_def set_doc_def get_remote_doc_def insert_remote_doc_def)
  have st: "server_step B v (Ev_editor (Editor_request rid (Rq_open_file (sf_ed f) mode))) H = Some ?t"
    using h by (simp add: server_step_def handle_editor_message_def Let_def)
  have same: "ids ?t = ids H" "sv_projects ?t = sv_projects H" "doc_names ?t = doc_names H" "sv_config ?t = sv_config H"
    using house_set_doc [OF d(1), of ?d]
    by (simp_all add: house_def insert_remote_doc_def resend_watch_files_def emit_def ids_def doc_names_def set_doc_def)
  have site: "site_of ?t = site_of H" by (rule site_of_ids [OF same(1)])
  have docs: "map_of (sv_docs ?t) ?doc = Some ?d"
    using set_doc_lookup [OF d(1), of ?d] by (simp add: insert_remote_doc_def resend_watch_files_def emit_def)
  have "hosts B ?doc ?t n'"
    using d(2-4,6) n'(5-7) subscribers_update [OF d(6) sh d(5)] unfolding hosts_def site docs
    by (simp add: keys_update)
  moreover have "server_reachable B ?t" by (rule server_reachable.step [OF hs(3) st])
  moreover have "dom (n_peers n') \<subseteq> ran (site_of H)"
    using hs(5) n'(8) sh by (auto simp: ran_def split: if_split_asm)
  ultimately have hk': "host_ok B f ?t n'" by (intro host_ok_same [OF hk same(1-3)])
  have out: "mail_to b' (emitted H ?t) = []" for b'
  proof -
    have "\<exists>w. emitted H ?t = [Respond rid (OpenFileResp (n_text n) ?i (d_name d) (sf_ed f)) None, Watch_files w]"
      by (simp add: emitted_def resend_watch_files_def emit_def insert_remote_doc_def set_doc_def)
    then show ?thesis by auto
  qed
  have get: "get_remote_doc ?t (sf_ed f) = Some (?doc, ?rd)"
    by (simp add: get_remote_doc_def get_by_editor_desc_def resend_watch_files_def emit_def insert_remote_doc_def
        set_doc_def rd_insert_def sf_ed_simps)
  then have op: "opens B ?doc (sf_ed f) ?t p []" using n'(4) b(2) by (simp add: opens_def copy_of_def client_engine_new_def)
  have "servers_ok B f (post ?h ?t (emitted H ?t) y) n'"
  proof (rule post_ok [OF ok H H refl subset_refl _ hk' same(4)])
    show "?t = (if ?h = ?h then ?t else H)" by simp
    show "sv_host_id ?t = sv_host_id H" using same(1) by (simp add: ids_def)
    show "list_all (\<lambda>x. \<not> for_host (snd x)) (mail_to c (emitted H ?t))" for c unfolding out by simp
    show "list_all (\<lambda>x. for_host (snd x)) (mail_to ?h (emitted H ?t))" unfolding out by simp
    fix b' s' assume b': "y_server y b' = Some s'"
      "part_ok B f (site_of H b') (n_peers n) s' (ups f y b') (downs f y b')"
    show "part_ok B f (site_of ?t b') (n_peers n') (if b' = ?h then ?t else s')
        (ups f (post ?h ?t (emitted H ?t) y) b') (downs f (post ?h ?t (emitted H ?t) y) b')"
    proof (cases "b' = ?h")
      case True
      have "part_ok B f (site_of H ?h) (n_peers n') ?t [] []"
        using sh n'(3,4) op by (intro part_ok.Opened [of _ ?i _ p _ _ _ "[]"]) simp_all
      then show ?thesis unfolding post_simps out site True ud by simp
    next
      case False
      have "n_peers n' j = n_peers n j" if "site_of H b' = Some j" for j
        using that sh False d(6) n'(8) by (metis domI inj_onD fun_upd_other)
      from part_ok_cong [OF b'(2) this] False show ?thesis unfolding post_simps out site by simp
    qed
  qed
  with h steps show ?thesis by blast
qed

section \<open>The servers simulate the session\<close>

lemma bystander_ok:
  assumes ok: "servers_ok B f y n" and r: "reachable text0 n" and a: "y_server y a = Some s"
    and st: "server_step B v ev s = Some t" and b: "bystander s t"
  shows "servers_ok B f (post a t (emitted s t) y) n"
proof -
  from ok obtain H where H: "y_server y (sf_host f) = Some H"
      "part_ok B f (site_of H a) (n_peers n) s (ups f y a) (downs f y a)"
    using a by (auto elim!: servers_okD)
  have k: "hosted t = hosted s" "sv_remote_docs t = sv_remote_docs s" "sv_host_id t = sv_host_id s"
    and mail: "mail_to c (emitted s t) = []" for c
    using b by (auto simp: bystander_def hosted_def ids_def)
  have "part_ok B f (site_of H a) (n_peers n) t (ups f y a @ mail_to (sf_host f) (emitted s t)) (downs f y a)"
    using part_ok_server [OF H(2) k(2,3)] by (simp add: mail)
  then show ?thesis
    by (intro client_step_ok [OF ok r a H(1) _ k(1) st]) (simp_all add: mail)
qed

text \<open>Every message that is next is handled without an error, by the host and by the others.\<close>

lemma delivery_handled:
  assumes B: "gapbuf_laws B" and ok: "servers_ok B f y n" and r: "reachable text0 n" and left: "ids_left f y"
    and ab: "a = sf_host f \<or> b = sf_host f" and q: "y_queue y a b = (rid, m) # rest" and b: "y_server y b = Some s"
  shows "\<exists>t n'. handle_remote_message B v a rid m s = Some (t, Inr ()) \<and>
    deliver_mail B v a b y = Some (post b t (emitted s t) (pop_mail a b y)) \<and> net_step\<^sup>*\<^sup>* n n' \<and>
    servers_ok B f (post b t (emitted s t) (pop_mail a b y)) n'"
proof -
  have del: "deliver_mail B v a b y = Some (post b t (emitted s t) (pop_mail a b y))"
    if "handle_remote_message B v a rid m s = Some (t, Inr ())" for t
    using q b that by (simp add: deliver_eq run_at_def server_step_def)
  have pure: "b \<noteq> sf_host f \<Longrightarrow> \<not> for_host m" "a \<noteq> sf_host f \<Longrightarrow> for_host m"
    using ok q ab by (auto elim!: servers_okD simp: list_all_iff)
  show ?thesis
  proof (cases "for_host m")
    case True
    with pure have "b = sf_host f" by blast
    with host_handles [OF B ok r left, of a rid m rest v] q b True del show ?thesis by auto
  next
    case False
    with pure have "a = sf_host f" by blast
    with client_handles [OF B ok r b, of rid m rest v] q False del show ?thesis by blast
  qed
qed

lemma servers_start_ok:
  assumes "servers_start B f text0 y"
  shows "servers_ok B f y (net_start text0)"
proof -
  from assms obtain H path d d' where h: "sf_ok f" "y_server y (sf_host f) = Some H" "server_reachable B H"
      "distinct (keys (sv_docs H))" "hosts B (sf_doc f) H (net_start text0)" "ids_left f y"
      "path_id_from_file_desc H (sf_desc f) = Inr path" "find_doc path (sv_docs H) = Some (sf_doc f, d)"
      "find_doc path (rev (sv_docs H)) = Some (sf_doc f, d')"
      "\<forall>a s. y_server y a = Some s \<longrightarrow> sv_host_id s = a \<and> unopened f s \<and> write_allowed (sv_config H) a"
      "\<forall>a b. y_queue y a b = []" by (auto simp: servers_start_def)
  have "host_ok B f H (net_start text0)"
    using h(1-9) by (auto simp: host_ok_def ids_left_def net_start_def)
  moreover have "part_ok B f (site_of H a) (n_peers (net_start text0)) s (ups f y a) (downs f y a)"
    if "y_server y a = Some s" for a s
    using part_ok.Fresh [of f s "site_of H a" "n_peers (net_start text0)" B] that h(10,11)
    by (simp add: ups_def downs_def net_start_def)
  ultimately show ?thesis using h(2,10,11) unfolding servers_ok_def by (intro conjI exI [of _ H]) auto
qed

lemma servers_step_ok:
  assumes B: "gapbuf_laws B" and ok: "servers_ok B f y n" and r: "reachable text0 n" and st: "servers_step B f y y'"
  shows "\<exists>n'. net_step\<^sup>*\<^sup>* n n' \<and> servers_ok B f y' n'"
  using st
proof cases
  case (Opens a s v rid mode)
  show ?thesis
  proof (cases "a = sf_host f")
    case True
    from host_opens [OF B ok r _ _ _, of s v rid mode] Opens True obtain t n' where
      "handle_editor_request B v \<lparr>nx_req_id = Some rid\<rparr> (Rq_open_file (sf_ed f) mode) s = Some (t, Inr ())"
      "net_step\<^sup>*\<^sup>* n n'" "servers_ok B f (post a t (emitted s t) y) n'" by auto
    with Opens show ?thesis by (auto simp: run_at_def server_step_def handle_editor_message_def Let_def)
  next
    case False
    from guest_opens [OF ok r Opens(1) False Opens(2,3,4), of v rid mode] obtain t where
      "handle_editor_request B v \<lparr>nx_req_id = Some rid\<rparr> (Rq_open_file (sf_ed f) mode) s = Some (t, Inr ())"
      "servers_ok B f (post a t (emitted s t) y) n" by auto
    with Opens show ?thesis by (auto simp: run_at_def server_step_def handle_editor_message_def Let_def)
  qed
next
  case (Types a s doc rd ops v rid)
  from editor_types [OF B ok r Types(1,2,3), of v rid] obtain t n' where
    "handle_editor_request B v \<lparr>nx_req_id = Some rid\<rparr> (Rq_send_ops ops (sf_ed f)) s = Some (t, Inr ())"
    "net_step\<^sup>*\<^sup>* n n'" "servers_ok B f (post a t (emitted s t) y) n'" by auto
  with Types show ?thesis by (auto simp: run_at_def server_step_def handle_editor_message_def Let_def)
next
  case (Delivers a b v)
  then obtain rid m rest s where "y_queue y a b = (rid, m) # rest" "y_server y b = Some s"
    by (auto simp: deliver_eq run_at_def split: list.split_asm bind_split_asm)
  from delivery_handled [OF B ok r Delivers(2,1) this, of v] Delivers(3) show ?thesis by auto
next
  case (Other a s v ev t)
  with bystander_ok [OF ok r Other(1-3)] show ?thesis by (auto simp: run_at_def)
qed

lemma reaches_reachable: "reaches (\<lambda>n. n = net_start text0) net_step n \<Longrightarrow> reachable text0 n"
  by (induction rule: reaches.induct) (auto intro: reachable.intros)

interpretation servers: simulation
  "\<lambda>y. gapbuf_laws B \<and> servers_start B f text0 y" "servers_step B f"
  "\<lambda>n. n = net_start text0" net_step "\<lambda>y n. gapbuf_laws B \<and> servers_ok B f y n"
  for B :: "'b gapbuf_ops" and f text0
proof
  show "\<exists>n. n = net_start text0 \<and> gapbuf_laws B \<and> servers_ok B f y n"
    if "gapbuf_laws B \<and> servers_start B f text0 y" for y
    using that servers_start_ok by blast
  show "\<exists>n'. net_step\<^sup>*\<^sup>* n n' \<and> gapbuf_laws B \<and> servers_ok B f y' n'"
    if "reaches (\<lambda>n. n = net_start text0) net_step n" "gapbuf_laws B \<and> servers_ok B f y n" "servers_step B f y y'"
    for n y y'
    using servers_step_ok [OF _ _ reaches_reachable [OF that(1)] that(3)] that(2) by blast
qed

lemma servers_session:
  assumes "gapbuf_laws B" and "servers_reachable B f text0 y"
  shows "\<exists>n. reachable text0 n \<and> servers_ok B f y n"
  using servers.sim.reached [of B f text0 y] assms reaches_reachable [of text0]
  by (auto simp: servers_reachable_def)

end
