(* ===== verification/Servers_Theorems.thy ===== *)
theory Servers_Theorems
  imports Servers_Correct
begin

text \<open>
  What servers that edit a file together can rely on: when everything sent has been handled, every
  copy shows what the host has; no message and no fitting edit ever fails. The sample has a host
  and two guests.
\<close>

section \<open>A run of three servers\<close>

datatype doing = D_open server_id | D_type server_id "editor_fat_op list" | D_mail server_id server_id

definition deed_event :: "shared_file \<Rightarrow> editor_request \<Rightarrow> server_event" where
  "deed_event f rq = Ev_editor (Editor_request 9 rq)"

fun deed :: "shared_file \<Rightarrow> doing \<Rightarrow> utext servers \<Rightarrow> utext servers option" where
  "deed f (D_open a) y =
     (case y_server y a of
        Some s \<Rightarrow> if unopened f s \<and> y_queue y a (sf_host f) = [] \<and> y_queue y (sf_host f) a = []
          then run_at list_gapbuf sample_env (deed_event f (Rq_open_file (sf_ed f) Mode_open)) a y else None
      | None \<Rightarrow> None)"
| "deed f (D_type a ops) y = do {
     s \<leftarrow> y_server y a;
     (doc, rd) \<leftarrow> get_remote_doc s (sf_ed f);
     (if edits_fit ops (r_buffer rd)
      then run_at list_gapbuf sample_env (deed_event f (Rq_send_ops ops (sf_ed f))) a y else None) }"
| "deed f (D_mail a b) y =
     (if (a = sf_host f \<or> b = sf_host f) \<and> ids_left f y then deliver_mail list_gapbuf sample_env a b y else None)"

fun deeds :: "shared_file \<Rightarrow> doing list \<Rightarrow> utext servers \<Rightarrow> utext servers option" where
  "deeds f [] y = Some y"
| "deeds f (d # ds) y = Option.bind (deed f d y) (deeds f ds)"

lemma list_gapbuf_iter: "gb_iter list_gapbuf b = b"
  by (simp add: list_gapbuf_def)

lemma deed_step:
  assumes "deed f d y = Some y'"
  shows "servers_step list_gapbuf f y y'"
proof (cases d)
  case (D_open a)
  with assms show ?thesis
    by (auto simp: deed_event_def split: option.split_asm if_split_asm intro: servers_step.Opens)
next
  case (D_type a ops)
  with assms obtain s doc rd where "y_server y a = Some s" "get_remote_doc s (sf_ed f) = Some (doc, rd)"
      "edits_fit ops (gb_iter list_gapbuf (r_buffer rd))"
      "run_at list_gapbuf sample_env (deed_event f (Rq_send_ops ops (sf_ed f))) a y = Some y'"
    by (auto simp: list_gapbuf_iter split: bind_split_asm if_split_asm)
  then show ?thesis unfolding deed_event_def by (rule servers_step.Types)
next
  case (D_mail a b)
  with assms show ?thesis by (auto split: if_split_asm intro: servers_step.Delivers)
qed

lemma deeds_reachable:
  "deeds f ds y = Some y' \<Longrightarrow> servers_reachable list_gapbuf f text0 y \<Longrightarrow> servers_reachable list_gapbuf f text0 y'"
proof (induction ds arbitrary: y)
  case (Cons d ds)
  then obtain y1 where "deed f d y = Some y1" "deeds f ds y1 = Some y'" by (auto simp: bind_eq_Some_conv)
  with Cons deed_step show ?case unfolding servers_reachable_def by (blast intro: reaches.Next)
qed simp

definition sample_file :: shared_file where
  "sample_file = \<lparr>sf_host = ''me'', sf_project = ''p'', sf_name = ''a'', sf_doc = 1\<rparr>"

definition connected_guest :: "server_id \<Rightarrow> utext server" where
  "connected_guest a =
     (server_new_with_keycert a a config_default ''k'')
       \<lparr>sv_current_world := world_default\<lparr>w_remotes := [(''me'', \<lparr>rs_transport = SCTP ''s'', rs_status = R_connected, rs_ever_connected = True,
         rs_retry_stride = 1, rs_connection_id = 5\<rparr>)]\<rparr>\<rparr>"

text \<open>The same on tables, so that a run can be evaluated.\<close>

type_synonym tables =
  "(server_id, utext server) hash_map \<times> (server_id \<times> server_id, mail list) hash_map"

definition queue_of :: "(server_id \<times> server_id, mail list) hash_map \<Rightarrow> server_id \<Rightarrow> server_id \<Rightarrow> mail list" where
  "queue_of qs a b = (case map_of qs (a, b) of Some q \<Rightarrow> q | None \<Rightarrow> [])"

definition of_tables :: "tables \<Rightarrow> utext servers" where
  "of_tables T = \<lparr>y_server = map_of (fst T), y_queue = queue_of (snd T)\<rparr>"

fun post_mail :: "server_id \<Rightarrow> out list \<Rightarrow> (server_id \<times> server_id, mail list) hash_map \<Rightarrow> _" where
  "post_mail a [] qs = qs"
| "post_mail a (To_remote h rid m # outs) qs =
     post_mail a outs (AList.update (a, h) (queue_of qs a h @ [(rid, m)]) qs)"
| "post_mail a (_ # outs) qs = post_mail a outs qs"

lemma post_mail_queue:
  "queue_of (post_mail a outs qs) x b = (if x = a then queue_of qs x b @ mail_to b outs else queue_of qs x b)"
  by (induction a outs qs rule: post_mail.induct) (auto simp: queue_of_def)

definition run_tables :: "server_event \<Rightarrow> server_id \<Rightarrow> tables \<Rightarrow> tables option" where
  "run_tables ev a T = do {
     s \<leftarrow> map_of (fst T) a;
     t \<leftarrow> server_step list_gapbuf sample_env ev s;
     Some (AList.update a t (fst T), post_mail a (emitted s t) (snd T)) }"

lemma run_tables: "run_at list_gapbuf sample_env ev a (of_tables T) = map_option of_tables (run_tables ev a T)"
  by (auto simp: run_at_def run_tables_def of_tables_def post_def post_mail_queue update_conv' fun_eq_iff
      split: bind_splits)

definition take_mail :: "server_id \<Rightarrow> server_id \<Rightarrow> tables \<Rightarrow> tables option" where
  "take_mail a b T =
     (case queue_of (snd T) a b of
        [] \<Rightarrow> None
      | (rid, m) # rest \<Rightarrow> run_tables (Ev_remote a rid m) b (fst T, AList.update (a, b) rest (snd T)))"

lemma take_mail: "deliver_mail list_gapbuf sample_env a b (of_tables T) = map_option of_tables (take_mail a b T)"
proof -
  have "(of_tables T)\<lparr>y_queue := (y_queue (of_tables T))(a := (y_queue (of_tables T) a)(b := rest))\<rparr> =
      of_tables (fst T, AList.update (a, b) rest (snd T))" for rest
    by (auto simp: of_tables_def queue_of_def fun_eq_iff)
  moreover have "y_queue (of_tables T) a b = queue_of (snd T) a b" by (simp add: of_tables_def)
  ultimately show ?thesis
    unfolding deliver_mail_def take_mail_def by (auto simp: run_tables split: list.split)
qed

fun deed_tab :: "shared_file \<Rightarrow> doing \<Rightarrow> tables \<Rightarrow> tables option" where
  "deed_tab f (D_open a) T =
     (case map_of (fst T) a of
        Some s \<Rightarrow> if unopened f s \<and> queue_of (snd T) a (sf_host f) = [] \<and> queue_of (snd T) (sf_host f) a = []
          then run_tables (deed_event f (Rq_open_file (sf_ed f) Mode_open)) a T else None
      | None \<Rightarrow> None)"
| "deed_tab f (D_type a ops) T = do {
     s \<leftarrow> map_of (fst T) a;
     (doc, rd) \<leftarrow> get_remote_doc s (sf_ed f);
     (if edits_fit ops (r_buffer rd)
      then run_tables (deed_event f (Rq_send_ops ops (sf_ed f))) a T else None) }"
| "deed_tab f (D_mail a b) T =
     (if (a = sf_host f \<or> b = sf_host f) \<and>
         (case map_of (fst T) (sf_host f) of Some s \<Rightarrow> int (length (sv_site_id_map s)) < 4294967294 | None \<Rightarrow> False)
      then take_mail a b T else None)"

fun deeds_tab :: "shared_file \<Rightarrow> doing list \<Rightarrow> tables \<Rightarrow> tables option" where
  "deeds_tab f [] T = Some T"
| "deeds_tab f (d # ds) T = Option.bind (deed_tab f d T) (deeds_tab f ds)"

lemma deed_tab: "deed f d (of_tables T) = map_option of_tables (deed_tab f d T)"
proof (cases d)
  case (D_open a)
  then show ?thesis
    by (cases "map_of (fst T) a")
      (simp_all add: of_tables_def [of T, THEN arg_cong, of y_server] of_tables_def [of T, THEN arg_cong, of y_queue] run_tables)
next
  case (D_type a ops)
  then show ?thesis
    by (auto simp: of_tables_def [of T, THEN arg_cong, of y_server] run_tables split: bind_splits)
next
  case (D_mail a b)
  then show ?thesis
    by (simp add: take_mail ids_left_def of_tables_def [of T, THEN arg_cong, of y_server] split: option.split)
qed

lemma deeds_tab: "deeds f ds (of_tables T) = map_option of_tables (deeds_tab f ds T)"
  by (induction ds arbitrary: T) (auto simp: deed_tab split: bind_splits)

definition sample_tables :: tables where
  "sample_tables = ([(''me'', the (server_run [guest_event] sample_server)), (''b'', connected_guest ''b''),
     (''c'', connected_guest ''c'')], [])"

definition start_facts where
  "start_facts H =
     ((sf_ok sample_file, distinct (keys (sv_docs H)), length (sv_site_id_map H), sv_host_id H, unopened sample_file H,
       list_all (write_allowed (sv_config H)) [''me'', ''b'', ''c'']),
      path_id_from_file_desc H (sf_desc sample_file), map_option fst (find_doc (Path_id ''/p/a'') (sv_docs H)),
      map_option fst (find_doc (Path_id ''/p/a'') (rev (sv_docs H))))"

lemma sample_start: "servers_start list_gapbuf sample_file [97, 98] (of_tables sample_tables)"
proof -
  obtain H where H: "server_run [guest_event] sample_server = Some H" "server_reachable list_gapbuf H"
      "hosts list_gapbuf 1 H (net_start [97, 98])" by (rule guest_hosted)
  have "map_option start_facts (server_run [guest_event] sample_server) =
    Some ((True, True, 1, ''me'', True, True), Inr (Path_id ''/p/a''), Some 1, Some 1)"
    by code_simp
  then have "start_facts H = ((True, True, 1, ''me'', True, True), Inr (Path_id ''/p/a''), Some 1, Some 1)"
    unfolding H(1) by simp
  then obtain d d' where h: "sf_ok sample_file" "distinct (keys (sv_docs H))" "length (sv_site_id_map H) = 1"
      "path_id_from_file_desc H (sf_desc sample_file) = Inr (Path_id ''/p/a'')"
      "find_doc (Path_id ''/p/a'') (sv_docs H) = Some (1, d)" "find_doc (Path_id ''/p/a'') (rev (sv_docs H)) = Some (1, d')"
      "sv_host_id H = ''me''" "unopened sample_file H" "\<forall>a \<in> {''me'', ''b'', ''c''}. write_allowed (sv_config H) a"
    by (auto simp: start_facts_def)
  have g: "sv_host_id (connected_guest a) = a" "unopened sample_file (connected_guest a)" for a
    by (simp_all add: connected_guest_def server_new_with_keycert_def unopened_iff get_remote_doc_def
        get_by_editor_desc_def rd_new_def already_opened_def)
  have f: "sf_host sample_file = ''me''" "sf_doc sample_file = 1" by (simp_all add: sample_file_def)
  have y: "y_server (of_tables sample_tables) = [''c'' \<mapsto> connected_guest ''c'', ''b'' \<mapsto> connected_guest ''b'', ''me'' \<mapsto> H]"
      "y_queue (of_tables sample_tables) = (\<lambda>_ _. [])"
    unfolding of_tables_def sample_tables_def H(1) by (auto simp: queue_of_def fun_eq_iff)
  show ?thesis
    unfolding servers_start_def ids_left_def y f
    using h H(2,3) g by (intro conjI exI [of _ H]) (auto split: if_split_asm)
qed

lemma sample_reachable:
  assumes "deeds_tab sample_file ds sample_tables = Some T"
  shows "servers_reachable list_gapbuf sample_file [97, 98] (of_tables T)"
proof -
  have "servers_reachable list_gapbuf sample_file [97, 98] (of_tables sample_tables)"
    unfolding servers_reachable_def by (rule reaches.Begin) (rule sample_start)
  moreover have "deeds sample_file ds (of_tables sample_tables) = Some (of_tables T)"
    by (simp only: deeds_tab assms option.map)
  ultimately show ?thesis by (rule deeds_reachable [rotated])
qed

section \<open>What servers can rely on\<close>

text \<open>Nothing is on the way between a server and the host, and no copy holds back ops.\<close>

definition all_quiet :: "shared_file \<Rightarrow> 'b servers \<Rightarrow> bool" where
  "all_quiet f y \<longleftrightarrow>
     (\<forall>a s. y_server y a = Some s \<longrightarrow>
        y_queue y a (sf_host f) = [] \<and> y_queue y (sf_host f) a = [] \<and>
        (\<forall>doc rd. get_remote_doc s (sf_ed f) = Some (doc, rd) \<longrightarrow>
           r_remote_op_buffer rd = [] \<and> pending_local_ops (r_engine rd) = 0))"

text \<open>C2: Servers converge. The host of a file has just opened it, with an engine for as many characters as
  the text has, and its permissions let everybody write. However many servers open the file, each
  once, the host included, and edit it with insertions and deletions at the same time (nothing else is
  done to it), each through its own editor, with messages delivered in any order that is FIFO between two servers: when every
  message between them and the host has been handled and no copy has ops that wait to be run or to be
  sent, every copy has the text the host has. (A file that is not ASCII gets an engine for more
  characters than it has, and a server that may not write keeps the op it was refused: neither is
  covered.)\<close>

theorem servers_converge:
  assumes "gapbuf_laws B" and "servers_reachable B f text0 y" and "all_quiet f y"
    and "y_server y a = Some s" and "get_remote_doc s (sf_ed f) = Some (doc, rd)"
  shows "\<exists>H d. y_server y (sf_host f) = Some H \<and> doc = sf_doc f \<and> map_of (sv_docs H) (sf_doc f) = Some d \<and>
    gb_iter B (r_buffer rd) = gb_iter B (d_buffer d)"
proof -
  from servers_session [OF assms(1,2)] obtain n H where n: "reachable text0 n" "y_server y (sf_host f) = Some H"
      "host_ok B f H n" "part_ok B f (site_of H a) (n_peers n) s (ups f y a) (downs f y a)"
    using assms(4) by (auto elim!: servers_okD)
  have q: "ups f y a = []" "downs f y a = []" using assms(3,4) by (simp_all add: all_quiet_def ups_def downs_def)
  from n(3) obtain d where d: "map_of (sv_docs H) (sf_doc f) = Some d" "gb_iter B (d_buffer d) = n_text n"
    by (auto simp: host_ok_def hosts_def)
  from n(4) show ?thesis
  proof cases
    case (Opened i p opss)
    have dn: "concat opss = []" using Opened(5) q by simp
    have r: "doc = sf_doc f" "copy_of B rd p" "p_down p = r_remote_op_buffer rd"
      using Opened(6) assms(5) dn by (auto simp: opens_def)
    have "p_down p = []" "pending_local_ops (p_client p) = 0" "p_up p = []"
      using r assms(3-5) Opened(3) q unfolding all_quiet_def copy_of_def by fastforce+
    with site_converged(1) [OF reachable_ok [OF n(1)] Opened(2)] r(2) d(2) have
      "gb_iter B (r_buffer rd) = gb_iter B (d_buffer d)" by (simp add: copy_of_def)
    with n(2) r(1) d(1) show ?thesis by blast
  qed (use q assms(5) in \<open>simp_all add: unopened_iff\<close>)
qed

text \<open>The host opens its file and a guest asks for it.\<close>

definition copy_facts where
  "copy_facts H = (length (sv_site_id_map H), map_option (map_prod id r_buffer) (get_remote_doc H (sf_ed sample_file)))"

definition open_facts where
  "open_facts T = (map_option copy_facts (map_of (fst T) ''me''), queue_of (snd T) ''b'' ''me'')"

lemma two_open:
  obtains T H rd s where "servers_reachable list_gapbuf sample_file [97, 98] (of_tables T)"
    and "ids_left sample_file (of_tables T)" and "y_server (of_tables T) ''me'' = Some H"
    and "get_remote_doc H (sf_ed sample_file) = Some (1, rd)" and "r_buffer rd = [97, 98]"
    and "y_queue (of_tables T) ''b'' ''me'' = [(Some 9, M_request_file (sf_desc sample_file) Mode_open)]"
proof -
  have "map_option open_facts (deeds_tab sample_file [D_open ''me'', D_open ''b''] sample_tables) =
    Some (Some (1, Some (1, [97, 98])), [(Some 9, M_request_file (sf_desc sample_file) Mode_open)])"
    by code_simp
  then obtain T where t: "deeds_tab sample_file [D_open ''me'', D_open ''b''] sample_tables = Some T"
      "open_facts T = (Some (1, Some (1, [97, 98])), [(Some 9, M_request_file (sf_desc sample_file) Mode_open)])"
    by blast
  then obtain H rd where "map_of (fst T) ''me'' = Some H" "length (sv_site_id_map H) = 1"
      "get_remote_doc H (sf_ed sample_file) = Some (1, rd)" "r_buffer rd = [97, 98]"
      "queue_of (snd T) ''b'' ''me'' = [(Some 9, M_request_file (sf_desc sample_file) Mode_open)]"
    by (auto simp: open_facts_def copy_facts_def)
  then show thesis
    using that [of T H rd] sample_reachable [OF t(1)]
    by (simp add: of_tables_def ids_left_def) (simp add: sample_file_def)
qed

definition quiet_copy :: "shared_file \<Rightarrow> utext server \<Rightarrow> bool" where
  "quiet_copy f s = (case get_remote_doc s (sf_ed f) of
     Some (doc, rd) \<Rightarrow> List.null (r_remote_op_buffer rd) \<and> pending_local_ops (r_engine rd) = 0 | None \<Rightarrow> True)"

definition quiet_tab :: "shared_file \<Rightarrow> tables \<Rightarrow> bool" where
  "quiet_tab f T \<longleftrightarrow> list_all (\<lambda>x. List.null (snd x)) (snd T) \<and> list_all (\<lambda>x. quiet_copy f (snd x)) (fst T)"

lemma quiet_tab: "quiet_tab f T \<Longrightarrow> all_quiet f (of_tables T)"
  by (fastforce simp: quiet_tab_def all_quiet_def of_tables_def queue_of_def list_all_iff quiet_copy_def
      split: option.split dest: map_of_SomeD)

text \<open>
  The host and a guest have the file open. Both edit before anything is delivered; a second guest
  opens the file in between.
\<close>

definition three_edit :: "doing list" where
  "three_edit =
     [D_open ''me'', D_open ''b'', D_mail ''b'' ''me'', D_mail ''me'' ''b'', D_mail ''b'' ''me'',
      D_type ''me'' [\<lparr>ef_op = EIns 0 [5], ef_group_seq = 1\<rparr>],
      D_type ''b'' [\<lparr>ef_op = EDel 1 [98], ef_group_seq = 1\<rparr>, \<lparr>ef_op = EIns 0 [6], ef_group_seq = 1\<rparr>],
      D_mail ''b'' ''me'', D_open ''c'', D_mail ''me'' ''me'', D_mail ''c'' ''me'', D_mail ''me'' ''c'',
      D_mail ''c'' ''me'', D_mail ''me'' ''me'', D_mail ''me'' ''me'', D_mail ''me'' ''b'', D_mail ''me'' ''b'',
      D_type ''me'' [], D_type ''b'' [], D_type ''c'' []]"

definition text_at :: "tables \<Rightarrow> server_id \<Rightarrow> utext option" where
  "text_at T a = Option.bind (map_of (fst T) a)
     (\<lambda>s. map_option (\<lambda>(doc, rd). r_buffer rd) (get_remote_doc s (sf_ed sample_file)))"

definition end_facts where
  "end_facts T = (quiet_tab sample_file T, text_at T ''me'', text_at T ''b'', text_at T ''c'')"

lemma three_edit_ends:
  "map_option end_facts (deeds_tab sample_file three_edit sample_tables) =
     Some (True, Some [5, 6, 97], Some [5, 6, 97], Some [5, 6, 97])"
  by code_simp

lemma servers_converge_witness:
  "\<exists>y H d s doc rd. servers_reachable list_gapbuf sample_file [97, 98] y \<and> all_quiet sample_file y \<and>
     y_server y ''c'' = Some s \<and> get_remote_doc s (sf_ed sample_file) = Some (doc, rd) \<and> r_buffer rd = [5, 6, 97] \<and>
     y_server y ''me'' = Some H \<and> map_of (sv_docs H) 1 = Some d \<and> d_buffer d = [5, 6, 97]"
proof -
  obtain T where T: "deeds_tab sample_file three_edit sample_tables = Some T" "quiet_tab sample_file T"
      "text_at T ''c'' = Some [5, 6, 97]"
    using three_edit_ends by (auto simp: end_facts_def)
  then obtain s doc rd where s: "map_of (fst T) ''c'' = Some s"
      "get_remote_doc s (sf_ed sample_file) = Some (doc, rd)" "r_buffer rd = [5, 6, 97]"
    by (auto simp: text_at_def bind_eq_Some_conv)
  note r = sample_reachable [OF T(1)] and q = quiet_tab [OF T(2)]
  have y: "y_server (of_tables T) ''c'' = Some s" using s(1) by (simp add: of_tables_def)
  from servers_converge [OF list_gapbuf_laws r q y s(2)] obtain H d where
      "y_server (of_tables T) ''me'' = Some H" "map_of (sv_docs H) 1 = Some d" "d_buffer d = [5, 6, 97]"
    using s(3) by (auto simp: list_gapbuf_iter sample_file_def)
  with r q y s show ?thesis by blast
qed

text \<open>C3: No message fails. When the host has opened the file with an engine for as many characters as the
  text has (not so for a file that is not ASCII), everybody may write and each editor opens the file
  once: whatever message about it is next between the host and another server, or from the host to
  itself, its handler neither panics nor returns an error, as long as the host has site ids left.\<close>

theorem servers_handle_all:
  assumes "gapbuf_laws B" and "servers_reachable B f text0 y" and "ids_left f y"
    and "a = sf_host f \<or> b = sf_host f" and "y_queue y a b = (rid, m) # rest" and "y_server y b = Some s"
  shows "\<exists>t. handle_remote_message B v a rid m s = Some (t, Inr ())"
  using servers_session [OF assms(1,2)] delivery_handled [OF assms(1) _ _ assms(3-6)] by blast

lemma servers_handle_all_witness:
  "\<exists>y H t. servers_reachable list_gapbuf sample_file [97, 98] y \<and> y_server y ''me'' = Some H \<and>
     handle_remote_message list_gapbuf sample_env ''b'' (Some 9) (M_request_file (sf_desc sample_file) Mode_open) H =
       Some (t, Inr ())"
proof -
  obtain T H where "servers_reachable list_gapbuf sample_file [97, 98] (of_tables T)"
      "ids_left sample_file (of_tables T)" "y_server (of_tables T) ''me'' = Some H"
      "y_queue (of_tables T) ''b'' ''me'' = [(Some 9, M_request_file (sf_desc sample_file) Mode_open)]"
    by (rule two_open)
  with servers_handle_all [OF list_gapbuf_laws, of sample_file "[97, 98]" "of_tables T" "''b''" "''me''"]
  show ?thesis by (fastforce simp: sample_file_def)
qed

text \<open>C4: No edit that fits fails. At any moment of such servers (the file opened as above, everybody may
  write, each editor opens it once), a request with insertions and deletions that fit what the editor
  shows succeeds and is answered with what has arrived meanwhile: all that was buffered has been
  taken, and the instructions of the answer, run on what the editor shows after its own edits, lead
  to the text of the copy.\<close>

theorem servers_accept_edits:
  assumes "gapbuf_laws B" and "servers_reachable B f text0 y" and "y_server y a = Some s"
    and "get_remote_doc s (sf_ed f) = Some (doc, rd)" and "edits_fit ops (gb_iter B (r_buffer rd))"
  shows "\<exists>t r rd' w. handle_editor_request B v \<lparr>nx_req_id = Some rid\<rparr> (Rq_send_ops ops (sf_ed f)) s = Some (t, Inr ()) \<and>
    Respond rid (SendOpsResp r) None \<in> set (emitted s t) \<and>
    get_remote_doc t (sf_ed f) = Some (doc, rd') \<and> r_remote_op_buffer rd' = [] \<and>
    view_edits (own_instructions ops) (gb_iter B (r_buffer rd)) = Some w \<and>
    view_edits (map el_op (sr_ops r)) w = Some (gb_iter B (r_buffer rd')) \<and>
    sr_doc_len r = length (gb_iter B (r_buffer rd')) \<and>
    sr_last_global_seq r = ce_seq (r_engine rd) + length (r_remote_op_buffer rd)"
  using servers_session [OF assms(1,2)] editor_types [OF assms(1) _ _ assms(3-5)] by blast

lemma servers_accept_edits_witness:
  "\<exists>H t r rd' w. handle_editor_request list_gapbuf sample_env \<lparr>nx_req_id = Some 3\<rparr>
     (Rq_send_ops [\<lparr>ef_op = EDel 0 [97], ef_group_seq = 1\<rparr>] (sf_ed sample_file)) H = Some (t, Inr ()) \<and>
     Respond 3 (SendOpsResp r) None \<in> set (emitted H t) \<and>
     get_remote_doc t (sf_ed sample_file) = Some (1, rd') \<and>
     view_edits (own_instructions [\<lparr>ef_op = EDel 0 [97], ef_group_seq = 1\<rparr>]) [97, 98] = Some w \<and>
     view_edits (map el_op (sr_ops r)) w = Some (r_buffer rd')"
proof -
  obtain T H rd where t: "servers_reachable list_gapbuf sample_file [97, 98] (of_tables T)"
      "y_server (of_tables T) ''me'' = Some H" "get_remote_doc H (sf_ed sample_file) = Some (1, rd)"
      "r_buffer rd = [97, 98]"
    by (rule two_open)
  have "edits_fit [\<lparr>ef_op = EDel 0 [97], ef_group_seq = 1\<rparr>] (gb_iter list_gapbuf (r_buffer rd))"
    by (simp add: t(4) list_gapbuf_iter) code_simp
  from servers_accept_edits [OF list_gapbuf_laws t(1-3) this, of sample_env 3] show ?thesis
    unfolding t(4) list_gapbuf_iter by blast
qed

section \<open>Opening a file twice\<close>

text \<open>
  The step \<open>Opens\<close> asks that the file is not open. When the host opens its own file a second time, the
  copy it has goes on numbering its ops, but the document expects the number 1 again: the next op
  of the host's own editor is refused with \<open>DocFatal\<close>, and copy and document differ.
\<close>

definition reopen :: "tables \<Rightarrow> tables option" where
  "reopen T = do {
     T1 \<leftarrow> deeds_tab sample_file [D_open ''me'', D_type ''me'' [\<lparr>ef_op = EIns 0 [5], ef_group_seq = 1\<rparr>],
       D_mail ''me'' ''me'', D_mail ''me'' ''me'', D_type ''me'' []] T;
     T2 \<leftarrow> run_tables (deed_event sample_file (Rq_open_file (sf_ed sample_file) Mode_open)) ''me'' T1;
     deeds_tab sample_file [D_type ''me'' [\<lparr>ef_op = EIns 0 [6], ef_group_seq = 2\<rparr>], D_mail ''me'' ''me''] T2 }"

lemma reopening_breaks_host:
  "map_option (\<lambda>T. (queue_of (snd T) ''me'' ''me'', text_at T ''me'',
      map_option (\<lambda>H. map_option d_buffer (map_of (sv_docs H) 1)) (map_of (fst T) ''me''))) (reopen sample_tables) =
   Some ([(None, M_doc_fatal 1 (Fmt ''Site seq mismatch: expected {}, got {}'' [A_num 1, A_num 2]))],
     Some [6, 5, 97, 98], Some (Some [5, 97, 98]))"
  by code_simp

end
