(* ===== verification/Errors.thy ===== *)
theory Errors
  imports Runtime
begin

text \<open>
  The errors of \<open>error.rs\<close>: those of the program and those of its remote calls, their texts, and how
  errors of other crates and of a remote become errors here. Of an error of another crate only its
  text is seen.
\<close>

section \<open>Errors of remote calls\<close>

datatype webrpc_error =
    Webrpc_signaling fmt_text
  | Webrpc_times_up nat
  | Webrpc_ice fmt_text
  | Webrpc_sctp fmt_text
  | Webrpc_dtls fmt_text
  | Webrpc_parse fmt_text
  | Webrpc_crypto fmt_text
  | Webrpc_data_channel fmt_text
  | Webrpc_request_closed
  | Webrpc_timeout nat
  | Webrpc_not_listening

definition webrpc_text :: "webrpc_error \<Rightarrow> fmt_text" where
  "webrpc_text e =
     (case e of
        Webrpc_signaling t \<Rightarrow> Fmt ''Signaling error {0}'' [A_fmt t]
      | Webrpc_times_up h \<Rightarrow> Fmt ''Allocated time ({0}h) on the signaling server is up'' [A_num h]
      | Webrpc_ice t \<Rightarrow> Fmt ''ICE error {0}'' [A_fmt t]
      | Webrpc_sctp t \<Rightarrow> Fmt ''SCTP error {0}'' [A_fmt t]
      | Webrpc_dtls t \<Rightarrow> Fmt ''DTLS error {0}'' [A_fmt t]
      | Webrpc_parse t \<Rightarrow> Fmt ''Can't parse message: {0}'' [A_fmt t]
      | Webrpc_crypto t \<Rightarrow> Fmt ''Can't parse key or certificate: {0}'' [A_fmt t]
      | Webrpc_data_channel t \<Rightarrow> Fmt ''Data channel error {0}'' [A_fmt t]
      | Webrpc_request_closed \<Rightarrow> lit ''The other end stopped listening for responses for this request''
      | Webrpc_timeout s \<Rightarrow> Fmt ''Sync request timed out after {0}s'' [A_num s]
      | Webrpc_not_listening \<Rightarrow> lit ''Remote host aren't handling requests'')"

text \<open>The conversions, each from the text of the error of a crate.\<close>

definition webrpc_from_bincode :: "fmt_text \<Rightarrow> webrpc_error" where
  "webrpc_from_bincode t = Webrpc_parse t"

definition webrpc_from_signaling :: "fmt_text \<Rightarrow> webrpc_error" where
  "webrpc_from_signaling t = Webrpc_signaling t"

definition webrpc_from_ice :: "fmt_text \<Rightarrow> webrpc_error" where
  "webrpc_from_ice t = Webrpc_ice t"

definition webrpc_from_sctp :: "fmt_text \<Rightarrow> webrpc_error" where
  "webrpc_from_sctp t = Webrpc_sctp t"

definition webrpc_from_dtls :: "fmt_text \<Rightarrow> webrpc_error" where
  "webrpc_from_dtls t = Webrpc_dtls t"

definition webrpc_from_pem :: "fmt_text \<Rightarrow> webrpc_error" where
  "webrpc_from_pem t = Webrpc_crypto (Fmt ''{:#?}'' [A_fmt t])"

section \<open>Errors of the program\<close>

datatype collab_error =
    Collab_fatal fmt_text
  | Collab_doc_fatal fmt_text
  | Collab_engine fmt_text
  | Collab_doc_exists nat
  | Collab_bad_request fmt_text
  | Collab_doc_not_found nat
  | Collab_file_not_found fmt_text
  | Collab_not_connected string
  | Collab_not_regular fmt_text
  | Collab_not_directory fmt_text
  | Collab_unsupported fmt_text
  | Collab_not_initialized
  | Collab_auto_save nat fmt_text
  | Collab_rpc fmt_text
  | Collab_accept fmt_text
  | Collab_times_up nat

definition collab_text :: "collab_error \<Rightarrow> fmt_text" where
  "collab_text e =
     (case e of
        Collab_fatal t \<Rightarrow> Fmt ''Fatal server error ({0})'' [A_fmt t]
      | Collab_doc_fatal t \<Rightarrow> Fmt ''Doc fatal error ({0})'' [A_fmt t]
      | Collab_engine t \<Rightarrow> Fmt ''Fatal OT engine error ({0})'' [A_fmt t]
      | Collab_doc_exists d \<Rightarrow> Fmt ''Doc({0}) already exists'' [A_num d]
      | Collab_bad_request t \<Rightarrow> Fmt ''Bad request ({0})'' [A_fmt t]
      | Collab_doc_not_found d \<Rightarrow> Fmt ''Cannot find Doc({0})'' [A_num d]
      | Collab_file_not_found t \<Rightarrow> Fmt ''Cannot find file on disk: {0}'' [A_fmt t]
      | Collab_not_connected i \<Rightarrow> Fmt ''Not connected to Server({0})'' [A_str i]
      | Collab_not_regular t \<Rightarrow> Fmt ''{0} is not a regular file'' [A_fmt t]
      | Collab_not_directory t \<Rightarrow> Fmt ''{0} is not a directory'' [A_fmt t]
      | Collab_unsupported t \<Rightarrow> Fmt ''{0} is not supported'' [A_fmt t]
      | Collab_not_initialized \<Rightarrow> lit ''The first request must be Initialize request''
      | Collab_auto_save d t \<Rightarrow> Fmt ''Error autosaving Doc({0}): {1}'' [A_num d, A_fmt t]
      | Collab_rpc t \<Rightarrow> Fmt ''Rpc error ({0})'' [A_fmt t]
      | Collab_accept t \<Rightarrow> Fmt ''Error accepting remote connections ({0})'' [A_fmt t]
      | Collab_times_up h \<Rightarrow> Fmt ''Allocated listening time ({0}h) on the signaling server is up'' [A_num h])"

text \<open>
  A remote's error as seen here: what is fatal for the remote, or broke the connection to it, is
  fatal for the document only. The derived \<open>Debug\<close> of an error is an argument.
\<close>

definition convert_remote_err :: "(collab_error \<Rightarrow> fmt_text) \<Rightarrow> collab_error \<Rightarrow> collab_error" where
  "convert_remote_err dbg e =
     (case e of
        Collab_fatal _ \<Rightarrow> Collab_doc_fatal (Fmt ''Remote fatal error: {:#?}'' [A_fmt (dbg e)])
      | Collab_doc_fatal _ \<Rightarrow> Collab_doc_fatal (Fmt ''Remote fatal error: {:#?}'' [A_fmt (dbg e)])
      | Collab_rpc _ \<Rightarrow> Collab_doc_fatal (Fmt ''Remote fatal error: {:#?}'' [A_fmt (dbg e)])
      | _ \<Rightarrow> e)"

definition collab_from_engine :: "engine_error \<Rightarrow> collab_error" where
  "collab_from_engine e = Collab_engine (Fmt ''{:#?}'' [A_err e])"

definition collab_from_json :: "fmt_text \<Rightarrow> collab_error" where
  "collab_from_json t = Collab_rpc (Fmt ''{:#}'' [A_fmt t])"

definition collab_from_rcgen :: "fmt_text \<Rightarrow> collab_error" where
  "collab_from_rcgen t = Collab_fatal (Fmt ''Key error: {:#}'' [A_fmt t])"

definition collab_from_webrpc :: "webrpc_error \<Rightarrow> collab_error" where
  "collab_from_webrpc e =
     (case e of
        Webrpc_times_up h \<Rightarrow> Collab_times_up h
      | _ \<Rightarrow> Collab_rpc (Fmt ''{:#}'' [A_fmt (webrpc_text e)]))"

definition collab_from_pem :: "fmt_text \<Rightarrow> collab_error" where
  "collab_from_pem t = Collab_fatal (Fmt ''Failed to parse PEM file {:#?}'' [A_fmt t])"

section \<open>A remote cannot stop the program\<close>

text \<open>Errors that end the program, and errors that only break a connection.\<close>

fun ends_program :: "collab_error \<Rightarrow> bool" where
  "ends_program (Collab_fatal _) \<longleftrightarrow> True"
| "ends_program _ \<longleftrightarrow> False"

lemma remote_err_not_fatal: "\<not> ends_program (convert_remote_err dbg e)"
  by (cases e) (simp_all add: convert_remote_err_def)

lemma remote_err_kept:
  "convert_remote_err dbg e = e \<or> (\<exists>t. convert_remote_err dbg e = Collab_doc_fatal t)"
  by (cases e) (simp_all add: convert_remote_err_def)

text \<open>A failed remote call of a remote is fatal for the document here, unless the time was up.\<close>

lemma remote_webrpc_err:
  "convert_remote_err dbg (collab_from_webrpc e) =
     (case e of Webrpc_times_up h \<Rightarrow> Collab_times_up h
      | _ \<Rightarrow> Collab_doc_fatal (Fmt ''Remote fatal error: {:#?}'' [A_fmt (dbg (collab_from_webrpc e))]))"
  by (cases e) (simp_all add: collab_from_webrpc_def convert_remote_err_def)

end
