(* ===== verification/Ice.thy ===== *)
theory Ice
  imports Web_Channel Errors Machines "HOL-Library.Multiset"
begin

text \<open>
  Making an ICE connection (\<open>ice.rs\<close>): the credentials of the two agents go over a socket of the
  signaling client, then the candidates, while one agent dials and the other accepts. An event is what
  the function, one of its tasks, or a callback of the agent does between two waits. The agent
  (crate \<open>webrtc_ice\<close>) is an argument of the events.
\<close>

section \<open>State\<close>

record ice_credential =
  ic_ufrag :: string
  ic_pwd :: string

text \<open>The states of an agent the code looks at; any other has its text.\<close>

datatype agent_state = Agent_failed | Agent_disconnected | Agent_closed | Agent_other string

text \<open>JSON, the text form of candidates, whose type is a parameter, and the texts of states.\<close>

record 'c ice_env =
  iv_to_json :: "ice_credential \<Rightarrow> fmt_text + string"
  iv_from_json :: "string \<Rightarrow> fmt_text + ice_credential"
  iv_marshal :: "'c \<Rightarrow> string"
  iv_unmarshal :: "string \<Rightarrow> fmt_text + 'c"
  iv_state_text :: "agent_state \<Rightarrow> string"

datatype ice_phase =
    Making_agent
  | Sending_sdp
  | Receiving_sdp
  | Dialing
  | Joining "webrpc_error + unit"
  | Ice_returned "webrpc_error + unit"
  | Ice_panicked

datatype candidate_task = Not_started | Taking | Reporting webrpc_error | Task_ended

text \<open>
  The socket's two channels hold one SDP and a hundred candidates. \<open>ic_found\<close> is what the agent has
  found, \<open>ic_added\<close> what it was given; \<open>ic_spawned\<close> are the tasks that each send one candidate.
\<close>

record 'c ice =
  ic_controlling :: bool
  ic_sock :: sock
  ic_phase :: ice_phase
  ic_local :: "ice_credential option"
  ic_peer :: "ice_credential option"
  ic_sdps :: "string list"
  ic_candidates :: "string list"
  ic_senders :: bool
  ic_task :: candidate_task
  ic_connected :: bool
  ic_err :: "webrpc_error list"
  ic_progress :: "agent_state list"
  ic_callbacks :: bool
  ic_found :: "'c list"
  ic_added :: "'c list"
  ic_spawned :: "string list"
  ic_sent :: "command list"
  ic_forwarded :: "msg list"

definition SDP_QUEUE :: nat where "SDP_QUEUE = 1"
definition CANDIDATE_QUEUE :: nat where "CANDIDATE_QUEUE = 100"

definition ice_new :: "bool \<Rightarrow> sock \<Rightarrow> 'c ice" where
  "ice_new controlling k =
     \<lparr>ic_controlling = controlling, ic_sock = k, ic_phase = Making_agent, ic_local = None, ic_peer = None,
      ic_sdps = [], ic_candidates = [], ic_senders = True, ic_task = Not_started, ic_connected = False,
      ic_err = [], ic_progress = [], ic_callbacks = False, ic_found = [], ic_added = [], ic_spawned = [],
      ic_sent = [], ic_forwarded = []\<rparr>"

text \<open>When the function returns, its locals are dropped, the sender of \<open>connected\<close> among them.\<close>

definition ice_return :: "webrpc_error + unit \<Rightarrow> 'c ice \<Rightarrow> 'c ice" where
  "ice_return r c = c\<lparr>ic_phase := Ice_returned r, ic_connected := True\<rparr>"

text \<open>The function holds the receiver of the error channel, and it or its task the socket.\<close>

definition error_rx_open :: "'c ice \<Rightarrow> bool" where
  "error_rx_open c \<longleftrightarrow> (case ic_phase c of Dialing \<Rightarrow> True | Joining _ \<Rightarrow> True | _ \<Rightarrow> False)"

definition sock_open :: "'c ice \<Rightarrow> bool" where
  "sock_open c \<longleftrightarrow>
     (case ic_task c of
        Taking \<Rightarrow> True
      | Reporting _ \<Rightarrow> True
      | Task_ended \<Rightarrow> False
      | Not_started \<Rightarrow> (case ic_phase c of Ice_returned _ \<Rightarrow> False | Ice_panicked \<Rightarrow> False | _ \<Rightarrow> True))"

section \<open>The function\<close>

definition make_ice_agent :: "fmt_text + ice_credential \<Rightarrow> 'c ice \<Rightarrow> 'c ice" where
  "make_ice_agent res c =
     (case res of
        Inl e \<Rightarrow> ice_return (Inl (webrpc_from_ice e)) c
      | Inr cred \<Rightarrow> c\<lparr>ic_phase := Sending_sdp, ic_local := Some cred\<rparr>)"

text \<open>Our SDP is sent, or the channel to the signaling client is closed.\<close>

definition ice_send_sdp :: "'c ice_env \<Rightarrow> bool \<Rightarrow> ice_credential \<Rightarrow> 'c ice \<Rightarrow> 'c ice" where
  "ice_send_sdp v sent cred c =
     (case iv_to_json v cred of
        Inl e \<Rightarrow> ice_return (Inl (Webrpc_parse (Fmt ''Failed to serialize ICE credential: {}'' [A_fmt e]))) c
      | Inr sdp \<Rightarrow>
          if sent then c\<lparr>ic_phase := Receiving_sdp, ic_sent := ic_sent c @ [send_sdp (ic_sock c) sdp]\<rparr>
          else ice_return (Inl (Webrpc_signaling (lit ''Signaling channel closed''))) c)"

definition get_ice_credential_from_sdp :: "'c ice_env \<Rightarrow> string \<Rightarrow> webrpc_error + ice_credential" where
  "get_ice_credential_from_sdp v sdp =
     (case iv_from_json v sdp of
        Inl e \<Rightarrow> Inl (Webrpc_parse (Fmt ''Failed to parse ICE credential: {}'' [A_fmt e]))
      | Inr cred \<Rightarrow> Inr cred)"

text \<open>
  The callbacks are set and the task is started; then gathering candidates starts or fails. When it
  fails, the function returns and the task goes on.
\<close>

definition ice_exchange_candidates_with_sock :: "fmt_text + unit \<Rightarrow> 'c ice \<Rightarrow> 'c ice" where
  "ice_exchange_candidates_with_sock gather c =
     (let c = c\<lparr>ic_callbacks := True, ic_task := Taking\<rparr>
      in case gather of
           Inl e \<Rightarrow> ice_return (Inl (webrpc_from_ice e)) c
         | Inr _ \<Rightarrow> c\<lparr>ic_phase := Dialing\<rparr>)"

definition ice_receive_sdp :: "'c ice_env \<Rightarrow> fmt_text + unit \<Rightarrow> 'c ice \<Rightarrow> 'c ice option" where
  "ice_receive_sdp v gather c =
     (case ic_sdps c of
        [] \<Rightarrow>
          if ic_senders c then None
          else Some (ice_return (Inl (Webrpc_signaling (lit ''SDP channel closed''))) c)
      | sdp # sdps \<Rightarrow>
          (let c = c\<lparr>ic_sdps := sdps\<rparr>
           in case get_ice_credential_from_sdp v sdp of
                Inl e \<Rightarrow> Some (ice_return (Inl e) c)
              | Inr cred \<Rightarrow>
                  if sock_cert_hash (ic_sock c) = None then Some (c\<lparr>ic_phase := Ice_panicked\<rparr>)
                  else Some (ice_exchange_candidates_with_sock gather (c\<lparr>ic_peer := Some cred\<rparr>))))"

text \<open>
  \<open>select!\<close>: the agent's dial or accept ends, or an error has been reported. An error of the dial
  returns at once, without stopping the task.
\<close>

definition ice_dialed :: "fmt_text + unit \<Rightarrow> 'c ice \<Rightarrow> 'c ice" where
  "ice_dialed res c =
     (case res of
        Inl e \<Rightarrow> ice_return (Inl (webrpc_from_ice e)) c
      | Inr _ \<Rightarrow> c\<lparr>ic_phase := Joining (Inr ()), ic_connected := True\<rparr>)"

definition ice_reported :: "'c ice \<Rightarrow> 'c ice option" where
  "ice_reported c =
     (case ic_err c of
        [] \<Rightarrow> None
      | e # es \<Rightarrow> Some (c\<lparr>ic_phase := Joining (Inl e), ic_connected := True, ic_err := es\<rparr>))"

section \<open>Callbacks and tasks\<close>

definition ice_state_change :: "agent_state \<Rightarrow> 'c ice \<Rightarrow> 'c ice" where
  "ice_state_change st c =
     (let c = (if ic_progress c = [] then c\<lparr>ic_progress := [st]\<rparr> else c);
          fail = (\<lambda>d. if error_rx_open c \<and> ic_err c = []
                      then c\<lparr>ic_err := [Webrpc_ice (Fmt ''Connection {}'' [A_str d])]\<rparr> else c)
      in case st of
           Agent_failed \<Rightarrow> fail ''failed''
         | Agent_disconnected \<Rightarrow> fail ''broke''
         | Agent_closed \<Rightarrow> fail ''closed''
         | Agent_other _ \<Rightarrow> c)"

text \<open>The agent has found a candidate, or has found all. Each is sent by a task of its own.\<close>

definition ice_found_candidate :: "'c ice_env \<Rightarrow> 'c option \<Rightarrow> 'c ice \<Rightarrow> 'c ice" where
  "ice_found_candidate v x c =
     (case x of
        None \<Rightarrow> c
      | Some x \<Rightarrow>
          (let c = c\<lparr>ic_found := ic_found c @ [x]\<rparr>
           in if ic_connected c then c else c\<lparr>ic_spawned := ic_spawned c @ [iv_marshal v x]\<rparr>))"

definition ice_send_candidate :: "nat \<Rightarrow> bool \<Rightarrow> 'c ice \<Rightarrow> 'c ice option" where
  "ice_send_candidate n sent c =
     (if n < length (ic_spawned c)
      then (let x = ic_spawned c ! n;
                c = c\<lparr>ic_spawned := take n (ic_spawned c) @ drop (Suc n) (ic_spawned c)\<rparr>
            in Some (if sent then c\<lparr>ic_sent := ic_sent c @ [send_candidate (ic_sock c) x]\<rparr> else c))
      else None)"

text \<open>The task takes a candidate and adds it to the agent, which may refuse it.\<close>

definition ice_take_candidate :: "'c ice_env \<Rightarrow> fmt_text + unit \<Rightarrow> 'c ice \<Rightarrow> 'c ice option" where
  "ice_take_candidate v add c =
     (case ic_candidates c of
        [] \<Rightarrow> if ic_senders c then None else Some (c\<lparr>ic_task := Task_ended\<rparr>)
      | x # xs \<Rightarrow>
          (let c = c\<lparr>ic_candidates := xs\<rparr>
           in Some (case iv_unmarshal v x of
                Inl e \<Rightarrow> c\<lparr>ic_task := Reporting (webrpc_from_ice e)\<rparr>
              | Inr x \<Rightarrow>
                  (case add of
                     Inl e \<Rightarrow> c\<lparr>ic_task := Reporting (webrpc_from_ice e)\<rparr>
                   | Inr _ \<Rightarrow> c\<lparr>ic_added := ic_added c @ [x]\<rparr>))))"

definition ice_report :: "webrpc_error \<Rightarrow> 'c ice \<Rightarrow> 'c ice option" where
  "ice_report e c =
     (if error_rx_open c
      then if ic_err c = [] then Some (c\<lparr>ic_err := [e], ic_task := Task_ended\<rparr>) else None
      else Some (c\<lparr>ic_task := Task_ended\<rparr>))"

text \<open>The task of \<open>establish_sctp\<close> that tells the server of the progress.\<close>

definition ice_forward :: "'c ice_env \<Rightarrow> 'c ice \<Rightarrow> 'c ice option" where
  "ice_forward v c =
     (case ic_progress c of
        [] \<Rightarrow> None
      | p # ps \<Rightarrow>
          Some (c\<lparr>ic_progress := ps,
                  ic_forwarded := ic_forwarded c @ [M_ice_progress (so_peer_id (ic_sock c)) (iv_state_text v p)]\<rparr>))"

text \<open>What the signaling client puts into the socket: it waits for room, and drops what no one receives.\<close>

definition sdp_arrives :: "string \<Rightarrow> 'c ice \<Rightarrow> 'c ice option" where
  "sdp_arrives x c =
     (if \<not> sock_open c then Some c
      else if length (ic_sdps c) < SDP_QUEUE then Some (c\<lparr>ic_sdps := ic_sdps c @ [x]\<rparr>)
      else None)"

definition candidate_arrives :: "string \<Rightarrow> 'c ice \<Rightarrow> 'c ice option" where
  "candidate_arrives x c =
     (if \<not> sock_open c then Some c
      else if length (ic_candidates c) < CANDIDATE_QUEUE then Some (c\<lparr>ic_candidates := ic_candidates c @ [x]\<rparr>)
      else None)"

section \<open>Steps\<close>

datatype 'c ice_event =
    Ie_agent "fmt_text + ice_credential"
  | Ie_send_sdp bool
  | Ie_receive_sdp "fmt_text + unit"
  | Ie_dialed "fmt_text + unit"
  | Ie_reported
  | Ie_join
  | Ie_state agent_state
  | Ie_forward
  | Ie_found "'c option"
  | Ie_send_candidate nat bool
  | Ie_take_candidate "fmt_text + unit"
  | Ie_report
  | Ie_senders_gone

definition ice_step :: "'c ice_env \<Rightarrow> 'c ice_event \<Rightarrow> 'c ice \<Rightarrow> 'c ice option" where
  "ice_step v ev c =
     (case ev of
        Ie_agent res \<Rightarrow> (case ic_phase c of Making_agent \<Rightarrow> Some (make_ice_agent res c) | _ \<Rightarrow> None)
      | Ie_send_sdp sent \<Rightarrow>
          (case (ic_phase c, ic_local c) of
             (Sending_sdp, Some cred) \<Rightarrow> Some (ice_send_sdp v sent cred c)
           | _ \<Rightarrow> None)
      | Ie_receive_sdp gather \<Rightarrow> (case ic_phase c of Receiving_sdp \<Rightarrow> ice_receive_sdp v gather c | _ \<Rightarrow> None)
      | Ie_dialed res \<Rightarrow> (case ic_phase c of Dialing \<Rightarrow> Some (ice_dialed res c) | _ \<Rightarrow> None)
      | Ie_reported \<Rightarrow> (case ic_phase c of Dialing \<Rightarrow> ice_reported c | _ \<Rightarrow> None)
      | Ie_join \<Rightarrow>
          (case ic_phase c of
             Joining r \<Rightarrow> Some (ice_return r (c\<lparr>ic_task := Task_ended\<rparr>))
           | _ \<Rightarrow> None)
      | Ie_state st \<Rightarrow> if ic_callbacks c then Some (ice_state_change st c) else None
      | Ie_forward \<Rightarrow> ice_forward v c
      | Ie_found x \<Rightarrow> if ic_callbacks c then Some (ice_found_candidate v x c) else None
      | Ie_send_candidate n sent \<Rightarrow> ice_send_candidate n sent c
      | Ie_take_candidate add \<Rightarrow> (case ic_task c of Taking \<Rightarrow> ice_take_candidate v add c | _ \<Rightarrow> None)
      | Ie_report \<Rightarrow> (case ic_task c of Reporting e \<Rightarrow> ice_report e c | _ \<Rightarrow> None)
      | Ie_senders_gone \<Rightarrow> Some (c\<lparr>ic_senders := False\<rparr>))"

section \<open>Both ends\<close>

text \<open>
  \<open>as_server\<close> of \<open>connect_with_sock\<close>. Two servers connect over their sockets; the signaling
  server carries what each sends to the other in order, or loses it.
\<close>

definition as_server :: "server_id \<Rightarrow> server_id \<Rightarrow> bool" where
  "as_server my_id peer_id \<longleftrightarrow> stream_id_init my_id peer_id = STREAM_ID_SERVER_INIT"

definition ice_end :: "server_id \<Rightarrow> server_id \<Rightarrow> 'c ice" where
  "ice_end i j = ice_new (as_server i j) \<lparr>so_my_id = i, so_peer_id = j\<rparr>"

definition carry :: "'c ice \<times> 'c ice \<Rightarrow> ('c ice \<times> 'c ice) option" where
  "carry p =
     (case ic_sent (fst p) of
        Cmd_send (SM_sdp _ _ x) # rest \<Rightarrow> map_option (Pair ((fst p)\<lparr>ic_sent := rest\<rparr>)) (sdp_arrives x (snd p))
      | Cmd_send (SM_candidate _ _ x) # rest \<Rightarrow>
          map_option (Pair ((fst p)\<lparr>ic_sent := rest\<rparr>)) (candidate_arrives x (snd p))
      | _ \<Rightarrow> None)"

definition lose :: "'c ice \<times> 'c ice \<Rightarrow> ('c ice \<times> 'c ice) option" where
  "lose p = (case ic_sent (fst p) of [] \<Rightarrow> None | _ # rest \<Rightarrow> Some ((fst p)\<lparr>ic_sent := rest\<rparr>, snd p))"

datatype 'c end_move = Own "'c ice_event" | Carried | Lost

fun move_end :: "'c ice_env \<Rightarrow> 'c end_move \<Rightarrow> 'c ice \<times> 'c ice \<Rightarrow> ('c ice \<times> 'c ice) option" where
  "move_end v (Own ev) p = map_option (\<lambda>a. (a, snd p)) (ice_step v ev (fst p))"
| "move_end v Carried p = carry p"
| "move_end v Lost p = lose p"

text \<open>Either end moves: the flag says whether it is the second.\<close>

definition ends_move :: "'c ice_env \<Rightarrow> bool \<times> 'c end_move \<Rightarrow> 'c ice \<times> 'c ice \<Rightarrow> ('c ice \<times> 'c ice) option" where
  "ends_move v m p =
     (if fst m then map_option prod.swap (move_end v (snd m) (prod.swap p)) else move_end v (snd m) p)"

definition ends_step :: "'c ice_env \<Rightarrow> 'c ice \<times> 'c ice \<Rightarrow> 'c ice \<times> 'c ice \<Rightarrow> bool" where
  "ends_step v p q \<longleftrightarrow> (\<exists>m. ends_move v m p = Some q)"

definition ends_start :: "server_id \<Rightarrow> server_id \<Rightarrow> 'c ice \<times> 'c ice \<Rightarrow> bool" where
  "ends_start i j p \<longleftrightarrow> i \<noteq> j \<and> p = (ice_end i j, ice_end j i)"

section \<open>What the ends know of each other\<close>

definition ice_laws :: "'c ice_env \<Rightarrow> bool" where
  "ice_laws v \<longleftrightarrow> (\<forall>c x. iv_to_json v c = Inr x \<longrightarrow> iv_from_json v x = Inr c) \<and>
     (\<forall>c. iv_unmarshal v (iv_marshal v c) = Inr c)"

fun sdp_in :: "command \<Rightarrow> string list" where
  "sdp_in (Cmd_send (SM_sdp _ _ x)) = [x]"
| "sdp_in _ = []"

fun candidate_in :: "command \<Rightarrow> string list" where
  "candidate_in (Cmd_send (SM_candidate _ _ x)) = [x]"
| "candidate_in _ = []"

text \<open>The SDPs and the candidates of the first end on their way to the second.\<close>

definition sdps_between :: "'c ice \<Rightarrow> 'c ice \<Rightarrow> string list" where
  "sdps_between a b = ic_sdps b @ concat (map sdp_in (ic_sent a))"

definition candidates_between :: "'c ice \<Rightarrow> 'c ice \<Rightarrow> string list" where
  "candidates_between a b = ic_candidates b @ concat (map candidate_in (ic_sent a)) @ ic_spawned a"

text \<open>
  The second end has the credentials of the first, and candidates the first has found, each at
  most as often as it was found.
\<close>

definition learns :: "'c ice_env \<Rightarrow> 'c ice \<Rightarrow> 'c ice \<Rightarrow> bool" where
  "learns v a b \<longleftrightarrow>
     (ic_phase a = Making_agent \<longrightarrow> ic_local a = None) \<and>
     (\<forall>c. ic_peer b = Some c \<longrightarrow> ic_local a = Some c) \<and>
     (\<forall>x \<in> set (sdps_between a b). \<exists>c. ic_local a = Some c \<and> iv_to_json v c = Inr x) \<and>
     (\<exists>M. mset (candidates_between a b) = image_mset (iv_marshal v) M \<and> mset (ic_added b) + M \<subseteq># mset (ic_found a))"

lemma taken_out: "n < length xs \<Longrightarrow> add_mset (xs ! n) (mset (take n xs) + mset (drop (Suc n) xs)) = mset xs"
  by (metis id_take_nth_drop mset.simps(2) mset_append union_mset_add_mset_right)

text \<open>One candidate less on the way.\<close>

lemma one_less:
  assumes "add_mset x N = image_mset f M" and "A + M \<subseteq># F"
  obtains c M1 where "x = f c" and "N = image_mset f M1" and "add_mset c (A + M1) \<subseteq># F"
  using msed_map_invR [OF assms(1) [symmetric]] assms(2) by auto

text \<open>Steps that neither send nor receive.\<close>

definition idle_step :: "'c ice \<Rightarrow> 'c ice \<Rightarrow> bool" where
  "idle_step c c' \<longleftrightarrow> (ic_phase c' = Making_agent \<longrightarrow> ic_phase c = Making_agent) \<and>
     ic_local c' = ic_local c \<and> ic_peer c' = ic_peer c \<and> ic_sdps c' = ic_sdps c \<and> ic_candidates c' = ic_candidates c \<and>
     ic_found c' = ic_found c \<and> ic_added c' = ic_added c \<and> ic_spawned c' = ic_spawned c \<and> ic_sent c' = ic_sent c"

lemma idle_learns:
  "idle_step a a' \<Longrightarrow> idle_step b b' \<Longrightarrow> learns v a b \<Longrightarrow> learns v a' b'"
  unfolding idle_step_def learns_def sdps_between_def candidates_between_def by metis

lemma idle_refl: "idle_step c c"
  by (simp add: idle_step_def)

lemma idle_return: "idle_step c (ice_return r c)"
  by (simp add: idle_step_def ice_return_def)

definition quiet_event :: "'c ice_event \<Rightarrow> bool" where
  "quiet_event ev \<longleftrightarrow>
     (case ev of Ie_agent _ \<Rightarrow> False | Ie_send_sdp _ \<Rightarrow> False | Ie_receive_sdp _ \<Rightarrow> False | Ie_found _ \<Rightarrow> False
      | Ie_send_candidate _ _ \<Rightarrow> False | Ie_take_candidate _ \<Rightarrow> False | _ \<Rightarrow> True)"

lemma quiet_idle:
  assumes "ice_step v ev c = Some c'" and "quiet_event ev"
  shows "idle_step c c'"
proof (cases ev)
  case (Ie_state st)
  with assms(1) show ?thesis
    by (cases st) (auto simp: ice_step_def ice_state_change_def Let_def idle_step_def split: if_splits)
next
  case Ie_report
  with assms(1) show ?thesis
    by (auto simp: ice_step_def ice_report_def idle_step_def split: candidate_task.splits if_splits)
next
  case Ie_forward
  with assms(1) show ?thesis by (auto simp: ice_step_def ice_forward_def idle_step_def split: list.splits)
next
  case Ie_reported
  with assms(1) show ?thesis
    by (auto simp: ice_step_def ice_reported_def idle_step_def split: list.splits ice_phase.splits)
next
  case (Ie_dialed r)
  with assms(1) show ?thesis
    by (auto simp: ice_step_def ice_dialed_def ice_return_def idle_step_def split: sum.splits ice_phase.splits)
next
  case Ie_join
  with assms(1) show ?thesis
    by (auto simp: ice_step_def ice_return_def idle_step_def split: ice_phase.splits)
next
  case Ie_senders_gone
  with assms(1) show ?thesis by (auto simp: ice_step_def idle_step_def)
qed (use assms(2) in \<open>simp_all add: quiet_event_def\<close>)

text \<open>What one end does keeps what the other knows of it, and what it knows of the other.\<close>

lemma learns_made: "ic_phase a = Making_agent \<Longrightarrow> learns v a b \<Longrightarrow> learns v (make_ice_agent res a) b"
  by (cases res) (auto simp: make_ice_agent_def ice_return_def learns_def sdps_between_def candidates_between_def)

lemma learns_sent_sdp:
  assumes "ic_local a = Some cred" and "ic_phase a = Sending_sdp" and "learns v a b"
  shows "learns v (ice_send_sdp v sent cred a) b"
proof (cases "iv_to_json v cred")
  case (Inl e)
  with idle_learns [OF idle_return idle_refl assms(3)] show ?thesis by (simp add: ice_send_sdp_def)
next
  case (Inr x)
  with assms idle_learns [OF idle_return idle_refl assms(3)] show ?thesis
    by (auto simp: ice_send_sdp_def send_sdp_def learns_def sdps_between_def candidates_between_def)
qed

lemma learns_candidates:
  assumes "learns v a b" and "ic_phase a' = ic_phase a" and "ic_local a' = ic_local a" and "ic_peer b' = ic_peer b"
    and "sdps_between a' b' = sdps_between a b"
    and "mset (candidates_between a' b') = image_mset (iv_marshal v) M" and "mset (ic_added b') + M \<subseteq># mset (ic_found a')"
  shows "learns v a' b'"
  using assms unfolding learns_def by auto

lemma learnsE:
  assumes "learns v a b"
  obtains M where "mset (candidates_between a b) = image_mset (iv_marshal v) M"
    and "mset (ic_added b) + M \<subseteq># mset (ic_found a)"
  using assms unfolding learns_def by blast

lemma learns_found:
  assumes "learns v a b"
  shows "learns v (ice_found_candidate v x a) b"
proof (cases x)
  case (Some c)
  from assms obtain M where M: "mset (candidates_between a b) = image_mset (iv_marshal v) M"
      "mset (ic_added b) + M \<subseteq># mset (ic_found a)" by (rule learnsE)
  from M(2) have le: "mset (ic_added b) + M \<subseteq># add_mset c (mset (ic_found a))"
    by (rule subset_mset.order_trans) simp
  show ?thesis
  proof (cases "ic_connected a")
    case True
    show ?thesis
      by (rule learns_candidates [OF assms, where M = M])
        (use True Some M(1) le in \<open>simp_all add: ice_found_candidate_def candidates_between_def sdps_between_def\<close>)
  next
    case False
    show ?thesis
      by (rule learns_candidates [OF assms, where M = "add_mset c M"])
        (use False Some M in \<open>simp_all add: ice_found_candidate_def candidates_between_def sdps_between_def\<close>)
  qed
qed (use assms in \<open>simp add: ice_found_candidate_def\<close>)

lemma learns_sent_candidate:
  assumes "ice_send_candidate n sent a = Some a'" and "learns v a b"
  shows "learns v a' b"
proof -
  from assms(2) obtain M where M: "mset (candidates_between a b) = image_mset (iv_marshal v) M"
      "mset (ic_added b) + M \<subseteq># mset (ic_found a)" by (rule learnsE)
  from assms(1) have n: "n < length (ic_spawned a)" by (simp add: ice_send_candidate_def split: if_splits)
  let ?x = "ic_spawned a ! n" and ?rest = "mset (take n (ic_spawned a)) + mset (drop (Suc n) (ic_spawned a))"
  have sp: "mset (ic_spawned a) = add_mset ?x ?rest" using taken_out [OF n] by simp
  let ?N = "mset (ic_candidates b @ concat (map candidate_in (ic_sent a))) + ?rest"
  have x: "add_mset ?x ?N = image_mset (iv_marshal v) M"
    using M(1) by (simp add: candidates_between_def sp add.assoc)
  show ?thesis
  proof (cases sent)
    case True
    show ?thesis
      by (rule learns_candidates [OF assms(2), where M = M])
        (use True n M(2) x [symmetric] assms(1) in \<open>auto simp: ice_send_candidate_def send_candidate_def
          candidates_between_def sdps_between_def Let_def add_ac\<close>)
  next
    case False
    from x obtain c M1 where m: "?N = image_mset (iv_marshal v) M1" "add_mset c (mset (ic_added b) + M1) \<subseteq># mset (ic_found a)"
      using M(2) by (rule one_less)
    have "mset (ic_added b) + M1 \<subseteq># mset (ic_found a)"
      using m(2) by (rule subset_mset.order_trans [rotated]) simp
    then show ?thesis
      by (intro learns_candidates [OF assms(2), where M = M1])
        (use False n m(1) assms(1) in \<open>auto simp: ice_send_candidate_def candidates_between_def sdps_between_def
          add.assoc\<close>)
  qed
qed

lemma learns_taken:
  assumes "ice_laws v" and "ice_take_candidate v add b = Some b'" and "learns v a b"
  shows "learns v a b'"
proof (cases "ic_candidates b")
  case Nil
  with assms(2,3) show ?thesis
    by (intro idle_learns [OF idle_refl _ assms(3), of b'])
      (auto simp: ice_take_candidate_def idle_step_def split: if_splits)
next
  case (Cons x xs)
  from assms(3) obtain M where M: "mset (candidates_between a b) = image_mset (iv_marshal v) M"
      "mset (ic_added b) + M \<subseteq># mset (ic_found a)" by (rule learnsE)
  let ?N = "mset (xs @ concat (map candidate_in (ic_sent a)) @ ic_spawned a)"
  have "add_mset x ?N = image_mset (iv_marshal v) M" using M(1) Cons by (simp add: candidates_between_def)
  then obtain c M1 where m: "x = iv_marshal v c" "?N = image_mset (iv_marshal v) M1"
      "add_mset c (mset (ic_added b) + M1) \<subseteq># mset (ic_found a)"
    using M(2) by (rule one_less)
  have u: "iv_unmarshal v x = Inr c" using assms(1) m(1) by (simp add: ice_laws_def)
  have le: "mset (ic_added b) + M1 \<subseteq># mset (ic_found a)"
    using m(3) by (rule subset_mset.order_trans [rotated]) simp
  show ?thesis
    by (rule learns_candidates [OF assms(3), where M = M1])
      (use Cons u m(2,3) le assms(2) in \<open>auto simp: ice_take_candidate_def candidates_between_def sdps_between_def
        Let_def split: sum.splits\<close>)
qed

lemma learns_received_sdp:
  assumes "ice_laws v" and "ice_receive_sdp v gather b = Some b'" and "learns v a b"
  shows "learns v a b'"
proof (cases "ic_sdps b")
  case Nil
  with assms(2,3) show ?thesis
    by (intro idle_learns [OF idle_refl _ assms(3), of b'])
      (auto simp: ice_receive_sdp_def idle_step_def ice_return_def split: if_splits)
next
  case (Cons x xs)
  with assms(3) obtain c where c: "ic_local a = Some c" "iv_to_json v c = Inr x"
    by (auto simp: learns_def sdps_between_def)
  with assms(1) have f: "get_ice_credential_from_sdp v x = Inr c"
    by (simp add: ice_laws_def get_ice_credential_from_sdp_def)
  have "ic_candidates b' = ic_candidates b" "ic_added b' = ic_added b" "ic_sdps b' = xs"
      "ic_peer b' = ic_peer b \<or> ic_peer b' = Some c"
    using assms(2) Cons f
    by (auto simp: ice_receive_sdp_def ice_exchange_candidates_with_sock_def ice_return_def Let_def
        split: if_splits sum.splits)
  with assms(3) Cons c(1) show ?thesis
    by (auto simp: learns_def sdps_between_def candidates_between_def)
qed

text \<open>Receiving tells the other end nothing, sending nothing to oneself.\<close>

lemma learns_step_sender:
  assumes "ice_step v ev a = Some a'" and "learns v a b"
  shows "learns v a' b"
proof (cases "quiet_event ev")
  case True
  with assms idle_learns [OF quiet_idle idle_refl] show ?thesis by blast
next
  case False
  then show ?thesis
  proof (cases ev)
    case (Ie_receive_sdp r)
    with assms(1) have "idle_step a (a'\<lparr>ic_peer := ic_peer a, ic_sdps := ic_sdps a\<rparr>)"
      by (auto simp: ice_step_def ice_receive_sdp_def ice_exchange_candidates_with_sock_def ice_return_def
          idle_step_def Let_def split: list.splits sum.splits if_splits ice_phase.splits)
    from idle_learns [OF this idle_refl assms(2)] show ?thesis
      by (simp add: learns_def sdps_between_def candidates_between_def)
  next
    case (Ie_take_candidate r)
    with assms(1) have "idle_step a (a'\<lparr>ic_candidates := ic_candidates a, ic_added := ic_added a\<rparr>)"
      by (auto simp: ice_step_def ice_take_candidate_def idle_step_def Let_def
          split: list.splits sum.splits if_splits candidate_task.splits)
    from idle_learns [OF this idle_refl assms(2)] show ?thesis
      by (simp add: learns_def sdps_between_def candidates_between_def)
  next
    case (Ie_send_candidate n sent)
    with assms show ?thesis by (auto simp: ice_step_def intro: learns_sent_candidate)
  qed (use assms in \<open>auto simp: ice_step_def quiet_event_def learns_made learns_sent_sdp learns_found
    split: ice_phase.splits option.splits if_splits\<close>)
qed

lemma learns_step_receiver:
  assumes "ice_laws v" and "ice_step v ev b = Some b'" and "learns v a b"
  shows "learns v a b'"
proof (cases "quiet_event ev")
  case True
  with assms idle_learns [OF idle_refl quiet_idle] show ?thesis by blast
next
  case False
  then show ?thesis
  proof (cases ev)
    case (Ie_receive_sdp r)
    with assms show ?thesis by (auto simp: ice_step_def intro: learns_received_sdp split: ice_phase.splits)
  next
    case (Ie_take_candidate r)
    with assms show ?thesis by (auto simp: ice_step_def intro: learns_taken split: candidate_task.splits)
  next
    case (Ie_agent r)
    with assms(2,3) show ?thesis
      by (cases r) (auto simp: ice_step_def make_ice_agent_def ice_return_def learns_def sdps_between_def
        candidates_between_def split: ice_phase.splits)
  next
    case (Ie_send_sdp r)
    with assms(2,3) show ?thesis
      by (auto simp: ice_step_def ice_send_sdp_def ice_return_def learns_def sdps_between_def
        candidates_between_def split: ice_phase.splits option.splits sum.splits if_splits)
  next
    case (Ie_found x)
    with assms(2,3) show ?thesis
      by (auto simp: ice_step_def ice_found_candidate_def learns_def sdps_between_def
        candidates_between_def Let_def split: option.splits if_splits)
  next
    case (Ie_send_candidate n sent)
    with assms(2,3) show ?thesis
      by (auto simp: ice_step_def ice_send_candidate_def learns_def sdps_between_def
        candidates_between_def Let_def split: if_splits)
  qed (use False in \<open>simp_all add: quiet_event_def\<close>)
qed

text \<open>The channels, the roles, and what a connection comes from.\<close>

fun phase_ok :: "ice_phase \<Rightarrow> ice_credential option \<Rightarrow> candidate_task \<Rightarrow> bool" where
  "phase_ok Dialing peer t \<longleftrightarrow> peer \<noteq> None"
| "phase_ok (Joining r) peer t \<longleftrightarrow> peer \<noteq> None"
| "phase_ok (Ice_returned (Inr r)) peer t \<longleftrightarrow> peer \<noteq> None \<and> t = Task_ended"
| "phase_ok ph peer t \<longleftrightarrow> True"

lemma phase_ok_task: "phase_ok ph peer t \<Longrightarrow> t \<noteq> Task_ended \<Longrightarrow> phase_ok ph peer t'"
  by (cases "(ph, peer, t)" rule: phase_ok.cases) auto

definition ice_ok :: "server_id \<Rightarrow> server_id \<Rightarrow> 'c ice \<Rightarrow> bool" where
  "ice_ok i j c \<longleftrightarrow>
     ic_controlling c = as_server i j \<and> ic_sock c = \<lparr>so_my_id = i, so_peer_id = j\<rparr> \<and>
     length (ic_sdps c) \<le> SDP_QUEUE \<and> length (ic_candidates c) \<le> CANDIDATE_QUEUE \<and>
     length (ic_err c) \<le> 1 \<and> length (ic_progress c) \<le> 1 \<and>
     phase_ok (ic_phase c) (ic_peer c) (ic_task c)"

lemma ice_ok_step:
  assumes "ice_step v ev c = Some c'" and "ice_ok i j c"
  shows "ice_ok i j c'"
proof (cases ev)
  case (Ie_agent r)
  with assms show ?thesis
    by (auto simp: ice_step_def make_ice_agent_def ice_return_def ice_ok_def split: ice_phase.splits sum.splits)
next
  case (Ie_send_sdp r)
  with assms show ?thesis
    by (auto simp: ice_step_def ice_send_sdp_def ice_return_def ice_ok_def
        split: ice_phase.splits option.splits sum.splits if_splits)
next
  case (Ie_receive_sdp r)
  with assms show ?thesis
    by (auto simp: ice_step_def ice_receive_sdp_def ice_exchange_candidates_with_sock_def ice_return_def ice_ok_def
        Let_def split: ice_phase.splits list.splits sum.splits if_splits)
next
  case (Ie_dialed r)
  with assms show ?thesis
    by (auto simp: ice_step_def ice_dialed_def ice_return_def ice_ok_def split: ice_phase.splits sum.splits)
next
  case Ie_reported
  with assms show ?thesis
    by (auto simp: ice_step_def ice_reported_def ice_ok_def split: ice_phase.splits list.splits)
next
  case Ie_join
  with assms(1) obtain r where "ic_phase c = Joining r" "c' = ice_return r (c\<lparr>ic_task := Task_ended\<rparr>)"
    by (auto simp: ice_step_def split: ice_phase.splits)
  with assms(2) show ?thesis by (cases r) (simp_all add: ice_return_def ice_ok_def)
next
  case (Ie_state st)
  with assms show ?thesis
    by (cases st) (auto simp: ice_step_def ice_state_change_def ice_ok_def Let_def split: if_splits)
next
  case Ie_forward
  with assms show ?thesis by (auto simp: ice_step_def ice_forward_def ice_ok_def split: list.splits)
next
  case (Ie_found x)
  with assms show ?thesis
    by (auto simp: ice_step_def ice_found_candidate_def ice_ok_def Let_def split: option.splits if_splits)
next
  case (Ie_send_candidate n sent)
  with assms show ?thesis
    by (auto simp: ice_step_def ice_send_candidate_def ice_ok_def Let_def split: if_splits)
next
  case (Ie_take_candidate r)
  with assms phase_ok_task [of "ic_phase c" "ic_peer c" Taking] show ?thesis
    by (auto simp: ice_step_def ice_take_candidate_def ice_ok_def Let_def
        split: candidate_task.splits list.splits sum.splits if_splits)
next
  case Ie_report
  with assms phase_ok_task [of "ic_phase c" "ic_peer c" "ic_task c"] show ?thesis
    by (auto simp: ice_step_def ice_report_def ice_ok_def split: candidate_task.splits if_splits)
next
  case Ie_senders_gone
  with assms show ?thesis by (auto simp: ice_step_def ice_ok_def)
qed

text \<open>What the signaling server carries, and what it loses.\<close>

lemma carry_cases:
  assumes "carry (a, b) = Some (a', b')"
  obtains (Sdp) m p x rest where "ic_sent a = Cmd_send (SM_sdp m p x) # rest" and "sdp_arrives x b = Some b'"
      and "a' = a\<lparr>ic_sent := rest\<rparr>"
  | (Candidate) m p x rest where "ic_sent a = Cmd_send (SM_candidate m p x) # rest"
      and "candidate_arrives x b = Some b'" and "a' = a\<lparr>ic_sent := rest\<rparr>"
  using assms by (auto simp: carry_def split: list.splits command.splits signaling_msg.splits)

lemma arrives_ok:
  "sdp_arrives x b = Some b' \<Longrightarrow> ice_ok i j b \<Longrightarrow> ice_ok i j b'"
  "candidate_arrives x b = Some b' \<Longrightarrow> ice_ok i j b \<Longrightarrow> ice_ok i j b'"
  by (auto simp: sdp_arrives_def candidate_arrives_def ice_ok_def SDP_QUEUE_def CANDIDATE_QUEUE_def
      split: if_splits)

lemma ice_ok_sent: "ice_ok i j (a\<lparr>ic_sent := rest\<rparr>) \<longleftrightarrow> ice_ok i j a"
  by (simp add: ice_ok_def)

text \<open>Messages that get lost.\<close>

lemma learns_lost:
  assumes "learns v a b" and "ic_sent a = m # rest"
  shows "learns v (a\<lparr>ic_sent := rest\<rparr>) b"
proof -
  from assms(1) obtain M where M: "mset (candidates_between a b) = image_mset (iv_marshal v) M"
      "mset (ic_added b) + M \<subseteq># mset (ic_found a)" by (rule learnsE)
  have "mset (candidates_between a b) = mset (candidate_in m) + mset (candidates_between (a\<lparr>ic_sent := rest\<rparr>) b)"
    using assms(2) by (simp add: candidates_between_def)
  with M(1) obtain M1 M2 where m: "M = M1 + M2"
      "mset (candidates_between (a\<lparr>ic_sent := rest\<rparr>) b) = image_mset (iv_marshal v) M2"
    by (metis image_mset_eq_plusD)
  have "mset (ic_added b) + M2 \<subseteq># mset (ic_found a)"
    using M(2) unfolding m(1) by (rule subset_mset.order_trans [rotated]) simp
  with assms m(2) show ?thesis by (auto simp: learns_def sdps_between_def)
qed

lemma learns_carried:
  assumes "carry (a, b) = Some (a', b')" and "learns v a b"
  shows "learns v a' b'"
  using assms(1)
proof (cases rule: carry_cases)
  case (Sdp m p x rest)
  show ?thesis
  proof (cases "sock_open b")
    case True
    with Sdp assms(2) show ?thesis
      by (auto simp: sdp_arrives_def learns_def sdps_between_def candidates_between_def split: if_splits)
  next
    case False
    with Sdp learns_lost [OF assms(2)] show ?thesis by (auto simp: sdp_arrives_def)
  qed
next
  case (Candidate m p x rest)
  show ?thesis
  proof (cases "sock_open b")
    case True
    with Candidate assms(2) show ?thesis
      by (auto simp: candidate_arrives_def learns_def sdps_between_def candidates_between_def split: if_splits)
  next
    case False
    with Candidate learns_lost [OF assms(2)] show ?thesis by (auto simp: candidate_arrives_def)
  qed
qed

text \<open>Receiving what the other sends tells the other nothing.\<close>

lemma learns_back:
  assumes "carry (a, b) = Some (a', b')" and "learns v b a"
  shows "learns v b' a'"
  using assms(1)
  by (cases rule: carry_cases)
    (use assms(2) in \<open>auto simp: sdp_arrives_def candidate_arrives_def learns_def sdps_between_def
      candidates_between_def split: if_splits\<close>)

section \<open>Every state the two ends get into\<close>

definition ends_ok :: "'c ice_env \<Rightarrow> server_id \<Rightarrow> server_id \<Rightarrow> 'c ice \<times> 'c ice \<Rightarrow> bool" where
  "ends_ok v i j p \<longleftrightarrow> ice_ok i j (fst p) \<and> ice_ok j i (snd p) \<and> learns v (fst p) (snd p) \<and> learns v (snd p) (fst p)"

lemma ends_ok_swap: "ends_ok v i j (prod.swap p) \<longleftrightarrow> ends_ok v j i p"
  by (auto simp: ends_ok_def)

lemma ends_ok_move:
  assumes "ice_laws v" and "move_end v m (a, b) = Some (a', b')" and "ends_ok v i j (a, b)"
  shows "ends_ok v i j (a', b')"
proof (cases m)
  case (Own ev)
  with assms show ?thesis
    by (auto simp: ends_ok_def intro: ice_ok_step learns_step_sender learns_step_receiver)
next
  case Carried
  with assms(2) have "carry (a, b) = Some (a', b')" by simp
  moreover from this have "ice_ok i j a'" "ice_ok j i b'"
    by (cases rule: carry_cases; use assms(3) in \<open>auto simp: ends_ok_def ice_ok_sent dest: arrives_ok\<close>)+
  ultimately show ?thesis
    using assms(3) by (auto simp: ends_ok_def intro: learns_carried learns_back)
next
  case Lost
  with assms(2,3) show ?thesis
    by (auto simp: ends_ok_def lose_def ice_ok_sent learns_lost split: list.splits)
      (simp add: learns_def sdps_between_def candidates_between_def)
qed

lemma ends_ok_step:
  assumes "ice_laws v" and "ends_step v p q" and "ends_ok v i j p"
  shows "ends_ok v i j q"
proof -
  from assms(2) obtain f m where m: "ends_move v (f, m) p = Some q" unfolding ends_step_def by auto
  show ?thesis
  proof (cases f)
    case True
    with m obtain r where "move_end v m (prod.swap p) = Some r" "q = prod.swap r"
      by (auto simp: ends_move_def)
    with ends_ok_move [OF assms(1), of m "snd p" "fst p" "fst r" "snd r" j i] assms(3) show ?thesis
      by (cases p; cases r) (auto simp: ends_ok_def)
  next
    case False
    with m ends_ok_move [OF assms(1), of m "fst p" "snd p" "fst q" "snd q" i j] assms(3) show ?thesis
      by (simp add: ends_move_def)
  qed
qed

lemma ends_ok_start: "ends_start i j p \<Longrightarrow> ends_ok v i j p"
  by (simp add: ends_start_def ends_ok_def ice_end_def ice_new_def ice_ok_def learns_def sdps_between_def
      candidates_between_def)

text \<open>The laws of the crates are part of what is kept, so that the invariant is one of every environment.\<close>

interpretation ends: invariant "ends_start i j" "ends_step v" "\<lambda>p. ice_laws v \<longrightarrow> ends_ok v i j p" for v i j
  by unfold_locales (auto intro: ends_ok_start ends_ok_step)

end
