(* ===== verification/Ice_Theorems.thy ===== *)
theory Ice_Theorems
  imports Ice
begin

text \<open>
  What two servers that connect with ICE can rely on, a run in which they connect, and a run in which
  an end gives up but its task does not.
\<close>

section \<open>The ends of a connection\<close>

lemma roles_differ: "i \<noteq> j \<Longrightarrow> as_server i j \<noteq> as_server j i"
  using str_less_cases [of i j]
  by (auto simp: as_server_def stream_id_init_def STREAM_ID_SERVER_INIT_def STREAM_ID_CLIENT_INIT_def)

lemma ends_differ:
  assumes "reaches (ends_start i j) (ends_step v) p"
  shows "i \<noteq> j"
  using assms by (induction rule: reaches.induct) (auto simp: ends_start_def)

lemma learned:
  assumes "learns v c d" and "ice_ok i j d" and "ic_phase d = Ice_returned (Inr ())"
  shows "ic_local c \<noteq> None \<and> ic_peer d = ic_local c \<and> ic_task d = Task_ended \<and>
    mset (ic_added d) \<subseteq># mset (ic_found c)"
  using assms subset_mset.order_trans [OF mset_subset_eq_add_left]
  by (auto simp: learns_def ice_ok_def)

text \<open>C39: Two servers with different ids that connect over ICE. Whatever their agents do and whatever the
  signaling server loses (what it carries arrives in order, and credentials and candidates are read
  back as they were written), one of the two has the controlling role; an end that has a connection has made it with the credentials of
  the other's agent, has no task left, and gave its agent only candidates that the other has found,
  none more often.\<close>

theorem ice_ends_agree:
  assumes "ice_laws v" and "reaches (ends_start i j) (ends_step v) (a, b)"
    and "(c, d) \<in> {(a, b), (b, a)}" and "ic_phase d = Ice_returned (Inr ())"
  shows "ic_controlling c \<noteq> ic_controlling d \<and> ic_local c \<noteq> None \<and> ic_peer d = ic_local c \<and>
    ic_task d = Task_ended \<and> mset (ic_added d) \<subseteq># mset (ic_found c)"
proof -
  have ok: "ends_ok v i j (a, b)" using ends.reached [OF assms(2)] assms(1) by blast
  then have "ic_controlling a \<noteq> ic_controlling b"
    using roles_differ [OF ends_differ [OF assms(2)]] by (auto simp: ends_ok_def ice_ok_def)
  moreover have "learns v c d" "\<exists>i j. ice_ok i j d" using ok assms(3) by (auto simp: ends_ok_def)
  ultimately show ?thesis using learned assms(3,4) by fastforce
qed

section \<open>Runs\<close>

definition sample_ice :: "string ice_env" where
  "sample_ice =
     \<lparr>iv_to_json = (\<lambda>c. if ic_pwd c = [] then Inr (ic_ufrag c) else Inl (lit ''pwd'')),
      iv_from_json = (\<lambda>x. Inr \<lparr>ic_ufrag = x, ic_pwd = []\<rparr>),
      iv_marshal = (\<lambda>c. c), iv_unmarshal = Inr, iv_state_text = (\<lambda>_. ''state'')\<rparr>"

lemma sample_ice_laws: "ice_laws sample_ice"
  by (auto simp: ice_laws_def sample_ice_def split: if_splits)

fun ends_run :: "'c ice_env \<Rightarrow> (bool \<times> 'c end_move) list \<Rightarrow> 'c ice \<times> 'c ice \<Rightarrow> ('c ice \<times> 'c ice) option" where
  "ends_run v [] p = Some p"
| "ends_run v (m # ms) p = Option.bind (ends_move v m p) (ends_run v ms)"

lemma ends_run_reaches:
  "ends_run v ms p = Some q \<Longrightarrow> reaches start (ends_step v) p \<Longrightarrow> reaches start (ends_step v) q"
proof (induction ms arbitrary: p)
  case (Cons m ms)
  then obtain r where r: "ends_move v m p = Some r" "ends_run v ms r = Some q" by (auto simp: bind_eq_Some_conv)
  then have "ends_step v p r" unfolding ends_step_def by blast
  then have "reaches start (ends_step v) r" using Cons.prems(2) by (blast intro: reaches.Next)
  with Cons.IH r(2) show ?case by blast
qed simp

definition cred :: "string \<Rightarrow> ice_credential" where
  "cred x = \<lparr>ic_ufrag = x, ic_pwd = []\<rparr>"

text \<open>Each makes its agent and sends its SDP; both are carried and received.\<close>

definition meet :: "(bool \<times> string end_move) list" where
  "meet =
     [(False, Own (Ie_agent (Inr (cred ''x'')))), (True, Own (Ie_agent (Inr (cred ''y'')))),
      (False, Own (Ie_send_sdp True)), (True, Own (Ie_send_sdp True)), (False, Carried), (True, Carried),
      (False, Own (Ie_receive_sdp (Inr ()))), (True, Own (Ie_receive_sdp (Inr ())))]"

definition both_connect :: "(bool \<times> string end_move) list" where
  "both_connect = meet @
     [(False, Own (Ie_found (Some ''p''))), (False, Own (Ie_found (Some ''q''))), (False, Own (Ie_send_candidate 1 True)),
      (False, Carried), (True, Own (Ie_take_candidate (Inr ()))), (False, Own (Ie_dialed (Inr ()))),
      (True, Own (Ie_dialed (Inr ()))), (False, Own Ie_join), (True, Own Ie_join)]"

definition end_facts :: "string ice \<times> string ice \<Rightarrow> _" where
  "end_facts p = (ic_phase (fst p), ic_phase (snd p), ic_peer (snd p), ic_added (snd p), ic_found (fst p), ic_task (snd p))"

lemma both_connect_run:
  "map_option end_facts (ends_run sample_ice both_connect (ice_end ''a'' ''b'', ice_end ''b'' ''a'')) =
     Some (Ice_returned (Inr ()), Ice_returned (Inr ()), Some (cred ''x''), [''q''], [''p'', ''q''], Task_ended)"
  by code_simp

lemma start_reaches:
  "reaches (ends_start ''a'' ''b'') (ends_step v) (ice_end ''a'' ''b'', ice_end ''b'' ''a'')"
  by (rule reaches.Begin) (simp add: ends_start_def)

lemma ice_ends_agree_witness:
  "\<exists>a b. reaches (ends_start ''a'' ''b'') (ends_step sample_ice) (a, b) \<and> ic_phase b = Ice_returned (Inr ()) \<and>
     ic_added b = [''q''] \<and> ic_found a = [''p'', ''q''] \<and> ic_peer b = ic_local a \<and> ic_controlling a \<noteq> ic_controlling b"
proof -
  obtain a b where r: "ends_run sample_ice both_connect (ice_end ''a'' ''b'', ice_end ''b'' ''a'') = Some (a, b)"
      "ic_phase b = Ice_returned (Inr ())" "ic_added b = [''q'']" "ic_found a = [''p'', ''q'']"
    using both_connect_run by (auto simp: end_facts_def)
  note reach = ends_run_reaches [OF r(1) start_reaches]
  from ice_ends_agree [OF sample_ice_laws reach _ r(2), of a] r reach show ?thesis by auto
qed

text \<open>
  A finding: when the dial fails, the function returns before it gets to the code that aborts the
  task that takes candidates, as it does when gathering fails. The task goes on, and holds the
  socket and the agent, until the signaling client drops its ends.
\<close>

lemma failed_dial_leaks_task:
  "map_option (\<lambda>p. (ic_phase (fst p), ic_task (fst p), sock_open (fst p)))
     (ends_run sample_ice (meet @ [(False, Own (Ie_dialed (Inl (lit ''timeout''))))])
       (ice_end ''a'' ''b'', ice_end ''b'' ''a'')) =
   Some (Ice_returned (Inl (Webrpc_ice (lit ''timeout''))), Taking, True)"
  by code_simp

end
