(* ===== verification/Conduits.thy ===== *)
theory Conduits
  imports Machines "HOL-Library.Sublist"
begin

text \<open>
  What carries messages from one place to another. A machine is a conduit if what was put in only
  grows, if every step that leaves it whole keeps that what was put in is what came out and then what
  is under way, and if nothing comes out of it once it is broken, which it stays. Then what came out
  is always the beginning of what was put in: nothing is lost on the way, doubled or reordered.
\<close>

locale conduit =
  fixes start :: "'s \<Rightarrow> bool" and step :: "'s \<Rightarrow> 's \<Rightarrow> bool"
    and put :: "'s \<Rightarrow> 'm list" and got :: "'s \<Rightarrow> 'm list" and under_way :: "'s \<Rightarrow> 'm list"
    and whole :: "'s \<Rightarrow> bool"
  assumes fresh: "start s \<Longrightarrow> put s = got s @ under_way s"
    and puts: "reaches start step s \<Longrightarrow> step s t \<Longrightarrow> prefix (put s) (put t)"
    and heals_not: "reaches start step s \<Longrightarrow> step s t \<Longrightarrow> whole t \<Longrightarrow> whole s"
    and moves: "reaches start step s \<Longrightarrow> step s t \<Longrightarrow> whole t \<Longrightarrow> put s = got s @ under_way s \<Longrightarrow>
      put t = got t @ under_way t"
    and breaks: "reaches start step s \<Longrightarrow> step s t \<Longrightarrow> \<not> whole t \<Longrightarrow> got t = got s"
begin

definition carries :: "'s \<Rightarrow> bool" where
  "carries s \<longleftrightarrow> prefix (got s) (put s) \<and> (whole s \<longrightarrow> put s = got s @ under_way s)"

lemma carries_start: "start s \<Longrightarrow> carries s"
  by (simp add: carries_def fresh)

lemma carries_step:
  assumes "reaches start step s" and "carries s" and "step s t"
  shows "carries t"
proof (cases "whole t")
  case True
  with assms heals_not moves have "put t = got t @ under_way t" by (simp add: carries_def)
  then show ?thesis by (simp add: carries_def)
next
  case False
  from assms(2) have "prefix (got s) (put s)" by (simp add: carries_def)
  with False breaks [OF assms(1,3)] puts [OF assms(1,3)] show ?thesis
    by (simp add: carries_def)
qed

end

sublocale conduit \<subseteq> carried: invariant start step "\<lambda>s. reaches start step s \<and> carries s"
  by unfold_locales (auto intro: reaches.intros carries_start carries_step)

context conduit
begin

lemma in_order: "reaches start step s \<Longrightarrow> prefix (got s) (put s)"
  using carried.reached [of s] by (simp add: carries_def)

lemma complete: "reaches start step s \<Longrightarrow> whole s \<Longrightarrow> put s = got s @ under_way s"
  using carried.reached [of s] by (simp add: carries_def)

end

end
