(* ===== verification/Receptors.thy ===== *)
theory Receptors
  imports Conduits Runtime
begin

text \<open>
  The receptor of the editor (\<open>editor_receptor.rs\<close>): two threads that move messages between the editor
  and the server. An event is what a thread does between two waits, or what the editor or the server
  does. What the messages are is a parameter. The tasks of the web sockets are in \<open>Websocket\<close>.
\<close>

section \<open>The editor receptor\<close>

text \<open>A thread waits for a message, holds one it has to hand on, has an error to report, or has ended.\<close>

datatype 'm thread = Idle | Holding 'm | Telling fmt_text | Gone

text \<open>
  \<open>er_typed\<close> and \<open>er_shown\<close> are what the editor has sent and received so far, \<open>er_taken\<close> and \<open>er_given\<close> what
  the server has; the flags say whether an end still holds its side.
\<close>

record 'm receptor =
  er_typed :: "'m list"
  er_stdin :: "'m list"
  er_stdin_open :: bool
  er_reader :: "'m thread"
  er_in :: "'m list"
  er_in_open :: bool
  er_taken :: "'m list"
  er_given :: "'m list"
  er_out :: "'m list"
  er_out_open :: bool
  er_writer :: "'m thread"
  er_shown :: "'m list"
  er_stdout_open :: bool
  er_err :: "fmt_text list"
  er_done :: bool
  er_shutdown :: bool

definition SERVER_QUEUE :: nat where "SERVER_QUEUE = 32"
definition ERR_QUEUE :: nat where "ERR_QUEUE = 1"

definition main_loop :: "'m receptor" where
  "main_loop =
     \<lparr>er_typed = [], er_stdin = [], er_stdin_open = True, er_reader = Idle, er_in = [], er_in_open = True,
      er_taken = [], er_given = [], er_out = [], er_out_open = True, er_writer = Idle, er_shown = [],
      er_stdout_open = True, er_err = [], er_done = False, er_shutdown = False\<rparr>"

text \<open>\<open>run_stdio\<close> always gets a connection; \<open>run_socket\<close> may fail to listen.\<close>

definition run_stdio :: "'m receptor" where
  "run_stdio = main_loop"

definition run_socket :: "fmt_text + unit \<Rightarrow> fmt_text + 'm receptor" where
  "run_socket res = (case res of Inl e \<Rightarrow> Inl e | Inr _ \<Rightarrow> Inr main_loop)"

text \<open>The thread that reads from the editor.\<close>

definition read_editor :: "'m receptor \<Rightarrow> 'm receptor option" where
  "read_editor r =
     (case er_stdin r of
        m # ms \<Rightarrow> Some (r\<lparr>er_stdin := ms, er_reader := Holding m\<rparr>)
      | [] \<Rightarrow>
          if er_stdin_open r then None
          else Some (r\<lparr>er_reader := Telling (lit ''Failed to receive message from editor: {:#?}'')\<rparr>))"

definition hand_to_server :: "'m \<Rightarrow> 'm receptor \<Rightarrow> 'm receptor option" where
  "hand_to_server m r =
     (if \<not> er_in_open r
      then Some (r\<lparr>er_reader := Telling (lit ''Failed to send editor message to collab peer: {:#?}'')\<rparr>)
      else if length (er_in r) < SERVER_QUEUE then Some (r\<lparr>er_in := er_in r @ [m], er_reader := Idle\<rparr>)
      else None)"

text \<open>The thread that writes to the editor. A send waits until the editor takes the message.\<close>

definition take_from_server :: "'m receptor \<Rightarrow> 'm receptor option" where
  "take_from_server r =
     (case er_out r of
        m # ms \<Rightarrow> Some (r\<lparr>er_out := ms, er_writer := Holding m\<rparr>)
      | [] \<Rightarrow>
          if er_out_open r then None
          else Some (r\<lparr>er_writer := Telling (lit ''Message rx channel from peer closed'')\<rparr>))"

definition hand_to_editor :: "'m receptor \<Rightarrow> 'm receptor option" where
  "hand_to_editor r =
     (if er_stdout_open r then None
      else Some (r\<lparr>er_writer := Telling (lit ''Failed to send message to editor: {:#?}'')\<rparr>))"

definition editor_takes :: "'m \<Rightarrow> 'm receptor \<Rightarrow> 'm receptor option" where
  "editor_takes m r =
     (if er_stdout_open r then Some (r\<lparr>er_shown := er_shown r @ [m], er_writer := Idle\<rparr>) else None)"

text \<open>An error waits for room in the channel, unless its receiver is gone.\<close>

definition tell_error :: "fmt_text \<Rightarrow> ('m receptor \<Rightarrow> 'm receptor) \<Rightarrow> 'm receptor \<Rightarrow> 'm receptor option" where
  "tell_error e ended r =
     (if er_done r then Some (ended r)
      else if length (er_err r) < ERR_QUEUE then Some (ended (r\<lparr>er_err := er_err r @ [e]\<rparr>))
      else None)"

text \<open>The end of \<open>main_loop\<close>: the first error shuts the program down.\<close>

definition end_main_loop :: "'m receptor \<Rightarrow> 'm receptor option" where
  "end_main_loop r =
     (case er_err r of
        [] \<Rightarrow> None
      | e # es \<Rightarrow> if er_done r then None else Some (r\<lparr>er_err := [], er_done := True, er_shutdown := True\<rparr>))"

text \<open>The threads and the end of the loop; and what the editor and the server do.\<close>

datatype own_event = Read_editor | Hand_to_server | Tell_read | Take_from_server | Hand_to_editor | Tell_write | End_loop

datatype 'm end_event =
    Editor_sends 'm | Editor_takes | Editor_ends | Editor_deaf | Server_takes | Server_gives 'm | Server_ends | Server_silent

definition receptor_own :: "own_event \<Rightarrow> 'm receptor \<Rightarrow> 'm receptor option" where
  "receptor_own ev r =
     (case ev of
        Read_editor \<Rightarrow> (case er_reader r of Idle \<Rightarrow> read_editor r | _ \<Rightarrow> None)
      | Hand_to_server \<Rightarrow> (case er_reader r of Holding m \<Rightarrow> hand_to_server m r | _ \<Rightarrow> None)
      | Tell_read \<Rightarrow> (case er_reader r of Telling e \<Rightarrow> tell_error e (\<lambda>r. r\<lparr>er_reader := Gone\<rparr>) r | _ \<Rightarrow> None)
      | Take_from_server \<Rightarrow> (case er_writer r of Idle \<Rightarrow> take_from_server r | _ \<Rightarrow> None)
      | Hand_to_editor \<Rightarrow> (case er_writer r of Holding m \<Rightarrow> hand_to_editor r | _ \<Rightarrow> None)
      | Tell_write \<Rightarrow>
          (case er_writer r of
             Telling e \<Rightarrow> tell_error e (\<lambda>r. r\<lparr>er_writer := Gone, er_out := []\<rparr>) r
           | _ \<Rightarrow> None)
      | End_loop \<Rightarrow> end_main_loop r)"

text \<open>A side that is dropped drops what waits in its channel; the server can give while there is room.\<close>

definition receptor_end :: "'m end_event \<Rightarrow> 'm receptor \<Rightarrow> 'm receptor option" where
  "receptor_end ev r =
     (case ev of
        Editor_sends m \<Rightarrow>
          if er_stdin_open r then Some (r\<lparr>er_typed := er_typed r @ [m], er_stdin := er_stdin r @ [m]\<rparr>) else None
      | Editor_takes \<Rightarrow> (case er_writer r of Holding m \<Rightarrow> editor_takes m r | _ \<Rightarrow> None)
      | Editor_ends \<Rightarrow> Some (r\<lparr>er_stdin_open := False\<rparr>)
      | Editor_deaf \<Rightarrow> Some (r\<lparr>er_stdout_open := False\<rparr>)
      | Server_takes \<Rightarrow>
          (case er_in r of [] \<Rightarrow> None | m # ms \<Rightarrow> Some (r\<lparr>er_in := ms, er_taken := er_taken r @ [m]\<rparr>))
      | Server_gives m \<Rightarrow>
          if er_out_open r \<and> er_writer r \<noteq> Gone \<and> length (er_out r) < SERVER_QUEUE
          then Some (r\<lparr>er_given := er_given r @ [m], er_out := er_out r @ [m]\<rparr>) else None
      | Server_ends \<Rightarrow> Some (r\<lparr>er_in_open := False, er_in := []\<rparr>)
      | Server_silent \<Rightarrow> Some (r\<lparr>er_out_open := False\<rparr>))"

inductive receptor_step :: "'m receptor \<Rightarrow> 'm receptor \<Rightarrow> bool" where
  Own: "receptor_own ev r = Some r' \<Longrightarrow> receptor_step r r'"
| Ends: "receptor_end ev r = Some r' \<Longrightarrow> receptor_step r r'"

definition receptor_start :: "'m receptor \<Rightarrow> bool" where
  "receptor_start r \<longleftrightarrow> r = main_loop"

section \<open>Both threads are conduits\<close>

definition held :: "'m thread \<Rightarrow> 'm list" where
  "held t = (case t of Holding m \<Rightarrow> [m] | _ \<Rightarrow> [])"

definition to_server_way :: "'m receptor \<Rightarrow> 'm list" where
  "to_server_way r = er_in r @ held (er_reader r) @ er_stdin r"

definition to_editor_way :: "'m receptor \<Rightarrow> 'm list" where
  "to_editor_way r = held (er_writer r) @ er_out r"

text \<open>
  A thread stops only when its source has ended or its target is closed; the first error ends the
  loop; nothing but the end of the loop shuts the program down.
\<close>

fun stopped :: "'m thread \<Rightarrow> bool" where
  "stopped (Telling e) \<longleftrightarrow> True"
| "stopped Gone \<longleftrightarrow> True"
| "stopped _ \<longleftrightarrow> False"

fun is_gone :: "'m thread \<Rightarrow> bool" where
  "is_gone Gone \<longleftrightarrow> True"
| "is_gone _ \<longleftrightarrow> False"

definition receptor_ok :: "'m receptor \<Rightarrow> bool" where
  "receptor_ok r \<longleftrightarrow>
     (stopped (er_reader r) \<longrightarrow> \<not> er_in_open r \<or> er_stdin r = [] \<and> \<not> er_stdin_open r) \<and>
     (stopped (er_writer r) \<longrightarrow> \<not> er_stdout_open r \<or> er_out r = [] \<and> \<not> er_out_open r) \<and>
     (\<not> er_in_open r \<longrightarrow> er_in r = []) \<and>
     length (er_in r) \<le> SERVER_QUEUE \<and> length (er_out r) \<le> SERVER_QUEUE \<and> length (er_err r) \<le> ERR_QUEUE \<and>
     (er_err r \<noteq> [] \<or> er_done r \<longleftrightarrow> is_gone (er_reader r) \<or> is_gone (er_writer r)) \<and>
     er_shutdown r = er_done r"

lemmas own_defs = receptor_own_def read_editor_def hand_to_server_def take_from_server_def hand_to_editor_def
  tell_error_def end_main_loop_def

text \<open>What a step of the receptor does, branch by branch.\<close>

lemma own_cases [consumes 1, case_names Reads Reads_end Hands Hands_not Read_told Read_untold Takes Takes_end Writes_not
    Write_told Write_untold Ends_loop]:
  assumes "receptor_own ev r = Some r'"
    and "\<And>m ms. er_reader r = Idle \<Longrightarrow> er_stdin r = m # ms \<Longrightarrow> r' = r\<lparr>er_stdin := ms, er_reader := Holding m\<rparr> \<Longrightarrow> P"
    and "\<And>e. er_reader r = Idle \<Longrightarrow> er_stdin r = [] \<Longrightarrow> \<not> er_stdin_open r \<Longrightarrow> r' = r\<lparr>er_reader := Telling e\<rparr> \<Longrightarrow> P"
    and "\<And>m. er_reader r = Holding m \<Longrightarrow> er_in_open r \<Longrightarrow> length (er_in r) < SERVER_QUEUE \<Longrightarrow>
      r' = r\<lparr>er_in := er_in r @ [m], er_reader := Idle\<rparr> \<Longrightarrow> P"
    and "\<And>m e. er_reader r = Holding m \<Longrightarrow> \<not> er_in_open r \<Longrightarrow> r' = r\<lparr>er_reader := Telling e\<rparr> \<Longrightarrow> P"
    and "\<And>e. er_reader r = Telling e \<Longrightarrow> \<not> er_done r \<Longrightarrow> er_err r = [] \<Longrightarrow> r' = r\<lparr>er_err := [e], er_reader := Gone\<rparr> \<Longrightarrow> P"
    and "\<And>e. er_reader r = Telling e \<Longrightarrow> er_done r \<Longrightarrow> r' = r\<lparr>er_reader := Gone\<rparr> \<Longrightarrow> P"
    and "\<And>m ms. er_writer r = Idle \<Longrightarrow> er_out r = m # ms \<Longrightarrow> r' = r\<lparr>er_out := ms, er_writer := Holding m\<rparr> \<Longrightarrow> P"
    and "\<And>e. er_writer r = Idle \<Longrightarrow> er_out r = [] \<Longrightarrow> \<not> er_out_open r \<Longrightarrow> r' = r\<lparr>er_writer := Telling e\<rparr> \<Longrightarrow> P"
    and "\<And>m e. er_writer r = Holding m \<Longrightarrow> \<not> er_stdout_open r \<Longrightarrow> r' = r\<lparr>er_writer := Telling e\<rparr> \<Longrightarrow> P"
    and "\<And>e. er_writer r = Telling e \<Longrightarrow> \<not> er_done r \<Longrightarrow> er_err r = [] \<Longrightarrow>
      r' = r\<lparr>er_err := [e], er_writer := Gone, er_out := []\<rparr> \<Longrightarrow> P"
    and "\<And>e. er_writer r = Telling e \<Longrightarrow> er_done r \<Longrightarrow> r' = r\<lparr>er_writer := Gone, er_out := []\<rparr> \<Longrightarrow> P"
    and "\<And>e es. er_err r = e # es \<Longrightarrow> \<not> er_done r \<Longrightarrow> r' = r\<lparr>er_err := [], er_done := True, er_shutdown := True\<rparr> \<Longrightarrow> P"
  shows P
proof (cases ev)
  case Read_editor
  with assms(1,2,3) show P by (auto simp: own_defs split: thread.split_asm list.split_asm if_split_asm)
next
  case Hand_to_server
  with assms(1,4,5) show P by (auto simp: own_defs split: thread.split_asm if_split_asm)
next
  case Tell_read
  with assms(1,6,7) show P by (auto simp: own_defs ERR_QUEUE_def split: thread.split_asm if_split_asm)
next
  case Take_from_server
  with assms(1,8,9) show P by (auto simp: own_defs split: thread.split_asm list.split_asm if_split_asm)
next
  case Hand_to_editor
  with assms(1,10) show P by (auto simp: own_defs split: thread.split_asm if_split_asm)
next
  case Tell_write
  with assms(1,11,12) show P by (auto simp: own_defs ERR_QUEUE_def split: thread.split_asm if_split_asm)
next
  case End_loop
  with assms(1,13) show P by (auto simp: own_defs split: list.split_asm if_split_asm)
qed

text \<open>What the editor and the server do.\<close>

lemma end_cases [consumes 1, case_names Sends Shown Ends Deaf Taken Given Server_ends Silent]:
  assumes "receptor_end ev r = Some r'"
    and "\<And>m. er_stdin_open r \<Longrightarrow> r' = r\<lparr>er_typed := er_typed r @ [m], er_stdin := er_stdin r @ [m]\<rparr> \<Longrightarrow> P"
    and "\<And>m. er_writer r = Holding m \<Longrightarrow> er_stdout_open r \<Longrightarrow> r' = r\<lparr>er_shown := er_shown r @ [m], er_writer := Idle\<rparr> \<Longrightarrow> P"
    and "r' = r\<lparr>er_stdin_open := False\<rparr> \<Longrightarrow> P"
    and "r' = r\<lparr>er_stdout_open := False\<rparr> \<Longrightarrow> P"
    and "\<And>m ms. er_in r = m # ms \<Longrightarrow> r' = r\<lparr>er_in := ms, er_taken := er_taken r @ [m]\<rparr> \<Longrightarrow> P"
    and "\<And>m. er_out_open r \<Longrightarrow> er_writer r \<noteq> Gone \<Longrightarrow> length (er_out r) < SERVER_QUEUE \<Longrightarrow>
      r' = r\<lparr>er_given := er_given r @ [m], er_out := er_out r @ [m]\<rparr> \<Longrightarrow> P"
    and "r' = r\<lparr>er_in_open := False, er_in := []\<rparr> \<Longrightarrow> P"
    and "r' = r\<lparr>er_out_open := False\<rparr> \<Longrightarrow> P"
  shows P
proof (cases ev)
  case (Editor_sends m)
  with assms(1,2) show P by (auto simp: receptor_end_def split: if_split_asm)
next
  case Editor_takes
  with assms(1,3) show P by (auto simp: receptor_end_def editor_takes_def split: thread.split_asm if_split_asm)
next
  case Server_takes
  with assms(1,6) show P by (auto simp: receptor_end_def split: list.split_asm)
next
  case (Server_gives m)
  with assms(1,7) show P by (auto simp: receptor_end_def split: if_split_asm)
qed (use assms(1,4,5,8,9) in \<open>auto simp: receptor_end_def\<close>)

lemma own_ok:
  assumes "receptor_own ev r = Some r'" and "receptor_ok r"
  shows "receptor_ok r'"
  using assms(1) by (cases rule: own_cases) (use assms(2) in \<open>simp_all add: receptor_ok_def ERR_QUEUE_def\<close>)

lemma end_ok:
  assumes "receptor_end ev r = Some r'" and "receptor_ok r"
  shows "receptor_ok r'"
  using assms(1) by (cases rule: end_cases) (use assms(2) in \<open>auto simp: receptor_ok_def\<close>)

interpretation receptor: invariant receptor_start receptor_step receptor_ok
  by unfold_locales
    (simp add: receptor_start_def main_loop_def receptor_ok_def, erule receptor_step.cases, blast intro: own_ok, blast intro: end_ok)

lemma own_logs:
  assumes "receptor_own ev r = Some r'"
  shows "er_typed r' = er_typed r \<and> er_taken r' = er_taken r \<and> er_given r' = er_given r \<and>
     er_shown r' = er_shown r \<and> er_in_open r' = er_in_open r \<and> er_stdout_open r' = er_stdout_open r"
  using assms by (cases rule: own_cases) simp_all

lemmas way_defs = to_server_way_def to_editor_way_def held_def

lemma own_ways:
  assumes "receptor_own ev r = Some r'" and "receptor_ok r"
  shows "er_in_open r \<Longrightarrow> to_server_way r' = to_server_way r"
    and "er_stdout_open r \<Longrightarrow> to_editor_way r' = to_editor_way r"
  using assms(1) by (cases rule: own_cases; use assms(2) in \<open>simp add: way_defs receptor_ok_def\<close>)+

lemma end_logs:
  assumes "receptor_end ev r = Some r'"
  shows "prefix (er_typed r) (er_typed r')" "prefix (er_given r) (er_given r')"
    "er_in_open r' \<Longrightarrow> er_in_open r" "er_stdout_open r' \<Longrightarrow> er_stdout_open r"
    "receptor_ok r \<Longrightarrow> \<not> er_in_open r' \<Longrightarrow> er_taken r' = er_taken r" "\<not> er_stdout_open r' \<Longrightarrow> er_shown r' = er_shown r"
  using assms by (cases rule: end_cases; auto simp: receptor_ok_def)+

lemma end_ways:
  assumes "receptor_end ev r = Some r'" and "receptor_ok r"
  shows "er_in_open r' \<Longrightarrow> er_typed r = er_taken r @ to_server_way r \<Longrightarrow> er_typed r' = er_taken r' @ to_server_way r'"
    and "er_stdout_open r' \<Longrightarrow> er_given r = er_shown r @ to_editor_way r \<Longrightarrow> er_given r' = er_shown r' @ to_editor_way r'"
  using assms(1) by (cases rule: end_cases; use assms(2) in \<open>auto simp: receptor_ok_def way_defs split: thread.split\<close>)+

lemma started: "receptor_start r \<Longrightarrow> er_typed r = er_taken r @ to_server_way r"
    "receptor_start r \<Longrightarrow> er_given r = er_shown r @ to_editor_way r"
  by (simp_all add: receptor_start_def main_loop_def to_server_way_def to_editor_way_def held_def)

interpretation requests: conduit receptor_start receptor_step er_typed er_taken to_server_way er_in_open
proof unfold_locales
  fix r r' :: "'a receptor"
  assume s: "reaches receptor_start receptor_step r" "receptor_step r r'"
  note ok = receptor.reached [OF s(1)]
  show "er_typed r' = er_taken r' @ to_server_way r'" if "er_in_open r'" "er_typed r = er_taken r @ to_server_way r"
    using s(2) that ok by cases (use own_logs own_ways end_ways(1) in metis)+
  show "er_taken r' = er_taken r" if "\<not> er_in_open r'"
    using s(2) that ok by cases (use own_logs end_logs(5) in metis)+
qed (auto simp: started(1) elim!: receptor_step.cases dest: own_logs end_logs(1,3))

interpretation answers: conduit receptor_start receptor_step er_given er_shown to_editor_way er_stdout_open
proof unfold_locales
  fix r r' :: "'a receptor"
  assume s: "reaches receptor_start receptor_step r" "receptor_step r r'"
  note ok = receptor.reached [OF s(1)]
  show "er_given r' = er_shown r' @ to_editor_way r'" if "er_stdout_open r'" "er_given r = er_shown r @ to_editor_way r"
    using s(2) that ok by cases (use own_logs own_ways end_ways(2) in metis)+
  show "er_shown r' = er_shown r" if "\<not> er_stdout_open r'"
    using s(2) that ok by cases (use own_logs end_logs(6) in metis)+
qed (auto simp: started(2) elim!: receptor_step.cases dest: own_logs end_logs(2,4))

section \<open>The threads come to rest\<close>

definition thread_weight :: "'m thread \<Rightarrow> nat" where
  "thread_weight t = (case t of Idle \<Rightarrow> 2 | Holding _ \<Rightarrow> 3 | Telling _ \<Rightarrow> 1 | Gone \<Rightarrow> 0)"

definition receptor_weight :: "'m receptor \<Rightarrow> nat" where
  "receptor_weight r = 2 * length (er_stdin r) + thread_weight (er_reader r) + 2 * length (er_out r) +
     thread_weight (er_writer r) + (if er_done r then 0 else 1)"

lemma own_weight:
  assumes "receptor_own ev r = Some r'"
  shows "receptor_weight r' < receptor_weight r"
  using assms by (cases rule: own_cases) (simp_all add: receptor_weight_def thread_weight_def)

lemma receptor_reaches:
  "receptor_own ev r = Some r' \<Longrightarrow> reaches receptor_start receptor_step r \<Longrightarrow> reaches receptor_start receptor_step r'"
  "receptor_end ev' r = Some r' \<Longrightarrow> reaches receptor_start receptor_step r \<Longrightarrow> reaches receptor_start receptor_step r'"
  by (blast intro: reaches.Next receptor_step.intros)+

fun own_run :: "own_event list \<Rightarrow> 'm receptor \<Rightarrow> 'm receptor option" where
  "own_run [] r = Some r"
| "own_run (ev # evs) r = Option.bind (receptor_own ev r) (own_run evs)"

lemma own_run_weight: "own_run evs r = Some r' \<Longrightarrow> length evs + receptor_weight r' \<le> receptor_weight r"
proof (induction evs arbitrary: r)
  case (Cons ev evs)
  then obtain q where "receptor_own ev r = Some q" "own_run evs q = Some r'" by (auto simp: bind_eq_Some_conv)
  with Cons.IH own_weight show ?case by fastforce
qed simp

lemma own_run_reaches:
  "own_run evs r = Some r' \<Longrightarrow> reaches receptor_start receptor_step r \<Longrightarrow> reaches receptor_start receptor_step r'"
proof (induction evs arbitrary: r)
  case (Cons ev evs)
  then obtain q where q: "receptor_own ev r = Some q" "own_run evs q = Some r'" by (auto simp: bind_eq_Some_conv)
  with Cons receptor_reaches(1) show ?case by blast
qed simp

text \<open>A thread that waits for someone else.\<close>

definition reader_waits :: "'m receptor \<Rightarrow> bool" where
  "reader_waits r \<longleftrightarrow>
     (case er_reader r of
        Idle \<Rightarrow> er_stdin r = [] \<and> er_stdin_open r
      | Holding _ \<Rightarrow> er_in_open r \<and> length (er_in r) = SERVER_QUEUE
      | _ \<Rightarrow> False)"

definition writer_waits :: "'m receptor \<Rightarrow> bool" where
  "writer_waits r \<longleftrightarrow>
     (case er_writer r of Idle \<Rightarrow> er_out r = [] \<and> er_out_open r | Holding _ \<Rightarrow> er_stdout_open r | _ \<Rightarrow> False)"

lemma halted:
  assumes ok: "receptor_ok r" and no: "\<And>ev. receptor_own ev r = None"
  shows "er_shutdown r \<or> reader_waits r \<and> writer_waits r"
proof (cases "er_done r")
  case False
  have "er_err r = []"
    using no [of End_loop] False by (auto simp: receptor_own_def end_main_loop_def split: list.splits)
  with False ok have gone: "\<not> is_gone (er_reader r)" "\<not> is_gone (er_writer r)" by (auto simp: receptor_ok_def)
  have "reader_waits r"
    using no [of Read_editor] no [of Hand_to_server] no [of Tell_read] gone(1) False \<open>er_err r = []\<close> ok
    by (auto simp: receptor_own_def reader_waits_def read_editor_def hand_to_server_def tell_error_def ERR_QUEUE_def
        receptor_ok_def split: thread.splits list.splits if_splits)
  moreover have "writer_waits r"
    using no [of Take_from_server] no [of Hand_to_editor] no [of Tell_write] gone(2) False \<open>er_err r = []\<close> ok
    by (auto simp: receptor_own_def writer_waits_def take_from_server_def hand_to_editor_def tell_error_def ERR_QUEUE_def
        receptor_ok_def split: thread.splits list.splits if_splits)
  ultimately show ?thesis by simp
qed (use ok in \<open>simp add: receptor_ok_def\<close>)

section \<open>What the editor and the server can rely on\<close>

text \<open>C40: The editor receptor keeps the order: what the server has received is the beginning of what the editor has sent,
  and while the server receives, the rest is on its way; the same holds for what the server sends to
  the editor. Nothing is lost, doubled or overtaken.\<close>

theorem receptor_in_order:
  assumes "reaches receptor_start receptor_step r"
  shows "prefix (er_taken r) (er_typed r) \<and> (er_in_open r \<longrightarrow> er_typed r = er_taken r @ to_server_way r) \<and>
    prefix (er_shown r) (er_given r) \<and> (er_stdout_open r \<longrightarrow> er_given r = er_shown r @ to_editor_way r)"
  using requests.in_order [OF assms] requests.complete [OF assms] answers.in_order [OF assms] answers.complete [OF assms]
  by blast

text \<open>The editor receptor does not stall: its threads can make only so many steps on their own, and where they can make
  none, either it has shut the program down, or both wait for the editor or the server. It
  shuts the program down only when one of the four ends is closed.\<close>

theorem receptor_halts:
  assumes "reaches receptor_start receptor_step r" and "own_run evs r = Some r'"
  shows "length evs \<le> receptor_weight r \<and>
    ((\<forall>ev. receptor_own ev r' = None) \<longrightarrow> er_shutdown r' \<or> reader_waits r' \<and> writer_waits r') \<and>
    (er_shutdown r' \<longrightarrow> \<not> er_stdin_open r' \<or> \<not> er_in_open r' \<or> \<not> er_out_open r' \<or> \<not> er_stdout_open r')"
proof -
  have ok: "receptor_ok r'" using receptor.reached [OF own_run_reaches [OF assms(2,1)]] .
  have "is_gone t \<Longrightarrow> stopped t" for t :: "'a thread" by (cases t) simp_all
  with ok have "er_shutdown r' \<longrightarrow> \<not> er_stdin_open r' \<or> \<not> er_in_open r' \<or> \<not> er_out_open r' \<or> \<not> er_stdout_open r'"
    unfolding receptor_ok_def by blast
  with halted [OF ok] own_run_weight [OF assms(2)] show ?thesis by auto
qed

text \<open>A run: the editor sends two messages and ends; the server takes one.\<close>

fun receptor_run :: "(own_event + nat end_event) list \<Rightarrow> nat receptor \<Rightarrow> nat receptor option" where
  "receptor_run [] r = Some r"
| "receptor_run (Inl ev # evs) r = Option.bind (receptor_own ev r) (receptor_run evs)"
| "receptor_run (Inr ev # evs) r = Option.bind (receptor_end ev r) (receptor_run evs)"

lemma receptor_run_reaches:
  "receptor_run evs r = Some r' \<Longrightarrow> reaches receptor_start receptor_step r \<Longrightarrow> reaches receptor_start receptor_step r'"
  by (induction evs r rule: receptor_run.induct)
    (auto simp: bind_eq_Some_conv elim!: meta_mp intro: receptor_reaches)

definition two_messages :: "(own_event + nat end_event) list" where
  "two_messages = [Inr (Editor_sends 1), Inr (Editor_sends 2), Inl Read_editor, Inl Hand_to_server, Inr Server_takes,
     Inl Read_editor, Inr Editor_ends]"

lemma two_messages_run:
  obtains r :: "nat receptor" where "reaches receptor_start receptor_step r" and "er_typed r = [1, 2]" and "er_taken r = [1]"
    and "er_in_open r" and "to_server_way r = [2]"
    and "\<exists>r'. own_run [Hand_to_server, Read_editor, Tell_read, End_loop] r = Some r' \<and> er_shutdown r' \<and> er_in r' = [2]"
proof -
  have "map_option (\<lambda>r. (er_typed r, er_taken r, er_in_open r, to_server_way r,
      map_option (\<lambda>r'. (er_shutdown r', er_in r')) (own_run [Hand_to_server, Read_editor, Tell_read, End_loop] r)))
      (receptor_run two_messages main_loop) = Some ([1, 2], [1], True, [2], Some (True, [2]))"
    by code_simp
  then obtain r where r: "receptor_run two_messages main_loop = Some r" "er_typed r = [1, 2]" "er_taken r = [1]"
      "er_in_open r" "to_server_way r = [2]"
      "map_option (\<lambda>r'. (er_shutdown r', er_in r')) (own_run [Hand_to_server, Read_editor, Tell_read, End_loop] r) = Some (True, [2])"
    by auto
  have "reaches receptor_start receptor_step r"
    by (rule receptor_run_reaches [OF r(1)]) (simp add: reaches.Begin receptor_start_def)
  with r(2-6) that show thesis by fastforce
qed

lemma receptor_in_order_witness:
  "\<exists>r :: nat receptor. reaches receptor_start receptor_step r \<and> er_typed r = [1, 2] \<and> er_taken r = [1] \<and>
     prefix (er_taken r) (er_typed r) \<and> er_typed r = er_taken r @ to_server_way r"
proof -
  obtain r :: "nat receptor" where r: "reaches receptor_start receptor_step r" "er_typed r = [1, 2]" "er_taken r = [1]" "er_in_open r"
    by (rule two_messages_run)
  with receptor_in_order [OF r(1)] show ?thesis by blast
qed

lemma receptor_halts_witness:
  "\<exists>r r' :: nat receptor. reaches receptor_start receptor_step r \<and>
     own_run [Hand_to_server, Read_editor, Tell_read, End_loop] r = Some r' \<and> er_shutdown r' \<and>
     (\<not> er_stdin_open r' \<or> \<not> er_in_open r' \<or> \<not> er_out_open r' \<or> \<not> er_stdout_open r') \<and> 4 \<le> receptor_weight r"
proof -
  obtain r :: "nat receptor" where r: "reaches receptor_start receptor_step r"
      "\<exists>r'. own_run [Hand_to_server, Read_editor, Tell_read, End_loop] r = Some r' \<and> er_shutdown r' \<and> er_in r' = [2]"
    by (rule two_messages_run)
  with receptor_halts [OF r(1)] show ?thesis by fastforce
qed

end
