(* ===== verification/Websocket.thy ===== *)
theory Websocket
  imports Conduits Runtime
begin

text \<open>
  The web socket receptor (\<open>websocket_receptor.rs\<close>): the loop that accepts connections, and the task
  of a connection, which moves messages between the socket and two channels of its caller. The
  messages are a parameter, as is the one that \<open>err_msg\<close> makes of an error.
\<close>

section \<open>The task of a connection\<close>

text \<open>What the socket has for the task, the end of the stream last.\<close>

datatype 'm ws_item = Good 'm | Unparsable fmt_text | Not_text | Broken fmt_text

datatype 'm ws_phase = Selecting_ws | Handing_in 'm bool | Ws_ended

text \<open>
  \<open>wt_arrived\<close> is what the socket has delivered so far and the task has made messages of, \<open>wt_got\<close>
  what the caller has taken. A message that is handed in may be the last.
\<close>

record 'm ws_task =
  wt_stream :: "'m ws_item list"
  wt_stream_open :: bool
  wt_phase :: "'m ws_phase"
  wt_out :: "'m list"
  wt_caller :: bool
  wt_arrived :: "'m list"
  wt_got :: "'m list"
  wt_in :: "'m list"
  wt_in_open :: bool
  wt_sent :: "'m list"

definition WS_QUEUE :: nat where "WS_QUEUE = 16"

definition ws_task_new :: "'m ws_task" where
  "ws_task_new =
     \<lparr>wt_stream = [], wt_stream_open = True, wt_phase = Selecting_ws, wt_out = [], wt_caller = True, wt_arrived = [],
      wt_got = [], wt_in = [], wt_in_open = True, wt_sent = []\<rparr>"

definition hand_in :: "'m \<Rightarrow> bool \<Rightarrow> 'm ws_task \<Rightarrow> 'm ws_task" where
  "hand_in m final w = w\<lparr>wt_arrived := wt_arrived w @ [m], wt_phase := Handing_in m final\<rparr>"

text \<open>\<open>stream.next()\<close>; the first argument is \<open>err_msg\<close>.\<close>

definition ws_next :: "(fmt_text \<Rightarrow> 'm) \<Rightarrow> string \<Rightarrow> 'm ws_task \<Rightarrow> 'm ws_task option" where
  "ws_next err addr w =
     (case wt_stream w of
        [] \<Rightarrow> if wt_stream_open w then None else Some (w\<lparr>wt_phase := Ws_ended\<rparr>)
      | x # xs \<Rightarrow>
          (let w = w\<lparr>wt_stream := xs\<rparr>
           in Some (case x of
                Good m \<Rightarrow> hand_in m False w
              | Unparsable e \<Rightarrow> hand_in (err (Fmt ''Can't parse message: {:?}'' [A_fmt e])) False w
              | Not_text \<Rightarrow> w
              | Broken e \<Rightarrow> hand_in (err (Fmt ''Connection with {} broke: {}'' [A_str addr, A_fmt e])) True w)))"

text \<open>The send to the caller: it waits for room; errors of the last one are ignored, others end the task.\<close>

definition ws_hand :: "'m \<Rightarrow> bool \<Rightarrow> 'm ws_task \<Rightarrow> 'm ws_task option" where
  "ws_hand m final w =
     (if \<not> wt_caller w then Some (w\<lparr>wt_phase := Ws_ended\<rparr>)
      else if length (wt_out w) < WS_QUEUE
      then Some (w\<lparr>wt_out := wt_out w @ [m], wt_phase := (if final then Ws_ended else Selecting_ws)\<rparr>)
      else None)"

text \<open>A message of the caller is written to the socket, which may fail.\<close>

definition ws_write :: "(fmt_text \<Rightarrow> 'm) \<Rightarrow> string \<Rightarrow> fmt_text + unit \<Rightarrow> 'm ws_task \<Rightarrow> 'm ws_task option" where
  "ws_write err addr res w =
     (case wt_in w of
        [] \<Rightarrow> if wt_in_open w then None else Some (w\<lparr>wt_phase := Ws_ended\<rparr>)
      | m # ms \<Rightarrow>
          (let w = w\<lparr>wt_in := ms\<rparr>
           in Some (case res of
                Inr _ \<Rightarrow> w\<lparr>wt_sent := wt_sent w @ [m]\<rparr>
              | Inl e \<Rightarrow> hand_in (err (Fmt ''Connection with {} broke: {}'' [A_str addr, A_fmt e])) True w)))"

datatype 'm ws_event =
    Ws_next | Ws_hand | Ws_write "fmt_text + unit"
  | Ws_arrives "'m ws_item" | Ws_stream_ends | Caller_takes | Caller_sends 'm | Caller_drops_rx | Caller_drops_tx

definition ws_task_step :: "(fmt_text \<Rightarrow> 'm) \<Rightarrow> string \<Rightarrow> 'm ws_event \<Rightarrow> 'm ws_task \<Rightarrow> 'm ws_task option" where
  "ws_task_step err addr ev w =
     (case ev of
        Ws_next \<Rightarrow> (case wt_phase w of Selecting_ws \<Rightarrow> ws_next err addr w | _ \<Rightarrow> None)
      | Ws_hand \<Rightarrow> (case wt_phase w of Handing_in m final \<Rightarrow> ws_hand m final w | _ \<Rightarrow> None)
      | Ws_write res \<Rightarrow> (case wt_phase w of Selecting_ws \<Rightarrow> ws_write err addr res w | _ \<Rightarrow> None)
      | Ws_arrives x \<Rightarrow> if wt_stream_open w then Some (w\<lparr>wt_stream := wt_stream w @ [x]\<rparr>) else None
      | Ws_stream_ends \<Rightarrow> Some (w\<lparr>wt_stream_open := False\<rparr>)
      | Caller_takes \<Rightarrow>
          (case wt_out w of [] \<Rightarrow> None | m # ms \<Rightarrow> Some (w\<lparr>wt_out := ms, wt_got := wt_got w @ [m]\<rparr>))
      | Caller_sends m \<Rightarrow>
          if wt_in_open w \<and> wt_phase w \<noteq> Ws_ended \<and> length (wt_in w) < WS_QUEUE
          then Some (w\<lparr>wt_in := wt_in w @ [m]\<rparr>) else None
      | Caller_drops_rx \<Rightarrow> Some (w\<lparr>wt_caller := False, wt_out := []\<rparr>)
      | Caller_drops_tx \<Rightarrow> Some (w\<lparr>wt_in_open := False\<rparr>))"

definition ws_step :: "(fmt_text \<Rightarrow> 'm) \<Rightarrow> string \<Rightarrow> 'm ws_task \<Rightarrow> 'm ws_task \<Rightarrow> bool" where
  "ws_step err addr w w' \<longleftrightarrow> (\<exists>ev. ws_task_step err addr ev w = Some w')"

definition ws_start :: "'m ws_task \<Rightarrow> bool" where
  "ws_start w \<longleftrightarrow> w = ws_task_new"

definition ws_way :: "'m ws_task \<Rightarrow> 'm list" where
  "ws_way w = wt_out w @ (case wt_phase w of Handing_in m final \<Rightarrow> [m] | _ \<Rightarrow> [])"

lemmas ws_defs = ws_task_step_def ws_next_def ws_hand_def ws_write_def hand_in_def

definition ws_ok :: "'m ws_task \<Rightarrow> bool" where
  "ws_ok w \<longleftrightarrow> length (wt_out w) \<le> WS_QUEUE \<and> length (wt_in w) \<le> WS_QUEUE \<and> (\<not> wt_caller w \<longrightarrow> wt_out w = [])"

lemma ws_ok_step:
  assumes "ws_task_step err addr ev w = Some w'" and "ws_ok w"
  shows "ws_ok w'"
  using assms
  by (cases ev; cases "wt_phase w")
    (auto simp: ws_defs ws_ok_def Let_def split: list.split_asm ws_item.split_asm sum.split_asm if_split_asm)

interpretation ws: invariant ws_start "ws_step err addr" ws_ok for err addr
  by unfold_locales (simp add: ws_start_def ws_task_new_def ws_ok_def, auto simp: ws_step_def intro: ws_ok_step)

lemma ws_moves:
  assumes "ws_task_step err addr ev w = Some w'"
  shows "prefix (wt_arrived w) (wt_arrived w')"
    and "wt_caller w' \<Longrightarrow> wt_caller w"
    and "wt_caller w' \<Longrightarrow> wt_arrived w = wt_got w @ ws_way w \<Longrightarrow> wt_arrived w' = wt_got w' @ ws_way w'"
    and "ws_ok w \<Longrightarrow> \<not> wt_caller w' \<Longrightarrow> wt_got w' = wt_got w"
  using assms
  by (cases ev; cases "wt_phase w";
    auto simp: ws_defs ws_way_def ws_ok_def Let_def split: list.split_asm ws_item.split_asm sum.split_asm if_split_asm)+

interpretation socket: conduit ws_start "ws_step err addr" wt_arrived wt_got ws_way wt_caller for err addr
proof unfold_locales
  fix w w' :: "'a ws_task"
  assume s: "reaches ws_start (ws_step err addr) w" "ws_step err addr w w'"
  show "wt_arrived w' = wt_got w' @ ws_way w'" if "wt_caller w'" "wt_arrived w = wt_got w @ ws_way w"
    using s(2) that ws_moves(3) unfolding ws_step_def by blast
  show "wt_got w' = wt_got w" if "\<not> wt_caller w'"
    using s(2) that ws_moves(4) ws.reached [OF s(1)] unfolding ws_step_def by blast
qed (auto simp: ws_start_def ws_task_new_def ws_way_def ws_step_def dest: ws_moves(1,2))

lemma websocket_in_order:
  assumes "reaches ws_start (ws_step err addr) w"
  shows "prefix (wt_got w) (wt_arrived w) \<and> (wt_caller w \<longrightarrow> wt_arrived w = wt_got w @ ws_way w)"
  using socket.in_order [OF assms] socket.complete [OF assms] by blast

section \<open>Accepting connections\<close>

text \<open>The listener's results: a connection with the outcome of its handshake, or an error.\<close>

datatype accepted = Connection "fmt_text + unit" | Listen_failed

datatype accept_phase = Listening | Offering | Accept_returned "fmt_text + nat"

text \<open>
  \<open>accept\<close> holds the receiver of the channel of connections, which has room for one, until it
  returns it; \<open>ap_tasks\<close> counts the tasks it has started.
\<close>

record accepting =
  ap_phase :: accept_phase
  ap_waiting :: nat
  ap_tasks :: nat

definition SOCK_QUEUE :: nat where "SOCK_QUEUE = 1"

definition accept_start :: "fmt_text + unit \<Rightarrow> accepting" where
  "accept_start bound =
     \<lparr>ap_phase = (case bound of Inl e \<Rightarrow> Accept_returned (Inl e) | Inr _ \<Rightarrow> Listening), ap_waiting = 0, ap_tasks = 0\<rparr>"

datatype accept_event = Accepts accepted | Offers

definition accept_step :: "accept_event \<Rightarrow> accepting \<Rightarrow> accepting option" where
  "accept_step ev a =
     (case (ev, ap_phase a) of
        (Accepts (Connection (Inl e)), Listening) \<Rightarrow> Some (a\<lparr>ap_phase := Accept_returned (Inl e)\<rparr>)
      | (Accepts (Connection (Inr _)), Listening) \<Rightarrow> Some (a\<lparr>ap_phase := Offering\<rparr>)
      | (Accepts Listen_failed, Listening) \<Rightarrow> Some (a\<lparr>ap_phase := Accept_returned (Inr (ap_waiting a))\<rparr>)
      | (Offers, Offering) \<Rightarrow>
          if ap_waiting a < SOCK_QUEUE
          then Some (a\<lparr>ap_waiting := Suc (ap_waiting a), ap_tasks := Suc (ap_tasks a), ap_phase := Listening\<rparr>)
          else None
      | _ \<Rightarrow> None)"

text \<open>
  A finding: the caller gets the receiver of the connections only when \<open>accept\<close> returns. Until then
  nobody takes a connection out of the channel: after two connections \<open>accept\<close> waits for room forever.
\<close>

fun accept_run :: "accept_event list \<Rightarrow> accepting \<Rightarrow> accepting option" where
  "accept_run [] a = Some a"
| "accept_run (ev # evs) a = Option.bind (accept_step ev a) (accept_run evs)"

lemma two_connections_block:
  "\<exists>a. accept_run [Accepts (Connection (Inr ())), Offers, Accepts (Connection (Inr ()))] (accept_start (Inr ())) = Some a \<and>
     ap_phase a = Offering \<and> (\<forall>ev. accept_step ev a = None)"
proof -
  have "accept_step ev \<lparr>ap_phase = Offering, ap_waiting = 1, ap_tasks = 1\<rparr> = None" for ev
    by (auto simp: accept_step_def SOCK_QUEUE_def split: accept_event.split accepted.split sum.split)
  moreover have "accept_run [Accepts (Connection (Inr ())), Offers, Accepts (Connection (Inr ()))] (accept_start (Inr ())) =
      Some \<lparr>ap_phase = Offering, ap_waiting = 1, ap_tasks = 1\<rparr>"
    by code_simp
  ultimately show ?thesis by simp
qed

end
