(* ===== verification/Test_Transport.thy ===== *)
theory Test_Transport
  imports Web_Channel Conduits "HOL-Library.Multiset"
begin

text \<open>
  The transport between servers in one process (\<open>webchannel.rs\<close>): a table of the hosts with their
  inboxes, and an actor per connection that puts messages into the inbox of its peer and then
  delivers what is in it, at once or after a delay. An event is what an actor, a delayed task or a
  server does between two waits.
\<close>

section \<open>The routing table\<close>

datatype travel_time = Travel_random nat nat | Travel_ms nat | Travel_instant

text \<open>
  A host: its inbox, the channel to its server, which has room for one message, whether the server
  still receives, and what it has received so far.
\<close>

record host_state =
  hs_inbox :: "message list"
  hs_channel :: "message list"
  hs_open :: bool
  hs_received :: "message list"

record factory_state =
  fs_hosts :: "(server_id, host_state) hash_map"
  fs_connection_ids :: "(server_id \<times> server_id, connection_id) hash_map"

definition factory_new :: factory_state where
  "factory_new = \<lparr>fs_hosts = [], fs_connection_ids = []\<rparr>"

definition alter_host :: "server_id \<Rightarrow> (host_state \<Rightarrow> host_state) \<Rightarrow> factory_state \<Rightarrow> factory_state" where
  "alter_host h g fs = fs\<lparr>fs_hosts := AList.map_entry h g (fs_hosts fs)\<rparr>"

definition peer_connection_id :: "server_id \<Rightarrow> server_id \<Rightarrow> factory_state \<Rightarrow> connection_id option" where
  "peer_connection_id my_host peer fs = map_of (fs_connection_ids fs) (my_host, peer)"

definition push_inbox :: "server_id \<Rightarrow> message \<Rightarrow> factory_state \<Rightarrow> factory_state \<times> (fmt_text + unit)" where
  "push_inbox h m fs =
     (if map_of (fs_hosts fs) h = None then (fs, Inl (Fmt ''Host {} not registered'' [A_str h]))
      else (alter_host h (\<lambda>s. s\<lparr>hs_inbox := hs_inbox s @ [m]\<rparr>) fs, Inr ()))"

definition drain_inbox :: "server_id \<Rightarrow> factory_state \<Rightarrow> factory_state \<times> (fmt_text + message list)" where
  "drain_inbox h fs =
     (case map_of (fs_hosts fs) h of
        None \<Rightarrow> (fs, Inl (Fmt ''Host {} not registered'' [A_str h]))
      | Some s \<Rightarrow> (alter_host h (\<lambda>s. s\<lparr>hs_inbox := []\<rparr>) fs, Inr (hs_inbox s)))"

text \<open>\<open>new_for_test\<close> registers a new channel, in place of an older one of the host.\<close>

definition new_for_test :: "server_id \<Rightarrow> factory_state \<Rightarrow> web_channel \<times> factory_state" where
  "new_for_test my_host fs =
     (web_channel_new my_host,
      fs\<lparr>fs_hosts := AList.update my_host \<lparr>hs_inbox = [], hs_channel = [], hs_open = True, hs_received = []\<rparr> (fs_hosts fs)\<rparr>)"

section \<open>Actors\<close>

text \<open>A task has nothing to deliver, is to begin to deliver what is in an inbox, or is at it.\<close>

datatype test_job = No_job | Begin_job | Sending_job "message list"

text \<open>
  The actor of a connection: who it delivers to, the commands it has not taken, and its job. A
  delayed task has only a job, which it begins when it wakes up. \<open>tn_sent\<close> is what the actors have been
  given so far.
\<close>

record test_remote =
  tr_peer :: server_id
  tr_rx :: "message list"
  tr_job :: test_job

record test_net =
  tn_factory :: factory_state
  tn_travel :: travel_time
  tn_remotes :: "(nat, test_remote) hash_map"
  tn_delayed :: "(nat, test_remote) hash_map"
  tn_next :: nat
  tn_sent :: "message list"

text \<open>\<open>connect_test\<close>: the handle, the connection id for the tests to look up, and the actor.\<close>

definition connect_test ::
  "server_id \<Rightarrow> connection_id \<Rightarrow> nat \<Rightarrow> web_channel \<Rightarrow> test_net \<Rightarrow> web_channel \<times> test_net \<times> (fmt_text + unit)" where
  "connect_test peer cid t w n =
     (case insert_handle peer t w of
        (w, Inl e) \<Rightarrow> (w, n, Inl e)
      | (w, Inr _) \<Rightarrow>
          (w, n\<lparr>tn_factory := (tn_factory n)\<lparr>fs_connection_ids :=
                  AList.update (wc_host w, peer) cid (fs_connection_ids (tn_factory n))\<rparr>,
                tn_remotes := AList.update (tn_next n) \<lparr>tr_peer = peer, tr_rx = [], tr_job = No_job\<rparr> (tn_remotes n),
                tn_next := Suc (tn_next n)\<rparr>, Inr ()))"

lemma connected_id:
  "connect_test peer cid t w n = (w', n', Inr ()) \<Longrightarrow> peer_connection_id (wc_host w) peer (tn_factory n') = Some cid"
  by (auto simp: connect_test_def insert_handle_def peer_connection_id_def drop_handle_def Let_def
      split: option.split_asm if_split_asm sum.split_asm prod.split_asm)

text \<open>The delay of a message, from a random number; it panics on an empty range, and on one of all numbers.\<close>

definition travel_delay :: "travel_time \<Rightarrow> nat \<Rightarrow> nat option" where
  "travel_delay tt random =
     (case tt of
        Travel_instant \<Rightarrow> Some 0
      | Travel_ms ms \<Rightarrow> Some ms
      | Travel_random lo hi \<Rightarrow> if hi < lo \<or> hi - lo + 1 \<ge> 2 ^ 64 then None else Some (random mod (hi - lo + 1) + lo))"

text \<open>\<open>deliver\<close> begins with what is in the inbox; a host that is not registered has none.\<close>

definition begin_delivery :: "server_id \<Rightarrow> factory_state \<Rightarrow> factory_state \<times> test_job" where
  "begin_delivery h fs = (case drain_inbox h fs of (fs, Inl e) \<Rightarrow> (fs, No_job) | (fs, Inr ms) \<Rightarrow> (fs, Sending_job ms))"

text \<open>A message is sent when there is room; when the server receives no more, the rest is dropped.\<close>

definition deliver_one :: "server_id \<Rightarrow> message list \<Rightarrow> factory_state \<Rightarrow> (factory_state \<times> test_job) option" where
  "deliver_one h ms fs =
     (case ms of
        [] \<Rightarrow> Some (fs, No_job)
      | m # rest \<Rightarrow>
          (case map_of (fs_hosts fs) h of
             None \<Rightarrow> Some (fs, No_job)
           | Some s \<Rightarrow>
               if \<not> hs_open s then Some (fs, No_job)
               else if hs_channel s = [] then Some (alter_host h (\<lambda>s. s\<lparr>hs_channel := hs_channel s @ [m]\<rparr>) fs, Sending_job rest)
               else None))"

definition do_job :: "test_remote \<Rightarrow> factory_state \<Rightarrow> (factory_state \<times> test_job) option" where
  "do_job r fs =
     (case tr_job r of
        No_job \<Rightarrow> None
      | Begin_job \<Rightarrow> Some (begin_delivery (tr_peer r) fs)
      | Sending_job ms \<Rightarrow> deliver_one (tr_peer r) ms fs)"

text \<open>The message goes into the inbox; the delivery begins at once, or in a task of its own after the delay.\<close>

definition spawn_delayed :: "server_id \<Rightarrow> test_net \<Rightarrow> test_net" where
  "spawn_delayed h n =
     n\<lparr>tn_delayed := AList.update (tn_next n) \<lparr>tr_peer = h, tr_rx = [], tr_job = Begin_job\<rparr> (tn_delayed n),
       tn_next := Suc (tn_next n)\<rparr>"

definition route :: "message \<Rightarrow> nat \<Rightarrow> nat \<Rightarrow> test_remote \<Rightarrow> test_net \<Rightarrow> test_net option" where
  "route m random i r n =
     (case push_inbox (tr_peer r) m (tn_factory n) of
        (fs, Inl e) \<Rightarrow> Some n
      | (fs, Inr _) \<Rightarrow>
          (case travel_delay (tn_travel n) random of
             None \<Rightarrow> None
           | Some ms \<Rightarrow>
               (let n = n\<lparr>tn_factory := fs\<rparr>
                in Some (if ms = 0
                         then n\<lparr>tn_remotes := AList.update i (r\<lparr>tr_job := Begin_job\<rparr>) (tn_remotes n)\<rparr>
                         else spawn_delayed (tr_peer r) n))))"

datatype test_event =
    Tt_command nat message | Tt_route nat nat | Tt_deliver nat | Tt_late nat | Tt_receive server_id
  | Tt_close server_id | Tt_inject server_id message

text \<open>
  A command waits for room among the sixteen of an actor. \<open>inject_message\<close> puts a message into an inbox
  and delivers what is in it, as a delayed task that has woken up does.
\<close>

definition test_step :: "test_event \<Rightarrow> test_net \<Rightarrow> test_net option" where
  "test_step ev n =
     (case ev of
        Tt_command i m \<Rightarrow>
          (case map_of (tn_remotes n) i of
             None \<Rightarrow> None
           | Some r \<Rightarrow>
               if length (tr_rx r) < REMOTE_QUEUE
               then Some (n\<lparr>tn_remotes := AList.update i (r\<lparr>tr_rx := tr_rx r @ [m]\<rparr>) (tn_remotes n), tn_sent := tn_sent n @ [m]\<rparr>)
               else None)
      | Tt_route i random \<Rightarrow>
          (case map_of (tn_remotes n) i of
             None \<Rightarrow> None
           | Some r \<Rightarrow>
               (case (tr_job r, tr_rx r) of
                  (No_job, m # ms) \<Rightarrow>
                    (let r = r\<lparr>tr_rx := ms\<rparr>
                     in route m random i r (n\<lparr>tn_remotes := AList.update i r (tn_remotes n)\<rparr>))
                | _ \<Rightarrow> None))
      | Tt_deliver i \<Rightarrow>
          (case map_of (tn_remotes n) i of
             None \<Rightarrow> None
           | Some r \<Rightarrow>
               (case do_job r (tn_factory n) of
                  None \<Rightarrow> None
                | Some (fs, job) \<Rightarrow>
                    Some (n\<lparr>tn_factory := fs, tn_remotes := AList.update i (r\<lparr>tr_job := job\<rparr>) (tn_remotes n)\<rparr>)))
      | Tt_late i \<Rightarrow>
          (case map_of (tn_delayed n) i of
             None \<Rightarrow> None
           | Some r \<Rightarrow>
               (case do_job r (tn_factory n) of
                  None \<Rightarrow> None
                | Some (fs, job) \<Rightarrow>
                    Some (n\<lparr>tn_factory := fs, tn_delayed := AList.update i (r\<lparr>tr_job := job\<rparr>) (tn_delayed n)\<rparr>)))
      | Tt_receive h \<Rightarrow>
          (case map_of (fs_hosts (tn_factory n)) h of
             None \<Rightarrow> None
           | Some s \<Rightarrow>
               (case hs_channel s of
                  [] \<Rightarrow> None
                | m # ms \<Rightarrow>
                    Some (n\<lparr>tn_factory := alter_host h (\<lambda>s. s\<lparr>hs_channel := ms, hs_received := hs_received s @ [m]\<rparr>)
                      (tn_factory n)\<rparr>)))
      | Tt_close h \<Rightarrow>
          Some (n\<lparr>tn_factory := alter_host h (\<lambda>s. s\<lparr>hs_open := False, hs_channel := []\<rparr>) (tn_factory n)\<rparr>)
      | Tt_inject h m \<Rightarrow>
          (case push_inbox h m (tn_factory n) of
             (fs, Inl e) \<Rightarrow> None
           | (fs, Inr _) \<Rightarrow> Some (spawn_delayed h (n\<lparr>tn_factory := fs\<rparr>))))"

fun test_run :: "test_event list \<Rightarrow> test_net \<Rightarrow> test_net option" where
  "test_run [] n = Some n"
| "test_run (ev # evs) n = Option.bind (test_step ev n) (test_run evs)"

section \<open>One connection without delay\<close>

text \<open>One actor delivers to a host, at once, and no test injects messages.\<close>

definition host_of :: "server_id \<Rightarrow> test_net \<Rightarrow> host_state option" where
  "host_of h n = map_of (fs_hosts (tn_factory n)) h"

definition alone_start :: "server_id \<Rightarrow> test_net \<Rightarrow> bool" where
  "alone_start h n \<longleftrightarrow> tn_remotes n = [(0, \<lparr>tr_peer = h, tr_rx = [], tr_job = No_job\<rparr>)] \<and> tn_delayed n = [] \<and>
     tn_travel n = Travel_instant \<and> tn_sent n = [] \<and>
     host_of h n = Some \<lparr>hs_inbox = [], hs_channel = [], hs_open = True, hs_received = []\<rparr>"

definition alone_step :: "test_net \<Rightarrow> test_net \<Rightarrow> bool" where
  "alone_step n n' \<longleftrightarrow> (\<exists>ev. (case ev of Tt_inject _ _ \<Rightarrow> False | _ \<Rightarrow> True) \<and> test_step ev n = Some n')"

definition alone :: "server_id \<Rightarrow> test_net \<Rightarrow> test_remote \<Rightarrow> host_state \<Rightarrow> bool" where
  "alone h n r s \<longleftrightarrow> tn_remotes n = [(0, r)] \<and> tr_peer r = h \<and> tn_delayed n = [] \<and> tn_travel n = Travel_instant \<and>
     host_of h n = Some s \<and> (tr_job r = Begin_job \<or> hs_inbox s = []) \<and> (hs_open s \<or> hs_channel s = [])"

text \<open>What such a step does.\<close>

lemma alone_cases:
  assumes "alone_step n n'" and "alone h n r s"
  obtains (Command) m where "alone h n' (r\<lparr>tr_rx := tr_rx r @ [m]\<rparr>) s" and "tn_sent n' = tn_sent n @ [m]"
  | (Route) m ms where "tr_rx r = m # ms" and "tr_job r = No_job"
      and "alone h n' (r\<lparr>tr_rx := ms, tr_job := Begin_job\<rparr>) (s\<lparr>hs_inbox := [m]\<rparr>)" and "tn_sent n' = tn_sent n"
  | (Begins) "tr_job r = Begin_job" and "alone h n' (r\<lparr>tr_job := Sending_job (hs_inbox s)\<rparr>) (s\<lparr>hs_inbox := []\<rparr>)"
      and "tn_sent n' = tn_sent n"
  | (Deliver) m ms where "tr_job r = Sending_job (m # ms)" and "hs_open s" and "hs_channel s = []"
      and "alone h n' (r\<lparr>tr_job := Sending_job ms\<rparr>) (s\<lparr>hs_channel := [m]\<rparr>)" and "tn_sent n' = tn_sent n"
  | (Delivered) ms where "tr_job r = Sending_job ms" and "ms = [] \<or> \<not> hs_open s"
      and "alone h n' (r\<lparr>tr_job := No_job\<rparr>) s" and "tn_sent n' = tn_sent n"
  | (Receive) m ms where "hs_channel s = m # ms"
      and "alone h n' r (s\<lparr>hs_channel := ms, hs_received := hs_received s @ [m]\<rparr>)" and "tn_sent n' = tn_sent n"
  | (Close) "alone h n' r (s\<lparr>hs_open := False, hs_channel := []\<rparr>)" and "tn_sent n' = tn_sent n"
  | (Elsewhere) "alone h n' r s" and "tn_sent n' = tn_sent n"
proof -
  from assms(1) obtain ev where ev: "case ev of Tt_inject _ _ \<Rightarrow> False | _ \<Rightarrow> True" "test_step ev n = Some n'"
    unfolding alone_step_def by blast
  note a = assms(2) [unfolded alone_def host_of_def]
  note defs = alone_def host_of_def alter_host_def
  show thesis
  proof (cases ev)
    case (Tt_command i m)
    with ev a show thesis
      by (intro Command [of m]) (auto simp: test_step_def defs split: if_split_asm option.split_asm)
  next
    case (Tt_route i random)
    with ev a obtain m ms where m: "i = 0" "tr_rx r = m # ms" "tr_job r = No_job"
      by (auto simp: test_step_def split: if_split_asm test_job.split_asm list.split_asm)
    with ev a Tt_route show thesis
      by (intro Route [OF m(2,3)]) (auto simp: test_step_def route_def push_inbox_def travel_delay_def defs)
  next
    case (Tt_deliver i)
    with ev a have i: "i = 0" by (auto simp: test_step_def split: if_split_asm)
    show thesis
    proof (cases "tr_job r")
      case No_job
      with i ev a Tt_deliver show thesis by (simp add: test_step_def do_job_def)
    next
      case Begin_job
      with i ev a Tt_deliver show thesis
        by (intro Begins) (auto simp: test_step_def do_job_def begin_delivery_def drain_inbox_def defs)
    next
      case (Sending_job ms)
      show thesis
      proof (cases "ms = [] \<or> \<not> hs_open s")
        case True
        with i Sending_job ev a Tt_deliver show thesis
          by (intro Delivered [OF Sending_job True])
            (auto simp: test_step_def do_job_def deliver_one_def defs split: list.split_asm)
      next
        case False
        with i Sending_job ev a Tt_deliver show thesis
          by (cases ms; intro Deliver [of "hd ms" "tl ms"])
            (auto simp: test_step_def do_job_def deliver_one_def defs split: if_split_asm)
      qed
    qed
  next
    case (Tt_receive h')
    show thesis
    proof (cases "h' = h")
      case True
      with ev a Tt_receive show thesis
        by (cases "hs_channel s"; intro Receive [of "hd (hs_channel s)" "tl (hs_channel s)"]) (auto simp: test_step_def defs)
    next
      case False
      with ev a Tt_receive show thesis
        by (intro Elsewhere) (auto simp: test_step_def defs split: option.split_asm list.split_asm)
    qed
  next
    case (Tt_close h')
    show thesis
    proof (cases "h' = h")
      case True
      with ev a Tt_close show thesis by (intro Close) (auto simp: test_step_def defs)
    next
      case False
      with ev a Tt_close show thesis by (intro Elsewhere) (auto simp: test_step_def defs split: option.split)
    qed
  qed (use ev a in \<open>auto simp: test_step_def\<close>)
qed

text \<open>What is on its way to the host: in its channel, being delivered, in its inbox, not yet taken by the actor.\<close>

definition job_messages :: "test_job \<Rightarrow> message list" where
  "job_messages j = (case j of Sending_job ms \<Rightarrow> ms | _ \<Rightarrow> [])"

definition alone_way :: "server_id \<Rightarrow> test_net \<Rightarrow> message list" where
  "alone_way h n =
     (case (host_of h n, map_of (tn_remotes n) 0) of
        (Some s, Some r) \<Rightarrow> hs_channel s @ job_messages (tr_job r) @ hs_inbox s @ tr_rx r
      | _ \<Rightarrow> [])"

definition received_at :: "server_id \<Rightarrow> test_net \<Rightarrow> message list" where
  "received_at h n = (case host_of h n of None \<Rightarrow> [] | Some s \<Rightarrow> hs_received s)"

definition receives :: "server_id \<Rightarrow> test_net \<Rightarrow> bool" where
  "receives h n \<longleftrightarrow> (case host_of h n of None \<Rightarrow> False | Some s \<Rightarrow> hs_open s)"

lemma alone_simps:
  assumes "alone h n r s"
  shows "alone_way h n = hs_channel s @ job_messages (tr_job r) @ hs_inbox s @ tr_rx r"
    and "received_at h n = hs_received s" and "receives h n = hs_open s"
  using assms by (simp_all add: alone_def alone_way_def received_at_def receives_def)

lemma alone_started:
  assumes "alone_start h n"
  shows "alone h n \<lparr>tr_peer = h, tr_rx = [], tr_job = No_job\<rparr>
    \<lparr>hs_inbox = [], hs_channel = [], hs_open = True, hs_received = []\<rparr>"
  using assms by (simp add: alone_start_def alone_def)

interpretation alone: invariant "alone_start h" alone_step "\<lambda>n. \<exists>r s. alone h n r s" for h
  by unfold_locales (blast intro: alone_started, blast elim: alone_cases)

lemma alone_moves:
  assumes "alone_step n n'" and "alone h n r s"
  shows "prefix (tn_sent n) (tn_sent n') \<and> (receives h n' \<longrightarrow> receives h n) \<and>
    (receives h n' \<longrightarrow> tn_sent n = received_at h n @ alone_way h n \<longrightarrow> tn_sent n' = received_at h n' @ alone_way h n') \<and>
    (\<not> receives h n' \<longrightarrow> received_at h n' = received_at h n)"
  using assms
proof (cases rule: alone_cases)
  case (Command m)
  with alone_simps [OF assms(2)] alone_simps [OF Command(1)] show ?thesis by simp
next
  case (Route m ms)
  with alone_simps [OF assms(2)] alone_simps [OF Route(3)] assms(2) show ?thesis by (simp add: job_messages_def alone_def)
next
  case Begins
  with alone_simps [OF assms(2)] alone_simps [OF Begins(2)] show ?thesis by (simp add: job_messages_def)
next
  case (Deliver m ms)
  with alone_simps [OF assms(2)] alone_simps [OF Deliver(4)] show ?thesis by (simp add: job_messages_def)
next
  case (Delivered ms)
  with alone_simps [OF assms(2)] alone_simps [OF Delivered(3)] show ?thesis by (auto simp: job_messages_def)
next
  case (Receive m ms)
  with alone_simps [OF assms(2)] alone_simps [OF Receive(2)] show ?thesis
    using assms(2) by (auto simp: alone_def)
next
  case Close
  with alone_simps [OF assms(2)] alone_simps [OF Close(1)] show ?thesis by simp
next
  case Elsewhere
  with alone_simps [OF assms(2)] alone_simps [OF Elsewhere(1)] show ?thesis by simp
qed

interpretation single: conduit "alone_start h" alone_step tn_sent "received_at h" "alone_way h" "receives h" for h
proof unfold_locales
  fix n n'
  assume "reaches (alone_start h) alone_step n" "alone_step n n'"
  with alone.reached obtain r s where "alone h n r s" by blast
  note moves = alone_moves [OF \<open>alone_step n n'\<close> this]
  show "prefix (tn_sent n) (tn_sent n')" using moves by blast
  show "receives h n" if "receives h n'" using moves that by blast
  show "tn_sent n' = received_at h n' @ alone_way h n'" if "receives h n'" "tn_sent n = received_at h n @ alone_way h n"
    using moves that by blast
  show "received_at h n' = received_at h n" if "\<not> receives h n'"
    using moves that by blast
next
  fix n
  assume "alone_start h n"
  with alone_simps [OF alone_started [OF this]] show "tn_sent n = received_at h n @ alone_way h n"
    by (simp add: alone_start_def job_messages_def)
qed

lemma test_transport_in_order:
  assumes "reaches (alone_start h) alone_step n"
  shows "prefix (received_at h n) (tn_sent n) \<and> (receives h n \<longrightarrow> tn_sent n = received_at h n @ alone_way h n)"
  using single.in_order [OF assms] single.complete [OF assms] by blast

section \<open>Several connections\<close>

text \<open>
  A finding: with two connections to a host, messages of one can overtake each other even without
  delay. Each actor delivers what is in the inbox, also what the other has put there, while the
  other goes on. Here the first actor puts 1 into the inbox, the second takes it from there, and the
  first delivers 2 before the second has delivered 1.
\<close>

definition numbered :: "doc_id \<Rightarrow> message" where
  "numbered k = \<lparr>mg_host = ''a'', mg_body = M_file_shared k, mg_req_id = None\<rparr>"

definition two_actors :: test_net where
  "two_actors =
     \<lparr>tn_factory = snd (new_for_test ''h'' factory_new), tn_travel = Travel_instant,
      tn_remotes = [(0, \<lparr>tr_peer = ''h'', tr_rx = [], tr_job = No_job\<rparr>), (1, \<lparr>tr_peer = ''h'', tr_rx = [], tr_job = No_job\<rparr>)],
      tn_delayed = [], tn_next = 2, tn_sent = []\<rparr>"

lemma two_connections_reorder:
  "map_option (received_at ''h'')
     (test_run [Tt_command 0 (numbered 1), Tt_command 0 (numbered 2), Tt_command 1 (numbered 3), Tt_route 0 0, Tt_route 1 0,
        Tt_deliver 1, Tt_deliver 0, Tt_deliver 0, Tt_route 0 0, Tt_deliver 0, Tt_deliver 0, Tt_receive ''h'',
        Tt_deliver 1, Tt_receive ''h'', Tt_deliver 1, Tt_receive ''h''] two_actors) =
   Some [numbered 2, numbered 1, numbered 3]"
  by code_simp

end
