(* ===== verification/Test_Signaling.thy ===== *)
theory Test_Signaling
  imports Signaling_Client
begin

text \<open>
  The signaling clients of one process (\<open>signaling/client.rs\<close>): instead of a server there is a table
  of the endpoints that are bound at an address, with their trust lists and sockets, and messages go
  from client to client. The clients are said to mirror the signaling server; here it is proved for
  the messages between two endpoints and for changes of the trust list.
\<close>

section \<open>State\<close>

text \<open>An endpoint: the server loop that its messages go to, whom it trusts, and its sockets.\<close>

record test_endpoint =
  te_loop :: nat
  te_trusted :: "server_id hash_set"
  te_socks :: "(server_id, sock_id) hash_map"

text \<open>
  What was sent, with the loop whose process it goes to. Most of it is sent by tasks of their own,
  so it may arrive in another order.
\<close>

record test_factory =
  tf_endpoints :: "(string \<times> server_id, test_endpoint) hash_map"
  tf_next_sock :: sock_id
  tf_out :: "(nat \<times> client_out) list"

record test_client =
  tc_id :: server_id
  tc_addr :: string
  tc_loop :: nat
  tc_cmds :: "command list"

definition test_factory_new :: test_factory where
  "test_factory_new = \<lparr>tf_endpoints = [], tf_next_sock = 0, tf_out = []\<rparr>"

definition emit_test :: "nat \<Rightarrow> client_out \<Rightarrow> test_factory \<Rightarrow> test_factory" where
  "emit_test loop x fs = fs\<lparr>tf_out := tf_out fs @ [(loop, x)]\<rparr>"

section \<open>Routing\<close>

text \<open>Who a message is from and to, for the three that are routed.\<close>

fun ends_of :: "signaling_msg \<Rightarrow> (server_id \<times> server_id) option" where
  "ends_of (SM_connect sender receiver _) = Some (sender, receiver)"
| "ends_of (SM_sdp sender receiver _) = Some (sender, receiver)"
| "ends_of (SM_candidate sender receiver _) = Some (sender, receiver)"
| "ends_of _ = None"

definition sock_missing :: "server_id \<Rightarrow> server_id \<Rightarrow> fmt_text" where
  "sock_missing sender receiver = Fmt ''Sock for peer {} not found in receiver {}'' [A_str sender, A_str receiver]"

definition route_signaling :: "string \<Rightarrow> signaling_msg \<Rightarrow> test_factory \<Rightarrow> test_factory \<times> (fmt_text + unit)" where
  "route_signaling addr m fs =
     (case ends_of m of
        None \<Rightarrow> (fs, Inl (lit ''route: unexpected variant {:?}''))
      | Some (sender, receiver) \<Rightarrow>
          (case map_of (tf_endpoints fs) (addr, receiver) of
             None \<Rightarrow> (fs, Inl (Fmt ''Receiver {} not bound to signaling addr {}'' [A_str receiver, A_str addr]))
           | Some e \<Rightarrow>
               if sender \<notin> set (te_trusted e)
               then (case map_of (tf_endpoints fs) (addr, sender) of
                       None \<Rightarrow> (fs, Inr ())
                     | Some b \<Rightarrow>
                         (emit_test (te_loop b) (To_loop addr (Inr (SM_rejected sender (receiver @ '' does not trust sender'')))) fs,
                          Inr ()))
               else (case m of
                       SM_connect _ _ _ \<Rightarrow> (emit_test (te_loop e) (To_loop addr (Inr m)) fs, Inr ())
                     | SM_sdp _ _ sdp \<Rightarrow>
                         (case map_of (te_socks e) sender of
                            None \<Rightarrow> (fs, Inl (sock_missing sender receiver))
                          | Some k \<Rightarrow> (emit_test (te_loop e) (Sock_sdp k sdp) fs, Inr ()))
                     | SM_candidate _ _ candidate \<Rightarrow>
                         (case map_of (te_socks e) sender of
                            None \<Rightarrow> (fs, Inl (sock_missing sender receiver))
                          | Some k \<Rightarrow> (emit_test (te_loop e) (Sock_candidate k candidate) fs, Inr ()))
                     | _ \<Rightarrow> (fs, Inr ()))))"

section \<open>The client\<close>

definition bind_test :: "string \<Rightarrow> server_id \<Rightarrow> server_id list \<Rightarrow> nat \<Rightarrow> test_factory \<Rightarrow> test_client \<times> test_factory" where
  "bind_test addr i trusted loop fs =
     (\<lparr>tc_id = i, tc_addr = addr, tc_loop = loop, tc_cmds = []\<rparr>,
      emit_test loop (To_loop addr (Inr (SM_bound i trusted)))
        (fs\<lparr>tf_endpoints :=
           AList.update (addr, i) \<lparr>te_loop = loop, te_trusted = remdups trusted, te_socks = []\<rparr> (tf_endpoints fs)\<rparr>))"

definition handle_send_test :: "test_client \<Rightarrow> signaling_msg \<Rightarrow> test_factory \<Rightarrow> test_factory" where
  "handle_send_test c m fs =
     (case m of
        SM_connect _ _ _ \<Rightarrow> fst (route_signaling (tc_addr c) m fs)
      | SM_sdp _ _ _ \<Rightarrow> fst (route_signaling (tc_addr c) m fs)
      | SM_candidate _ _ _ \<Rightarrow> fst (route_signaling (tc_addr c) m fs)
      | SM_trust sender trusted \<Rightarrow>
          emit_test (tc_loop c) (To_loop (tc_addr c) (Inr (SM_trusted sender trusted)))
            (fs\<lparr>tf_endpoints := AList.map_entry (tc_addr c, sender) (\<lambda>e. e\<lparr>te_trusted := remdups trusted\<rparr>) (tf_endpoints fs)\<rparr>)
      | _ \<Rightarrow> fs)"

definition create_sock_test :: "test_client \<Rightarrow> server_id \<Rightarrow> test_factory \<Rightarrow> test_factory" where
  "create_sock_test c peer fs =
     emit_test (tc_loop c) (Sock_made (tf_next_sock fs) (tc_id c) peer)
       (fs\<lparr>tf_endpoints := AList.map_entry (tc_addr c, tc_id c)
             (\<lambda>e. e\<lparr>te_socks := AList.update peer (tf_next_sock fs) (te_socks e)\<rparr>) (tf_endpoints fs),
           tf_next_sock := tf_next_sock fs + 1\<rparr>)"

text \<open>A command, or nothing; and the end of the client, after which its endpoint is gone.\<close>

definition test_client_turn :: "test_client \<Rightarrow> test_factory \<Rightarrow> (test_client \<times> test_factory) option" where
  "test_client_turn c fs =
     (case tc_cmds c of
        [] \<Rightarrow> None
      | Cmd_send m # cs \<Rightarrow> Some (c\<lparr>tc_cmds := cs\<rparr>, handle_send_test c m fs)
      | Cmd_create_sock peer # cs \<Rightarrow> Some (c\<lparr>tc_cmds := cs\<rparr>, create_sock_test c peer fs))"

definition end_test_client :: "test_client \<Rightarrow> test_factory \<Rightarrow> test_factory" where
  "end_test_client c fs = fs\<lparr>tf_endpoints := AList.delete (tc_addr c, tc_id c) (tf_endpoints fs)\<rparr>"

section \<open>The clients mirror the signaling server\<close>

text \<open>The same endpoints are bound at the address, with the same trust, and each is still connected.\<close>

definition same_endpoint :: "sig_server \<Rightarrow> server_id \<Rightarrow> endpoint_info option \<Rightarrow> test_endpoint option \<Rightarrow> bool" where
  "same_endpoint s i e t \<longleftrightarrow>
     (case (e, t) of
        (None, None) \<Rightarrow> True
      | (Some e, Some t) \<Rightarrow> set (ei_trusted e) = set (te_trusted t) \<and> conn_open (ei_msg_tx e) s
      | _ \<Rightarrow> False)"

definition mirrors :: "string \<Rightarrow> sig_server \<Rightarrow> test_factory \<Rightarrow> bool" where
  "mirrors addr s fs \<longleftrightarrow>
     (\<forall>i. same_endpoint s i (map_of (ss_endpoint_map s) i) (map_of (tf_endpoints fs) (addr, i)))"

lemma mirrors_out:
  "mirrors addr (s\<lparr>ss_out := xs\<rparr>) fs \<longleftrightarrow> mirrors addr s fs" "mirrors addr s (fs\<lparr>tf_out := ys\<rparr>) \<longleftrightarrow> mirrors addr s fs"
  by (simp_all add: mirrors_def same_endpoint_def conn_open_def split: option.split prod.split)

lemma mirrors_both:
  assumes "mirrors addr s fs"
  shows "map_of (ss_endpoint_map s) i = None \<longleftrightarrow> map_of (tf_endpoints fs) (addr, i) = None"
    and "map_of (ss_endpoint_map s) i = Some e \<Longrightarrow>
      \<exists>t. map_of (tf_endpoints fs) (addr, i) = Some t \<and> set (ei_trusted e) = set (te_trusted t) \<and> conn_open (ei_msg_tx e) s"
  using assms unfolding mirrors_def same_endpoint_def
  by (metis (no_types, lifting) case_prod_conv not_None_eq option.case(1,2))
    (use assms in \<open>force simp: mirrors_def same_endpoint_def split: option.split_asm dest: spec [of _ i]\<close>)

text \<open>What the receiver's client makes of a message that the server relays to it.\<close>

definition received_as :: "string \<Rightarrow> test_endpoint \<Rightarrow> signaling_msg \<Rightarrow> client_out list" where
  "received_as addr t m =
     ch_out (handle_incoming m
       \<lparr>ac_id = [], ac_addr = addr, ac_phase = Running, ac_socks = te_socks t, ac_cmds = [], ac_removed = False\<rparr>
       sig_channel_new)"

lemma routed_to_trusting:
  assumes "ends_of m = Some (sender, receiver)" and "map_of (tf_endpoints fs) (addr, receiver) = Some t"
    and "sender \<in> set (te_trusted t)"
  shows "fst (route_signaling addr m fs) = fs\<lparr>tf_out := tf_out fs @ map (Pair (te_loop t)) (received_as addr t m)\<rparr>"
  using assms
  by (cases m) (auto simp: route_signaling_def emit_test_def received_as_def handle_incoming_def put_out_def
    sig_channel_new_def split: option.split)

lemma routed_to_distrusting:
  assumes "ends_of m = Some (sender, receiver)" and "map_of (tf_endpoints fs) (addr, receiver) = Some t"
    and "sender \<notin> set (te_trusted t)" and "map_of (tf_endpoints fs) (addr, sender) = Some b"
  shows "fst (route_signaling addr m fs) =
    emit_test (te_loop b) (To_loop addr (Inr (SM_rejected sender (receiver @ '' does not trust sender'')))) fs"
  using assms by (simp add: route_signaling_def)

lemma handle_message_routed:
  assumes "ends_of m = Some (sender, receiver)"
  shows "handle_message now c recorded (Ws_text (Inr m)) s = relay c recorded sender receiver m s"
  using assms by (cases m) (simp_all add: handle_message_def)

lemma handle_send_routed: "ends_of m = Some x \<Longrightarrow> handle_send_test k m fs = fst (route_signaling (tc_addr k) m fs)"
  by (cases m) (simp_all add: handle_send_test_def)

text \<open>The clients for tests treat a message between two endpoints as the signaling server does, when it is
  bound by the same endpoints with the same trust: the receiver gets exactly what its client would
  make of the relayed message if it trusts the sender, and the sender is told that it is rejected
  otherwise. Only for a receiver that is not bound does the server answer and the test client not.\<close>

theorem test_clients_mirror_server:
  assumes mi: "mirrors (tc_addr k) s fs" and m: "ends_of m = Some (sender, receiver)"
    and c: "map_of (ss_endpoint_map s) sender = Some \<lparr>ei_msg_tx = c, ei_trusted = tr\<rparr>"
    and b: "map_of (tf_endpoints fs) (tc_addr k, sender) = Some b"
  shows "\<exists>s'. handle_message now c sender (Ws_text (Inr m)) s = (s', Inr ()) \<and>
    mirrors (tc_addr k) s' (handle_send_test k m fs) \<and>
    (case map_of (ss_endpoint_map s) receiver of
       None \<Rightarrow> handle_send_test k m fs = fs \<and> (\<exists>r. ss_out s' = ss_out s @ [(c, Ws_msg (SM_id_not_found sender r))])
     | Some e \<Rightarrow>
         if sender \<in> set (ei_trusted e)
         then ss_out s' = ss_out s @ [(ei_msg_tx e, Ws_msg m)] \<and>
           (\<exists>t. map_of (tf_endpoints fs) (tc_addr k, receiver) = Some t \<and>
              tf_out (handle_send_test k m fs) = tf_out fs @ map (Pair (te_loop t)) (received_as (tc_addr k) t m))
         else (\<exists>r r'. ss_out s' = ss_out s @ [(c, Ws_msg (SM_rejected sender r))] \<and>
           tf_out (handle_send_test k m fs) = tf_out fs @ [(te_loop b, To_loop (tc_addr k) (Inr (SM_rejected sender r')))]))"
proof -
  have o: "conn_open c s" using mirrors_both(2) [OF mi c] by auto
  note sent = handle_message_routed [OF m] handle_send_routed [OF m] relay_def check_id_def send_conn_def get_endpoint_info_def
  show ?thesis
  proof (cases "map_of (ss_endpoint_map s) receiver")
    case None
    with mirrors_both(1) [OF mi] have "map_of (tf_endpoints fs) (tc_addr k, receiver) = None" by blast
    with None o mi m show ?thesis by (simp add: sent route_signaling_def mirrors_out)
  next
    case (Some e)
    from mirrors_both(2) [OF mi this] obtain t where t: "map_of (tf_endpoints fs) (tc_addr k, receiver) = Some t"
        "set (ei_trusted e) = set (te_trusted t)" "conn_open (ei_msg_tx e) s" by blast
    show ?thesis
    proof (cases "sender \<in> set (ei_trusted e)")
      case True
      with Some t mi routed_to_trusting [OF m t(1)] show ?thesis by (simp add: sent mirrors_out)
    next
      case False
      with Some t o mi routed_to_distrusting [OF m t(1) _ b] show ?thesis by (simp add: sent emit_test_def mirrors_out)
    qed
  qed
qed

text \<open>Two endpoints that trust each other, at the server and in the table.\<close>

definition two_bound :: sig_server where
  "two_bound = accept_bind 0 0 2 (''b'', [''a'']) (accept_bind 0 0 1 (''a'', [''b'']) sig_server_new)"

definition two_listed :: test_factory where
  "two_listed = snd (bind_test ''s'' ''b'' [''a''] 2 (snd (bind_test ''s'' ''a'' [''b''] 1 test_factory_new)))"

lemma two_mirror: "mirrors ''s'' two_bound two_listed"
  by (auto simp: mirrors_def same_endpoint_def two_bound_def two_listed_def accept_bind_def bind_test_def emit_test_def
      test_factory_new_def sig_server_new_def conn_open_def)

lemma test_clients_mirror_server_witness:
  "\<exists>s'. handle_message 0 1 ''a'' (Ws_text (Inr (SM_connect ''a'' ''b'' True))) two_bound = (s', Inr ()) \<and>
     ss_out s' = [(2, Ws_msg (SM_connect ''a'' ''b'' True))] \<and>
     mirrors ''s'' s' (handle_send_test (fst (bind_test ''s'' ''a'' [''b''] 1 test_factory_new)) (SM_connect ''a'' ''b'' True) two_listed)"
proof -
  let ?k = "fst (bind_test ''s'' ''a'' [''b''] 1 test_factory_new)"
  have k: "tc_addr ?k = ''s''" by (simp add: bind_test_def)
  have e: "map_of (ss_endpoint_map two_bound) ''a'' = Some \<lparr>ei_msg_tx = 1, ei_trusted = [''b'']\<rparr>"
      "map_of (ss_endpoint_map two_bound) ''b'' = Some \<lparr>ei_msg_tx = 2, ei_trusted = [''a'']\<rparr>" "ss_out two_bound = []"
    by (simp_all add: two_bound_def accept_bind_def sig_server_new_def)
  obtain b where "map_of (tf_endpoints two_listed) (''s'', ''a'') = Some b"
    by (simp add: two_listed_def bind_test_def emit_test_def test_factory_new_def)
  with two_mirror test_clients_mirror_server [of ?k two_bound two_listed "SM_connect ''a'' ''b'' True", unfolded k, OF two_mirror _ e(1)]
  show ?thesis by (fastforce simp: e)
qed

text \<open>A change of the trust list, and its answer to the sender.\<close>

lemma trust_mirrored:
  assumes mi: "mirrors (tc_addr k) s fs" and c: "map_of (ss_endpoint_map s) sender = Some \<lparr>ei_msg_tx = c, ei_trusted = tr\<rparr>"
  shows "\<exists>s'. handle_message now c sender (Ws_text (Inr (SM_trust sender trusted))) s = (s', Inr ()) \<and>
    ss_out s' = ss_out s @ [(c, Ws_msg (SM_trusted sender trusted))] \<and>
    tf_out (handle_send_test k (SM_trust sender trusted) fs) =
      tf_out fs @ [(tc_loop k, To_loop (tc_addr k) (Inr (SM_trusted sender trusted)))] \<and>
    mirrors (tc_addr k) s' (handle_send_test k (SM_trust sender trusted) fs)"
proof -
  have o: "conn_open c s" and t: "map_of (tf_endpoints fs) (tc_addr k, sender) \<noteq> None"
    using mirrors_both(2) [OF mi c] by auto
  have o': "conn_open c' (update_trust sender (remdups trusted) s) = conn_open c' s" for c'
    by (simp add: conn_open_def update_trust_def)
  have "mirrors (tc_addr k) (update_trust sender (remdups trusted) s) (handle_send_test k (SM_trust sender trusted) fs)"
    unfolding mirrors_def
  proof
    fix i
    show "same_endpoint (update_trust sender (remdups trusted) s) i
        (map_of (ss_endpoint_map (update_trust sender (remdups trusted) s)) i)
        (map_of (tf_endpoints (handle_send_test k (SM_trust sender trusted) fs)) (tc_addr k, i))"
      using mi [unfolded mirrors_def, rule_format, of i] c t o
      by (cases "i = sender") (auto simp: same_endpoint_def handle_send_test_def emit_test_def update_trust_def conn_open_def
          split: option.splits)
  qed
  moreover have "ss_out (update_trust sender (remdups trusted) s) = ss_out s"
      "tf_out (handle_send_test k (SM_trust sender trusted) fs) =
        tf_out fs @ [(tc_loop k, To_loop (tc_addr k) (Inr (SM_trusted sender trusted)))]"
    by (simp_all add: update_trust_def handle_send_test_def emit_test_def)
  ultimately show ?thesis
    using o o' by (simp add: handle_message_def check_id_def send_conn_def mirrors_out)
qed

end
