(* ===== verification/Printing.thy ===== *)
theory Printing
  imports Session_Theorems History_Print
begin

text \<open>
  The history of a site can be printed at any moment of a session: the pointers of the undo queue
  lead to ops, ops of the host have their sequence numbers, and without undo no op is of the kind
  whose printing subtracts.
\<close>

definition unundone :: "op fat_op \<Rightarrow> bool" where
  "unundone f \<longleftrightarrow> fo_kind f = Original"

fun up_unundone :: "up_msg \<Rightarrow> bool" where
  "up_unundone (Op_from_client co) \<longleftrightarrow> list_all unundone (co_ops co)"
| "up_unundone (Request_ops k) \<longleftrightarrow> True"

definition site_unundone :: "peer \<Rightarrow> bool" where
  "site_unundone p \<longleftrightarrow> (let h = ce_gh (p_client p) in
     list_all unundone (h_local h) \<and> list_all (\<lambda>f. unundone f \<and> fo_seq f \<noteq> None) (h_global h) \<and>
     list_all unundone (p_down p) \<and> list_all up_unundone (p_up p))"

definition net_unundone :: "net \<Rightarrow> bool" where
  "net_unundone n \<longleftrightarrow> list_all unundone (h_global (se_gh (n_server n))) \<and>
     (\<forall>i p. n_peers n i = Some p \<longrightarrow> site_unundone p)"

lemma unundone_meta:
  assumes "map fo_meta fs = map fo_meta gs"
  shows "list_all unundone fs = list_all unundone gs"
  using assms by (induction fs gs rule: list_induct2') (auto simp: fo_meta_def unundone_def)

lemma unundone_assign: "assign_seq k fs = (gs, m) \<Longrightarrow> list_all unundone gs = list_all unundone fs"
  by (induction k fs arbitrary: gs m rule: assign_seq.induct) (auto simp: Let_def unundone_def split: prod.splits)

lemma unundone_bump: "list_all unundone fs \<Longrightarrow> bump_deltas k fs = fs"
  by (induction k fs rule: bump_deltas.induct) (auto simp: unundone_def)

lemma unundone_served:
  assumes "server_process_ops s ops k = (ps, s')" and "list_all unundone ops" and "list_all unundone (h_global (se_gh s))"
  shows "list_all unundone ps" and "list_all unundone (h_global (se_gh s'))"
proof -
  let ?q = "snd (quatradic_transform transform (ops_after (se_gh s) k) ops)"
  obtain gs m where a: "assign_seq (se_seq s) ?q = (gs, m)" by fastforce
  have "list_all unundone ?q" using assms(2) unundone_meta [OF fo_meta_quatradic(2)] by blast
  then have "list_all unundone gs" using unundone_assign [OF a] by simp
  moreover have "ps = gs" "h_global (se_gh s') = h_global (se_gh s) @ gs"
    using assms(1) a by (auto simp: server_process_ops_def Let_def split: prod.splits)
  ultimately show "list_all unundone ps" "list_all unundone (h_global (se_gh s'))" using assms(3) by simp_all
qed

lemma unundone_taken:
  assumes "process_remote_op c f = Some (c', Inr r)" and "unundone f"
    and "list_all unundone (h_local (ce_gh c))" and "list_all (\<lambda>f. unundone f \<and> fo_seq f \<noteq> None) (h_global (ce_gh c))"
  shows "list_all unundone (h_local (ce_gh c')) \<and> list_all (\<lambda>f. unundone f \<and> fo_seq f \<noteq> None) (h_global (ce_gh c'))"
proof -
  let ?t = "symmetric_transform transform f (h_local (ce_gh c))"
  have l: "list_all unundone (snd ?t)" using assms(3) unundone_meta [OF fo_meta_symmetric] by blast
  have g: "unundone (fst ?t)" "fo_seq (fst ?t) = fo_seq f"
    using assms(2) by (simp_all add: fst_symmetric_transform unundone_def)
  show ?thesis
    using assms l g unundone_bump [OF l, of 0]
    by (auto simp: process_remote_op_def client_convert_and_apply_def Let_def
        split: option.splits if_splits list.splits prod.splits bind_splits)
qed

lemma unundone_step:
  assumes "net_ok text0 n" and "net_unundone n" and "net_step n n'"
  shows "net_unundone n'"
  using assms(3)
proof cases
  case (Join i)
  with assms(2) show ?thesis
    by (auto simp: join_net_def net_unundone_def site_unundone_def set_peer_def client_engine_new_def history_new_def Let_def
        split: option.splits if_splits)
next
  case (Edit i p e g)
  from assms(1) Edit(1) have "site_ok (start_cells text0) (n_ops n) i p"
    by (auto simp: net_ok_def peer_ok_def)
  then have "represents (ce_doc (p_client p)) (app_ops t_apply (h_local (ce_gh (p_client p)))
      (doc_at (n_ops n) (start_cells text0) (ce_seq (p_client p))))" "queue_ok (ce_gh (p_client p))"
      "p_buffer p = visible (app_ops t_apply (h_local (ce_gh (p_client p)))
      (doc_at (n_ops n) (start_cells text0) (ce_seq (p_client p))))"
    by (auto simp: site_ok_def Let_def)
  with process_local_edit_ok [of "p_client p" _ e g] Edit(2) obtain c' o1 where c:
      "process_local_op (p_client p) \<lparr>ef_op = e, ef_group_seq = g\<rparr> (ce_site_seq (p_client p) + 1) = Some (c', Inr [own_instruction e])"
      "h_local (ce_gh c') = h_local (ce_gh (p_client p)) @ [new_local (p_client p) o1 g]"
      "h_global (ce_gh c') = h_global (ce_gh (p_client p))"
    by metis
  then obtain v where "n' = set_peer n i (p\<lparr>p_client := c', p_buffer := v\<rparr>)"
    using Edit(1,3) by (auto simp: edit_net_def split: bind_splits)
  moreover have "site_unundone p" using assms(2) Edit(1) by (auto simp: net_unundone_def)
  ultimately show ?thesis
    using assms(2) c(2,3)
    by (auto simp: net_unundone_def site_unundone_def set_peer_def Let_def new_local_def unundone_def
        split: if_splits)
next
  case (Send i doc)
  with assms(2) show ?thesis
    by (auto simp: send_net_def net_unundone_def site_unundone_def set_peer_def maybe_package_local_ops_def
        package_local_ops_def Let_def split: bind_splits option.splits prod.splits if_splits)
next
  case (Serve i)
  then obtain p m rest where p: "n_peers n i = Some p" "p_up p = m # rest"
    by (auto simp: serve_net_def split: bind_splits list.splits)
  then have sp: "site_unundone p" using assms(2) by (auto simp: net_unundone_def)
  show ?thesis
  proof (cases m)
    case (Request_ops k)
    with Serve p have "n' = (set_peer n i (p\<lparr>p_up := rest, p_down := p_down p @ global_ops_after (n_server n) k\<rparr>))
        \<lparr>n_subs := (n_subs n)(i := Some 0)\<rparr>" by (simp add: serve_net_def)
    moreover have "list_all unundone (global_ops_after (n_server n) k)"
      using assms(2) by (auto simp: net_unundone_def global_ops_after_def ops_after_def list_all_iff dest: in_set_dropD)
    ultimately show ?thesis
      using assms(2) sp p(2) by (auto simp: net_unundone_def site_unundone_def set_peer_def Let_def)
  next
    case (Op_from_client co)
    obtain ops s where o: "server_process_ops (n_server n) (co_ops co) (co_context co) = (ops, s)" by fastforce
    with Serve p Op_from_client obtain d v q where "n' = broadcast ((set_peer n i (p\<lparr>p_up := rest\<rparr>))
        \<lparr>n_server := s\<lparr>se_doc := d\<rparr>, n_text := v, n_subs := (n_subs n)(i := Some q)\<rparr>) ops"
      by (auto simp: serve_net_def Let_def split: bind_splits)
    moreover have "list_all unundone ops" "list_all unundone (h_global (se_gh s))"
      using unundone_served [OF o] sp p(2) Op_from_client assms(2) by (auto simp: net_unundone_def site_unundone_def Let_def)
    ultimately show ?thesis
      using assms(2) sp p(2)
      by (auto simp: net_unundone_def site_unundone_def set_peer_def broadcast_def Let_def split: option.splits if_splits)
  qed
next
  case (Take i)
  then obtain p f rest c' r where p: "n_peers n i = Some p" "p_down p = f # rest"
      "process_remote_op (p_client p) f = Some (c', Inr r)"
    by (auto simp: take_net_def split: bind_splits list.splits sum.splits)
  then have sp: "site_unundone p" using assms(2) by (auto simp: net_unundone_def)
  with unundone_taken [OF p(3)] p(2) have "list_all unundone (h_local (ce_gh c')) \<and>
      list_all (\<lambda>f. unundone f \<and> fo_seq f \<noteq> None) (h_global (ce_gh c'))"
    by (simp add: site_unundone_def Let_def)
  moreover obtain v where "n' = set_peer n i (p\<lparr>p_client := c', p_buffer := v, p_down := rest\<rparr>)"
  proof (cases r)
    case None
    with Take p have "n' = set_peer n i (p\<lparr>p_client := c', p_buffer := p_buffer p, p_down := rest\<rparr>)"
      by (simp add: take_net_def)
    with that show thesis by blast
  next
    case (Some x)
    with Take p that show thesis by (cases x) (auto simp: take_net_def split: bind_splits)
  qed
  ultimately show ?thesis
    using assms(2) sp p(2) by (auto simp: net_unundone_def site_unundone_def set_peer_def Let_def)
qed

lemma reachable_unundone: "reachable text0 n \<Longrightarrow> net_unundone n"
proof (induction rule: reachable.induct)
  case Start
  show ?case by (simp add: net_unundone_def net_start_def server_engine_new_def history_new_def)
next
  case (Step n n')
  with unundone_step [OF reachable_ok [OF Step(1)]] show ?case by blast
qed

text \<open>The history of a site can be printed, in either form, in every state of a session.\<close>

theorem printing_never_fails:
  assumes "reachable text0 n" and "n_peers n i = Some p"
  shows "\<exists>ps. print_history debug (ce_gh (p_client p)) = Some ps"
proof -
  have "queue_ok (ce_gh (p_client p))"
    using reachable_ok [OF assms(1)] assms(2) by (auto simp: net_ok_def peer_ok_def site_ok_def Let_def)
  moreover have "site_unundone p"
    using reachable_unundone [OF assms(1)] assms(2) by (simp add: net_unundone_def)
  ultimately show ?thesis
    by (intro printable_prints) (auto simp: printable_def site_unundone_def Let_def list_all_iff unundone_def)
qed

lemma printing_never_fails_witness:
  "\<exists>n p ps. reachable [1, 2] n \<and> n_peers n 1 = Some p \<and> print_history True (ce_gh (p_client p)) = Some ps"
proof -
  obtain n p1 p2 where n: "reachable [1, 2] n" "n_peers n 1 = Some p1"
    by (rule sample_mid)
  with printing_never_fails [OF n] show ?thesis by blast
qed

end
