(* ===== verification/Spec2Isabelle.thy ===== *)
theory Spec2Isabelle
  imports Ot_Theorems Doc_Theorems Session_Theorems Undo_Theorems Connection_Theorems
    Server_Theorems Refinement_Theorems File_Theorems Signaling_Theorems Transport_Theorems
    Startup Filewatch Servers_Theorems Ice_Theorems Receptors Websocket Test_Transport
    Test_Signaling Printing
begin

text \<open>
  A verification of collab-mode (Rust, \<open>collab_mode/src\<close>), a collaborative editing server. Every
  user runs a process. Its editor talks to its \<open>Server\<close>; the servers of several users talk to each
  other through web channels, which they set up with the help of a signaling server or over ssh. A
  file is hosted by one server; the others open it remotely. Editing is concurrent: every server
  keeps a client engine for each file it has open (also for those it hosts), the host keeps a
  server engine that puts the ops of all sites in one order, and operational transformation brings
  the ops of one site past those of the others.

  \<^bold>\<open>How code is written here.\<close> Structs are records, enums are datatypes, with the names of
  the source. A function that can panic returns an option, \<open>None\<close> for the panic; one that returns
  \<open>Result\<close> returns a sum, \<open>Inl\<close> for the error. A method with \<open>&mut self\<close> takes the state and returns
  it changed. A loop is structural recursion, a \<open>function\<close> with a measure, or a fold with an early
  exit. Positions and lengths of documents are naturals (\<open>u64\<close> in the code: documents shorter than
  2^64); site ids, stream ids, sequence numbers of connections and frame lengths, where wrapping
  matters, are words. Code outside the repository is a parameter, a record of functions; where a
  property needs it to behave, the laws are a hypothesis with a name, and the witness of the property
  gives an instance.

  \<^bold>\<open>Operations and their transformation.\<close> \<open>Ops\<close>: \<open>op.rs\<close>, insertions and marks,
  \<open>transform_ii\<close>, \<open>transform_im\<close>, \<open>transform_mi\<close>, \<open>transform\<close>. \<open>Tombstone\<close>: the abstract document, every
  character ever inserted with a flag that is false once it is deleted. \<open>Agreement\<close>: when an op fits
  a document, and that transforming keeps this. \<open>Control\<close>: transforming lists of ops
  (\<open>symmetric_transform\<close>, \<open>quatradic_transform\<close> in \<open>engine.rs\<close>); the square of two lists is proved in the
  locale \<open>ot_operation\<close> from the square of two ops, and interpreted for the transformation of \<open>op.rs\<close>.
  \<open>Ot_Theorems\<close>: concurrent ops and concurrent lists of ops commute.

  \<^bold>\<open>The internal document\<close> (\<open>InternalDoc\<close>, \<open>engine.rs\<close>). \<open>Collab_Types\<close>: \<open>types.rs\<close>.
  \<open>Ranges\<close>: runs of live and of dead characters, the cursor of a site and its moves. \<open>Internal_Doc\<close>:
  \<open>convert_pos\<close>, \<open>apply_ins\<close>, \<open>apply_mark_dead\<close>, \<open>apply_mark_live\<close>, \<open>convert_internal_op_and_apply\<close>,
  \<open>convert_editor_op_and_apply\<close>. \<open>Editor_View\<close>: what an editor does with an edit instruction.
  \<open>Doc_Convert\<close>, \<open>Doc_Insert\<close>, \<open>Doc_Mark\<close>, \<open>Doc_Edit\<close>, \<open>Doc_Local\<close>: each operation implements the one on
  tombstones, through the relation \<open>represents\<close>, and the instruction it hands out is right for the
  buffer of the editor. \<open>Doc_Theorems\<close>: these as properties, with the round trip of a position.

  \<^bold>\<open>The engines and their sessions\<close> (\<open>engine.rs\<close>). \<open>History\<close>: \<open>GlobalHistory\<close> and the undo
  queue. \<open>Engine\<close>: \<open>ClientEngine\<close> and \<open>ServerEngine\<close>. \<open>Engine_Correct\<close>: one step of an engine, in the
  locale \<open>replica_doc\<close>, which says what an engine relies on in its document, interpreted for
  \<open>InternalDoc\<close>. \<open>Network\<close>: a session, the host and any number of sites with a FIFO channel each way;
  sites join at any time. \<open>Channel\<close>: what lies between one site and the host. \<open>Convergence\<close>: the
  invariant of sessions. \<open>Liveness\<close>: delivery lowers a measure, so it ends. \<open>Session_Theorems\<close>: at rest
  all buffers and texts are equal; no step of editing, serving or taking fails; deliveries
  terminate, at rest. \<open>History_Print\<close>: the printed forms of ops and of the history, with the
  subtractions and look-ups that can panic; \<open>Printing\<close>: in a session they do not.
  \<open>Undo\<close>, \<open>Undo_Theorems\<close>: what undo does while nothing arrives; \<open>Limits\<close>: runs in
  which it goes wrong when something does.

  \<^bold>\<open>The server\<close> (\<open>server.rs\<close>). \<open>Runtime\<close>: hash maps, time and formatted text. \<open>Config\<close>:
  permissions (\<open>config_man.rs\<close>). \<open>World\<close>: the connections a server wants and has. \<open>Paths\<close>: \<open>std::path\<close>.
  \<open>Messages\<close>: \<open>message.rs\<close>. \<open>Server_Docs\<close>: \<open>Doc\<close>, \<open>RemoteDoc\<close>, \<open>RemoteDocs\<close>. \<open>Server_State\<close>: \<open>Server\<close> and
  \<open>Next\<close>. \<open>Server_Connect\<close>: \<open>fix_world\<close> and the handlers of connections. \<open>Server_Ops\<close>: the handlers that
  carry ops. \<open>Disk\<close>: the calls of \<open>std::fs\<close>, \<open>opendal\<close>, the diff and the bulk calls as an environment.
  \<open>Server_Files\<close>, \<open>Server_Manage\<close>: the handlers of files. \<open>Server_Dispatch\<close>: the main loop and its
  dispatch, every request, notification and message. A handler takes the state and returns it with
  what it has sent (to the editor, to peers, to signaling servers) and, if it failed, the error.
  The proofs: \<open>World_Correct\<close> and \<open>Fix_World\<close> (the invariant of the connections; \<open>fix_world\<close> brings them
  to what is wanted, and once is enough), \<open>Server_Frame\<close> (what handlers leave alone, for
  permissions), \<open>Site_Ids\<close> (ids of sites do not repeat), \<open>Server_Samples\<close> (environments for the
  witnesses). \<open>Host_Refines\<close>, \<open>Client_Refines\<close>, \<open>Open_Refines\<close>: the handlers simulate the steps of
  \<open>Network\<close>, so the theorems on sessions hold of the server. \<open>Reset\<close>: a document is set to what is on
  disk. \<open>Connection_Theorems\<close>, \<open>Server_Theorems\<close>, \<open>Refinement_Theorems\<close>, \<open>File_Theorems\<close>: the
  properties.

  \<^bold>\<open>Servers together.\<close> \<open>Machines\<close>: reachable states, and the locales \<open>invariant\<close> and \<open>simulation\<close>
  for what holds in all of them. \<open>Servers\<close>: every server with its whole state and a FIFO channel from
  each to each; editors open one shared file and send edits, messages are handled by \<open>server_step\<close>.
  \<open>Servers_Correct\<close>: as a \<open>simulation\<close>, what such servers do is a session of \<open>Network\<close>, from opening
  over the snapshot to the ops; the handlers succeed in every state they get into.
  \<open>Servers_Theorems\<close>: the properties of this network, on its whole state: copies converge, no
  message fails, no edit that fits fails; and a run of a host and two guests.

  \<^bold>\<open>Signaling.\<close> \<open>Signaling_Auth\<close>: identities and signatures (\<open>signaling.rs\<close>,
  \<open>signaling/auth.rs\<close>). \<open>Signaling_Server\<close>: \<open>signaling/server.rs\<close> as events that interleave;
  \<open>Signaling_Tasks\<close>: the two tasks of one connection with their bounded channels. \<open>Signaling_Client\<close>:
  \<open>signaling/client.rs\<close>. \<open>Test_Signaling\<close>: its stand-in for tests, in one process, and that it sends
  what the server would. \<open>Signaling_Theorems\<close>: what a client sends to bind is accepted, messages go from
  a proved sender to one that trusts it, and how connections are lost.

  \<^bold>\<open>Transports.\<close> \<open>Frames\<close>: \<open>webchannel/byte_stream.rs\<close>, \<open>webchannel/io_remote.rs\<close>, length
  prefixed frames and the actor that reads and writes them. \<open>Sctp\<close>: the actor over an SCTP
  association (\<open>webchannel.rs\<close>), streams, pings and silence. \<open>Web_Channel\<close>: the table of actors, attempts
  to connect, and ssh (\<open>webchannel/ssh_remote.rs\<close>). \<open>Transport_Theorems\<close>: what is sent arrives, a peer
  has one actor and proves its certificate, and what can go wrong. \<open>Ice\<close>: \<open>ice.rs\<close>, the two tasks
  that find a path through the network, and what forwards their progress; the agent of the crate
  \<open>webrtc_ice\<close> is a record of the calls that may fail and of events. \<open>Errors\<close>: \<open>error.rs\<close>.
  \<open>Ice_Theorems\<close>: the two ends of an exchange take opposite roles, each with the other's credentials
  and candidates. \<open>Test_Transport\<close>: the transport for tests, in which messages travel for a while and
  arrive in the order sent, as long as there is one connection to a host.

  \<^bold>\<open>Around the server.\<close> \<open>Startup\<close>: the files, keys and identity of a process and \<open>main.rs\<close>.
  \<open>Filewatch\<close>: \<open>filewatch_receptor.rs\<close>. \<open>Receptors\<close>: \<open>editor_receptor.rs\<close>, the threads between the
  editor and the server, over stdio or a socket, with how they end. \<open>Websocket\<close>:
  \<open>websocket_receptor.rs\<close>. \<open>Conduits\<close>: the locale \<open>conduit\<close>, a machine that hands on what it takes in;
  what comes out is at every moment the first part of what went in. It is interpreted for the
  requests and for the answers of the editor, for a websocket and for the test transport.

  \<^bold>\<open>Parameters and their laws.\<close> \<open>gapbuf_laws\<close>: the crate \<open>gapbuf\<close> is a list with insertion
  and removal that panic out of range. \<open>crypto_laws\<close>: base64 and hashes; a signature made with a key
  verifies with its certificate. \<open>serde_ok\<close>: the messages at hand encode, decode to themselves, and
  their encodings fit into memory (\<open>sd_memory\<close>). \<open>packet_reads\<close>: a read on an SCTP stream returns one
  whole packet. \<open>ice_laws\<close>: credentials written as JSON and candidates written as text are read
  back. \<open>tools_ok\<close>: writing and reading a configuration or a certificate give it back. The
  disk, the diff, the clock, and the outcome of system calls are environments on which nothing is
  assumed unless the property says so.

  \<^bold>\<open>Bounds and fuel.\<close> Draining the actor of a byte stream takes fuel \<open>2 * length ms + 2\<close>: one
  step to write a message and one to read one. Delivering what is pending in a session takes at
  most the weight of the session in steps; that it ends is proved for every order of delivery. The
  queues have the sizes of the code (16 for actors, 1 in the signaling server, 1000 in its
  outgoing channels), because the deadlocks depend on them.

  \<^bold>\<open>What the development found.\<close> Sessions converge for insertions and deletions, for any
  number of sites, under any interleaving. They need not once undo meets concurrent edits, a file is
  not ASCII, or a document is reset after a deletion (\<open>Limits\<close>, \<open>Undo_Theorems\<close>, \<open>File_Theorems\<close>). The
  permission of a message rests on a field that its sender writes. A burst of messages stops the
  tasks of the signaling server (\<open>Signaling_Theorems\<close>); two big frames stop two actors, a command in
  the middle of a frame ends a connection, and one message in 32768 over SCTP goes to the stream of
  the pings (\<open>Transport_Theorems\<close>). A dial of the ICE agent that fails leaves the task of its
  candidates running (\<open>Ice_Theorems\<close>), the third websocket is never taken (\<open>Websocket\<close>), and two
  connections of the test transport to one host change the order of messages (\<open>Test_Transport\<close>).

  \<^bold>\<open>Not modelled.\<close> \<open>signaling/key_store.rs\<close>, a table in sqlite, and \<open>simple_op.rs\<close> belong to no module
  of the crate. The \<open>Debug\<close>, serde and hash instances that are derived, and tracing, have no effect on
  the state. The crates (the ICE agent, DTLS, SCTP, JSON-RPC, sockets, threads and the runtime) are
  parameters or events of the models that use them; the wiring of threads in \<open>main.rs\<close> is left out,
  and so are the programs in \<open>bin/\<close> and the tests.
\<close>

end
